(* ===== verification/Borsh_Prelude.thy ===== *)
theory Borsh_Prelude
  imports Main "HOL-Library.Word" "HOL-Library.Char_ord" "HOL-Library.List_Lexorder"
begin

section \<open>Prelude: results, effects, bytes\<close>

text \<open>
  Shared by every theory of the development: the outcome of a Rust call (a value, a
  returned error or a panic), the effect type of code that runs on a reader, a writer or
  a table (a state, and the possibility that a loop never returns), the little-endian
  byte representation of machine integers, Rust's decimal formatting, and the generic
  list lemmas the components use.
\<close>

named_theorems io_simps \<open>evaluation of the effect combinators\<close>

subsection \<open>Outcomes\<close>

text \<open>
  \<open>Result<T, E>\<close> together with the third way a Rust call can end: \<open>Ok\<close> and \<open>Err\<close> are
  the two variants of \<open>core::result::Result\<close>, \<open>Panic\<close> is an unwinding panic.
\<close>

datatype ('e, 'a) outcome = Ok 'a | Err 'e | Panic

type_synonym u8 = "8 word"
type_synonym u16 = "16 word"
type_synonym u32 = "32 word"
type_synonym u64 = "64 word"
type_synonym u128 = "128 word"
type_synonym bytes = "u8 list"

subsection \<open>Effects\<close>

text \<open>
  A call that may change a state of type \<open>'s\<close> (a reader, a writer, the table of schema
  definitions). \<open>None\<close> is a call that never returns.
\<close>

type_synonym ('s, 'e, 'a) eff = "'s \<Rightarrow> (('e, 'a) outcome \<times> 's) option"

definition ret :: "'a \<Rightarrow> ('s, 'e, 'a) eff" where
  "ret a = (\<lambda>s. Some (Ok a, s))"

definition fail :: "'e \<Rightarrow> ('s, 'e, 'a) eff" where
  "fail e = (\<lambda>s. Some (Err e, s))"

definition panic :: "('s, 'e, 'a) eff" where
  "panic = (\<lambda>s. Some (Panic, s))"

text \<open>Sequencing with the \<open>?\<close> operator: an error or a panic ends the block.\<close>

definition and_then :: "('s, 'e, 'a) eff \<Rightarrow> ('a \<Rightarrow> ('s, 'e, 'b) eff) \<Rightarrow> ('s, 'e, 'b) eff" where
  "and_then m f = (\<lambda>s. case m s of
       None \<Rightarrow> None
     | Some (Ok a, s') \<Rightarrow> f a s'
     | Some (Err e, s') \<Rightarrow> Some (Err e, s')
     | Some (Panic, s') \<Rightarrow> Some (Panic, s'))"

text \<open>\<open>Result::map_err\<close>.\<close>

definition map_err :: "('e \<Rightarrow> 'f) \<Rightarrow> ('s, 'e, 'a) eff \<Rightarrow> ('s, 'f, 'a) eff" where
  "map_err g m = (\<lambda>s. case m s of
       None \<Rightarrow> None
     | Some (Ok a, s') \<Rightarrow> Some (Ok a, s')
     | Some (Err e, s') \<Rightarrow> Some (Err (g e), s')
     | Some (Panic, s') \<Rightarrow> Some (Panic, s'))"

text \<open>A result computed without touching the state.\<close>

definition lift :: "('e, 'a) outcome \<Rightarrow> ('s, 'e, 'a) eff" where
  "lift r = (\<lambda>s. Some (r, s))"

text \<open>\<open>Result::map\<close>.\<close>

definition map_ok :: "('a \<Rightarrow> 'b) \<Rightarrow> ('s, 'e, 'a) eff \<Rightarrow> ('s, 'e, 'b) eff" where
  "map_ok g m = and_then m (\<lambda>a. ret (g a))"

text \<open>A \<open>for\<close> loop whose body ends with \<open>?\<close>.\<close>

fun for_each :: "('a \<Rightarrow> ('s, 'e, unit) eff) \<Rightarrow> 'a list \<Rightarrow> ('s, 'e, unit) eff" where
  "for_each f [] = ret ()"
| "for_each f (x # xs) = and_then (f x) (\<lambda>_. for_each f xs)"

text \<open>\<open>for _ in 0..n { result.push(m?); }\<close>, with the vector built so far.\<close>

fun push_times :: "nat \<Rightarrow> ('s, 'e, 'a) eff \<Rightarrow> 'a list \<Rightarrow> ('s, 'e, 'a list) eff" where
  "push_times 0 m result = ret result"
| "push_times (Suc n) m result = and_then m (\<lambda>x. push_times n m (result @ [x]))"

lemma ret_eval [io_simps]: "ret a s = Some (Ok a, s)"
  by (simp add: ret_def)

lemma fail_eval [io_simps]: "fail e s = Some (Err e, s)"
  by (simp add: fail_def)

lemma panic_eval [io_simps]: "panic s = Some (Panic, s)"
  by (simp add: panic_def)

lemma lift_eval [io_simps]: "lift r s = Some (r, s)"
  by (simp add: lift_def)

lemma lift_Ok [simp]: "lift (Ok a) = ret a"
  by (simp add: lift_def ret_def)

lemma lift_Err [simp]: "lift (Err e) = fail e"
  by (simp add: lift_def fail_def)

lemma and_then_eval [io_simps]:
  "m s = Some (Ok a, s') \<Longrightarrow> and_then m f s = f a s'"
  "m s = Some (Err e, s') \<Longrightarrow> and_then m f s = Some (Err e, s')"
  "m s = Some (Panic, s') \<Longrightarrow> and_then m f s = Some (Panic, s')"
  "m s = None \<Longrightarrow> and_then m f s = None"
  by (simp_all add: and_then_def)

lemma map_err_eval [io_simps]:
  "m s = Some (Ok a, s') \<Longrightarrow> map_err g m s = Some (Ok a, s')"
  "m s = Some (Err e, s') \<Longrightarrow> map_err g m s = Some (Err (g e), s')"
  "m s = Some (Panic, s') \<Longrightarrow> map_err g m s = Some (Panic, s')"
  "m s = None \<Longrightarrow> map_err g m s = None"
  by (simp_all add: map_err_def)

text \<open>The monad laws; the simplifier puts every block into right-nested form.\<close>

lemma and_then_ret [simp]: "and_then (ret a) f = f a"
  by (simp add: and_then_def ret_def)

lemma and_then_fail [simp]: "and_then (fail e) f = fail e"
  by (simp add: and_then_def fail_def)

lemma and_then_panic [simp]: "and_then panic f = panic"
  by (simp add: and_then_def panic_def)

lemma and_then_assoc [simp]:
  "and_then (and_then m f) g = and_then m (\<lambda>a. and_then (f a) g)"
  by (rule ext) (simp add: and_then_def split: option.splits prod.splits outcome.splits)

lemma and_then_ret_right [simp]: "and_then m ret = m"
  by (rule ext) (auto simp: and_then_def ret_def split: option.splits prod.splits outcome.splits)

lemma and_then_ret_unit [simp]: "and_then m (\<lambda>_. ret ()) = m"
  by (rule ext) (auto simp: and_then_def ret_def split: option.splits prod.splits outcome.splits)

lemma map_err_ret [simp]: "map_err g (ret a) = ret a"
  by (simp add: map_err_def ret_def)

lemma map_err_fail [simp]: "map_err g (fail e) = fail (g e)"
  by (simp add: map_err_def fail_def)

lemma and_then_Ok_iff:
  "and_then m f s = Some (Ok b, t) \<longleftrightarrow> (\<exists>a s'. m s = Some (Ok a, s') \<and> f a s' = Some (Ok b, t))"
  by (auto simp: and_then_def split: option.splits prod.splits outcome.splits)

lemma map_err_Ok_iff:
  "map_err g m s = Some (Ok b, t) \<longleftrightarrow> m s = Some (Ok b, t)"
  by (auto simp: map_err_def split: option.splits prod.splits outcome.splits)

lemma ret_Ok_iff: "ret a s = Some (Ok b, t) \<longleftrightarrow> b = a \<and> t = s"
  by (auto simp: ret_def)

lemma fail_Ok_iff: "fail e s = Some (Ok b, t) \<longleftrightarrow> False"
  by (simp add: fail_def)

lemma panic_Ok_iff: "panic s = Some (Ok b, t) \<longleftrightarrow> False"
  by (simp add: panic_def)

lemma map_ok_Ok_iff:
  "map_ok g m s = Some (Ok b, t) \<longleftrightarrow> (\<exists>a. m s = Some (Ok a, t) \<and> b = g a)"
  by (auto simp: map_ok_def and_then_Ok_iff ret_Ok_iff)

lemmas ok_iffs = and_then_Ok_iff map_err_Ok_iff ret_Ok_iff fail_Ok_iff panic_Ok_iff map_ok_Ok_iff

lemma for_each_append:
  "for_each f (xs @ ys) = and_then (for_each f xs) (\<lambda>_. for_each f ys)"
  by (induction xs) simp_all

subsection \<open>Little-endian bytes of machine integers\<close>

text \<open>\<open>to_le_bytes\<close> and \<open>from_le_bytes\<close> of Rust's integer types, for any width that is
  a whole number of bytes; first on natural numbers.\<close>

fun le_bytes :: "nat \<Rightarrow> nat \<Rightarrow> bytes" where
  "le_bytes 0 n = []"
| "le_bytes (Suc k) n = word_of_nat (n mod 256) # le_bytes k (n div 256)"

fun le_value :: "bytes \<Rightarrow> nat" where
  "le_value [] = 0"
| "le_value (b # bs) = unat b + 256 * le_value bs"

definition to_le_bytes :: "'n::len word \<Rightarrow> bytes" where
  "to_le_bytes w = le_bytes (LENGTH('n) div 8) (unat w)"

definition from_le_bytes :: "bytes \<Rightarrow> 'n::len word" where
  "from_le_bytes bs = word_of_nat (le_value bs)"

lemma length_le_bytes [simp]: "length (le_bytes k n) = k"
  by (induction k arbitrary: n) simp_all

lemma unat_byte [simp]: "unat (word_of_nat (n mod 256) :: u8) = n mod 256"
  by (simp add: unat_of_nat)

lemma unat_byte_less: "unat (b :: u8) < 256"
  using unsigned_less [of b, where ?'a = nat] by simp

lemma le_value_le_bytes: "le_value (le_bytes k n) = n mod 256 ^ k"
proof (induction k arbitrary: n)
  case 0
  then show ?case by simp
next
  case (Suc k)
  have "n mod (256 * 256 ^ k) = 256 * (n div 256 mod 256 ^ k) + n mod 256"
    by (rule mod_mult2_eq)
  with Suc show ?case by simp
qed

lemma le_value_less: "le_value bs < 256 ^ length bs"
proof (induction bs)
  case Nil
  then show ?case by simp
next
  case (Cons b bs)
  have "unat b < 256" by (rule unat_byte_less)
  with Cons show ?case by simp
qed

lemma le_bytes_le_value: "length bs = k \<Longrightarrow> le_bytes k (le_value bs) = bs"
proof (induction bs arbitrary: k)
  case Nil
  then show ?case by simp
next
  case (Cons b bs)
  have b: "unat b < 256" by (rule unat_byte_less)
  then have "(unat b + 256 * le_value bs) mod 256 = unat b"
    and "(unat b + 256 * le_value bs) div 256 = le_value bs" by simp_all
  with Cons show ?case by auto
qed

lemma length_to_le_bytes: "length (to_le_bytes (w :: 'n::len word)) = LENGTH('n) div 8"
  by (simp add: to_le_bytes_def)

lemma pow_256_div_8:
  assumes "8 dvd n"
  shows "(256 :: nat) ^ (n div 8) = 2 ^ n"
proof -
  obtain k where "n = 8 * k" using assms by (auto elim: dvdE)
  then show ?thesis by (simp add: power_mult)
qed

lemma from_to_le_bytes:
  assumes "8 dvd LENGTH('n::len)"
  shows "from_le_bytes (to_le_bytes (w :: 'n word)) = w"
proof -
  have "unat w < 2 ^ LENGTH('n)" by (rule unsigned_less)
  also have "(2 :: nat) ^ LENGTH('n) = 256 ^ (LENGTH('n) div 8)"
    using assms by (simp add: pow_256_div_8)
  finally have "unat w mod 256 ^ (LENGTH('n) div 8) = unat w" by simp
  then show ?thesis
    by (simp add: to_le_bytes_def from_le_bytes_def le_value_le_bytes)
qed

lemma to_from_le_bytes:
  assumes "8 dvd LENGTH('n::len)" and "length bs = LENGTH('n) div 8"
  shows "to_le_bytes (from_le_bytes bs :: 'n word) = bs"
proof -
  have "le_value bs < 256 ^ (LENGTH('n) div 8)"
    using le_value_less [of bs] assms(2) by simp
  also have "(256 :: nat) ^ (LENGTH('n) div 8) = 2 ^ LENGTH('n)"
    using assms(1) by (rule pow_256_div_8)
  finally have "unat (word_of_nat (le_value bs) :: 'n word) = le_value bs"
    by (simp add: unat_of_nat)
  then show ?thesis
    using assms(2) by (simp add: to_le_bytes_def from_le_bytes_def le_bytes_le_value)
qed

subsection \<open>Decimal formatting\<close>

text \<open>\<open>{}\<close> of an unsigned integer.\<close>

definition digit_char :: "nat \<Rightarrow> char" where
  "digit_char d = char_of (48 + d)"

function show_nat :: "nat \<Rightarrow> string" where
  "show_nat n = (if n < 10 then [digit_char n] else show_nat (n div 10) @ [digit_char (n mod 10)])"
  by pat_completeness auto
termination
  by (relation "measure id") auto

declare show_nat.simps [simp del]

text \<open>\<open>[T]::join\<close> on strings.\<close>

fun join :: "string \<Rightarrow> string list \<Rightarrow> string" where
  "join sep [] = []"
| "join sep [s] = s"
| "join sep (s # t # ss) = s @ sep @ join sep (t # ss)"

end
