(* ===== verification/Nostd_Io.thy ===== *)
theory Nostd_Io
  imports Borsh_Prelude
begin

section \<open>The I/O layer\<close>

text \<open>
  Models \<open>borsh/src/nostd_io.rs\<close>: the error type, the \<open>Read\<close> and \<open>Write\<close> traits with
  their provided methods, and their implementations for byte slices and byte vectors.
  A trait is a record of its methods over the implementor's state; what a client may
  rely on is stated as the locales \<open>exact_reader\<close>, \<open>lawful_reader\<close>,
  \<open>interruptible_read\<close> and \<open>sink\<close>, interpreted here on the code's own implementations.
\<close>

subsection \<open>Errors\<close>

datatype error_kind =
    NotFound | PermissionDenied | ConnectionRefused | ConnectionReset | ConnectionAborted
  | NotConnected | AddrInUse | AddrNotAvailable | BrokenPipe | AlreadyExists | WouldBlock
  | InvalidInput | InvalidData | TimedOut | WriteZero | Interrupted | Other
  | UnexpectedEof | OutOfMemory

fun as_str :: "error_kind \<Rightarrow> string" where
  "as_str NotFound = ''entity not found''"
| "as_str PermissionDenied = ''permission denied''"
| "as_str ConnectionRefused = ''connection refused''"
| "as_str ConnectionReset = ''connection reset''"
| "as_str ConnectionAborted = ''connection aborted''"
| "as_str NotConnected = ''not connected''"
| "as_str AddrInUse = ''address in use''"
| "as_str AddrNotAvailable = ''address not available''"
| "as_str BrokenPipe = ''broken pipe''"
| "as_str AlreadyExists = ''entity already exists''"
| "as_str WouldBlock = ''operation would block''"
| "as_str InvalidInput = ''invalid input parameter''"
| "as_str InvalidData = ''invalid data''"
| "as_str TimedOut = ''timed out''"
| "as_str WriteZero = ''write zero''"
| "as_str Interrupted = ''operation interrupted''"
| "as_str Other = ''other os error''"
| "as_str UnexpectedEof = ''unexpected end of file''"
| "as_str OutOfMemory = ''out of memory''"

record custom =
  custom_kind :: error_kind
  custom_error :: string

datatype repr = Simple error_kind | Custom custom

record io_error =
  error_repr :: repr

text \<open>\<open>impl From<ErrorKind> for Error\<close>, which \<open>?\<close> applies to a bare kind.\<close>

definition error_from :: "error_kind \<Rightarrow> io_error" where
  "error_from kind = \<lparr>error_repr = Simple kind\<rparr>"

definition error_new :: "error_kind \<Rightarrow> string \<Rightarrow> io_error" where
  "error_new kind error = \<lparr>error_repr = Custom \<lparr>custom_kind = kind, custom_error = error\<rparr>\<rparr>"

definition get_ref :: "io_error \<Rightarrow> string option" where
  "get_ref e = (case error_repr e of Simple _ \<Rightarrow> None | Custom c \<Rightarrow> Some (custom_error c))"

definition into_inner :: "io_error \<Rightarrow> string option" where
  "into_inner e = (case error_repr e of Simple _ \<Rightarrow> None | Custom c \<Rightarrow> Some (custom_error c))"

definition kind :: "io_error \<Rightarrow> error_kind" where
  "kind e = (case error_repr e of Custom c \<Rightarrow> custom_kind c | Simple k \<Rightarrow> k)"

text \<open>\<open>impl Display for Error\<close>.\<close>

definition display_error :: "io_error \<Rightarrow> string" where
  "display_error e = (case error_repr e of Custom c \<Rightarrow> custom_error c | Simple k \<Rightarrow> as_str k)"

lemma kind_new [simp]: "kind (error_new k msg) = k"
  by (simp add: kind_def error_new_def)

lemma kind_from [simp]: "kind (error_from k) = k"
  by (simp add: kind_def error_from_def)

lemma error_new_inject [simp]: "error_new k m = error_new k' m' \<longleftrightarrow> k = k' \<and> m = m'"
  by (auto simp: error_new_def)

lemma error_new_not_from [simp]: "error_new k m \<noteq> error_from k'"
  by (simp add: error_new_def error_from_def)

type_synonym ('s, 'a) io = "('s, io_error, 'a) eff"

subsection \<open>The trait \<open>Write\<close>\<close>

text \<open>The required method \<open>write\<close> is the field \<open>write_buf\<close>, a name Isabelle allows.\<close>

record 'w Write =
  write_buf :: "bytes \<Rightarrow> ('w, nat) io"
  flush :: "('w, unit) io"
  write_all :: "bytes \<Rightarrow> ('w, unit) io"

text \<open>
  The provided \<open>write_all\<close>: a loop over the unwritten rest of the buffer. It returns
  only if the writer makes progress, so it is a partial function. \<open>buf[n..]\<close> panics when
  the writer claims to have written more than it was given.
\<close>

partial_function (option) default_write_all ::
  "(bytes \<Rightarrow> ('w, nat) io) \<Rightarrow> bytes \<Rightarrow> 'w \<Rightarrow> ((io_error, unit) outcome \<times> 'w) option" where
  "default_write_all wr buf w =
     (if buf = [] then Some (Ok (), w)
      else case wr buf w of
          None \<Rightarrow> None
        | Some (Ok n, w') \<Rightarrow>
            if n = 0 then Some (Err (error_new WriteZero ''failed to write whole buffer''), w')
            else if length buf < n then Some (Panic, w')
            else default_write_all wr (drop n buf) w'
        | Some (Err e, w') \<Rightarrow>
            if kind e = Interrupted then default_write_all wr buf w' else Some (Err e, w')
        | Some (Panic, w') \<Rightarrow> Some (Panic, w'))"

text \<open>
  \<open>write_fmt\<close>: the formatting machinery of \<open>core::fmt\<close> hands the pieces of the text to
  \<open>write_str\<close> in order and stops at the first failure, either of the writer (saved in
  the adaptor) or of a formatting trait. The adaptor is the pair of the writer and the
  saved result.
\<close>

datatype fmt_piece = Str string | Formatter_Error

definition as_bytes :: "string \<Rightarrow> bytes" where
  "as_bytes s = List.map of_char s"

definition string_of_bytes :: "bytes \<Rightarrow> string" where
  "string_of_bytes bs = List.map (\<lambda>b. char_of (unat b)) bs"

fun fmt_write :: "'w Write \<Rightarrow> fmt_piece list \<Rightarrow> 'w \<Rightarrow> (bool \<times> (io_error, unit) outcome \<times> 'w) option" where
  "fmt_write W [] w = Some (True, Ok (), w)"
| "fmt_write W (Formatter_Error # ps) w = Some (False, Ok (), w)"
| "fmt_write W (Str s # ps) w =
     (case write_all W (as_bytes s) w of
         None \<Rightarrow> None
       | Some (Ok _, w') \<Rightarrow> fmt_write W ps w'
       | Some (Err e, w') \<Rightarrow> Some (False, Err e, w')
       | Some (Panic, w') \<Rightarrow> Some (False, Panic, w'))"

definition write_fmt :: "'w Write \<Rightarrow> fmt_piece list \<Rightarrow> ('w, unit) io" where
  "write_fmt W fmt w =
     (case fmt_write W fmt w of
         None \<Rightarrow> None
       | Some (True, _, w') \<Rightarrow> Some (Ok (), w')
       | Some (False, error, w') \<Rightarrow>
           (case error of
               Ok _ \<Rightarrow> Some (Err (error_new Other ''formatter error''), w')
             | Err e \<Rightarrow> Some (Err e, w')
             | Panic \<Rightarrow> Some (Panic, w')))"

text \<open>\<open>impl Write for &mut W\<close> forwards every method.\<close>

definition mut_ref_writer :: "'w Write \<Rightarrow> 'w Write" where
  "mut_ref_writer W = \<lparr>write_buf = write_buf W, flush = flush W, write_all = write_all W\<rparr>"

subsection \<open>\<open>impl Write for &mut [u8]\<close>\<close>

text \<open>
  The slice points at the yet unwritten part of a buffer; the bytes already written are
  kept in \<open>written\<close>, so that the whole buffer is \<open>written @ unwritten\<close>.
\<close>

record slice_mut =
  written :: bytes
  unwritten :: bytes

definition slice_write :: "bytes \<Rightarrow> (slice_mut, nat) io" where
  "slice_write data s =
     (let amt = min (length data) (length (unwritten s))
      in Some (Ok amt, \<lparr>written = written s @ take amt data, unwritten = drop amt (unwritten s)\<rparr>))"

definition slice_write_all :: "bytes \<Rightarrow> (slice_mut, unit) io" where
  "slice_write_all data =
     and_then (slice_write data) (\<lambda>n.
       if n = length data then ret ()
       else fail (error_new WriteZero ''failed to write whole buffer''))"

definition slice_writer :: "slice_mut Write" where
  "slice_writer = \<lparr>write_buf = slice_write, flush = ret (), write_all = slice_write_all\<rparr>"

subsection \<open>\<open>impl Write for Vec<u8>\<close>\<close>

definition vec_write :: "bytes \<Rightarrow> (bytes, nat) io" where
  "vec_write buf v = Some (Ok (length buf), v @ buf)"

definition vec_write_all :: "bytes \<Rightarrow> (bytes, unit) io" where
  "vec_write_all buf v = Some (Ok (), v @ buf)"

definition vec_writer :: "bytes Write" where
  "vec_writer = \<lparr>write_buf = vec_write, flush = ret (), write_all = vec_write_all\<rparr>"

subsection \<open>The trait \<open>Read\<close>\<close>

text \<open>
  \<open>read\<close> is called with the length of the buffer and returns the bytes it put at the
  start of the buffer (their number is the \<open>usize\<close> of the code); \<open>read_exact\<close> returns
  the filled buffer. A reader that claims more bytes than the buffer holds breaks the
  documented contract of the trait; the slice expressions of the callers then panic.
\<close>

record 'r Read =
  read :: "nat \<Rightarrow> ('r, bytes) io"
  read_exact :: "nat \<Rightarrow> ('r, bytes) io"

partial_function (option) default_read_exact_loop ::
  "(nat \<Rightarrow> ('r, bytes) io) \<Rightarrow> nat \<Rightarrow> bytes \<Rightarrow> 'r \<Rightarrow> ((io_error, bytes) outcome \<times> 'r) option" where
  "default_read_exact_loop rd n filled r =
     (if n = 0 then Some (Ok filled, r)
      else case rd n r of
          None \<Rightarrow> None
        | Some (Ok bs, r') \<Rightarrow>
            if bs = [] then Some (Err (error_new UnexpectedEof ''failed to fill whole buffer''), r')
            else if n < length bs then Some (Panic, r')
            else default_read_exact_loop rd (n - length bs) (filled @ bs) r'
        | Some (Err e, r') \<Rightarrow>
            if kind e = Interrupted then default_read_exact_loop rd n filled r' else Some (Err e, r')
        | Some (Panic, r') \<Rightarrow> Some (Panic, r'))"

definition default_read_exact :: "(nat \<Rightarrow> ('r, bytes) io) \<Rightarrow> nat \<Rightarrow> ('r, bytes) io" where
  "default_read_exact rd n = default_read_exact_loop rd n []"

text \<open>\<open>impl Read for &mut R\<close> forwards both methods.\<close>

definition mut_ref_reader :: "'r Read \<Rightarrow> 'r Read" where
  "mut_ref_reader R = \<lparr>read = read R, read_exact = read_exact R\<rparr>"

subsection \<open>\<open>impl Read for &[u8]\<close>\<close>

definition slice_read :: "nat \<Rightarrow> (bytes, bytes) io" where
  "slice_read n s = (let amt = min n (length s) in Some (Ok (take amt s), drop amt s))"

definition slice_read_exact :: "nat \<Rightarrow> (bytes, bytes) io" where
  "slice_read_exact n s =
     (if length s < n then Some (Err (error_new UnexpectedEof ''failed to fill whole buffer''), s)
      else Some (Ok (take n s), drop n s))"

definition slice_reader :: "bytes Read" where
  "slice_reader = \<lparr>read = slice_read, read_exact = slice_read_exact\<rparr>"

lemma slice_reader_sel [simp]:
  "read slice_reader = slice_read" "read_exact slice_reader = slice_read_exact"
  by (simp_all add: slice_reader_def)

lemma slice_read_exact_Ok [io_simps]:
  "n = length bs \<Longrightarrow> slice_read_exact n (bs @ rest) = Some (Ok bs, rest)"
  by (simp add: slice_read_exact_def)

lemma slice_read_exact_eof [io_simps]:
  "length s < n \<Longrightarrow>
   slice_read_exact n s = Some (Err (error_new UnexpectedEof ''failed to fill whole buffer''), s)"
  by (simp add: slice_read_exact_def)

lemma slice_read_exact_Ok_iff:
  "slice_read_exact n s = Some (Ok bs, t) \<longleftrightarrow> length bs = n \<and> s = bs @ t"
  by (auto simp: slice_read_exact_def)

subsection \<open>What a client may rely on: readers\<close>

text \<open>
  \<open>rest\<close> abstracts a reader to the bytes it will still deliver and \<open>invar\<close> is its
  invariant. An exact reader delivers exactly the bytes asked for, or reports
  \<open>UnexpectedEof\<close>.
\<close>

locale exact_reader =
  fixes R :: "'r Read" and invar :: "'r \<Rightarrow> bool" and rest :: "'r \<Rightarrow> bytes"
  assumes exact_ok: "invar r \<Longrightarrow> n \<le> length (rest r) \<Longrightarrow>
      \<exists>r'. read_exact R n r = Some (Ok (take n (rest r)), r') \<and> invar r' \<and> rest r' = drop n (rest r)"
    and exact_eof: "invar r \<Longrightarrow> length (rest r) < n \<Longrightarrow>
      \<exists>r' e. read_exact R n r = Some (Err e, r') \<and> kind e = UnexpectedEof"

text \<open>
  A lawful reader also has a \<open>read\<close> that never fails and makes progress until the end of
  the input; it may deliver fewer bytes than asked for.
\<close>

locale lawful_reader = exact_reader R invar rest
  for R :: "'r Read" and invar :: "'r \<Rightarrow> bool" and rest :: "'r \<Rightarrow> bytes" +
  assumes read_ok: "invar r \<Longrightarrow>
      \<exists>bs r'. read R n r = Some (Ok bs, r') \<and> invar r' \<and> length bs \<le> n \<and>
        rest r = bs @ rest r' \<and> (bs = [] \<longrightarrow> n = 0 \<or> rest r = [])"

text \<open>
  The contract of \<open>read\<close> alone: it delivers a non-empty piece of what is left, or
  reports the end, or is interrupted without consuming anything, and it is interrupted
  only finitely often (\<open>budget\<close> bounds the interruptions to come).
\<close>

locale interruptible_read =
  fixes rd :: "nat \<Rightarrow> ('r, bytes) io" and invar :: "'r \<Rightarrow> bool" and rest :: "'r \<Rightarrow> bytes"
    and budget :: "'r \<Rightarrow> nat"
  assumes rd_step: "invar r \<Longrightarrow> 0 < n \<Longrightarrow>
      (\<exists>bs r'. rd n r = Some (Ok bs, r') \<and> invar r' \<and> length bs \<le> n \<and>
         rest r = bs @ rest r' \<and> (bs = [] \<longrightarrow> rest r = [])) \<or>
      (\<exists>e r'. rd n r = Some (Err e, r') \<and> kind e = Interrupted \<and> invar r' \<and>
         rest r' = rest r \<and> budget r' < budget r)"
begin

lemma loop_ok:
  "invar r \<Longrightarrow> n \<le> length (rest r) \<Longrightarrow>
   \<exists>r'. default_read_exact_loop rd n filled r = Some (Ok (filled @ take n (rest r)), r') \<and>
     invar r' \<and> rest r' = drop n (rest r)"
proof (induction "(n, budget r)" arbitrary: n r filled rule: wf_induct [OF wf_lex_prod [OF wf_less wf_less]])
  case (1 n r)
  show ?case
  proof (cases "n = 0")
    case True
    with 1 show ?thesis by (simp add: default_read_exact_loop.simps)
  next
    case False
    from rd_step [OF \<open>invar r\<close>, of n] False consider
        (bs) bs r' where "rd n r = Some (Ok bs, r')" "invar r'" "length bs \<le> n"
          "rest r = bs @ rest r'" "bs = [] \<longrightarrow> rest r = []"
      | (intr) e r' where "rd n r = Some (Err e, r')" "kind e = Interrupted" "invar r'"
          "rest r' = rest r" "budget r' < budget r" by auto
    then show ?thesis
    proof cases
      case bs
      with False 1(3) have ne: "bs \<noteq> []" by auto
      with bs False have "((n - length bs, budget r'), (n, budget r)) \<in> {(x, y). x < y} <*lex*> {(x, y). x < y}"
        by (simp add: length_greater_0_conv [symmetric] del: length_greater_0_conv)
      moreover have "n - length bs \<le> length (rest r')" using bs 1(3) by simp
      ultimately obtain r'' where
          "default_read_exact_loop rd (n - length bs) (filled @ bs) r' =
             Some (Ok ((filled @ bs) @ take (n - length bs) (rest r')), r'')"
          "invar r''" "rest r'' = drop (n - length bs) (rest r')"
        using 1(1) bs(2) by blast
      with bs ne False show ?thesis
        by (simp add: default_read_exact_loop.simps [of rd n filled r])
    next
      case intr
      then have "((n, budget r'), (n, budget r)) \<in> {(x, y). x < y} <*lex*> {(x, y). x < y}" by simp
      with intr 1 obtain r'' where
          "default_read_exact_loop rd n filled r' = Some (Ok (filled @ take n (rest r')), r'')"
          "invar r''" "rest r'' = drop n (rest r')" by metis
      with intr False show ?thesis
        by (simp add: default_read_exact_loop.simps [of rd n filled r])
    qed
  qed
qed

lemma loop_eof:
  "invar r \<Longrightarrow> length (rest r) < n \<Longrightarrow>
   \<exists>r'. default_read_exact_loop rd n filled r =
     Some (Err (error_new UnexpectedEof ''failed to fill whole buffer''), r')"
proof (induction "(n, budget r)" arbitrary: n r filled rule: wf_induct [OF wf_lex_prod [OF wf_less wf_less]])
  case (1 n r)
  then have n: "0 < n" by simp
  from rd_step [OF \<open>invar r\<close> n] consider
      (bs) bs r' where "rd n r = Some (Ok bs, r')" "invar r'" "length bs \<le> n"
        "rest r = bs @ rest r'" "bs = [] \<longrightarrow> rest r = []"
    | (intr) e r' where "rd n r = Some (Err e, r')" "kind e = Interrupted" "invar r'"
        "rest r' = rest r" "budget r' < budget r" by auto
  then show ?case
  proof cases
    case bs
    show ?thesis
    proof (cases "bs = []")
      case True
      with bs n show ?thesis by (simp add: default_read_exact_loop.simps [of rd n filled r])
    next
      case False
      with bs n have "((n - length bs, budget r'), (n, budget r)) \<in> {(x, y). x < y} <*lex*> {(x, y). x < y}"
        by (simp add: length_greater_0_conv [symmetric] del: length_greater_0_conv)
      moreover have "length (rest r') < n - length bs" using bs 1(3) by simp
      ultimately obtain r'' where "default_read_exact_loop rd (n - length bs) (filled @ bs) r' =
          Some (Err (error_new UnexpectedEof ''failed to fill whole buffer''), r'')"
        using 1(1) bs(2) by blast
      with bs False n show ?thesis by (simp add: default_read_exact_loop.simps [of rd n filled r])
    qed
  next
    case intr
    then have "((n, budget r'), (n, budget r)) \<in> {(x, y). x < y} <*lex*> {(x, y). x < y}" by simp
    with intr 1 obtain r'' where "default_read_exact_loop rd n filled r' =
        Some (Err (error_new UnexpectedEof ''failed to fill whole buffer''), r'')" by metis
    with intr n show ?thesis by (simp add: default_read_exact_loop.simps [of rd n filled r])
  qed
qed

sublocale provided: exact_reader "\<lparr>read = rd, read_exact = default_read_exact rd\<rparr>" invar rest
proof
  fix r :: 'r and n
  assume invar: "invar r"
  show "\<exists>r'. read_exact \<lparr>read = rd, read_exact = default_read_exact rd\<rparr> n r =
      Some (Ok (take n (rest r)), r') \<and> invar r' \<and> rest r' = drop n (rest r)"
    if "n \<le> length (rest r)"
    using loop_ok [OF invar that, of "[]"] by (simp add: default_read_exact_def)
  show "\<exists>r' e. read_exact \<lparr>read = rd, read_exact = default_read_exact rd\<rparr> n r = Some (Err e, r') \<and>
      kind e = UnexpectedEof"
    if "length (rest r) < n"
    using loop_eof [OF invar that, of "[]"] by (auto simp: default_read_exact_def)
qed

end

interpretation slice_rd: lawful_reader slice_reader "\<lambda>_. True" "\<lambda>s. s"
  by unfold_locales (auto simp: slice_read_exact_def slice_read_def Let_def min_def split: if_splits)

interpretation slice_short: interruptible_read slice_read "\<lambda>_. True" "\<lambda>s. s" "\<lambda>_. 0"
  by unfold_locales (auto simp: slice_read_def Let_def min_def split: if_splits)

text \<open>
  Simulation between a decoder on a slice (\<open>ds\<close>) and the same decoder on any reader
  (\<open>dr\<close>): the same result, and on success the same bytes left. The lemmas follow the
  effect combinators, so that a decoder built from them is simulated step by step.
\<close>

definition simulates ::
  "('r \<Rightarrow> bool) \<Rightarrow> ('r \<Rightarrow> bytes) \<Rightarrow> (bytes, 'e, 'a) eff \<Rightarrow> ('r, 'e, 'a) eff \<Rightarrow> bool" where
  "simulates invar rest ds dr \<longleftrightarrow> (\<forall>r. invar r \<longrightarrow> (case ds (rest r) of
       None \<Rightarrow> dr r = None
     | Some (Ok v, bs) \<Rightarrow> (\<exists>r'. dr r = Some (Ok v, r') \<and> invar r' \<and> rest r' = bs)
     | Some (Err e, bs) \<Rightarrow> (\<exists>r'. dr r = Some (Err e, r'))
     | Some (Panic, bs) \<Rightarrow> (\<exists>r'. dr r = Some (Panic, r'))))"

named_theorems sim_intros \<open>simulation of a decoder by the effect combinators\<close>

lemma simulates_ret [sim_intros]: "simulates invar rest (ret a) (ret a)"
  by (simp add: simulates_def ret_def)

lemma simulates_fail [sim_intros]: "simulates invar rest (fail e) (fail e)"
  by (simp add: simulates_def fail_def)

lemma simulates_panic [sim_intros]: "simulates invar rest panic panic"
  by (simp add: simulates_def panic_def)

lemma simulates_lift [sim_intros]: "simulates invar rest (lift r) (lift r)"
  by (cases r) (auto simp: simulates_def lift_def)

lemma simulates_and_then [sim_intros]:
  assumes m: "simulates invar rest m m'" and f: "\<And>a. simulates invar rest (f a) (f' a)"
  shows "simulates invar rest (and_then m f) (and_then m' f')"
  unfolding simulates_def
proof (intro allI impI)
  fix r assume r: "invar r"
  show "case and_then m f (rest r) of
       None \<Rightarrow> and_then m' f' r = None
     | Some (Ok v, bs) \<Rightarrow> \<exists>r'. and_then m' f' r = Some (Ok v, r') \<and> invar r' \<and> rest r' = bs
     | Some (Err e, bs) \<Rightarrow> \<exists>r'. and_then m' f' r = Some (Err e, r')
     | Some (Panic, bs) \<Rightarrow> \<exists>r'. and_then m' f' r = Some (Panic, r')"
  proof (cases "m (rest r)")
    case None
    with m r show ?thesis by (auto simp: simulates_def and_then_def)
  next
    case (Some p)
    obtain x s where p: "p = (x, s)" by (cases p)
    show ?thesis
    proof (cases x)
      case (Ok v)
      with m r Some p obtain r' where r': "m' r = Some (Ok v, r')" "invar r'" "rest r' = s"
        by (fastforce simp: simulates_def)
      with f [of v] have "case f v s of
            None \<Rightarrow> f' v r' = None
          | Some (Ok v', bs) \<Rightarrow> \<exists>r''. f' v r' = Some (Ok v', r'') \<and> invar r'' \<and> rest r'' = bs
          | Some (Err e, bs) \<Rightarrow> \<exists>r''. f' v r' = Some (Err e, r'')
          | Some (Panic, bs) \<Rightarrow> \<exists>r''. f' v r' = Some (Panic, r'')"
        by (auto simp: simulates_def)
      moreover from r' have "and_then m' f' r = f' v r'" by (simp add: and_then_eval)
      moreover from Some p Ok have "and_then m f (rest r) = f v s" by (simp add: and_then_eval)
      ultimately show ?thesis by (simp split: option.splits prod.splits outcome.splits)
    next
      case (Err e)
      with m r Some p show ?thesis by (fastforce simp: simulates_def and_then_def)
    next
      case Panic
      with m r Some p show ?thesis by (fastforce simp: simulates_def and_then_def)
    qed
  qed
qed

lemma simulates_map_ok [sim_intros]:
  "simulates invar rest m m' \<Longrightarrow> simulates invar rest (map_ok g m) (map_ok g m')"
  unfolding map_ok_def by (intro sim_intros)

lemma simulates_push_times [sim_intros]:
  "simulates invar rest m m' \<Longrightarrow> simulates invar rest (push_times n m xs) (push_times n m' xs)"
  by (induction n arbitrary: xs) (auto intro: sim_intros)

lemma simulates_if [sim_intros]:
  "(c \<Longrightarrow> simulates invar rest m m') \<Longrightarrow> (\<not> c \<Longrightarrow> simulates invar rest k k') \<Longrightarrow>
   simulates invar rest (if c then m else k) (if c then m' else k')"
  by simp

lemma simulates_option [sim_intros]:
  "(x = None \<Longrightarrow> simulates invar rest m m') \<Longrightarrow> (\<And>a. x = Some a \<Longrightarrow> simulates invar rest (k a) (k' a)) \<Longrightarrow>
   simulates invar rest (case x of None \<Rightarrow> m | Some a \<Rightarrow> k a) (case x of None \<Rightarrow> m' | Some a \<Rightarrow> k' a)"
  by (cases x) simp_all

lemma simulates_map_err [sim_intros]:
  "simulates invar rest m m' \<Longrightarrow> simulates invar rest (map_err g m) (map_err g m')"
  unfolding simulates_def by (fastforce simp: map_err_def split: option.splits outcome.splits)

subsection \<open>What a client may rely on: writers\<close>

text \<open>
  The code under \<open>src\<close> uses a writer through \<open>write_all\<close> alone. \<open>writes W chunks\<close> is a
  sequence of such calls; two computations are equivalent when they have the same
  result and, if it is \<open>Ok\<close>, the same final state. A sink is a writer for which only
  the bytes matter and not their division into calls.
\<close>

fun writes :: "'w Write \<Rightarrow> bytes list \<Rightarrow> ('w, unit) io" where
  "writes W [] = ret ()"
| "writes W (c # cs) = and_then (write_all W c) (\<lambda>_. writes W cs)"

lemma writes_append: "writes W (cs @ ds) = and_then (writes W cs) (\<lambda>_. writes W ds)"
  by (induction cs) simp_all

definition equivalent :: "('s, 'e, 'a) eff \<Rightarrow> ('s, 'e, 'a) eff \<Rightarrow> bool" where
  "equivalent m m' \<longleftrightarrow> (\<forall>s. map_option fst (m s) = map_option fst (m' s) \<and>
     (\<forall>a t. m s = Some (Ok a, t) \<longleftrightarrow> m' s = Some (Ok a, t)))"

lemma equivalent_refl [intro!, simp]: "equivalent m m"
  by (simp add: equivalent_def)

lemma equivalent_trans: "equivalent m m' \<Longrightarrow> equivalent m' m'' \<Longrightarrow> equivalent m m''"
  by (simp add: equivalent_def)

lemma equivalent_sym: "equivalent m m' \<Longrightarrow> equivalent m' m"
  by (simp add: equivalent_def)

lemma equivalent_Ok: "equivalent m m' \<Longrightarrow> m' s = Some (Ok a, t) \<Longrightarrow> m s = Some (Ok a, t)"
  by (simp add: equivalent_def)

lemma equivalent_Err: "equivalent m m' \<Longrightarrow> m' s = Some (Err e, t) \<Longrightarrow> \<exists>t'. m s = Some (Err e, t')"
proof -
  assume "equivalent m m'" and e: "m' s = Some (Err e, t)"
  then have "map_option fst (m s) = map_option fst (m' s)" by (simp add: equivalent_def)
  with e show ?thesis by (cases "m s") auto
qed

lemma equivalent_and_then:
  assumes m: "equivalent m m'" and f: "\<And>a. equivalent (f a) (f' a)"
  shows "equivalent (and_then m f) (and_then m' f')"
  unfolding equivalent_def
proof
  fix s
  show "map_option fst (and_then m f s) = map_option fst (and_then m' f' s) \<and>
     (\<forall>a t. and_then m f s = Some (Ok a, t) \<longleftrightarrow> and_then m' f' s = Some (Ok a, t))"
  proof (cases "\<exists>a t. m s = Some (Ok a, t)")
    case True
    then obtain a t where "m s = Some (Ok a, t)" by blast
    moreover from this m have "m' s = Some (Ok a, t)" by (simp add: equivalent_def)
    ultimately show ?thesis using f [of a] by (simp add: and_then_def equivalent_def)
  next
    case False
    moreover from this m have "\<not> (\<exists>a t. m' s = Some (Ok a, t))" by (simp add: equivalent_def)
    moreover from m have "map_option fst (m s) = map_option fst (m' s)" by (simp add: equivalent_def)
    ultimately show ?thesis
      by (cases "m s"; cases "m' s") (auto simp: and_then_def split: outcome.splits)
  qed
qed

locale sink =
  fixes W :: "'w Write"
  assumes all_Nil: "equivalent (write_all W []) (ret ())"
    and all_append: "equivalent (write_all W (a @ b)) (and_then (write_all W a) (\<lambda>_. write_all W b))"
begin

lemma writes_concat: "equivalent (writes W cs) (write_all W (concat cs))"
proof (induction cs)
  case Nil
  show ?case using all_Nil by (simp add: equivalent_sym)
next
  case (Cons c cs)
  then have "equivalent (writes W (c # cs)) (and_then (write_all W c) (\<lambda>_. write_all W (concat cs)))"
    by (auto intro: equivalent_and_then)
  also have "equivalent \<dots> (write_all W (concat (c # cs)))"
    using all_append by (simp add: equivalent_sym)
  finally (equivalent_trans) show ?case .
qed

end

lemma vec_writer_sel [simp]: "write_all vec_writer = vec_write_all"
  by (simp add: vec_writer_def)

lemma slice_writer_sel [simp]: "write_all slice_writer = slice_write_all"
  by (simp add: slice_writer_def)

lemma slice_write_all_eval:
  "slice_write_all data s =
     (if length data \<le> length (unwritten s)
      then Some (Ok (), \<lparr>written = written s @ data, unwritten = drop (length data) (unwritten s)\<rparr>)
      else Some (Err (error_new WriteZero ''failed to write whole buffer''),
             \<lparr>written = written s @ take (length (unwritten s)) data, unwritten = []\<rparr>))"
  by (auto simp: slice_write_all_def slice_write_def and_then_def ret_def fail_def Let_def min_def)

interpretation vec_sink: sink vec_writer
  by unfold_locales (auto simp: equivalent_def vec_write_all_def ret_def and_then_def)

interpretation slice_sink: sink slice_writer
  by unfold_locales
    (auto simp: equivalent_def slice_write_all_eval ret_def and_then_def add.commute)

lemma writes_vec: "writes vec_writer cs v = Some (Ok (), v @ concat cs)"
  by (induction cs arbitrary: v) (simp_all add: ret_def and_then_def vec_write_all_def)

end
