(* ===== verification/Borsh_Traits.thy ===== *)
theory Borsh_Traits
  imports Nostd_Io
begin

section \<open>The traits and the entry points of the crate\<close>

text \<open>
  Models the traits \<open>BorshSerialize\<close> (\<open>borsh/src/ser/mod.rs\<close>) and \<open>BorshDeserialize\<close>
  (\<open>borsh/src/de/mod.rs\<close>) with their provided methods, the helpers of \<open>error.rs\<close>,
  \<open>de/hint.rs\<close> and \<open>ser/helpers.rs\<close>, and the free functions \<open>from_slice\<close> and
  \<open>from_reader\<close>. An implementation of a trait for a type is a record of its methods; the
  field for \<open>size_of\<close> is the compiler's \<open>core::mem::size_of::<T>()\<close>. What an
  implementation promises is stated by the locales \<open>serialize_impl\<close>,
  \<open>deserialize_impl\<close>, \<open>canonical_impl\<close> and \<open>simulated_impl\<close>.
\<close>

subsection \<open>Messages and small helpers\<close>

definition ERROR_ZST_FORBIDDEN :: string where
  "ERROR_ZST_FORBIDDEN = ''Collections of zero-sized types are not allowed due to deny-of-service concerns on deserialization.''"

definition ERROR_NOT_ALL_BYTES_READ :: string where
  "ERROR_NOT_ALL_BYTES_READ = ''Not all bytes read''"

definition ERROR_UNEXPECTED_LENGTH_OF_INPUT :: string where
  "ERROR_UNEXPECTED_LENGTH_OF_INPUT = ''Unexpected length of input''"

definition check_zst :: "nat \<Rightarrow> ('s, unit) io" where
  "check_zst size_of_T =
     (if size_of_T = 0 then fail (error_new InvalidData ERROR_ZST_FORBIDDEN) else ret ())"

text \<open>
  The capacity reserved before a vector is read. \<open>size_of::<T>() as u32\<close> truncates, and
  the division panics when the truncated size is zero.
\<close>

definition cautious :: "nat \<Rightarrow> u32 \<Rightarrow> ('e, nat) outcome" where
  "cautious size_of_T hint =
     (let el_size = (word_of_nat size_of_T :: u32)
      in if el_size = 0 then Panic
         else Ok (max (min (unat hint) (4096 div unat el_size)) 1))"

definition unexpected_eof_to_unexpected_length_of_input :: "io_error \<Rightarrow> io_error" where
  "unexpected_eof_to_unexpected_length_of_input e =
     (if kind e = UnexpectedEof
      then error_new InvalidData ERROR_UNEXPECTED_LENGTH_OF_INPUT else e)"

text \<open>\<open>u32::try_from(len).map_err(|_| ErrorKind::InvalidData)?\<close>\<close>

definition u32_try_from :: "nat \<Rightarrow> (io_error, u32) outcome" where
  "u32_try_from n = (if n < 2 ^ 32 then Ok (word_of_nat n) else Err (error_from InvalidData))"

subsection \<open>The traits\<close>

record ('w, 'a) BorshSerialize =
  serialize :: "'w Write \<Rightarrow> 'a \<Rightarrow> ('w, unit) io"
  u8_slice :: "'a list \<Rightarrow> bytes option"
  ser_size_of :: nat

definition default_u8_slice :: "'a list \<Rightarrow> bytes option" where
  "default_u8_slice data = None"

record ('r, 'a) BorshDeserialize =
  deserialize_reader :: "'r Read \<Rightarrow> ('r, 'a) io"
  vec_from_reader :: "'r Read \<Rightarrow> u32 \<Rightarrow> ('r, 'a list option) io"
  array_from_reader :: "'r Read \<Rightarrow> nat \<Rightarrow> ('r, 'a list option) io"
  de_size_of :: nat

definition default_vec_from_reader :: "'r Read \<Rightarrow> u32 \<Rightarrow> ('r, 'a list option) io" where
  "default_vec_from_reader reader len = ret None"

definition default_array_from_reader :: "'r Read \<Rightarrow> nat \<Rightarrow> ('r, 'a list option) io" where
  "default_array_from_reader reader n = ret None"

text \<open>An implementation that keeps the provided methods.\<close>

definition plain_ser :: "nat \<Rightarrow> ('w Write \<Rightarrow> 'a \<Rightarrow> ('w, unit) io) \<Rightarrow> ('w, 'a) BorshSerialize" where
  "plain_ser sz f = \<lparr>serialize = f, u8_slice = default_u8_slice, ser_size_of = sz\<rparr>"

definition plain_de :: "nat \<Rightarrow> ('r Read \<Rightarrow> ('r, 'a) io) \<Rightarrow> ('r, 'a) BorshDeserialize" where
  "plain_de sz f = \<lparr>deserialize_reader = f, vec_from_reader = default_vec_from_reader,
     array_from_reader = default_array_from_reader, de_size_of = sz\<rparr>"

lemma plain_ser_sel [simp]:
  "serialize (plain_ser n f) = f" "u8_slice (plain_ser n f) = default_u8_slice"
  "ser_size_of (plain_ser n f) = n"
  by (simp_all add: plain_ser_def)

lemma plain_de_sel [simp]:
  "deserialize_reader (plain_de n f) = f" "vec_from_reader (plain_de n f) = default_vec_from_reader"
  "array_from_reader (plain_de n f) = default_array_from_reader" "de_size_of (plain_de n f) = n"
  by (simp_all add: plain_de_def)

text \<open>The provided methods that run an implementation.\<close>

definition deserialize :: "(bytes, 'a) BorshDeserialize \<Rightarrow> (bytes, 'a) io" where
  "deserialize T buf = deserialize_reader T slice_reader buf"

definition try_from_slice ::
  "(bytes, 'a) BorshDeserialize \<Rightarrow> bytes \<Rightarrow> (io_error, 'a) outcome option" where
  "try_from_slice T v =
     (case deserialize T v of
         None \<Rightarrow> None
       | Some (Ok result, v_mut) \<Rightarrow>
           if v_mut \<noteq> [] then Some (Err (error_new InvalidData ERROR_NOT_ALL_BYTES_READ))
           else Some (Ok result)
       | Some (Err e, _) \<Rightarrow> Some (Err e)
       | Some (Panic, _) \<Rightarrow> Some Panic)"

definition try_from_reader :: "('r, 'a) BorshDeserialize \<Rightarrow> 'r Read \<Rightarrow> ('r, 'a) io" where
  "try_from_reader T reader =
     and_then (deserialize_reader T reader) (\<lambda>result r.
       case read_exact reader 1 r of
           None \<Rightarrow> None
         | Some (Err f, r') \<Rightarrow>
             if kind f = UnexpectedEof then Some (Ok result, r')
             else Some (Err (error_new InvalidData ERROR_NOT_ALL_BYTES_READ), r')
         | Some (Ok _, r') \<Rightarrow> Some (Err (error_new InvalidData ERROR_NOT_ALL_BYTES_READ), r')
         | Some (Panic, r') \<Rightarrow> Some (Panic, r'))"

subsection \<open>The free functions\<close>

definition from_slice ::
  "(bytes, 'a) BorshDeserialize \<Rightarrow> bytes \<Rightarrow> (io_error, 'a) outcome option" where
  "from_slice T v =
     (case deserialize T v of
         None \<Rightarrow> None
       | Some (Ok object, v_mut) \<Rightarrow>
           if v_mut \<noteq> [] then Some (Err (error_new InvalidData ERROR_NOT_ALL_BYTES_READ))
           else Some (Ok object)
       | Some (Err e, _) \<Rightarrow> Some (Err e)
       | Some (Panic, _) \<Rightarrow> Some Panic)"

definition from_reader :: "'r Read \<Rightarrow> ('r, 'a) BorshDeserialize \<Rightarrow> ('r, 'a) io" where
  "from_reader reader T =
     and_then (deserialize_reader T reader) (\<lambda>result r.
       case read_exact reader 1 r of
           None \<Rightarrow> None
         | Some (Err f, r') \<Rightarrow>
             if kind f = UnexpectedEof then Some (Ok result, r')
             else Some (Err (error_new InvalidData ERROR_NOT_ALL_BYTES_READ), r')
         | Some (Ok _, r') \<Rightarrow> Some (Err (error_new InvalidData ERROR_NOT_ALL_BYTES_READ), r')
         | Some (Panic, r') \<Rightarrow> Some (Panic, r'))"

text \<open>The result of a call whose final state is dropped.\<close>

definition to_vec :: "(bytes, 'a) BorshSerialize \<Rightarrow> 'a \<Rightarrow> (io_error, bytes) outcome option" where
  "to_vec T value =
     (case serialize T vec_writer value [] of
         None \<Rightarrow> None
       | Some (Ok _, result) \<Rightarrow> Some (Ok result)
       | Some (Err e, _) \<Rightarrow> Some (Err e)
       | Some (Panic, _) \<Rightarrow> Some Panic)"

definition to_writer :: "'w Write \<Rightarrow> ('w, 'a) BorshSerialize \<Rightarrow> 'a \<Rightarrow> ('w, unit) io" where
  "to_writer writer T value = serialize T writer value"

text \<open>
  \<open>object_length\<close> runs the serializer on a writer that only counts. \<open>usize_bits\<close> is the
  width of \<open>usize\<close>; the provided \<open>write_all\<close> is the default loop.
\<close>

record length_writer =
  lw_len :: nat

definition length_writer_write :: "nat \<Rightarrow> bytes \<Rightarrow> (length_writer, nat) io" where
  "length_writer_write usize_bits buf w =
     (if lw_len w + length buf < 2 ^ usize_bits
      then Some (Ok (length buf), w\<lparr>lw_len := lw_len w + length buf\<rparr>)
      else Some (Err (error_from OutOfMemory), w))"

definition length_writer_impl :: "nat \<Rightarrow> length_writer Write" where
  "length_writer_impl usize_bits =
     \<lparr>write_buf = length_writer_write usize_bits, flush = ret (),
      write_all = default_write_all (length_writer_write usize_bits)\<rparr>"

definition object_length ::
  "nat \<Rightarrow> (length_writer, 'a) BorshSerialize \<Rightarrow> 'a \<Rightarrow> (io_error, nat) outcome option" where
  "object_length usize_bits T value =
     (case serialize T (length_writer_impl usize_bits) value \<lparr>lw_len = 0\<rparr> of
         None \<Rightarrow> None
       | Some (Ok _, w) \<Rightarrow> Some (Ok (lw_len w))
       | Some (Err e, _) \<Rightarrow> Some (Err e)
       | Some (Panic, _) \<Rightarrow> Some Panic)"

subsection \<open>Laws of an encoder\<close>

text \<open>
  \<open>emits m bs\<close>: whatever the writer, the computation is a sequence of \<open>write_all\<close> calls
  whose buffers together are \<open>bs\<close>. \<open>decodes m v bs\<close>: on a slice that starts with \<open>bs\<close>
  the computation returns \<open>v\<close> and consumes exactly \<open>bs\<close>.
\<close>

definition emits :: "('w Write \<Rightarrow> ('w, unit) io) \<Rightarrow> bytes \<Rightarrow> bool" where
  "emits m bs \<longleftrightarrow> (\<exists>cs. concat cs = bs \<and> (\<forall>W. m W = writes W cs))"

definition decodes :: "(bytes, 'a) io \<Rightarrow> 'a \<Rightarrow> bytes \<Rightarrow> bool" where
  "decodes m v bs \<longleftrightarrow> (\<forall>rest. m (bs @ rest) = Some (Ok v, rest))"

named_theorems codec_intros \<open>composition of encoders and decoders\<close>

lemma emits_ret [codec_intros]: "emits (\<lambda>W. ret ()) []"
  unfolding emits_def by (rule exI [of _ "[]"]) simp

lemma emits_write_all [codec_intros]: "emits (\<lambda>W. write_all W bs) bs"
  unfolding emits_def by (rule exI [of _ "[bs]"]) simp

lemma emits_and_then [codec_intros]:
  assumes "emits m as" and "emits k bs"
  shows "emits (\<lambda>W. and_then (m W) (\<lambda>_. k W)) (as @ bs)"
proof -
  obtain cs ds where "concat cs = as" "\<And>W. m W = writes W cs" "concat ds = bs" "\<And>W. k W = writes W ds"
    using assms by (auto simp: emits_def)
  then show ?thesis
    unfolding emits_def by (intro exI [of _ "cs @ ds"]) (simp add: writes_append)
qed

lemma emits_for_each [codec_intros]:
  assumes "\<And>x. x \<in> set xs \<Longrightarrow> emits (\<lambda>W. f W x) (g x)"
  shows "emits (\<lambda>W. for_each (f W) xs) (concat (map g xs))"
  using assms
proof (induction xs)
  case Nil
  then show ?case by (simp add: emits_ret)
next
  case (Cons x xs)
  then have "emits (\<lambda>W. f W x) (g x)" and "emits (\<lambda>W. for_each (f W) xs) (concat (map g xs))" by auto
  from emits_and_then [OF this] show ?case by simp
qed

lemma emits_vec: "emits m bs \<Longrightarrow> m vec_writer v = Some (Ok (), v @ bs)"
  by (auto simp: emits_def writes_vec)

lemma emits_sink: "emits m bs \<Longrightarrow> sink W \<Longrightarrow> equivalent (m W) (write_all W bs)"
  by (auto simp: emits_def intro: sink.writes_concat)

lemma decodes_ret [codec_intros]: "decodes (ret v) v []"
  by (simp add: decodes_def ret_def)

lemma decodes_and_then [codec_intros]:
  "decodes m a as \<Longrightarrow> decodes (f a) b bs \<Longrightarrow> decodes (and_then m f) b (as @ bs)"
  by (simp add: decodes_def and_then_def)

lemma decodes_map_ok [codec_intros]:
  "decodes m a bs \<Longrightarrow> decodes (map_ok g m) (g a) bs"
  by (simp add: decodes_def map_ok_def and_then_def ret_def)

lemma decodes_map_err [codec_intros]: "decodes m a bs \<Longrightarrow> decodes (map_err g m) a bs"
  by (simp add: decodes_def map_err_def)

lemma decodes_read_exact [codec_intros]:
  "n = length bs \<Longrightarrow> decodes (slice_read_exact n) bs bs"
  by (simp add: decodes_def slice_read_exact_def)

lemma decodes_push_times:
  assumes "\<And>x. x \<in> set xs \<Longrightarrow> decodes m x (g x)" and "length xs = n"
  shows "decodes (push_times n m acc) (acc @ xs) (concat (map g xs))"
  using assms
proof (induction xs arbitrary: n acc)
  case Nil
  then show ?case by (simp add: decodes_ret)
next
  case (Cons x xs)
  then obtain k where n: "n = Suc k" and k: "length xs = k" by (cases n) auto
  have x: "decodes m x (g x)" using Cons.prems by simp
  have "decodes (push_times k m (acc @ [x])) ((acc @ [x]) @ xs) (concat (map g xs))"
    by (rule Cons.IH) (use Cons.prems k in auto)
  with x have "decodes (and_then m (\<lambda>x. push_times k m (acc @ [x]))) ((acc @ [x]) @ xs)
      (g x @ concat (map g xs))" by (rule decodes_and_then)
  then show ?case using n by simp
qed

lemma push_times_canonical:
  assumes m: "\<And>s x t. m s = Some (Ok x, t) \<Longrightarrow> ok x \<and> s = g x @ t"
    and r: "push_times n m acc s = Some (Ok r, t)"
  shows "\<exists>xs. r = acc @ xs \<and> length xs = n \<and> (\<forall>x\<in>set xs. ok x) \<and> s = concat (map g xs) @ t"
  using r
proof (induction n arbitrary: acc s)
  case 0
  then show ?case by (simp add: ret_Ok_iff)
next
  case (Suc n)
  then obtain x s' where x: "m s = Some (Ok x, s')" and r: "push_times n m (acc @ [x]) s' = Some (Ok r, t)"
    by (auto simp: and_then_Ok_iff)
  from Suc.IH [OF r] obtain xs where "r = (acc @ [x]) @ xs" "length xs = n" "\<forall>x\<in>set xs. ok x"
      "s' = concat (map g xs) @ t" by blast
  with m [OF x] show ?case by (intro exI [of _ "x # xs"]) simp
qed

subsection \<open>The contracts of the traits\<close>

text \<open>
  \<open>enc\<close> is the Borsh encoding of a value and \<open>ok\<close> the values of the Rust type that the
  implementation serializes without an error.
\<close>

locale serialize_impl =
  fixes S :: "('w, 'a) BorshSerialize" and enc :: "'a \<Rightarrow> bytes" and ok :: "'a \<Rightarrow> bool"
  assumes ser_emits: "ok v \<Longrightarrow> emits (\<lambda>W. serialize S W v) (enc v)"
    and ser_slice: "u8_slice S vs = Some bs \<Longrightarrow> bs = concat (map enc vs)"
begin

lemma ser_sink: "ok v \<Longrightarrow> sink W \<Longrightarrow> equivalent (serialize S W v) (write_all W (enc v))"
  by (rule emits_sink [OF ser_emits])

lemma ser_each:
  "\<forall>v\<in>set vs. ok v \<Longrightarrow> emits (\<lambda>W. for_each (serialize S W) vs) (concat (map enc vs))"
  by (rule emits_for_each) (simp add: ser_emits)

end

text \<open>
  A decoder that inverts the encoder and consumes exactly the encoding. The two hidden
  methods either decline, leaving the input alone, or read all the elements.
\<close>

locale deserialize_impl =
  fixes D :: "(bytes, 'a) BorshDeserialize" and enc :: "'a \<Rightarrow> bytes" and ok :: "'a \<Rightarrow> bool"
  assumes de_decodes: "ok v \<Longrightarrow> decodes (deserialize_reader D slice_reader) v (enc v)"
    and de_vec: "(\<forall>s. vec_from_reader D slice_reader n s = Some (Ok None, s)) \<or>
      (\<forall>vs. length vs = unat n \<longrightarrow> (\<forall>v\<in>set vs. ok v) \<longrightarrow>
        decodes (vec_from_reader D slice_reader n) (Some vs) (concat (map enc vs)))"
    and de_array: "(\<forall>s. array_from_reader D slice_reader k s = Some (Ok None, s)) \<or>
      (\<forall>vs. length vs = k \<longrightarrow> (\<forall>v\<in>set vs. ok v) \<longrightarrow>
        decodes (array_from_reader D slice_reader k) (Some vs) (concat (map enc vs)))"
begin

lemma de_Ok: "ok v \<Longrightarrow> deserialize_reader D slice_reader (enc v @ rest) = Some (Ok v, rest)"
  using de_decodes by (simp add: decodes_def)

lemma enc_inj: "ok v \<Longrightarrow> ok v' \<Longrightarrow> enc v @ s = enc v' @ t \<Longrightarrow> v = v' \<and> s = t"
  by (metis de_Ok Pair_inject option.inject outcome.inject(1))

lemma from_slice_enc: "ok v \<Longrightarrow> from_slice D (enc v) = Some (Ok v)"
  using de_Ok [of v "[]"] by (simp add: from_slice_def deserialize_def)

lemma from_slice_trailing:
  "ok v \<Longrightarrow> rest \<noteq> [] \<Longrightarrow>
   from_slice D (enc v @ rest) = Some (Err (error_new InvalidData ERROR_NOT_ALL_BYTES_READ))"
  using de_Ok [of v rest] by (simp add: from_slice_def deserialize_def)

end

text \<open>
  A canonical decoder accepts nothing but encodings: whatever it reads successfully is
  the encoding of the value it returns.
\<close>

locale canonical_impl = deserialize_impl D enc ok
  for D :: "(bytes, 'a) BorshDeserialize" and enc :: "'a \<Rightarrow> bytes" and ok :: "'a \<Rightarrow> bool" +
  assumes canon: "deserialize_reader D slice_reader s = Some (Ok v, t) \<Longrightarrow> ok v \<and> s = enc v @ t"
    and canon_vec: "vec_from_reader D slice_reader n s = Some (Ok r, t) \<Longrightarrow>
      (case r of None \<Rightarrow> t = s
       | Some vs \<Rightarrow> length vs = unat n \<and> (\<forall>v\<in>set vs. ok v) \<and> s = concat (map enc vs) @ t)"
    and canon_array: "array_from_reader D slice_reader k s = Some (Ok r', t) \<Longrightarrow>
      (case r' of None \<Rightarrow> t = s
       | Some vs \<Rightarrow> length vs = k \<and> (\<forall>v\<in>set vs. ok v) \<and> s = concat (map enc vs) @ t)"
begin

lemma from_slice_Ok_iff: "from_slice D bs = Some (Ok v) \<longleftrightarrow> ok v \<and> bs = enc v"
proof
  assume "from_slice D bs = Some (Ok v)"
  then have "deserialize_reader D slice_reader bs = Some (Ok v, [])"
    by (auto simp: from_slice_def deserialize_def split: option.splits prod.splits outcome.splits if_splits)
  with canon show "ok v \<and> bs = enc v" by fastforce
qed (auto simp: from_slice_enc)

end

text \<open>
  The same implementation on a slice (\<open>Ds\<close>) and on another reader (\<open>Dr\<close>): the result
  depends only on the bytes that the reader delivers.
\<close>

locale simulated_impl = lawful_reader R invar rest
  for R :: "'r Read" and invar :: "'r \<Rightarrow> bool" and rest :: "'r \<Rightarrow> bytes" +
  fixes Ds :: "(bytes, 'a) BorshDeserialize" and Dr :: "('r, 'a) BorshDeserialize"
  assumes sim_de: "simulates invar rest (deserialize_reader Ds slice_reader) (deserialize_reader Dr R)"
    and sim_vec: "simulates invar rest (vec_from_reader Ds slice_reader n) (vec_from_reader Dr R n)"
    and sim_array: "simulates invar rest (array_from_reader Ds slice_reader k) (array_from_reader Dr R k)"
    and sim_size: "de_size_of Dr = de_size_of Ds"
begin

lemma from_reader_eq_from_slice:
  assumes r: "invar r"
  shows "map_option fst (from_reader R Dr r) = from_slice Ds (rest r)"
proof (cases "deserialize_reader Ds slice_reader (rest r)")
  case None
  with sim_de r have "deserialize_reader Dr R r = None" by (auto simp: simulates_def)
  with None show ?thesis by (simp add: from_reader_def from_slice_def deserialize_def and_then_def)
next
  case (Some p)
  obtain x bs where p: "p = (x, bs)" by (cases p)
  show ?thesis
  proof (cases x)
    case (Ok v)
    with sim_de r Some p obtain r' where r': "deserialize_reader Dr R r = Some (Ok v, r')"
        "invar r'" "rest r' = bs" by (fastforce simp: simulates_def)
    have "from_slice Ds (rest r) =
        (if bs \<noteq> [] then Some (Err (error_new InvalidData ERROR_NOT_ALL_BYTES_READ)) else Some (Ok v))"
      using Some p Ok by (simp add: from_slice_def deserialize_def)
    moreover have "map_option fst (from_reader R Dr r) =
        (if bs \<noteq> [] then Some (Err (error_new InvalidData ERROR_NOT_ALL_BYTES_READ)) else Some (Ok v))"
    proof (cases "bs = []")
      case True
      with exact_eof [OF r'(2), of 1] r'(3) r'(1) show ?thesis
        by (auto simp: from_reader_def and_then_def)
    next
      case False
      with r'(3) have "1 \<le> length (rest r')" by (cases bs) simp_all
      from exact_ok [OF r'(2) this] r'(1) False show ?thesis
        by (auto simp: from_reader_def and_then_def)
    qed
    ultimately show ?thesis by simp
  next
    case (Err e)
    with sim_de r Some p show ?thesis
      by (fastforce simp: simulates_def from_reader_def from_slice_def deserialize_def and_then_def)
  next
    case Panic
    with sim_de r Some p show ?thesis
      by (fastforce simp: simulates_def from_reader_def from_slice_def deserialize_def and_then_def)
  qed
qed

end

subsection \<open>Implementations that keep the provided methods\<close>

lemma plain_serialize_impl:
  assumes "\<And>v. ok v \<Longrightarrow> emits (\<lambda>W. f W v) (enc v)"
  shows "serialize_impl (plain_ser n f) enc ok"
  by unfold_locales (simp_all add: assms default_u8_slice_def)

lemma plain_deserialize_impl:
  assumes "\<And>v. ok v \<Longrightarrow> decodes (f slice_reader) v (enc v)"
  shows "deserialize_impl (plain_de n f) enc ok"
  by unfold_locales
    (simp_all add: assms default_vec_from_reader_def default_array_from_reader_def ret_def)

lemma plain_canonical_impl:
  assumes "\<And>v. ok v \<Longrightarrow> decodes (f slice_reader) v (enc v)"
    and "\<And>s v t. f slice_reader s = Some (Ok v, t) \<Longrightarrow> ok v \<and> s = enc v @ t"
  shows "canonical_impl (plain_de n f) enc ok"
proof (intro canonical_impl.intro canonical_impl_axioms.intro)
  show "deserialize_impl (plain_de n f) enc ok" by (rule plain_deserialize_impl) (rule assms(1))
qed (use assms(2) in \<open>auto simp: default_vec_from_reader_def default_array_from_reader_def ret_def\<close>)

lemma plain_simulated_impl:
  assumes "lawful_reader R invar rest"
    and "simulates invar rest (fs slice_reader) (fr R)"
  shows "simulated_impl R invar rest (plain_de n fs) (plain_de n fr)"
  by (intro simulated_impl.intro simulated_impl_axioms.intro)
    (auto simp: assms default_vec_from_reader_def default_array_from_reader_def intro: sim_intros)

lemma simulated_de: "simulated_impl R invar rest Ds Dr \<Longrightarrow>
    simulates invar rest (deserialize_reader Ds slice_reader) (deserialize_reader Dr R)"
  by (rule simulated_impl.sim_de)

subsection \<open>The length writer\<close>

lemma length_writer_all:
  "default_write_all (length_writer_write ub) buf w =
     (if buf = [] then Some (Ok (), w)
      else if lw_len w + length buf < 2 ^ ub
      then Some (Ok (), w\<lparr>lw_len := lw_len w + length buf\<rparr>)
      else Some (Err (error_from OutOfMemory), w))"
  by (simp add: default_write_all.simps length_writer_write_def)

interpretation length_sink: sink "length_writer_impl ub"
  by unfold_locales
    (auto simp: equivalent_def length_writer_impl_def length_writer_all ret_def and_then_def)

text \<open>The entry points on any implementation that meets its contract.\<close>

lemma to_vec_enc:
  assumes "serialize_impl S enc ok" and "ok v"
  shows "to_vec S v = Some (Ok (enc v))"
  using emits_vec [OF serialize_impl.ser_emits [OF assms], of "[]"] by (simp add: to_vec_def)

lemma object_length_enc:
  assumes "serialize_impl S enc ok" and "ok v"
  shows "object_length ub S v =
    (if length (enc v) < 2 ^ ub then Some (Ok (length (enc v))) else Some (Err (error_from OutOfMemory)))"
proof -
  have "equivalent (serialize S (length_writer_impl ub) v) (write_all (length_writer_impl ub) (enc v))"
    using assms length_sink.sink_axioms by (rule serialize_impl.ser_sink)
  note ok = equivalent_Ok [OF this, of "\<lparr>lw_len = 0\<rparr>"] and err = equivalent_Err [OF this, of "\<lparr>lw_len = 0\<rparr>"]
  have w: "write_all (length_writer_impl ub) (enc v) \<lparr>lw_len = 0\<rparr> =
      (if length (enc v) < 2 ^ ub then Some (Ok (), \<lparr>lw_len = length (enc v)\<rparr>)
       else Some (Err (error_from OutOfMemory), \<lparr>lw_len = 0\<rparr>))"
    by (simp add: length_writer_impl_def length_writer_all)
  show ?thesis
  proof (cases "length (enc v) < 2 ^ ub")
    case True
    with ok w show ?thesis by (simp add: object_length_def)
  next
    case False
    with err w obtain t where "serialize S (length_writer_impl ub) v \<lparr>lw_len = 0\<rparr> =
        Some (Err (error_from OutOfMemory), t)" by auto
    with False show ?thesis by (simp add: object_length_def)
  qed
qed

lemma to_writer_slice:
  assumes "serialize_impl S enc ok" and "ok v"
  shows "length (enc v) \<le> length buf \<Longrightarrow>
      to_writer slice_writer S v \<lparr>written = [], unwritten = buf\<rparr> =
        Some (Ok (), \<lparr>written = enc v, unwritten = drop (length (enc v)) buf\<rparr>)"
    and "length buf < length (enc v) \<Longrightarrow>
      map_option fst (to_writer slice_writer S v \<lparr>written = [], unwritten = buf\<rparr>) =
        Some (Err (error_new WriteZero ''failed to write whole buffer''))"
proof -
  have e: "equivalent (serialize S slice_writer v) (write_all slice_writer (enc v))"
    using assms slice_sink.sink_axioms by (rule serialize_impl.ser_sink)
  show "to_writer slice_writer S v \<lparr>written = [], unwritten = buf\<rparr> =
      Some (Ok (), \<lparr>written = enc v, unwritten = drop (length (enc v)) buf\<rparr>)"
    if "length (enc v) \<le> length buf"
    using that by (simp add: to_writer_def equivalent_Ok [OF e] slice_write_all_eval)
  show "map_option fst (to_writer slice_writer S v \<lparr>written = [], unwritten = buf\<rparr>) =
      Some (Err (error_new WriteZero ''failed to write whole buffer''))"
    if "length buf < length (enc v)"
    using equivalent_Err [OF e, of "\<lparr>written = [], unwritten = buf\<rparr>"] that
    by (auto simp: to_writer_def slice_write_all_eval)
qed

context exact_reader
begin

lemma sim_read_exact:
  "simulates invar rest
     (map_err unexpected_eof_to_unexpected_length_of_input (read_exact slice_reader n))
     (map_err unexpected_eof_to_unexpected_length_of_input (read_exact R n))"
  unfolding simulates_def
proof (intro allI impI)
  fix r assume r: "invar r"
  show "case map_err unexpected_eof_to_unexpected_length_of_input (read_exact slice_reader n) (rest r) of
       None \<Rightarrow> map_err unexpected_eof_to_unexpected_length_of_input (read_exact R n) r = None
     | Some (Ok v, bs) \<Rightarrow> \<exists>r'. map_err unexpected_eof_to_unexpected_length_of_input (read_exact R n) r =
         Some (Ok v, r') \<and> invar r' \<and> rest r' = bs
     | Some (Err e, bs) \<Rightarrow> \<exists>r'. map_err unexpected_eof_to_unexpected_length_of_input (read_exact R n) r =
         Some (Err e, r')
     | Some (Panic, bs) \<Rightarrow> \<exists>r'. map_err unexpected_eof_to_unexpected_length_of_input (read_exact R n) r =
         Some (Panic, r')"
  proof (cases "n \<le> length (rest r)")
    case True
    from exact_ok [OF r True] True show ?thesis
      by (auto simp: slice_read_exact_def map_err_def)
  next
    case False
    then have "length (rest r) < n" by simp
    from exact_eof [OF r this] this show ?thesis
      by (auto simp: slice_read_exact_def map_err_def unexpected_eof_to_unexpected_length_of_input_def)
  qed
qed

end

end
