(* ===== verification/Borsh_Primitives.thy ===== *)
theory Borsh_Primitives
  imports Borsh_Traits
begin

unbundle bit_operations_syntax

section \<open>Primitive types\<close>

text \<open>
  The implementations of both traits for \<open>u8\<close>, the other integers, the non-zero
  integers, \<open>isize\<close> and \<open>usize\<close>, the floats, \<open>bool\<close>, \<open>Option\<close> and \<open>Result\<close>
  (\<open>borsh/src/ser/mod.rs\<close>, \<open>borsh/src/de/mod.rs\<close>). A Rust macro that is instantiated for
  several types is one definition with the varying part as a parameter. Signed integers
  are their two's complement bit patterns, floats their IEEE 754 bit patterns
  (\<open>to_bits\<close>); \<open>usize_bits\<close> is the width of \<open>usize\<close>.
\<close>

subsection \<open>\<open>u8\<close>\<close>

definition u8_serialize :: "'w Write \<Rightarrow> u8 \<Rightarrow> ('w, unit) io" where
  "u8_serialize writer x = write_all writer [x]"

definition u8_u8_slice :: "u8 list \<Rightarrow> bytes option" where
  "u8_u8_slice data = Some data"

definition u8_ser :: "('w, u8) BorshSerialize" where
  "u8_ser = \<lparr>serialize = u8_serialize, u8_slice = u8_u8_slice, ser_size_of = 1\<rparr>"

definition u8_deserialize_reader :: "'r Read \<Rightarrow> ('r, u8) io" where
  "u8_deserialize_reader reader =
     and_then (map_err unexpected_eof_to_unexpected_length_of_input (read_exact reader 1))
       (\<lambda>buf. ret (buf ! 0))"

text \<open>
  Reading a byte vector piece by piece. \<open>vec\<close> is the buffer, \<open>pos\<close> the number of bytes
  read; the buffer doubles until it has the announced length. \<open>vec[pos..]\<close> panics when
  the reader has claimed more bytes than the buffer held. The doubling saturates in the
  code, which makes no difference below the \<open>min\<close> with \<open>len\<close>.
\<close>

definition vec_resize :: "nat \<Rightarrow> bytes \<Rightarrow> bytes" where
  "vec_resize n v = take n v @ replicate (n - length v) 0"

definition overwrite :: "bytes \<Rightarrow> nat \<Rightarrow> bytes \<Rightarrow> bytes" where
  "overwrite v pos bs = take pos v @ take (length v - pos) bs @ drop (pos + length bs) v"

function u8_vec_loop ::
  "'r Read \<Rightarrow> nat \<Rightarrow> bytes \<Rightarrow> nat \<Rightarrow> 'r \<Rightarrow> ((io_error, bytes) outcome \<times> 'r) option" where
  "u8_vec_loop reader len vec pos r =
     (if pos < len then
        let vec' = (if pos = length vec then vec_resize (min (length vec * 2) len) vec else vec)
        in if length vec' < pos then Some (Panic, r)
           else case read reader (length vec' - pos) r of
               None \<Rightarrow> None
             | Some (Err e, r') \<Rightarrow> Some (Err e, r')
             | Some (Panic, r') \<Rightarrow> Some (Panic, r')
             | Some (Ok bs, r') \<Rightarrow>
                 if bs = [] then Some (Err (error_new InvalidData ERROR_UNEXPECTED_LENGTH_OF_INPUT), r')
                 else u8_vec_loop reader len (overwrite vec' pos bs) (pos + length bs) r'
      else Some (Ok vec, r))"
  by pat_completeness auto
termination
  by (relation "measure (\<lambda>(reader, len, vec, pos, r). len - pos)")
     (simp_all add: length_greater_0_conv [symmetric] del: length_greater_0_conv)

declare u8_vec_loop.simps [simp del]

definition u8_vec_from_reader :: "'r Read \<Rightarrow> u32 \<Rightarrow> ('r, u8 list option) io" where
  "u8_vec_from_reader reader n =
     (let len = unat n
      in map_ok Some (u8_vec_loop reader len (replicate (min len (1024 * 1024)) 0) 0))"

definition u8_array_from_reader :: "'r Read \<Rightarrow> nat \<Rightarrow> ('r, u8 list option) io" where
  "u8_array_from_reader reader n =
     map_ok Some (map_err unexpected_eof_to_unexpected_length_of_input (read_exact reader n))"

definition u8_de :: "('r, u8) BorshDeserialize" where
  "u8_de = \<lparr>deserialize_reader = u8_deserialize_reader, vec_from_reader = u8_vec_from_reader,
     array_from_reader = u8_array_from_reader, de_size_of = 1\<rparr>"

subsection \<open>Integers\<close>

text \<open>\<open>impl_for_integer!\<close>, for \<open>i8\<close> to \<open>i128\<close> and \<open>u16\<close> to \<open>u128\<close>.\<close>

definition integer_serialize :: "'w Write \<Rightarrow> 'n::len word \<Rightarrow> ('w, unit) io" where
  "integer_serialize writer x = (let bytes = to_le_bytes x in write_all writer bytes)"

definition integer_deserialize_reader :: "'r Read \<Rightarrow> ('r, 'n::len word) io" where
  "integer_deserialize_reader reader =
     and_then (map_err unexpected_eof_to_unexpected_length_of_input
         (read_exact reader (LENGTH('n) div 8)))
       (\<lambda>buf. ret (from_le_bytes buf))"

definition integer_ser :: "('w, 'n::len word) BorshSerialize" where
  "integer_ser = plain_ser (LENGTH('n) div 8) integer_serialize"

definition integer_de :: "('r, 'n::len word) BorshDeserialize" where
  "integer_de = plain_de (LENGTH('n) div 8) integer_deserialize_reader"

subsection \<open>Non-zero integers\<close>

text \<open>
  \<open>impl_for_nonzero_integer!\<close>: a non-zero integer is an integer that is not zero, \<open>get\<close>
  is the integer itself and \<open>new\<close> refuses zero. The implementation of the underlying
  integer is a parameter.
\<close>

definition ERROR_INVALID_ZERO_VALUE :: string where
  "ERROR_INVALID_ZERO_VALUE = ''Expected a non-zero value''"

definition nonzero_new :: "'a::zero \<Rightarrow> 'a option" where
  "nonzero_new x = (if x = 0 then None else Some x)"

definition nonzero_serialize ::
  "('w, 'a::zero) BorshSerialize \<Rightarrow> 'w Write \<Rightarrow> 'a \<Rightarrow> ('w, unit) io" where
  "nonzero_serialize T writer x = serialize T writer x"

definition nonzero_deserialize_reader ::
  "('r, 'a::zero) BorshDeserialize \<Rightarrow> 'r Read \<Rightarrow> ('r, 'a) io" where
  "nonzero_deserialize_reader T reader =
     and_then (deserialize_reader T reader) (\<lambda>x.
       case nonzero_new x of
           Some nz \<Rightarrow> ret nz
         | None \<Rightarrow> fail (error_new InvalidData ERROR_INVALID_ZERO_VALUE))"

definition nonzero_ser :: "('w, 'a::zero) BorshSerialize \<Rightarrow> ('w, 'a) BorshSerialize" where
  "nonzero_ser T = plain_ser (ser_size_of T) (nonzero_serialize T)"

definition nonzero_de :: "('r, 'a::zero) BorshDeserialize \<Rightarrow> ('r, 'a) BorshDeserialize" where
  "nonzero_de T = plain_de (de_size_of T) (nonzero_deserialize_reader T)"

subsection \<open>\<open>isize\<close> and \<open>usize\<close>\<close>

definition ERROR_OVERFLOW_ON_MACHINE_WITH_32_BIT_ISIZE :: string where
  "ERROR_OVERFLOW_ON_MACHINE_WITH_32_BIT_ISIZE = ''Overflow on machine with 32 bit isize''"

definition ERROR_OVERFLOW_ON_MACHINE_WITH_32_BIT_USIZE :: string where
  "ERROR_OVERFLOW_ON_MACHINE_WITH_32_BIT_USIZE = ''Overflow on machine with 32 bit usize''"

definition isize_serialize :: "'w Write \<Rightarrow> int \<Rightarrow> ('w, unit) io" where
  "isize_serialize writer x = integer_serialize writer (word_of_int x :: u64)"

definition usize_serialize :: "'w Write \<Rightarrow> nat \<Rightarrow> ('w, unit) io" where
  "usize_serialize writer x = integer_serialize writer (word_of_nat x :: u64)"

definition isize_deserialize_reader :: "nat \<Rightarrow> 'r Read \<Rightarrow> ('r, int) io" where
  "isize_deserialize_reader usize_bits reader =
     and_then (integer_deserialize_reader reader) (\<lambda>(w :: u64).
       let i = sint w
       in if - (2 ^ (usize_bits - 1)) \<le> i \<and> i < 2 ^ (usize_bits - 1) then ret i
          else fail (error_new InvalidData ERROR_OVERFLOW_ON_MACHINE_WITH_32_BIT_ISIZE))"

definition usize_deserialize_reader :: "nat \<Rightarrow> 'r Read \<Rightarrow> ('r, nat) io" where
  "usize_deserialize_reader usize_bits reader =
     and_then (integer_deserialize_reader reader) (\<lambda>(u :: u64).
       if unat u < 2 ^ usize_bits then ret (unat u)
       else fail (error_new InvalidData ERROR_OVERFLOW_ON_MACHINE_WITH_32_BIT_USIZE))"

definition isize_ser :: "nat \<Rightarrow> ('w, int) BorshSerialize" where
  "isize_ser usize_bits = plain_ser (usize_bits div 8) isize_serialize"

definition usize_ser :: "nat \<Rightarrow> ('w, nat) BorshSerialize" where
  "usize_ser usize_bits = plain_ser (usize_bits div 8) usize_serialize"

definition isize_de :: "nat \<Rightarrow> ('r, int) BorshDeserialize" where
  "isize_de usize_bits = plain_de (usize_bits div 8) (isize_deserialize_reader usize_bits)"

definition usize_de :: "nat \<Rightarrow> ('r, nat) BorshDeserialize" where
  "usize_de usize_bits = plain_de (usize_bits div 8) (usize_deserialize_reader usize_bits)"

subsection \<open>Floats\<close>

text \<open>\<open>is_nan\<close> on bit patterns: the exponent is all ones and the fraction is not zero.\<close>

definition f32_is_nan :: "u32 \<Rightarrow> bool" where
  "f32_is_nan w \<longleftrightarrow> w AND 0x7F800000 = 0x7F800000 \<and> w AND 0x007FFFFF \<noteq> 0"

definition f64_is_nan :: "u64 \<Rightarrow> bool" where
  "f64_is_nan w \<longleftrightarrow> w AND 0x7FF0000000000000 = 0x7FF0000000000000 \<and> w AND 0x000FFFFFFFFFFFFF \<noteq> 0"

definition FLOAT_NAN_ERR :: string where
  "FLOAT_NAN_ERR = ''For portability reasons we do not allow to serialize NaNs.''"

definition FLOAT_NAN_DE_ERR :: string where
  "FLOAT_NAN_DE_ERR = ''For portability reasons we do not allow to deserialize NaNs.''"

definition float_serialize :: "('n::len word \<Rightarrow> bool) \<Rightarrow> 'w Write \<Rightarrow> 'n word \<Rightarrow> ('w, unit) io" where
  "float_serialize is_nan writer x =
     (if is_nan x then fail (error_new InvalidData FLOAT_NAN_ERR)
      else write_all writer (to_le_bytes x))"

definition float_deserialize_reader :: "('n::len word \<Rightarrow> bool) \<Rightarrow> 'r Read \<Rightarrow> ('r, 'n word) io" where
  "float_deserialize_reader is_nan reader =
     and_then (map_err unexpected_eof_to_unexpected_length_of_input
         (read_exact reader (LENGTH('n) div 8)))
       (\<lambda>buf. let res = from_le_bytes buf
          in if is_nan res then fail (error_new InvalidData FLOAT_NAN_DE_ERR) else ret res)"

definition f32_ser :: "('w, u32) BorshSerialize" where
  "f32_ser = plain_ser 4 (float_serialize f32_is_nan)"

definition f64_ser :: "('w, u64) BorshSerialize" where
  "f64_ser = plain_ser 8 (float_serialize f64_is_nan)"

definition f32_de :: "('r, u32) BorshDeserialize" where
  "f32_de = plain_de 4 (float_deserialize_reader f32_is_nan)"

definition f64_de :: "('r, u64) BorshDeserialize" where
  "f64_de = plain_de 8 (float_deserialize_reader f64_is_nan)"

subsection \<open>\<open>bool\<close>, \<open>Option\<close>, \<open>Result\<close>\<close>

definition bool_serialize :: "'w Write \<Rightarrow> bool \<Rightarrow> ('w, unit) io" where
  "bool_serialize writer b = u8_serialize writer (if b then 1 else 0)"

definition bool_deserialize_reader :: "'r Read \<Rightarrow> ('r, bool) io" where
  "bool_deserialize_reader reader =
     and_then (u8_deserialize_reader reader) (\<lambda>b.
       if b = 0 then ret False
       else if b = 1 then ret True
       else fail (error_new InvalidData (''Invalid bool representation: '' @ show_nat (unat b))))"

definition bool_ser :: "('w, bool) BorshSerialize" where
  "bool_ser = plain_ser 1 bool_serialize"

definition bool_de :: "('r, bool) BorshDeserialize" where
  "bool_de = plain_de 1 bool_deserialize_reader"

definition option_serialize ::
  "('w, 'a) BorshSerialize \<Rightarrow> 'w Write \<Rightarrow> 'a option \<Rightarrow> ('w, unit) io" where
  "option_serialize T writer x =
     (case x of
         None \<Rightarrow> u8_serialize writer 0
       | Some v \<Rightarrow> and_then (u8_serialize writer 1) (\<lambda>_. serialize T writer v))"

definition option_deserialize_reader ::
  "('r, 'a) BorshDeserialize \<Rightarrow> 'r Read \<Rightarrow> ('r, 'a option) io" where
  "option_deserialize_reader T reader =
     and_then (u8_deserialize_reader reader) (\<lambda>flag.
       if flag = 0 then ret None
       else if flag = 1 then and_then (deserialize_reader T reader) (\<lambda>v. ret (Some v))
       else fail (error_new InvalidData (''Invalid Option representation: '' @ show_nat (unat flag)
              @ ''. The first byte must be 0 or 1'')))"

text \<open>\<open>Result<T, E>\<close> is the sum \<open>'e + 'a\<close>, with \<open>Inl\<close> for \<open>Err\<close> and \<open>Inr\<close> for \<open>Ok\<close>.\<close>

definition result_serialize ::
  "('w, 'a) BorshSerialize \<Rightarrow> ('w, 'e) BorshSerialize \<Rightarrow> 'w Write \<Rightarrow> 'e + 'a \<Rightarrow> ('w, unit) io" where
  "result_serialize T E writer x =
     (case x of
         Inl e \<Rightarrow> and_then (u8_serialize writer 0) (\<lambda>_. serialize E writer e)
       | Inr v \<Rightarrow> and_then (u8_serialize writer 1) (\<lambda>_. serialize T writer v))"

definition result_deserialize_reader ::
  "('r, 'a) BorshDeserialize \<Rightarrow> ('r, 'e) BorshDeserialize \<Rightarrow> 'r Read \<Rightarrow> ('r, 'e + 'a) io" where
  "result_deserialize_reader T E reader =
     and_then (u8_deserialize_reader reader) (\<lambda>flag.
       if flag = 0 then and_then (deserialize_reader E reader) (\<lambda>e. ret (Inl e))
       else if flag = 1 then and_then (deserialize_reader T reader) (\<lambda>v. ret (Inr v))
       else fail (error_new InvalidData (''Invalid Result representation: '' @ show_nat (unat flag)
              @ ''. The first byte must be 0 or 1'')))"

text \<open>The layout of \<open>Option\<close> and \<open>Result\<close>, hence their size, is the compiler's choice.\<close>

definition option_ser :: "nat \<Rightarrow> ('w, 'a) BorshSerialize \<Rightarrow> ('w, 'a option) BorshSerialize" where
  "option_ser sz T = plain_ser sz (option_serialize T)"

definition option_de :: "nat \<Rightarrow> ('r, 'a) BorshDeserialize \<Rightarrow> ('r, 'a option) BorshDeserialize" where
  "option_de sz T = plain_de sz (option_deserialize_reader T)"

definition result_ser ::
  "nat \<Rightarrow> ('w, 'a) BorshSerialize \<Rightarrow> ('w, 'e) BorshSerialize \<Rightarrow> ('w, 'e + 'a) BorshSerialize" where
  "result_ser sz T E = plain_ser sz (result_serialize T E)"

definition result_de ::
  "nat \<Rightarrow> ('r, 'a) BorshDeserialize \<Rightarrow> ('r, 'e) BorshDeserialize \<Rightarrow> ('r, 'e + 'a) BorshDeserialize" where
  "result_de sz T E = plain_de sz (result_deserialize_reader T E)"

subsection \<open>Laws: \<open>u8\<close> and byte vectors\<close>

lemma length_vec_resize [simp]: "length (vec_resize n v) = n"
  by (simp add: vec_resize_def)

lemma take_vec_resize: "k \<le> length v \<Longrightarrow> k \<le> n \<Longrightarrow> take k (vec_resize n v) = take k v"
  by (simp add: vec_resize_def min_def)

lemma length_overwrite: "pos + length bs \<le> length v \<Longrightarrow> length (overwrite v pos bs) = length v"
  by (simp add: overwrite_def)

lemma take_overwrite:
  "pos + length bs \<le> length v \<Longrightarrow> take (pos + length bs) (overwrite v pos bs) = take pos v @ bs"
  by (simp add: overwrite_def)

context lawful_reader
begin

text \<open>
  The loop reads exactly the missing bytes, whatever the pieces in which the reader
  delivers them; when the input ends early it reports the unexpected length.
\<close>

lemma u8_vec_loop_result:
  "invar r \<Longrightarrow> pos \<le> length vec \<Longrightarrow> length vec \<le> len \<Longrightarrow> (vec = [] \<longrightarrow> len = 0) \<Longrightarrow>
   (len - pos \<le> length (rest r) \<longrightarrow>
      (\<exists>r'. u8_vec_loop R len vec pos r = Some (Ok (take pos vec @ take (len - pos) (rest r)), r') \<and>
         invar r' \<and> rest r' = drop (len - pos) (rest r))) \<and>
   (length (rest r) < len - pos \<longrightarrow>
      (\<exists>r'. u8_vec_loop R len vec pos r =
         Some (Err (error_new InvalidData ERROR_UNEXPECTED_LENGTH_OF_INPUT), r')))"
proof (induction "len - pos" arbitrary: vec pos r rule: less_induct)
  case less
  note prems = less.prems
  show ?case
  proof (cases "pos < len")
    case False
    with prems have "pos = len" "length vec = len" by auto
    moreover from False have "u8_vec_loop R len vec pos r = Some (Ok vec, r)"
      by (simp add: u8_vec_loop.simps [of R len vec pos r])
    ultimately show ?thesis using prems by simp
  next
    case True
    let ?vec = "if pos = length vec then vec_resize (min (length vec * 2) len) vec else vec"
    have v: "pos < length ?vec" "length ?vec \<le> len" "take pos ?vec = take pos vec"
      using True prems by (auto simp: min_def take_vec_resize)
    obtain bs r' where rd: "read R (length ?vec - pos) r = Some (Ok bs, r')" "invar r'"
        "length bs \<le> length ?vec - pos" "rest r = bs @ rest r'"
        "bs = [] \<longrightarrow> length ?vec - pos = 0 \<or> rest r = []"
      using read_ok [OF prems(1), of "length ?vec - pos"] by blast
    have step: "u8_vec_loop R len vec pos r =
        (if bs = [] then Some (Err (error_new InvalidData ERROR_UNEXPECTED_LENGTH_OF_INPUT), r')
         else u8_vec_loop R len (overwrite ?vec pos bs) (pos + length bs) r')"
      using True v(1) rd(1) by (simp add: u8_vec_loop.simps [of R len vec pos r] Let_def)
    show ?thesis
    proof (cases "bs = []")
      case True
      with rd(4,5) v(1) step \<open>pos < len\<close> show ?thesis by auto
    next
      case False
      have b: "pos + length bs \<le> length ?vec" using rd(3) v(1) by simp
      have ih: "(len - (pos + length bs) \<le> length (rest r') \<longrightarrow>
         (\<exists>r''. u8_vec_loop R len (overwrite ?vec pos bs) (pos + length bs) r' =
             Some (Ok (take (pos + length bs) (overwrite ?vec pos bs) @
               take (len - (pos + length bs)) (rest r')), r'') \<and>
            invar r'' \<and> rest r'' = drop (len - (pos + length bs)) (rest r'))) \<and>
         (length (rest r') < len - (pos + length bs) \<longrightarrow>
         (\<exists>r''. u8_vec_loop R len (overwrite ?vec pos bs) (pos + length bs) r' =
             Some (Err (error_new InvalidData ERROR_UNEXPECTED_LENGTH_OF_INPUT), r'')))"
      proof (rule less.hyps)
        show "len - (pos + length bs) < len - pos" using True False by (cases bs) simp_all
        show "overwrite ?vec pos bs = [] \<longrightarrow> len = 0"
          using length_overwrite [OF b] v(1) by (auto simp del: length_0_conv simp flip: length_0_conv)
      qed (use rd(2) v(2) b length_overwrite [OF b] in auto)
      have len: "len - pos = length bs + (len - (pos + length bs))" using b v(2) by simp
      show ?thesis
        using ih step False rd(4) b v(3)
        by (auto simp: take_overwrite len)
    qed
  qed
qed

end

context lawful_reader
begin

lemma u8_vec_from_reader_ok:
  assumes "invar r" and "unat n \<le> length (rest r)"
  shows "\<exists>r'. u8_vec_from_reader R n r = Some (Ok (Some (take (unat n) (rest r))), r') \<and>
    invar r' \<and> rest r' = drop (unat n) (rest r)"
proof -
  have "\<exists>r'. u8_vec_loop R (unat n) (replicate (min (unat n) (1024 * 1024)) 0) 0 r =
        Some (Ok (take (unat n) (rest r)), r') \<and> invar r' \<and> rest r' = drop (unat n) (rest r)"
    using u8_vec_loop_result [OF assms(1), of 0 "replicate (min (unat n) (1024 * 1024)) 0" "unat n"] assms(2)
    by (auto simp: min_def split: if_splits)
  then show ?thesis by (auto simp: u8_vec_from_reader_def Let_def map_ok_def and_then_def ret_def)
qed

lemma u8_vec_from_reader_eof:
  assumes "invar r" and "length (rest r) < unat n"
  shows "\<exists>r'. u8_vec_from_reader R n r =
    Some (Err (error_new InvalidData ERROR_UNEXPECTED_LENGTH_OF_INPUT), r')"
proof -
  have "\<exists>r'. u8_vec_loop R (unat n) (replicate (min (unat n) (1024 * 1024)) 0) 0 r =
        Some (Err (error_new InvalidData ERROR_UNEXPECTED_LENGTH_OF_INPUT), r')"
    using u8_vec_loop_result [OF assms(1), of 0 "replicate (min (unat n) (1024 * 1024)) 0" "unat n"] assms(2)
    by (auto simp: min_def split: if_splits)
  then show ?thesis by (auto simp: u8_vec_from_reader_def Let_def map_ok_def and_then_def)
qed

lemma sim_u8_vec:
  "simulates invar rest (u8_vec_from_reader slice_reader n) (u8_vec_from_reader R n)"
  unfolding simulates_def
proof (intro allI impI)
  fix r assume r: "invar r"
  show "case u8_vec_from_reader slice_reader n (rest r) of
       None \<Rightarrow> u8_vec_from_reader R n r = None
     | Some (Ok v, bs) \<Rightarrow> \<exists>r'. u8_vec_from_reader R n r = Some (Ok v, r') \<and> invar r' \<and> rest r' = bs
     | Some (Err e, bs) \<Rightarrow> \<exists>r'. u8_vec_from_reader R n r = Some (Err e, r')
     | Some (Panic, bs) \<Rightarrow> \<exists>r'. u8_vec_from_reader R n r = Some (Panic, r')"
  proof (cases "unat n \<le> length (rest r)")
    case True
    with u8_vec_from_reader_ok [where r = r and n = n, OF r True] slice_rd.u8_vec_from_reader_ok [where r = "rest r" and n = n]
    show ?thesis by auto
  next
    case False
    with u8_vec_from_reader_eof [where r = r and n = n, OF r] slice_rd.u8_vec_from_reader_eof [where r = "rest r" and n = n]
    show ?thesis by auto
  qed
qed

lemma simulated_u8: "simulated_impl R invar rest u8_de u8_de"
proof (intro simulated_impl.intro simulated_impl_axioms.intro)
  show "lawful_reader R invar rest" by (rule lawful_reader_axioms)
qed (auto simp: u8_de_def u8_deserialize_reader_def u8_array_from_reader_def
    intro!: sim_intros sim_read_exact [unfolded slice_reader_sel] sim_u8_vec)

lemma sim_u8: "simulates invar rest (u8_deserialize_reader slice_reader) (u8_deserialize_reader R)"
  unfolding u8_deserialize_reader_def by (intro sim_intros sim_read_exact)

end

lemma u8_read_Ok [io_simps]: "u8_deserialize_reader slice_reader (b # rest) = Some (Ok b, rest)"
  by (simp add: u8_deserialize_reader_def and_then_def map_err_def slice_read_exact_def ret_def)

lemma u8_read_eof [io_simps]: "u8_deserialize_reader slice_reader [] =
    Some (Err (error_new InvalidData ERROR_UNEXPECTED_LENGTH_OF_INPUT), [])"
  by (simp add: u8_deserialize_reader_def and_then_def map_err_def slice_read_exact_def
      unexpected_eof_to_unexpected_length_of_input_def)

lemma u8_read_iff: "u8_deserialize_reader slice_reader s = Some (Ok b, t) \<longleftrightarrow> s = b # t"
  by (cases s) (auto simp: io_simps)

lemma decodes_u8 [codec_intros]: "decodes (u8_deserialize_reader slice_reader) b [b]"
  by (simp add: decodes_def io_simps)

lemma emits_u8 [codec_intros]: "emits (\<lambda>W. u8_serialize W b) [b]"
  unfolding u8_serialize_def by (rule emits_write_all)

lemma concat_singletons [simp]: "concat (map (\<lambda>x. [x]) xs) = xs"
  by (induction xs) simp_all

interpretation u8_S: serialize_impl u8_ser "\<lambda>b. [b]" "\<lambda>_. True"
  by unfold_locales (simp_all add: u8_ser_def emits_u8 u8_u8_slice_def)

interpretation u8_D: canonical_impl u8_de "\<lambda>b. [b]" "\<lambda>_. True"
proof unfold_locales
  show "decodes (deserialize_reader u8_de slice_reader) v [v]" for v
    by (simp add: u8_de_def decodes_u8)
  show "(\<forall>s. vec_from_reader u8_de slice_reader n s = Some (Ok None, s)) \<or>
      (\<forall>vs. length vs = unat n \<longrightarrow> (\<forall>v\<in>set vs. True) \<longrightarrow>
        decodes (vec_from_reader u8_de slice_reader n) (Some vs) (concat (map (\<lambda>b. [b]) vs)))" for n
    using slice_rd.u8_vec_from_reader_ok [where n = n] by (auto simp: u8_de_def decodes_def)
  show "(\<forall>s. array_from_reader u8_de slice_reader k s = Some (Ok None, s)) \<or>
      (\<forall>vs. length vs = k \<longrightarrow> (\<forall>v\<in>set vs. True) \<longrightarrow>
        decodes (array_from_reader u8_de slice_reader k) (Some vs) (concat (map (\<lambda>b. [b]) vs)))" for k
    by (auto simp: u8_de_def u8_array_from_reader_def intro!: codec_intros)
  show "True \<and> s = [v] @ t" if "deserialize_reader u8_de slice_reader s = Some (Ok v, t)" for s v t
    using that by (simp add: u8_de_def u8_read_iff)
  show "case r of None \<Rightarrow> t = s | Some vs \<Rightarrow> length vs = unat n \<and> (\<forall>v\<in>set vs. True) \<and>
      s = concat (map (\<lambda>b. [b]) vs) @ t"
    if "vec_from_reader u8_de slice_reader n s = Some (Ok r, t)" for n s r t
    using that slice_rd.u8_vec_from_reader_ok [where r = s and n = n] slice_rd.u8_vec_from_reader_eof [where r = s and n = n]
    by (cases "unat n \<le> length s") (auto simp: u8_de_def)
  show "case r' of None \<Rightarrow> t = s | Some vs \<Rightarrow> length vs = k \<and> (\<forall>v\<in>set vs. True) \<and>
      s = concat (map (\<lambda>b. [b]) vs) @ t"
    if "array_from_reader u8_de slice_reader k s = Some (Ok r', t)" for k s r' t
    using that by (auto simp: u8_de_def u8_array_from_reader_def ok_iffs slice_read_exact_Ok_iff)
qed

interpretation u8_R: simulated_impl slice_reader "\<lambda>_. True" "\<lambda>s. s" u8_de u8_de
  by (rule slice_rd.simulated_u8)

subsection \<open>Laws: integers\<close>

lemma emits_integer [codec_intros]: "emits (\<lambda>W. integer_serialize W x) (to_le_bytes x)"
  unfolding integer_serialize_def Let_def by (rule emits_write_all)

lemma decodes_integer:
  assumes "8 dvd LENGTH('n::len)"
  shows "decodes (integer_deserialize_reader slice_reader) (x :: 'n word) (to_le_bytes x)"
proof -
  have "decodes (and_then (map_err unexpected_eof_to_unexpected_length_of_input
      (slice_read_exact (LENGTH('n) div 8))) (\<lambda>buf. ret (from_le_bytes buf))) x (to_le_bytes x @ [])"
    using from_to_le_bytes [OF assms, of x]
    by (intro codec_intros) (auto simp: length_to_le_bytes decodes_def ret_def slice_read_exact_def)
  then show ?thesis by (simp add: integer_deserialize_reader_def)
qed

lemma integer_read_iff:
  assumes "8 dvd LENGTH('n::len)"
  shows "integer_deserialize_reader slice_reader s = Some (Ok (x :: 'n word), t) \<longleftrightarrow> s = to_le_bytes x @ t"
proof
  assume "integer_deserialize_reader slice_reader s = Some (Ok x, t)"
  then obtain buf where "length buf = LENGTH('n) div 8" "s = buf @ t" "x = from_le_bytes buf"
    by (auto simp: integer_deserialize_reader_def ok_iffs slice_read_exact_Ok_iff)
  with to_from_le_bytes [OF assms, of buf] show "s = to_le_bytes x @ t" by simp
next
  assume "s = to_le_bytes x @ t"
  with decodes_integer [OF assms, of x] show "integer_deserialize_reader slice_reader s = Some (Ok x, t)"
    by (simp add: decodes_def)
qed

lemma integer_read_eof:
  assumes "length s < LENGTH('n::len) div 8"
  shows "integer_deserialize_reader slice_reader s =
    (Some (Err (error_new InvalidData ERROR_UNEXPECTED_LENGTH_OF_INPUT), s) ::
      ((io_error, 'n word) outcome \<times> bytes) option)"
  using assms by (simp add: integer_deserialize_reader_def and_then_def map_err_def
      slice_read_exact_def unexpected_eof_to_unexpected_length_of_input_def)

lemma integer_serialize_impl: "serialize_impl (integer_ser :: ('w, 'n::len word) BorshSerialize) to_le_bytes (\<lambda>_. True)"
  unfolding integer_ser_def by (rule plain_serialize_impl) (rule emits_integer)

lemma integer_canonical_impl:
  assumes "8 dvd LENGTH('n::len)"
  shows "canonical_impl (integer_de :: (bytes, 'n word) BorshDeserialize) to_le_bytes (\<lambda>_. True)"
  unfolding integer_de_def
  by (rule plain_canonical_impl) (simp_all add: decodes_integer [OF assms] integer_read_iff [OF assms])

interpretation integer_S: serialize_impl integer_ser to_le_bytes "\<lambda>_. True"
  by (rule integer_serialize_impl)

interpretation u16_D: canonical_impl integer_de "to_le_bytes :: u16 \<Rightarrow> bytes" "\<lambda>_. True"
  by (rule integer_canonical_impl) simp

interpretation u32_D: canonical_impl integer_de "to_le_bytes :: u32 \<Rightarrow> bytes" "\<lambda>_. True"
  by (rule integer_canonical_impl) simp

interpretation u64_D: canonical_impl integer_de "to_le_bytes :: u64 \<Rightarrow> bytes" "\<lambda>_. True"
  by (rule integer_canonical_impl) simp

interpretation u128_D: canonical_impl integer_de "to_le_bytes :: u128 \<Rightarrow> bytes" "\<lambda>_. True"
  by (rule integer_canonical_impl) simp

lemmas decodes_u32 = decodes_integer [where 'n = 32, simplified]
lemmas decodes_u64 = decodes_integer [where 'n = 64, simplified]
lemmas u32_read_iff = integer_read_iff [where 'n = 32, simplified]
lemmas u64_read_iff = integer_read_iff [where 'n = 64, simplified]

context lawful_reader
begin

lemma sim_integer:
  "simulates invar rest (integer_deserialize_reader slice_reader) (integer_deserialize_reader R)"
  unfolding integer_deserialize_reader_def by (intro sim_intros sim_read_exact)

lemma simulated_integer: "simulated_impl R invar rest integer_de integer_de"
  unfolding integer_de_def
  by (rule plain_simulated_impl [OF lawful_reader_axioms]) (rule sim_integer)

end

subsection \<open>Laws: non-zero integers\<close>

lemma nonzero_serialize_impl:
  "serialize_impl S enc ok \<Longrightarrow> serialize_impl (nonzero_ser S) enc (\<lambda>x. ok x \<and> x \<noteq> 0)"
  unfolding nonzero_ser_def
  by (rule plain_serialize_impl) (simp add: nonzero_serialize_def serialize_impl.ser_emits)

lemma nonzero_canonical_impl:
  assumes "canonical_impl D enc ok"
  shows "canonical_impl (nonzero_de D) enc (\<lambda>x. ok x \<and> x \<noteq> 0)"
  unfolding nonzero_de_def
proof (rule plain_canonical_impl)
  show "decodes (nonzero_deserialize_reader D slice_reader) v (enc v)" if "ok v \<and> v \<noteq> 0" for v
    using canonical_impl.axioms(1) [OF assms, THEN deserialize_impl.de_decodes, of v] that
    by (simp add: nonzero_deserialize_reader_def nonzero_new_def decodes_def and_then_def ret_def)
  show "(ok v \<and> v \<noteq> 0) \<and> s = enc v @ t"
    if "nonzero_deserialize_reader D slice_reader s = Some (Ok v, t)" for s v t
    using that canonical_impl.canon [OF assms]
    by (fastforce simp: nonzero_deserialize_reader_def nonzero_new_def ok_iffs split: if_splits)
qed

lemma nonzero_zero_rejected:
  assumes "deserialize_impl D enc ok" and "ok 0"
  shows "nonzero_deserialize_reader D slice_reader (enc 0 @ rest) =
    Some (Err (error_new InvalidData ERROR_INVALID_ZERO_VALUE), rest)"
  using deserialize_impl.de_Ok [OF assms]
  by (simp add: nonzero_deserialize_reader_def nonzero_new_def and_then_def fail_def)

lemma nonzero_simulated_impl:
  assumes "simulated_impl R invar rest Ds Dr"
  shows "simulated_impl R invar rest (nonzero_de Ds) (nonzero_de Dr)"
proof -
  have "lawful_reader R invar rest" by (rule simulated_impl.axioms(1) [OF assms])
  moreover have "de_size_of Dr = de_size_of Ds" by (rule simulated_impl.sim_size [OF assms])
  moreover have "simulates invar rest (nonzero_deserialize_reader Ds slice_reader) (nonzero_deserialize_reader Dr R)"
    unfolding nonzero_deserialize_reader_def
    by (intro sim_intros simulated_de [OF assms])
  ultimately show ?thesis
    unfolding nonzero_de_def by (simp add: plain_simulated_impl)
qed

subsection \<open>Laws: \<open>isize\<close> and \<open>usize\<close>\<close>

definition usize_ok :: "nat \<Rightarrow> nat \<Rightarrow> bool" where
  "usize_ok ub x \<longleftrightarrow> ub \<le> 64 \<and> x < 2 ^ ub"

definition isize_ok :: "nat \<Rightarrow> int \<Rightarrow> bool" where
  "isize_ok ub x \<longleftrightarrow> 0 < ub \<and> ub \<le> 64 \<and> - (2 ^ (ub - 1)) \<le> x \<and> x < 2 ^ (ub - 1)"

definition usize_enc :: "nat \<Rightarrow> bytes" where
  "usize_enc x = to_le_bytes (word_of_nat x :: u64)"

definition isize_enc :: "int \<Rightarrow> bytes" where
  "isize_enc x = to_le_bytes (word_of_int x :: u64)"

lemma usize_fits: "usize_ok ub x \<Longrightarrow> unat (word_of_nat x :: u64) = x"
proof -
  assume x: "usize_ok ub x"
  then have "(2 :: nat) ^ ub \<le> 2 ^ 64" by (intro power_increasing) (auto simp: usize_ok_def)
  with x have "x < 2 ^ 64" by (simp add: usize_ok_def)
  then show ?thesis by (simp add: unat_of_nat)
qed

lemma isize_fits: "isize_ok ub x \<Longrightarrow> sint (word_of_int x :: u64) = x"
proof -
  assume x: "isize_ok ub x"
  then have "(2 :: int) ^ (ub - 1) \<le> 2 ^ 63" by (intro power_increasing) (auto simp: isize_ok_def)
  with x have "- (2 ^ 63) \<le> x" "x < 2 ^ 63" by (auto simp: isize_ok_def)
  then show ?thesis by (simp add: signed_of_int signed_take_bit_int_eq_self)
qed

lemma usize_serialize_impl: "serialize_impl (usize_ser ub) usize_enc (usize_ok ub)"
  unfolding usize_ser_def
  by (rule plain_serialize_impl) (simp add: usize_serialize_def usize_enc_def emits_integer)

lemma isize_serialize_impl: "serialize_impl (isize_ser ub) isize_enc (isize_ok ub)"
  unfolding isize_ser_def
  by (rule plain_serialize_impl) (simp add: isize_serialize_def isize_enc_def emits_integer)

lemma usize_canonical_impl:
  assumes "ub \<le> 64"
  shows "canonical_impl (usize_de ub) usize_enc (usize_ok ub)"
  unfolding usize_de_def
proof (rule plain_canonical_impl)
  show "decodes (usize_deserialize_reader ub slice_reader) v (usize_enc v)" if v: "usize_ok ub v" for v
    using decodes_u64 [of "word_of_nat v"] usize_fits [OF v] v
    by (simp add: decodes_def usize_deserialize_reader_def usize_enc_def and_then_def ret_def usize_ok_def)
  show "usize_ok ub v \<and> s = usize_enc v @ t"
    if "usize_deserialize_reader ub slice_reader s = Some (Ok v, t)" for s v t
    using that assms
    by (auto simp: usize_deserialize_reader_def ok_iffs u64_read_iff usize_ok_def usize_enc_def split: if_splits)
qed

lemma isize_canonical_impl:
  assumes "0 < ub" and "ub \<le> 64"
  shows "canonical_impl (isize_de ub) isize_enc (isize_ok ub)"
  unfolding isize_de_def
proof (rule plain_canonical_impl)
  show "decodes (isize_deserialize_reader ub slice_reader) v (isize_enc v)" if v: "isize_ok ub v" for v
    using decodes_u64 [of "word_of_int v"] isize_fits [OF v] v
    by (simp add: decodes_def isize_deserialize_reader_def isize_enc_def and_then_def ret_def isize_ok_def)
  show "isize_ok ub v \<and> s = isize_enc v @ t"
    if "isize_deserialize_reader ub slice_reader s = Some (Ok v, t)" for s v t
    using that assms
    by (auto simp: isize_deserialize_reader_def ok_iffs u64_read_iff isize_ok_def isize_enc_def Let_def
        split: if_splits)
qed

lemma usize_simulated_impl:
  assumes "lawful_reader R invar rest"
  shows "simulated_impl R invar rest (usize_de ub) (usize_de ub)"
  unfolding usize_de_def
  by (rule plain_simulated_impl [OF assms])
    (unfold usize_deserialize_reader_def, intro sim_intros lawful_reader.sim_integer [OF assms])

lemma isize_simulated_impl:
  assumes "lawful_reader R invar rest"
  shows "simulated_impl R invar rest (isize_de ub) (isize_de ub)"
  unfolding isize_de_def
  by (rule plain_simulated_impl [OF assms])
    (unfold isize_deserialize_reader_def Let_def, intro sim_intros lawful_reader.sim_integer [OF assms])

interpretation usize_S: serialize_impl "usize_ser ub" usize_enc "usize_ok ub" by (rule usize_serialize_impl)
interpretation isize_S: serialize_impl "isize_ser ub" isize_enc "isize_ok ub" by (rule isize_serialize_impl)

interpretation usize64_D: canonical_impl "usize_de 64" usize_enc "usize_ok 64"
  by (rule usize_canonical_impl) simp

interpretation isize64_D: canonical_impl "isize_de 64" isize_enc "isize_ok 64"
  by (rule isize_canonical_impl) simp_all

subsection \<open>Laws: floats\<close>

lemma float_serialize_impl:
  "serialize_impl (plain_ser n (float_serialize is_nan)) to_le_bytes (\<lambda>x. \<not> is_nan x)"
  by (rule plain_serialize_impl) (simp add: float_serialize_def emits_write_all)

lemma float_canonical_impl:
  assumes "8 dvd LENGTH('n::len)"
  shows "canonical_impl (plain_de n (float_deserialize_reader is_nan)) to_le_bytes (\<lambda>x :: 'n word. \<not> is_nan x)"
proof (rule plain_canonical_impl)
  have eq: "float_deserialize_reader is_nan slice_reader =
      and_then (integer_deserialize_reader slice_reader) (\<lambda>res :: 'n word.
        if is_nan res then fail (error_new InvalidData FLOAT_NAN_DE_ERR) else ret res)"
    by (simp add: float_deserialize_reader_def integer_deserialize_reader_def Let_def)
  show "decodes (float_deserialize_reader is_nan slice_reader) v (to_le_bytes v)" if "\<not> is_nan v" for v
    using decodes_integer [OF assms, of v] that unfolding eq by (simp add: decodes_def and_then_def ret_def)
  show "\<not> is_nan v \<and> s = to_le_bytes v @ t"
    if "float_deserialize_reader is_nan slice_reader s = Some (Ok v, t)" for s v t
    using that unfolding eq by (auto simp: ok_iffs integer_read_iff [OF assms] split: if_splits)
qed

lemma float_nan_rejected:
  assumes "8 dvd LENGTH('n::len)" and "is_nan (x :: 'n word)"
  shows "float_deserialize_reader is_nan slice_reader (to_le_bytes x @ rest) =
      Some (Err (error_new InvalidData FLOAT_NAN_DE_ERR), rest)"
    and "float_serialize is_nan W x = fail (error_new InvalidData FLOAT_NAN_ERR)"
  using assms from_to_le_bytes [OF assms(1), of x]
  by (simp_all add: float_deserialize_reader_def float_serialize_def and_then_def map_err_def
      slice_read_exact_def length_to_le_bytes fail_def Let_def)

lemma float_simulated_impl:
  assumes "lawful_reader R invar rest"
  shows "simulated_impl R invar rest (plain_de n (float_deserialize_reader is_nan))
    (plain_de n (float_deserialize_reader is_nan))"
  by (rule plain_simulated_impl [OF assms])
    (unfold float_deserialize_reader_def Let_def,
     intro sim_intros exact_reader.sim_read_exact [OF lawful_reader.axioms(1) [OF assms]])

interpretation f32_S: serialize_impl f32_ser to_le_bytes "\<lambda>x. \<not> f32_is_nan x"
  unfolding f32_ser_def by (rule float_serialize_impl)

interpretation f64_S: serialize_impl f64_ser to_le_bytes "\<lambda>x. \<not> f64_is_nan x"
  unfolding f64_ser_def by (rule float_serialize_impl)

interpretation f32_D: canonical_impl f32_de to_le_bytes "\<lambda>x. \<not> f32_is_nan x"
  unfolding f32_de_def by (rule float_canonical_impl) simp

interpretation f64_D: canonical_impl f64_de to_le_bytes "\<lambda>x. \<not> f64_is_nan x"
  unfolding f64_de_def by (rule float_canonical_impl) simp

subsection \<open>Laws: \<open>bool\<close>, \<open>Option\<close>, \<open>Result\<close>\<close>

definition bool_enc :: "bool \<Rightarrow> bytes" where
  "bool_enc b = [if b then 1 else 0]"

fun option_enc :: "('a \<Rightarrow> bytes) \<Rightarrow> 'a option \<Rightarrow> bytes" where
  "option_enc enc None = [0]"
| "option_enc enc (Some v) = 1 # enc v"

fun result_enc :: "('a \<Rightarrow> bytes) \<Rightarrow> ('e \<Rightarrow> bytes) \<Rightarrow> 'e + 'a \<Rightarrow> bytes" where
  "result_enc enc enc_e (Inl e) = 0 # enc_e e"
| "result_enc enc enc_e (Inr v) = 1 # enc v"

fun result_ok :: "('a \<Rightarrow> bool) \<Rightarrow> ('e \<Rightarrow> bool) \<Rightarrow> 'e + 'a \<Rightarrow> bool" where
  "result_ok ok ok_e (Inl e) = ok_e e"
| "result_ok ok ok_e (Inr v) = ok v"

definition option_ok :: "('a \<Rightarrow> bool) \<Rightarrow> 'a option \<Rightarrow> bool" where
  "option_ok ok x = pred_option ok x"

lemma option_ok_simps [simp]: "option_ok ok None" "option_ok ok (Some v) = ok v"
  by (simp_all add: option_ok_def)

lemma u8_read_cons: "and_then (u8_deserialize_reader slice_reader) f (b # rest) = f b rest"
  by (simp add: and_then_def io_simps)

interpretation bool_S: serialize_impl bool_ser bool_enc "\<lambda>_. True"
  unfolding bool_ser_def
  by (rule plain_serialize_impl) (simp add: bool_serialize_def bool_enc_def emits_u8)

interpretation bool_D: canonical_impl bool_de bool_enc "\<lambda>_. True"
  unfolding bool_de_def
  by (rule plain_canonical_impl)
    (auto simp: bool_deserialize_reader_def bool_enc_def decodes_def u8_read_cons ret_def ok_iffs
      u8_read_iff split: if_splits)

lemma option_serialize_impl:
  assumes "serialize_impl S enc ok"
  shows "serialize_impl (option_ser n S) (option_enc enc) (option_ok ok)"
  unfolding option_ser_def
proof (rule plain_serialize_impl)
  show "emits (\<lambda>W. option_serialize S W v) (option_enc enc v)" if v: "option_ok ok v" for v
  proof (cases v)
    case None
    then show ?thesis by (simp add: option_serialize_def emits_u8)
  next
    case (Some x)
    with v have "emits (\<lambda>W. serialize S W x) (enc x)"
      using serialize_impl.ser_emits [OF assms] by simp
    from emits_and_then [OF emits_u8 this] Some show ?thesis by (simp add: option_serialize_def)
  qed
qed

lemma option_decodes:
  assumes "deserialize_impl D enc ok" and "option_ok ok v"
  shows "decodes (option_deserialize_reader D slice_reader) v (option_enc enc v)"
  using assms(2) deserialize_impl.de_Ok [OF assms(1)]
  by (cases v) (simp_all add: decodes_def option_deserialize_reader_def u8_read_cons io_simps)

lemma option_deserialize_impl:
  "deserialize_impl D enc ok \<Longrightarrow> deserialize_impl (option_de n D) (option_enc enc) (option_ok ok)"
  unfolding option_de_def by (rule plain_deserialize_impl) (rule option_decodes)

lemma option_canonical_impl:
  assumes "canonical_impl D enc ok"
  shows "canonical_impl (option_de n D) (option_enc enc) (option_ok ok)"
  unfolding option_de_def
proof (rule plain_canonical_impl)
  show "option_ok ok v \<and> s = option_enc enc v @ t"
    if "option_deserialize_reader D slice_reader s = Some (Ok v, t)" for s v t
    using that canonical_impl.canon [OF assms]
    by (auto simp: option_deserialize_reader_def ok_iffs u8_read_iff split: if_splits)
qed (rule option_decodes [OF canonical_impl.axioms(1) [OF assms]])

lemma option_simulated_impl:
  assumes "simulated_impl R invar rest Ds Dr"
  shows "simulated_impl R invar rest (option_de n Ds) (option_de n Dr)"
  unfolding option_de_def
  by (rule plain_simulated_impl [OF simulated_impl.axioms(1) [OF assms]])
    (unfold option_deserialize_reader_def,
     intro sim_intros lawful_reader.sim_u8 [OF simulated_impl.axioms(1) [OF assms]] simulated_de [OF assms])

lemma result_serialize_impl:
  assumes "serialize_impl S enc ok" and "serialize_impl E enc_e ok_e"
  shows "serialize_impl (result_ser n S E) (result_enc enc enc_e) (result_ok ok ok_e)"
  unfolding result_ser_def
proof (rule plain_serialize_impl)
  show "emits (\<lambda>W. result_serialize S E W v) (result_enc enc enc_e v)" if v: "result_ok ok ok_e v" for v
  proof (cases v)
    case (Inl e)
    with v have "emits (\<lambda>W. serialize E W e) (enc_e e)"
      using serialize_impl.ser_emits [OF assms(2)] by simp
    from emits_and_then [OF emits_u8 this] Inl show ?thesis by (simp add: result_serialize_def)
  next
    case (Inr x)
    with v have "emits (\<lambda>W. serialize S W x) (enc x)"
      using serialize_impl.ser_emits [OF assms(1)] by simp
    from emits_and_then [OF emits_u8 this] Inr show ?thesis by (simp add: result_serialize_def)
  qed
qed

lemma result_decodes:
  assumes "deserialize_impl D enc ok" and "deserialize_impl E enc_e ok_e" and "result_ok ok ok_e v"
  shows "decodes (result_deserialize_reader D E slice_reader) v (result_enc enc enc_e v)"
  using assms(3) deserialize_impl.de_Ok [OF assms(1)] deserialize_impl.de_Ok [OF assms(2)]
  by (cases v) (simp_all add: decodes_def result_deserialize_reader_def u8_read_cons io_simps)

lemma result_deserialize_impl:
  "deserialize_impl D enc ok \<Longrightarrow> deserialize_impl E enc_e ok_e \<Longrightarrow>
   deserialize_impl (result_de n D E) (result_enc enc enc_e) (result_ok ok ok_e)"
  unfolding result_de_def by (rule plain_deserialize_impl) (rule result_decodes)

lemma result_canonical_impl:
  assumes "canonical_impl D enc ok" and "canonical_impl E enc_e ok_e"
  shows "canonical_impl (result_de n D E) (result_enc enc enc_e) (result_ok ok ok_e)"
  unfolding result_de_def
proof (rule plain_canonical_impl)
  show "result_ok ok ok_e v \<and> s = result_enc enc enc_e v @ t"
    if "result_deserialize_reader D E slice_reader s = Some (Ok v, t)" for s v t
    using that canonical_impl.canon [OF assms(1)] canonical_impl.canon [OF assms(2)]
    by (auto simp: result_deserialize_reader_def ok_iffs u8_read_iff split: if_splits)
qed (rule result_decodes [OF canonical_impl.axioms(1) [OF assms(1)] canonical_impl.axioms(1) [OF assms(2)]])

lemma result_simulated_impl:
  assumes "simulated_impl R invar rest Ds Dr" and "simulated_impl R invar rest Es Er"
  shows "simulated_impl R invar rest (result_de n Ds Es) (result_de n Dr Er)"
  unfolding result_de_def
  by (rule plain_simulated_impl [OF simulated_impl.axioms(1) [OF assms(1)]])
    (unfold result_deserialize_reader_def,
     intro sim_intros lawful_reader.sim_u8 [OF simulated_impl.axioms(1) [OF assms(1)]]
       simulated_de [OF assms(1)] simulated_de [OF assms(2)])

text \<open>A tag byte other than 0 and 1 is refused with a message that names it.\<close>

lemma bad_flag_rejected:
  assumes "b \<noteq> 0" and "b \<noteq> 1"
  shows "bool_deserialize_reader slice_reader (b # rest) =
      Some (Err (error_new InvalidData (''Invalid bool representation: '' @ show_nat (unat b))), rest)"
    and "option_deserialize_reader D slice_reader (b # rest) =
      Some (Err (error_new InvalidData (''Invalid Option representation: '' @ show_nat (unat b)
        @ ''. The first byte must be 0 or 1'')), rest)"
    and "result_deserialize_reader D E slice_reader (b # rest) =
      Some (Err (error_new InvalidData (''Invalid Result representation: '' @ show_nat (unat b)
        @ ''. The first byte must be 0 or 1'')), rest)"
  using assms by (simp_all add: bool_deserialize_reader_def option_deserialize_reader_def
      result_deserialize_reader_def u8_read_cons fail_def)

end
