(* ===== verification/Borsh_Collections.thy ===== *)
theory Borsh_Collections
  imports Borsh_Primitives "HOL-Library.AList" "HOL-Library.Multiset"
begin

section \<open>Sequences, strings, maps and sets\<close>

text \<open>
  The implementations for slices, \<open>Vec\<close>, \<open>VecDeque\<close>, \<open>LinkedList\<close>, strings, and for
  the ordered and hashed maps and sets (\<open>borsh/src/ser/mod.rs\<close>, \<open>borsh/src/de/mod.rs\<close>),
  and the glue for the collections of the optional crates \<open>bytes\<close>, \<open>ascii\<close>, \<open>bson\<close> and
  \<open>indexmap\<close>, whose own operations are parameters.
  A \<open>VecDeque\<close> is the pair of its two slices; a \<open>BTreeMap\<close> is its entries in key order;
  a \<open>HashMap\<close> is its entries in the order in which it iterates, which is arbitrary: the
  function \<open>iter_order\<close> that a hasher imposes on the entries is a parameter. \<open>strict\<close> is
  the Cargo feature \<open>de_strict_order\<close>.
\<close>

subsection \<open>Pairs\<close>

text \<open>\<open>impl_tuple!(T0 T1)\<close>: the elements of the maps.\<close>

definition tuple2_serialize ::
  "('w, 'a) BorshSerialize \<Rightarrow> ('w, 'b) BorshSerialize \<Rightarrow> 'w Write \<Rightarrow> 'a \<times> 'b \<Rightarrow> ('w, unit) io" where
  "tuple2_serialize A B writer x =
     and_then (serialize A writer (fst x)) (\<lambda>_.
     and_then (serialize B writer (snd x)) (\<lambda>_. ret ()))"

definition tuple2_deserialize_reader ::
  "('r, 'a) BorshDeserialize \<Rightarrow> ('r, 'b) BorshDeserialize \<Rightarrow> 'r Read \<Rightarrow> ('r, 'a \<times> 'b) io" where
  "tuple2_deserialize_reader A B reader =
     and_then (deserialize_reader A reader) (\<lambda>a.
     and_then (deserialize_reader B reader) (\<lambda>b. ret (a, b)))"

definition tuple2_ser ::
  "nat \<Rightarrow> ('w, 'a) BorshSerialize \<Rightarrow> ('w, 'b) BorshSerialize \<Rightarrow> ('w, 'a \<times> 'b) BorshSerialize" where
  "tuple2_ser sz A B = plain_ser sz (tuple2_serialize A B)"

definition tuple2_de ::
  "nat \<Rightarrow> ('r, 'a) BorshDeserialize \<Rightarrow> ('r, 'b) BorshDeserialize \<Rightarrow> ('r, 'a \<times> 'b) BorshDeserialize" where
  "tuple2_de sz A B = plain_de sz (tuple2_deserialize_reader A B)"

subsection \<open>Slices and vectors\<close>

definition serialize_slice :: "('w, 'a) BorshSerialize \<Rightarrow> 'a list \<Rightarrow> 'w Write \<Rightarrow> ('w, unit) io" where
  "serialize_slice T data writer =
     and_then (case u8_slice T data of
           Some bs \<Rightarrow> write_all writer bs
         | None \<Rightarrow> for_each (\<lambda>item. serialize T writer item) data)
       (\<lambda>_. ret ())"

definition slice_serialize :: "('w, 'a) BorshSerialize \<Rightarrow> 'w Write \<Rightarrow> 'a list \<Rightarrow> ('w, unit) io" where
  "slice_serialize T writer self =
     and_then (lift (u32_try_from (length self))) (\<lambda>n.
     and_then (write_all writer (to_le_bytes n)) (\<lambda>_.
     serialize_slice T self writer))"

definition vec_serialize :: "('w, 'a) BorshSerialize \<Rightarrow> 'w Write \<Rightarrow> 'a list \<Rightarrow> ('w, unit) io" where
  "vec_serialize T writer self =
     and_then (check_zst (ser_size_of T)) (\<lambda>_. slice_serialize T writer self)"

definition vec_deserialize_reader :: "('r, 'a) BorshDeserialize \<Rightarrow> 'r Read \<Rightarrow> ('r, 'a list) io" where
  "vec_deserialize_reader T reader =
     and_then (check_zst (de_size_of T)) (\<lambda>_.
     and_then (integer_deserialize_reader reader) (\<lambda>len :: u32.
       if len = 0 then ret []
       else and_then (vec_from_reader T reader len) (\<lambda>vec_bytes.
         case vec_bytes of
             Some v \<Rightarrow> ret v
           | None \<Rightarrow>
               and_then (lift (cautious (de_size_of T) len)) (\<lambda>capacity.
               push_times (unat len) (deserialize_reader T reader) []))))"

text \<open>A \<open>Vec\<close>, like every other collection, is a header of fixed size: three words.\<close>

definition vec_ser :: "nat \<Rightarrow> ('w, 'a) BorshSerialize \<Rightarrow> ('w, 'a list) BorshSerialize" where
  "vec_ser sz T = plain_ser sz (vec_serialize T)"

definition vec_de :: "nat \<Rightarrow> ('r, 'a) BorshDeserialize \<Rightarrow> ('r, 'a list) BorshDeserialize" where
  "vec_de sz T = plain_de sz (vec_deserialize_reader T)"

subsection \<open>\<open>VecDeque\<close> and \<open>LinkedList\<close>\<close>

definition vec_deque_serialize ::
  "('w, 'a) BorshSerialize \<Rightarrow> 'w Write \<Rightarrow> 'a list \<times> 'a list \<Rightarrow> ('w, unit) io" where
  "vec_deque_serialize T writer slices =
     and_then (check_zst (ser_size_of T)) (\<lambda>_.
     and_then (lift (u32_try_from (length (fst slices) + length (snd slices)))) (\<lambda>n.
     and_then (write_all writer (to_le_bytes n)) (\<lambda>_.
     and_then (serialize_slice T (fst slices) writer) (\<lambda>_.
     serialize_slice T (snd slices) writer))))"

text \<open>\<open>From<Vec<T>> for VecDeque<T>\<close>: all the elements are in the first slice.\<close>

definition vec_deque_deserialize_reader ::
  "('r, 'a) BorshDeserialize \<Rightarrow> 'r Read \<Rightarrow> ('r, 'a list \<times> 'a list) io" where
  "vec_deque_deserialize_reader T reader =
     and_then (vec_deserialize_reader T reader) (\<lambda>vec. ret (vec, []))"

definition linked_list_serialize ::
  "('w, 'a) BorshSerialize \<Rightarrow> 'w Write \<Rightarrow> 'a list \<Rightarrow> ('w, unit) io" where
  "linked_list_serialize T writer self =
     and_then (check_zst (ser_size_of T)) (\<lambda>_.
     and_then (lift (u32_try_from (length self))) (\<lambda>n.
     and_then (write_all writer (to_le_bytes n)) (\<lambda>_.
     and_then (for_each (\<lambda>item. serialize T writer item) self) (\<lambda>_. ret ()))))"

definition linked_list_deserialize_reader ::
  "('r, 'a) BorshDeserialize \<Rightarrow> 'r Read \<Rightarrow> ('r, 'a list) io" where
  "linked_list_deserialize_reader T reader =
     and_then (vec_deserialize_reader T reader) (\<lambda>vec. ret vec)"

subsection \<open>Strings\<close>

text \<open>
  A \<open>String\<close> is a sequence of bytes that is valid UTF-8, and \<open>char\<close> of HOL is a byte.
  \<open>utf8_error i bs\<close> is the validation of \<open>core::str::from_utf8\<close> on the input from index
  \<open>i\<close> on: nothing, or the index of the first invalid sequence and its length (\<open>None\<close>
  for an incomplete sequence at the end).
\<close>

definition continuation :: "nat \<Rightarrow> bool" where
  "continuation b \<longleftrightarrow> 128 \<le> b \<and> b \<le> 191"

fun utf8_error :: "nat \<Rightarrow> nat list \<Rightarrow> (nat \<times> nat option) option" where
  "utf8_error i [] = None"
| "utf8_error i (b # bs) =
     (if b < 128 then utf8_error (i + 1) bs
      else if 194 \<le> b \<and> b \<le> 223 then
        (case bs of
            [] \<Rightarrow> Some (i, None)
          | c # cs \<Rightarrow> if continuation c then utf8_error (i + 2) cs else Some (i, Some 1))
      else if 224 \<le> b \<and> b \<le> 239 then
        (case bs of
            [] \<Rightarrow> Some (i, None)
          | c # cs \<Rightarrow>
              if (b = 224 \<and> 160 \<le> c \<and> c \<le> 191) \<or> (225 \<le> b \<and> b \<le> 236 \<and> continuation c)
                 \<or> (b = 237 \<and> 128 \<le> c \<and> c \<le> 159) \<or> (238 \<le> b \<and> continuation c)
              then (case cs of
                  [] \<Rightarrow> Some (i, None)
                | d # ds \<Rightarrow> if continuation d then utf8_error (i + 3) ds else Some (i, Some 2))
              else Some (i, Some 1))
      else if 240 \<le> b \<and> b \<le> 244 then
        (case bs of
            [] \<Rightarrow> Some (i, None)
          | c # cs \<Rightarrow>
              if (b = 240 \<and> 144 \<le> c \<and> c \<le> 191) \<or> (241 \<le> b \<and> b \<le> 243 \<and> continuation c)
                 \<or> (b = 244 \<and> 128 \<le> c \<and> c \<le> 143)
              then (case cs of
                  [] \<Rightarrow> Some (i, None)
                | d # ds \<Rightarrow>
                    if continuation d
                    then (case ds of
                        [] \<Rightarrow> Some (i, None)
                      | e # es \<Rightarrow> if continuation e then utf8_error (i + 4) es else Some (i, Some 3))
                    else Some (i, Some 2))
              else Some (i, Some 1))
      else Some (i, Some 1))"

text \<open>\<open>Display\<close> of \<open>FromUtf8Error\<close>.\<close>

fun utf8_error_message :: "nat \<times> nat option \<Rightarrow> string" where
  "utf8_error_message (valid_up_to, Some error_len) =
     ''invalid utf-8 sequence of '' @ show_nat error_len @ '' bytes from index '' @ show_nat valid_up_to"
| "utf8_error_message (valid_up_to, None) =
     ''incomplete utf-8 byte sequence from index '' @ show_nat valid_up_to"

definition string_from_utf8 :: "bytes \<Rightarrow> (string, string) outcome" where
  "string_from_utf8 bs =
     (case utf8_error 0 (List.map unat bs) of
         None \<Rightarrow> Ok (string_of_bytes bs)
       | Some err \<Rightarrow> Err (utf8_error_message err))"

definition str_serialize :: "'w Write \<Rightarrow> string \<Rightarrow> ('w, unit) io" where
  "str_serialize writer self = slice_serialize u8_ser writer (as_bytes self)"

definition string_serialize :: "'w Write \<Rightarrow> string \<Rightarrow> ('w, unit) io" where
  "string_serialize writer self = slice_serialize u8_ser writer (as_bytes self)"

definition string_deserialize_reader :: "'r Read \<Rightarrow> ('r, string) io" where
  "string_deserialize_reader reader =
     and_then (vec_deserialize_reader u8_de reader) (\<lambda>bs.
       case string_from_utf8 bs of
           Ok s \<Rightarrow> ret s
         | Err msg \<Rightarrow> fail (error_new InvalidData msg)
         | Panic \<Rightarrow> panic)"

definition string_ser :: "nat \<Rightarrow> ('w, string) BorshSerialize" where
  "string_ser sz = plain_ser sz string_serialize"

definition string_de :: "nat \<Rightarrow> ('r, string) BorshDeserialize" where
  "string_de sz = plain_de sz string_deserialize_reader"

subsection \<open>Ordered maps and sets\<close>

definition ERROR_WRONG_ORDER_OF_KEYS :: string where
  "ERROR_WRONG_ORDER_OF_KEYS = ''keys were not serialized in ascending order''"

text \<open>The loop over \<open>vec.windows(2)\<close>.\<close>

fun check_ascending :: "'k::linorder list \<Rightarrow> (io_error, unit) outcome" where
  "check_ascending (a # b # ks) =
     (if a < b then check_ascending (b # ks)
      else Err (error_new InvalidData ERROR_WRONG_ORDER_OF_KEYS))"
| "check_ascending _ = Ok ()"

definition btree_map_serialize ::
  "('w, 'k) BorshSerialize \<Rightarrow> ('w, 'v) BorshSerialize \<Rightarrow> 'w Write \<Rightarrow> ('k \<times> 'v) list \<Rightarrow> ('w, unit) io" where
  "btree_map_serialize K V writer self =
     and_then (check_zst (ser_size_of K)) (\<lambda>_.
     and_then (lift (u32_try_from (length self))) (\<lambda>n.
     and_then (integer_serialize writer n) (\<lambda>_.
     and_then (for_each (\<lambda>(key, value).
           and_then (serialize K writer key) (\<lambda>_. serialize V writer value)) self)
       (\<lambda>_. ret ()))))"

definition btree_set_serialize ::
  "('w, 'k) BorshSerialize \<Rightarrow> 'w Write \<Rightarrow> 'k list \<Rightarrow> ('w, unit) io" where
  "btree_set_serialize T writer self =
     and_then (check_zst (ser_size_of T)) (\<lambda>_.
     and_then (lift (u32_try_from (length self))) (\<lambda>n.
     and_then (integer_serialize writer n) (\<lambda>_.
     and_then (for_each (\<lambda>item. serialize T writer item) self) (\<lambda>_. ret ()))))"

text \<open>\<open>collect\<close> into an ordered map or set: the entries are inserted one after the other,
  a later value for the same key replaces the earlier one.\<close>

fun btree_map_insert :: "'k::linorder \<Rightarrow> 'v \<Rightarrow> ('k \<times> 'v) list \<Rightarrow> ('k \<times> 'v) list" where
  "btree_map_insert k v [] = [(k, v)]"
| "btree_map_insert k v ((k', v') # m) =
     (if k < k' then (k, v) # (k', v') # m
      else if k = k' then (k', v) # m
      else (k', v') # btree_map_insert k v m)"

definition btree_map_collect :: "('k::linorder \<times> 'v) list \<Rightarrow> ('k \<times> 'v) list" where
  "btree_map_collect vec = fold (\<lambda>(k, v) m. btree_map_insert k v m) vec []"

definition btree_set_collect :: "'k::linorder list \<Rightarrow> 'k list" where
  "btree_set_collect vec = List.map fst (btree_map_collect (List.map (\<lambda>k. (k, ())) vec))"

definition btree_map_deserialize_reader ::
  "bool \<Rightarrow> nat \<Rightarrow> ('r, 'k::linorder) BorshDeserialize \<Rightarrow> ('r, 'v) BorshDeserialize \<Rightarrow>
   'r Read \<Rightarrow> ('r, ('k \<times> 'v) list) io" where
  "btree_map_deserialize_reader strict pair_size K V reader =
     and_then (check_zst (de_size_of K)) (\<lambda>_.
     and_then (vec_deserialize_reader (tuple2_de pair_size K V) reader) (\<lambda>vec.
     and_then (if strict then lift (check_ascending (List.map fst vec)) else ret ()) (\<lambda>_.
     ret (btree_map_collect vec))))"

definition btree_set_deserialize_reader ::
  "bool \<Rightarrow> ('r, 'k::linorder) BorshDeserialize \<Rightarrow> 'r Read \<Rightarrow> ('r, 'k list) io" where
  "btree_set_deserialize_reader strict T reader =
     and_then (vec_deserialize_reader T reader) (\<lambda>vec.
     and_then (if strict then lift (check_ascending vec) else ret ()) (\<lambda>_.
     ret (btree_set_collect vec)))"

definition btree_map_ser ::
  "nat \<Rightarrow> ('w, 'k) BorshSerialize \<Rightarrow> ('w, 'v) BorshSerialize \<Rightarrow> ('w, ('k \<times> 'v) list) BorshSerialize" where
  "btree_map_ser sz K V = plain_ser sz (btree_map_serialize K V)"

definition btree_map_de ::
  "bool \<Rightarrow> nat \<Rightarrow> nat \<Rightarrow> ('r, 'k::linorder) BorshDeserialize \<Rightarrow> ('r, 'v) BorshDeserialize \<Rightarrow>
   ('r, ('k \<times> 'v) list) BorshDeserialize" where
  "btree_map_de strict sz pair_size K V = plain_de sz (btree_map_deserialize_reader strict pair_size K V)"

definition btree_set_ser :: "nat \<Rightarrow> ('w, 'k) BorshSerialize \<Rightarrow> ('w, 'k list) BorshSerialize" where
  "btree_set_ser sz T = plain_ser sz (btree_set_serialize T)"

definition btree_set_de ::
  "bool \<Rightarrow> nat \<Rightarrow> ('r, 'k::linorder) BorshDeserialize \<Rightarrow> ('r, 'k list) BorshDeserialize" where
  "btree_set_de strict sz T = plain_de sz (btree_set_deserialize_reader strict T)"

subsection \<open>Hashed maps and sets\<close>

definition hash_map_serialize ::
  "nat \<Rightarrow> ('w, 'k::linorder) BorshSerialize \<Rightarrow> ('w, 'v) BorshSerialize \<Rightarrow> 'w Write \<Rightarrow>
   ('k \<times> 'v) list \<Rightarrow> ('w, unit) io" where
  "hash_map_serialize pair_size K V writer iter =
     and_then (check_zst (ser_size_of K)) (\<lambda>_.
       let vec = sort_key fst iter
       in and_then (lift (u32_try_from (length vec))) (\<lambda>n.
          and_then (integer_serialize writer n) (\<lambda>_.
          and_then (for_each (\<lambda>kv. serialize (tuple2_ser pair_size K V) writer kv) vec) (\<lambda>_. ret ()))))"

definition hash_set_serialize ::
  "('w, 'k::linorder) BorshSerialize \<Rightarrow> 'w Write \<Rightarrow> 'k list \<Rightarrow> ('w, unit) io" where
  "hash_set_serialize T writer iter =
     and_then (check_zst (ser_size_of T)) (\<lambda>_.
       let vec = sort iter
       in and_then (lift (u32_try_from (length vec))) (\<lambda>n.
          and_then (integer_serialize writer n) (\<lambda>_.
          and_then (for_each (\<lambda>item. serialize T writer item) vec) (\<lambda>_. ret ()))))"

definition hash_map_collect :: "('k \<times> 'v) list \<Rightarrow> ('k \<times> 'v) list" where
  "hash_map_collect vec = fold (\<lambda>(k, v) m. AList.update k v m) vec []"

definition hash_set_collect :: "'k list \<Rightarrow> 'k list" where
  "hash_set_collect vec = fold (\<lambda>k s. if k \<in> set s then s else s @ [k]) vec []"

definition hash_map_deserialize_reader ::
  "bool \<Rightarrow> (('k \<times> 'v) list \<Rightarrow> ('k \<times> 'v) list) \<Rightarrow> nat \<Rightarrow> ('r, 'k::linorder) BorshDeserialize \<Rightarrow>
   ('r, 'v) BorshDeserialize \<Rightarrow> 'r Read \<Rightarrow> ('r, ('k \<times> 'v) list) io" where
  "hash_map_deserialize_reader strict iter_order pair_size K V reader =
     and_then (check_zst (de_size_of K)) (\<lambda>_.
     and_then (vec_deserialize_reader (tuple2_de pair_size K V) reader) (\<lambda>vec.
     and_then (if strict then lift (check_ascending (List.map fst vec)) else ret ()) (\<lambda>_.
     ret (iter_order (hash_map_collect vec)))))"

definition hash_set_deserialize_reader ::
  "bool \<Rightarrow> ('k list \<Rightarrow> 'k list) \<Rightarrow> ('r, 'k::linorder) BorshDeserialize \<Rightarrow> 'r Read \<Rightarrow> ('r, 'k list) io" where
  "hash_set_deserialize_reader strict iter_order T reader =
     and_then (vec_deserialize_reader T reader) (\<lambda>vec.
     and_then (if strict then lift (check_ascending vec) else ret ()) (\<lambda>_.
     ret (iter_order (hash_set_collect vec))))"

subsection \<open>Optional crates\<close>

text \<open>
  \<open>indexmap\<close>: \<open>iter\<close> and \<open>collect\<close> are the crate's; \<open>bytes\<close>: \<open>as_ref\<close>, \<open>from_vec\<close>,
  \<open>with_capacity\<close> and \<open>put_u8\<close>; \<open>bson\<close>: \<open>oid_bytes\<close> and \<open>from_bytes\<close>; \<open>ascii\<close>: \<open>as_byte\<close>,
  \<open>ascii_bytes\<close> and \<open>from_ascii\<close>, which fails with a message.
\<close>

definition index_set_serialize ::
  "('m \<Rightarrow> 'k list) \<Rightarrow> ('w, 'k) BorshSerialize \<Rightarrow> 'w Write \<Rightarrow> 'm \<Rightarrow> ('w, unit) io" where
  "index_set_serialize iter T writer self =
     and_then (check_zst (ser_size_of T)) (\<lambda>_.
       let iterator = iter self
       in and_then (lift (u32_try_from (length iterator))) (\<lambda>n.
          and_then (integer_serialize writer n) (\<lambda>_.
          and_then (for_each (\<lambda>item. serialize T writer item) iterator) (\<lambda>_. ret ()))))"

definition index_map_serialize ::
  "('m \<Rightarrow> ('k \<times> 'v) list) \<Rightarrow> ('w, 'k) BorshSerialize \<Rightarrow> ('w, 'v) BorshSerialize \<Rightarrow> 'w Write \<Rightarrow>
   'm \<Rightarrow> ('w, unit) io" where
  "index_map_serialize iter K V writer self =
     and_then (check_zst (ser_size_of K)) (\<lambda>_.
       let iterator = iter self
       in and_then (lift (u32_try_from (length iterator))) (\<lambda>n.
          and_then (integer_serialize writer n) (\<lambda>_.
          and_then (for_each (\<lambda>(key, value).
              and_then (serialize K writer key) (\<lambda>_. serialize V writer value)) iterator)
            (\<lambda>_. ret ()))))"

definition index_map_deserialize_reader ::
  "(('k \<times> 'v) list \<Rightarrow> 'm) \<Rightarrow> nat \<Rightarrow> ('r, 'k) BorshDeserialize \<Rightarrow> ('r, 'v) BorshDeserialize \<Rightarrow>
   'r Read \<Rightarrow> ('r, 'm) io" where
  "index_map_deserialize_reader collect pair_size K V reader =
     and_then (check_zst (de_size_of K)) (\<lambda>_.
     and_then (vec_deserialize_reader (tuple2_de pair_size K V) reader) (\<lambda>vec. ret (collect vec)))"

definition index_set_deserialize_reader ::
  "('k list \<Rightarrow> 'm) \<Rightarrow> ('r, 'k) BorshDeserialize \<Rightarrow> 'r Read \<Rightarrow> ('r, 'm) io" where
  "index_set_deserialize_reader collect T reader =
     and_then (check_zst (de_size_of T)) (\<lambda>_.
     and_then (vec_deserialize_reader T reader) (\<lambda>vec. ret (collect vec)))"

definition bytes_serialize :: "('b \<Rightarrow> bytes) \<Rightarrow> 'w Write \<Rightarrow> 'b \<Rightarrow> ('w, unit) io" where
  "bytes_serialize as_ref writer self = slice_serialize u8_ser writer (as_ref self)"

definition bytes_mut_serialize :: "('b \<Rightarrow> bytes) \<Rightarrow> 'w Write \<Rightarrow> 'b \<Rightarrow> ('w, unit) io" where
  "bytes_mut_serialize as_ref writer self = slice_serialize u8_ser writer (as_ref self)"

definition bytes_deserialize_reader :: "(bytes \<Rightarrow> 'b) \<Rightarrow> 'r Read \<Rightarrow> ('r, 'b) io" where
  "bytes_deserialize_reader from_vec reader =
     and_then (vec_deserialize_reader u8_de reader) (\<lambda>vec. ret (from_vec vec))"

fun put_times :: "nat \<Rightarrow> ('s, 'e, u8) eff \<Rightarrow> ('b \<Rightarrow> u8 \<Rightarrow> 'b) \<Rightarrow> 'b \<Rightarrow> ('s, 'e, 'b) eff" where
  "put_times 0 m put_u8 out = ret out"
| "put_times (Suc n) m put_u8 out = and_then m (\<lambda>b. put_times n m put_u8 (put_u8 out b))"

definition bytes_mut_deserialize_reader ::
  "(nat \<Rightarrow> 'b) \<Rightarrow> ('b \<Rightarrow> u8 \<Rightarrow> 'b) \<Rightarrow> 'r Read \<Rightarrow> ('r, 'b) io" where
  "bytes_mut_deserialize_reader with_capacity put_u8 reader =
     and_then (integer_deserialize_reader reader) (\<lambda>len :: u32.
     and_then (lift (cautious 1 len)) (\<lambda>capacity.
     put_times (unat len) (u8_deserialize_reader reader) put_u8 (with_capacity capacity)))"

text \<open>The identifier is read without translating the end of the input.\<close>

definition object_id_deserialize_reader :: "(bytes \<Rightarrow> 'o) \<Rightarrow> 'r Read \<Rightarrow> ('r, 'o) io" where
  "object_id_deserialize_reader from_bytes reader =
     and_then (read_exact reader 12) (\<lambda>buf. ret (from_bytes buf))"

definition ascii_char_serialize :: "('c \<Rightarrow> u8) \<Rightarrow> 'w Write \<Rightarrow> 'c \<Rightarrow> ('w, unit) io" where
  "ascii_char_serialize as_byte writer self = u8_serialize writer (as_byte self)"

definition ascii_string_serialize :: "('c \<Rightarrow> bytes) \<Rightarrow> 'w Write \<Rightarrow> 'c \<Rightarrow> ('w, unit) io" where
  "ascii_string_serialize ascii_bytes writer self = slice_serialize u8_ser writer (ascii_bytes self)"

definition ascii_string_deserialize_reader ::
  "(bytes \<Rightarrow> string + 's) \<Rightarrow> 'r Read \<Rightarrow> ('r, 's) io" where
  "ascii_string_deserialize_reader from_ascii reader =
     and_then (vec_deserialize_reader u8_de reader) (\<lambda>bs.
       case from_ascii bs of Inr s \<Rightarrow> ret s | Inl msg \<Rightarrow> fail (error_new InvalidData msg))"

definition ascii_char_deserialize_reader ::
  "(u8 \<Rightarrow> string + 'c) \<Rightarrow> 'r Read \<Rightarrow> ('r, 'c) io" where
  "ascii_char_deserialize_reader from_ascii reader =
     and_then (u8_deserialize_reader reader) (\<lambda>byte.
       case from_ascii byte of Inr c \<Rightarrow> ret c | Inl msg \<Rightarrow> fail (error_new InvalidData msg))"

subsection \<open>Laws: pairs\<close>

definition pair_enc :: "('a \<Rightarrow> bytes) \<Rightarrow> ('b \<Rightarrow> bytes) \<Rightarrow> 'a \<times> 'b \<Rightarrow> bytes" where
  "pair_enc enc_a enc_b x = enc_a (fst x) @ enc_b (snd x)"

definition pair_ok :: "('a \<Rightarrow> bool) \<Rightarrow> ('b \<Rightarrow> bool) \<Rightarrow> 'a \<times> 'b \<Rightarrow> bool" where
  "pair_ok ok_a ok_b x \<longleftrightarrow> ok_a (fst x) \<and> ok_b (snd x)"

lemma emits_pair:
  assumes "serialize_impl A enc_a ok_a" and "serialize_impl B enc_b ok_b" and "pair_ok ok_a ok_b x"
  shows "emits (\<lambda>W. and_then (serialize A W (fst x)) (\<lambda>_. serialize B W (snd x))) (pair_enc enc_a enc_b x)"
  unfolding pair_enc_def
  using assms(3)
  by (intro emits_and_then serialize_impl.ser_emits [OF assms(1)] serialize_impl.ser_emits [OF assms(2)])
    (auto simp: pair_ok_def)

lemma tuple2_serialize_impl:
  assumes "serialize_impl A enc_a ok_a" and "serialize_impl B enc_b ok_b"
  shows "serialize_impl (tuple2_ser n A B) (pair_enc enc_a enc_b) (pair_ok ok_a ok_b)"
  unfolding tuple2_ser_def
  by (rule plain_serialize_impl) (simp add: tuple2_serialize_def emits_pair [OF assms])

lemma tuple2_decodes:
  assumes "deserialize_impl A enc_a ok_a" and "deserialize_impl B enc_b ok_b" and "pair_ok ok_a ok_b x"
  shows "decodes (tuple2_deserialize_reader A B slice_reader) x (pair_enc enc_a enc_b x)"
  using assms(3) deserialize_impl.de_Ok [OF assms(1)] deserialize_impl.de_Ok [OF assms(2)]
  by (simp add: decodes_def tuple2_deserialize_reader_def pair_enc_def pair_ok_def and_then_def ret_def)

lemma tuple2_deserialize_impl:
  "deserialize_impl A enc_a ok_a \<Longrightarrow> deserialize_impl B enc_b ok_b \<Longrightarrow>
   deserialize_impl (tuple2_de n A B) (pair_enc enc_a enc_b) (pair_ok ok_a ok_b)"
  unfolding tuple2_de_def by (rule plain_deserialize_impl) (rule tuple2_decodes)

lemma tuple2_canonical_impl:
  assumes "canonical_impl A enc_a ok_a" and "canonical_impl B enc_b ok_b"
  shows "canonical_impl (tuple2_de n A B) (pair_enc enc_a enc_b) (pair_ok ok_a ok_b)"
  unfolding tuple2_de_def
proof (rule plain_canonical_impl)
  show "pair_ok ok_a ok_b v \<and> s = pair_enc enc_a enc_b v @ t"
    if "tuple2_deserialize_reader A B slice_reader s = Some (Ok v, t)" for s v t
    using that canonical_impl.canon [OF assms(1)] canonical_impl.canon [OF assms(2)]
    by (fastforce simp: tuple2_deserialize_reader_def ok_iffs pair_ok_def pair_enc_def)
qed (rule tuple2_decodes [OF canonical_impl.axioms(1) [OF assms(1)] canonical_impl.axioms(1) [OF assms(2)]])

lemma tuple2_simulated_impl:
  assumes "simulated_impl R invar rest As Ar" and "simulated_impl R invar rest Bs Br"
  shows "simulated_impl R invar rest (tuple2_de n As Bs) (tuple2_de n Ar Br)"
  unfolding tuple2_de_def
  by (rule plain_simulated_impl [OF simulated_impl.axioms(1) [OF assms(1)]])
    (unfold tuple2_deserialize_reader_def, intro sim_intros simulated_de [OF assms(1)] simulated_de [OF assms(2)])

subsection \<open>Laws: vectors\<close>

definition vec_enc :: "('a \<Rightarrow> bytes) \<Rightarrow> 'a list \<Rightarrow> bytes" where
  "vec_enc enc vs = to_le_bytes (word_of_nat (length vs) :: u32) @ concat (List.map enc vs)"

definition vec_ok :: "('a \<Rightarrow> bool) \<Rightarrow> 'a list \<Rightarrow> bool" where
  "vec_ok ok vs \<longleftrightarrow> length vs < 2 ^ 32 \<and> (\<forall>v\<in>set vs. ok v)"

text \<open>The element size for which \<open>cautious\<close> does not divide by zero.\<close>

definition elem_size_ok :: "nat \<Rightarrow> bool" where
  "elem_size_ok n \<longleftrightarrow> (word_of_nat n :: u32) \<noteq> 0"

lemma elem_size_ok_pos: "elem_size_ok n \<Longrightarrow> 0 < n"
  by (rule ccontr) (simp add: elem_size_ok_def)

lemma unat_len32: "n < 2 ^ 32 \<Longrightarrow> unat (word_of_nat n :: u32) = n"
  by (simp add: unat_of_nat)

lemma len32_zero: "n < 2 ^ 32 \<Longrightarrow> (word_of_nat n :: u32) = 0 \<longleftrightarrow> n = 0"
  using unat_len32 [of n] by auto

lemma elem_size_okI: "0 < n \<Longrightarrow> n < 2 ^ 32 \<Longrightarrow> elem_size_ok n"
  by (simp add: elem_size_ok_def len32_zero)

lemma check_zst_ok [simp]: "0 < n \<Longrightarrow> check_zst n = ret ()"
  by (simp add: check_zst_def)

lemma u32_try_from_ok [simp]: "n < 2 ^ 32 \<Longrightarrow> u32_try_from n = Ok (word_of_nat n)"
  by (simp add: u32_try_from_def)

lemma cautious_ok: "elem_size_ok n \<Longrightarrow> \<exists>k. cautious n hint = Ok k \<and> 1 \<le> k \<and> k \<le> 4096"
proof (intro exI conjI)
  let ?k = "max (min (unat hint) (4096 div unat (word_of_nat n :: u32))) 1"
  assume "elem_size_ok n"
  then show "cautious n hint = Ok ?k" by (simp add: cautious_def elem_size_ok_def Let_def)
  have "4096 div unat (word_of_nat n :: u32) \<le> 4096" by (rule div_le_dividend)
  then show "?k \<le> 4096" by linarith
  show "1 \<le> ?k" by simp
qed

lemma emits_serialize_slice:
  assumes "serialize_impl S enc ok" and "\<forall>v\<in>set vs. ok v"
  shows "emits (\<lambda>W. serialize_slice S vs W) (concat (List.map enc vs))"
proof (cases "u8_slice S vs")
  case None
  then show ?thesis
    using serialize_impl.ser_each [OF assms] by (simp add: serialize_slice_def)
next
  case (Some bs)
  with serialize_impl.ser_slice [OF assms(1)] show ?thesis
    by (simp add: serialize_slice_def emits_write_all)
qed

lemma emits_slice_serialize:
  assumes "serialize_impl S enc ok" and "vec_ok ok vs"
  shows "emits (\<lambda>W. slice_serialize S W vs) (vec_enc enc vs)"
  using assms
  by (auto simp: slice_serialize_def vec_ok_def vec_enc_def
      intro!: emits_and_then emits_write_all emits_serialize_slice)

lemma vec_serialize_impl:
  assumes "serialize_impl S enc ok" and "0 < ser_size_of S"
  shows "serialize_impl (vec_ser n S) (vec_enc enc) (vec_ok ok)"
  unfolding vec_ser_def
  by (rule plain_serialize_impl) (simp add: vec_serialize_def assms(2) emits_slice_serialize [OF assms(1)])

lemma vec_decodes:
  assumes D: "deserialize_impl D enc ok" and sz: "elem_size_ok (de_size_of D)" and vs: "vec_ok ok vs"
  shows "decodes (vec_deserialize_reader D slice_reader) vs (vec_enc enc vs)"
proof -
  let ?n = "word_of_nat (length vs) :: u32"
  have len: "unat ?n = length vs" and ok: "\<forall>v\<in>set vs. ok v" and zero: "?n = 0 \<longleftrightarrow> vs = []"
    using vs unat_len32 len32_zero by (auto simp: vec_ok_def)
  obtain cap where cap: "(cautious (de_size_of D) ?n :: (io_error, nat) outcome) = Ok cap" using cautious_ok [OF sz] by blast
  have times: "decodes (push_times (length vs) (deserialize_reader D slice_reader) []) vs (concat (List.map enc vs))"
    using decodes_push_times [of vs "deserialize_reader D slice_reader" enc "length vs" "[]"]
      deserialize_impl.de_decodes [OF D] ok by simp
  have body: "decodes (if ?n = 0 then ret []
      else and_then (vec_from_reader D slice_reader ?n) (\<lambda>vec_bytes.
         case vec_bytes of
             Some v \<Rightarrow> ret v
           | None \<Rightarrow>
               and_then (lift (cautious (de_size_of D) ?n)) (\<lambda>capacity.
               push_times (unat ?n) (deserialize_reader D slice_reader) [])))
      vs (concat (List.map enc vs))" (is "decodes ?body _ _")
  proof (cases "vs = []")
    case True
    then show ?thesis by (simp add: decodes_ret)
  next
    case False
    from deserialize_impl.de_vec [OF D, of ?n] show ?thesis
    proof
      assume "\<forall>s. vec_from_reader D slice_reader ?n s = Some (Ok None, s)"
      with times False zero cap len show ?thesis by (simp add: decodes_def and_then_def lift_def)
    next
      assume "\<forall>vs. length vs = unat ?n \<longrightarrow> (\<forall>v\<in>set vs. ok v) \<longrightarrow>
        decodes (vec_from_reader D slice_reader ?n) (Some vs) (concat (List.map enc vs))"
      with len ok have "decodes (vec_from_reader D slice_reader ?n) (Some vs) (concat (List.map enc vs))"
        by simp
      with False zero show ?thesis by (simp add: decodes_def and_then_def ret_def)
    qed
  qed
  show ?thesis
    unfolding vec_deserialize_reader_def vec_enc_def check_zst_ok [OF elem_size_ok_pos [OF sz]] and_then_ret
    using decodes_u32 body by (rule decodes_and_then)
qed

lemma vec_deserialize_impl:
  "deserialize_impl D enc ok \<Longrightarrow> elem_size_ok (de_size_of D) \<Longrightarrow>
   deserialize_impl (vec_de n D) (vec_enc enc) (vec_ok ok)"
  unfolding vec_de_def by (rule plain_deserialize_impl) (rule vec_decodes)

lemma vec_read_canonical:
  assumes D: "canonical_impl D enc ok"
    and r: "vec_deserialize_reader D slice_reader s = Some (Ok vs, t)"
  shows "vec_ok ok vs \<and> s = vec_enc enc vs @ t"
proof -
  from r obtain n s' where s: "s = to_le_bytes (n :: u32) @ s'"
    and b: "(if n = 0 then ret []
       else and_then (vec_from_reader D slice_reader n) (\<lambda>vec_bytes.
         case vec_bytes of
             Some v \<Rightarrow> ret v
           | None \<Rightarrow>
               and_then (lift (cautious (de_size_of D) n)) (\<lambda>capacity.
               push_times (unat n) (deserialize_reader D slice_reader) []))) s' = Some (Ok vs, t)"
    by (auto simp: vec_deserialize_reader_def check_zst_def ok_iffs u32_read_iff split: if_splits)
  have "length vs = unat n \<and> (\<forall>v\<in>set vs. ok v) \<and> s' = concat (List.map enc vs) @ t"
  proof (cases "n = 0")
    case True
    with b show ?thesis by (simp add: ret_Ok_iff)
  next
    case False
    with b obtain x s'' where x: "vec_from_reader D slice_reader n s' = Some (Ok x, s'')"
      and k: "(case x of Some v \<Rightarrow> ret v
           | None \<Rightarrow> and_then (lift (cautious (de_size_of D) n)) (\<lambda>capacity.
               push_times (unat n) (deserialize_reader D slice_reader) [])) s'' = Some (Ok vs, t)"
      by (auto simp: and_then_Ok_iff)
    show ?thesis
    proof (cases x)
      case (Some ys)
      with k canonical_impl.canon_vec [OF D x] show ?thesis by (simp add: ret_Ok_iff)
    next
      case None
      with k have p: "push_times (unat n) (deserialize_reader D slice_reader) [] s'' = Some (Ok vs, t)"
        by (auto simp: and_then_Ok_iff lift_def)
      from None canonical_impl.canon_vec [OF D x] have "s'' = s'" by simp
      moreover have "\<exists>xs. vs = [] @ xs \<and> length xs = unat n \<and> (\<forall>x\<in>set xs. ok x)
          \<and> s'' = concat (List.map enc xs) @ t"
        by (rule push_times_canonical [OF _ p]) (rule canonical_impl.canon [OF D])
      ultimately show ?thesis by auto
    qed
  qed
  moreover have "unat n < 2 ^ 32" using unsigned_less [of n, where ?'a = nat] by simp
  ultimately show ?thesis using s by (simp add: vec_ok_def vec_enc_def)
qed

lemma vec_canonical_impl:
  assumes "canonical_impl D enc ok" and "elem_size_ok (de_size_of D)"
  shows "canonical_impl (vec_de n D) (vec_enc enc) (vec_ok ok)"
  unfolding vec_de_def
  by (rule plain_canonical_impl)
    (simp_all add: vec_decodes [OF canonical_impl.axioms(1) [OF assms(1)] assms(2)]
      vec_read_canonical [OF assms(1)])

lemma sim_check_zst [sim_intros]: "simulates invar rest (check_zst n) (check_zst n)"
  by (auto simp: check_zst_def intro: sim_intros)

lemma sim_vec:
  assumes "simulated_impl R invar rest Ds Dr"
  shows "simulates invar rest (vec_deserialize_reader Ds slice_reader) (vec_deserialize_reader Dr R)"
  unfolding vec_deserialize_reader_def simulated_impl.sim_size [OF assms]
  by (intro sim_intros lawful_reader.sim_integer [OF simulated_impl.axioms(1) [OF assms]]
      simulated_impl.sim_vec [OF assms] simulated_de [OF assms])

lemma vec_simulated_impl:
  "simulated_impl R invar rest Ds Dr \<Longrightarrow> simulated_impl R invar rest (vec_de n Ds) (vec_de n Dr)"
  unfolding vec_de_def
  by (rule plain_simulated_impl [OF simulated_impl.axioms(1)], assumption) (rule sim_vec)

text \<open>Zero-sized elements are refused before a byte is read or written.\<close>

lemma vec_zst_refused:
  "de_size_of D = 0 \<Longrightarrow> vec_deserialize_reader D R = fail (error_new InvalidData ERROR_ZST_FORBIDDEN)"
  "ser_size_of S = 0 \<Longrightarrow> vec_serialize S W vs = fail (error_new InvalidData ERROR_ZST_FORBIDDEN)"
  by (simp_all add: vec_deserialize_reader_def vec_serialize_def check_zst_def)

end
