(* ===== verification/Borsh_Collection_Laws.thy ===== *)
theory Borsh_Collection_Laws
  imports Borsh_Collections
begin

section \<open>Laws of the collections\<close>

text \<open>
  The contracts of \<open>Borsh_Traits\<close> for \<open>VecDeque\<close>, \<open>LinkedList\<close>, \<open>String\<close>, the ordered
  maps and sets (encoders, decoders with and without \<open>de_strict_order\<close>, canonicity) and
  the hashed maps and sets (independence of the iteration order).
\<close>

subsection \<open>Too many elements\<close>

lemma u32_try_from_err [simp]: "2 ^ 32 \<le> n \<Longrightarrow> u32_try_from n = Err (error_from InvalidData)"
  by (simp add: u32_try_from_def)

lemma too_long_refused:
  assumes "2 ^ 32 \<le> length vs"
  shows "slice_serialize S W vs = fail (error_from InvalidData)"
    and "0 < ser_size_of S \<Longrightarrow> vec_serialize S W vs = fail (error_from InvalidData)"
    and "0 < ser_size_of S \<Longrightarrow> linked_list_serialize S W vs = fail (error_from InvalidData)"
  using assms by (simp_all add: slice_serialize_def vec_serialize_def linked_list_serialize_def)

subsection \<open>\<open>VecDeque\<close> and \<open>LinkedList\<close>\<close>

lemma emits_vec_deque:
  assumes "serialize_impl S enc ok" and "0 < ser_size_of S" and "vec_ok ok (as @ bs)"
  shows "emits (\<lambda>W. vec_deque_serialize S W (as, bs)) (vec_enc enc (as @ bs))"
  using assms
  by (auto simp: vec_deque_serialize_def vec_ok_def vec_enc_def
      intro!: emits_and_then emits_write_all emits_serialize_slice)

lemma vec_deque_decodes:
  assumes "deserialize_impl D enc ok" and "elem_size_ok (de_size_of D)" and "vec_ok ok vs"
  shows "decodes (vec_deque_deserialize_reader D slice_reader) (vs, []) (vec_enc enc vs)"
  unfolding vec_deque_deserialize_reader_def
  using vec_decodes [OF assms] by (simp add: decodes_def and_then_def ret_def)

lemma linked_list_serialize_impl:
  assumes "serialize_impl S enc ok" and "0 < ser_size_of S"
  shows "serialize_impl (plain_ser n (linked_list_serialize S)) (vec_enc enc) (vec_ok ok)"
  by (rule plain_serialize_impl)
    (use assms serialize_impl.ser_each [OF assms(1)] in
      \<open>auto simp: linked_list_serialize_def vec_ok_def vec_enc_def intro!: emits_and_then emits_write_all\<close>)

lemma linked_list_reads_vec: "linked_list_deserialize_reader = vec_deserialize_reader"
  by (intro ext) (simp add: linked_list_deserialize_reader_def)

subsection \<open>Strings\<close>

lemma of_char_unat [simp]: "unat (of_char c :: u8) = of_char c"
proof -
  have "(of_char c :: u8) = word_of_nat (of_char c)" by (rule of_nat_of_char [symmetric])
  moreover have "(of_char c :: nat) < 256"
    using horner_sum_of_bool_2_less [of "[digit0 c, digit1 c, digit2 c, digit3 c, digit4 c, digit5 c, digit6 c, digit7 c]"]
    by (simp only: of_char_def) simp
  ultimately show ?thesis by (metis unat_byte mod_less)
qed

lemma string_of_as_bytes [simp]: "string_of_bytes (as_bytes s) = s"
  by (simp add: string_of_bytes_def as_bytes_def comp_def)

lemma as_bytes_of_string [simp]: "as_bytes (string_of_bytes bs) = bs"
proof -
  have "of_char (char_of (unat b) :: char) = b" for b :: u8
  proof -
    have "unat (of_char (char_of (unat b) :: char) :: u8) = unat b"
      using unat_byte_less [of b] by simp
    then show ?thesis by (simp add: word_unat_eq_iff)
  qed
  then show ?thesis by (simp add: string_of_bytes_def as_bytes_def comp_def map_idI)
qed

definition valid_utf8 :: "string \<Rightarrow> bool" where
  "valid_utf8 s \<longleftrightarrow> utf8_error 0 (List.map of_char s) = None"

definition string_enc :: "string \<Rightarrow> bytes" where
  "string_enc s = vec_enc (\<lambda>b. [b]) (as_bytes s)"

definition string_ok :: "string \<Rightarrow> bool" where
  "string_ok s \<longleftrightarrow> length s < 2 ^ 32 \<and> valid_utf8 s"

lemma map_unat_as_bytes [simp]: "List.map unat (as_bytes s) = List.map of_char s"
  by (simp add: as_bytes_def)

lemma length_as_bytes [simp]: "length (as_bytes s) = length s"
  by (simp add: as_bytes_def)

lemma string_from_utf8_iff: "string_from_utf8 bs = Ok s \<longleftrightarrow> bs = as_bytes s \<and> valid_utf8 s"
  by (auto simp: string_from_utf8_def valid_utf8_def split: option.splits
      simp flip: map_unat_as_bytes)

lemma string_from_as_bytes: "valid_utf8 s \<Longrightarrow> string_from_utf8 (as_bytes s) = Ok s"
  by (simp add: string_from_utf8_iff)

lemma u8_vec_ok: "vec_ok (\<lambda>_. True) vs \<longleftrightarrow> length vs < 2 ^ 32"
  by (simp add: vec_ok_def)

text \<open>A string of ASCII characters.\<close>

lemma ascii_ok: "length s < 2 ^ 32 \<Longrightarrow> \<forall>c\<in>set s. \<not> digit7 c \<Longrightarrow> string_ok s"
proof -
  have "utf8_error k bs = None" if "\<forall>b\<in>set bs. b < 128" for k bs
    using that by (induction bs arbitrary: k) simp_all
  moreover have "\<not> digit7 c \<Longrightarrow> of_char c < (128 :: nat)" for c
    by (cases c) (simp add: of_char_Char)
  ultimately show "length s < 2 ^ 32 \<Longrightarrow> \<forall>c\<in>set s. \<not> digit7 c \<Longrightarrow> string_ok s"
    by (simp add: string_ok_def valid_utf8_def)
qed

lemma string_serialize_impl: "serialize_impl (string_ser n) string_enc string_ok"
  unfolding string_ser_def
  by (rule plain_serialize_impl)
    (simp add: string_serialize_def string_enc_def string_ok_def u8_vec_ok
      emits_slice_serialize [OF u8_S.serialize_impl_axioms])

lemma u8_de_size [simp]: "de_size_of u8_de = 1"
  by (simp add: u8_de_def)

lemma u8_elem_size [simp]: "elem_size_ok (Suc 0)"
  by (rule elem_size_okI) simp_all

lemma u8_vec_decodes: "length bs < 2 ^ 32 \<Longrightarrow>
    decodes (vec_deserialize_reader u8_de slice_reader) bs (vec_enc (\<lambda>b. [b]) bs)"
  by (rule vec_decodes [OF u8_D.deserialize_impl_axioms]) (simp_all add: u8_vec_ok)

lemma u8_vec_Ok: "length bs < 2 ^ 32 \<Longrightarrow>
    vec_deserialize_reader u8_de slice_reader (vec_enc (\<lambda>b. [b]) bs @ rest) = Some (Ok bs, rest)"
  using u8_vec_decodes by (simp add: decodes_def)

lemma u8_vec_canonical:
  "vec_deserialize_reader u8_de slice_reader s = Some (Ok bs, t) \<Longrightarrow>
   length bs < 2 ^ 32 \<and> s = vec_enc (\<lambda>b. [b]) bs @ t"
  using vec_read_canonical [OF u8_D.canonical_impl_axioms] by (auto simp: u8_vec_ok)

lemma string_canonical_impl: "canonical_impl (string_de n) string_enc string_ok"
  unfolding string_de_def
proof (rule plain_canonical_impl)
  show "decodes (string_deserialize_reader slice_reader) v (string_enc v)" if "string_ok v" for v
    using that
    by (simp add: decodes_def string_deserialize_reader_def string_enc_def string_ok_def and_then_eval
        u8_vec_Ok string_from_as_bytes ret_eval)
  show "string_ok v \<and> s = string_enc v @ t"
    if "string_deserialize_reader slice_reader s = Some (Ok v, t)" for s v t
  proof -
    from that obtain bs s' where vec: "vec_deserialize_reader u8_de slice_reader s = Some (Ok bs, s')"
      and utf8: "(case string_from_utf8 bs of
           Ok s \<Rightarrow> ret s | Err msg \<Rightarrow> fail (error_new InvalidData msg) | Panic \<Rightarrow> panic) s' = Some (Ok v, t)"
      unfolding string_deserialize_reader_def and_then_Ok_iff by blast
    from utf8 have "string_from_utf8 bs = Ok v \<and> s' = t"
      by (cases "string_from_utf8 bs") (simp_all add: ok_iffs)
    with u8_vec_canonical [OF vec] show ?thesis
      by (simp add: string_ok_def string_enc_def string_from_utf8_iff)
  qed
qed

lemma string_simulated_impl:
  assumes "lawful_reader R invar rest"
  shows "simulated_impl R invar rest (string_de n) (string_de n)"
  unfolding string_de_def
proof (rule plain_simulated_impl [OF assms])
  have "simulates invar rest (vec_deserialize_reader u8_de slice_reader) (vec_deserialize_reader u8_de R)"
    by (rule sim_vec [OF lawful_reader.simulated_u8 [OF assms]])
  then show "simulates invar rest (string_deserialize_reader slice_reader) (string_deserialize_reader R)"
    unfolding string_deserialize_reader_def
    by (rule simulates_and_then) (auto split: outcome.splits intro: sim_intros)
qed

interpretation string_S: serialize_impl "string_ser n" string_enc string_ok
  by (rule string_serialize_impl)

interpretation string_D: canonical_impl "string_de n" string_enc string_ok
  by (rule string_canonical_impl)

interpretation string_R: simulated_impl slice_reader "\<lambda>_. True" "\<lambda>s. s" "string_de n" "string_de n"
  by (rule string_simulated_impl) (rule slice_rd.lawful_reader_axioms)

lemma invalid_utf8_rejected:
  assumes "length bs < 2 ^ 32" and "utf8_error 0 (List.map unat bs) = Some err"
  shows "from_slice (string_de n) (vec_enc (\<lambda>b. [b]) bs) =
    Some (Err (error_new InvalidData (utf8_error_message err)))"
  using u8_vec_Ok [OF assms(1), of "[]"] assms(2)
  by (simp add: from_slice_def deserialize_def string_de_def string_deserialize_reader_def and_then_eval
      string_from_utf8_def fail_def)

subsection \<open>Ordered maps and sets\<close>

lemma check_ascending_eq: "check_ascending ks =
    (if sorted_wrt (<) ks then Ok () else Err (error_new InvalidData ERROR_WRONG_ORDER_OF_KEYS))"
proof (induction ks rule: check_ascending.induct)
  case (1 a b ks)
  then show ?case by (auto dest: less_trans)
qed simp_all

lemma keys_insert: "set (List.map fst (btree_map_insert k v m)) = insert k (set (List.map fst m))"
  by (induction k v m rule: btree_map_insert.induct) auto

lemma sorted_insert: "sorted_wrt (<) (List.map fst m) \<Longrightarrow>
    sorted_wrt (<) (List.map fst (btree_map_insert k v m))"
proof (induction k v m rule: btree_map_insert.induct)
  case (2 k v k' v' m)
  show ?case
  proof (cases "k < k'")
    case True
    with 2 show ?thesis by auto
  next
    case False
    with 2 keys_insert [of k v m] show ?thesis by auto
  qed
qed simp

lemma map_of_insert: "sorted_wrt (<) (List.map fst m) \<Longrightarrow>
    map_of (btree_map_insert k v m) = (map_of m)(k \<mapsto> v)"
  by (induction k v m rule: btree_map_insert.induct) auto

lemma insert_last: "(\<forall>k'\<in>set (List.map fst m). k' < k) \<Longrightarrow> btree_map_insert k v m = m @ [(k, v)]"
  by (induction k v m rule: btree_map_insert.induct) auto

lemma collect_fold:
  "sorted_wrt (<) (List.map fst m) \<Longrightarrow>
   (let m' = fold (\<lambda>(k, v) m. btree_map_insert k v m) vec m
    in sorted_wrt (<) (List.map fst m') \<and> map_of m' = map_of m ++ map_of (rev vec))"
proof (induction vec arbitrary: m)
  case Nil
  then show ?case by simp
next
  case (Cons kv vec)
  obtain k v where kv: "kv = (k, v)" by (cases kv)
  from Cons.IH [OF sorted_insert [OF Cons.prems], of k v] show ?case
    by (simp add: kv Let_def map_of_insert [OF Cons.prems] map_add_assoc) (simp add: fun_upd_def)
qed

text \<open>The collected map is ordered and the last value given for a key counts.\<close>

lemma btree_map_collect:
  "sorted_wrt (<) (List.map fst (btree_map_collect vec))"
  "map_of (btree_map_collect vec) = map_of (rev vec)"
  using collect_fold [of "[]" vec] by (simp_all add: btree_map_collect_def Let_def)

lemma collect_sorted_append:
  "sorted_wrt (<) (List.map fst (m @ vec)) \<Longrightarrow>
   fold (\<lambda>(k, v) m. btree_map_insert k v m) vec m = m @ vec"
proof (induction vec arbitrary: m)
  case Nil
  then show ?case by simp
next
  case (Cons kv vec)
  obtain k v where kv: "kv = (k, v)" by (cases kv)
  from Cons.prems have "\<forall>k'\<in>set (List.map fst m). k' < k" by (auto simp: kv sorted_wrt_append)
  then have "btree_map_insert k v m = m @ [(k, v)]" by (rule insert_last)
  with Cons.IH [of "m @ [(k, v)]"] Cons.prems show ?case by (simp add: kv)
qed

lemma collect_sorted: "sorted_wrt (<) (List.map fst m) \<Longrightarrow> btree_map_collect m = m"
  using collect_sorted_append [of "[]" m] by (simp add: btree_map_collect_def)

lemma set_collect_sorted: "sorted_wrt (<) ks \<Longrightarrow> btree_set_collect ks = ks"
  by (simp add: btree_set_collect_def collect_sorted comp_def)

lemma btree_set_collect:
  "sorted_wrt (<) (btree_set_collect ks)" "set (btree_set_collect ks) = set ks"
proof -
  let ?m = "btree_map_collect (List.map (\<lambda>k. (k, ())) ks)"
  show "sorted_wrt (<) (btree_set_collect ks)"
    unfolding btree_set_collect_def by (rule btree_map_collect)
  have "dom (map_of ?m) = dom (map_of (rev (List.map (\<lambda>k. (k, ())) ks)))"
    by (simp only: btree_map_collect)
  then show "set (btree_set_collect ks) = set ks"
    by (simp add: dom_map_of_conv_image_fst btree_set_collect_def image_image rev_map)
qed

definition btree_map_ok :: "('k::linorder \<Rightarrow> bool) \<Rightarrow> ('v \<Rightarrow> bool) \<Rightarrow> ('k \<times> 'v) list \<Rightarrow> bool" where
  "btree_map_ok ok_k ok_v m \<longleftrightarrow> sorted_wrt (<) (List.map fst m) \<and> vec_ok (pair_ok ok_k ok_v) m"

definition btree_set_ok :: "('k::linorder \<Rightarrow> bool) \<Rightarrow> 'k list \<Rightarrow> bool" where
  "btree_set_ok ok ks \<longleftrightarrow> sorted_wrt (<) ks \<and> vec_ok ok ks"

lemma emits_entries:
  assumes "serialize_impl K enc_k ok_k" and "serialize_impl V enc_v ok_v"
    and "\<forall>kv\<in>set m. pair_ok ok_k ok_v kv"
  shows "emits (\<lambda>W. for_each (\<lambda>(key, value).
      and_then (serialize K W key) (\<lambda>_. serialize V W value)) m) (concat (List.map (pair_enc enc_k enc_v) m))"
  by (rule emits_for_each [where f = "\<lambda>W (key, value). and_then (serialize K W key) (\<lambda>_. serialize V W value)"])
    (use assms(3) emits_pair [OF assms(1,2)] in \<open>auto simp: split_beta\<close>)

lemma btree_map_serialize_impl:
  assumes K: "serialize_impl K enc_k ok_k" "0 < ser_size_of K" and V: "serialize_impl V enc_v ok_v"
  shows "serialize_impl (btree_map_ser n K V) (vec_enc (pair_enc enc_k enc_v)) (btree_map_ok ok_k ok_v)"
  unfolding btree_map_ser_def
  by (rule plain_serialize_impl)
    (auto simp: btree_map_serialize_def btree_map_ok_def vec_ok_def vec_enc_def K(2)
      intro!: emits_and_then emits_integer emits_entries [OF K(1) V])

lemma btree_set_serialize_impl:
  assumes T: "serialize_impl T enc ok" "0 < ser_size_of T"
  shows "serialize_impl (btree_set_ser n T) (vec_enc enc) (btree_set_ok ok)"
  unfolding btree_set_ser_def
  by (rule plain_serialize_impl)
    (use serialize_impl.ser_each [OF T(1)] in \<open>auto simp: btree_set_serialize_def btree_set_ok_def
      vec_ok_def vec_enc_def T(2) intro!: emits_and_then emits_integer\<close>)

definition map_sizes_ok :: "nat \<Rightarrow> nat \<Rightarrow> bool" where
  "map_sizes_ok key_size pair_size \<longleftrightarrow> 0 < key_size \<and> elem_size_ok pair_size"

lemma pairs_decodes:
  assumes "deserialize_impl K enc_k ok_k" and "deserialize_impl V enc_v ok_v" and "elem_size_ok ps"
    and "vec_ok (pair_ok ok_k ok_v) m"
  shows "vec_deserialize_reader (tuple2_de ps K V) slice_reader (vec_enc (pair_enc enc_k enc_v) m @ rest) =
    Some (Ok m, rest)"
proof -
  have "elem_size_ok (de_size_of (tuple2_de ps K V))" using assms(3) by (simp add: tuple2_de_def)
  from vec_decodes [OF tuple2_deserialize_impl [OF assms(1,2)] this assms(4)] show ?thesis
    by (simp add: decodes_def)
qed

text \<open>What the ordered map's decoder does with any sequence of entries.\<close>

lemma btree_map_reads:
  assumes "deserialize_impl K enc_k ok_k" and "deserialize_impl V enc_v ok_v"
    and "map_sizes_ok (de_size_of K) ps" and "vec_ok (pair_ok ok_k ok_v) m"
  shows "btree_map_deserialize_reader strict ps K V slice_reader (vec_enc (pair_enc enc_k enc_v) m @ rest) =
    (if strict \<and> \<not> sorted_wrt (<) (List.map fst m)
     then Some (Err (error_new InvalidData ERROR_WRONG_ORDER_OF_KEYS), rest)
     else Some (Ok (btree_map_collect m), rest))"
  using assms(3)
  by (simp add: btree_map_deserialize_reader_def map_sizes_ok_def check_ascending_eq ret_eval fail_eval
      and_then_eval(1) [where m = "vec_deserialize_reader _ _", OF pairs_decodes [OF assms(1,2) _ assms(4)]])

lemma btree_set_reads:
  assumes "deserialize_impl T enc ok" and "elem_size_ok (de_size_of T)" and "vec_ok ok ks"
  shows "btree_set_deserialize_reader strict T slice_reader (vec_enc enc ks @ rest) =
    (if strict \<and> \<not> sorted_wrt (<) ks
     then Some (Err (error_new InvalidData ERROR_WRONG_ORDER_OF_KEYS), rest)
     else Some (Ok (btree_set_collect ks), rest))"
proof -
  have "vec_deserialize_reader T slice_reader (vec_enc enc ks @ rest) = Some (Ok ks, rest)"
    using vec_decodes [OF assms] by (simp add: decodes_def)
  then show ?thesis
    by (simp add: btree_set_deserialize_reader_def check_ascending_eq ret_eval fail_eval and_then_eval)
qed

lemma btree_map_decodes:
  assumes "deserialize_impl K enc_k ok_k" and "deserialize_impl V enc_v ok_v"
    and "map_sizes_ok (de_size_of K) ps" and "btree_map_ok ok_k ok_v m"
  shows "decodes (btree_map_deserialize_reader strict ps K V slice_reader) m (vec_enc (pair_enc enc_k enc_v) m)"
  using assms(4) btree_map_reads [OF assms(1-3)]
  by (simp add: decodes_def btree_map_ok_def collect_sorted)

lemma btree_set_decodes:
  assumes "deserialize_impl T enc ok" and "elem_size_ok (de_size_of T)" and "btree_set_ok ok ks"
  shows "decodes (btree_set_deserialize_reader strict T slice_reader) ks (vec_enc enc ks)"
  using assms(3) btree_set_reads [OF assms(1,2)]
  by (simp add: decodes_def btree_set_ok_def set_collect_sorted)

lemma btree_map_deserialize_impl:
  assumes "deserialize_impl K enc_k ok_k" and "deserialize_impl V enc_v ok_v"
    and "map_sizes_ok (de_size_of K) ps"
  shows "deserialize_impl (btree_map_de strict n ps K V) (vec_enc (pair_enc enc_k enc_v)) (btree_map_ok ok_k ok_v)"
  unfolding btree_map_de_def by (rule plain_deserialize_impl) (rule btree_map_decodes [OF assms])

lemma btree_set_deserialize_impl:
  assumes "deserialize_impl T enc ok" and "elem_size_ok (de_size_of T)"
  shows "deserialize_impl (btree_set_de strict n T) (vec_enc enc) (btree_set_ok ok)"
  unfolding btree_set_de_def by (rule plain_deserialize_impl) (rule btree_set_decodes [OF assms])

lemma ascending_Ok_iff: "(if strict then lift (check_ascending ks) else ret ()) s = Some (Ok u, t) \<longleftrightarrow>
    (strict \<longrightarrow> sorted_wrt (<) ks) \<and> t = s"
  by (auto simp: check_ascending_eq ret_Ok_iff fail_Ok_iff)

text \<open>With \<open>de_strict_order\<close> the decoders are canonical.\<close>

lemma btree_map_canonical_impl:
  assumes "canonical_impl K enc_k ok_k" and "canonical_impl V enc_v ok_v"
    and "map_sizes_ok (de_size_of K) ps"
  shows "canonical_impl (btree_map_de True n ps K V) (vec_enc (pair_enc enc_k enc_v)) (btree_map_ok ok_k ok_v)"
  unfolding btree_map_de_def
proof (rule plain_canonical_impl)
  fix s m t
  assume "btree_map_deserialize_reader True ps K V slice_reader s = Some (Ok m, t)"
  with assms(3) obtain vec where v: "vec_deserialize_reader (tuple2_de ps K V) slice_reader s = Some (Ok vec, t)"
    and "sorted_wrt (<) (List.map fst vec)" and "m = btree_map_collect vec"
    by (auto simp: btree_map_deserialize_reader_def map_sizes_ok_def and_then_Ok_iff ret_Ok_iff
        check_ascending_eq fail_Ok_iff split: if_splits)
  with vec_read_canonical [OF tuple2_canonical_impl [OF assms(1,2)] v]
  show "btree_map_ok ok_k ok_v m \<and> s = vec_enc (pair_enc enc_k enc_v) m @ t"
    by (simp add: collect_sorted btree_map_ok_def)
qed (rule btree_map_decodes [OF canonical_impl.axioms(1) [OF assms(1)] canonical_impl.axioms(1) [OF assms(2)] assms(3)])

lemma btree_set_canonical_impl:
  assumes "canonical_impl T enc ok" and "elem_size_ok (de_size_of T)"
  shows "canonical_impl (btree_set_de True n T) (vec_enc enc) (btree_set_ok ok)"
  unfolding btree_set_de_def
proof (rule plain_canonical_impl)
  fix s ks t
  assume "btree_set_deserialize_reader True T slice_reader s = Some (Ok ks, t)"
  then obtain vec where v: "vec_deserialize_reader T slice_reader s = Some (Ok vec, t)"
    and "sorted_wrt (<) vec" and "ks = btree_set_collect vec"
    by (auto simp: btree_set_deserialize_reader_def and_then_Ok_iff ret_Ok_iff
        check_ascending_eq fail_Ok_iff split: if_splits)
  with vec_read_canonical [OF assms(1) v] show "btree_set_ok ok ks \<and> s = vec_enc enc ks @ t"
    by (simp add: set_collect_sorted btree_set_ok_def)
qed (rule btree_set_decodes [OF canonical_impl.axioms(1) [OF assms(1)] assms(2)])

lemma btree_map_simulated_impl:
  assumes K: "simulated_impl R invar rest Ks Kr" and V: "simulated_impl R invar rest Vs Vr"
  shows "simulated_impl R invar rest (btree_map_de strict n ps Ks Vs) (btree_map_de strict n ps Kr Vr)"
  unfolding btree_map_de_def
  by (rule plain_simulated_impl [OF simulated_impl.axioms(1) [OF K]])
    (unfold btree_map_deserialize_reader_def simulated_impl.sim_size [OF K],
      intro sim_intros sim_vec [OF tuple2_simulated_impl [OF K V]])

lemma btree_set_simulated_impl:
  assumes T: "simulated_impl R invar rest Ts Tr"
  shows "simulated_impl R invar rest (btree_set_de strict n Ts) (btree_set_de strict n Tr)"
  unfolding btree_set_de_def
  by (rule plain_simulated_impl [OF simulated_impl.axioms(1) [OF T]])
    (unfold btree_set_deserialize_reader_def, intro sim_intros sim_vec [OF T])

interpretation u8_set_D: deserialize_impl "btree_set_de strict n u8_de" "vec_enc (\<lambda>b. [b])" "btree_set_ok (\<lambda>_. True)"
  by (rule btree_set_deserialize_impl [OF u8_D.deserialize_impl_axioms]) (simp add: u8_de_def elem_size_okI)

subsection \<open>Hashed maps and sets\<close>

text \<open>
  A permutation of the entries serializes to the same bytes: those of the ordered map
  with the same entries.
\<close>

definition hash_map_ok :: "('k \<Rightarrow> bool) \<Rightarrow> ('v \<Rightarrow> bool) \<Rightarrow> ('k \<times> 'v) list \<Rightarrow> bool" where
  "hash_map_ok ok_k ok_v m \<longleftrightarrow> distinct (List.map fst m) \<and> vec_ok (pair_ok ok_k ok_v) m"

definition hash_set_ok :: "('k \<Rightarrow> bool) \<Rightarrow> 'k list \<Rightarrow> bool" where
  "hash_set_ok ok ks \<longleftrightarrow> distinct ks \<and> vec_ok ok ks"

definition hash_map_enc :: "('k::linorder \<Rightarrow> bytes) \<Rightarrow> ('v \<Rightarrow> bytes) \<Rightarrow> ('k \<times> 'v) list \<Rightarrow> bytes" where
  "hash_map_enc enc_k enc_v m = vec_enc (pair_enc enc_k enc_v) (sort_key fst m)"

definition hash_set_enc :: "('k::linorder \<Rightarrow> bytes) \<Rightarrow> 'k list \<Rightarrow> bytes" where
  "hash_set_enc enc ks = vec_enc enc (sort ks)"

lemma map_fst_sort_key: "List.map fst (sort_key fst m) = sort (List.map fst m)"
  by (rule properties_for_sort [symmetric]) (simp_all add: mset_map)

lemma sort_strict: "distinct ks \<Longrightarrow> sorted_wrt (<) (sort ks)"
  by (simp add: strict_sorted_iff)

lemma btree_of_hash_map: "hash_map_ok ok_k ok_v m \<Longrightarrow> btree_map_ok ok_k ok_v (sort_key fst m)"
  by (simp add: hash_map_ok_def btree_map_ok_def map_fst_sort_key sort_strict vec_ok_def)

lemma btree_of_hash_set: "hash_set_ok ok ks \<Longrightarrow> btree_set_ok ok (sort ks)"
  by (simp add: hash_set_ok_def btree_set_ok_def sort_strict vec_ok_def)

lemma distinct_keys_permutation:
  "mset m' = mset m \<Longrightarrow> distinct (List.map fst m') \<longleftrightarrow> distinct (List.map fst m)"
  by (rule mset_eq_imp_distinct_iff) (simp add: mset_map)

lemma sort_key_permutation:
  assumes "distinct (List.map fst m)" and "mset m' = mset m"
  shows "sort_key fst m' = sort_key fst m"
proof (rule properties_for_sort_key)
  show "mset (sort_key fst m) = mset m'" using assms(2) by simp
  show "sorted (List.map fst (sort_key fst m))" by simp
  show "filter (\<lambda>x. fst k = fst x) (sort_key fst m) = filter (\<lambda>x. fst k = fst x) m'" if "k \<in> set (sort_key fst m)" for k
  proof -
    have "distinct (List.map fst m')"
      using assms distinct_keys_permutation [of m' m] by blast
    have single: "filter (\<lambda>x. fst k = fst x) l = [k]" if "distinct (List.map fst l)" "k \<in> set l" for l :: "('a \<times> 'b) list"
      using that by (induction l) (auto simp: filter_empty_conv rev_image_eqI intro: prod.expand)
    have "k \<in> set m'" "k \<in> set m" using that assms(2) by (auto dest: mset_eq_setD)
    moreover have "distinct (List.map fst (sort_key fst m))" using assms(1) by (simp add: map_fst_sort_key)
    ultimately show ?thesis using single \<open>distinct (List.map fst m')\<close> that by metis
  qed
qed

lemma emits_tuples:
  assumes "serialize_impl K enc_k ok_k" and "serialize_impl V enc_v ok_v"
    and "\<forall>kv\<in>set m. pair_ok ok_k ok_v kv"
  shows "emits (\<lambda>W. for_each (tuple2_serialize K V W) m) (concat (List.map (pair_enc enc_k enc_v) m))"
  by (rule emits_for_each)
    (use assms(3) emits_pair [OF assms(1,2)] in \<open>auto simp: tuple2_serialize_def\<close>)

lemma hash_map_serialize_impl:
  assumes K: "serialize_impl K enc_k ok_k" "0 < ser_size_of K" and V: "serialize_impl V enc_v ok_v"
  shows "serialize_impl (plain_ser n (hash_map_serialize ps K V)) (hash_map_enc enc_k enc_v) (hash_map_ok ok_k ok_v)"
  by (rule plain_serialize_impl)
    (auto simp: hash_map_serialize_def hash_map_ok_def hash_map_enc_def vec_ok_def vec_enc_def K(2)
      tuple2_ser_def intro!: emits_and_then emits_integer emits_tuples [OF K(1) V])

lemma hash_set_serialize_impl:
  assumes T: "serialize_impl T enc ok" "0 < ser_size_of T"
  shows "serialize_impl (plain_ser n (hash_set_serialize T)) (hash_set_enc enc) (hash_set_ok ok)"
  by (rule plain_serialize_impl)
    (use serialize_impl.ser_each [OF T(1)] in \<open>auto simp: hash_set_serialize_def hash_set_ok_def
      hash_set_enc_def vec_ok_def vec_enc_def T(2) intro!: emits_and_then emits_integer\<close>)

text \<open>The order in which a hashed map iterates does not change the bytes.\<close>

lemma hash_map_serialize_order:
  "distinct (List.map fst m) \<Longrightarrow> mset m' = mset m \<Longrightarrow>
   hash_map_serialize ps K V W m' = hash_map_serialize ps K V W m"
  unfolding hash_map_serialize_def by (subst sort_key_permutation) simp_all

lemma hash_set_serialize_order:
  "mset ks' = mset ks \<Longrightarrow> hash_set_serialize T W ks' = hash_set_serialize T W ks"
  unfolding hash_set_serialize_def by (subst properties_for_sort [of "sort ks"]) simp_all

lemma hash_map_collect_fold:
  "distinct (List.map fst m) \<Longrightarrow>
   (let m' = fold (\<lambda>(k, v) m. AList.update k v m) vec m
    in distinct (List.map fst m') \<and> map_of m' = map_of m ++ map_of (rev vec))"
proof (induction vec arbitrary: m)
  case Nil
  then show ?case by simp
next
  case (Cons kv vec)
  obtain k v where kv: "kv = (k, v)" by (cases kv)
  have "distinct (List.map fst (AList.update k v m))" using Cons.prems by (rule distinct_update)
  from Cons.IH [OF this] show ?case
    by (simp add: kv Let_def update_conv' map_add_assoc) (simp add: fun_upd_def)
qed

lemma hash_map_collect:
  "distinct (List.map fst (hash_map_collect vec))"
  "map_of (hash_map_collect vec) = map_of (rev vec)"
  using hash_map_collect_fold [of "[]" vec] by (simp_all add: hash_map_collect_def Let_def)

lemma map_of_permutation:
  "distinct (List.map fst m) \<Longrightarrow> mset m' = mset m \<Longrightarrow> map_of m' = map_of m"
  using distinct_keys_permutation [of m' m] map_of_inject_set [of m' m] mset_eq_setD [of m' m] by blast

lemma hash_map_reads:
  assumes "deserialize_impl K enc_k ok_k" and "deserialize_impl V enc_v ok_v"
    and "map_sizes_ok (de_size_of K) ps" and "vec_ok (pair_ok ok_k ok_v) m"
  shows "hash_map_deserialize_reader strict iter_order ps K V slice_reader (vec_enc (pair_enc enc_k enc_v) m @ rest) =
    (if strict \<and> \<not> sorted_wrt (<) (List.map fst m)
     then Some (Err (error_new InvalidData ERROR_WRONG_ORDER_OF_KEYS), rest)
     else Some (Ok (iter_order (hash_map_collect m)), rest))"
  using assms(3)
  by (simp add: hash_map_deserialize_reader_def map_sizes_ok_def check_ascending_eq ret_eval fail_eval
      and_then_eval(1) [where m = "vec_deserialize_reader _ _", OF pairs_decodes [OF assms(1,2) _ assms(4)]])

lemma hash_map_round_trip:
  assumes "deserialize_impl K enc_k ok_k" and "deserialize_impl V enc_v ok_v"
    and "map_sizes_ok (de_size_of K) ps" and "hash_map_ok ok_k ok_v m"
    and perm: "\<And>xs. mset (iter_order xs) = mset xs"
  shows "\<exists>m'. hash_map_deserialize_reader strict iter_order ps K V slice_reader
      (hash_map_enc enc_k enc_v m @ rest) = Some (Ok m', rest) \<and>
    distinct (List.map fst m') \<and> map_of m' = map_of m"
proof (intro exI conjI)
  let ?s = "sort_key fst m" and ?c = "hash_map_collect (sort_key fst m)"
  have s: "btree_map_ok ok_k ok_v ?s" by (rule btree_of_hash_map [OF assms(4)])
  then show "hash_map_deserialize_reader strict iter_order ps K V slice_reader
      (hash_map_enc enc_k enc_v m @ rest) = Some (Ok (iter_order ?c), rest)"
    using hash_map_reads [OF assms(1-3), of ?s] by (simp add: btree_map_ok_def hash_map_enc_def)
  show d: "distinct (List.map fst (iter_order ?c))"
    using distinct_keys_permutation [OF perm] hash_map_collect(1) by blast
  have m: "distinct (List.map fst m)" using assms(4) by (simp add: hash_map_ok_def)
  have "map_of (iter_order ?c) = map_of ?c" by (rule map_of_permutation [OF hash_map_collect(1) perm])
  also have "\<dots> = map_of (rev ?s)" by (rule hash_map_collect)
  also have "\<dots> = map_of m" by (rule map_of_permutation [OF m]) simp
  finally show "map_of (iter_order ?c) = map_of m" .
qed

text \<open>
  With a given iteration order, a map that is in the order of its own iteration is read back
  as it was written.
\<close>

definition hash_map_iterated ::
  "(('k \<times> 'v) list \<Rightarrow> ('k \<times> 'v) list) \<Rightarrow> ('k::linorder \<times> 'v) list \<Rightarrow> ('k \<times> 'v) list" where
  "hash_map_iterated iter_order m = iter_order (hash_map_collect (sort_key fst m))"

lemma hash_map_iterated_perm:
  assumes "distinct (List.map fst m)" and perm: "\<And>xs. mset (iter_order xs) = mset xs"
  shows "mset (hash_map_iterated iter_order m) = mset m"
proof -
  let ?c = "hash_map_collect (sort_key fst m)"
  have d: "distinct (List.map fst ?c)" by (rule hash_map_collect)
  have "map_of ?c = map_of (rev (sort_key fst m))" by (rule hash_map_collect)
  also have "\<dots> = map_of m" by (rule map_of_permutation [OF assms(1)]) simp
  finally have "set ?c = set m" using d assms(1) map_of_inject_set by metis
  with d assms(1) have "mset ?c = mset m" by (metis distinct_map set_eq_iff_mset_eq_distinct)
  with perm [of ?c] show ?thesis by (simp add: hash_map_iterated_def)
qed

lemma hash_map_iterated_same:
  assumes "hash_map_ok ok_k ok_v m" and perm: "\<And>xs. mset (iter_order xs) = mset xs"
  shows "hash_map_ok ok_k ok_v (hash_map_iterated iter_order m)"
    and "hash_map_enc enc_k enc_v (hash_map_iterated iter_order m) = hash_map_enc enc_k enc_v m"
    and "hash_map_iterated iter_order (hash_map_iterated iter_order m) = hash_map_iterated iter_order m"
    and "map_of (hash_map_iterated iter_order m) = map_of m"
proof -
  let ?m = "hash_map_iterated iter_order m"
  have m: "distinct (List.map fst m)" using assms(1) by (simp add: hash_map_ok_def)
  note p = hash_map_iterated_perm [OF m perm]
  have s: "sort_key fst ?m = sort_key fst m" by (rule sort_key_permutation [OF m p])
  show "hash_map_ok ok_k ok_v ?m"
    using assms(1) distinct_keys_permutation [OF p] mset_eq_length [OF p] mset_eq_setD [OF p]
    by (simp add: hash_map_ok_def vec_ok_def)
  show "hash_map_enc enc_k enc_v ?m = hash_map_enc enc_k enc_v m" by (simp add: hash_map_enc_def s)
  show "hash_map_iterated iter_order ?m = ?m" unfolding hash_map_iterated_def [of iter_order ?m] s
    by (simp add: hash_map_iterated_def)
  show "map_of ?m = map_of m" by (rule map_of_permutation [OF m p])
qed

lemma hash_map_deserialize_impl:
  assumes "deserialize_impl K enc_k ok_k" and "deserialize_impl V enc_v ok_v"
    and "map_sizes_ok (de_size_of K) ps"
  shows "deserialize_impl (plain_de n (hash_map_deserialize_reader strict iter_order ps K V))
    (hash_map_enc enc_k enc_v) (\<lambda>m. hash_map_ok ok_k ok_v m \<and> hash_map_iterated iter_order m = m)"
proof (rule plain_deserialize_impl)
  fix m assume m: "hash_map_ok ok_k ok_v m \<and> hash_map_iterated iter_order m = m"
  then have "btree_map_ok ok_k ok_v (sort_key fst m)" by (blast intro: btree_of_hash_map)
  with hash_map_reads [OF assms, of "sort_key fst m"] m
  show "decodes (hash_map_deserialize_reader strict iter_order ps K V slice_reader) m (hash_map_enc enc_k enc_v m)"
    by (simp add: decodes_def btree_map_ok_def hash_map_enc_def hash_map_iterated_def)
qed

lemma hash_set_collect_set: "distinct s \<Longrightarrow>
    (let s' = fold (\<lambda>k s. if k \<in> set s then s else s @ [k]) vec s
     in distinct s' \<and> set s' = set s \<union> set vec)"
  by (induction vec arbitrary: s) (auto simp: Let_def)

lemma hash_set_collect: "distinct (hash_set_collect vec)" "set (hash_set_collect vec) = set vec"
  using hash_set_collect_set [of "[]" vec] by (simp_all add: hash_set_collect_def Let_def)

lemma hash_set_round_trip:
  assumes "deserialize_impl T enc ok" and "elem_size_ok (de_size_of T)" and "hash_set_ok ok ks"
    and perm: "\<And>xs. mset (iter_order xs) = mset xs"
  shows "\<exists>ks'. hash_set_deserialize_reader strict iter_order T slice_reader (hash_set_enc enc ks @ rest) =
      Some (Ok ks', rest) \<and> distinct ks' \<and> set ks' = set ks"
proof (intro exI conjI)
  let ?c = "hash_set_collect (sort ks)"
  have s: "btree_set_ok ok (sort ks)" by (rule btree_of_hash_set [OF assms(3)])
  then have "vec_deserialize_reader T slice_reader (hash_set_enc enc ks @ rest) = Some (Ok (sort ks), rest)"
    using vec_decodes [OF assms(1,2), of "sort ks"] by (simp add: decodes_def hash_set_enc_def btree_set_ok_def)
  with s show "hash_set_deserialize_reader strict iter_order T slice_reader (hash_set_enc enc ks @ rest) =
      Some (Ok (iter_order ?c), rest)"
    by (simp add: hash_set_deserialize_reader_def check_ascending_eq btree_set_ok_def ret_eval and_then_eval)
  show "distinct (iter_order ?c)"
    using mset_eq_imp_distinct_iff [OF perm] hash_set_collect(1) by blast
  show "set (iter_order ?c) = set ks"
    using perm [of ?c] hash_set_collect(2) [of "sort ks"] by (metis mset_eq_setD set_sort)
qed

end
