(* ===== verification/Borsh_Composite.thy ===== *)
theory Borsh_Composite
  imports Borsh_Collections
begin

section \<open>Tuples, arrays, ranges, pointers, cells and network addresses\<close>

text \<open>
  The remaining implementations of \<open>borsh/src/ser/mod.rs\<close> and \<open>borsh/src/de/mod.rs\<close>.
  A tuple of arity n is \<open>impl_tuple!\<close> applied to n components; the tuple of the later
  components is the second component of a pair, and \<open>tuple1\<close> ends the chain. The array
  reader is modelled with its \<open>ArrayDropGuard\<close>: a slot of the buffer is \<open>None\<close> as long
  as it is uninitialised memory.
\<close>

subsection \<open>Units and tuples\<close>

text \<open>\<open>impl_tuple!(@unit ...)\<close> for \<open>()\<close> and \<open>RangeFull\<close>, and \<open>PhantomData\<close>.\<close>

definition unit_serialize :: "'w Write \<Rightarrow> unit \<Rightarrow> ('w, unit) io" where
  "unit_serialize writer self = ret ()"

definition unit_deserialize_reader :: "'r Read \<Rightarrow> ('r, unit) io" where
  "unit_deserialize_reader reader = ret ()"

definition phantom_serialize :: "'w Write \<Rightarrow> unit \<Rightarrow> ('w, unit) io" where
  "phantom_serialize writer self = ret ()"

definition phantom_deserialize_reader :: "'r Read \<Rightarrow> ('r, unit) io" where
  "phantom_deserialize_reader reader = ret ()"

definition unit_ser :: "('w, unit) BorshSerialize" where
  "unit_ser = plain_ser 0 unit_serialize"

definition unit_de :: "('r, unit) BorshDeserialize" where
  "unit_de = plain_de 0 unit_deserialize_reader"

definition tuple1_serialize :: "('w, 'a) BorshSerialize \<Rightarrow> 'w Write \<Rightarrow> 'a \<Rightarrow> ('w, unit) io" where
  "tuple1_serialize A writer x = and_then (serialize A writer x) (\<lambda>_. ret ())"

definition tuple1_deserialize_reader :: "('r, 'a) BorshDeserialize \<Rightarrow> 'r Read \<Rightarrow> ('r, 'a) io" where
  "tuple1_deserialize_reader A reader = and_then (deserialize_reader A reader) (\<lambda>a. ret a)"

definition tuple3_serialize ::
  "('w, 'a) BorshSerialize \<Rightarrow> ('w, 'b) BorshSerialize \<Rightarrow> ('w, 'c) BorshSerialize \<Rightarrow>
   'w Write \<Rightarrow> 'a \<times> 'b \<times> 'c \<Rightarrow> ('w, unit) io" where
  "tuple3_serialize A B C writer x =
     (case x of (a, b, c) \<Rightarrow>
       and_then (serialize A writer a) (\<lambda>_.
       and_then (serialize B writer b) (\<lambda>_.
       and_then (serialize C writer c) (\<lambda>_. ret ()))))"

definition tuple3_deserialize_reader ::
  "('r, 'a) BorshDeserialize \<Rightarrow> ('r, 'b) BorshDeserialize \<Rightarrow> ('r, 'c) BorshDeserialize \<Rightarrow>
   'r Read \<Rightarrow> ('r, 'a \<times> 'b \<times> 'c) io" where
  "tuple3_deserialize_reader A B C reader =
     and_then (deserialize_reader A reader) (\<lambda>a.
     and_then (deserialize_reader B reader) (\<lambda>b.
     and_then (deserialize_reader C reader) (\<lambda>c. ret (a, b, c))))"

subsection \<open>Arrays\<close>

definition array_serialize :: "nat \<Rightarrow> ('w, 'a) BorshSerialize \<Rightarrow> 'w Write \<Rightarrow> 'a list \<Rightarrow> ('w, unit) io" where
  "array_serialize N T writer self =
     (if N = 0 then ret ()
      else and_then
        (case u8_slice T self of
            Some bs \<Rightarrow> write_all writer bs
          | None \<Rightarrow> for_each (\<lambda>el. serialize T writer el) self)
        (\<lambda>_. ret ()))"

record 'a ArrayDropGuard =
  buffer :: "'a option list"
  init_count :: nat

text \<open>\<open>drop\<close>: the elements that are dropped; \<open>None\<close> if uninitialised memory is dropped.\<close>

definition drop_guard :: "'a ArrayDropGuard \<Rightarrow> 'a list option" where
  "drop_guard g = those (take (init_count g) (buffer g))"

text \<open>\<open>transmute_to_array\<close>: the array and the guard that is dropped afterwards.\<close>

definition transmute_to_array :: "nat \<Rightarrow> 'a ArrayDropGuard \<Rightarrow> ('a list \<times> 'a ArrayDropGuard) option" where
  "transmute_to_array N g =
     (if init_count g = N
      then map_option (\<lambda>arr. (arr, g\<lparr>init_count := 0\<rparr>)) (those (buffer g))
      else None)"

definition on_reader :: "('r, 'a) io \<Rightarrow> ('g \<times> 'r, 'a) io" where
  "on_reader m = (\<lambda>(g, r). map_option (\<lambda>(x, r'). (x, (g, r'))) (m r))"

text \<open>\<open>elem.write(f()?); self.init_count += 1;\<close> for the element at index \<open>i\<close>\<close>

definition fill_elem :: "('r, 'a) io \<Rightarrow> nat \<Rightarrow> ('a ArrayDropGuard \<times> 'r, unit) io" where
  "fill_elem f i =
     and_then (on_reader f) (\<lambda>x (g, r).
       Some (Ok (), (\<lparr>buffer = (buffer g)[i := Some x], init_count = init_count g + 1\<rparr>, r)))"

definition fill_buffer :: "nat \<Rightarrow> ('r, 'a) io \<Rightarrow> ('a ArrayDropGuard \<times> 'r, unit) io" where
  "fill_buffer N f = for_each (fill_elem f) [0..<N]"

definition uninit_guard :: "nat \<Rightarrow> 'a ArrayDropGuard" where
  "uninit_guard N = \<lparr>buffer = replicate N None, init_count = 0\<rparr>"

text \<open>
  The slow path of the array reader: the result, and the elements that the guard drops
  when it goes out of scope. Reaching uninitialised memory is modelled as a panic.
\<close>

definition array_fill ::
  "nat \<Rightarrow> ('r, 'a) io \<Rightarrow> 'r \<Rightarrow> ((io_error, 'a list) outcome \<times> 'a list \<times> 'r) option" where
  "array_fill N f r =
     (case fill_buffer N f (uninit_guard N, r) of
         None \<Rightarrow> None
       | Some (Ok _, (g, r')) \<Rightarrow>
           (case transmute_to_array N g of
               None \<Rightarrow> Some (Panic, [], r')
             | Some (arr, g') \<Rightarrow>
                 (case drop_guard g' of
                     None \<Rightarrow> Some (Panic, [], r')
                   | Some ds \<Rightarrow> Some (Ok arr, ds, r')))
       | Some (Err e, (g, r')) \<Rightarrow>
           (case drop_guard g of
               None \<Rightarrow> Some (Panic, [], r')
             | Some ds \<Rightarrow> Some (Err e, ds, r'))
       | Some (Panic, (g, r')) \<Rightarrow>
           (case drop_guard g of
               None \<Rightarrow> Some (Panic, [], r')
             | Some ds \<Rightarrow> Some (Panic, ds, r')))"

definition array_deserialize_reader ::
  "nat \<Rightarrow> ('r, 'a) BorshDeserialize \<Rightarrow> 'r Read \<Rightarrow> ('r, 'a list) io" where
  "array_deserialize_reader N T reader =
     and_then (array_from_reader T reader N) (\<lambda>a.
       case a of
           Some arr \<Rightarrow> ret arr
         | None \<Rightarrow> (\<lambda>r. map_option (\<lambda>(x, _, r'). (x, r'))
             (array_fill N (deserialize_reader T reader) r)))"

definition array_ser :: "nat \<Rightarrow> ('w, 'a) BorshSerialize \<Rightarrow> ('w, 'a list) BorshSerialize" where
  "array_ser N T = plain_ser (N * ser_size_of T) (array_serialize N T)"

definition array_de :: "nat \<Rightarrow> ('r, 'a) BorshDeserialize \<Rightarrow> ('r, 'a list) BorshDeserialize" where
  "array_de N T = plain_de (N * de_size_of T) (array_deserialize_reader N T)"

definition object_id_serialize :: "('o \<Rightarrow> bytes) \<Rightarrow> 'w Write \<Rightarrow> 'o \<Rightarrow> ('w, unit) io" where
  "object_id_serialize oid_bytes writer self = array_serialize 12 u8_ser writer (oid_bytes self)"

subsection \<open>Ranges\<close>

text \<open>A \<open>RangeInclusive\<close> also records whether an iteration has exhausted it.\<close>

record 'a Range =
  range_start :: 'a
  range_end :: 'a

record 'a RangeInclusive = "'a Range" +
  exhausted :: bool

definition range_serialize :: "('w, 'a) BorshSerialize \<Rightarrow> 'w Write \<Rightarrow> 'a Range \<Rightarrow> ('w, unit) io" where
  "range_serialize T writer this =
     and_then (serialize T writer (range_start this)) (\<lambda>_.
     and_then (serialize T writer (range_end this)) (\<lambda>_. ret ()))"

definition range_deserialize_reader :: "('r, 'a) BorshDeserialize \<Rightarrow> 'r Read \<Rightarrow> ('r, 'a Range) io" where
  "range_deserialize_reader T reader =
     and_then (tuple2_deserialize_reader T T reader) (\<lambda>(start, end').
     ret \<lparr>range_start = start, range_end = end'\<rparr>)"

definition range_inclusive_serialize ::
  "('w, 'a) BorshSerialize \<Rightarrow> 'w Write \<Rightarrow> 'a RangeInclusive \<Rightarrow> ('w, unit) io" where
  "range_inclusive_serialize T writer this =
     and_then (serialize T writer (range_start this)) (\<lambda>_.
     and_then (serialize T writer (range_end this)) (\<lambda>_. ret ()))"

definition range_inclusive_deserialize_reader ::
  "('r, 'a) BorshDeserialize \<Rightarrow> 'r Read \<Rightarrow> ('r, 'a RangeInclusive) io" where
  "range_inclusive_deserialize_reader T reader =
     and_then (tuple2_deserialize_reader T T reader) (\<lambda>(start, end').
     ret \<lparr>range_start = start, range_end = end', exhausted = False\<rparr>)"

text \<open>\<open>RangeFrom\<close>, \<open>RangeTo\<close> and \<open>RangeToInclusive\<close> have one bound. (The pattern
  \<open>($($side,)* )\<close> of the macro is then a tuple with one component.)\<close>

datatype 'a RangeFrom = RangeFrom 'a
datatype 'a RangeTo = RangeTo 'a
datatype 'a RangeToInclusive = RangeToInclusive 'a

fun range_from_serialize :: "('w, 'a) BorshSerialize \<Rightarrow> 'w Write \<Rightarrow> 'a RangeFrom \<Rightarrow> ('w, unit) io" where
  "range_from_serialize T writer (RangeFrom start) = and_then (serialize T writer start) (\<lambda>_. ret ())"

fun range_to_serialize :: "('w, 'a) BorshSerialize \<Rightarrow> 'w Write \<Rightarrow> 'a RangeTo \<Rightarrow> ('w, unit) io" where
  "range_to_serialize T writer (RangeTo end') = and_then (serialize T writer end') (\<lambda>_. ret ())"

fun range_to_inclusive_serialize ::
  "('w, 'a) BorshSerialize \<Rightarrow> 'w Write \<Rightarrow> 'a RangeToInclusive \<Rightarrow> ('w, unit) io" where
  "range_to_inclusive_serialize T writer (RangeToInclusive end') =
     and_then (serialize T writer end') (\<lambda>_. ret ())"

definition range_from_deserialize_reader :: "('r, 'a) BorshDeserialize \<Rightarrow> 'r Read \<Rightarrow> ('r, 'a RangeFrom) io" where
  "range_from_deserialize_reader T reader =
     and_then (tuple1_deserialize_reader T reader) (\<lambda>start. ret (RangeFrom start))"

definition range_to_deserialize_reader :: "('r, 'a) BorshDeserialize \<Rightarrow> 'r Read \<Rightarrow> ('r, 'a RangeTo) io" where
  "range_to_deserialize_reader T reader =
     and_then (tuple1_deserialize_reader T reader) (\<lambda>end'. ret (RangeTo end'))"

definition range_to_inclusive_deserialize_reader ::
  "('r, 'a) BorshDeserialize \<Rightarrow> 'r Read \<Rightarrow> ('r, 'a RangeToInclusive) io" where
  "range_to_inclusive_deserialize_reader T reader =
     and_then (tuple1_deserialize_reader T reader) (\<lambda>end'. ret (RangeToInclusive end'))"

subsection \<open>References, smart pointers and cells\<close>

text \<open>\<open>&T\<close>, \<open>Cow\<close>, \<open>Box\<close>, \<open>Rc\<close> and \<open>Arc\<close> serialize what they point to; reading one
  reads the owned value and converts it.\<close>

definition ref_serialize :: "('w, 'a) BorshSerialize \<Rightarrow> 'w Write \<Rightarrow> 'a \<Rightarrow> ('w, unit) io" where
  "ref_serialize T writer self = serialize T writer self"

definition box_serialize :: "('b \<Rightarrow> 'a) \<Rightarrow> ('w, 'a) BorshSerialize \<Rightarrow> 'w Write \<Rightarrow> 'b \<Rightarrow> ('w, unit) io" where
  "box_serialize as_ref T writer self = serialize T writer (as_ref self)"

definition box_deserialize_reader :: "('u \<Rightarrow> 'b) \<Rightarrow> ('r, 'u) BorshDeserialize \<Rightarrow> 'r Read \<Rightarrow> ('r, 'b) io" where
  "box_deserialize_reader into Owned reader = and_then (deserialize_reader Owned reader) (\<lambda>x. ret (into x))"

definition rc_serialize :: "('b \<Rightarrow> 'a) \<Rightarrow> ('w, 'a) BorshSerialize \<Rightarrow> 'w Write \<Rightarrow> 'b \<Rightarrow> ('w, unit) io" where
  "rc_serialize deref T writer self = serialize T writer (deref self)"

definition rc_deserialize_reader ::
  "('b \<Rightarrow> 'c) \<Rightarrow> ('r, 'b) BorshDeserialize \<Rightarrow> 'r Read \<Rightarrow> ('r, 'c) io" where
  "rc_deserialize_reader into Box reader = and_then (deserialize_reader Box reader) (\<lambda>x. ret (into x))"

datatype ('b, 'o) Cow = Borrowed 'b | Owned 'o

fun cow_as_ref :: "('o \<Rightarrow> 'b) \<Rightarrow> ('b, 'o) Cow \<Rightarrow> 'b" where
  "cow_as_ref borrow (Borrowed x) = x"
| "cow_as_ref borrow (Owned y) = borrow y"

definition cow_serialize ::
  "('o \<Rightarrow> 'b) \<Rightarrow> ('w, 'b) BorshSerialize \<Rightarrow> 'w Write \<Rightarrow> ('b, 'o) Cow \<Rightarrow> ('w, unit) io" where
  "cow_serialize borrow T writer self = serialize T writer (cow_as_ref borrow self)"

definition cow_deserialize_reader :: "('r, 'o) BorshDeserialize \<Rightarrow> 'r Read \<Rightarrow> ('r, ('b, 'o) Cow) io" where
  "cow_deserialize_reader O' reader = and_then (deserialize_reader O' reader) (\<lambda>x. ret (Owned x))"

datatype 'a Cell = Cell 'a

fun cell_serialize :: "('w, 'a) BorshSerialize \<Rightarrow> 'w Write \<Rightarrow> 'a Cell \<Rightarrow> ('w, unit) io" where
  "cell_serialize T writer (Cell x) = serialize T writer x"

definition cell_deserialize_reader :: "('r, 'a) BorshDeserialize \<Rightarrow> 'r Read \<Rightarrow> ('r, 'a Cell) io" where
  "cell_deserialize_reader T reader = map_ok Cell (deserialize_reader T reader)"

record 'a RefCell =
  cell_value :: 'a
  mutably_borrowed :: bool

definition ref_cell_serialize :: "('w, 'a) BorshSerialize \<Rightarrow> 'w Write \<Rightarrow> 'a RefCell \<Rightarrow> ('w, unit) io" where
  "ref_cell_serialize T writer self =
     (if mutably_borrowed self then fail (error_new Other ''already mutably borrowed'')
      else serialize T writer (cell_value self))"

definition ref_cell_deserialize_reader :: "('r, 'a) BorshDeserialize \<Rightarrow> 'r Read \<Rightarrow> ('r, 'a RefCell) io" where
  "ref_cell_deserialize_reader T reader =
     map_ok (\<lambda>x. \<lparr>cell_value = x, mutably_borrowed = False\<rparr>) (deserialize_reader T reader)"

subsection \<open>Network addresses\<close>

datatype Ipv4Addr = Ipv4Addr (octets4: bytes)
datatype Ipv6Addr = Ipv6Addr (octets6: bytes)
datatype IpAddr = IpV4 Ipv4Addr | IpV6 Ipv6Addr

record SocketAddrV4 =
  v4_ip :: Ipv4Addr
  v4_port :: u16

record SocketAddrV6 =
  v6_ip :: Ipv6Addr
  v6_port :: u16
  v6_flowinfo :: u32
  v6_scope_id :: u32

datatype SocketAddr = V4 SocketAddrV4 | V6 SocketAddrV6

definition ipv4_serialize :: "'w Write \<Rightarrow> Ipv4Addr \<Rightarrow> ('w, unit) io" where
  "ipv4_serialize writer self = write_all writer (octets4 self)"

definition ipv6_serialize :: "'w Write \<Rightarrow> Ipv6Addr \<Rightarrow> ('w, unit) io" where
  "ipv6_serialize writer self = write_all writer (octets6 self)"

fun ip_serialize :: "'w Write \<Rightarrow> IpAddr \<Rightarrow> ('w, unit) io" where
  "ip_serialize writer (IpV4 ipv4) =
     and_then (write_all writer (to_le_bytes (0 :: u8))) (\<lambda>_. ipv4_serialize writer ipv4)"
| "ip_serialize writer (IpV6 ipv6) =
     and_then (write_all writer (to_le_bytes (1 :: u8))) (\<lambda>_. ipv6_serialize writer ipv6)"

definition socket_v4_serialize :: "'w Write \<Rightarrow> SocketAddrV4 \<Rightarrow> ('w, unit) io" where
  "socket_v4_serialize writer self =
     and_then (ipv4_serialize writer (v4_ip self)) (\<lambda>_. integer_serialize writer (v4_port self))"

definition socket_v6_serialize :: "'w Write \<Rightarrow> SocketAddrV6 \<Rightarrow> ('w, unit) io" where
  "socket_v6_serialize writer self =
     and_then (ipv6_serialize writer (v6_ip self)) (\<lambda>_. integer_serialize writer (v6_port self))"

fun socket_serialize :: "'w Write \<Rightarrow> SocketAddr \<Rightarrow> ('w, unit) io" where
  "socket_serialize writer (V4 addr) =
     and_then (u8_serialize writer 0) (\<lambda>_. socket_v4_serialize writer addr)"
| "socket_serialize writer (V6 addr) =
     and_then (u8_serialize writer 1) (\<lambda>_. socket_v6_serialize writer addr)"

definition ipv4_deserialize_reader :: "'r Read \<Rightarrow> ('r, Ipv4Addr) io" where
  "ipv4_deserialize_reader reader =
     and_then (map_err unexpected_eof_to_unexpected_length_of_input (read_exact reader 4)) (\<lambda>buf.
     ret (Ipv4Addr buf))"

definition ipv6_deserialize_reader :: "'r Read \<Rightarrow> ('r, Ipv6Addr) io" where
  "ipv6_deserialize_reader reader =
     and_then (map_err unexpected_eof_to_unexpected_length_of_input (read_exact reader 16)) (\<lambda>buf.
     ret (Ipv6Addr buf))"

definition ip_deserialize_reader :: "'r Read \<Rightarrow> ('r, IpAddr) io" where
  "ip_deserialize_reader reader =
     and_then (u8_deserialize_reader reader) (\<lambda>kind'.
       if kind' = 0 then and_then (ipv4_deserialize_reader reader) (\<lambda>a. ret (IpV4 a))
       else if kind' = 1 then and_then (ipv6_deserialize_reader reader) (\<lambda>a. ret (IpV6 a))
       else fail (error_new InvalidData (''Invalid IpAddr variant: '' @ show_nat (unat kind'))))"

definition socket_v4_deserialize_reader :: "'r Read \<Rightarrow> ('r, SocketAddrV4) io" where
  "socket_v4_deserialize_reader reader =
     and_then (ipv4_deserialize_reader reader) (\<lambda>ip.
     and_then (integer_deserialize_reader reader) (\<lambda>port.
     ret \<lparr>v4_ip = ip, v4_port = port\<rparr>))"

definition socket_v6_deserialize_reader :: "'r Read \<Rightarrow> ('r, SocketAddrV6) io" where
  "socket_v6_deserialize_reader reader =
     and_then (ipv6_deserialize_reader reader) (\<lambda>ip.
     and_then (integer_deserialize_reader reader) (\<lambda>port.
     ret \<lparr>v6_ip = ip, v6_port = port, v6_flowinfo = 0, v6_scope_id = 0\<rparr>))"

definition socket_deserialize_reader :: "'r Read \<Rightarrow> ('r, SocketAddr) io" where
  "socket_deserialize_reader reader =
     and_then (u8_deserialize_reader reader) (\<lambda>kind'.
       if kind' = 0 then map_ok V4 (socket_v4_deserialize_reader reader)
       else if kind' = 1 then map_ok V6 (socket_v6_deserialize_reader reader)
       else fail (error_new InvalidData (''Invalid SocketAddr variant: '' @ show_nat (unat kind'))))"

end
