(* ===== verification/Borsh_Composite_Laws.thy ===== *)
theory Borsh_Composite_Laws
  imports Borsh_Composite
begin

section \<open>Laws of tuples, arrays, ranges, pointers, cells and addresses\<close>

text \<open>
  The contracts of \<open>Borsh_Traits\<close> for the types of \<open>Borsh_Composite\<close>, and the memory
  discipline of the array reader: its buffer holds exactly the elements decoded so far,
  all of them are dropped once on a failure, and none on a success.
\<close>

subsection \<open>The array reader\<close>

text \<open>The elements that are decoded before the first failure, or all \<open>n\<close>.\<close>

fun decoded :: "nat \<Rightarrow> ('r, 'a) io \<Rightarrow> 'r \<Rightarrow> 'a list" where
  "decoded 0 f r = []"
| "decoded (Suc n) f r = (case f r of Some (Ok x, r') \<Rightarrow> x # decoded n f r' | _ \<Rightarrow> [])"

definition filled :: "nat \<Rightarrow> 'a list \<Rightarrow> 'a ArrayDropGuard" where
  "filled N xs = \<lparr>buffer = List.map Some xs @ replicate (N - length xs) None, init_count = length xs\<rparr>"

lemma length_decoded: "length (decoded n f r) \<le> n"
  by (induction n f r rule: decoded.induct) (auto split: option.splits prod.splits outcome.splits)

lemma those_map_Some [simp]: "those (List.map Some xs) = Some xs"
  by (induction xs) simp_all

lemma uninit_filled: "uninit_guard N = filled N []"
  by (simp add: uninit_guard_def filled_def)

lemma fill_elem_filled:
  assumes "length xs < N"
  shows "fill_elem f (length xs) (filled N xs, r) =
    (case f r of
        None \<Rightarrow> None
      | Some (Ok x, r') \<Rightarrow> Some (Ok (), (filled N (xs @ [x]), r'))
      | Some (Err e, r') \<Rightarrow> Some (Err e, (filled N xs, r'))
      | Some (Panic, r') \<Rightarrow> Some (Panic, (filled N xs, r')))"
proof -
  have "replicate (N - length xs) None = None # replicate (N - Suc (length xs)) (None :: 'a option)"
    using assms by (metis Suc_diff_Suc replicate_Suc)
  with assms show ?thesis
    by (auto simp: fill_elem_def on_reader_def and_then_def filled_def list_update_append
        split: option.splits prod.splits outcome.splits)
qed

lemma fill_loop:
  assumes "length xs + n = N"
  shows "for_each (fill_elem f) [length xs..<N] (filled N xs, r) =
    (case push_times n f xs r of
        None \<Rightarrow> None
      | Some (Ok ys, r') \<Rightarrow> Some (Ok (), (filled N ys, r'))
      | Some (Err e, r') \<Rightarrow> Some (Err e, (filled N (xs @ decoded n f r), r'))
      | Some (Panic, r') \<Rightarrow> Some (Panic, (filled N (xs @ decoded n f r), r')))"
  using assms
proof (induction n arbitrary: xs r)
  case 0
  then show ?case by (simp add: ret_def)
next
  case (Suc n)
  then have less: "length xs < N" by simp
  then have range: "[length xs..<N] = length xs # [Suc (length xs)..<N]" by (simp add: upt_conv_Cons)
  have IH: "for_each (fill_elem f) [Suc (length xs)..<N] (filled N (xs @ [x]), r') =
    (case push_times n f (xs @ [x]) r' of
        None \<Rightarrow> None
      | Some (Ok ys, s) \<Rightarrow> Some (Ok (), (filled N ys, s))
      | Some (Err e, s) \<Rightarrow> Some (Err e, (filled N (xs @ x # decoded n f r'), s))
      | Some (Panic, s) \<Rightarrow> Some (Panic, (filled N (xs @ x # decoded n f r'), s)))" for x r'
    using Suc.IH [of "xs @ [x]" r'] Suc.prems by (simp split: option.split prod.split outcome.split)
  show ?case
    by (simp add: range and_then_def fill_elem_filled [OF less] IH split: option.split prod.split outcome.split)
qed

lemma push_times_length: "push_times n f xs r = Some (Ok ys, r') \<Longrightarrow> length ys = length xs + n"
  by (induction n arbitrary: xs r) (auto simp: ret_Ok_iff and_then_Ok_iff)

lemma drop_filled: "length xs \<le> N \<Longrightarrow> drop_guard (filled N xs) = Some xs"
  by (simp add: drop_guard_def filled_def)

lemma array_fill_eq:
  "array_fill N f r =
    (case push_times N f [] r of
        None \<Rightarrow> None
      | Some (Ok xs, r') \<Rightarrow> Some (Ok xs, [], r')
      | Some (Err e, r') \<Rightarrow> Some (Err e, decoded N f r, r')
      | Some (Panic, r') \<Rightarrow> Some (Panic, decoded N f r, r'))"
proof -
  have fill: "fill_buffer N f (uninit_guard N, r) =
    (case push_times N f [] r of
        None \<Rightarrow> None
      | Some (Ok ys, r') \<Rightarrow> Some (Ok (), (filled N ys, r'))
      | Some (Err e, r') \<Rightarrow> Some (Err e, (filled N (decoded N f r), r'))
      | Some (Panic, r') \<Rightarrow> Some (Panic, (filled N (decoded N f r), r')))"
    using fill_loop [of "[]" N N f r] by (simp add: fill_buffer_def uninit_filled split: option.split prod.split outcome.split)
  have full: "transmute_to_array N (filled N ys) = Some (ys, (filled N ys)\<lparr>init_count := 0\<rparr>)"
    if "length ys = N" for ys :: "'a list"
    using that by (simp add: transmute_to_array_def filled_def)
  have none: "drop_guard ((filled N ys)\<lparr>init_count := 0\<rparr>) = Some []" for ys :: "'a list"
    by (simp add: drop_guard_def)
  note len = push_times_length [of N f "[]" r] and drop = drop_filled [OF length_decoded [of N f r]]
  show ?thesis
  proof (cases "push_times N f [] r")
    case (Some p)
    moreover obtain x r' where "p = (x, r')" by (cases p)
    ultimately show ?thesis
      using len by (cases x) (simp_all add: array_fill_def fill full none drop)
  qed (simp add: array_fill_def fill)
qed

lemma array_fill_result: "(\<lambda>r. map_option (\<lambda>(x, _, r'). (x, r')) (array_fill N f r)) = push_times N f []"
  by (rule ext) (simp add: array_fill_eq split: option.split prod.split outcome.split)

lemma array_reader_eq:
  "array_deserialize_reader N T R =
     and_then (array_from_reader T R N) (\<lambda>a.
       case a of Some arr \<Rightarrow> ret arr | None \<Rightarrow> push_times N (deserialize_reader T R) [])"
  unfolding array_deserialize_reader_def array_fill_result ..

definition array_enc :: "('a \<Rightarrow> bytes) \<Rightarrow> 'a list \<Rightarrow> bytes" where
  "array_enc enc vs = concat (List.map enc vs)"

definition array_ok :: "nat \<Rightarrow> ('a \<Rightarrow> bool) \<Rightarrow> 'a list \<Rightarrow> bool" where
  "array_ok N ok vs \<longleftrightarrow> length vs = N \<and> (\<forall>v\<in>set vs. ok v)"

lemma array_serialize_impl:
  assumes "serialize_impl S enc ok"
  shows "serialize_impl (array_ser N S) (array_enc enc) (array_ok N ok)"
  unfolding array_ser_def
proof (rule plain_serialize_impl)
  fix vs assume vs: "array_ok N ok vs"
  then have "\<forall>v\<in>set vs. ok v" and "N = 0 \<longleftrightarrow> vs = []" by (auto simp: array_ok_def)
  with emits_serialize_slice [OF assms, of vs]
  show "emits (\<lambda>W. array_serialize N S W vs) (array_enc enc vs)"
    by (auto simp: array_serialize_def array_enc_def serialize_slice_def emits_ret)
qed

lemma array_decodes:
  assumes D: "deserialize_impl D enc ok" and vs: "array_ok N ok vs"
  shows "decodes (array_deserialize_reader N D slice_reader) vs (array_enc enc vs)"
proof -
  from vs have len: "length vs = N" and ok: "\<forall>v\<in>set vs. ok v" by (auto simp: array_ok_def)
  have times: "decodes (push_times N (deserialize_reader D slice_reader) []) vs (array_enc enc vs)"
    using decodes_push_times [of vs "deserialize_reader D slice_reader" enc N "[]"]
      deserialize_impl.de_decodes [OF D] ok len by (simp add: array_enc_def)
  from deserialize_impl.de_array [OF D, of N] show ?thesis
  proof
    assume "\<forall>s. array_from_reader D slice_reader N s = Some (Ok None, s)"
    with times show ?thesis by (simp add: decodes_def array_reader_eq and_then_def)
  next
    assume "\<forall>vs. length vs = N \<longrightarrow> (\<forall>v\<in>set vs. ok v) \<longrightarrow>
      decodes (array_from_reader D slice_reader N) (Some vs) (concat (List.map enc vs))"
    with len ok have "decodes (array_from_reader D slice_reader N) (Some vs) (array_enc enc vs)"
      by (simp add: array_enc_def)
    then show ?thesis by (simp add: decodes_def array_reader_eq and_then_def ret_def)
  qed
qed

lemma array_deserialize_impl:
  "deserialize_impl D enc ok \<Longrightarrow> deserialize_impl (array_de N D) (array_enc enc) (array_ok N ok)"
  unfolding array_de_def by (rule plain_deserialize_impl) (rule array_decodes)

lemma array_read_canonical:
  assumes D: "canonical_impl D enc ok"
    and r: "array_deserialize_reader N D slice_reader s = Some (Ok vs, t)"
  shows "array_ok N ok vs \<and> s = array_enc enc vs @ t"
proof -
  from r obtain x s' where x: "array_from_reader D slice_reader N s = Some (Ok x, s')"
    and k: "(case x of Some arr \<Rightarrow> ret arr
         | None \<Rightarrow> push_times N (deserialize_reader D slice_reader) []) s' = Some (Ok vs, t)"
    unfolding array_reader_eq and_then_Ok_iff by blast
  show ?thesis
  proof (cases x)
    case (Some ys)
    with k canonical_impl.canon_array [OF D x] show ?thesis
      by (simp add: ret_Ok_iff array_ok_def array_enc_def)
  next
    case None
    with k have p: "push_times N (deserialize_reader D slice_reader) [] s' = Some (Ok vs, t)" by simp
    have "\<exists>xs. vs = [] @ xs \<and> length xs = N \<and> (\<forall>x\<in>set xs. ok x) \<and> s' = concat (List.map enc xs) @ t"
      by (rule push_times_canonical [OF _ p]) (rule canonical_impl.canon [OF D])
    moreover from None canonical_impl.canon_array [OF D x] have "s' = s" by simp
    ultimately show ?thesis by (auto simp: array_ok_def array_enc_def)
  qed
qed

lemma array_canonical_impl:
  assumes "canonical_impl D enc ok"
  shows "canonical_impl (array_de N D) (array_enc enc) (array_ok N ok)"
  unfolding array_de_def
  by (rule plain_canonical_impl)
    (simp_all add: array_decodes [OF canonical_impl.axioms(1) [OF assms]] array_read_canonical [OF assms])

lemma array_simulated_impl:
  assumes "simulated_impl R invar rest Ds Dr"
  shows "simulated_impl R invar rest (array_de N Ds) (array_de N Dr)"
  unfolding array_de_def simulated_impl.sim_size [OF assms]
  by (rule plain_simulated_impl [OF simulated_impl.axioms(1) [OF assms]])
    (unfold array_reader_eq, intro sim_intros simulated_impl.sim_array [OF assms] simulated_de [OF assms])

subsection \<open>Conversions\<close>

text \<open>
  An implementation that reads a value of another type and converts it, and one that
  converts before it writes: \<open>Box\<close>, \<open>Rc\<close>, \<open>Cell\<close> and the ranges.
\<close>

lemma converted_serialize_impl:
  assumes "serialize_impl S enc ok" and "\<And>W x. f W x = serialize S W (g x)"
  shows "serialize_impl (plain_ser n f) (\<lambda>x. enc (g x)) (\<lambda>x. ok (g x))"
  by (rule plain_serialize_impl) (simp add: assms(2) serialize_impl.ser_emits [OF assms(1)])

lemma converted_deserialize_impl:
  assumes "deserialize_impl D enc ok"
    and "f slice_reader = and_then (deserialize_reader D slice_reader) (\<lambda>x. ret (h x))"
    and "\<And>y. ok (g y) \<Longrightarrow> h (g y) = y"
  shows "deserialize_impl (plain_de n f) (\<lambda>y. enc (g y)) (\<lambda>y. ok (g y))"
  by (rule plain_deserialize_impl)
    (simp add: decodes_def assms(2,3) and_then_eval deserialize_impl.de_Ok [OF assms(1)] ret_def)

lemma converted_canonical_impl:
  assumes D: "canonical_impl D enc ok"
    and f: "f slice_reader = and_then (deserialize_reader D slice_reader) (\<lambda>x. ret (h x))"
    and gh: "\<And>y. h (g y) = y" and hg: "\<And>x. ok x \<Longrightarrow> g (h x) = x"
  shows "canonical_impl (plain_de n f) (\<lambda>y. enc (g y)) (\<lambda>y. ok (g y))"
proof (rule plain_canonical_impl)
  show "decodes (f slice_reader) y (enc (g y))" if "ok (g y)" for y
    using that deserialize_impl.de_Ok [OF canonical_impl.axioms(1) [OF D]]
    by (simp add: decodes_def f gh and_then_eval ret_def)
  show "ok (g y) \<and> s = enc (g y) @ t" if "f slice_reader s = Some (Ok y, t)" for s y t
    using that canonical_impl.canon [OF D] by (auto simp: f hg ok_iffs)
qed

lemma converted_simulated_impl:
  assumes "simulated_impl R invar rest Ds Dr"
    and "\<And>D R. f D R = and_then (deserialize_reader D R) (\<lambda>x. ret (h x))"
    and "\<And>D R. f' D R = and_then (deserialize_reader D R) (\<lambda>x. ret (h x))"
  shows "simulated_impl R invar rest (plain_de n (f Ds)) (plain_de n (f' Dr))"
  by (rule plain_simulated_impl [OF simulated_impl.axioms(1) [OF assms(1)]])
    (unfold assms(2,3), intro sim_intros simulated_de [OF assms(1)])

lemma box_serialize_impl:
  "serialize_impl S enc ok \<Longrightarrow>
   serialize_impl (plain_ser n (box_serialize as_ref S)) (\<lambda>b. enc (as_ref b)) (\<lambda>b. ok (as_ref b))"
  by (rule converted_serialize_impl) (simp_all add: box_serialize_def)

lemma box_canonical_impl:
  assumes "canonical_impl D enc ok" and "\<And>b. into (as_ref b) = b" and "\<And>x. as_ref (into x) = x"
  shows "canonical_impl (plain_de n (box_deserialize_reader into D)) (\<lambda>b. enc (as_ref b)) (\<lambda>b. ok (as_ref b))"
  by (rule converted_canonical_impl [OF assms(1), where h = into]) (simp_all add: box_deserialize_reader_def assms(2,3))

subsection \<open>Tuples and ranges\<close>

lemma tuple1_serialize_impl:
  "serialize_impl A enc ok \<Longrightarrow> serialize_impl (plain_ser n (tuple1_serialize A)) enc ok"
  by (rule plain_serialize_impl) (simp add: tuple1_serialize_def serialize_impl.ser_emits)

lemma tuple1_canonical_impl:
  "canonical_impl A enc ok \<Longrightarrow> canonical_impl (plain_de n (tuple1_deserialize_reader A)) enc ok"
  by (rule converted_canonical_impl [where g = "\<lambda>x. x" and h = "\<lambda>x. x"])
    (simp_all add: tuple1_deserialize_reader_def)

text \<open>A triple is a pair whose second component is a pair, to the writer and the reader.\<close>

lemma tuple3_is_nested:
  "tuple3_serialize A B C = tuple2_serialize A (tuple2_ser n B C)"
  "tuple3_deserialize_reader A' B' C' = tuple2_deserialize_reader A' (tuple2_de n B' C')"
  by (auto simp: fun_eq_iff tuple3_serialize_def tuple2_serialize_def tuple2_ser_def
      tuple3_deserialize_reader_def tuple2_deserialize_reader_def tuple2_de_def)

lemma unit_contracts:
  "serialize_impl unit_ser (\<lambda>_. []) (\<lambda>_. True)"
  "canonical_impl unit_de (\<lambda>_. []) (\<lambda>_. True)"
proof -
  show "serialize_impl unit_ser (\<lambda>_. []) (\<lambda>_. True)"
    unfolding unit_ser_def by (rule plain_serialize_impl) (simp add: unit_serialize_def emits_ret)
  show "canonical_impl unit_de (\<lambda>_. []) (\<lambda>_. True)"
    unfolding unit_de_def
    by (rule plain_canonical_impl) (simp_all add: unit_deserialize_reader_def decodes_def ret_def)
qed

interpretation unit_S: serialize_impl unit_ser "\<lambda>_. []" "\<lambda>_. True" by (rule unit_contracts)
interpretation unit_D: canonical_impl unit_de "\<lambda>_. []" "\<lambda>_. True" by (rule unit_contracts)

abbreviation range_pair :: "('a, 'z) Range_scheme \<Rightarrow> 'a \<times> 'a" where
  "range_pair r \<equiv> (range_start r, range_end r)"

lemma range_serialize_impl:
  assumes "serialize_impl T enc ok"
  shows "serialize_impl (plain_ser n (range_serialize T)) (\<lambda>r. pair_enc enc enc (range_pair r))
    (\<lambda>r. pair_ok ok ok (range_pair r))"
  by (rule converted_serialize_impl [OF tuple2_serialize_impl [OF assms assms, of 0]])
    (simp add: range_serialize_def tuple2_serialize_def tuple2_ser_def)

lemma range_canonical_impl:
  assumes "canonical_impl T enc ok"
  shows "canonical_impl (plain_de n (range_deserialize_reader T)) (\<lambda>r. pair_enc enc enc (range_pair r))
    (\<lambda>r. pair_ok ok ok (range_pair r))"
  by (rule converted_canonical_impl [OF tuple2_canonical_impl [OF assms assms, of 0],
        where h = "\<lambda>(s, e). \<lparr>range_start = s, range_end = e\<rparr>"])
    (auto simp: range_deserialize_reader_def tuple2_de_def case_prod_unfold)

text \<open>Reading a \<open>RangeInclusive\<close> forgets that it was exhausted.\<close>

lemma range_inclusive_serialize_impl:
  assumes "serialize_impl T enc ok"
  shows "serialize_impl (plain_ser n (range_inclusive_serialize T)) (\<lambda>r. pair_enc enc enc (range_pair r))
    (\<lambda>r. pair_ok ok ok (range_pair r))"
  by (rule converted_serialize_impl [OF tuple2_serialize_impl [OF assms assms, of 0]])
    (simp add: range_inclusive_serialize_def tuple2_serialize_def tuple2_ser_def)

lemma range_inclusive_round_trip:
  assumes "deserialize_impl T enc ok" and "pair_ok ok ok (range_pair r)"
  shows "range_inclusive_deserialize_reader T slice_reader (pair_enc enc enc (range_pair r) @ rest) =
    Some (Ok (r\<lparr>exhausted := False\<rparr>), rest)"
  using tuple2_decodes [OF assms(1,1,2)]
  by (simp add: range_inclusive_deserialize_reader_def decodes_def and_then_eval ret_def)

subsection \<open>Cells\<close>

lemma ref_cell_serialize_impl:
  "serialize_impl S enc ok \<Longrightarrow>
   serialize_impl (plain_ser n (ref_cell_serialize S)) (\<lambda>c. enc (cell_value c))
     (\<lambda>c. \<not> mutably_borrowed c \<and> ok (cell_value c))"
  by (rule plain_serialize_impl) (simp add: ref_cell_serialize_def serialize_impl.ser_emits)

lemma ref_cell_borrowed:
  "mutably_borrowed c \<Longrightarrow> ref_cell_serialize S W c = fail (error_new Other ''already mutably borrowed'')"
  by (simp add: ref_cell_serialize_def)

lemma ref_cell_canonical_impl:
  assumes "canonical_impl D enc ok"
  shows "canonical_impl (plain_de n (ref_cell_deserialize_reader D)) (\<lambda>c. enc (cell_value c))
     (\<lambda>c. \<not> mutably_borrowed c \<and> ok (cell_value c))"
proof (rule plain_canonical_impl)
  show "decodes (ref_cell_deserialize_reader D slice_reader) c (enc (cell_value c))"
    if "\<not> mutably_borrowed c \<and> ok (cell_value c)" for c
    using that deserialize_impl.de_Ok [OF canonical_impl.axioms(1) [OF assms]]
    by (simp add: decodes_def ref_cell_deserialize_reader_def map_ok_def and_then_eval ret_def)
  show "(\<not> mutably_borrowed c \<and> ok (cell_value c)) \<and> s = enc (cell_value c) @ t"
    if "ref_cell_deserialize_reader D slice_reader s = Some (Ok c, t)" for s c t
    using that canonical_impl.canon [OF assms] by (auto simp: ref_cell_deserialize_reader_def map_ok_Ok_iff)
qed

subsection \<open>Network addresses\<close>

definition ip_enc :: "IpAddr \<Rightarrow> bytes" where
  "ip_enc a = (case a of IpV4 x \<Rightarrow> 0 # octets4 x | IpV6 x \<Rightarrow> 1 # octets6 x)"

definition ip_ok :: "IpAddr \<Rightarrow> bool" where
  "ip_ok a = (case a of IpV4 x \<Rightarrow> length (octets4 x) = 4 | IpV6 x \<Rightarrow> length (octets6 x) = 16)"

definition socket_v4_enc :: "SocketAddrV4 \<Rightarrow> bytes" where
  "socket_v4_enc a = octets4 (v4_ip a) @ to_le_bytes (v4_port a)"

definition socket_v6_enc :: "SocketAddrV6 \<Rightarrow> bytes" where
  "socket_v6_enc a = octets6 (v6_ip a) @ to_le_bytes (v6_port a)"

definition socket_enc :: "SocketAddr \<Rightarrow> bytes" where
  "socket_enc a = (case a of V4 x \<Rightarrow> 0 # socket_v4_enc x | V6 x \<Rightarrow> 1 # socket_v6_enc x)"

text \<open>The addresses whose flow information and scope are zero are the ones that are kept.\<close>

definition socket_ok :: "SocketAddr \<Rightarrow> bool" where
  "socket_ok a = (case a of V4 x \<Rightarrow> length (octets4 (v4_ip x)) = 4
     | V6 x \<Rightarrow> length (octets6 (v6_ip x)) = 16 \<and> v6_flowinfo x = 0 \<and> v6_scope_id x = 0)"

lemma to_le_bytes_u8: "to_le_bytes (b :: u8) = [b]"
proof -
  have "LENGTH(8) div 8 = Suc 0" by simp
  then show ?thesis using unat_byte_less [of b] by (simp only: to_le_bytes_def le_bytes.simps mod_less) simp
qed

lemma ipv4_read_iff: "ipv4_deserialize_reader slice_reader s = Some (Ok a, t) \<longleftrightarrow>
    length (octets4 a) = 4 \<and> s = octets4 a @ t"
  by (cases a) (auto simp: ipv4_deserialize_reader_def ok_iffs slice_read_exact_Ok_iff)

lemma ipv6_read_iff: "ipv6_deserialize_reader slice_reader s = Some (Ok a, t) \<longleftrightarrow>
    length (octets6 a) = 16 \<and> s = octets6 a @ t"
  by (cases a) (auto simp: ipv6_deserialize_reader_def ok_iffs slice_read_exact_Ok_iff)

lemma u16_read_iff: "integer_deserialize_reader slice_reader s = Some (Ok (p :: u16), t) \<longleftrightarrow> s = to_le_bytes p @ t"
  by (simp add: integer_read_iff)

lemma socket_v4_read_iff: "socket_v4_deserialize_reader slice_reader s = Some (Ok a, t) \<longleftrightarrow>
    length (octets4 (v4_ip a)) = 4 \<and> s = socket_v4_enc a @ t"
  by (cases a) (auto simp: socket_v4_deserialize_reader_def socket_v4_enc_def ok_iffs ipv4_read_iff u16_read_iff)

lemma socket_v6_read_iff: "socket_v6_deserialize_reader slice_reader s = Some (Ok a, t) \<longleftrightarrow>
    length (octets6 (v6_ip a)) = 16 \<and> v6_flowinfo a = 0 \<and> v6_scope_id a = 0 \<and> s = socket_v6_enc a @ t"
  by (cases a) (auto simp: socket_v6_deserialize_reader_def socket_v6_enc_def ok_iffs ipv6_read_iff u16_read_iff)

lemma ip_read_iff: "ip_deserialize_reader slice_reader s = Some (Ok a, t) \<longleftrightarrow> ip_ok a \<and> s = ip_enc a @ t"
  by (cases a) (auto simp: ip_deserialize_reader_def ok_iffs u8_read_iff ipv4_read_iff ipv6_read_iff
      ip_ok_def ip_enc_def split: if_splits
      intro!: exI [of _ "0 :: u8"])

lemma socket_read_iff:
  "socket_deserialize_reader slice_reader s = Some (Ok a, t) \<longleftrightarrow> socket_ok a \<and> s = socket_enc a @ t"
  by (cases a) (auto simp: socket_deserialize_reader_def ok_iffs u8_read_iff socket_v4_read_iff
      socket_v6_read_iff socket_ok_def socket_enc_def split: if_splits
      intro!: exI [of _ "0 :: u8"])

lemma socket_serialize_impl: "serialize_impl (plain_ser n socket_serialize) socket_enc socket_ok"
proof (rule plain_serialize_impl)
  have v4: "emits (\<lambda>W. socket_v4_serialize W x) (socket_v4_enc x)" for x
    by (auto simp: socket_v4_serialize_def socket_v4_enc_def ipv4_serialize_def
        intro!: emits_and_then emits_write_all emits_integer)
  have v6: "emits (\<lambda>W. socket_v6_serialize W x) (socket_v6_enc x)" for x
    by (auto simp: socket_v6_serialize_def socket_v6_enc_def ipv6_serialize_def
        intro!: emits_and_then emits_write_all emits_integer)
  show "emits (\<lambda>W. socket_serialize W a) (socket_enc a)" for a
    using emits_and_then [OF emits_u8 [of 0] v4] emits_and_then [OF emits_u8 [of 1] v6]
    by (cases a) (simp_all add: socket_enc_def)
qed

lemma socket_canonical_impl: "canonical_impl (plain_de n socket_deserialize_reader) socket_enc socket_ok"
  by (rule plain_canonical_impl) (simp_all add: decodes_def socket_read_iff)

lemma ip_serialize_impl: "serialize_impl (plain_ser n ip_serialize) ip_enc ip_ok"
proof (rule plain_serialize_impl)
  show "emits (\<lambda>W. ip_serialize W a) (ip_enc a)" for a
    using emits_and_then [OF emits_write_all [of "[0]"] emits_write_all [of "octets4 x" for x]]
      emits_and_then [OF emits_write_all [of "[1]"] emits_write_all [of "octets6 x" for x]]
    by (cases a) (simp_all add: ip_enc_def to_le_bytes_u8 ipv4_serialize_def ipv6_serialize_def)
qed

lemma ip_canonical_impl: "canonical_impl (plain_de n ip_deserialize_reader) ip_enc ip_ok"
  by (rule plain_canonical_impl) (simp_all add: decodes_def ip_read_iff)

text \<open>The flow information and the scope of an IPv6 address are lost.\<close>

lemma socket_v6_forgets:
  assumes "length (octets6 (v6_ip a)) = 16"
  shows "socket_deserialize_reader slice_reader (socket_enc (V6 a) @ rest) =
    Some (Ok (V6 (a\<lparr>v6_flowinfo := 0, v6_scope_id := 0\<rparr>)), rest)"
  using assms unfolding socket_read_iff by (simp add: socket_ok_def socket_enc_def socket_v6_enc_def)

end
