(* ===== verification/Custom_Readers.thy ===== *)
theory Custom_Readers
  imports Borsh_Traits
begin

section \<open>Readers of the caller\<close>

text \<open>
  Models the readers of \<open>borsh/tests/custom_reader/test_custom_reader.rs\<close>: implementations of
  \<open>Read\<close> that have \<open>read\<close> only, with the provided \<open>read_exact\<close>. One delivers all that it has,
  one only half of what fits, and one fails. The first two are lawful readers; the struct
  that the tests read from them is in \<open>Custom_Reader_Test\<close>.
\<close>

subsection \<open>The readers\<close>

record CustomReader =
  data :: bytes
  read_index :: nat

text \<open>The subtraction of indices panics where it would be negative.\<close>

definition custom_read :: "nat \<Rightarrow> (CustomReader, bytes) io" where
  "custom_read n r =
     (if length (data r) < read_index r then Some (Panic, r)
      else let len = min n (length (data r) - read_index r)
           in Some (Ok (take len (drop (read_index r) (data r))), r\<lparr>read_index := read_index r + len\<rparr>))"

definition half_read :: "nat \<Rightarrow> (CustomReader, bytes) io" where
  "half_read n r =
     (if length (data r) < read_index r then Some (Panic, r)
      else let len = min n (length (data r) - read_index r);
               len' = (if len \<le> 1 then len else len div 2)
           in Some (Ok (take len' (drop (read_index r) (data r))), r\<lparr>read_index := read_index r + len'\<rparr>))"

definition failing_read :: "nat \<Rightarrow> ('s, bytes) io" where
  "failing_read n = fail (error_new ConnectionAborted (''I don'' @ [CHR 0x27] @ ''t like to run''))"

definition provided_reader :: "(nat \<Rightarrow> ('r, bytes) io) \<Rightarrow> 'r Read" where
  "provided_reader rd = \<lparr>read = rd, read_exact = default_read_exact rd\<rparr>"

definition reader_invar :: "CustomReader \<Rightarrow> bool" where
  "reader_invar r \<longleftrightarrow> read_index r \<le> length (data r)"

definition remaining :: "CustomReader \<Rightarrow> bytes" where
  "remaining r = drop (read_index r) (data r)"

lemma custom_read_step:
  assumes "reader_invar r"
  shows "\<exists>r'. custom_read n r = Some (Ok (take n (remaining r)), r') \<and> reader_invar r' \<and> remaining r' = drop n (remaining r)"
  using assms by (auto simp: custom_read_def reader_invar_def remaining_def Let_def min_def add.commute)

lemma half_read_step:
  assumes "reader_invar r"
  shows "\<exists>k r'. half_read n r = Some (Ok (take k (remaining r)), r') \<and> reader_invar r' \<and> remaining r' = drop k (remaining r) \<and>
    k \<le> n \<and> k \<le> length (remaining r) \<and> (k = 0 \<longrightarrow> n = 0 \<or> remaining r = [])"
proof -
  define len where "len = min n (length (data r) - read_index r)"
  define k where "k = (if len \<le> 1 then len else len div 2)"
  have "half_read n r = Some (Ok (take k (remaining r)), r\<lparr>read_index := read_index r + k\<rparr>)"
    using assms by (simp add: half_read_def reader_invar_def remaining_def Let_def len_def [symmetric] k_def)
  moreover have "k \<le> len" "k = 0 \<longrightarrow> len = 0" by (auto simp: k_def)
  then have "k \<le> n" "k \<le> length (data r) - read_index r" "k = 0 \<longrightarrow> n = 0 \<or> length (data r) - read_index r = 0"
    by (simp_all add: len_def min_def split: if_splits)
  moreover from this(2) assms have "reader_invar (r\<lparr>read_index := read_index r + k\<rparr>)"
    by (simp add: reader_invar_def)
  moreover have "remaining (r\<lparr>read_index := read_index r + k\<rparr>) = drop k (remaining r)"
    by (simp add: remaining_def add.commute)
  moreover have "k \<le> length (remaining r)" using \<open>k \<le> length (data r) - read_index r\<close> by (simp add: remaining_def)
  moreover have "k = 0 \<longrightarrow> n = 0 \<or> remaining r = []"
    using \<open>k = 0 \<longrightarrow> n = 0 \<or> length (data r) - read_index r = 0\<close> by (simp add: remaining_def)
  ultimately show ?thesis by blast
qed

interpretation custom: interruptible_read custom_read reader_invar remaining "\<lambda>_. 0"
proof
  fix r n assume "reader_invar r" "0 < (n :: nat)"
  from custom_read_step [OF this(1), of n] obtain r' where
    "custom_read n r = Some (Ok (take n (remaining r)), r')" "reader_invar r'" "remaining r' = drop n (remaining r)" by blast
  moreover have "length (take n (remaining r)) \<le> n" "remaining r = take n (remaining r) @ drop n (remaining r)" by simp_all
  moreover have "take n (remaining r) = [] \<longrightarrow> remaining r = []" using \<open>0 < n\<close> by simp
  ultimately show "(\<exists>bs r'. custom_read n r = Some (Ok bs, r') \<and> reader_invar r' \<and> length bs \<le> n \<and>
        remaining r = bs @ remaining r' \<and> (bs = [] \<longrightarrow> remaining r = [])) \<or>
      (\<exists>e r'. custom_read n r = Some (Err e, r') \<and> kind e = Interrupted \<and> reader_invar r' \<and>
        remaining r' = remaining r \<and> 0 < (0 :: nat))" by auto
qed

interpretation half: interruptible_read half_read reader_invar remaining "\<lambda>_. 0"
proof
  fix r n assume "reader_invar r" "0 < (n :: nat)"
  from half_read_step [OF this(1), of n] obtain k r' where r': "half_read n r = Some (Ok (take k (remaining r)), r')"
    "reader_invar r'" "remaining r' = drop k (remaining r)" "k \<le> n" "k = 0 \<longrightarrow> n = 0 \<or> remaining r = []" by blast
  moreover have "length (take k (remaining r)) \<le> n" "remaining r = take k (remaining r) @ drop k (remaining r)"
    using r'(4) by simp_all
  moreover have "take k (remaining r) = [] \<longrightarrow> remaining r = []" using \<open>0 < n\<close> r'(5) by auto
  ultimately show "(\<exists>bs r'. half_read n r = Some (Ok bs, r') \<and> reader_invar r' \<and> length bs \<le> n \<and>
        remaining r = bs @ remaining r' \<and> (bs = [] \<longrightarrow> remaining r = [])) \<or>
      (\<exists>e r'. half_read n r = Some (Err e, r') \<and> kind e = Interrupted \<and> reader_invar r' \<and>
        remaining r' = remaining r \<and> 0 < (0 :: nat))" by auto
qed

lemma provided_lawful:
  assumes "exact_reader \<lparr>read = rd, read_exact = default_read_exact rd\<rparr> invar rest"
    and "\<And>r n. invar r \<Longrightarrow> \<exists>k r'. rd n r = Some (Ok (take k (rest r)), r') \<and> invar r' \<and> rest r' = drop k (rest r) \<and>
      k \<le> n \<and> (k = 0 \<longrightarrow> n = 0 \<or> rest r = [])"
  shows "lawful_reader (provided_reader rd) invar rest"
  unfolding provided_reader_def
proof (intro lawful_reader.intro lawful_reader_axioms.intro assms(1))
  fix r n assume "invar r"
  from assms(2) [OF this, of n] obtain k r' where k: "rd n r = Some (Ok (take k (rest r)), r')" "invar r'"
    "rest r' = drop k (rest r)" "k \<le> n" "k = 0 \<longrightarrow> n = 0 \<or> rest r = []" by blast
  then have "length (take k (rest r)) \<le> n" "rest r = take k (rest r) @ rest r'"
    "take k (rest r) = [] \<longrightarrow> n = 0 \<or> rest r = []" by auto
  with k show "\<exists>bs r'. read \<lparr>read = rd, read_exact = default_read_exact rd\<rparr> n r = Some (Ok bs, r') \<and> invar r' \<and>
      length bs \<le> n \<and> rest r = bs @ rest r' \<and> (bs = [] \<longrightarrow> n = 0 \<or> rest r = [])" by auto
qed

interpretation custom_R: lawful_reader "provided_reader custom_read" reader_invar remaining
proof (rule provided_lawful [OF custom.provided.exact_reader_axioms])
  fix r n assume "reader_invar r"
  from custom_read_step [OF this, of n]
  show "\<exists>k r'. custom_read n r = Some (Ok (take k (remaining r)), r') \<and> reader_invar r' \<and> remaining r' = drop k (remaining r) \<and>
      k \<le> n \<and> (k = 0 \<longrightarrow> n = 0 \<or> remaining r = [])" by auto
qed

interpretation half_R: lawful_reader "provided_reader half_read" reader_invar remaining
  by (rule provided_lawful [OF half.provided.exact_reader_axioms]) (use half_read_step in blast)

end
