(* ===== verification/Codec_Properties.thy ===== *)
theory Codec_Properties
  imports Borsh_Collection_Laws Borsh_Composite_Laws Custom_Readers
begin

section \<open>Properties of the codec\<close>

text \<open>
  The correctness properties of the serialization and deserialization of borsh, over the
  contracts of \<open>Borsh_Traits\<close> and the laws of the component theories. Each property that
  has hypotheses is followed by a witness: the property at a concrete input.
\<close>

text \<open>Concrete encodings for the witnesses.\<close>

lemma le_bytes_4: "le_bytes 4 n = [word_of_nat (n mod 256), word_of_nat (n div 256 mod 256),
    word_of_nat (n div 256 div 256 mod 256), word_of_nat (n div 256 div 256 div 256 mod 256)]"
proof -
  have "(4 :: nat) = Suc (Suc (Suc (Suc 0)))" by simp
  then show ?thesis by (simp only: le_bytes.simps)
qed

lemma le_32: "to_le_bytes (x :: u32) = le_bytes 4 (unat x)"
  by (simp add: to_le_bytes_def)

lemmas concrete = vec_enc_def vec_ok_def le_32 le_bytes_4

lemma u32_size_ok: "elem_size_ok (de_size_of (integer_de :: (bytes, u32) BorshDeserialize))"
  by (simp add: integer_de_def elem_size_okI)

text \<open>
  C1. Vectors and their bytes correspond one to one. A vector of fewer than \<open>2 ^ 32\<close> elements
  is serialized as its length and the encodings of its elements, and \<open>from_slice::<Vec<T>>\<close>
  returns a vector on exactly the bytes that \<open>to_vec\<close> makes of it: no other bytes are
  accepted. The element type is any whose decoder is canonical, and it is read through the
  bulk path or the element loop.
\<close>

theorem vec_from_slice_iff:
  assumes "serialize_impl S enc ok" and "canonical_impl D enc ok"
    and "0 < ser_size_of S" and "elem_size_ok (de_size_of D)"
  shows "(vec_ok ok vs \<longrightarrow> to_vec (vec_ser m S) vs = Some (Ok (vec_enc enc vs))) \<and>
    (from_slice (vec_de n D) bs = Some (Ok vs) \<longleftrightarrow> vec_ok ok vs \<and> to_vec (vec_ser m S) vs = Some (Ok bs))"
proof -
  note ser = to_vec_enc [OF vec_serialize_impl [OF assms(1,3)], where n1 = m]
  show ?thesis
    unfolding canonical_impl.from_slice_Ok_iff [OF vec_canonical_impl [OF assms(2,4)]] using ser by auto
qed

theorem vec_from_slice_iff_witness:
  "to_vec (vec_ser 24 (integer_ser :: (bytes, u32) BorshSerialize)) [7, 256] = Some (Ok [2, 0, 0, 0, 7, 0, 0, 0, 0, 1, 0, 0]) \<and>
   from_slice (vec_de 24 (integer_de :: (bytes, u32) BorshDeserialize)) [2, 0, 0, 0, 7, 0, 0, 0, 0, 1, 0, 0] =
    Some (Ok [7, 256])"
  using vec_from_slice_iff [OF integer_S.serialize_impl_axioms u32_D.canonical_impl_axioms _ u32_size_ok,
      where vs = "[7, 256]" and m = 24 and n = 24]
  by (simp add: integer_ser_def concrete)

text \<open>
  The round trip alone, \<open>from_slice(&to_vec(&v)?) = v\<close>, for every element type that meets the
  contracts of the two traits.
\<close>

lemma vec_round_trip:
  assumes "serialize_impl S enc ok" and "deserialize_impl D enc ok"
    and "0 < ser_size_of S" and "elem_size_ok (de_size_of D)" and "vec_ok ok vs"
  shows "\<exists>bs. to_vec (vec_ser n S) vs = Some (Ok bs) \<and> from_slice (vec_de n D) bs = Some (Ok vs)"
  using to_vec_enc [OF vec_serialize_impl [OF assms(1,3)] assms(5)]
    deserialize_impl.from_slice_enc [OF vec_deserialize_impl [OF assms(2,4)] assms(5)]
  by blast

text \<open>
  C2. Strings: \<open>from_slice::<String>\<close> accepts exactly a little-endian length followed by
  that many bytes of valid UTF-8.
\<close>

theorem string_from_slice_iff:
  "from_slice (string_de n) bs = Some (Ok s) \<longleftrightarrow>
     length s < 2 ^ 32 \<and> valid_utf8 s \<and> bs = to_le_bytes (word_of_nat (length s) :: u32) @ as_bytes s"
  unfolding string_D.from_slice_Ok_iff by (auto simp: string_ok_def string_enc_def vec_enc_def)

text \<open>
  Reading a map from strings to byte vectors from a lawful reader, such as one that delivers
  half of what is asked for, gives the result of reading the same bytes from a slice. The map
  exercises the bulk byte path, the element loop, the UTF-8 check and the order check.
\<close>

lemma map_reader_and_slice_agree:
  assumes "lawful_reader R invar rest" and "invar r"
  shows "map_option fst (from_reader R (btree_map_de strict n ps (string_de k) (vec_de m u8_de)) r) =
    from_slice (btree_map_de strict n ps (string_de k) (vec_de m u8_de)) (rest r)"
  using assms(2)
  by (rule simulated_impl.from_reader_eq_from_slice [OF btree_map_simulated_impl
        [OF string_simulated_impl [OF assms(1)] vec_simulated_impl [OF lawful_reader.simulated_u8 [OF assms(1)]]]])

lemma half_reader_and_slice_agree:
  "map_option fst (from_reader (provided_reader half_read) (btree_map_de True 24 48 (string_de 24) (vec_de 24 u8_de))
      \<lparr>data = [5, 0, 0, 0, 0], read_index = 1\<rparr>) =
    from_slice (btree_map_de True 24 48 (string_de 24) (vec_de 24 u8_de)) [0, 0, 0, 0]"
  using map_reader_and_slice_agree [OF half_R.lawful_reader_axioms, of "\<lparr>data = [5, 0, 0, 0, 0], read_index = 1\<rparr>"]
  by (simp add: reader_invar_def remaining_def)

text \<open>
  C4. With \<open>de_strict_order\<close> ordered maps are canonical: \<open>from_slice::<BTreeMap<K, V>>\<close>
  accepts exactly the encodings of maps in strictly ascending key order.
\<close>

theorem btree_map_from_slice_iff:
  assumes "canonical_impl K enc_k ok_k" and "canonical_impl V enc_v ok_v"
    and "map_sizes_ok (de_size_of K) ps"
  shows "from_slice (btree_map_de True n ps K V) bs = Some (Ok m) \<longleftrightarrow>
    sorted_wrt (<) (List.map fst m) \<and> vec_ok (pair_ok ok_k ok_v) m \<and> bs = vec_enc (pair_enc enc_k enc_v) m"
  unfolding canonical_impl.from_slice_Ok_iff [OF btree_map_canonical_impl [OF assms]] btree_map_ok_def by blast

theorem btree_map_from_slice_iff_witness:
  "from_slice (btree_map_de True 24 2 u8_de bool_de) [2, 0, 0, 0, 3, 0, 9, 1] = Some (Ok [(3, False), (9, True)])"
  by (rule btree_map_from_slice_iff [OF u8_D.canonical_impl_axioms bool_D.canonical_impl_axioms, THEN iffD2])
    (simp_all add: map_sizes_ok_def elem_size_okI concrete pair_ok_def pair_enc_def bool_enc_def)

text \<open>
  C5. Reading the entries of an ordered map in any order: without \<open>de_strict_order\<close> the
  result is an ordered map in which the last value given for a key counts; with it, an
  order that is not strictly ascending is an \<open>InvalidData\<close> error.
\<close>

theorem btree_map_any_order:
  assumes "deserialize_impl K enc_k ok_k" and "deserialize_impl V enc_v ok_v"
    and "map_sizes_ok (de_size_of K) ps" and "vec_ok (pair_ok ok_k ok_v) entries"
  shows "(\<exists>m. from_slice (btree_map_de False n ps K V) (vec_enc (pair_enc enc_k enc_v) entries) = Some (Ok m) \<and>
      sorted_wrt (<) (List.map fst m) \<and> map_of m = map_of (rev entries)) \<and>
    from_slice (btree_map_de True n ps K V) (vec_enc (pair_enc enc_k enc_v) entries) =
      (if sorted_wrt (<) (List.map fst entries) then Some (Ok entries)
       else Some (Err (error_new InvalidData ''keys were not serialized in ascending order'')))"
  using btree_map_reads [OF assms, where rest = "[]"] btree_map_collect [of entries]
  by (simp add: from_slice_def deserialize_def btree_map_de_def collect_sorted ERROR_WRONG_ORDER_OF_KEYS_def)

theorem btree_map_any_order_witness:
  "from_slice (btree_map_de True 24 2 u8_de u8_de) (vec_enc (pair_enc (\<lambda>b. [b]) (\<lambda>b. [b])) [(3, 0), (3, 1)]) =
    Some (Err (error_new InvalidData ''keys were not serialized in ascending order''))"
  using btree_map_any_order [OF u8_D.deserialize_impl_axioms u8_D.deserialize_impl_axioms,
      of 2 "[(3, 0), (3, 1)]" 24]
  by (simp add: map_sizes_ok_def elem_size_okI vec_ok_def pair_ok_def)

text \<open>
  C6. The bytes of a hash map do not depend on the order in which it iterates, and they
  are the bytes of the ordered map with the same entries.
\<close>

theorem hash_map_deterministic:
  assumes "serialize_impl K enc_k ok_k" and "0 < ser_size_of K" and "serialize_impl V enc_v ok_v"
    and "distinct (List.map fst m)" and "vec_ok (pair_ok ok_k ok_v) m" and "mset m' = mset m"
  shows "to_vec (plain_ser n (hash_map_serialize ps K V)) m' =
    to_vec (btree_map_ser n K V) (sort_key fst m)"
proof -
  have m: "hash_map_ok ok_k ok_v m" using assms by (simp add: hash_map_ok_def)
  have "to_vec (plain_ser n (hash_map_serialize ps K V)) m' = to_vec (plain_ser n (hash_map_serialize ps K V)) m"
    by (simp only: to_vec_def plain_ser_sel hash_map_serialize_order [OF assms(4,6)])
  also have "\<dots> = Some (Ok (hash_map_enc enc_k enc_v m))"
    by (rule to_vec_enc [OF hash_map_serialize_impl [OF assms(1-3)] m])
  also have "\<dots> = to_vec (btree_map_ser n K V) (sort_key fst m)"
    using to_vec_enc [OF btree_map_serialize_impl [OF assms(1-3)] btree_of_hash_map [OF m]]
    by (simp add: hash_map_enc_def)
  finally show ?thesis .
qed

theorem hash_map_deterministic_witness:
  "to_vec (plain_ser 48 (hash_map_serialize 2 u8_ser u8_ser)) [(9, 1), (3, 0)] =
    to_vec (btree_map_ser 48 u8_ser u8_ser) [(3, 0), (9, 1)]"
  using hash_map_deterministic [OF u8_S.serialize_impl_axioms _ u8_S.serialize_impl_axioms,
      of "[(3, 0), (9, 1)]" "[(9, 1), (3, 0)]" 48 2]
  by (simp add: u8_ser_def vec_ok_def pair_ok_def)

text \<open>
  Round trip of hash maps up to the iteration order: reading the bytes of a map gives a
  map with the same entries, whatever order the hasher of the new map imposes, with and
  without \<open>de_strict_order\<close>.
\<close>

lemma hash_map_same_entries:
  assumes "serialize_impl K enc_k ok_k" and "0 < ser_size_of K" and "serialize_impl V enc_v ok_v"
    and "deserialize_impl K' enc_k ok_k" and "deserialize_impl V' enc_v ok_v"
    and "map_sizes_ok (de_size_of K') ps" and "hash_map_ok ok_k ok_v m"
    and "\<And>xs. mset (iter_order xs) = mset xs"
  shows "\<exists>bs m'. to_vec (plain_ser n (hash_map_serialize ps K V)) m = Some (Ok bs) \<and>
    from_slice (plain_de n (hash_map_deserialize_reader strict iter_order ps K' V')) bs = Some (Ok m') \<and>
    distinct (List.map fst m') \<and> map_of m' = map_of m"
proof -
  obtain m' where "hash_map_deserialize_reader strict iter_order ps K' V' slice_reader
      (hash_map_enc enc_k enc_v m) = Some (Ok m', [])" and m': "distinct (List.map fst m')" "map_of m' = map_of m"
    using hash_map_round_trip [OF assms(4-8), where rest = "[]"] by auto
  then have "from_slice (plain_de n (hash_map_deserialize_reader strict iter_order ps K' V'))
      (hash_map_enc enc_k enc_v m) = Some (Ok m')"
    by (simp add: from_slice_def deserialize_def)
  with m' to_vec_enc [OF hash_map_serialize_impl [OF assms(1-3)] assms(7)] show ?thesis by blast
qed

lemma hash_map_same_entries_witness:
  "\<exists>bs m'. to_vec (plain_ser 48 (hash_map_serialize 2 u8_ser u8_ser)) [(9, 1), (3, 0)] = Some (Ok bs) \<and>
    from_slice (plain_de 48 (hash_map_deserialize_reader True rev 2 u8_de u8_de)) bs = Some (Ok m') \<and>
    distinct (List.map fst m') \<and> map_of m' = map_of [(9, 1), (3, 0)]"
  by (rule hash_map_same_entries [OF u8_S.serialize_impl_axioms _ u8_S.serialize_impl_axioms
        u8_D.deserialize_impl_axioms u8_D.deserialize_impl_axioms])
    (simp_all add: u8_ser_def map_sizes_ok_def elem_size_okI hash_map_ok_def vec_ok_def pair_ok_def)

text \<open>
  \<open>object_length\<close> is the length of what \<open>to_vec\<close> returns, for every value that
  serializes, unless that length overflows \<open>usize\<close>, which is an \<open>OutOfMemory\<close> error.
\<close>

lemma object_length_is_length:
  assumes "serialize_impl S enc ok" and "serialize_impl S' enc ok" and "ok v"
  shows "\<exists>bs. to_vec S' v = Some (Ok bs) \<and> object_length usize_bits S v =
    (if length bs < 2 ^ usize_bits then Some (Ok (length bs)) else Some (Err (error_from OutOfMemory)))"
  using to_vec_enc [OF assms(2,3)] object_length_enc [OF assms(1,3)] by blast

lemma object_length_is_length_witness:
  "\<exists>bs. to_vec (string_ser 24) ''abc'' = Some (Ok bs) \<and> object_length 64 (string_ser 24) ''abc'' =
    (if length bs < 2 ^ 64 then Some (Ok (length bs)) else Some (Err (error_from OutOfMemory)))"
  by (rule object_length_is_length [OF string_S.serialize_impl_axioms string_S.serialize_impl_axioms])
    (simp add: string_ok_def valid_utf8_def)

lemma push_u8: "push_times n (u8_deserialize_reader slice_reader) acc s =
    (if n \<le> length s then Some (Ok (acc @ take n s), drop n s)
     else Some (Err (error_new InvalidData ERROR_UNEXPECTED_LENGTH_OF_INPUT), []))"
proof (induction n arbitrary: acc s)
  case (Suc n)
  show ?case by (cases s) (simp_all add: io_simps Suc.IH)
qed (simp add: ret_def)

text \<open>
  The bulk path of \<open>u8::vec_from_reader\<close>, which grows and fills a buffer in pieces,
  has the result of the byte-by-byte loop that it replaces, on every lawful reader.
\<close>

lemma u8_bulk_path:
  assumes "lawful_reader R invar rest" and "invar r"
  shows "map_option fst (u8_vec_from_reader R len r) =
    map_option fst (map_ok Some (push_times (unat len) (u8_deserialize_reader R) []) r)"
proof -
  have "simulates invar rest (map_ok Some (push_times (unat len) (u8_deserialize_reader slice_reader) []))
      (map_ok Some (push_times (unat len) (u8_deserialize_reader R) []))"
    by (intro sim_intros lawful_reader.sim_u8 [OF assms(1)])
  note loop = this [unfolded simulates_def, rule_format, OF assms(2)]
  show ?thesis
  proof (cases "unat len \<le> length (rest r)")
    case True
    then have "map_ok Some (push_times (unat len) (u8_deserialize_reader slice_reader) []) (rest r) =
        Some (Ok (Some (take (unat len) (rest r))), drop (unat len) (rest r))"
      by (simp add: map_ok_def and_then_eval(1) [OF push_u8 [THEN trans]] ret_eval)
    with loop lawful_reader.u8_vec_from_reader_ok [OF assms True] show ?thesis by auto
  next
    case False
    then have "map_ok Some (push_times (unat len) (u8_deserialize_reader slice_reader) []) (rest r) =
        Some (Err (error_new InvalidData ERROR_UNEXPECTED_LENGTH_OF_INPUT), [])"
      by (simp add: map_ok_def and_then_eval(2) [OF push_u8 [THEN trans]])
    with loop False lawful_reader.u8_vec_from_reader_eof [OF assms, of len] show ?thesis by auto
  qed
qed

lemma u8_bulk_path_witness:
  "map_option fst (u8_vec_from_reader slice_reader 3 [1, 2]) =
    map_option fst (map_ok Some (push_times 3 (u8_deserialize_reader slice_reader) []) [1, 2])"
  using u8_bulk_path [OF slice_rd.lawful_reader_axioms, where r = "[1, 2]" and len = 3] by simp

text \<open>
  C7. The provided \<open>read_exact\<close> fills the buffer from a reader that delivers its bytes in
  pieces of any size and is interrupted finitely often, and reports \<open>UnexpectedEof\<close> when
  the input ends before: it terminates and loses no byte.
\<close>

theorem default_read_exact_fills:
  assumes "interruptible_read rd invar rest budget" and "invar r"
  shows "(n \<le> length (rest r) \<longrightarrow> (\<exists>r'. default_read_exact rd n r = Some (Ok (take n (rest r)), r') \<and>
      invar r' \<and> rest r' = drop n (rest r))) \<and>
    (length (rest r) < n \<longrightarrow> (\<exists>r'. default_read_exact rd n r =
      Some (Err (error_new UnexpectedEof ''failed to fill whole buffer''), r')))"
  using interruptible_read.loop_ok [OF assms, of n "[]"] interruptible_read.loop_eof [OF assms, of n "[]"]
  by (simp add: default_read_exact_def)

theorem default_read_exact_fills_witness:
  "default_read_exact slice_read 2 [1, 2, 3] = Some (Ok [1, 2], [3])"
  using default_read_exact_fills [OF slice_short.interruptible_read_axioms, where r = "[1, 2, 3]" and n = 2] by simp

text \<open>
  C8. The array reader and its \<open>ArrayDropGuard\<close>: the array is read element by element;
  when an element fails, exactly the elements already decoded are dropped, once each, and
  when all are read none is dropped; no uninitialised slot is ever dropped or returned.
\<close>

theorem array_drop_guard:
  "array_fill N f r =
    (case push_times N f [] r of
        None \<Rightarrow> None
      | Some (Ok xs, r') \<Rightarrow> Some (Ok xs, [], r')
      | Some (Err e, r') \<Rightarrow> Some (Err e, decoded N f r, r')
      | Some (Panic, r') \<Rightarrow> Some (Panic, decoded N f r, r'))"
  by (rule array_fill_eq)

text \<open>
  Hostile lengths: before any element is decoded, a vector reserves room for at least
  one and at most 4096 elements, and for at most 4096 bytes unless it reserves one element
  only; the reservation never exceeds the announced length unless that is zero.
\<close>

lemma reservation_bounded:
  assumes "0 < sz" and "sz < 2 ^ 32"
  shows "\<exists>k. (cautious sz hint :: ('e, nat) outcome) = Ok k \<and> 1 \<le> k \<and> k \<le> 4096 \<and>
    (k = 1 \<or> k * sz \<le> 4096) \<and> k \<le> max (unat hint) 1"
proof (intro exI conjI)
  let ?d = "4096 div sz" and ?k = "max (min (unat hint) (4096 div sz)) 1"
  show "(cautious sz hint :: ('e, nat) outcome) = Ok ?k"
    using assms by (simp add: cautious_def Let_def unat_len32 len32_zero)
  have "?d \<le> 4096" by (rule div_le_dividend)
  then show "?k \<le> 4096" by linarith
  have "min (unat hint) ?d * sz \<le> 4096"
    using div_times_less_eq_dividend [of 4096 sz] mult_le_mono1 [of "min (unat hint) ?d" ?d sz] by linarith
  then show "?k = 1 \<or> ?k * sz \<le> 4096" by (auto simp: max_def)
qed (auto simp: max_def)

text \<open>
  What does not fit is refused and nothing is truncated silently: a sequence of
  \<open>2 ^ 32\<close> or more elements is an error before a byte is written, and on a machine with
  \<open>usize_bits\<close> bits exactly the encodings of integers below \<open>2 ^ usize_bits\<close> are read.
\<close>

lemma out_of_range_refused:
  "(\<forall>vs. 2 ^ 32 \<le> length vs \<longrightarrow> to_vec (plain_ser n (slice_serialize S)) vs = Some (Err (error_from InvalidData))) \<and>
   from_slice (usize_de usize_bits) (to_le_bytes (w :: u64)) =
     (if unat w < 2 ^ usize_bits then Some (Ok (unat w))
      else Some (Err (error_new InvalidData ''Overflow on machine with 32 bit usize'')))"
proof (intro conjI allI impI)
  show "to_vec (plain_ser n (slice_serialize S)) vs = Some (Err (error_from InvalidData))"
    if "2 ^ 32 \<le> length vs" for vs
    by (simp add: to_vec_def too_long_refused(1) [OF that] fail_eval)
  have "integer_deserialize_reader slice_reader (to_le_bytes w) = Some (Ok w, [])"
    using u64_read_iff [of "to_le_bytes w" w "[]"] by simp
  then show "from_slice (usize_de usize_bits) (to_le_bytes w) =
     (if unat w < 2 ^ usize_bits then Some (Ok (unat w))
      else Some (Err (error_new InvalidData ''Overflow on machine with 32 bit usize'')))"
    by (simp add: from_slice_def deserialize_def usize_de_def usize_deserialize_reader_def and_then_eval
        ret_eval fail_eval ERROR_OVERFLOW_ON_MACHINE_WITH_32_BIT_USIZE_def)
qed

lemma out_of_range_refused_witness:
  "from_slice (usize_de 32) (to_le_bytes (2 ^ 32 :: u64)) =
    Some (Err (error_new InvalidData ''Overflow on machine with 32 bit usize''))"
  using out_of_range_refused [where usize_bits = 32 and w = "2 ^ 32" and S = u8_ser and n = 0, THEN conjunct2] by simp

text \<open>
  Socket addresses: \<open>from_slice\<close> of an IPv6 socket address that was serialized returns
  it with its flow information and scope replaced by zero, so the round trip is the
  identity exactly on the addresses where both are zero.
\<close>

lemma socket_v6_round_trip:
  assumes "length (octets6 (v6_ip a)) = 16"
  shows "\<exists>bs. to_vec (plain_ser n socket_serialize) (V6 a) = Some (Ok bs) \<and>
    from_slice (plain_de n socket_deserialize_reader) bs =
      Some (Ok (V6 (a\<lparr>v6_flowinfo := 0, v6_scope_id := 0\<rparr>)))"
proof -
  let ?b = "a\<lparr>v6_flowinfo := 0, v6_scope_id := 0\<rparr>"
  have "socket_ok (V6 ?b)" and enc: "socket_enc (V6 a) = socket_enc (V6 ?b)"
    using assms by (simp_all add: socket_ok_def socket_enc_def socket_v6_enc_def)
  have "to_vec (plain_ser n socket_serialize) (V6 a) = to_vec (plain_ser n socket_serialize) (V6 ?b)"
    by (simp add: to_vec_def socket_v6_serialize_def)
  also have "\<dots> = Some (Ok (socket_enc (V6 a)))"
    unfolding enc by (rule to_vec_enc [OF socket_serialize_impl \<open>socket_ok (V6 ?b)\<close>])
  finally show ?thesis
    using socket_v6_forgets [OF assms, of "[]"] by (simp add: from_slice_def deserialize_def)
qed

lemma socket_v6_round_trip_witness:
  "\<exists>bs. to_vec (plain_ser 32 socket_serialize)
      (V6 \<lparr>v6_ip = Ipv6Addr (replicate 16 1), v6_port = 80, v6_flowinfo = 7, v6_scope_id = 3\<rparr>) = Some (Ok bs) \<and>
    from_slice (plain_de 32 socket_deserialize_reader) bs =
      Some (Ok (V6 \<lparr>v6_ip = Ipv6Addr (replicate 16 1), v6_port = 80, v6_flowinfo = 0, v6_scope_id = 0\<rparr>))"
  using socket_v6_round_trip [of "\<lparr>v6_ip = Ipv6Addr (replicate 16 1), v6_port = 80, v6_flowinfo = 7, v6_scope_id = 3\<rparr>" 32]
  by simp

text \<open>
  Bytes after the encoding of a value are refused: \<open>from_slice\<close> reads all of its input.
\<close>

lemma trailing_bytes_refused:
  assumes "deserialize_impl D enc ok" and "ok v" and "rest \<noteq> []"
  shows "from_slice D (enc v @ rest) = Some (Err (error_new InvalidData ''Not all bytes read''))"
  using deserialize_impl.from_slice_trailing [OF assms] by (simp add: ERROR_NOT_ALL_BYTES_READ_def)

end
