(* ===== verification/Schema_Model.thy ===== *)
theory Schema_Model
  imports Borsh_Composite
begin

section \<open>Schemas\<close>

text \<open>
  Models \<open>borsh/src/schema.rs\<close>: definitions, the container, the trait \<open>BorshSchema\<close> with
  its implementations, and the implementations that \<open>#[derive(BorshSchema)]\<close> generates
  (\<open>borsh-derive/src/internals/schema\<close>). A \<open>BTreeMap<Declaration, Definition>\<close> is the
  list of its entries in key order; \<open>add_definitions_recursively\<close> is an effect on it,
  and a failed \<open>assert_eq!\<close> is a panic. An implementation of the trait does not mention
  the Rust type, so that implementations for tuples are one definition over a list.
\<close>

subsection \<open>Definitions\<close>

type_synonym Declaration = string
type_synonym VariantName = string
type_synonym DiscriminantValue = u64
type_synonym FieldName = string

datatype Fields =
    NamedFields "(FieldName \<times> Declaration) list"
  | UnnamedFields "Declaration list"
  | Empty

datatype Definition =
    Primitive u8
  | Sequence u8 "u64 RangeInclusive" Declaration
  | Tuple "Declaration list"
  | Enum u8 "(DiscriminantValue \<times> VariantName \<times> Declaration) list"
  | Struct Fields

definition ARRAY_LENGTH_WIDTH :: u8 where
  "ARRAY_LENGTH_WIDTH = 0"

definition DEFAULT_LENGTH_WIDTH :: u8 where
  "DEFAULT_LENGTH_WIDTH = 4"

definition range_inclusive :: "'a \<Rightarrow> 'a \<Rightarrow> 'a RangeInclusive" where
  "range_inclusive lo hi = \<lparr>range_start = lo, range_end = hi, exhausted = False\<rparr>"

definition DEFAULT_LENGTH_RANGE :: "u64 RangeInclusive" where
  "DEFAULT_LENGTH_RANGE = range_inclusive 0 4294967295"

type_synonym definitions = "(Declaration \<times> Definition) list"

subsection \<open>The container\<close>

record BorshSchemaContainer =
  container_declaration :: Declaration
  container_definitions :: definitions

definition container_new :: "Declaration \<Rightarrow> definitions \<Rightarrow> BorshSchemaContainer" where
  "container_new declaration definitions =
     \<lparr>container_declaration = declaration, container_definitions = definitions\<rparr>"

definition get_definition :: "BorshSchemaContainer \<Rightarrow> Declaration \<Rightarrow> Definition option" where
  "get_definition self declaration = map_of (container_definitions self) declaration"

text \<open>A mutable reference is the value it points to and the container for each new value.\<close>

definition get_mut_definition ::
  "BorshSchemaContainer \<Rightarrow> Declaration \<Rightarrow> (Definition \<times> (Definition \<Rightarrow> BorshSchemaContainer)) option" where
  "get_mut_definition self declaration =
     map_option (\<lambda>d. (d, \<lambda>d'. self\<lparr>container_definitions :=
         btree_map_insert declaration d' (container_definitions self)\<rparr>))
       (map_of (container_definitions self) declaration)"

definition insert_definition ::
  "BorshSchemaContainer \<Rightarrow> Declaration \<Rightarrow> Definition \<Rightarrow> BorshSchemaContainer \<times> Definition option" where
  "insert_definition self declaration definition =
     (self\<lparr>container_definitions := btree_map_insert declaration definition (container_definitions self)\<rparr>,
      map_of (container_definitions self) declaration)"

definition remove_definition ::
  "BorshSchemaContainer \<Rightarrow> Declaration \<Rightarrow> BorshSchemaContainer \<times> Definition option" where
  "remove_definition self declaration =
     (self\<lparr>container_definitions := filter (\<lambda>(k, _). k \<noteq> declaration) (container_definitions self)\<rparr>,
      map_of (container_definitions self) declaration)"

subsection \<open>The trait\<close>

text \<open>The effect has no error of its own: it returns, or it panics on a redefinition.\<close>

type_synonym add_effect = "(definitions, unit, unit) eff"

definition add_definition :: "Declaration \<Rightarrow> Definition \<Rightarrow> add_effect" where
  "add_definition declaration definition definitions =
     (case map_of definitions declaration of
         Some existing_def \<Rightarrow>
           if existing_def = definition then Some (Ok (), definitions) else Some (Panic, definitions)
       | None \<Rightarrow> Some (Ok (), btree_map_insert declaration definition definitions))"

record BorshSchema =
  declaration_of :: Declaration
  add_definitions_recursively :: add_effect

definition for_type :: "BorshSchema \<Rightarrow> (unit, BorshSchemaContainer) outcome option" where
  "for_type T =
     (case add_definitions_recursively T [] of
         None \<Rightarrow> None
       | Some (Ok _, definitions) \<Rightarrow> Some (Ok (container_new (declaration_of T) definitions))
       | Some (Err e, _) \<Rightarrow> Some (Err e)
       | Some (Panic, _) \<Rightarrow> Some Panic)"

text \<open>The calls in a body, one after the other.\<close>

definition add_all :: "BorshSchema list \<Rightarrow> add_effect" where
  "add_all Ts = for_each add_definitions_recursively Ts"

subsection \<open>Implementations\<close>

text \<open>\<open>Box\<close>, \<open>Cell\<close>, \<open>RefCell\<close>, \<open>Rc\<close>, \<open>Arc\<close>, \<open>Cow\<close> and \<open>String\<close> have the schema of what
  they hold.\<close>

definition transparent_schema :: "BorshSchema \<Rightarrow> BorshSchema" where
  "transparent_schema T =
     \<lparr>declaration_of = declaration_of T, add_definitions_recursively = add_definitions_recursively T\<rparr>"

definition primitive_schema :: "string \<Rightarrow> u8 \<Rightarrow> BorshSchema" where
  "primitive_schema name sz =
     \<lparr>declaration_of = name, add_definitions_recursively = add_definition name (Primitive sz)\<rparr>"

text \<open>\<open>impl_for_primitives!\<close> and \<open>impl_for_renamed_primitives!\<close>: type, declaration, size.\<close>

definition primitive_table :: "(string \<times> string \<times> u8) list" where
  "primitive_table =
    [(''bool'', ''bool'', 1), (''f32'', ''f32'', 4), (''f64'', ''f64'', 8),
     (''i8'', ''i8'', 1), (''i16'', ''i16'', 2), (''i32'', ''i32'', 4), (''i64'', ''i64'', 8), (''i128'', ''i128'', 16),
     (''u8'', ''u8'', 1), (''u16'', ''u16'', 2), (''u32'', ''u32'', 4), (''u64'', ''u64'', 8), (''u128'', ''u128'', 16),
     (''isize'', ''i64'', 8), (''usize'', ''u64'', 8),
     (''NonZeroI8'', ''NonZeroI8'', 1), (''NonZeroI16'', ''NonZeroI16'', 2), (''NonZeroI32'', ''NonZeroI32'', 4),
     (''NonZeroI64'', ''NonZeroI64'', 8), (''NonZeroI128'', ''NonZeroI128'', 16),
     (''NonZeroU8'', ''NonZeroU8'', 1), (''NonZeroU16'', ''NonZeroU16'', 2), (''NonZeroU32'', ''NonZeroU32'', 4),
     (''NonZeroU64'', ''NonZeroU64'', 8), (''NonZeroU128'', ''NonZeroU128'', 16),
     (''NonZeroUsize'', ''NonZeroUsize'', 8), (''()'', ''()'', 0)]"

definition primitive_type :: "string \<Rightarrow> BorshSchema option" where
  "primitive_type ty = map_option (\<lambda>(name, sz). primitive_schema name sz) (map_of primitive_table ty)"

definition u8_schema :: BorshSchema where "u8_schema = primitive_schema ''u8'' 1"
definition bool_schema :: BorshSchema where "bool_schema = primitive_schema ''bool'' 1"
definition u32_schema :: BorshSchema where "u32_schema = primitive_schema ''u32'' 4"
definition u64_schema :: BorshSchema where "u64_schema = primitive_schema ''u64'' 8"
definition unit_schema :: BorshSchema where "unit_schema = primitive_schema ''()'' 0"

definition phantom_schema :: BorshSchema where
  "phantom_schema = transparent_schema unit_schema"

text \<open>The sequences that are prefixed by a length.\<close>

definition tagged_sequence :: "Declaration \<Rightarrow> Definition" where
  "tagged_sequence elements = Sequence DEFAULT_LENGTH_WIDTH DEFAULT_LENGTH_RANGE elements"

definition str_schema :: BorshSchema where
  "str_schema =
     \<lparr>declaration_of = ''String'',
      add_definitions_recursively =
        and_then (add_definition ''String'' (tagged_sequence (declaration_of u8_schema))) (\<lambda>_.
        add_definitions_recursively u8_schema)\<rparr>"

definition ascii_char_schema :: BorshSchema where
  "ascii_char_schema = primitive_schema ''AsciiChar'' 1"

definition ascii_str_schema :: BorshSchema where
  "ascii_str_schema =
     \<lparr>declaration_of = ''AsciiString'',
      add_definitions_recursively =
        and_then (add_definition ''AsciiString'' (tagged_sequence (declaration_of ascii_char_schema))) (\<lambda>_.
        add_definitions_recursively ascii_char_schema)\<rparr>"

definition range_full_schema :: BorshSchema where
  "range_full_schema =
     \<lparr>declaration_of = ''RangeFull'', add_definitions_recursively = add_definition ''RangeFull'' (Struct Empty)\<rparr>"

text \<open>\<open>impl_for_range!\<close>, with the name of the type and those of its bounds.\<close>

definition range_schema :: "string \<Rightarrow> string list \<Rightarrow> BorshSchema \<Rightarrow> BorshSchema" where
  "range_schema type_name names T =
     (let decl = declaration_of T;
          self = type_name @ ''<'' @ declaration_of T @ ''>''
      in \<lparr>declaration_of = self,
          add_definitions_recursively =
            and_then (add_definition self (Struct (NamedFields (List.map (\<lambda>name. (name, decl)) names)))) (\<lambda>_.
            add_definitions_recursively T)\<rparr>)"

definition array_schema :: "nat \<Rightarrow> BorshSchema \<Rightarrow> BorshSchema" where
  "array_schema N T =
     (let len = (word_of_nat N :: u64);
          self = ''['' @ declaration_of T @ ''; '' @ show_nat N @ '']''
      in \<lparr>declaration_of = self,
          add_definitions_recursively =
            and_then (if N < 2 ^ 64 then ret () else panic) (\<lambda>_.
            and_then (add_definition self (Sequence ARRAY_LENGTH_WIDTH (range_inclusive len len) (declaration_of T))) (\<lambda>_.
            add_definitions_recursively T))\<rparr>)"

definition option_schema :: "BorshSchema \<Rightarrow> BorshSchema" where
  "option_schema T =
     (let self = ''Option<'' @ declaration_of T @ ''>''
      in \<lparr>declaration_of = self,
          add_definitions_recursively =
            and_then (add_definition self
                (Enum 1 [(0, ''None'', declaration_of unit_schema), (1, ''Some'', declaration_of T)])) (\<lambda>_.
            and_then (add_definitions_recursively T) (\<lambda>_.
            add_definitions_recursively unit_schema))\<rparr>)"

definition result_schema :: "BorshSchema \<Rightarrow> BorshSchema \<Rightarrow> BorshSchema" where
  "result_schema T E =
     (let self = ''Result<'' @ declaration_of T @ '', '' @ declaration_of E @ ''>''
      in \<lparr>declaration_of = self,
          add_definitions_recursively =
            and_then (add_definition self
                (Enum 1 [(1, ''Ok'', declaration_of T), (0, ''Err'', declaration_of E)])) (\<lambda>_.
            and_then (add_definitions_recursively T) (\<lambda>_.
            add_definitions_recursively E))\<rparr>)"

text \<open>\<open>impl_for_vec_like_collection!\<close> (\<open>Vec\<close>, \<open>VecDeque\<close>, \<open>LinkedList\<close>), slices
  (\<open>Vec\<close>), \<open>HashSet\<close> and \<open>BTreeSet\<close>, with the name of the collection.\<close>

definition collection_schema :: "string \<Rightarrow> BorshSchema \<Rightarrow> BorshSchema" where
  "collection_schema type_name T =
     (let self = type_name @ ''<'' @ declaration_of T @ ''>''
      in \<lparr>declaration_of = self,
          add_definitions_recursively =
            and_then (add_definition self (tagged_sequence (declaration_of T))) (\<lambda>_.
            add_definitions_recursively T)\<rparr>)"

text \<open>\<open>impl_tuple!\<close> for one and more components.\<close>

definition tuple_declaration :: "Declaration list \<Rightarrow> Declaration" where
  "tuple_declaration params =
     (if length params = 1 then ''('' @ params ! 0 @ '',)'' else ''('' @ join '', '' params @ '')'')"

definition tuple_schema :: "BorshSchema list \<Rightarrow> BorshSchema" where
  "tuple_schema Ts =
     (let self = tuple_declaration (List.map declaration_of Ts)
      in \<lparr>declaration_of = self,
          add_definitions_recursively =
            and_then (add_definition self (Tuple (List.map declaration_of Ts))) (\<lambda>_. add_all Ts)\<rparr>)"

text \<open>\<open>HashMap\<close> and \<open>BTreeMap\<close>, with the name of the map.\<close>

definition map_schema :: "string \<Rightarrow> BorshSchema \<Rightarrow> BorshSchema \<Rightarrow> BorshSchema" where
  "map_schema type_name K V =
     (let self = type_name @ ''<'' @ declaration_of K @ '', '' @ declaration_of V @ ''>'';
          pair = tuple_schema [K, V]
      in \<lparr>declaration_of = self,
          add_definitions_recursively =
            and_then (add_definition self (tagged_sequence (declaration_of pair))) (\<lambda>_.
            add_definitions_recursively pair)\<rparr>)"

definition hash_map_schema :: "BorshSchema \<Rightarrow> BorshSchema \<Rightarrow> BorshSchema" where
  "hash_map_schema K V = map_schema ''HashMap'' K V"

definition btree_map_schema :: "BorshSchema \<Rightarrow> BorshSchema \<Rightarrow> BorshSchema" where
  "btree_map_schema K V = map_schema ''BTreeMap'' K V"

definition hash_set_schema :: "BorshSchema \<Rightarrow> BorshSchema" where
  "hash_set_schema T = collection_schema ''HashSet'' T"

definition btree_set_schema :: "BorshSchema \<Rightarrow> BorshSchema" where
  "btree_set_schema T = collection_schema ''BTreeSet'' T"

definition container_schema :: "BorshSchema \<Rightarrow> BorshSchema" where
  "container_schema Definitions =
     \<lparr>declaration_of = ''BorshSchemaContainer'',
      add_definitions_recursively =
        and_then (add_definition ''BorshSchemaContainer''
            (Struct (NamedFields [(''declaration'', declaration_of str_schema),
               (''definitions'', declaration_of Definitions)]))) (\<lambda>_.
        and_then (add_definitions_recursively str_schema) (\<lambda>_.
        add_definitions_recursively Definitions))\<rparr>"

subsection \<open>Derived implementations\<close>

text \<open>
  What \<open>#[derive(BorshSchema)]\<close> generates. A field has its attributes \<open>borsh(skip)\<close> and
  \<open>borsh(schema(with_funcs(declaration_of = ..., definitions = ...)))\<close>; \<open>params\<close> are the
  declarations of the type parameters that the generated \<open>declaration\<close> mentions.
\<close>

record schema_field =
  field_name :: string
  field_skip :: bool
  field_type :: BorshSchema
  declaration_override :: "Declaration option"
  definitions_override :: "add_effect option"

datatype item_fields =
    Named_Fields "schema_field list"
  | Unnamed_Fields "schema_field list"
  | Unit_Fields

definition derived_declaration :: "string \<Rightarrow> Declaration list \<Rightarrow> Declaration" where
  "derived_declaration ident_str params =
     (if params = [] then ident_str else ident_str @ ''<'' @ join '', '' params @ ''>'')"

definition field_declaration :: "schema_field \<Rightarrow> Declaration" where
  "field_declaration f =
     (case declaration_override f of Some path \<Rightarrow> path | None \<Rightarrow> declaration_of (field_type f))"

definition field_definitions :: "schema_field \<Rightarrow> add_effect" where
  "field_definitions f =
     (case definitions_override f of Some path \<Rightarrow> path
      | None \<Rightarrow> add_definitions_recursively (field_type f))"

text \<open>\<open>process_fields\<close>: the definition's fields and the fields that are visited.\<close>

fun process_fields :: "item_fields \<Rightarrow> Fields \<times> schema_field list" where
  "process_fields (Named_Fields fs) =
     (let kept = filter (\<lambda>f. \<not> field_skip f) fs
      in (if kept = [] then Empty else NamedFields (List.map (\<lambda>f. (field_name f, field_declaration f)) kept), kept))"
| "process_fields (Unnamed_Fields fs) =
     (let kept = filter (\<lambda>f. \<not> field_skip f) fs
      in (if kept = [] then Empty else UnnamedFields (List.map field_declaration kept), kept))"
| "process_fields Unit_Fields = (Empty, [])"

definition derived_struct_schema :: "string \<Rightarrow> Declaration list \<Rightarrow> item_fields \<Rightarrow> BorshSchema" where
  "derived_struct_schema ident params item =
     (let self = derived_declaration ident params;
          fields = fst (process_fields item)
      in \<lparr>declaration_of = self,
          add_definitions_recursively = (\<lambda>definitions.
            let no_recursion_flag = (map_of definitions self = None)
            in and_then (add_definition self (Struct fields)) (\<lambda>_.
                 if no_recursion_flag then for_each field_definitions (snd (process_fields item)) else ret ())
               definitions)\<rparr>)"

record schema_variant =
  variant_name :: string
  variant_discriminant :: u8
  variant_params :: "Declaration list"
  variant_fields :: item_fields

text \<open>Each variant becomes a struct of its own, named after the enum and the variant.\<close>

definition variant_schema :: "string \<Rightarrow> schema_variant \<Rightarrow> BorshSchema" where
  "variant_schema enum_name v =
     derived_struct_schema (enum_name @ variant_name v) (variant_params v) (variant_fields v)"

definition derived_enum_schema :: "string \<Rightarrow> Declaration list \<Rightarrow> schema_variant list \<Rightarrow> BorshSchema" where
  "derived_enum_schema ident params vs =
     (let self = derived_declaration ident params
      in \<lparr>declaration_of = self,
          add_definitions_recursively =
            and_then (add_all (List.map (variant_schema ident) vs)) (\<lambda>_.
            add_definition self (Enum 1 (List.map
              (\<lambda>v. (ucast (variant_discriminant v), variant_name v, declaration_of (variant_schema ident v))) vs)))\<rparr>)"

definition plain_field :: "string \<Rightarrow> BorshSchema \<Rightarrow> schema_field" where
  "plain_field name T = \<lparr>field_name = name, field_skip = False, field_type = T,
     declaration_override = None, definitions_override = None\<rparr>"

text \<open>The derived schemas of the address types (\<open>ip_addr_std_derive_impl\<close>).\<close>

definition ipv4_schema :: BorshSchema where
  "ipv4_schema = derived_struct_schema ''Ipv4Addr'' [] (Named_Fields [plain_field ''octets'' (array_schema 4 u8_schema)])"

definition ipv6_schema :: BorshSchema where
  "ipv6_schema = derived_struct_schema ''Ipv6Addr'' [] (Named_Fields [plain_field ''octets'' (array_schema 16 u8_schema)])"

definition ip_schema :: BorshSchema where
  "ip_schema = derived_enum_schema ''IpAddr'' []
     [\<lparr>variant_name = ''V4'', variant_discriminant = 0, variant_params = [],
       variant_fields = Unnamed_Fields [plain_field '''' (transparent_schema ipv4_schema)]\<rparr>,
      \<lparr>variant_name = ''V6'', variant_discriminant = 1, variant_params = [],
       variant_fields = Unnamed_Fields [plain_field '''' (transparent_schema ipv6_schema)]\<rparr>]"

text \<open>The implementations for the types of the standard library delegate to them.\<close>

definition std_ipv4_schema :: BorshSchema where "std_ipv4_schema = transparent_schema ipv4_schema"
definition std_ipv6_schema :: BorshSchema where "std_ipv6_schema = transparent_schema ipv6_schema"
definition std_ip_schema :: BorshSchema where "std_ip_schema = transparent_schema ip_schema"

text \<open>The derived schema of \<open>Definition\<close> itself.\<close>

definition fields_schema :: BorshSchema where
  "fields_schema = derived_enum_schema ''Fields'' []
     [\<lparr>variant_name = ''NamedFields'', variant_discriminant = 0, variant_params = [],
       variant_fields = Unnamed_Fields [plain_field '''' (collection_schema ''Vec'' (tuple_schema [str_schema, str_schema]))]\<rparr>,
      \<lparr>variant_name = ''UnnamedFields'', variant_discriminant = 1, variant_params = [],
       variant_fields = Unnamed_Fields [plain_field '''' (collection_schema ''Vec'' str_schema)]\<rparr>,
      \<lparr>variant_name = ''Empty'', variant_discriminant = 2, variant_params = [], variant_fields = Unit_Fields\<rparr>]"

definition definition_schema :: BorshSchema where
  "definition_schema = derived_enum_schema ''Definition'' []
     [\<lparr>variant_name = ''Primitive'', variant_discriminant = 0, variant_params = [],
       variant_fields = Unnamed_Fields [plain_field '''' u8_schema]\<rparr>,
      \<lparr>variant_name = ''Sequence'', variant_discriminant = 1, variant_params = [],
       variant_fields = Named_Fields [plain_field ''length_width'' u8_schema,
         plain_field ''length_range'' (range_schema ''RangeInclusive'' [''start'', ''end''] u64_schema),
         plain_field ''elements'' str_schema]\<rparr>,
      \<lparr>variant_name = ''Tuple'', variant_discriminant = 2, variant_params = [],
       variant_fields = Named_Fields [plain_field ''elements'' (collection_schema ''Vec'' str_schema)]\<rparr>,
      \<lparr>variant_name = ''Enum'', variant_discriminant = 3, variant_params = [],
       variant_fields = Named_Fields [plain_field ''tag_width'' u8_schema,
         plain_field ''variants'' (collection_schema ''Vec'' (tuple_schema [primitive_schema ''i64'' 8, str_schema, str_schema]))]\<rparr>,
      \<lparr>variant_name = ''Struct'', variant_discriminant = 4, variant_params = [],
       variant_fields = Named_Fields [plain_field ''fields'' fields_schema]\<rparr>]"

end
