(* ===== verification/Schema_Laws.thy ===== *)
theory Schema_Laws
  imports Schema_Model Borsh_Collection_Laws Borsh_Composite_Laws
begin

section \<open>Laws of schemas\<close>

text \<open>
  What an implementation of \<open>BorshSchema\<close> promises (locale \<open>schema_impl\<close>): adding its
  definitions returns or panics, keeps every definition that is there, and leaves no
  new definition with a reference to a missing one; adding them again changes nothing.
  \<open>encodes\<close> is the meaning of a schema, the byte strings that a declaration describes,
  and \<open>described_impl\<close> says that the encoder of a type produces such strings.
\<close>

subsection \<open>Tables of definitions\<close>

definition ordered :: "definitions \<Rightarrow> bool" where
  "ordered d \<longleftrightarrow> sorted_wrt (<) (List.map fst d)"

fun refs :: "Definition \<Rightarrow> Declaration list" where
  "refs (Primitive _) = []"
| "refs (Sequence _ _ e) = [e]"
| "refs (Tuple es) = es"
| "refs (Enum _ vs) = List.map (\<lambda>(_, _, v). v) vs"
| "refs (Struct (NamedFields fs)) = List.map snd fs"
| "refs (Struct (UnnamedFields es)) = es"
| "refs (Struct Empty) = []"

lemma refs_tagged [simp]: "refs (tagged_sequence e) = [e]"
  by (simp add: tagged_sequence_def)

text \<open>
  \<open>adds m R P\<close>: \<open>m\<close> returns or panics; when it returns, the table has grown, defines all
  of \<open>R\<close>, and the new definitions refer to the table or to \<open>P\<close>.
\<close>

definition grows :: "definitions \<Rightarrow> definitions \<Rightarrow> bool" where
  "grows d d' \<longleftrightarrow> ordered d' \<and> map_of d \<subseteq>\<^sub>m map_of d'"

definition new_refs :: "definitions \<Rightarrow> definitions \<Rightarrow> Declaration set" where
  "new_refs d d' = (\<Union>k\<in>dom (map_of d') - dom (map_of d). set (refs (the (map_of d' k))))"

definition adds :: "add_effect \<Rightarrow> Declaration set \<Rightarrow> Declaration set \<Rightarrow> bool" where
  "adds m R P \<longleftrightarrow> (\<forall>d. ordered d \<longrightarrow>
     (\<exists>d'. m d = Some (Ok (), d') \<and> grows d d' \<and> R \<subseteq> dom (map_of d') \<and>
        new_refs d d' \<subseteq> dom (map_of d') \<union> P) \<or>
     (\<exists>d'. m d = Some (Panic, d')))"

text \<open>\<open>stable m\<close>: once \<open>m\<close> has returned, it changes no larger table.\<close>

definition stable :: "add_effect \<Rightarrow> bool" where
  "stable m \<longleftrightarrow> (\<forall>d d' e. ordered d \<longrightarrow> m d = Some (Ok (), d') \<longrightarrow> grows d' e \<longrightarrow> m e = Some (Ok (), e))"

lemma grows_refl [simp]: "ordered d \<Longrightarrow> grows d d"
  by (simp add: grows_def)

lemma grows_trans: "grows d d' \<Longrightarrow> grows d' d'' \<Longrightarrow> grows d d''"
  by (auto simp: grows_def intro: map_le_trans)

lemma grows_dom: "grows d d' \<Longrightarrow> dom (map_of d) \<subseteq> dom (map_of d')"
  by (auto simp: grows_def dest: map_le_implies_dom_le)

lemma grows_lookup: "grows d d' \<Longrightarrow> map_of d k = Some v \<Longrightarrow> map_of d' k = Some v"
  by (auto simp: grows_def map_le_def dom_def)

lemma new_refs_iff: "x \<in> new_refs d d' \<longleftrightarrow>
    (\<exists>k def. map_of d' k = Some def \<and> map_of d k = None \<and> x \<in> set (refs def))"
  by (force simp: new_refs_def)

lemma new_refs_trans:
  assumes "grows d' d''"
  shows "new_refs d d'' \<subseteq> new_refs d d' \<union> new_refs d' d''"
proof
  fix x assume "x \<in> new_refs d d''"
  then obtain k def where k: "map_of d'' k = Some def" "map_of d k = None" "x \<in> set (refs def)"
    by (auto simp: new_refs_iff)
  show "x \<in> new_refs d d' \<union> new_refs d' d''"
  proof (cases "map_of d' k")
    case None
    with k show ?thesis by (auto simp: new_refs_iff)
  next
    case (Some def')
    with grows_lookup [OF assms] k(1) have "def' = def" by fastforce
    with Some k show ?thesis by (auto simp: new_refs_iff)
  qed
qed

lemma add_new:
  assumes "ordered d" and "map_of d k = None"
  shows "map_of (btree_map_insert k v d) = (map_of d)(k \<mapsto> v)" and "grows d (btree_map_insert k v d)"
proof -
  show m: "map_of (btree_map_insert k v d) = (map_of d)(k \<mapsto> v)"
    using assms(1) by (simp add: ordered_def map_of_insert)
  have "ordered (btree_map_insert k v d)" using assms(1) by (simp only: ordered_def sorted_insert)
  moreover have "map_of d \<subseteq>\<^sub>m (map_of d)(k \<mapsto> v)" using assms(2) by (auto simp: map_le_def dom_def)
  ultimately show "grows d (btree_map_insert k v d)" by (simp add: grows_def m)
qed

lemma adds_definition: "adds (add_definition k def) {k} (set (refs def))"
proof -
  have "(\<exists>d'. add_definition k def d = Some (Ok (), d') \<and> grows d d' \<and> {k} \<subseteq> dom (map_of d') \<and>
        new_refs d d' \<subseteq> dom (map_of d') \<union> set (refs def)) \<or>
     (\<exists>d'. add_definition k def d = Some (Panic, d'))" if d: "ordered d" for d
  proof (cases "map_of d k")
    case None
    note new = add_new [OF d None, of def]
    have "new_refs d (btree_map_insert k def d) \<subseteq> set (refs def)"
      using None by (auto simp: new_refs_iff new(1) split: if_splits)
    with None new show ?thesis by (auto simp: add_definition_def)
  next
    case (Some def')
    with d show ?thesis by (auto simp: add_definition_def new_refs_def)
  qed
  then show ?thesis by (simp add: adds_def)
qed

lemma adds_ret: "adds (ret ()) {} P"
  by (auto simp: adds_def ret_def new_refs_def)

lemma adds_panic: "adds panic R P"
  by (auto simp: adds_def panic_def)

lemma adds_then:
  assumes m: "adds m R P" and k: "adds k R' P'" and P: "P \<subseteq> R' \<union> Q" "P' \<subseteq> R \<union> Q"
  shows "adds (and_then m (\<lambda>_. k)) (R \<union> R') Q"
  unfolding adds_def
proof (intro allI impI)
  fix d assume d: "ordered d"
  from m [unfolded adds_def, rule_format, OF d] consider
      (ret) d1 where "m d = Some (Ok (), d1)" "grows d d1" "R \<subseteq> dom (map_of d1)"
        "new_refs d d1 \<subseteq> dom (map_of d1) \<union> P"
    | (panic) d1 where "m d = Some (Panic, d1)" by blast
  then show "(\<exists>d'. and_then m (\<lambda>_. k) d = Some (Ok (), d') \<and> grows d d' \<and> R \<union> R' \<subseteq> dom (map_of d') \<and>
        new_refs d d' \<subseteq> dom (map_of d') \<union> Q) \<or>
     (\<exists>d'. and_then m (\<lambda>_. k) d = Some (Panic, d'))"
  proof cases
    case ret
    then have "ordered d1" by (simp add: grows_def)
    from k [unfolded adds_def, rule_format, OF this] consider
        (ret') d2 where "k d1 = Some (Ok (), d2)" "grows d1 d2" "R' \<subseteq> dom (map_of d2)"
          "new_refs d1 d2 \<subseteq> dom (map_of d2) \<union> P'"
      | (panic') d2 where "k d1 = Some (Panic, d2)" by blast
    then show ?thesis
    proof cases
      case ret'
      have "dom (map_of d1) \<subseteq> dom (map_of d2)" using ret'(2) by (rule grows_dom)
      with ret(3,4) ret'(3,4) P new_refs_trans [OF ret'(2), of d]
      have "R \<union> R' \<subseteq> dom (map_of d2)" and "new_refs d d2 \<subseteq> dom (map_of d2) \<union> Q" by blast+
      moreover have "grows d d2" using ret(2) ret'(2) by (rule grows_trans)
      moreover have "and_then m (\<lambda>_. k) d = Some (Ok (), d2)" using ret(1) ret'(1) by (simp add: and_then_eval)
      ultimately show ?thesis by blast
    next
      case panic'
      with ret(1) show ?thesis by (auto simp: and_then_eval)
    qed
  next
    case panic
    then show ?thesis by (auto simp: and_then_eval)
  qed
qed

lemma adds_mono: "adds m R P \<Longrightarrow> R' \<subseteq> R \<Longrightarrow> P \<subseteq> P' \<Longrightarrow> adds m R' P'"
  unfolding adds_def by (meson Un_mono order_trans subset_refl)

lemma adds_each:
  assumes "\<And>x. x \<in> set xs \<Longrightarrow> adds (f x) (R x) {}"
  shows "adds (for_each f xs) (\<Union>x\<in>set xs. R x) {}"
  using assms
proof (induction xs)
  case Nil
  then show ?case by (simp add: adds_ret)
next
  case (Cons x xs)
  then have "adds (f x) (R x) {}" and "adds (for_each f xs) (\<Union>x\<in>set xs. R x) {}" by auto
  from adds_then [OF this, of "{}"] show ?case by simp
qed

lemma adds_Ok: "adds m R P \<Longrightarrow> ordered d \<Longrightarrow> m d = Some (Ok (), d') \<Longrightarrow>
    grows d d' \<and> R \<subseteq> dom (map_of d') \<and> new_refs d d' \<subseteq> dom (map_of d') \<union> P"
  by (fastforce simp: adds_def)

lemma stable_definition: "stable (add_definition k def)"
proof -
  have "add_definition k def e = Some (Ok (), e)"
    if "ordered d" and "add_definition k def d = Some (Ok (), d')" and "grows d' e" for d d' e
  proof -
    have "map_of d' k = Some def"
      using that(1,2) add_new(1) [of d k def]
      by (auto simp: add_definition_def split: option.splits if_splits)
    with that(3) have "map_of e k = Some def" by (rule grows_lookup)
    then show ?thesis by (simp add: add_definition_def)
  qed
  then show ?thesis unfolding stable_def by blast
qed

lemma stable_ret: "stable (ret ())"
  by (simp add: stable_def ret_def)

lemma stable_panic: "stable panic"
  by (simp add: stable_def panic_def)

lemma stable_then:
  assumes "adds m R P" and "stable m" and "adds k R' P'" and "stable k"
  shows "stable (and_then m (\<lambda>_. k))"
  unfolding stable_def
proof (intro allI impI)
  fix d d' e assume d: "ordered d" and "and_then m (\<lambda>_. k) d = Some (Ok (), d')" and e: "grows d' e"
  then obtain d1 where m: "m d = Some (Ok (), d1)" and k: "k d1 = Some (Ok (), d')"
    by (auto simp: and_then_Ok_iff)
  from adds_Ok [OF assms(1) d m] have d1: "grows d d1" by blast
  then have "ordered d1" by (simp add: grows_def)
  with adds_Ok [OF assms(3) _ k] have "grows d1 d'" by blast
  then have "grows d1 e" using e by (rule grows_trans)
  with assms(2) d m have "m e = Some (Ok (), e)" unfolding stable_def by blast
  moreover from assms(4) \<open>ordered d1\<close> k e have "k e = Some (Ok (), e)" unfolding stable_def by blast
  ultimately show "and_then m (\<lambda>_. k) e = Some (Ok (), e)" by (simp add: and_then_eval)
qed

lemma stable_each:
  assumes "\<And>x. x \<in> set xs \<Longrightarrow> adds (f x) (R x) {}" and "\<And>x. x \<in> set xs \<Longrightarrow> stable (f x)"
  shows "stable (for_each f xs)"
  using assms
proof (induction xs)
  case Nil
  then show ?case by (simp add: stable_ret)
next
  case (Cons x xs)
  have "adds (for_each f xs) (\<Union>x\<in>set xs. R x) {}" by (rule adds_each) (simp add: Cons.prems)
  moreover have "stable (for_each f xs)" by (rule Cons.IH) (simp_all add: Cons.prems)
  ultimately show ?case
    using stable_then [of "f x" "R x" "{}" "for_each f xs" "\<Union>x\<in>set xs. R x" "{}"] Cons.prems by simp
qed

subsection \<open>The contract of \<open>BorshSchema\<close>\<close>

locale schema_impl =
  fixes B :: BorshSchema
  assumes adds_impl: "adds (add_definitions_recursively B) {declaration_of B} {}"
    and stable_impl: "stable (add_definitions_recursively B)"
begin

text \<open>The schema of a type has a definition for its declaration and for every reference.\<close>

lemma for_type_closed:
  assumes "for_type B = Some (Ok c)"
  shows "container_declaration c = declaration_of B" "ordered (container_definitions c)"
    "get_definition c (declaration_of B) \<noteq> None"
    "get_definition c k = Some def \<Longrightarrow> r \<in> set (refs def) \<Longrightarrow> get_definition c r \<noteq> None"
proof -
  from assms obtain d where d: "add_definitions_recursively B [] = Some (Ok (), d)"
    and c: "c = container_new (declaration_of B) d"
    by (auto simp: for_type_def split: option.splits prod.splits outcome.splits)
  have a: "grows [] d \<and> {declaration_of B} \<subseteq> dom (map_of d) \<and> new_refs [] d \<subseteq> dom (map_of d)"
    using adds_Ok [OF adds_impl _ d] by (simp add: ordered_def)
  show "container_declaration c = declaration_of B" by (simp add: c container_new_def)
  show "ordered (container_definitions c)" using a by (simp add: c container_new_def grows_def)
  show "get_definition c (declaration_of B) \<noteq> None" using a by (auto simp: c container_new_def get_definition_def)
  show "get_definition c r \<noteq> None" if "get_definition c k = Some def" "r \<in> set (refs def)"
  proof -
    from that have "r \<in> new_refs [] d" by (auto simp: c container_new_def get_definition_def new_refs_iff)
    with a have "r \<in> dom (map_of d)" by blast
    then show ?thesis by (auto simp: c container_new_def get_definition_def)
  qed
qed

lemma returns_or_panics: "(\<exists>c. for_type B = Some (Ok c)) \<or> for_type B = Some Panic"
proof -
  have "ordered []" by (simp add: ordered_def)
  from adds_impl [unfolded adds_def, rule_format, OF this] show ?thesis
    by (auto simp: for_type_def)
qed

end

text \<open>A table entry followed by the entries of the types it refers to.\<close>

lemma entry_impl:
  assumes "adds k R' {}" and "stable k" and "set (refs def) \<subseteq> R'"
  shows "adds (and_then (add_definition self def) (\<lambda>_. k)) {self} {}"
    and "stable (and_then (add_definition self def) (\<lambda>_. k))"
proof -
  have "adds (and_then (add_definition self def) (\<lambda>_. k)) ({self} \<union> R') {}"
    by (rule adds_then [OF adds_definition assms(1)]) (use assms(3) in auto)
  then show "adds (and_then (add_definition self def) (\<lambda>_. k)) {self} {}" by (rule adds_mono) simp_all
  show "stable (and_then (add_definition self def) (\<lambda>_. k))"
    by (rule stable_then [OF adds_definition stable_definition assms(1,2)])
qed

lemma entry_schema_impl:
  assumes "B = \<lparr>declaration_of = self, add_definitions_recursively = and_then (add_definition self def) (\<lambda>_. k)\<rparr>"
    and "adds k R' {}" and "stable k" and "set (refs def) \<subseteq> R'"
  shows "schema_impl B"
  using entry_impl [OF assms(2-4)] by unfold_locales (simp_all add: assms(1))

lemma leaf_schema_impl:
  assumes "B = \<lparr>declaration_of = self, add_definitions_recursively = add_definition self def\<rparr>"
    and "refs def = []"
  shows "schema_impl B"
  using adds_definition [of self def] stable_definition by unfold_locales (simp_all add: assms)

lemma primitive_schema_impl: "schema_impl (primitive_schema name n)"
  unfolding primitive_schema_def by (rule leaf_schema_impl [OF refl]) simp

lemma transparent_schema_impl: "schema_impl T \<Longrightarrow> schema_impl (transparent_schema T)"
  by (cases T) (simp add: transparent_schema_def)

lemma known_schema_impls:
  "schema_impl u8_schema" "schema_impl bool_schema" "schema_impl u32_schema" "schema_impl u64_schema"
  "schema_impl unit_schema" "schema_impl ascii_char_schema"
  by (simp_all add: u8_schema_def bool_schema_def u32_schema_def u64_schema_def unit_schema_def
      ascii_char_schema_def primitive_schema_impl)

interpretation u8_B: schema_impl u8_schema by (rule known_schema_impls)
interpretation bool_B: schema_impl bool_schema by (rule known_schema_impls)
interpretation u32_B: schema_impl u32_schema by (rule known_schema_impls)
interpretation u64_B: schema_impl u64_schema by (rule known_schema_impls)
interpretation unit_B: schema_impl unit_schema by (rule known_schema_impls)
interpretation ascii_char_B: schema_impl ascii_char_schema by (rule known_schema_impls)

lemma phantom_schema_impl: "schema_impl phantom_schema"
  unfolding phantom_schema_def by (rule transparent_schema_impl) (rule known_schema_impls)

lemma range_full_schema_impl: "schema_impl range_full_schema"
  unfolding range_full_schema_def by (rule leaf_schema_impl [OF refl]) simp

lemma str_schema_impl: "schema_impl str_schema"
  unfolding str_schema_def
  by (rule entry_schema_impl [OF refl u8_B.adds_impl u8_B.stable_impl]) simp

lemma ascii_str_schema_impl: "schema_impl ascii_str_schema"
  unfolding ascii_str_schema_def
  by (rule entry_schema_impl [OF refl ascii_char_B.adds_impl ascii_char_B.stable_impl]) simp

interpretation str_B: schema_impl str_schema by (rule str_schema_impl)

lemma range_schema_impl: "schema_impl T \<Longrightarrow> schema_impl (range_schema name bounds T)"
  unfolding range_schema_def Let_def
  by (rule entry_schema_impl [OF refl schema_impl.adds_impl schema_impl.stable_impl]) auto

lemma array_schema_impl:
  assumes T: "schema_impl T"
  shows "schema_impl (array_schema N T)"
proof (cases "N < 2 ^ 64")
  case True
  show ?thesis
    unfolding array_schema_def Let_def if_P [OF True] and_then_ret
    by (rule entry_schema_impl [OF refl schema_impl.adds_impl [OF T] schema_impl.stable_impl [OF T]]) simp
next
  case False
  then show ?thesis
    by unfold_locales (simp_all add: array_schema_def Let_def adds_panic stable_panic)
qed

lemma option_schema_impl:
  assumes T: "schema_impl T"
  shows "schema_impl (option_schema T)"
  unfolding option_schema_def Let_def
  by (rule entry_schema_impl [OF refl adds_then [OF schema_impl.adds_impl [OF T] unit_B.adds_impl empty_subsetI empty_subsetI]
        stable_then [OF schema_impl.adds_impl [OF T] schema_impl.stable_impl [OF T] unit_B.adds_impl unit_B.stable_impl]])
    simp_all

lemma result_schema_impl:
  assumes T: "schema_impl T" and E: "schema_impl E"
  shows "schema_impl (result_schema T E)"
  unfolding result_schema_def Let_def
  by (rule entry_schema_impl [OF refl adds_then [OF schema_impl.adds_impl [OF T] schema_impl.adds_impl [OF E] empty_subsetI empty_subsetI]
        stable_then [OF schema_impl.adds_impl [OF T] schema_impl.stable_impl [OF T]
          schema_impl.adds_impl [OF E] schema_impl.stable_impl [OF E]]])
    simp_all

lemma collection_schema_impl: "schema_impl T \<Longrightarrow> schema_impl (collection_schema name T)"
  unfolding collection_schema_def Let_def
  by (rule entry_schema_impl [OF refl schema_impl.adds_impl schema_impl.stable_impl]) simp_all

lemma add_all_impl:
  assumes "\<forall>T\<in>set Ts. schema_impl T"
  shows "adds (add_all Ts) (declaration_of ` set Ts) {}" and "stable (add_all Ts)"
proof -
  have "adds (add_all Ts) (\<Union>T\<in>set Ts. {declaration_of T}) {}"
    unfolding add_all_def using assms by (intro adds_each) (simp add: schema_impl.adds_impl)
  then show "adds (add_all Ts) (declaration_of ` set Ts) {}" by (rule adds_mono) auto
  show "stable (add_all Ts)"
    unfolding add_all_def using assms
    by (intro stable_each [where R = "\<lambda>T. {declaration_of T}"]) (simp_all add: schema_impl.adds_impl schema_impl.stable_impl)
qed

lemma tuple_schema_impl: "\<forall>T\<in>set Ts. schema_impl T \<Longrightarrow> schema_impl (tuple_schema Ts)"
  unfolding tuple_schema_def Let_def
  by (rule entry_schema_impl [OF refl add_all_impl]) simp_all

lemma map_schema_impl:
  assumes "schema_impl K" and "schema_impl V"
  shows "schema_impl (map_schema name K V)"
proof -
  have pair: "schema_impl (tuple_schema [K, V])" by (rule tuple_schema_impl) (simp add: assms)
  show ?thesis
    unfolding map_schema_def Let_def
    by (rule entry_schema_impl [OF refl schema_impl.adds_impl [OF pair] schema_impl.stable_impl [OF pair]]) simp
qed

subsection \<open>Derived implementations\<close>

definition field_lawful :: "schema_field \<Rightarrow> bool" where
  "field_lawful f \<longleftrightarrow> adds (field_definitions f) {field_declaration f} {} \<and> stable (field_definitions f)"

lemma plain_field_lawful: "schema_impl T \<Longrightarrow> field_lawful (plain_field name T)"
  by (simp add: field_lawful_def plain_field_def field_definitions_def field_declaration_def
      schema_impl.adds_impl schema_impl.stable_impl)

lemma process_fields_refs:
  "set (refs (Struct (fst (process_fields item)))) = field_declaration ` set (snd (process_fields item))"
  by (cases item) (auto simp: Let_def image_image filter_empty_conv)

lemma derived_struct_schema_impl:
  assumes lawful: "\<forall>f\<in>set (snd (process_fields item)). field_lawful f"
  shows "schema_impl (derived_struct_schema ident params item)"
proof -
  let ?B = "derived_struct_schema ident params item" and ?self = "derived_declaration ident params"
  let ?def = "Struct (fst (process_fields item))" and ?fs = "snd (process_fields item)"
  let ?each = "for_each field_definitions ?fs"
  have each: "adds ?each (\<Union>f\<in>set ?fs. {field_declaration f}) {}" "stable ?each"
    using lawful by (auto simp: field_lawful_def intro!: adds_each stable_each)
  note full = entry_impl [OF each, of ?def ?self]
  have refs: "set (refs ?def) \<subseteq> (\<Union>f\<in>set ?fs. {field_declaration f})" using process_fields_refs by auto
  have new: "add_definitions_recursively ?B d = and_then (add_definition ?self ?def) (\<lambda>_. ?each) d"
    if "map_of d ?self = None" for d
    using that by (simp add: derived_struct_schema_def Let_def)
  have old: "add_definitions_recursively ?B d = add_definition ?self ?def d"
    if "map_of d ?self \<noteq> None" for d
    using that by (auto simp: derived_struct_schema_def Let_def)
  have self: "declaration_of ?B = ?self" by (simp add: derived_struct_schema_def Let_def)
  show ?thesis
  proof
    show "adds (add_definitions_recursively ?B) {declaration_of ?B} {}"
      unfolding adds_def self
    proof (intro allI impI)
      fix d assume d: "ordered d"
      show "(\<exists>d'. add_definitions_recursively ?B d = Some (Ok (), d') \<and> grows d d' \<and> {?self} \<subseteq> dom (map_of d') \<and>
            new_refs d d' \<subseteq> dom (map_of d') \<union> {}) \<or> (\<exists>d'. add_definitions_recursively ?B d = Some (Panic, d'))"
      proof (cases "map_of d ?self")
        case None
        with full(1) [OF refs] d new show ?thesis unfolding adds_def by simp
      next
        case (Some def)
        with d old [of d] show ?thesis by (simp add: add_definition_def new_refs_def dom_def)
      qed
    qed
    show "stable (add_definitions_recursively ?B)"
      unfolding stable_def
    proof (intro allI impI)
      fix d d' e
      assume d: "ordered d" and r: "add_definitions_recursively ?B d = Some (Ok (), d')" and e: "grows d' e"
      have "map_of d' ?self = Some ?def"
      proof (cases "map_of d ?self")
        case None
        with r new obtain d1 where "add_definition ?self ?def d = Some (Ok (), d1)" and "?each d1 = Some (Ok (), d')"
          by (auto simp: and_then_Ok_iff)
        moreover from None this(1) have "map_of d1 ?self = Some ?def" "ordered d1"
          using add_new [OF d None, of ?def] by (auto simp: add_definition_def grows_def)
        ultimately show ?thesis using adds_Ok [OF each(1)] grows_lookup by blast
      next
        case (Some def)
        with r old show ?thesis by (auto simp: add_definition_def split: if_splits)
      qed
      with e have "map_of e ?self = Some ?def" by (blast dest: grows_lookup)
      then show "add_definitions_recursively ?B e = Some (Ok (), e)"
        using old [of e] by (simp add: add_definition_def)
    qed
  qed
qed

lemma derived_enum_schema_impl:
  assumes "\<forall>v\<in>set vs. schema_impl (variant_schema ident v)"
  shows "schema_impl (derived_enum_schema ident params vs)"
proof -
  let ?self = "derived_declaration ident params" and ?Vs = "List.map (variant_schema ident) vs"
  let ?def = "Enum 1 (List.map (\<lambda>v. (ucast (variant_discriminant v), variant_name v,
    declaration_of (variant_schema ident v))) vs)"
  have "\<forall>T\<in>set ?Vs. schema_impl T" using assms by simp
  note all = add_all_impl [OF this]
  have entry: "adds (add_definition ?self ?def) {?self} (declaration_of ` set ?Vs)"
    by (rule adds_mono [OF adds_definition]) auto
  have B: "add_definitions_recursively (derived_enum_schema ident params vs) =
      and_then (add_all ?Vs) (\<lambda>_. add_definition ?self ?def)"
    by (simp add: derived_enum_schema_def Let_def)
  have self: "declaration_of (derived_enum_schema ident params vs) = ?self"
    by (simp add: derived_enum_schema_def Let_def)
  have "adds (and_then (add_all ?Vs) (\<lambda>_. add_definition ?self ?def)) (declaration_of ` set ?Vs \<union> {?self}) {}"
    by (rule adds_then [OF all(1) entry]) auto
  then have sum: "adds (and_then (add_all ?Vs) (\<lambda>_. add_definition ?self ?def)) {?self} {}"
    by (rule adds_mono) auto
  have "stable (and_then (add_all ?Vs) (\<lambda>_. add_definition ?self ?def))"
    by (rule stable_then [OF all entry stable_definition])
  with sum show ?thesis unfolding schema_impl_def B self by blast
qed

lemma address_schema_impls:
  "schema_impl ipv4_schema" "schema_impl ipv6_schema" "schema_impl ip_schema"
proof -
  note arr = array_schema_impl [OF known_schema_impls(1)]
  show v4: "schema_impl ipv4_schema" and v6: "schema_impl ipv6_schema"
    unfolding ipv4_schema_def ipv6_schema_def
    by (rule derived_struct_schema_impl, use plain_field_lawful [OF arr] in simp)+
  show "schema_impl ip_schema"
    unfolding ip_schema_def
    by (rule derived_enum_schema_impl)
      (use plain_field_lawful [OF transparent_schema_impl] v4 v6 in
        \<open>auto simp: variant_schema_def Let_def split: if_splits intro!: derived_struct_schema_impl\<close>)
qed

end
