(* ===== verification/Schema_Meaning.thy ===== *)
theory Schema_Meaning
  imports Schema_Laws
begin

section \<open>The meaning of schemas\<close>

text \<open>
  \<open>encodes D decl bs\<close>: by the definitions \<open>D\<close>, \<open>bs\<close> is an encoding of a value of the type
  declared as \<open>decl\<close>, as the documentation of \<open>Definition\<close> describes the wire format.
  The locale \<open>described_impl\<close> ties it to the codec: what the encoder of a type writes is an
  encoding for the schema of the type.
\<close>

inductive encodes :: "(Declaration \<rightharpoonup> Definition) \<Rightarrow> Declaration \<Rightarrow> bytes \<Rightarrow> bool"
  and encodes_all :: "(Declaration \<rightharpoonup> Definition) \<Rightarrow> Declaration list \<Rightarrow> bytes \<Rightarrow> bool"
  for D where
  primitive: "D decl = Some (Primitive n) \<Longrightarrow> length bs = unat n \<Longrightarrow> encodes D decl bs"
| sequence: "D decl = Some (Sequence width rng el) \<Longrightarrow>
     unat (range_start rng) \<le> n \<Longrightarrow> n \<le> unat (range_end rng) \<Longrightarrow>
     width = 0 \<or> n < 256 ^ unat width \<Longrightarrow>
     encodes_all D (replicate n el) bs \<Longrightarrow> encodes D decl (le_bytes (unat width) n @ bs)"
| tuple: "D decl = Some (Tuple els) \<Longrightarrow> encodes_all D els bs \<Longrightarrow> encodes D decl bs"
| enum: "D decl = Some (Enum width vs) \<Longrightarrow> (tag, name, v) \<in> set vs \<Longrightarrow>
     encodes D v bs \<Longrightarrow> encodes D decl (le_bytes (unat width) (unat tag) @ bs)"
| struct: "D decl = Some (Struct flds) \<Longrightarrow> encodes_all D (refs (Struct flds)) bs \<Longrightarrow>
     encodes D decl bs"
| none: "encodes_all D [] []"
| more: "encodes D decl bs \<Longrightarrow> encodes_all D decls bs' \<Longrightarrow> encodes_all D (decl # decls) (bs @ bs')"

inductive_cases encodes_elim: "encodes D decl bs"
inductive_cases all_none_elim [elim!]: "encodes_all D [] bs"
inductive_cases all_more_elim [elim!]: "encodes_all D (decl # decls) bs"

lemma encodes_mono_both:
  assumes "D \<subseteq>\<^sub>m D'"
  shows "encodes D decl bs \<Longrightarrow> encodes D' decl bs" and "encodes_all D decls bs' \<Longrightarrow> encodes_all D' decls bs'"
proof -
  have le: "D k = Some v \<Longrightarrow> D' k = Some v" for k v
    using assms by (auto simp: map_le_def dom_def)
  show "encodes D decl bs \<Longrightarrow> encodes D' decl bs" and "encodes_all D decls bs' \<Longrightarrow> encodes_all D' decls bs'"
    by (induction rule: encodes_encodes_all.inducts) (auto intro: encodes_encodes_all.intros dest: le)
qed

lemma encodes_mono: "encodes D decl bs \<Longrightarrow> D \<subseteq>\<^sub>m D' \<Longrightarrow> encodes D' decl bs"
  using encodes_mono_both(1) by blast

lemma encodes_all_each:
  "length bss = length decls \<Longrightarrow> (\<And>i. i < length decls \<Longrightarrow> encodes D (decls ! i) (bss ! i)) \<Longrightarrow>
   encodes_all D decls (concat bss)"
proof (induction bss decls rule: list_induct2)
  case (Cons bs bss decl decls)
  have "encodes D decl bs" using Cons.prems [of 0] by simp
  moreover have "encodes_all D decls (concat bss)" by (rule Cons.IH) (use Cons.prems [of "Suc i" for i] in auto)
  ultimately show ?case by (simp add: more)
qed (simp add: none)

lemma encodes_replicate:
  "\<forall>v\<in>set vs. encodes D el (enc v) \<Longrightarrow> encodes_all D (replicate (length vs) el) (concat (List.map enc vs))"
  by (induction vs) (simp_all add: none more)

subsection \<open>The schema describes what the codec writes\<close>

locale described_impl = schema_impl B
  for B :: BorshSchema +
  fixes enc :: "'a \<Rightarrow> bytes" and ok :: "'a \<Rightarrow> bool"
  assumes described: "ok v \<Longrightarrow> ordered d \<Longrightarrow> add_definitions_recursively B d = Some (Ok (), d') \<Longrightarrow>
      encodes (map_of d') (declaration_of B) (enc v)"
begin

lemma described_larger: "ok v \<Longrightarrow> ordered d \<Longrightarrow> add_definitions_recursively B d = Some (Ok (), d') \<Longrightarrow>
    grows d' e \<Longrightarrow> encodes (map_of e) (declaration_of B) (enc v)"
  using described by (auto simp: grows_def intro: encodes_mono)

lemma for_type_described:
  assumes "for_type B = Some (Ok c)" and "ok v"
  shows "encodes (get_definition c) (container_declaration c) (enc v)"
proof -
  from assms(1) obtain d where "add_definitions_recursively B [] = Some (Ok (), d)"
    and c: "c = container_new (declaration_of B) d"
    by (auto simp: for_type_def split: option.splits prod.splits outcome.splits)
  then have "encodes (map_of d) (declaration_of B) (enc v)"
    using assms(2) described [of v "[]" d] by (simp add: ordered_def)
  moreover have "get_definition c = map_of d" by (rule ext) (simp add: c get_definition_def container_new_def)
  ultimately show ?thesis by (simp add: c container_new_def)
qed

end

text \<open>The table after an entry and the effect that follows it.\<close>

lemma entry_table:
  assumes "and_then (add_definition self def) (\<lambda>_. k) d = Some (Ok (), d')" and "ordered d" and "adds k R P"
  obtains d1 where "ordered d1" and "k d1 = Some (Ok (), d')" and "map_of d' self = Some def"
proof -
  from assms(1) obtain d1 where a: "add_definition self def d = Some (Ok (), d1)" and k: "k d1 = Some (Ok (), d')"
    by (auto simp: and_then_Ok_iff)
  have g: "grows d d1" using adds_Ok [OF adds_definition assms(2) a] by blast
  then have d1: "ordered d1" by (simp add: grows_def)
  have "map_of d1 self = Some def"
  proof (cases "map_of d self")
    case None
    with a add_new(1) [OF assms(2) None, of def] show ?thesis by (auto simp: add_definition_def)
  next
    case (Some def')
    with a show ?thesis by (auto simp: add_definition_def split: if_splits)
  qed
  moreover have "grows d1 d'" using adds_Ok [OF assms(3) d1 k] by blast
  ultimately show ?thesis using that d1 k by (blast dest: grows_lookup)
qed

lemma entry_described:
  assumes "B = \<lparr>declaration_of = self, add_definitions_recursively = and_then (add_definition self def) (\<lambda>_. k)\<rparr>"
    and "schema_impl B" and "adds k R P"
    and "\<And>v d d'. ok v \<Longrightarrow> ordered d \<Longrightarrow> k d = Some (Ok (), d') \<Longrightarrow> map_of d' self = Some def \<Longrightarrow>
      encodes (map_of d') self (enc v)"
  shows "described_impl B enc ok"
proof (intro described_impl.intro described_impl_axioms.intro assms(2))
  fix v d d' assume "ok v" "ordered d" "add_definitions_recursively B d = Some (Ok (), d')"
  moreover from this obtain d1 where "ordered d1" "k d1 = Some (Ok (), d')" "map_of d' self = Some def"
    using entry_table [OF _ _ assms(3), of self def d d'] by (auto simp: assms(1))
  ultimately show "encodes (map_of d') (declaration_of B) (enc v)" using assms(4) by (simp add: assms(1))
qed

lemma primitive_described:
  assumes "\<And>v. ok v \<Longrightarrow> length (enc v) = unat n"
  shows "described_impl (primitive_schema name n) enc ok"
proof (intro described_impl.intro described_impl_axioms.intro primitive_schema_impl)
  fix v d d' assume v: "ok v" and d: "ordered d"
    and "add_definitions_recursively (primitive_schema name n) d = Some (Ok (), d')"
  then have "and_then (add_definition name (Primitive n)) (\<lambda>_. ret ()) d = Some (Ok (), d')"
    by (simp add: primitive_schema_def)
  from entry_table [OF this d adds_ret] obtain d1 where "map_of d' name = Some (Primitive n)" by blast
  then show "encodes (map_of d') (declaration_of (primitive_schema name n)) (enc v)"
    by (simp add: primitive_schema_def primitive assms [OF v])
qed

lemma tagged_encodes:
  assumes "D decl = Some (tagged_sequence el)" and "length vs < 2 ^ 32" and "\<forall>v\<in>set vs. encodes D el (enc v)"
  shows "encodes D decl (vec_enc enc vs)"
proof -
  have "to_le_bytes (word_of_nat (length vs) :: u32) = le_bytes (unat DEFAULT_LENGTH_WIDTH) (length vs)"
    using unat_len32 [OF assms(2)] by (simp add: to_le_bytes_def DEFAULT_LENGTH_WIDTH_def)
  moreover have "encodes D decl (le_bytes (unat DEFAULT_LENGTH_WIDTH) (length vs) @ concat (List.map enc vs))"
    using assms(1) unfolding tagged_sequence_def
    by (rule sequence)
      (use assms(2) encodes_replicate [OF assms(3)] in
        \<open>simp_all add: DEFAULT_LENGTH_RANGE_def range_inclusive_def DEFAULT_LENGTH_WIDTH_def\<close>)
  ultimately show ?thesis by (simp add: vec_enc_def)
qed

lemma collection_described:
  assumes T: "described_impl T enc ok"
  shows "described_impl (collection_schema name T) (vec_enc enc) (vec_ok ok)"
proof -
  have impl: "schema_impl T" using T by (rule described_impl.axioms)
  show ?thesis
    by (rule entry_described [OF _ collection_schema_impl [OF impl] schema_impl.adds_impl [OF impl]])
      (auto simp: collection_schema_def Let_def vec_ok_def intro!: tagged_encodes described_impl.described [OF T])
qed

lemma str_described: "described_impl str_schema string_enc string_ok"
proof (rule entry_described [OF str_schema_def str_schema_impl u8_B.adds_impl])
  fix s d d' assume s: "string_ok s" and "ordered d" "add_definitions_recursively u8_schema d = Some (Ok (), d')"
    and t: "map_of d' ''String'' = Some (tagged_sequence (declaration_of u8_schema))"
  moreover have "described_impl u8_schema (\<lambda>b. [b]) (\<lambda>_. True)"
    unfolding u8_schema_def by (rule primitive_described) simp
  ultimately have "encodes (map_of d') (declaration_of u8_schema) [b]" for b
    using described_impl.described by fastforce
  with s show "encodes (map_of d') ''String'' (string_enc s)"
    unfolding string_enc_def
    by (intro tagged_encodes [where D = "map_of d'", OF t]) (simp_all add: string_ok_def)
qed

lemma enum_tag_1: "tag < 256 \<Longrightarrow> le_bytes (unat (1 :: u8)) tag = [word_of_nat tag]"
  by simp

lemma option_described:
  assumes T: "described_impl T enc ok"
  shows "described_impl (option_schema T) (option_enc enc) (option_ok ok)"
proof -
  have impl: "schema_impl T" using T by (rule described_impl.axioms)
  have unit: "described_impl unit_schema (\<lambda>_. []) (\<lambda>_ :: unit. True)"
    unfolding unit_schema_def by (rule primitive_described) simp
  show ?thesis
  proof (rule entry_described [OF _ option_schema_impl [OF impl]
        adds_then [OF schema_impl.adds_impl [OF impl] unit_B.adds_impl empty_subsetI empty_subsetI]])
    fix v d d'
    assume v: "option_ok ok v" and d: "ordered d"
      and k: "and_then (add_definitions_recursively T) (\<lambda>_. add_definitions_recursively unit_schema) d = Some (Ok (), d')"
      and t: "map_of d' (''Option<'' @ declaration_of T @ ''>'') =
        Some (Enum 1 [(0, ''None'', declaration_of unit_schema), (1, ''Some'', declaration_of T)])"
    from k obtain d1 where d1: "add_definitions_recursively T d = Some (Ok (), d1)"
        "add_definitions_recursively unit_schema d1 = Some (Ok (), d')" by (auto simp: and_then_Ok_iff)
    have g: "grows d d1" using adds_Ok [OF schema_impl.adds_impl [OF impl] d d1(1)] by blast
    then have o1: "ordered d1" by (simp add: grows_def)
    have g': "grows d1 d'" using adds_Ok [OF unit_B.adds_impl o1 d1(2)] by blast
    show "encodes (map_of d') (''Option<'' @ declaration_of T @ ''>'') (option_enc enc v)"
    proof (cases v)
      case None
      have "encodes (map_of d') (declaration_of unit_schema) []"
        using described_impl.described [OF unit _ o1 d1(2)] by simp
      from enum [OF t _ this, of 0 "''None''"] None show ?thesis by simp
    next
      case (Some x)
      then have "ok x" using v by simp
      then have "encodes (map_of d') (declaration_of T) (enc x)"
        using described_impl.described_larger [OF T _ d d1(1) g'] by blast
      from enum [OF t _ this, of 1 "''Some''"] Some show ?thesis by simp
    qed
  qed (simp add: option_schema_def Let_def)
qed

lemma result_described:
  assumes T: "described_impl T enc_t ok_t" and E: "described_impl E enc_e ok_e"
  shows "described_impl (result_schema T E) (result_enc enc_t enc_e) (result_ok ok_t ok_e)"
proof -
  have T': "schema_impl T" and E': "schema_impl E" using T E by (auto intro: described_impl.axioms)
  show ?thesis
  proof (rule entry_described [OF _ result_schema_impl [OF T' E']
        adds_then [OF schema_impl.adds_impl [OF T'] schema_impl.adds_impl [OF E'] empty_subsetI empty_subsetI]])
    fix v d d'
    assume v: "result_ok ok_t ok_e v" and d: "ordered d"
      and k: "and_then (add_definitions_recursively T) (\<lambda>_. add_definitions_recursively E) d = Some (Ok (), d')"
      and t: "map_of d' (''Result<'' @ declaration_of T @ '', '' @ declaration_of E @ ''>'') =
        Some (Enum 1 [(1, ''Ok'', declaration_of T), (0, ''Err'', declaration_of E)])"
    from k obtain d1 where d1: "add_definitions_recursively T d = Some (Ok (), d1)"
        "add_definitions_recursively E d1 = Some (Ok (), d')" by (auto simp: and_then_Ok_iff)
    have g: "grows d d1" using adds_Ok [OF schema_impl.adds_impl [OF T'] d d1(1)] by blast
    then have o1: "ordered d1" by (simp add: grows_def)
    have g': "grows d1 d'" using adds_Ok [OF schema_impl.adds_impl [OF E'] o1 d1(2)] by blast
    show "encodes (map_of d') (''Result<'' @ declaration_of T @ '', '' @ declaration_of E @ ''>'') (result_enc enc_t enc_e v)"
    proof (cases v)
      case (Inl e)
      then have "encodes (map_of d') (declaration_of E) (enc_e e)"
        using v described_impl.described [OF E _ o1 d1(2)] by simp
      from enum [OF t _ this, of 0 "''Err''"] Inl show ?thesis by simp
    next
      case (Inr x)
      then have "encodes (map_of d') (declaration_of T) (enc_t x)"
        using v described_impl.described_larger [OF T _ d d1(1) g'] by simp
      from enum [OF t _ this, of 1 "''Ok''"] Inr show ?thesis by simp
    qed
  qed (simp add: result_schema_def Let_def)
qed

lemma array_described:
  assumes T: "described_impl T enc ok"
  shows "described_impl (array_schema N T) (array_enc enc) (array_ok N ok)"
proof (cases "N < 2 ^ 64")
  case True
  have impl: "schema_impl T" using T by (rule described_impl.axioms)
  let ?len = "word_of_nat N :: u64"
  have len: "unat ?len = N" using True by (simp add: unat_of_nat)
  have body: "array_schema N T = \<lparr>declaration_of = ''['' @ declaration_of T @ ''; '' @ show_nat N @ '']'',
      add_definitions_recursively = and_then (add_definition (''['' @ declaration_of T @ ''; '' @ show_nat N @ '']'')
        (Sequence ARRAY_LENGTH_WIDTH (range_inclusive ?len ?len) (declaration_of T)))
        (\<lambda>_. add_definitions_recursively T)\<rparr>"
    using True by (simp add: array_schema_def Let_def)
  show ?thesis
  proof (rule entry_described [OF body array_schema_impl [OF impl] schema_impl.adds_impl [OF impl]])
    fix vs d d'
    assume vs: "array_ok N ok vs" and d: "ordered d" "add_definitions_recursively T d = Some (Ok (), d')"
      and t: "map_of d' (''['' @ declaration_of T @ ''; '' @ show_nat N @ '']'') =
        Some (Sequence ARRAY_LENGTH_WIDTH (range_inclusive ?len ?len) (declaration_of T))"
    have "\<forall>v\<in>set vs. encodes (map_of d') (declaration_of T) (enc v)"
      using vs described_impl.described [OF T _ d] by (simp add: array_ok_def)
    then have "encodes_all (map_of d') (replicate N (declaration_of T)) (concat (List.map enc vs))"
      using encodes_replicate vs by (fastforce simp: array_ok_def)
    from sequence [OF t _ _ _ this] len
    show "encodes (map_of d') (''['' @ declaration_of T @ ''; '' @ show_nat N @ '']'') (array_enc enc vs)"
      by (simp add: array_enc_def ARRAY_LENGTH_WIDTH_def range_inclusive_def)
  qed
next
  case False
  have "schema_impl (array_schema N T)"
    using T by (intro array_schema_impl) (rule described_impl.axioms)
  then show ?thesis
    using False by (intro described_impl.intro described_impl_axioms.intro)
      (simp_all add: array_schema_def Let_def panic_Ok_iff)
qed

lemma pair_described:
  assumes A: "described_impl A enc_a ok_a" and B: "described_impl B enc_b ok_b"
  shows "described_impl (tuple_schema [A, B]) (pair_enc enc_a enc_b) (pair_ok ok_a ok_b)"
proof -
  have A': "schema_impl A" and B': "schema_impl B" using A B by (auto intro: described_impl.axioms)
  have all: "\<forall>T\<in>set [A, B]. schema_impl T" using A' B' by simp
  show ?thesis
  proof (rule entry_described [OF _ tuple_schema_impl [OF all] add_all_impl(1) [OF all]])
    fix x d d'
    assume x: "pair_ok ok_a ok_b x" and d: "ordered d" and k: "add_all [A, B] d = Some (Ok (), d')"
      and t: "map_of d' (tuple_declaration (List.map declaration_of [A, B])) = Some (Tuple (List.map declaration_of [A, B]))"
    from k obtain d1 where d1: "add_definitions_recursively A d = Some (Ok (), d1)"
        "add_definitions_recursively B d1 = Some (Ok (), d')" by (auto simp: add_all_def and_then_Ok_iff)
    have "grows d d1" using adds_Ok [OF schema_impl.adds_impl [OF A'] d d1(1)] by blast
    then have o1: "ordered d1" by (simp add: grows_def)
    have g: "grows d1 d'" using adds_Ok [OF schema_impl.adds_impl [OF B'] o1 d1(2)] by blast
    have a: "encodes (map_of d') (declaration_of A) (enc_a (fst x))"
      using x described_impl.described_larger [OF A _ d d1(1) g] by (simp add: pair_ok_def)
    have b: "encodes (map_of d') (declaration_of B) (enc_b (snd x))"
      using x described_impl.described [OF B _ o1 d1(2)] by (simp add: pair_ok_def)
    from tuple [where D = "map_of d'" and bs = "enc_a (fst x) @ enc_b (snd x)", OF t] more [OF a more [OF b none]]
    show "encodes (map_of d') (tuple_declaration (List.map declaration_of [A, B])) (pair_enc enc_a enc_b x)"
      by (simp add: pair_enc_def)
  qed (simp add: tuple_schema_def Let_def)
qed

text \<open>The ordered and the hashed maps and sets.\<close>

lemma map_described:
  assumes K: "described_impl K enc_k ok_k" and V: "described_impl V enc_v ok_v"
  shows "described_impl (map_schema name K V) (vec_enc (pair_enc enc_k enc_v)) (vec_ok (pair_ok ok_k ok_v))"
proof -
  have pair: "described_impl (tuple_schema [K, V]) (pair_enc enc_k enc_v) (pair_ok ok_k ok_v)"
    using K V by (rule pair_described)
  then have pair': "schema_impl (tuple_schema [K, V])" by (rule described_impl.axioms)
  have impl: "schema_impl (map_schema name K V)"
    using K V by (intro map_schema_impl) (auto intro: described_impl.axioms)
  show ?thesis
    by (rule entry_described [OF _ impl schema_impl.adds_impl [OF pair']])
      (auto simp: map_schema_def Let_def vec_ok_def intro!: tagged_encodes described_impl.described [OF pair])
qed

lemma described_weaken:
  assumes "described_impl B enc ok" and "\<And>v. ok' v \<Longrightarrow> ok (f v)"
  shows "described_impl B (\<lambda>v. enc (f v)) ok'"
  using described_impl.axioms [OF assms(1)] described_impl.described [OF assms(1)] assms(2)
  by (intro described_impl.intro described_impl_axioms.intro) auto

lemma btree_map_described:
  assumes "described_impl K enc_k ok_k" and "described_impl V enc_v ok_v"
  shows "described_impl (map_schema ''BTreeMap'' K V) (vec_enc (pair_enc enc_k enc_v)) (btree_map_ok ok_k ok_v)"
  by (rule described_weaken [OF map_described [OF assms], where f = "\<lambda>m. m"]) (simp add: btree_map_ok_def)

lemma hash_map_described:
  assumes "described_impl K enc_k ok_k" and "described_impl V enc_v ok_v"
  shows "described_impl (map_schema ''HashMap'' K V) (hash_map_enc enc_k enc_v) (hash_map_ok ok_k ok_v)"
  unfolding hash_map_enc_def
  by (rule described_weaken [OF map_described [OF assms], where f = "sort_key fst"])
    (simp add: hash_map_ok_def vec_ok_def)

text \<open>The primitive types of the table.\<close>

lemma u8_described: "described_impl u8_schema (\<lambda>b. [b]) (\<lambda>_. True)"
  unfolding u8_schema_def by (rule primitive_described) simp

lemma bool_described: "described_impl bool_schema bool_enc (\<lambda>_. True)"
  unfolding bool_schema_def by (rule primitive_described) (simp add: bool_enc_def)

lemma u32_described: "described_impl u32_schema to_le_bytes (\<lambda>_ :: u32. True)"
  unfolding u32_schema_def by (rule primitive_described) (simp add: length_to_le_bytes)

lemma u64_described: "described_impl u64_schema to_le_bytes (\<lambda>_ :: u64. True)"
  unfolding u64_schema_def by (rule primitive_described) (simp add: length_to_le_bytes)

lemma unit_described: "described_impl unit_schema (\<lambda>_. []) (\<lambda>_. True)"
  unfolding unit_schema_def by (rule primitive_described) simp

interpretation str_M: described_impl str_schema string_enc string_ok by (rule str_described)
interpretation u8_M: described_impl u8_schema "\<lambda>b. [b]" "\<lambda>_. True" by (rule u8_described)
interpretation bool_M: described_impl bool_schema bool_enc "\<lambda>_. True" by (rule bool_described)

end
