(* ===== verification/Schema_Size.thy ===== *)
theory Schema_Size
  imports Schema_Meaning
begin

section \<open>The size of a type, computed from its schema\<close>

text \<open>
  Models \<open>borsh/src/schema/container_ext/max_size.rs\<close>. The stack of declarations being
  visited is the state of the effects, threaded as the code threads its \<open>&mut Vec\<close>, the
  early returns that leave an element on it included. \<open>usize\<close> is a natural number below
  \<open>2 ^ usize_bits\<close>. The recursion is bounded by \<open>fuel\<close>, and \<open>None\<close> means that it was
  exhausted; \<open>size_fuel\<close> is enough for every schema (\<open>zero_size_returns\<close>,
  \<open>max_size_returns\<close>), because each nested call pushes a declaration that is defined and
  not yet on the stack.
\<close>

datatype size_error = Overflow | Recursive | MissingDefinition Declaration
datatype zero_size_error = ZeroRecursive | ZeroMissingDefinition Declaration

fun from_zero_size_error :: "zero_size_error \<Rightarrow> size_error" where
  "from_zero_size_error ZeroRecursive = Recursive"
| "from_zero_size_error (ZeroMissingDefinition declaration) = MissingDefinition declaration"

definition push :: "Declaration \<Rightarrow> (Declaration list, 'e, unit) eff" where
  "push d stack = Some (Ok (), stack @ [d])"

text \<open>\<open>stack.pop(); Ok(res)\<close>\<close>

definition pop_return :: "'a \<Rightarrow> (Declaration list, 'e, 'a) eff" where
  "pop_return res stack = Some (Ok res, butlast stack)"

text \<open>\<open>RangeInclusive<u64>::count\<close>, which panics when the count overflows \<open>usize\<close>.\<close>

definition range_is_empty :: "u64 RangeInclusive \<Rightarrow> bool" where
  "range_is_empty r \<longleftrightarrow> exhausted r \<or> \<not> range_start r \<le> range_end r"

definition range_count :: "nat \<Rightarrow> u64 RangeInclusive \<Rightarrow> ('e, nat) outcome" where
  "range_count usize_bits r =
     (if range_is_empty r then Ok 0
      else if unat (range_end r) - unat (range_start r) + 1 < 2 ^ usize_bits
      then Ok (unat (range_end r) - unat (range_start r) + 1) else Panic)"

subsection \<open>Zero-sized types\<close>

fun zero_all :: "(Declaration \<Rightarrow> (Declaration list, 'e, bool) eff) \<Rightarrow> Declaration list \<Rightarrow> (Declaration list, 'e, bool) eff" where
  "zero_all f [] = ret True"
| "zero_all f (d # ds) = and_then (f d) (\<lambda>z. if z then zero_all f ds else ret False)"

text \<open>The \<open>match\<close> on the definition, with the recursive call as a parameter.\<close>

definition zero_of_definition ::
  "nat \<Rightarrow> (Declaration \<Rightarrow> (Declaration list, zero_size_error, bool) eff) \<Rightarrow> Definition \<Rightarrow>
   (Declaration list, zero_size_error, bool) eff" where
  "zero_of_definition usize_bits rec def =
     (case def of
         Primitive sz \<Rightarrow> pop_return (sz = 0)
       | Sequence width rng el \<Rightarrow>
           if width = 0 then
             and_then (lift (range_count usize_bits rng)) (\<lambda>n.
               if n = 1 \<and> range_start rng = 0 then ret True
               else and_then (rec el) (\<lambda>z. if z then ret True else pop_return False))
           else pop_return False
       | Tuple els \<Rightarrow> and_then (zero_all rec els) pop_return
       | Enum width vs \<Rightarrow>
           if width = 0 then and_then (zero_all rec (List.map (\<lambda>(_, _, v). v) vs)) pop_return
           else pop_return False
       | Struct flds \<Rightarrow>
           (case flds of
               NamedFields fs \<Rightarrow> and_then (zero_all rec (List.map snd fs)) pop_return
             | UnnamedFields els \<Rightarrow> and_then (zero_all rec els) pop_return
             | Empty \<Rightarrow> pop_return True))"

primrec is_zero_size_impl ::
  "nat \<Rightarrow> nat \<Rightarrow> BorshSchemaContainer \<Rightarrow> Declaration \<Rightarrow> (Declaration list, zero_size_error, bool) eff" where
  "is_zero_size_impl 0 usize_bits schema decl = (\<lambda>stack. None)"
| "is_zero_size_impl (Suc fuel) usize_bits schema decl = (\<lambda>stack.
     if decl \<in> set stack then Some (Err ZeroRecursive, stack)
     else and_then (push decl) (\<lambda>_.
       case get_definition schema decl of
           None \<Rightarrow> fail (ZeroMissingDefinition decl)
         | Some def \<Rightarrow> zero_of_definition usize_bits (is_zero_size_impl fuel usize_bits schema) def) stack)"

definition size_fuel :: "BorshSchemaContainer \<Rightarrow> nat" where
  "size_fuel schema = Suc (length (container_definitions schema))"

definition is_zero_size ::
  "nat \<Rightarrow> Declaration \<Rightarrow> BorshSchemaContainer \<Rightarrow> (zero_size_error, bool) outcome option" where
  "is_zero_size usize_bits decl schema =
     map_option fst (is_zero_size_impl (size_fuel schema) usize_bits schema decl [])"

subsection \<open>The maximum size\<close>

definition size_add :: "nat \<Rightarrow> nat \<Rightarrow> nat \<Rightarrow> (size_error, nat) outcome" where
  "size_add usize_bits x y = (if x + y < 2 ^ usize_bits then Ok (x + y) else Err Overflow)"

definition size_mul :: "nat \<Rightarrow> nat \<Rightarrow> nat \<Rightarrow> (size_error, nat) outcome" where
  "size_mul usize_bits x y = (if x * y < 2 ^ usize_bits then Ok (x * y) else Err Overflow)"

text \<open>The loops of \<open>tuple\<close> and of the branch for enums.\<close>

fun sum_sizes ::
  "nat \<Rightarrow> (Declaration \<Rightarrow> (Declaration list, size_error, nat) eff) \<Rightarrow> Declaration list \<Rightarrow> nat \<Rightarrow>
   (Declaration list, size_error, nat) eff" where
  "sum_sizes usize_bits f [] acc = ret acc"
| "sum_sizes usize_bits f (el # els) acc =
     and_then (f el) (\<lambda>sz. and_then (lift (size_add usize_bits acc sz)) (\<lambda>tot. sum_sizes usize_bits f els tot))"

fun max_sizes ::
  "(Declaration \<Rightarrow> (Declaration list, size_error, nat) eff) \<Rightarrow> Declaration list \<Rightarrow> nat \<Rightarrow>
   (Declaration list, size_error, nat) eff" where
  "max_sizes f [] mx = ret mx"
| "max_sizes f (v # vs) mx = and_then (f v) (\<lambda>sz. max_sizes f vs (max mx sz))"

definition size_tuple ::
  "nat \<Rightarrow> (Declaration \<Rightarrow> (Declaration list, size_error, nat) eff) \<Rightarrow> nat \<Rightarrow> Declaration list \<Rightarrow>
   (Declaration list, size_error, nat) eff" where
  "size_tuple usize_bits f cnt els =
     and_then (sum_sizes usize_bits f els 0) (\<lambda>acc. lift (size_mul usize_bits cnt acc))"

definition size_of_definition ::
  "nat \<Rightarrow> (nat \<Rightarrow> Declaration \<Rightarrow> (Declaration list, size_error, nat) eff) \<Rightarrow>
   (Declaration \<Rightarrow> (Declaration list, zero_size_error, bool) eff) \<Rightarrow> nat \<Rightarrow> Definition \<Rightarrow>
   (Declaration list, size_error, nat) eff" where
  "size_of_definition usize_bits rec zero cnt def =
     (case def of
         Primitive sz \<Rightarrow> if sz = 0 then ret 0 else lift (size_mul usize_bits (unat sz) cnt)
       | Sequence width rng el \<Rightarrow>
           let max_len = unat (range_end rng)
           in and_then
             (if max_len < 2 ^ usize_bits
              then (if max_len \<noteq> 0 then rec max_len el else ret 0)
              else and_then (map_err from_zero_size_error (zero el)) (\<lambda>z. if z then ret 0 else fail Overflow))
             (\<lambda>sz. and_then (lift (size_add usize_bits sz (unat width))) (\<lambda>sz'.
               lift (size_mul usize_bits cnt sz')))
       | Enum width vs \<Rightarrow>
           and_then (max_sizes (rec 1) (List.map (\<lambda>(_, _, v). v) vs) 0) (\<lambda>mx.
           lift (size_add usize_bits mx (unat width)))
       | Tuple els \<Rightarrow> size_tuple usize_bits (rec 1) cnt els
       | Struct flds \<Rightarrow>
           (case flds of
               NamedFields fs \<Rightarrow> size_tuple usize_bits (rec 1) cnt (List.map snd fs)
             | UnnamedFields els \<Rightarrow> size_tuple usize_bits (rec 1) cnt els
             | Empty \<Rightarrow> ret 0))"

primrec max_serialized_size_impl ::
  "nat \<Rightarrow> nat \<Rightarrow> BorshSchemaContainer \<Rightarrow> nat \<Rightarrow> Declaration \<Rightarrow> (Declaration list, size_error, nat) eff" where
  "max_serialized_size_impl 0 usize_bits schema cnt decl = (\<lambda>stack. None)"
| "max_serialized_size_impl (Suc fuel) usize_bits schema cnt decl = (\<lambda>stack.
     if decl \<in> set stack then Some (Err Recursive, stack)
     else and_then (push decl) (\<lambda>_.
       and_then
         (case get_definition schema decl of
             None \<Rightarrow> fail (MissingDefinition decl)
           | Some def \<Rightarrow> size_of_definition usize_bits (max_serialized_size_impl fuel usize_bits schema)
               (is_zero_size_impl fuel usize_bits schema) cnt def)
         pop_return)
       stack)"

definition max_serialized_size ::
  "nat \<Rightarrow> BorshSchemaContainer \<Rightarrow> (size_error, nat) outcome option" where
  "max_serialized_size usize_bits schema =
     map_option fst (max_serialized_size_impl (size_fuel schema) usize_bits schema 1
       (container_declaration schema) [])"

subsection \<open>The fuel is enough\<close>

definition unvisited :: "BorshSchemaContainer \<Rightarrow> Declaration list \<Rightarrow> nat" where
  "unvisited schema stack = card (dom (get_definition schema) - set stack)"

lemma get_definition_map_of: "get_definition schema = map_of (container_definitions schema)"
  by (rule ext) (simp add: get_definition_def)

lemma finite_definitions [simp]: "finite (dom (get_definition schema))"
  by (simp add: get_definition_map_of finite_dom_map_of)

lemma unvisited_fuel: "unvisited schema stack < size_fuel schema"
proof -
  have "unvisited schema stack \<le> card (dom (get_definition schema))"
    unfolding unvisited_def by (rule card_mono) auto
  also have "\<dots> \<le> length (container_definitions schema)"
    by (simp add: get_definition_map_of dom_map_of_conv_image_fst le_trans [OF card_image_le card_length])
  finally show ?thesis by (simp add: size_fuel_def)
qed

lemma unvisited_mono: "set stack \<subseteq> set stack' \<Longrightarrow> unvisited schema stack' \<le> unvisited schema stack"
  unfolding unvisited_def by (rule card_mono) auto

lemma unvisited_push:
  assumes "get_definition schema decl = Some def" and "decl \<notin> set stack"
  shows "unvisited schema (stack @ [decl]) < unvisited schema stack"
  unfolding unvisited_def by (rule psubset_card_mono) (use assms in auto)

text \<open>
  \<open>runs N m\<close>: on every stack that leaves fewer than \<open>N\<close> defined declarations unvisited
  the effect returns, and on success the stack is the old one or a longer one.
\<close>

definition runs :: "BorshSchemaContainer \<Rightarrow> nat \<Rightarrow> (Declaration list, 'e, 'a) eff \<Rightarrow> bool" where
  "runs schema N m \<longleftrightarrow> (\<forall>stack. unvisited schema stack < N \<longrightarrow>
     m stack \<noteq> None \<and> (\<forall>v stack'. m stack = Some (Ok v, stack') \<longrightarrow> (\<exists>more. stack' = stack @ more)))"

lemma runs_ret: "runs schema N (ret v)"
  by (simp add: runs_def ret_def)

lemma runs_fail: "runs schema N (fail e)"
  by (simp add: runs_def fail_def)

lemma runs_lift: "runs schema N (lift r)"
  by (simp add: runs_def lift_def)

lemma runs_then:
  assumes m: "runs schema N m" and k: "\<And>v. runs schema N (k v)"
  shows "runs schema N (and_then m k)"
  unfolding runs_def
proof (intro allI impI)
  fix stack assume s: "unvisited schema stack < N"
  with m have ret: "m stack \<noteq> None"
    and pre: "\<And>v stack'. m stack = Some (Ok v, stack') \<Longrightarrow> \<exists>more. stack' = stack @ more"
    by (auto simp: runs_def)
  show "and_then m k stack \<noteq> None \<and>
    (\<forall>v stack'. and_then m k stack = Some (Ok v, stack') \<longrightarrow> (\<exists>more. stack' = stack @ more))"
  proof (cases "\<exists>v s'. m stack = Some (Ok v, s')")
    case True
    then obtain v more where v: "m stack = Some (Ok v, stack @ more)" using pre by blast
    have "unvisited schema (stack @ more) \<le> unvisited schema stack" by (rule unvisited_mono) simp
    with s have "unvisited schema (stack @ more) < N" by simp
    with k [of v] have "k v (stack @ more) \<noteq> None" and
      "\<And>w s''. k v (stack @ more) = Some (Ok w, s'') \<Longrightarrow> \<exists>more'. s'' = (stack @ more) @ more'"
      by (auto simp: runs_def)
    with v show ?thesis by (fastforce simp: and_then_eval)
  next
    case False
    with ret show ?thesis by (auto simp: and_then_def split: option.splits outcome.splits)
  qed
qed

lemma runs_map_err: "runs schema N m \<Longrightarrow> runs schema N (map_err g m)"
  by (fastforce simp: runs_def map_err_def split: option.splits outcome.splits)

lemma runs_zero_all: "(\<And>d. runs schema N (f d)) \<Longrightarrow> runs schema N (zero_all f ds)"
  by (induction ds) (auto intro!: runs_then runs_ret split: if_splits)

lemma runs_sum_sizes: "(\<And>d. runs schema N (f d)) \<Longrightarrow> runs schema N (sum_sizes ub f ds n)"
  by (induction ds arbitrary: n) (auto intro!: runs_then runs_ret runs_lift)

lemma runs_max_sizes: "(\<And>d. runs schema N (f d)) \<Longrightarrow> runs schema N (max_sizes f ds n)"
  by (induction ds arbitrary: n) (auto intro!: runs_then runs_ret)

lemma runs_size_tuple: "(\<And>d. runs schema N (f d)) \<Longrightarrow> runs schema N (size_tuple ub f cnt ds)"
  unfolding size_tuple_def by (intro runs_then runs_sum_sizes runs_lift)

text \<open>
  A visit: the declaration is pushed, and the body runs on the longer stack. The body may
  end with \<open>pop_return\<close>, which removes one element of the longer stack.
\<close>

definition runs_popping :: "BorshSchemaContainer \<Rightarrow> nat \<Rightarrow> (Declaration list, 'e, 'a) eff \<Rightarrow> bool" where
  "runs_popping schema N m \<longleftrightarrow> (\<forall>stack decl. unvisited schema (stack @ [decl]) < N \<longrightarrow>
     m (stack @ [decl]) \<noteq> None \<and>
     (\<forall>v stack'. m (stack @ [decl]) = Some (Ok v, stack') \<longrightarrow> (\<exists>more. stack' = stack @ more)))"

lemma popping_runs: "runs schema N m \<Longrightarrow> runs_popping schema N m"
  by (fastforce simp: runs_def runs_popping_def)

lemma popping_ret: "runs_popping schema N (ret v)"
  by (rule popping_runs) (rule runs_ret)

lemma popping_pop: "runs_popping schema N (pop_return v)"
  by (auto simp: runs_popping_def pop_return_def)

lemma popping_then:
  assumes m: "runs schema N m" and k: "\<And>v. runs_popping schema N (k v)"
  shows "runs_popping schema N (and_then m k)"
  unfolding runs_popping_def
proof (intro allI impI)
  fix stack decl assume s: "unvisited schema (stack @ [decl]) < N"
  with m have ret: "m (stack @ [decl]) \<noteq> None"
    and pre: "\<And>v stack'. m (stack @ [decl]) = Some (Ok v, stack') \<Longrightarrow> \<exists>more. stack' = (stack @ [decl]) @ more"
    by (auto simp: runs_def)
  show "and_then m k (stack @ [decl]) \<noteq> None \<and>
    (\<forall>v stack'. and_then m k (stack @ [decl]) = Some (Ok v, stack') \<longrightarrow> (\<exists>more. stack' = stack @ more))"
  proof (cases "\<exists>v s'. m (stack @ [decl]) = Some (Ok v, s')")
    case True
    then obtain v more where v: "m (stack @ [decl]) = Some (Ok v, (stack @ [decl]) @ more)" using pre by blast
    obtain stack'' last where l: "(stack @ [decl]) @ more = stack'' @ [last]" and p: "\<exists>m'. stack'' = stack @ m'"
      by (cases more rule: rev_cases) auto
    have "unvisited schema (stack'' @ [last]) \<le> unvisited schema (stack @ [decl])"
      by (rule unvisited_mono) (use l in \<open>metis Un_upper1 set_append\<close>)
    with s have "unvisited schema (stack'' @ [last]) < N" by simp
    with k [of v] have "k v (stack'' @ [last]) \<noteq> None" and
      "\<And>w s''. k v (stack'' @ [last]) = Some (Ok w, s'') \<Longrightarrow> \<exists>more'. s'' = stack'' @ more'"
      by (auto simp: runs_popping_def)
    with v l p show ?thesis by (fastforce simp: and_then_eval)
  next
    case False
    with ret show ?thesis by (auto simp: and_then_def split: option.splits outcome.splits)
  qed
qed

lemma runs_visit:
  assumes "\<And>def. get_definition schema decl = Some def \<Longrightarrow> runs_popping schema N body"
    and "get_definition schema decl = None \<Longrightarrow> \<exists>e. body = fail e"
  shows "runs schema (Suc N) (\<lambda>stack. if decl \<in> set stack then Some (Err e, stack)
    else and_then (push decl) (\<lambda>_. body) stack)"
  unfolding runs_def
proof (intro allI impI)
  fix stack assume s: "unvisited schema stack < Suc N"
  let ?m = "\<lambda>stack. if decl \<in> set stack then Some (Err e, stack) else and_then (push decl) (\<lambda>_. body) stack"
  have push: "and_then (push decl) (\<lambda>_. body) stack = body (stack @ [decl])"
    by (simp add: push_def and_then_def)
  show "?m stack \<noteq> None \<and> (\<forall>v stack'. ?m stack = Some (Ok v, stack') \<longrightarrow> (\<exists>more. stack' = stack @ more))"
  proof (cases "decl \<in> set stack")
    case False
    show ?thesis
    proof (cases "get_definition schema decl")
      case None
      with assms(2) push show ?thesis by (auto simp: fail_def)
    next
      case (Some def)
      from unvisited_push [OF this False] s have "unvisited schema (stack @ [decl]) < N" by simp
      with assms(1) [OF Some] push show ?thesis by (simp add: runs_popping_def)
    qed
  qed simp
qed

lemma zero_of_definition_runs:
  "(\<And>d. runs schema N (rec d)) \<Longrightarrow> runs_popping schema N (zero_of_definition ub rec def)"
  by (auto simp: zero_of_definition_def split: Definition.split Fields.split
      intro!: popping_then popping_pop popping_ret runs_zero_all runs_lift)

lemma zero_size_runs: "runs schema fuel (is_zero_size_impl fuel ub schema decl)"
proof (induction fuel arbitrary: decl)
  case (Suc fuel)
  show ?case
    unfolding is_zero_size_impl.simps
    by (rule runs_visit) (auto intro: zero_of_definition_runs Suc.IH)
qed (simp add: runs_def)

lemma size_of_definition_runs:
  "(\<And>n d. runs schema N (rec n d)) \<Longrightarrow> (\<And>d. runs schema N (zero d)) \<Longrightarrow>
   runs schema N (size_of_definition ub rec zero cnt def)"
  by (auto simp: size_of_definition_def Let_def split: Definition.split Fields.split
      intro!: runs_then runs_ret runs_fail runs_lift runs_map_err runs_max_sizes runs_size_tuple)

lemma max_size_runs: "runs schema fuel (max_serialized_size_impl fuel ub schema cnt decl)"
proof (induction fuel arbitrary: cnt decl)
  case (Suc fuel)
  show ?case
    unfolding max_serialized_size_impl.simps
    by (rule runs_visit)
      (auto intro!: popping_then popping_pop size_of_definition_runs Suc.IH zero_size_runs)
qed (simp add: runs_def)

lemma zero_size_returns: "is_zero_size ub decl schema \<noteq> None"
  using zero_size_runs [of schema "size_fuel schema" ub decl] unvisited_fuel [of schema "[]"]
  by (auto simp: runs_def is_zero_size_def)

lemma max_size_returns: "max_serialized_size ub schema \<noteq> None"
  using max_size_runs [of schema "size_fuel schema" ub 1 "container_declaration schema"] unvisited_fuel [of schema "[]"]
  by (auto simp: runs_def max_serialized_size_def)

subsection \<open>Panics\<close>

text \<open>
  The only panic of the traversals is that of \<open>count\<close> on a sequence without a length prefix
  whose range has more lengths than \<open>usize\<close> counts.
\<close>

definition lengths_countable :: "nat \<Rightarrow> BorshSchemaContainer \<Rightarrow> bool" where
  "lengths_countable usize_bits schema \<longleftrightarrow> (\<forall>(decl, def)\<in>set (container_definitions schema). case def of
     Sequence width rng el \<Rightarrow> width = 0 \<longrightarrow> range_is_empty rng \<or> unat (range_end rng) - unat (range_start rng) + 1 < 2 ^ usize_bits
   | _ \<Rightarrow> True)"

lemma countable_count:
  assumes "lengths_countable ub schema" and "get_definition schema decl = Some (Sequence 0 rng el)"
  shows "range_count ub rng \<noteq> Panic"
proof -
  have "(decl, Sequence 0 rng el) \<in> set (container_definitions schema)"
    using assms(2) by (simp add: get_definition_map_of map_of_SomeD)
  with assms(1) have "range_is_empty rng \<or> unat (range_end rng) - unat (range_start rng) + 1 < 2 ^ ub"
    by (fastforce simp: lengths_countable_def)
  then show ?thesis by (auto simp: range_count_def)
qed

definition calm :: "('s, 'e, 'a) eff \<Rightarrow> bool" where
  "calm m \<longleftrightarrow> (\<forall>s t. m s \<noteq> Some (Panic, t))"

named_theorems calm_intros \<open>effects that do not panic\<close>

lemma calm_basic [calm_intros]: "calm (ret a)" "calm (fail e)" "calm (push d)" "calm (pop_return v)"
  by (simp_all add: calm_def ret_def fail_def push_def pop_return_def)

lemma calm_lift [calm_intros]: "r \<noteq> Panic \<Longrightarrow> calm (lift r)"
  by (simp add: calm_def lift_def)

lemma calm_then [calm_intros]: "calm m \<Longrightarrow> (\<And>a. calm (k a)) \<Longrightarrow> calm (and_then m k)"
  by (fastforce simp: calm_def and_then_def split: option.splits outcome.splits)

lemma calm_map_err [calm_intros]: "calm m \<Longrightarrow> calm (map_err g m)"
  by (fastforce simp: calm_def map_err_def split: option.splits outcome.splits)

lemma calm_if [calm_intros]: "(b \<Longrightarrow> calm m) \<Longrightarrow> (\<not> b \<Longrightarrow> calm n) \<Longrightarrow> calm (if b then m else n)"
  by simp

lemma size_operations_calm: "size_add ub x y \<noteq> Panic" "size_mul ub x y \<noteq> Panic"
  by (simp_all add: size_add_def size_mul_def)

lemma calm_zero_all [calm_intros]: "(\<And>d. calm (f d)) \<Longrightarrow> calm (zero_all f ds)"
  by (induction ds) (auto intro!: calm_intros)

lemma calm_sum_sizes [calm_intros]: "(\<And>d. calm (f d)) \<Longrightarrow> calm (sum_sizes ub f ds n)"
  by (induction ds arbitrary: n) (auto intro!: calm_intros simp: size_operations_calm)

lemma calm_max_sizes [calm_intros]: "(\<And>d. calm (f d)) \<Longrightarrow> calm (max_sizes f ds n)"
  by (induction ds arbitrary: n) (auto intro!: calm_intros)

lemma calm_size_tuple [calm_intros]: "(\<And>d. calm (f d)) \<Longrightarrow> calm (size_tuple ub f cnt ds)"
  unfolding size_tuple_def by (auto intro!: calm_intros simp: size_operations_calm)

lemma calm_visit:
  assumes "calm m"
  shows "calm (\<lambda>stack. if decl \<in> set stack then Some (Err e, stack) else and_then (push decl) (\<lambda>_. m) stack)"
proof -
  have "calm (and_then (push decl) (\<lambda>_. m))" using assms by (auto intro!: calm_intros)
  then show ?thesis by (simp add: calm_def)
qed

lemma zero_size_calm:
  assumes "lengths_countable ub schema"
  shows "calm (is_zero_size_impl fuel ub schema decl)"
proof (induction fuel arbitrary: decl)
  case (Suc fuel)
  have "calm (case get_definition schema decl of None \<Rightarrow> fail (ZeroMissingDefinition decl)
      | Some def \<Rightarrow> zero_of_definition ub (is_zero_size_impl fuel ub schema) def)"
    using countable_count [OF assms] Suc.IH
    by (auto simp: zero_of_definition_def split: option.split Definition.split Fields.split intro!: calm_intros)
  then show ?case unfolding is_zero_size_impl.simps by (rule calm_visit)
qed (simp add: calm_def)

lemma max_size_calm:
  assumes "lengths_countable ub schema"
  shows "calm (max_serialized_size_impl fuel ub schema cnt decl)"
proof (induction fuel arbitrary: cnt decl)
  case (Suc fuel)
  have "calm (size_of_definition ub (max_serialized_size_impl fuel ub schema) (is_zero_size_impl fuel ub schema) cnt def)" for def
    using Suc.IH zero_size_calm [OF assms]
    by (auto simp: size_of_definition_def Let_def size_operations_calm split: Definition.split Fields.split intro!: calm_intros)
  then have "calm (and_then (case get_definition schema decl of None \<Rightarrow> fail (MissingDefinition decl)
      | Some def \<Rightarrow> size_of_definition ub (max_serialized_size_impl fuel ub schema) (is_zero_size_impl fuel ub schema) cnt def)
      pop_return)"
    by (auto intro!: calm_intros split: option.split)
  then show ?case unfolding max_serialized_size_impl.simps by (rule calm_visit)
qed (simp add: calm_def)

lemma sizes_do_not_panic:
  assumes "lengths_countable ub schema"
  shows "is_zero_size ub decl schema \<noteq> Some Panic" and "max_serialized_size ub schema \<noteq> Some Panic"
  using zero_size_calm [OF assms] max_size_calm [OF assms]
  by (auto simp: is_zero_size_def max_serialized_size_def calm_def)

subsection \<open>Soundness\<close>

abbreviation schema_encodes :: "BorshSchemaContainer \<Rightarrow> Declaration \<Rightarrow> bytes \<Rightarrow> bool" where
  "schema_encodes schema \<equiv> encodes (get_definition schema)"

lemma encodes_cases_by_definition:
  assumes "encodes D decl bs" and "D decl = Some def"
  shows "case def of
      Primitive n \<Rightarrow> length bs = unat n
    | Sequence width rng el \<Rightarrow> \<exists>n bs'. unat (range_start rng) \<le> n \<and> n \<le> unat (range_end rng) \<and>
        (width = 0 \<or> n < 256 ^ unat width) \<and> encodes_all D (replicate n el) bs' \<and> bs = le_bytes (unat width) n @ bs'
    | Tuple els \<Rightarrow> encodes_all D els bs
    | Enum width vs \<Rightarrow> \<exists>tag name v bs'. (tag, name, v) \<in> set vs \<and> encodes D v bs' \<and> bs = le_bytes (unat width) (unat tag) @ bs'
    | Struct flds \<Rightarrow> encodes_all D (refs (Struct flds)) bs"
  using assms(1) by (rule encodes_elim) (use assms(2) in auto)

lemma zero_all_true:
  assumes "zero_all f ds stack = Some (Ok True, stack')" and "encodes_all D ds bs"
    and "\<And>d s s' b. f d s = Some (Ok True, s') \<Longrightarrow> encodes D d b \<Longrightarrow> b = []"
  shows "bs = []"
  using assms(1,2)
proof (induction ds arbitrary: stack bs)
  case (Cons d ds)
  from Cons.prems(1) obtain s1 where d: "f d stack = Some (Ok True, s1)" and ds: "zero_all f ds s1 = Some (Ok True, stack')"
    by (auto simp: and_then_Ok_iff ret_Ok_iff split: if_splits)
  from Cons.prems(2) obtain b b' where "encodes D d b" "encodes_all D ds b'" "bs = b @ b'" by blast
  with assms(3) [OF d] Cons.IH [OF ds] show ?case by blast
qed auto

lemma zero_all_member:
  assumes "zero_all f ds stack = Some (Ok True, stack')" and "d \<in> set ds"
  shows "\<exists>s s'. f d s = Some (Ok True, s')"
  using assms
proof (induction ds arbitrary: stack)
  case (Cons x ds)
  then show ?case by (auto simp: and_then_Ok_iff ret_Ok_iff split: if_splits)
qed simp

lemma encodes_replicate_nil:
  "encodes_all D (replicate n el) bs \<Longrightarrow> (\<And>b. encodes D el b \<Longrightarrow> b = []) \<Longrightarrow> bs = []"
  by (induction n arbitrary: bs) auto

lemma count_one_from_zero:
  assumes "range_count ub rng = (Ok c :: ('e, nat) outcome)" and "c = 1" and "range_start rng = 0"
  shows "unat (range_end rng) = 0"
  using assms by (auto simp: range_count_def split: if_splits)

text \<open>\<open>is_zero_size\<close> returns true only for types all of whose encodings are empty.\<close>

lemma zero_of_definition_sound:
  assumes z: "zero_of_definition ub rec def s = Some (Ok True, s')"
    and rec: "\<And>d s s' b. rec d s = Some (Ok True, s') \<Longrightarrow> encodes D d b \<Longrightarrow> b = []"
    and "D decl = Some def" and "encodes D decl bs"
  shows "bs = []"
proof (cases def)
  case (Primitive n)
  with z encodes_cases_by_definition [OF assms(4,3)] show ?thesis
    by (auto simp: zero_of_definition_def pop_return_def)
next
  case (Sequence width rng el)
  with encodes_cases_by_definition [OF assms(4,3)] obtain n bs' where n: "n \<le> unat (range_end rng)"
      "encodes_all D (replicate n el) bs'" "bs = le_bytes (unat width) n @ bs'" by auto
  from z Sequence have w: "width = 0"
    and "(\<exists>c. (range_count ub rng :: (zero_size_error, nat) outcome) = Ok c \<and> c = 1 \<and> range_start rng = 0) \<or>
      (\<exists>s s'. rec el s = Some (Ok True, s'))"
    by (auto simp: zero_of_definition_def and_then_Ok_iff lift_def ret_Ok_iff pop_return_def split: if_splits)
  then consider c where "(range_count ub rng :: (zero_size_error, nat) outcome) = Ok c" "c = 1" "range_start rng = 0"
    | s s' where "rec el s = Some (Ok True, s')" by blast
  then have "bs' = []"
  proof cases
    case 1
    from count_one_from_zero [OF this] n(1) have "n = 0" by simp
    with n(2) show ?thesis by auto
  next
    case 2
    with rec encodes_replicate_nil [OF n(2)] show ?thesis by blast
  qed
  with n(3) w show ?thesis by simp
next
  case (Tuple els)
  with z obtain s1 s2 where "zero_all rec els s1 = Some (Ok True, s2)"
    by (auto simp: zero_of_definition_def and_then_Ok_iff pop_return_def)
  with encodes_cases_by_definition [OF assms(4,3)] Tuple rec show ?thesis by (auto elim: zero_all_true)
next
  case (Enum width vs)
  with encodes_cases_by_definition [OF assms(4,3)] obtain tag name v bs' where v: "(tag, name, v) \<in> set vs"
      "encodes D v bs'" "bs = le_bytes (unat width) (unat tag) @ bs'" by auto
  from z Enum obtain s1 s2 where w: "width = 0" and all: "zero_all rec (List.map (\<lambda>(_, _, v). v) vs) s1 = Some (Ok True, s2)"
    by (auto simp: zero_of_definition_def and_then_Ok_iff pop_return_def split: if_splits)
  have "v \<in> set (List.map (\<lambda>(_, _, v). v) vs)" using v(1) by force
  with zero_all_member [OF all] rec v(2) have "bs' = []" by blast
  with v(3) w show ?thesis by simp
next
  case (Struct flds)
  with encodes_cases_by_definition [OF assms(4,3)] have e: "encodes_all D (refs (Struct flds)) bs" by simp
  show ?thesis
  proof (cases "flds = Empty")
    case True
    with e show ?thesis by auto
  next
    case False
    with z Struct obtain s1 s2 where "zero_all rec (refs (Struct flds)) s1 = Some (Ok True, s2)"
      by (cases flds) (auto simp: zero_of_definition_def and_then_Ok_iff pop_return_def)
    with e rec show ?thesis by (auto elim: zero_all_true)
  qed
qed

lemma zero_size_sound_impl:
  "is_zero_size_impl fuel ub schema decl stack = Some (Ok True, stack') \<Longrightarrow> schema_encodes schema decl bs \<Longrightarrow> bs = []"
proof (induction fuel arbitrary: decl stack stack' bs)
  case (Suc fuel)
  from Suc.prems(1) obtain def s where def: "get_definition schema decl = Some def"
    and z: "zero_of_definition ub (is_zero_size_impl fuel ub schema) def s = Some (Ok True, stack')"
    by (cases "get_definition schema decl") (auto simp: and_then_Ok_iff fail_Ok_iff split: if_splits)
  show ?case by (rule zero_of_definition_sound [OF z Suc.IH def Suc.prems(2)])
qed simp

text \<open>
  \<open>max_serialized_size\<close> is an upper bound for the length of every encoding, provided that
  no sequence that can have more than one element has an enum as its element type: the
  branch for enums ignores the number of elements (\<open>max_size_enum_wrong\<close> below).
\<close>

fun is_enum :: "Definition option \<Rightarrow> bool" where
  "is_enum (Some (Enum _ _)) = True"
| "is_enum _ = False"

definition no_enum_elements :: "BorshSchemaContainer \<Rightarrow> bool" where
  "no_enum_elements schema \<longleftrightarrow> list_all (\<lambda>(_, def). case def of
       Sequence _ rng el \<Rightarrow> range_end rng \<le> 1 \<or> \<not> is_enum (get_definition schema el)
     | _ \<Rightarrow> True) (container_definitions schema)"

lemma no_enum_elementsD:
  "no_enum_elements schema \<Longrightarrow> get_definition schema k = Some (Sequence width rng el) \<Longrightarrow>
   unat (range_end rng) \<le> 1 \<or> \<not> is_enum (get_definition schema el)"
  by (auto simp: no_enum_elements_def get_definition_def list_all_iff word_le_nat_alt dest!: map_of_SomeD)

lemma length_replicate_bound:
  assumes "encodes_all D (replicate n el) bs" and "\<And>b. encodes D el b \<Longrightarrow> m * length b \<le> sz" and "n \<le> m"
  shows "length bs \<le> sz"
proof (cases "m = 0")
  case True
  with assms(1,3) show ?thesis by auto
next
  case False
  then have each: "encodes D el b \<Longrightarrow> length b \<le> sz div m" for b
    using assms(2) by (simp add: less_eq_div_iff_mult_less_eq mult.commute)
  have "length bs \<le> n * (sz div m)"
    using assms(1)
  proof (induction n arbitrary: bs)
    case (Suc n)
    then obtain b b' where "encodes D el b" "encodes_all D (replicate n el) b'" "bs = b @ b'" by auto
    with Suc.IH each [of b] show ?case by fastforce
  qed auto
  also have "\<dots> \<le> m * (sz div m)" using assms(3) by simp
  also have "\<dots> \<le> sz" by simp
  finally show ?thesis .
qed

lemma sum_sizes_bound:
  assumes "sum_sizes ub f ds acc s = Some (Ok tot, s')" and "encodes_all D ds bs"
    and "\<And>d s n s' b. f d s = Some (Ok n, s') \<Longrightarrow> encodes D d b \<Longrightarrow> length b \<le> n"
  shows "acc + length bs \<le> tot"
  using assms(1,2)
proof (induction ds arbitrary: acc s bs)
  case Nil
  then show ?case by (auto simp: ret_Ok_iff)
next
  case (Cons d ds)
  from Cons.prems(1) obtain n s1 where d: "f d s = Some (Ok n, s1)" and ds: "sum_sizes ub f ds (acc + n) s1 = Some (Ok tot, s')"
    by (auto simp: and_then_Ok_iff lift_def size_add_def split: if_splits)
  from Cons.prems(2) obtain b b' where "encodes D d b" "encodes_all D ds b'" "bs = b @ b'" by blast
  with assms(3) [OF d] Cons.IH [OF ds] show ?case by fastforce
qed

lemma max_sizes_bound:
  "max_sizes f ds mx s = Some (Ok m, s') \<Longrightarrow>
   mx \<le> m \<and> (\<forall>d\<in>set ds. \<exists>n s1 s2. f d s1 = Some (Ok n, s2) \<and> n \<le> m)"
proof (induction ds arbitrary: mx s)
  case Nil
  then show ?case by (auto simp: ret_Ok_iff)
next
  case (Cons d ds)
  then obtain n s1 where d: "f d s = Some (Ok n, s1)" and ds: "max_sizes f ds (max mx n) s1 = Some (Ok m, s')"
    by (auto simp: and_then_Ok_iff)
  from Cons.IH [OF ds] d show ?case by auto
qed

lemma size_tuple_bound:
  assumes "size_tuple ub f cnt ds s = Some (Ok m, s')" and "encodes_all D ds bs"
    and "\<And>d s n s' b. f d s = Some (Ok n, s') \<Longrightarrow> encodes D d b \<Longrightarrow> length b \<le> n"
  shows "cnt * length bs \<le> m"
proof -
  from assms(1) obtain tot where t: "sum_sizes ub f ds 0 s = Some (Ok tot, s')" and m: "m = cnt * tot"
    by (auto simp: size_tuple_def and_then_Ok_iff lift_def size_mul_def split: if_splits)
  from sum_sizes_bound [OF t assms(2,3)] m show ?thesis by simp
qed

lemma scaled_Ok:
  assumes "and_then m (\<lambda>sz. and_then (lift (size_add ub sz w)) (\<lambda>sz'. lift (size_mul ub cnt sz'))) s = Some (Ok r, s')"
  shows "\<exists>sz s1. m s = Some (Ok sz, s1) \<and> r = cnt * (sz + w)"
  using assms by (auto simp: and_then_Ok_iff lift_def size_mul_def size_add_def split: if_splits)

lemma size_of_definition_bound:
  assumes z: "size_of_definition ub rec zero cnt def s = Some (Ok m, s')"
    and rec: "\<And>k d s n s' b. rec k d s = Some (Ok n, s') \<Longrightarrow> k = 1 \<or> \<not> is_enum (D d) \<Longrightarrow> encodes D d b \<Longrightarrow>
      k * length b \<le> n"
    and zero: "\<And>d s s' b. zero d s = Some (Ok True, s') \<Longrightarrow> encodes D d b \<Longrightarrow> b = []"
    and seq: "\<And>width rng el. def = Sequence width rng el \<Longrightarrow> unat (range_end rng) \<le> 1 \<or> \<not> is_enum (D el)"
    and "D decl = Some def" and "encodes D decl bs" and cnt: "cnt = 1 \<or> \<not> is_enum (D decl)"
  shows "cnt * length bs \<le> m"
proof -
  note enc = encodes_cases_by_definition [OF assms(6,5)]
  have one: "rec 1 d s = Some (Ok n, s') \<Longrightarrow> encodes D d b \<Longrightarrow> length b \<le> n" for d s n s' b
    using rec [of 1 d s n s' b] by simp
  show ?thesis
  proof (cases def)
    case (Primitive n)
    with z enc show ?thesis
      by (auto simp: size_of_definition_def ret_Ok_iff lift_def size_mul_def split: if_splits)
  next
    case (Sequence width rng el)
    let ?max = "unat (range_end rng)"
    from enc Sequence obtain n bs' where n: "n \<le> ?max" "encodes_all D (replicate n el) bs'"
        "bs = le_bytes (unat width) n @ bs'" by auto
    let ?elements = "if ?max < 2 ^ ub then (if ?max \<noteq> 0 then rec ?max el else ret 0)
      else and_then (map_err from_zero_size_error (zero el)) (\<lambda>z. if z then ret 0 else fail Overflow)"
    from z Sequence have "and_then ?elements (\<lambda>sz. and_then (lift (size_add ub sz (unat width)))
        (\<lambda>sz'. lift (size_mul ub cnt sz'))) s = Some (Ok m, s')"
      by (simp add: size_of_definition_def Let_def)
    from scaled_Ok [OF this] obtain sz s1 where sz: "?elements s = Some (Ok sz, s1)"
      and m: "m = cnt * (sz + unat width)" by (elim exE conjE)
    have "length bs' \<le> sz"
    proof -
      consider "?max = 0" | "?max \<noteq> 0" "rec ?max el s = Some (Ok sz, s1)"
        | s2 where "zero el s = Some (Ok True, s2)"
        using sz by (fastforce simp: and_then_Ok_iff map_err_Ok_iff ret_Ok_iff fail_Ok_iff split: if_splits)
      then show ?thesis
      proof cases
        case 1
        with n(1,2) show ?thesis by auto
      next
        case 2
        from seq [OF Sequence] have "?max = 1 \<or> \<not> is_enum (D el)" using 2(1) by auto
        from length_replicate_bound [OF n(2) rec [OF 2(2) this] n(1)] show ?thesis .
      next
        case 3
        from encodes_replicate_nil [OF n(2) zero [OF 3]] show ?thesis by simp
      qed
    qed
    with n(3) have "length bs \<le> sz + unat width" by simp
    then show ?thesis unfolding m by (rule mult_le_mono2)
  next
    case (Tuple els)
    with z enc show ?thesis by (intro size_tuple_bound [where D = D and f = "rec 1" and s = s and s' = s'])
        (auto simp: size_of_definition_def intro: one)
  next
    case (Enum width vs)
    with enc obtain tag name v bs' where v: "(tag, name, v) \<in> set vs" "encodes D v bs'"
        "bs = le_bytes (unat width) (unat tag) @ bs'" by auto
    from z Enum obtain mx s1 where m: "m = mx + unat width"
      and mx: "max_sizes (rec 1) (List.map (\<lambda>(_, _, v). v) vs) 0 s = Some (Ok mx, s1)"
      by (auto simp: size_of_definition_def and_then_Ok_iff lift_def size_add_def split: if_splits)
    have "v \<in> set (List.map (\<lambda>(_, _, v). v) vs)" using v(1) by force
    with max_sizes_bound [OF mx] one v(2) have "length bs' \<le> mx" by (meson order_trans)
    moreover have "cnt = 1" using cnt assms(5) Enum by simp
    ultimately show ?thesis using v(3) m by simp
  next
    case (Struct flds)
    with z enc show ?thesis
      by (cases flds)
        (auto simp: size_of_definition_def ret_Ok_iff intro: one
          intro!: size_tuple_bound [where D = D and f = "rec 1" and s = s and s' = s'])
  qed
qed

lemma max_size_sound_impl:
  assumes "no_enum_elements schema"
  shows "max_serialized_size_impl fuel ub schema cnt decl stack = Some (Ok m, stack') \<Longrightarrow>
    cnt = 1 \<or> \<not> is_enum (get_definition schema decl) \<Longrightarrow> schema_encodes schema decl bs \<Longrightarrow> cnt * length bs \<le> m"
proof (induction fuel arbitrary: cnt decl stack m stack' bs)
  case (Suc fuel)
  from Suc.prems(1) obtain def s s' where def: "get_definition schema decl = Some def"
    and z: "size_of_definition ub (max_serialized_size_impl fuel ub schema) (is_zero_size_impl fuel ub schema) cnt def s =
      Some (Ok m, s')"
    by (cases "get_definition schema decl") (auto simp: and_then_Ok_iff fail_Ok_iff pop_return_def split: if_splits)
  show ?case
    by (rule size_of_definition_bound [OF z Suc.IH zero_size_sound_impl _ def Suc.prems(3,2)])
      (use no_enum_elementsD [OF assms] def in auto)
qed simp

lemma max_size_sound:
  assumes "max_serialized_size ub schema = Some (Ok m)" and "no_enum_elements schema"
    and "schema_encodes schema (container_declaration schema) bs"
  shows "length bs \<le> m"
proof -
  from assms(1) obtain stack where "max_serialized_size_impl (size_fuel schema) ub schema 1
      (container_declaration schema) [] = Some (Ok m, stack)"
    by (auto simp: max_serialized_size_def)
  from max_size_sound_impl [OF assms(2) this _ assms(3)] show ?thesis by simp
qed

end
