(* ===== verification/Schema_Validate.thy ===== *)
theory Schema_Validate
  imports Schema_Size "HOL-Library.Transitive_Closure_Table"
begin

section \<open>Validation of schema containers\<close>

text \<open>
  Models \<open>borsh/src/schema/container_ext/validate.rs\<close>. As for the sizes, the stack of the
  declarations being visited is the state, and the recursion is bounded by \<open>size_fuel\<close>,
  which is enough (\<open>validate_returns\<close>). The main result is \<open>validate_sound\<close>: the traversal
  cuts a path when it meets a declaration of the stack, and still has checked every
  declaration that can be reached from the root when it accepts.
\<close>

datatype validate_error =
    ZSTSequence Declaration
  | TagTooWide Declaration
  | TagTooNarrow Declaration
  | TagNotPowerOfTwo Declaration
  | UndefinedDeclaration Declaration
  | EmptyLengthRange Declaration

text \<open>The error \<open>MissingDefinition\<close> of this file is \<open>UndefinedDeclaration\<close> here.\<close>

definition check_length_width :: "Declaration \<Rightarrow> u8 \<Rightarrow> u64 \<Rightarrow> (validate_error, unit) outcome" where
  "check_length_width decl width mx =
     (if width = 0 then Ok ()
      else if width \<in> {3, 5, 6, 7} then Err (TagNotPowerOfTwo decl)
      else if 1 \<le> width \<and> width \<le> 7 \<and> mx < push_bit (unat (width * 8)) 1 then Ok ()
      else if 1 \<le> width \<and> width \<le> 7 then Err (TagTooNarrow decl)
      else if width = 8 then Ok ()
      else Err (TagTooWide decl))"

definition U64_LEN :: u8 where
  "U64_LEN = 8"

text \<open>The \<open>match\<close> on \<open>is_zero_size(elements, schema)\<close>, which starts with an empty stack of its own.\<close>

definition refuse_zero_sized ::
  "nat \<Rightarrow> BorshSchemaContainer \<Rightarrow> Declaration \<Rightarrow> Declaration \<Rightarrow> (Declaration list, validate_error, unit) eff" where
  "refuse_zero_sized usize_bits schema decl el stack =
     (case is_zero_size usize_bits el schema of
         None \<Rightarrow> None
       | Some res \<Rightarrow> Some
           (case res of
               Ok True \<Rightarrow> Err (ZSTSequence decl)
             | Ok False \<Rightarrow> Ok ()
             | Err ZeroRecursive \<Rightarrow> Ok ()
             | Err (ZeroMissingDefinition d) \<Rightarrow> Err (UndefinedDeclaration d)
             | Panic \<Rightarrow> Panic, stack))"

fun validate_each ::
  "(Declaration \<Rightarrow> (Declaration list, validate_error, unit) eff) \<Rightarrow> Declaration list \<Rightarrow>
   (Declaration list, validate_error, unit) eff" where
  "validate_each f [] = ret ()"
| "validate_each f (d # ds) = and_then (f d) (\<lambda>_. validate_each f ds)"

text \<open>The guard of the branch for arrays; \<open>count\<close> is only called for the width 0.\<close>

definition is_array_branch :: "nat \<Rightarrow> u8 \<Rightarrow> u64 RangeInclusive \<Rightarrow> (validate_error, bool) outcome" where
  "is_array_branch usize_bits width rng =
     (if width = ARRAY_LENGTH_WIDTH
      then (case range_count usize_bits rng of Ok n \<Rightarrow> Ok (n = 1) | Err e \<Rightarrow> Err e | Panic \<Rightarrow> Panic)
      else Ok False)"

definition validate_definition ::
  "nat \<Rightarrow> BorshSchemaContainer \<Rightarrow> (Declaration \<Rightarrow> (Declaration list, validate_error, unit) eff) \<Rightarrow>
   Declaration \<Rightarrow> Definition \<Rightarrow> (Declaration list, validate_error, unit) eff" where
  "validate_definition usize_bits schema rec decl def =
     (case def of
         Primitive sz \<Rightarrow> ret ()
       | Sequence width rng el \<Rightarrow>
           and_then (lift (is_array_branch usize_bits width rng)) (\<lambda>array.
             if array then rec el
             else if range_is_empty rng then fail (EmptyLengthRange decl)
             else
               and_then (lift (check_length_width decl width (range_end rng))) (\<lambda>_.
               and_then (refuse_zero_sized usize_bits schema decl el) (\<lambda>_.
               rec el)))
       | Enum width vs \<Rightarrow>
           if U64_LEN < width then fail (TagTooWide decl)
           else validate_each rec (List.map (\<lambda>(_, _, v). v) vs)
       | Tuple els \<Rightarrow> validate_each rec els
       | Struct flds \<Rightarrow>
           (case flds of
               NamedFields fs \<Rightarrow> validate_each rec (List.map snd fs)
             | UnnamedFields els \<Rightarrow> validate_each rec els
             | Empty \<Rightarrow> ret ()))"

primrec validate_impl ::
  "nat \<Rightarrow> nat \<Rightarrow> BorshSchemaContainer \<Rightarrow> Declaration \<Rightarrow> (Declaration list, validate_error, unit) eff" where
  "validate_impl 0 usize_bits schema decl = (\<lambda>stack. None)"
| "validate_impl (Suc fuel) usize_bits schema decl = (\<lambda>stack.
     case get_definition schema decl of
         None \<Rightarrow> Some (Err (UndefinedDeclaration decl), stack)
       | Some def \<Rightarrow>
           if decl \<in> set stack then Some (Ok (), stack)
           else and_then (push decl) (\<lambda>_.
                and_then (validate_definition usize_bits schema (validate_impl fuel usize_bits schema) decl def)
                  pop_return) stack)"

definition validate :: "nat \<Rightarrow> BorshSchemaContainer \<Rightarrow> (validate_error, unit) outcome option" where
  "validate usize_bits schema =
     map_option fst (validate_impl (size_fuel schema) usize_bits schema (container_declaration schema) [])"

subsection \<open>The widths of lengths\<close>

text \<open>The shift as a power, for the widths that reach it.\<close>

lemma width_limit:
  fixes mx :: u64
  assumes "width \<in> {1, 2, 4 :: u8}"
  shows "mx < push_bit (unat (width * 8)) 1 \<longleftrightarrow> unat mx < 256 ^ unat width"
  using assms by (auto simp: word_less_nat_alt)

lemma check_length_width_iff:
  "check_length_width decl width mx = Ok () \<longleftrightarrow>
     width \<in> {0, 1, 2, 4, 8} \<and> (width = 0 \<or> unat mx < 256 ^ unat width)"
proof -
  have small: "1 \<le> width \<and> width \<le> 7 \<longleftrightarrow> width \<in> {1, 2, 3, 4, 5, 6, 7 :: u8}"
  proof -
    have "1 \<le> width \<and> width \<le> 7 \<longleftrightarrow> unat width \<in> {1, 2, 3, 4, 5, 6, 7}"
      by (simp add: word_le_nat_alt) presburger
    also have "\<dots> \<longleftrightarrow> width \<in> {1, 2, 3, 4, 5, 6, 7 :: u8}"
      by (simp add: word_unat_eq_iff)
    finally show ?thesis .
  qed
  have "unat mx < 256 ^ 8" using unsigned_less [of mx] by simp
  then show ?thesis
    using small unfolding check_length_width_def by (auto simp: word_less_nat_alt)
qed

subsection \<open>The fuel is enough\<close>

lemma runs_validate_each: "(\<And>d. runs schema N (f d)) \<Longrightarrow> runs schema N (validate_each f ds)"
  by (induction ds) (auto intro!: runs_then runs_ret)

lemma runs_refuse: "runs schema N (refuse_zero_sized ub schema decl el)"
proof -
  obtain res where "is_zero_size ub el schema = Some res" using zero_size_returns [of ub el schema] by blast
  then show ?thesis
    by (auto simp: runs_def refuse_zero_sized_def split: outcome.splits zero_size_error.splits bool.splits)
qed

lemma validate_definition_runs:
  "(\<And>d. runs schema N (rec d)) \<Longrightarrow> runs schema N (validate_definition ub schema rec decl def)"
  by (auto simp: validate_definition_def split: Definition.split Fields.split
      intro!: runs_then runs_ret runs_fail runs_lift runs_validate_each runs_refuse)

lemma validate_runs: "runs schema fuel (validate_impl fuel ub schema decl)"
proof (induction fuel arbitrary: decl)
  case (Suc fuel)
  show ?case
  proof (cases "get_definition schema decl")
    case None
    then show ?thesis by (simp add: runs_def)
  next
    case (Some def)
    have visit: "runs schema (Suc fuel) (\<lambda>stack. if decl \<in> set stack then Some (Err (UndefinedDeclaration decl), stack)
      else and_then (push decl) (\<lambda>_. and_then (validate_definition ub schema (validate_impl fuel ub schema) decl def)
                  pop_return) stack)"
      by (rule runs_visit) (auto simp: Some intro!: popping_then popping_pop validate_definition_runs Suc.IH)
    show ?thesis
      unfolding runs_def
    proof (intro allI impI)
      fix stack assume "unvisited schema stack < Suc fuel"
      with visit show "validate_impl (Suc fuel) ub schema decl stack \<noteq> None \<and>
        (\<forall>v stack'. validate_impl (Suc fuel) ub schema decl stack = Some (Ok v, stack') \<longrightarrow> (\<exists>more. stack' = stack @ more))"
        unfolding runs_def by (cases "decl \<in> set stack") (auto simp: Some dest: spec [where x = stack])
    qed
  qed
qed (simp add: runs_def)

lemma validate_returns: "validate ub schema \<noteq> None"
  using validate_runs [of schema "size_fuel schema" ub "container_declaration schema"] unvisited_fuel [of schema "[]"]
  by (auto simp: runs_def validate_def)

subsection \<open>Panics\<close>

lemma calm_validate_each [calm_intros]: "(\<And>d. calm (f d)) \<Longrightarrow> calm (validate_each f ds)"
  by (induction ds) (auto intro!: calm_intros)

lemma calm_refuse [calm_intros]: "lengths_countable ub schema \<Longrightarrow> calm (refuse_zero_sized ub schema decl el)"
  using sizes_do_not_panic(1) [of ub schema el]
  by (auto simp: calm_def refuse_zero_sized_def split: option.splits outcome.splits zero_size_error.splits bool.splits)

lemma array_branch_calm:
  assumes "lengths_countable ub schema" and "get_definition schema decl = Some (Sequence width rng el)"
  shows "is_array_branch ub width rng \<noteq> Panic"
  using countable_count [OF assms(1)] assms(2)
  by (auto simp: is_array_branch_def ARRAY_LENGTH_WIDTH_def split: outcome.split)

lemma check_length_width_calm: "check_length_width decl width mx \<noteq> Panic"
  by (simp add: check_length_width_def)

lemma validate_calm:
  assumes "lengths_countable ub schema"
  shows "calm (validate_impl fuel ub schema decl)"
proof (induction fuel arbitrary: decl)
  case (Suc fuel)
  have "calm (and_then (push decl) (\<lambda>_. and_then (validate_definition ub schema (validate_impl fuel ub schema) decl def) pop_return))"
    if "get_definition schema decl = Some def" for def
    using Suc.IH assms array_branch_calm [OF assms, of decl] that
    by (auto simp: validate_definition_def check_length_width_calm split: Definition.split Fields.split intro!: calm_intros)
  then show ?case by (auto simp: calm_def split: option.split)
qed (simp add: calm_def)

lemma validate_does_not_panic: "lengths_countable ub schema \<Longrightarrow> validate ub schema \<noteq> Some Panic"
  using validate_calm by (auto simp: validate_def calm_def)

subsection \<open>What validation accepts\<close>

definition locally_valid :: "nat \<Rightarrow> BorshSchemaContainer \<Rightarrow> Definition \<Rightarrow> bool" where
  "locally_valid ub schema def = (case def of
       Sequence width rng el \<Rightarrow>
         (width = 0 \<and> range_count ub rng = (Ok 1 :: (validate_error, nat) outcome)) \<or>
         ((width = 0 \<longrightarrow> range_count ub rng \<noteq> (Panic :: (validate_error, nat) outcome)) \<and>
          \<not> range_is_empty rng \<and> width \<in> {0, 1, 2, 4, 8} \<and>
          (width = 0 \<or> unat (range_end rng) < 256 ^ unat width) \<and>
          is_zero_size ub el schema \<in> {Some (Ok False), Some (Err ZeroRecursive)})
     | Enum width vs \<Rightarrow> width \<le> 8
     | _ \<Rightarrow> True)"

definition validly_declared :: "nat \<Rightarrow> BorshSchemaContainer \<Rightarrow> Declaration \<Rightarrow> bool" where
  "validly_declared ub schema decl \<longleftrightarrow> (\<exists>def. get_definition schema decl = Some def \<and> locally_valid ub schema def)"

definition refers :: "BorshSchemaContainer \<Rightarrow> Declaration \<Rightarrow> Declaration \<Rightarrow> bool" where
  "refers schema d e \<longleftrightarrow> (\<exists>def. get_definition schema d = Some def \<and> e \<in> set (refs def))"

text \<open>An effect on the stack that gives it back as it was when it succeeds.\<close>

definition restores :: "(Declaration list, 'e, 'a) eff \<Rightarrow> bool" where
  "restores m \<longleftrightarrow> (\<forall>s v s'. m s = Some (Ok v, s') \<longrightarrow> s' = s)"

lemma restores_then: "restores m \<Longrightarrow> (\<And>v. restores (k v)) \<Longrightarrow> restores (and_then m k)"
  unfolding restores_def by (metis and_then_Ok_iff)

lemma restores_basic: "restores (ret v)" "restores (fail e)" "restores (lift r)"
    "restores (refuse_zero_sized ub schema decl el)"
  by (auto simp: restores_def ret_def fail_def lift_def refuse_zero_sized_def split: option.splits)

lemma restores_each: "(\<And>d. restores (f d)) \<Longrightarrow> restores (validate_each f ds)"
  by (induction ds) (auto intro!: restores_then restores_basic)

lemma restores_definition: "(\<And>d. restores (rec d)) \<Longrightarrow> restores (validate_definition ub schema rec decl def)"
  by (auto simp: validate_definition_def split: Definition.split Fields.split
      intro!: restores_then restores_basic restores_each)

lemma restores_impl: "restores (validate_impl fuel ub schema decl)"
proof (induction fuel arbitrary: decl)
  case (Suc fuel)
  show ?case
    unfolding restores_def
    by (auto simp: and_then_Ok_iff push_def pop_return_def split: option.splits if_splits
        dest: restores_definition [OF Suc.IH, unfolded restores_def, rule_format])
qed (simp add: restores_def)

abbreviation accepts :: "nat \<Rightarrow> nat \<Rightarrow> BorshSchemaContainer \<Rightarrow> Declaration list \<Rightarrow> Declaration \<Rightarrow> bool" where
  "accepts fuel ub schema stack decl \<equiv> validate_impl fuel ub schema decl stack = Some (Ok (), stack)"

lemma restored_then:
  assumes "restores m"
  shows "and_then m k s = Some (Ok w, s') \<longleftrightarrow> (\<exists>v. m s = Some (Ok v, s) \<and> k v s = Some (Ok w, s'))"
  using assms unfolding and_then_Ok_iff restores_def by blast

lemma validate_each_iff:
  assumes "\<And>d. restores (f d)"
  shows "validate_each f ds s = Some (Ok (), s) \<longleftrightarrow> (\<forall>d\<in>set ds. f d s = Some (Ok (), s))"
  by (induction ds) (auto simp: restored_then [OF assms] ret_def)

lemma refuse_iff: "refuse_zero_sized ub schema decl el s = Some (Ok (), s) \<longleftrightarrow>
    is_zero_size ub el schema \<in> {Some (Ok False), Some (Err ZeroRecursive)}"
  by (auto simp: refuse_zero_sized_def split: option.splits outcome.splits bool.splits zero_size_error.splits)

lemma lift_Ok_iff: "lift r s = Some (Ok v, s') \<longleftrightarrow> r = Ok v \<and> s' = s"
  by (auto simp: lift_def)

lemma array_branch_iff: "is_array_branch ub width rng = Ok b \<longleftrightarrow>
    (if b then width = 0 \<and> range_count ub rng = (Ok 1 :: (validate_error, nat) outcome)
     else width = 0 \<longrightarrow> (\<exists>n. n \<noteq> 1 \<and> range_count ub rng = (Ok n :: (validate_error, nat) outcome)))"
  by (auto simp: is_array_branch_def ARRAY_LENGTH_WIDTH_def split: outcome.splits)

lemma range_count_no_error: "range_count ub rng \<noteq> Err e"
  by (simp add: range_count_def)

lemma sequence_valid_iff:
  "(\<exists>b. is_array_branch ub width rng = Ok b \<and>
      (b \<or> (\<not> range_is_empty rng \<and> check_length_width decl width (range_end rng) = Ok () \<and> Z))) \<longleftrightarrow>
   (width = 0 \<and> range_count ub rng = (Ok 1 :: (validate_error, nat) outcome)) \<or>
   ((width = 0 \<longrightarrow> range_count ub rng \<noteq> (Panic :: (validate_error, nat) outcome)) \<and>
    \<not> range_is_empty rng \<and> width \<in> {0, 1, 2, 4, 8} \<and>
    (width = 0 \<or> unat (range_end rng) < 256 ^ unat width) \<and> Z)"
  unfolding ex_bool_eq array_branch_iff check_length_width_iff
  by (cases "range_count ub rng :: (validate_error, nat) outcome"; cases "width = 0")
    (simp_all add: range_count_no_error, blast+)

lemma sequence_iff:
  assumes "\<And>d. restores (rec d)"
  shows "validate_definition ub schema rec decl (Sequence width rng el) s = Some (Ok (), s) \<longleftrightarrow>
    locally_valid ub schema (Sequence width rng el) \<and> rec el s = Some (Ok (), s)"
proof -
  have "validate_definition ub schema rec decl (Sequence width rng el) s = Some (Ok (), s) \<longleftrightarrow>
      (\<exists>b. is_array_branch ub width rng = Ok b \<and>
        (b \<or> (\<not> range_is_empty rng \<and> check_length_width decl width (range_end rng) = Ok () \<and>
          is_zero_size ub el schema \<in> {Some (Ok False), Some (Err ZeroRecursive)}))) \<and> rec el s = Some (Ok (), s)"
    unfolding validate_definition_def Definition.case restored_then [OF restores_basic(3)] lift_Ok_iff ex_bool_eq
    by (simp add: restored_then restores_basic lift_Ok_iff refuse_iff fail_def) blast
  then show ?thesis unfolding sequence_valid_iff locally_valid_def Definition.case .
qed

lemma validate_definition_iff:
  assumes "\<And>d. restores (rec d)"
  shows "validate_definition ub schema rec decl def s = Some (Ok (), s) \<longleftrightarrow>
    locally_valid ub schema def \<and> (\<forall>e\<in>set (refs def). rec e s = Some (Ok (), s))"
proof (cases def)
  case (Sequence width rng el)
  with sequence_iff [OF assms] show ?thesis by simp
next
  case (Struct flds)
  then show ?thesis
    by (cases flds) (simp_all add: validate_definition_def locally_valid_def validate_each_iff [OF assms] ret_def)
qed (auto simp: validate_definition_def locally_valid_def validate_each_iff [OF assms] ret_def fail_def U64_LEN_def)

lemma accepts_Suc: "accepts (Suc fuel) ub schema stack decl \<longleftrightarrow>
    (\<exists>def. get_definition schema decl = Some def \<and>
      (decl \<in> set stack \<or> locally_valid ub schema def \<and> (\<forall>e\<in>set (refs def). accepts fuel ub schema (stack @ [decl]) e)))"
proof (cases "get_definition schema decl")
  case (Some def)
  have "and_then (validate_definition ub schema (validate_impl fuel ub schema) decl def) pop_return (stack @ [decl]) =
      Some (Ok (), stack) \<longleftrightarrow>
      validate_definition ub schema (validate_impl fuel ub schema) decl def (stack @ [decl]) = Some (Ok (), stack @ [decl])"
    by (simp add: restored_then [OF restores_definition [OF restores_impl]] pop_return_def)
  with Some show ?thesis
    by (simp add: push_def and_then_eval validate_definition_iff [OF restores_impl])
qed simp

subsection \<open>All reachable declarations have been checked\<close>

text \<open>
  A path that repeats no declaration and avoids the stack is followed by the traversal to
  its end, and every path contains one that repeats no declaration.
\<close>

lemma accepts_path:
  assumes "rtrancl_path (refers schema) decl ds final"
  shows "accepts fuel ub schema stack decl \<Longrightarrow> distinct (decl # ds) \<Longrightarrow> set (decl # ds) \<inter> set stack = {} \<Longrightarrow>
    validly_declared ub schema final"
  using assms
proof (induction arbitrary: fuel stack rule: rtrancl_path.induct)
  case (base decl)
  then show ?case by (cases fuel) (auto simp: accepts_Suc validly_declared_def simp del: validate_impl.simps(2))
next
  case (step decl d ds final)
  from step.prems(1) obtain n where fuel: "fuel = Suc n" by (cases fuel) auto
  from step.prems(1) [unfolded fuel accepts_Suc] step.prems(3)
  obtain def where def: "get_definition schema decl = Some def"
    and each: "\<forall>e\<in>set (refs def). accepts n ub schema (stack @ [decl]) e" by auto
  from step.hyps(1) def have "d \<in> set (refs def)" by (auto simp: refers_def)
  with each have "accepts n ub schema (stack @ [decl]) d" by blast
  then show ?case by (rule step.IH) (use step.prems in auto)
qed

lemma accepts_sound:
  assumes "accepts fuel ub schema [] decl" and "(refers schema)\<^sup>*\<^sup>* decl d"
  shows "validly_declared ub schema d"
proof -
  from assms(2) obtain ds where "rtrancl_path (refers schema) decl ds d"
    by (auto simp: rtranclp_eq_rtrancl_path)
  then obtain ds' where "rtrancl_path (refers schema) decl ds' d" and "distinct (decl # ds')"
    by (rule rtrancl_path_distinct) blast
  with assms(1) show ?thesis using accepts_path by fastforce
qed

lemma accepts_complete:
  "unvisited schema stack < fuel \<Longrightarrow> \<forall>d. (refers schema)\<^sup>*\<^sup>* decl d \<longrightarrow> validly_declared ub schema d \<Longrightarrow>
   accepts fuel ub schema stack decl"
proof (induction fuel arbitrary: decl stack)
  case (Suc fuel)
  from Suc.prems(2) obtain def where def: "get_definition schema decl = Some def" and valid: "locally_valid ub schema def"
    by (auto simp: validly_declared_def)
  show ?case
  proof (cases "decl \<in> set stack")
    case True
    with def show ?thesis unfolding accepts_Suc by blast
  next
    case False
    from unvisited_push [OF def False] Suc.prems(1) have fuel: "unvisited schema (stack @ [decl]) < fuel" by simp
    have "accepts fuel ub schema (stack @ [decl]) e" if "e \<in> set (refs def)" for e
    proof (rule Suc.IH [OF fuel])
      have "refers schema decl e" using def that by (auto simp: refers_def)
      with Suc.prems(2) show "\<forall>d. (refers schema)\<^sup>*\<^sup>* e d \<longrightarrow> validly_declared ub schema d"
        by (blast intro: converse_rtranclp_into_rtranclp)
    qed
    with def valid show ?thesis unfolding accepts_Suc by blast
  qed
qed simp

lemma validate_accepts: "validate ub schema = Some (Ok ()) \<longleftrightarrow>
    accepts (size_fuel schema) ub schema [] (container_declaration schema)"
  using restores_impl [of "size_fuel schema" ub schema "container_declaration schema"]
  by (auto simp: validate_def restores_def)

lemma validate_iff: "validate ub schema = Some (Ok ()) \<longleftrightarrow>
    (\<forall>d. (refers schema)\<^sup>*\<^sup>* (container_declaration schema) d \<longrightarrow> validly_declared ub schema d)"
  unfolding validate_accepts using accepts_sound accepts_complete unvisited_fuel by blast

end
