(* ===== verification/Schema_Generated.thy ===== *)
theory Schema_Generated
  imports Schema_Validate
begin

section \<open>The containers that the implementations generate\<close>

text \<open>
  \<open>implemented\<close> is the closure of the implementations of \<open>BorshSchema\<close> in
  \<open>borsh/src/schema.rs\<close> and of the derived ones under application. Every container that
  \<open>for_type\<close> makes for such a type is closed and well formed, so the only thing that
  \<open>validate\<close> can report on it is a sequence of zero-sized elements
  (\<open>generated_validates\<close>).
\<close>

inductive implemented :: "BorshSchema \<Rightarrow> bool" where
  primitive: "primitive_type ty = Some B \<Longrightarrow> implemented B"
| transparent: "implemented T \<Longrightarrow> implemented (transparent_schema T)"
| phantom: "implemented phantom_schema"
| str: "implemented str_schema"
| ascii_char: "implemented ascii_char_schema"
| ascii_str: "implemented ascii_str_schema"
| range_full: "implemented range_full_schema"
| range: "implemented T \<Longrightarrow> implemented (range_schema name bounds T)"
| array: "implemented T \<Longrightarrow> implemented (array_schema N T)"
| option: "implemented T \<Longrightarrow> implemented (option_schema T)"
| result: "implemented T \<Longrightarrow> implemented E \<Longrightarrow> implemented (result_schema T E)"
| collection: "implemented T \<Longrightarrow> implemented (collection_schema name T)"
| tuple: "(\<And>T. T \<in> set Ts \<Longrightarrow> implemented T) \<Longrightarrow> implemented (tuple_schema Ts)"
| map: "implemented K \<Longrightarrow> implemented V \<Longrightarrow> implemented (map_schema name K V)"
| struct: "(\<And>f. f \<in> set (snd (process_fields item)) \<Longrightarrow> declaration_override f = None \<and>
      definitions_override f = None \<and> implemented (field_type f)) \<Longrightarrow>
    implemented (derived_struct_schema ident params item)"
| enum: "(\<And>v. v \<in> set vs \<Longrightarrow> implemented (variant_schema ident v)) \<Longrightarrow>
    implemented (derived_enum_schema ident params vs)"

lemma implemented_impl: "implemented B \<Longrightarrow> schema_impl B"
proof (induction rule: implemented.induct)
  case (primitive ty B)
  then show ?case by (auto simp: primitive_type_def primitive_schema_impl)
next
  case (tuple Ts)
  then show ?case by (intro tuple_schema_impl) blast
next
  case (struct item ident params)
  have "field_lawful f" if "f \<in> set (snd (process_fields item))" for f
    using struct.IH [OF that]
    by (simp add: field_lawful_def field_definitions_def field_declaration_def
        schema_impl.adds_impl schema_impl.stable_impl)
  then show ?case by (intro derived_struct_schema_impl) blast
next
  case (enum vs ident params)
  then show ?case by (intro derived_enum_schema_impl) blast
qed (simp_all add: transparent_schema_impl phantom_schema_impl str_schema_impl known_schema_impls
    ascii_str_schema_impl range_full_schema_impl range_schema_impl array_schema_impl option_schema_impl
    result_schema_impl collection_schema_impl map_schema_impl)

subsection \<open>Only well-formed definitions are added\<close>

text \<open>The definitions that a validator accepts whatever they refer to.\<close>

definition well_tagged :: "Definition \<Rightarrow> bool" where
  "well_tagged def = (case def of
       Sequence width rng el \<Rightarrow> rng = DEFAULT_LENGTH_RANGE \<and> width = DEFAULT_LENGTH_WIDTH \<or>
         (\<exists>n. rng = range_inclusive n n) \<and> width = ARRAY_LENGTH_WIDTH
     | Enum width vs \<Rightarrow> width = 1
     | _ \<Rightarrow> True)"

definition keeps :: "(Definition \<Rightarrow> bool) \<Rightarrow> add_effect \<Rightarrow> bool" where
  "keeps P m \<longleftrightarrow> (\<forall>d d'. m d = Some (Ok (), d') \<longrightarrow> (\<forall>(k, def)\<in>set d. P def) \<longrightarrow> (\<forall>(k, def)\<in>set d'. P def))"

named_theorems keep_intros \<open>effects that only add definitions with a property\<close>

lemma btree_map_insert_set: "set (btree_map_insert k v d) \<subseteq> insert (k, v) (set d)"
  by (induction d) (auto split: if_splits)

lemma keeps_definition [keep_intros]: "P def \<Longrightarrow> keeps P (add_definition k def)"
  unfolding keeps_def add_definition_def
  using btree_map_insert_set [of k def] by (fastforce split: option.splits if_splits)

lemma keeps_then [keep_intros]:
  assumes "keeps P m" and "keeps P k"
  shows "keeps P (and_then m (\<lambda>_. k))"
  unfolding keeps_def
proof (intro allI impI)
  fix d d'
  assume "and_then m (\<lambda>_. k) d = Some (Ok (), d')" and P: "\<forall>(k, def)\<in>set d. P def"
  then obtain d1 where "m d = Some (Ok (), d1)" and k: "k d1 = Some (Ok (), d')" by (auto simp: and_then_Ok_iff)
  with assms(1) P have "\<forall>(k, def)\<in>set d1. P def" unfolding keeps_def by blast
  with assms(2) k show "\<forall>(k, def)\<in>set d'. P def" unfolding keeps_def by blast
qed

lemma keeps_ret [keep_intros]: "keeps P (ret ())"
  by (simp add: keeps_def ret_def)

lemma keeps_panic [keep_intros]: "keeps P panic"
  by (simp add: keeps_def panic_def)

lemma keeps_each [keep_intros]: "(\<And>x. x \<in> set xs \<Longrightarrow> keeps P (f x)) \<Longrightarrow> keeps P (for_each f xs)"
  by (induction xs) (auto intro: keep_intros)

lemma keeps_read: "(\<And>b. keeps P (k b)) \<Longrightarrow> keeps P (\<lambda>d. k (f d) d)"
  unfolding keeps_def by blast

lemma well_tagged_sequences [simp]:
  "well_tagged (tagged_sequence el)" "well_tagged (Sequence ARRAY_LENGTH_WIDTH (range_inclusive n n) el)"
  "well_tagged (Primitive sz)" "well_tagged (Tuple els)" "well_tagged (Struct flds)" "well_tagged (Enum 1 vs)"
  by (auto simp: well_tagged_def tagged_sequence_def)

lemma implemented_keeps: "implemented B \<Longrightarrow> keeps well_tagged (add_definitions_recursively B)"
proof (induction rule: implemented.induct)
  case (primitive ty B)
  then show ?case by (auto simp: primitive_type_def primitive_schema_def intro!: keep_intros)
next
  case (struct item ident params)
  have fields: "keeps well_tagged (field_definitions f)" if "f \<in> set (snd (process_fields item))" for f
    using struct.IH [OF that] by (simp add: field_definitions_def)
  show ?case
    unfolding derived_struct_schema_def Let_def BorshSchema.simps
    by (rule keeps_read) (auto intro!: keep_intros fields)
next
  case (enum vs ident params)
  then show ?case
    unfolding derived_enum_schema_def add_all_def Let_def BorshSchema.simps
    by (auto intro!: keep_intros)
qed (simp_all add: transparent_schema_def phantom_schema_def unit_schema_def u8_schema_def primitive_schema_def str_schema_def
    ascii_char_schema_def ascii_str_schema_def range_full_schema_def range_schema_def array_schema_def option_schema_def
    result_schema_def collection_schema_def tuple_schema_def map_schema_def add_all_def Let_def
    keep_intros)

definition closed_schema :: "BorshSchemaContainer \<Rightarrow> bool" where
  "closed_schema schema \<longleftrightarrow> (\<forall>d def. get_definition schema d = Some def \<longrightarrow>
     well_tagged def \<and> (\<forall>e\<in>set (refs def). get_definition schema e \<noteq> None))"

lemma generated_closed:
  assumes "implemented B" and "for_type B = Some (Ok c)"
  shows "closed_schema c" and "get_definition c (container_declaration c) \<noteq> None"
proof -
  note impl = schema_impl.for_type_closed [OF implemented_impl [OF assms(1)] assms(2)]
  from assms(2) obtain d where d: "add_definitions_recursively B [] = Some (Ok (), d)"
    and c: "c = container_new (declaration_of B) d"
    by (auto simp: for_type_def split: option.splits prod.splits outcome.splits)
  from implemented_keeps [OF assms(1)] d have "\<forall>(k, def)\<in>set d. well_tagged def"
    by (simp add: keeps_def)
  then show "closed_schema c"
    unfolding closed_schema_def using impl(4) c
    by (fastforce simp: get_definition_map_of container_new_def dest: map_of_SomeD)
  show "get_definition c (container_declaration c) \<noteq> None" using impl(1,3) by simp
qed

subsection \<open>Effects that fail only in known ways\<close>

definition fails_only :: "('e \<Rightarrow> bool) \<Rightarrow> ('s, 'e, 'a) eff \<Rightarrow> bool" where
  "fails_only E m \<longleftrightarrow> (\<forall>s r s'. m s = Some (r, s') \<longrightarrow> r \<noteq> Panic \<and> (\<forall>e. r = Err e \<longrightarrow> E e))"

named_theorems fail_intros \<open>effects that fail only in known ways\<close>

lemma fails_ret [fail_intros]: "fails_only E (ret v)"
  by (simp add: fails_only_def ret_def)

lemma fails_fail [fail_intros]: "E e \<Longrightarrow> fails_only E (fail e)"
  by (simp add: fails_only_def fail_def)

lemma fails_lift [fail_intros]: "r \<noteq> Panic \<Longrightarrow> (\<And>e. r = Err e \<Longrightarrow> E e) \<Longrightarrow> fails_only E (lift r)"
  by (auto simp: fails_only_def lift_def)

lemma fails_then:
  assumes "fails_only E m" and "\<And>v s s'. m s = Some (Ok v, s') \<Longrightarrow> fails_only E (k v)"
  shows "fails_only E (and_then m k)"
  using assms unfolding fails_only_def and_then_def
  by (fastforce split: option.splits prod.splits outcome.splits)

lemma fails_stack [fail_intros]: "fails_only E (push d)" "fails_only E (pop_return v)"
  by (simp_all add: fails_only_def push_def pop_return_def)

lemma fails_then' [fail_intros]:
  "fails_only E m \<Longrightarrow> (\<And>v. fails_only E (k v)) \<Longrightarrow> fails_only E (and_then m k)"
  by (rule fails_then)

lemma fails_zero_all: "(\<And>d. d \<in> set ds \<Longrightarrow> fails_only E (f d)) \<Longrightarrow> fails_only E (zero_all f ds)"
  by (induction ds) (auto intro!: fail_intros)

lemma fails_validate_each: "(\<And>d. d \<in> set ds \<Longrightarrow> fails_only E (f d)) \<Longrightarrow> fails_only E (validate_each f ds)"
  by (induction ds) (auto intro!: fail_intros)

subsection \<open>Validation of closed containers\<close>

lemma range_count_single: "0 < ub \<Longrightarrow> range_count ub (range_inclusive n n) = Ok 1"
  using one_less_power [of "2 :: nat" ub] by (simp add: range_count_def range_is_empty_def range_inclusive_def)

lemma fails_visit_zero:
  assumes "get_definition schema decl = Some def" and "fails_only E (zero_of_definition ub rec def)"
    and "E ZeroRecursive" and "rec = is_zero_size_impl fuel ub schema"
  shows "fails_only E (is_zero_size_impl (Suc fuel) ub schema decl)"
proof -
  have "fails_only E (and_then (push decl) (\<lambda>_. zero_of_definition ub rec def))"
    by (intro fail_intros assms(2))
  with assms(1,3,4) show ?thesis by (auto simp: fails_only_def)
qed

lemma zero_size_closed:
  assumes "closed_schema schema" and ub: "0 < ub"
  shows "get_definition schema decl \<noteq> None \<Longrightarrow>
    fails_only (\<lambda>e. e = ZeroRecursive) (is_zero_size_impl fuel ub schema decl)"
proof (induction fuel arbitrary: decl)
  case (Suc fuel)
  let ?rec = "is_zero_size_impl fuel ub schema" and ?E = "\<lambda>e. e = ZeroRecursive"
  from Suc.prems obtain def where def: "get_definition schema decl = Some def" by blast
  with assms(1) have tagged: "well_tagged def" and refs: "\<And>e. e \<in> set (refs def) \<Longrightarrow> get_definition schema e \<noteq> None"
    by (auto simp: closed_schema_def)
  have rec: "\<And>e. e \<in> set (refs def) \<Longrightarrow> fails_only ?E (?rec e)" by (rule Suc.IH) (rule refs)
  have "fails_only ?E (zero_of_definition ub ?rec def)"
  proof (cases def)
    case (Sequence width rng el)
    then have "width = 0 \<Longrightarrow> range_count ub rng = (Ok 1 :: (zero_size_error, nat) outcome)"
      using tagged range_count_single [OF ub]
      by (auto simp: well_tagged_def DEFAULT_LENGTH_WIDTH_def ARRAY_LENGTH_WIDTH_def)
    moreover have "fails_only ?E (?rec el)" using rec Sequence by simp
    ultimately show ?thesis
      using Sequence by (auto simp: zero_of_definition_def intro!: fail_intros)
  next
    case (Struct flds)
    with rec show ?thesis
      by (cases flds) (auto simp: zero_of_definition_def intro!: fail_intros fails_zero_all)
  qed (use rec in \<open>auto simp: zero_of_definition_def intro!: fail_intros fails_zero_all\<close>)
  from fails_visit_zero [OF def this refl refl] show ?case .
qed (simp add: fails_only_def)

abbreviation zst_sequence :: "validate_error \<Rightarrow> bool" where
  "zst_sequence e \<equiv> \<exists>d. e = ZSTSequence d"

lemma refuse_closed:
  assumes "closed_schema schema" and "0 < ub" and "get_definition schema el \<noteq> None"
  shows "fails_only zst_sequence (refuse_zero_sized ub schema decl el)"
proof -
  obtain res stack where r: "is_zero_size_impl (size_fuel schema) ub schema el [] = Some (res, stack)"
    and z: "is_zero_size ub el schema = Some res"
    using zero_size_returns [of ub el schema] by (auto simp: is_zero_size_def)
  from zero_size_closed [OF assms] r have "res \<noteq> Panic" and "\<And>e. res = Err e \<Longrightarrow> e = ZeroRecursive"
    unfolding fails_only_def by blast+
  then show ?thesis
    by (cases res) (auto simp: fails_only_def refuse_zero_sized_def z split: bool.splits)
qed

lemma default_range_valid:
  "\<not> range_is_empty DEFAULT_LENGTH_RANGE"
  "check_length_width decl DEFAULT_LENGTH_WIDTH (range_end DEFAULT_LENGTH_RANGE) = Ok ()"
  by (simp_all add: range_is_empty_def DEFAULT_LENGTH_RANGE_def range_inclusive_def
      check_length_width_iff DEFAULT_LENGTH_WIDTH_def)

lemma validate_closed:
  assumes closed: "closed_schema schema" and ub: "0 < ub"
  shows "get_definition schema decl \<noteq> None \<Longrightarrow> fails_only zst_sequence (validate_impl fuel ub schema decl)"
proof (induction fuel arbitrary: decl)
  case (Suc fuel)
  let ?rec = "validate_impl fuel ub schema"
  from Suc.prems obtain def where def: "get_definition schema decl = Some def" by blast
  with closed have tagged: "well_tagged def" and refs: "\<And>e. e \<in> set (refs def) \<Longrightarrow> get_definition schema e \<noteq> None"
    by (auto simp: closed_schema_def)
  have rec: "\<And>e. e \<in> set (refs def) \<Longrightarrow> fails_only zst_sequence (?rec e)" by (rule Suc.IH) (rule refs)
  have "fails_only zst_sequence (validate_definition ub schema ?rec decl def)"
  proof (cases def)
    case (Sequence width rng el)
    have el: "fails_only zst_sequence (?rec el)" "fails_only zst_sequence (refuse_zero_sized ub schema decl el)"
      using rec refuse_closed [OF closed ub refs] Sequence by simp_all
    from tagged Sequence consider (default) "rng = DEFAULT_LENGTH_RANGE" "width = DEFAULT_LENGTH_WIDTH"
      | (array) n where "rng = range_inclusive n n" "width = ARRAY_LENGTH_WIDTH"
      by (auto simp: well_tagged_def)
    then show ?thesis
    proof cases
      case default
      then have "is_array_branch ub width rng = Ok False"
        by (simp add: is_array_branch_def DEFAULT_LENGTH_WIDTH_def ARRAY_LENGTH_WIDTH_def)
      with Sequence default el default_range_valid show ?thesis
        by (auto simp: validate_definition_def intro!: fail_intros fails_then [where m = "lift r" for r]
            simp: lift_Ok_iff)
    next
      case array
      then have "is_array_branch ub width rng = Ok True"
        by (simp add: is_array_branch_def range_count_single [OF ub])
      with Sequence array el show ?thesis
        by (auto simp: validate_definition_def intro!: fail_intros fails_then [where m = "lift r" for r]
            simp: lift_Ok_iff)
    qed
  next
    case (Struct flds)
    with rec show ?thesis
      by (cases flds) (auto simp: validate_definition_def intro!: fail_intros fails_validate_each)
  next
    case (Enum width vs)
    with tagged rec show ?thesis
      by (auto simp: validate_definition_def well_tagged_def U64_LEN_def intro!: fail_intros fails_validate_each)
  qed (use rec in \<open>auto simp: validate_definition_def intro!: fail_intros fails_validate_each\<close>)
  then have "fails_only zst_sequence (and_then (push decl) (\<lambda>_.
      and_then (validate_definition ub schema ?rec decl def) pop_return))"
    by (intro fail_intros)
  with def show ?case by (auto simp: fails_only_def)
qed (simp add: fails_only_def)

lemma validate_generated:
  assumes "implemented B" and "for_type B = Some (Ok c)" and "0 < ub"
  shows "validate ub c = Some (Ok ()) \<or> (\<exists>d. validate ub c = Some (Err (ZSTSequence d)))"
proof -
  note g = generated_closed [OF assms(1,2)]
  obtain res stack where r: "validate_impl (size_fuel c) ub c (container_declaration c) [] = Some (res, stack)"
    and v: "validate ub c = Some res"
    using validate_returns [of ub c] by (auto simp: validate_def)
  from validate_closed [OF g(1) assms(3) g(2)] r
  have "res \<noteq> Panic \<and> (\<forall>e. res = Err e \<longrightarrow> zst_sequence e)" unfolding fails_only_def by blast
  with v show ?thesis by (cases res) auto
qed

end
