(* ===== verification/Schema_Properties.thy ===== *)
theory Schema_Properties
  imports Schema_Generated
begin

section \<open>Properties of schemas\<close>

text \<open>
  The claims about schema containers: what \<open>BorshSchemaContainer::for_type\<close> generates, what
  the generated container says about the bytes, and what the algorithms on containers
  compute, on generated containers and on arbitrary ones.
\<close>

subsection \<open>Generation\<close>

text \<open>
  C12. The container of a type is closed: the declaration of the type is defined in it, and
  so is every declaration that one of its definitions mentions. This holds for every
  nesting of the implementations in \<open>schema.rs\<close> and of derived ones.
\<close>

theorem generated_schema_closed:
  assumes "implemented B" and "for_type B = Some (Ok c)"
  shows "container_declaration c = declaration_of B \<and>
    (\<forall>d. (refers c)\<^sup>*\<^sup>* (declaration_of B) d \<longrightarrow> get_definition c d \<noteq> None)"
proof (intro conjI allI impI)
  note closed = schema_impl.for_type_closed [OF implemented_impl [OF assms(1)] assms(2)]
  show "container_declaration c = declaration_of B" by (rule closed(1))
  show "get_definition c d \<noteq> None" if "(refers c)\<^sup>*\<^sup>* (declaration_of B) d" for d
    using that
  proof (induction rule: rtranclp_induct)
    case (step d e)
    then obtain def where "get_definition c d = Some def" "e \<in> set (refs def)" by (auto simp: refers_def)
    then show ?case by (rule closed(4))
  qed (rule closed(3))
qed

text \<open>Evaluation of the tables of concrete types, and the schema of \<open>[u8; 2]\<close>.\<close>

lemmas table_eval = for_type_def array_schema_def option_schema_def tuple_schema_def tuple_declaration_def
  u8_schema_def u64_schema_def unit_schema_def primitive_schema_def add_all_def add_definition_def
  ARRAY_LENGTH_WIDTH_def Let_def and_then_def ret_def less_char_def

lemmas size_eval = container_new_def get_definition_def push_def pop_return_def size_of_definition_def
  zero_of_definition_def size_mul_def size_add_def range_inclusive_def range_count_def range_is_empty_def
  and_then_def ret_def lift_def

lemma shown [simp]: "show_nat 0 = ''0''" "show_nat 2 = ''2''" "show_nat 10 = ''10''"
  by (subst show_nat.simps, simp add: digit_char_def, code_simp?)+

definition small_container :: BorshSchemaContainer where
  "small_container = container_new ''[u8; 2]''
     [(''[u8; 2]'', Sequence ARRAY_LENGTH_WIDTH (range_inclusive 2 2) ''u8''), (''u8'', Primitive 1)]"

lemma small_implemented: "implemented (array_schema 2 u8_schema)"
  by (rule implemented.array, rule implemented.primitive [of "''u8''"])
    (simp add: primitive_type_def primitive_table_def u8_schema_def)

lemma small_for_type: "for_type (array_schema 2 u8_schema) = Some (Ok small_container)"
  by (simp add: table_eval small_container_def)

theorem generated_schema_closed_witness:
  "container_declaration small_container = ''[u8; 2]'' \<and> get_definition small_container ''u8'' \<noteq> None"
proof -
  have "refers small_container ''[u8; 2]'' ''u8''" by (simp add: refers_def get_definition_def small_container_def container_new_def)
  moreover have "declaration_of (array_schema 2 u8_schema) = ''[u8; 2]''" by (simp add: table_eval)
  ultimately show ?thesis using generated_schema_closed [OF small_implemented small_for_type] by auto
qed

text \<open>
  C13. \<open>validate\<close> finds nothing wrong with a generated container except, possibly, a dynamic
  sequence of zero-sized elements: no missing definition, no width that is wrong, no empty
  range, and no panic.
\<close>

theorem generated_schema_validates:
  assumes "implemented B" and "for_type B = Some (Ok c)" and "0 < usize_bits"
  shows "validate usize_bits c = Some (Ok ()) \<or> (\<exists>d. validate usize_bits c = Some (Err (ZSTSequence d)))"
  using assms by (rule validate_generated)

theorem generated_schema_validates_witness:
  "validate 64 small_container = Some (Ok ()) \<or> (\<exists>d. validate 64 small_container = Some (Err (ZSTSequence d)))"
  using generated_schema_validates [OF small_implemented small_for_type, of 64] by simp

text \<open>
  C14. The table only grows, and adding a type twice is the same as adding it once: once
  the definitions of a type have been added, adding them again to this or to any later
  table changes nothing, and in particular does not panic.
\<close>

theorem definitions_added_once:
  assumes "implemented B" and "ordered d" and "add_definitions_recursively B d = Some (Ok (), d')"
  shows "ordered d' \<and> map_of d \<subseteq>\<^sub>m map_of d' \<and>
    (\<forall>e. ordered e \<and> map_of d' \<subseteq>\<^sub>m map_of e \<longrightarrow> add_definitions_recursively B e = Some (Ok (), e))"
proof -
  note B = implemented_impl [OF assms(1)]
  have "grows d d'" using adds_Ok [OF schema_impl.adds_impl [OF B] assms(2,3)] by blast
  moreover have "grows d' e \<Longrightarrow> add_definitions_recursively B e = Some (Ok (), e)" for e
    using schema_impl.stable_impl [OF B] assms(2,3) by (simp add: stable_def)
  ultimately show ?thesis by (simp add: grows_def)
qed

theorem definitions_added_once_witness:
  "add_definitions_recursively (array_schema 2 u8_schema) (container_definitions small_container) =
    Some (Ok (), container_definitions small_container)"
proof -
  have "add_definitions_recursively (array_schema 2 u8_schema) [] = Some (Ok (), container_definitions small_container)"
    by (simp add: table_eval small_container_def container_new_def)
  from definitions_added_once [OF small_implemented _ this] show ?thesis by (auto simp: ordered_def)
qed

text \<open>
  The struct of a variant is named after the enum and the variant, without a separator, so
  two enums can yield the same name: \<open>(A, AB)\<close> with \<open>enum A { BC(u8) }\<close> and
  \<open>enum AB { C(u64) }\<close> has two definitions of \<open>ABC\<close>, and generating its schema panics.
\<close>

lemma variant_names_collide:
  "for_type (tuple_schema
     [derived_enum_schema ''A'' [] [\<lparr>variant_name = ''BC'', variant_discriminant = 0, variant_params = [],
        variant_fields = Unnamed_Fields [plain_field [] u8_schema]\<rparr>],
      derived_enum_schema ''AB'' [] [\<lparr>variant_name = ''C'', variant_discriminant = 0, variant_params = [],
        variant_fields = Unnamed_Fields [plain_field [] u64_schema]\<rparr>]]) = Some Panic"
  by (simp add: table_eval derived_enum_schema_def variant_schema_def derived_struct_schema_def derived_declaration_def
      field_declaration_def field_definitions_def plain_field_def)

subsection \<open>What the schema says about the bytes\<close>

text \<open>The nested type of the next property.\<close>

abbreviation nested_ok :: "nat \<Rightarrow> (string \<times> (bool + u64 list) list) list \<Rightarrow> bool" where
  "nested_ok N \<equiv> hash_map_ok string_ok (vec_ok (result_ok (array_ok N (\<lambda>_. True)) (\<lambda>_. True)))"

abbreviation nested_ser :: "nat \<Rightarrow> (bytes, (string \<times> (bool + u64 list) list) list) BorshSerialize" where
  "nested_ser N \<equiv> plain_ser 48 (hash_map_serialize 48 (string_ser 24)
     (vec_ser 24 (result_ser (8 * N + 8) (array_ser N integer_ser) bool_ser)))"

abbreviation nested_schema :: "nat \<Rightarrow> BorshSchema" where
  "nested_schema N \<equiv> map_schema ''HashMap'' str_schema
     (collection_schema ''Vec'' (result_schema (array_schema N u64_schema) bool_schema))"

text \<open>
  C15. The schema describes the bytes. For \<open>HashMap<String, Vec<Result<[u64; N], bool>>>\<close>,
  for every \<open>N\<close> and every map that can be serialized, what \<open>to_vec\<close> writes is an encoding
  by the definitions of the generated container.
\<close>

theorem schema_describes_bytes:
  assumes "nested_ok N m" and "for_type (nested_schema N) = Some (Ok c)"
  shows "\<exists>bs. to_vec (nested_ser N) m = Some (Ok bs) \<and> schema_encodes c (container_declaration c) bs"
proof -
  note enc = hash_map_serialize_impl [OF string_serialize_impl _
      vec_serialize_impl [OF result_serialize_impl [OF array_serialize_impl [OF integer_serialize_impl] bool_S.serialize_impl_axioms]]]
  note desc = hash_map_described [OF str_described
      collection_described [OF result_described [OF array_described [OF u64_described] bool_described]]]
  have "to_vec (nested_ser N) m = Some (Ok (hash_map_enc string_enc
      (vec_enc (result_enc (array_enc to_le_bytes) bool_enc)) m))"
    by (rule to_vec_enc [OF enc assms(1)]) (simp_all add: string_ser_def result_ser_def)
  with described_impl.for_type_described [OF desc assms(2,1)] show ?thesis by blast
qed

lemma nested_for_type: "\<exists>c. for_type (nested_schema 2) = Some (Ok c)"
  by (simp add: table_eval map_schema_def collection_schema_def result_schema_def str_schema_def bool_schema_def)

theorem schema_describes_bytes_witness:
  "\<exists>c bs. for_type (nested_schema 2) = Some (Ok c) \<and>
    to_vec (nested_ser 2) [(''key'', [Inr [1, 2], Inl True])] = Some (Ok bs) \<and>
    schema_encodes c (container_declaration c) bs"
proof -
  obtain c where c: "for_type (nested_schema 2) = Some (Ok c)" using nested_for_type by blast
  have "nested_ok 2 [(''key'', [Inr [1, 2], Inl True])]"
    by (simp add: hash_map_ok_def vec_ok_def pair_ok_def string_ok_def array_ok_def valid_utf8_def)
  from schema_describes_bytes [OF this c] c show ?thesis by blast
qed

text \<open>
  C16. \<open>is_zero_size\<close> is right when it says yes: every encoding is then empty. Any schema, also
  one that is not generated.
\<close>

theorem zero_size_is_empty:
  assumes "is_zero_size usize_bits d schema = Some (Ok True)" and "schema_encodes schema d bs"
  shows "bs = []"
  using assms zero_size_sound_impl by (auto simp: is_zero_size_def)

theorem zero_size_is_empty_witness:
  "\<exists>bs. schema_encodes (container_new ''()'' [(''()'', Primitive 0)]) ''()'' bs \<and> bs = []"
proof -
  let ?c = "container_new ''()'' [(''()'', Primitive 0)]"
  have "size_fuel ?c = Suc (Suc 0)" by (simp add: size_fuel_def container_new_def)
  then have z: "is_zero_size 64 ''()'' ?c = Some (Ok True)" by (simp add: is_zero_size_def) (simp add: size_eval)
  have "schema_encodes ?c ''()'' []"
    by (rule encodes_encodes_all.primitive [of _ _ 0]) (simp_all add: get_definition_def container_new_def)
  with zero_size_is_empty [OF z] show ?thesis by blast
qed

text \<open>
  C17. \<open>max_serialized_size\<close> bounds the length of every encoding, for every schema in which no
  sequence of two or more elements has an enum as its element type.
\<close>

theorem max_size_bounds_encodings:
  assumes "max_serialized_size usize_bits schema = Some (Ok n)" and "no_enum_elements schema"
    and "schema_encodes schema (container_declaration schema) bs"
  shows "length bs \<le> n"
  using assms by (rule max_size_sound)

theorem max_size_bounds_encodings_witness:
  "schema_encodes small_container (container_declaration small_container) [7, 9] \<and> length [7, 9 :: u8] \<le> 2"
proof -
  have "size_fuel small_container = Suc (Suc (Suc 0))" by (simp add: size_fuel_def small_container_def container_new_def)
  then have m: "max_serialized_size 64 small_container = Some (Ok 2)"
    by (simp add: max_serialized_size_def) (simp add: size_eval small_container_def ARRAY_LENGTH_WIDTH_def)
  have n: "no_enum_elements small_container"
    by (simp add: no_enum_elements_def small_container_def container_new_def get_definition_def)
  have e: "schema_encodes small_container (container_declaration small_container) [7, 9]"
    using described_impl.for_type_described [OF array_described [OF u8_described] small_for_type, of "[7, 9]"]
    by (simp add: array_ok_def array_enc_def)
  from max_size_bounds_encodings [OF m n e] e show ?thesis by blast
qed

text \<open>The container of an array of ten options.\<close>

definition ten_options :: BorshSchemaContainer where
  "ten_options = container_new ''[Option<u64>; 10]''
     [(''()'', Primitive 0), (''Option<u64>'', Enum 1 [(0, ''None'', ''()''), (1, ''Some'', ''u64'')]),
      (''[Option<u64>; 10]'', Sequence 0 (range_inclusive 10 10) ''Option<u64>''), (''u64'', Primitive 8)]"

text \<open>
  Without that condition the bound is wrong: for \<open>[Option<u64>; 10]\<close> the result is 9,
  and the array of ten \<open>Some\<close> is serialized to 90 bytes. The branch for enums ignores the
  number of elements.
\<close>

lemma max_size_ignores_enum_count:
  "for_type (array_schema 10 (option_schema u64_schema)) = Some (Ok ten_options) \<and>
   max_serialized_size 64 ten_options = Some (Ok 9) \<and>
   (\<exists>bs. to_vec (array_ser 10 (option_ser 16 integer_ser)) (replicate 10 (Some (1 :: u64))) = Some (Ok bs) \<and> length bs = 90)"
proof (intro conjI)
  show "for_type (array_schema 10 (option_schema u64_schema)) = Some (Ok ten_options)"
    by (simp add: table_eval ten_options_def)
  have "size_fuel ten_options = Suc (Suc (Suc (Suc (Suc 0))))"
    by (simp add: size_fuel_def ten_options_def container_new_def)
  then show "max_serialized_size 64 ten_options = Some (Ok 9)"
    by (simp add: max_serialized_size_def) (simp add: size_eval ten_options_def)
  have "array_ok 10 (option_ok (\<lambda>_. True)) (replicate 10 (Some (1 :: u64)))" by (simp add: array_ok_def)
  from to_vec_enc [OF array_serialize_impl [OF option_serialize_impl [OF integer_serialize_impl]] this]
  show "\<exists>bs. to_vec (array_ser 10 (option_ser 16 integer_ser)) (replicate 10 (Some (1 :: u64))) = Some (Ok bs) \<and> length bs = 90"
    by (intro exI conjI) (assumption | simp add: array_enc_def length_concat sum_list_replicate length_to_le_bytes)+
qed

text \<open>
  \<open>is_zero_size\<close> is wrong when it says no: the early return for arrays leaves the
  declaration of the array on the stack, so a tuple that mentions an empty array type
  twice is reported as recursive, though its encodings are empty; and \<open>validate\<close>, which
  takes that answer for a type that cannot be empty, accepts a vector of such tuples.
\<close>

definition empty_arrays :: "(Declaration \<times> Definition) list" where
  "empty_arrays = [(''([u8; 0], [u8; 0])'', Tuple [''[u8; 0]'', ''[u8; 0]'']),
     (''[u8; 0]'', Sequence 0 (range_inclusive 0 0) ''u8''), (''u8'', Primitive 1)]"

lemma zero_size_stack_not_popped:
  "for_type (tuple_schema [array_schema 0 u8_schema, array_schema 0 u8_schema]) =
     Some (Ok (container_new ''([u8; 0], [u8; 0])'' empty_arrays)) \<and>
   is_zero_size 64 ''([u8; 0], [u8; 0])'' (container_new ''([u8; 0], [u8; 0])'' empty_arrays) = Some (Err ZeroRecursive)"
proof
  show "for_type (tuple_schema [array_schema 0 u8_schema, array_schema 0 u8_schema]) =
     Some (Ok (container_new ''([u8; 0], [u8; 0])'' empty_arrays))"
    by (simp add: table_eval empty_arrays_def)
  have "size_fuel (container_new ''([u8; 0], [u8; 0])'' empty_arrays) = Suc (Suc (Suc (Suc 0)))"
    by (simp add: size_fuel_def container_new_def empty_arrays_def)
  then show "is_zero_size 64 ''([u8; 0], [u8; 0])'' (container_new ''([u8; 0], [u8; 0])'' empty_arrays) =
      Some (Err ZeroRecursive)"
    by (simp add: is_zero_size_def) (simp add: size_eval empty_arrays_def)
qed

text \<open>
  C18. The three traversals return a result or an error, without a panic, on every schema
  whose sequences without a length prefix have ranges that \<open>usize\<close> can count, recursive and
  incomplete schemas included. The condition holds for generated schemas; it fails for
  \<open>0..=u64::MAX\<close>.
\<close>

theorem traversals_return:
  assumes "lengths_countable usize_bits schema"
  shows "(\<exists>r. max_serialized_size usize_bits schema = Some r \<and> r \<noteq> Panic) \<and>
    (\<exists>r. is_zero_size usize_bits d schema = Some r \<and> r \<noteq> Panic) \<and>
    (\<exists>r. validate usize_bits schema = Some r \<and> r \<noteq> Panic)"
  using max_size_returns [of usize_bits schema] zero_size_returns [of usize_bits d schema] validate_returns [of usize_bits schema]
    sizes_do_not_panic [OF assms] validate_does_not_panic [OF assms] by blast

text \<open>Two definitions that refer to each other, one of them to a declaration that is not defined.\<close>

definition looping_container :: BorshSchemaContainer where
  "looping_container = container_new ''A'' [(''A'', Struct (UnnamedFields [''B''])), (''B'', Tuple [''A'', ''C''])]"

theorem traversals_return_witness:
  "(\<exists>r. max_serialized_size 64 looping_container = Some r \<and> r \<noteq> Panic) \<and>
   (\<exists>r. is_zero_size 64 ''B'' looping_container = Some r \<and> r \<noteq> Panic) \<and>
   (\<exists>r. validate 64 looping_container = Some r \<and> r \<noteq> Panic)"
  by (rule traversals_return) (simp add: lengths_countable_def looping_container_def container_new_def)

text \<open>Without the condition the traversals still return, though \<open>count\<close> may panic.\<close>

lemma traversals_end:
  "max_serialized_size usize_bits schema \<noteq> None \<and> is_zero_size usize_bits d schema \<noteq> None \<and>
   validate usize_bits schema \<noteq> None"
  by (intro conjI max_size_returns zero_size_returns validate_returns)

text \<open>
  C19. \<open>validate\<close> accepts a container exactly if every declaration that can be reached from
  its own, by any path, is defined and locally valid, although the traversal cuts a path
  where it meets a declaration of the stack.
\<close>

theorem validate_accepts_iff:
  "validate usize_bits schema = Some (Ok ()) \<longleftrightarrow>
    (\<forall>d. (refers schema)\<^sup>*\<^sup>* (container_declaration schema) d \<longrightarrow> validly_declared usize_bits schema d)"
  by (rule validate_iff)

theorem validate_accepts_iff_witness:
  "validly_declared 64 small_container ''u8''"
proof -
  have fuel: "size_fuel small_container = Suc (Suc (Suc 0))" by (simp add: size_fuel_def small_container_def container_new_def)
  have "validate 64 small_container = Some (Ok ())"
    by (simp add: validate_def fuel) (simp add: size_eval small_container_def validate_definition_def is_array_branch_def)
  moreover have "refers small_container ''[u8; 2]'' ''u8''"
    by (simp add: refers_def get_definition_def small_container_def container_new_def)
  moreover have "container_declaration small_container = ''[u8; 2]''" by (simp add: small_container_def container_new_def)
  ultimately show ?thesis using validate_accepts_iff [of 64 small_container] by auto
qed

text \<open>
  \<open>validate\<close> panics on a sequence without a length prefix whose range is all of \<open>u64\<close>,
  because the number of lengths in the range does not fit \<open>usize\<close>.
\<close>

lemma validate_count_overflow:
  assumes "get_definition schema (container_declaration schema) = Some (Sequence 0 (range_inclusive 0 (- 1)) el)"
    and "usize_bits \<le> 64"
  shows "validate usize_bits schema = Some Panic"
proof -
  have "(2 :: nat) ^ usize_bits \<le> 2 ^ 64" by (rule power_increasing) (use assms(2) in auto)
  then have "range_count usize_bits (range_inclusive 0 (- 1)) = (Panic :: (validate_error, nat) outcome)"
    by (simp add: range_count_def range_inclusive_def range_is_empty_def unsigned_minus_1_eq_mask mask_eq_exp_minus_1)
  then show ?thesis
    using assms(1) by (simp add: validate_def size_fuel_def push_def and_then_eval validate_definition_def
        is_array_branch_def ARRAY_LENGTH_WIDTH_def lift_def)
qed

text \<open>
  The widths that \<open>validate\<close> accepts for a length: none, or 1, 2, 4 or 8 bytes that hold the
  longest length.
\<close>

lemma length_width_accepted_iff:
  "check_length_width decl width mx = Ok () \<longleftrightarrow>
     width \<in> {0, 1, 2, 4, 8} \<and> (width = 0 \<or> unat mx < 256 ^ unat width)"
  by (rule check_length_width_iff)

end
