(* ===== verification/Schema_Helpers.thy ===== *)
theory Schema_Helpers
  imports Schema_Size
begin

section \<open>Schemas in front of values\<close>

text \<open>
  Models the codec of schemas, which is the derived one for \<open>Fields\<close> and \<open>Definition\<close> and
  written by hand for \<open>BorshSchemaContainer\<close> (\<open>borsh/src/schema.rs\<close>), and
  \<open>borsh/src/schema_helpers.rs\<close>: values that are preceded by the schema of their type. The
  sizes of the types in memory are those of a 64-bit target.
\<close>

subsection \<open>The codec of schemas\<close>

abbreviation string_s :: "('w, string) BorshSerialize" where "string_s \<equiv> string_ser 24"
abbreviation string_d :: "('r, string) BorshDeserialize" where "string_d \<equiv> string_de 24"

abbreviation names_s :: "('w, (FieldName \<times> Declaration) list) BorshSerialize" where
  "names_s \<equiv> vec_ser 24 (tuple2_ser 48 string_s string_s)"
abbreviation names_d :: "('r, (FieldName \<times> Declaration) list) BorshDeserialize" where
  "names_d \<equiv> vec_de 24 (tuple2_de 48 string_d string_d)"
abbreviation decls_s :: "('w, Declaration list) BorshSerialize" where "decls_s \<equiv> vec_ser 24 string_s"
abbreviation decls_d :: "('r, Declaration list) BorshDeserialize" where "decls_d \<equiv> vec_de 24 string_d"
abbreviation variants_s :: "('w, (DiscriminantValue \<times> VariantName \<times> Declaration) list) BorshSerialize" where
  "variants_s \<equiv> vec_ser 24 (tuple2_ser 56 integer_ser (tuple2_ser 48 string_s string_s))"
abbreviation variants_d :: "('r, (DiscriminantValue \<times> VariantName \<times> Declaration) list) BorshDeserialize" where
  "variants_d \<equiv> vec_de 24 (tuple2_de 56 integer_de (tuple2_de 48 string_d string_d))"

fun fields_serialize :: "'w Write \<Rightarrow> Fields \<Rightarrow> ('w, unit) io" where
  "fields_serialize writer (NamedFields id0) =
     and_then (write_all writer (to_le_bytes (0 :: u8))) (\<lambda>_. serialize names_s writer id0)"
| "fields_serialize writer (UnnamedFields id0) =
     and_then (write_all writer (to_le_bytes (1 :: u8))) (\<lambda>_. serialize decls_s writer id0)"
| "fields_serialize writer Empty = and_then (write_all writer (to_le_bytes (2 :: u8))) (\<lambda>_. ret ())"

definition unexpected_tag :: "u8 \<Rightarrow> ('s, 'a) io" where
  "unexpected_tag variant_tag = fail (error_new InvalidData (''Unexpected variant tag: '' @ show_nat (unat variant_tag)))"

definition fields_deserialize_reader :: "'r Read \<Rightarrow> ('r, Fields) io" where
  "fields_deserialize_reader reader =
     and_then (u8_deserialize_reader reader) (\<lambda>variant_tag.
       if variant_tag = 0 then map_ok NamedFields (deserialize_reader names_d reader)
       else if variant_tag = 1 then map_ok UnnamedFields (deserialize_reader decls_d reader)
       else if variant_tag = 2 then ret Empty
       else unexpected_tag variant_tag)"

fun definition_serialize :: "'w Write \<Rightarrow> Definition \<Rightarrow> ('w, unit) io" where
  "definition_serialize writer (Primitive id0) =
     and_then (write_all writer (to_le_bytes (0 :: u8))) (\<lambda>_. u8_serialize writer id0)"
| "definition_serialize writer (Sequence length_width length_range elements) =
     and_then (write_all writer (to_le_bytes (1 :: u8))) (\<lambda>_.
     and_then (u8_serialize writer length_width) (\<lambda>_.
     and_then (range_inclusive_serialize integer_ser writer length_range) (\<lambda>_.
     serialize string_s writer elements)))"
| "definition_serialize writer (Tuple elements) =
     and_then (write_all writer (to_le_bytes (2 :: u8))) (\<lambda>_. serialize decls_s writer elements)"
| "definition_serialize writer (Enum tag_width variants) =
     and_then (write_all writer (to_le_bytes (3 :: u8))) (\<lambda>_.
     and_then (u8_serialize writer tag_width) (\<lambda>_. serialize variants_s writer variants))"
| "definition_serialize writer (Struct flds) =
     and_then (write_all writer (to_le_bytes (4 :: u8))) (\<lambda>_. fields_serialize writer flds)"

definition definition_deserialize_reader :: "'r Read \<Rightarrow> ('r, Definition) io" where
  "definition_deserialize_reader reader =
     and_then (u8_deserialize_reader reader) (\<lambda>variant_tag.
       if variant_tag = 0 then map_ok Primitive (u8_deserialize_reader reader)
       else if variant_tag = 1 then
         and_then (u8_deserialize_reader reader) (\<lambda>length_width.
         and_then (range_inclusive_deserialize_reader integer_de reader) (\<lambda>length_range.
         and_then (deserialize_reader string_d reader) (\<lambda>elements.
         ret (Sequence length_width length_range elements))))
       else if variant_tag = 2 then map_ok Tuple (deserialize_reader decls_d reader)
       else if variant_tag = 3 then
         and_then (u8_deserialize_reader reader) (\<lambda>tag_width.
         and_then (deserialize_reader variants_d reader) (\<lambda>variants.
         ret (Enum tag_width variants)))
       else if variant_tag = 4 then map_ok Struct (fields_deserialize_reader reader)
       else unexpected_tag variant_tag)"

definition definition_ser :: "('w, Definition) BorshSerialize" where
  "definition_ser = plain_ser 56 definition_serialize"

definition definition_de :: "('r, Definition) BorshDeserialize" where
  "definition_de = plain_de 56 definition_deserialize_reader"

text \<open>
  The container is its declaration and its definitions. The map of references that
  \<open>serialize\<close> collects has the entries of the map of the container.
\<close>

definition container_serialize :: "'w Write \<Rightarrow> BorshSchemaContainer \<Rightarrow> ('w, unit) io" where
  "container_serialize writer self =
     (let declaration = container_declaration self;
          definitions = btree_map_collect (container_definitions self)
      in and_then (serialize string_s writer declaration) (\<lambda>_.
         and_then (serialize (btree_map_ser 24 string_s definition_ser) writer definitions) (\<lambda>_. ret ())))"

definition container_deserialize_reader :: "bool \<Rightarrow> 'r Read \<Rightarrow> ('r, BorshSchemaContainer) io" where
  "container_deserialize_reader strict reader =
     and_then (deserialize_reader string_d reader) (\<lambda>declaration.
     and_then (deserialize_reader (btree_map_de strict 24 80 string_d definition_de) reader) (\<lambda>definitions.
     ret (container_new declaration definitions)))"

definition container_ser :: "('w, BorshSchemaContainer) BorshSerialize" where
  "container_ser = plain_ser 48 container_serialize"

definition container_de :: "bool \<Rightarrow> ('r, BorshSchemaContainer) BorshDeserialize" where
  "container_de strict = plain_de 48 (container_deserialize_reader strict)"

subsection \<open>The helpers\<close>

text \<open>\<open>B\<close> is the implementation of \<open>BorshSchema\<close> for the type; a panic of \<open>for_type\<close> is one here.\<close>

definition schema_container_of :: "BorshSchema \<Rightarrow> (unit, BorshSchemaContainer) outcome option" where
  "schema_container_of B = for_type B"

definition try_from_slice_with_schema ::
  "bool \<Rightarrow> nat \<Rightarrow> (bytes, 'a) BorshDeserialize \<Rightarrow> BorshSchema \<Rightarrow> bytes \<Rightarrow> (io_error, 'a) outcome option" where
  "try_from_slice_with_schema strict n T B v =
     (case from_slice (tuple2_de n (container_de strict) T) v of
         None \<Rightarrow> None
       | Some (Err e) \<Rightarrow> Some (Err e)
       | Some Panic \<Rightarrow> Some Panic
       | Some (Ok (schema, object)) \<Rightarrow>
           (case schema_container_of B of
               Some (Ok c) \<Rightarrow>
                 if c \<noteq> schema then Some (Err (error_new InvalidData ''Borsh schema does not match''))
                 else Some (Ok object)
             | None \<Rightarrow> None
             | _ \<Rightarrow> Some Panic))"

definition try_to_vec_with_schema ::
  "(bytes, 'a) BorshSerialize \<Rightarrow> BorshSchema \<Rightarrow> 'a \<Rightarrow> (io_error, bytes) outcome option" where
  "try_to_vec_with_schema T B value =
     (case schema_container_of B of
         Some (Ok schema) \<Rightarrow>
           (case to_vec container_ser schema of
               Some (Ok res) \<Rightarrow>
                 (case serialize T vec_writer value res of
                     Some (Ok _, res) \<Rightarrow> Some (Ok res)
                   | Some (Err e, _) \<Rightarrow> Some (Err e)
                   | Some (Panic, _) \<Rightarrow> Some Panic
                   | None \<Rightarrow> None)
             | r \<Rightarrow> r)
       | None \<Rightarrow> None
       | _ \<Rightarrow> Some Panic)"

definition max_serialized_size_of :: "nat \<Rightarrow> BorshSchema \<Rightarrow> (size_error, nat) outcome option" where
  "max_serialized_size_of usize_bits B =
     (case for_type B of
         Some (Ok schema) \<Rightarrow> max_serialized_size usize_bits schema
       | None \<Rightarrow> None
       | _ \<Rightarrow> Some Panic)"

subsection \<open>The codec is canonical\<close>

fun schema_fields_enc :: "Fields \<Rightarrow> bytes" where
  "schema_fields_enc (NamedFields fs) = 0 # vec_enc (pair_enc string_enc string_enc) fs"
| "schema_fields_enc (UnnamedFields es) = 1 # vec_enc string_enc es"
| "schema_fields_enc Empty = [2]"

fun schema_fields_ok :: "Fields \<Rightarrow> bool" where
  "schema_fields_ok (NamedFields fs) = vec_ok (pair_ok string_ok string_ok) fs"
| "schema_fields_ok (UnnamedFields es) = vec_ok string_ok es"
| "schema_fields_ok Empty = True"

fun definition_enc :: "Definition \<Rightarrow> bytes" where
  "definition_enc (Primitive n) = [0, n]"
| "definition_enc (Sequence w r e) = 1 # w # pair_enc to_le_bytes to_le_bytes (range_pair r) @ string_enc e"
| "definition_enc (Tuple es) = 2 # vec_enc string_enc es"
| "definition_enc (Enum w vs) = 3 # w # vec_enc (pair_enc to_le_bytes (pair_enc string_enc string_enc)) vs"
| "definition_enc (Struct fs) = 4 # schema_fields_enc fs"

fun definition_ok :: "Definition \<Rightarrow> bool" where
  "definition_ok (Primitive n) = True"
| "definition_ok (Sequence w r e) = (\<not> exhausted r \<and> string_ok e)"
| "definition_ok (Tuple es) = vec_ok string_ok es"
| "definition_ok (Enum w vs) = vec_ok (pair_ok (\<lambda>_. True) (pair_ok string_ok string_ok)) vs"
| "definition_ok (Struct fs) = schema_fields_ok fs"

definition container_enc :: "BorshSchemaContainer \<Rightarrow> bytes" where
  "container_enc c = string_enc (container_declaration c) @
     vec_enc (pair_enc string_enc definition_enc) (container_definitions c)"

definition container_ok :: "BorshSchemaContainer \<Rightarrow> bool" where
  "container_ok c \<longleftrightarrow> string_ok (container_declaration c) \<and> btree_map_ok string_ok definition_ok (container_definitions c)"

lemma canonical_read:
  "canonical_impl D enc ok \<Longrightarrow> deserialize_reader D slice_reader s = Some (Ok v, t) \<longleftrightarrow> ok v \<and> s = enc v @ t"
  by (metis canonical_impl.canon deserialize_impl.de_Ok canonical_impl.axioms(1))

lemma sizes [simp]: "de_size_of (tuple2_de n A B) = n" "de_size_of (string_de n) = n" "de_size_of definition_de = 56"
    "ser_size_of (tuple2_ser n S T) = n" "ser_size_of (string_ser n) = n" "ser_size_of definition_ser = 56"
  by (simp_all add: tuple2_de_def tuple2_ser_def string_de_def string_ser_def definition_de_def definition_ser_def)

lemmas names_canonical = vec_canonical_impl [OF tuple2_canonical_impl [OF string_canonical_impl string_canonical_impl]]
lemmas decls_canonical = vec_canonical_impl [OF string_canonical_impl]
lemmas variants_canonical = vec_canonical_impl [OF tuple2_canonical_impl [OF u64_D.canonical_impl_axioms
  tuple2_canonical_impl [OF string_canonical_impl string_canonical_impl]]]

lemma read_iffs:
  "deserialize_reader names_d slice_reader s = Some (Ok ns, t) \<longleftrightarrow>
     vec_ok (pair_ok string_ok string_ok) ns \<and> s = vec_enc (pair_enc string_enc string_enc) ns @ t"
  "deserialize_reader decls_d slice_reader s = Some (Ok ds, t) \<longleftrightarrow> vec_ok string_ok ds \<and> s = vec_enc string_enc ds @ t"
  "deserialize_reader string_d slice_reader s = Some (Ok d, t) \<longleftrightarrow> string_ok d \<and> s = string_enc d @ t"
  "deserialize_reader variants_d slice_reader s = Some (Ok vs, t) \<longleftrightarrow>
     vec_ok (pair_ok (\<lambda>_. True) (pair_ok string_ok string_ok)) vs \<and>
     s = vec_enc (pair_enc to_le_bytes (pair_enc string_enc string_enc)) vs @ t"
  by (rule canonical_read [OF names_canonical], simp add: elem_size_okI)
    (rule canonical_read [OF decls_canonical], simp add: elem_size_okI,
     rule canonical_read [OF string_canonical_impl],
     rule canonical_read [OF variants_canonical], simp add: elem_size_okI)

lemma range_read_iff:
  "range_inclusive_deserialize_reader integer_de slice_reader s = Some (Ok (r :: u64 RangeInclusive), t) \<longleftrightarrow>
     \<not> exhausted r \<and> s = pair_enc to_le_bytes to_le_bytes (range_pair r) @ t"
proof -
  have "tuple2_deserialize_reader integer_de integer_de slice_reader s = Some (Ok (x :: u64 \<times> u64), t) \<longleftrightarrow>
      s = pair_enc to_le_bytes to_le_bytes x @ t" for x
    using canonical_read [OF tuple2_canonical_impl [OF u64_D.canonical_impl_axioms u64_D.canonical_impl_axioms, of 16]]
    by (simp add: tuple2_de_def pair_ok_def)
  then show ?thesis by (cases r) (auto simp: range_inclusive_deserialize_reader_def ok_iffs)
qed

lemma tag_then:
  "and_then (u8_deserialize_reader slice_reader) f (b # s) = f b s"
  "and_then (u8_deserialize_reader slice_reader) f [] \<noteq> Some (Ok v, t)"
  using decodes_u8 [of b] by (auto simp: decodes_def and_then_eval and_then_Ok_iff u8_read_iff)

lemma fields_read_iff:
  "fields_deserialize_reader slice_reader s = Some (Ok f, t) \<longleftrightarrow> schema_fields_ok f \<and> s = schema_fields_enc f @ t"
proof (cases s)
  case Nil
  then show ?thesis by (cases f) (simp_all add: fields_deserialize_reader_def tag_then)
next
  case (Cons tag rest)
  show ?thesis
    unfolding Cons by (cases f) (auto simp: fields_deserialize_reader_def tag_then ok_iffs read_iffs
        unexpected_tag_def split: if_splits)
qed

lemma definition_read_iff:
  "definition_deserialize_reader slice_reader s = Some (Ok d, t) \<longleftrightarrow> definition_ok d \<and> s = definition_enc d @ t"
proof (cases s)
  case Nil
  then show ?thesis by (cases d) (simp_all add: definition_deserialize_reader_def tag_then)
next
  case (Cons tag rest)
  show ?thesis
    unfolding Cons by (cases d) (auto simp: definition_deserialize_reader_def tag_then ok_iffs u8_read_iff read_iffs
        range_read_iff fields_read_iff unexpected_tag_def split: if_splits)
qed

lemma definition_canonical: "canonical_impl definition_de definition_enc definition_ok"
  unfolding definition_de_def by (rule plain_canonical_impl) (simp_all add: decodes_def definition_read_iff)

lemma container_canonical: "canonical_impl (container_de True) container_enc container_ok"
  unfolding container_de_def
proof (rule plain_canonical_impl)
  have m: "deserialize_reader (btree_map_de True 24 80 string_d definition_de) slice_reader s = Some (Ok m, t) \<longleftrightarrow>
      btree_map_ok string_ok definition_ok m \<and> s = vec_enc (pair_enc string_enc definition_enc) m @ t" for s m t
    by (rule canonical_read, rule btree_map_canonical_impl [OF string_canonical_impl definition_canonical])
      (simp add: map_sizes_ok_def elem_size_okI)
  have "container_deserialize_reader True slice_reader s = Some (Ok c, t) \<longleftrightarrow> container_ok c \<and> s = container_enc c @ t" for s c t
    by (cases c) (auto simp: container_deserialize_reader_def ok_iffs read_iffs m container_ok_def container_enc_def container_new_def)
  then show "container_ok c \<Longrightarrow> decodes (container_deserialize_reader True slice_reader) c (container_enc c)"
    and "container_deserialize_reader True slice_reader s = Some (Ok c, t) \<Longrightarrow> container_ok c \<and> s = container_enc c @ t" for s c t
    by (simp_all add: decodes_def)
qed

lemma emits_tag: "emits m bs \<Longrightarrow> emits (\<lambda>W. and_then (write_all W (to_le_bytes (b :: u8))) (\<lambda>_. m W)) (b # bs)"
  using emits_and_then [OF emits_write_all [of "[b]"]] by (simp add: to_le_bytes_u8)

lemma emits_last_tag: "emits (\<lambda>W. write_all W (to_le_bytes (b :: u8))) [b]"
  by (simp add: to_le_bytes_u8 emits_write_all)

lemma emits_byte: "emits m bs \<Longrightarrow> emits (\<lambda>W. and_then (u8_serialize W b) (\<lambda>_. m W)) (b # bs)"
  using emits_and_then [OF emits_u8 [of b]] by simp

lemmas names_serialize = vec_serialize_impl [OF tuple2_serialize_impl [OF string_serialize_impl string_serialize_impl]]
lemmas decls_serialize = vec_serialize_impl [OF string_serialize_impl]
lemmas variants_serialize = vec_serialize_impl [OF tuple2_serialize_impl [OF integer_serialize_impl
  tuple2_serialize_impl [OF string_serialize_impl string_serialize_impl]]]

lemma fields_emits: "schema_fields_ok f \<Longrightarrow> emits (\<lambda>W. fields_serialize W f) (schema_fields_enc f)"
  by (cases f)
    (simp_all add: emits_tag emits_last_tag serialize_impl.ser_emits [OF names_serialize] serialize_impl.ser_emits [OF decls_serialize])

lemma definition_emits:
  assumes "definition_ok d"
  shows "emits (\<lambda>W. definition_serialize W d) (definition_enc d)"
proof (cases d)
  case (Sequence w r e)
  have "emits (\<lambda>W. range_inclusive_serialize integer_ser W r) (pair_enc to_le_bytes to_le_bytes (range_pair r))"
    using serialize_impl.ser_emits [OF range_inclusive_serialize_impl [OF integer_serialize_impl, of 0]]
    by (simp add: plain_ser_def pair_ok_def)
  with Sequence assms show ?thesis
    by (auto intro!: emits_tag emits_byte emits_and_then serialize_impl.ser_emits [OF string_serialize_impl])
next
  case (Primitive n)
  then show ?thesis by (auto intro!: emits_tag emits_u8)
next
  case (Enum w vs)
  with assms show ?thesis
    by (auto intro!: emits_tag emits_byte serialize_impl.ser_emits [OF variants_serialize])
qed (use assms in \<open>auto intro!: emits_tag fields_emits serialize_impl.ser_emits [OF decls_serialize]\<close>)

lemma definition_serialize_impl: "serialize_impl definition_ser definition_enc definition_ok"
  unfolding definition_ser_def by (rule plain_serialize_impl) (rule definition_emits)

lemma container_serialize_impl: "serialize_impl container_ser container_enc container_ok"
  unfolding container_ser_def
proof (rule plain_serialize_impl)
  fix c assume c: "container_ok c"
  then have ok: "btree_map_ok string_ok definition_ok (container_definitions c)" by (simp add: container_ok_def)
  then have collect: "btree_map_collect (container_definitions c) = container_definitions c"
    by (simp add: btree_map_ok_def collect_sorted)
  have m: "emits (\<lambda>W. serialize (btree_map_ser 24 string_s definition_ser) W (btree_map_collect (container_definitions c)))
      (vec_enc (pair_enc string_enc definition_enc) (container_definitions c))"
    unfolding collect
    by (rule serialize_impl.ser_emits [OF btree_map_serialize_impl [OF string_serialize_impl _ definition_serialize_impl]])
      (simp_all add: ok)
  have "string_ok (container_declaration c)" using c by (simp add: container_ok_def)
  from emits_and_then [OF serialize_impl.ser_emits [OF string_serialize_impl this] emits_and_then [OF m emits_ret]]
  show "emits (\<lambda>W. container_serialize W c) (container_enc c)"
    by (simp add: container_serialize_def container_enc_def Let_def)
qed

subsection \<open>Laws of the helpers\<close>

lemma to_vec_with_schema:
  assumes "serialize_impl S enc ok" and "ok v" and "for_type B = Some (Ok c)" and "container_ok c"
  shows "try_to_vec_with_schema S B v = Some (Ok (container_enc c @ enc v))"
  using to_vec_enc [OF container_serialize_impl assms(4)] emits_vec [OF serialize_impl.ser_emits [OF assms(1,2)], of "container_enc c"]
  by (simp add: try_to_vec_with_schema_def schema_container_of_def assms(3))

lemma from_slice_with_schema_iff:
  assumes "canonical_impl D enc ok" and "for_type B = Some (Ok c)"
  shows "try_from_slice_with_schema True n D B bs = Some (Ok v) \<longleftrightarrow> container_ok c \<and> ok v \<and> bs = container_enc c @ enc v"
proof -
  note read = canonical_impl.from_slice_Ok_iff [OF tuple2_canonical_impl [OF container_canonical assms(1), of n]]
  have "try_from_slice_with_schema True n D B bs = Some (Ok v) \<longleftrightarrow>
      from_slice (tuple2_de n (container_de True) D) bs = Some (Ok (c, v))"
    by (auto simp: try_from_slice_with_schema_def schema_container_of_def assms(2) split: option.split outcome.split)
  then show ?thesis by (auto simp: read pair_ok_def pair_enc_def)
qed

lemma from_slice_with_wrong_schema:
  assumes "canonical_impl D enc ok" and "for_type B = Some (Ok c)" and "container_ok c'" and "ok v" and "c' \<noteq> c"
  shows "try_from_slice_with_schema True n D B (container_enc c' @ enc v) =
    Some (Err (error_new InvalidData ''Borsh schema does not match''))"
proof -
  have "from_slice (tuple2_de n (container_de True) D) (container_enc c' @ enc v) = Some (Ok (c', v))"
    unfolding canonical_impl.from_slice_Ok_iff [OF tuple2_canonical_impl [OF container_canonical assms(1), of n]]
    using assms(3,4) by (simp add: pair_ok_def pair_enc_def)
  with assms(2,5) show ?thesis by (auto simp: try_from_slice_with_schema_def schema_container_of_def)
qed

text \<open>Without \<open>de_strict_order\<close> the container is read back all the same.\<close>

lemma container_deserialize_impl: "deserialize_impl (container_de strict) container_enc container_ok"
  unfolding container_de_def
proof (rule plain_deserialize_impl)
  fix c assume c: "container_ok c"
  have m: "deserialize_reader (btree_map_de strict 24 80 string_d definition_de) slice_reader
      (vec_enc (pair_enc string_enc definition_enc) (container_definitions c) @ rest) = Some (Ok (container_definitions c), rest)" for rest
    by (rule deserialize_impl.de_Ok [OF btree_map_deserialize_impl
          [OF canonical_impl.axioms(1) [OF string_canonical_impl] canonical_impl.axioms(1) [OF definition_canonical]]])
      (use c in \<open>simp_all add: container_ok_def map_sizes_ok_def elem_size_okI\<close>)
  have d: "deserialize_reader string_d slice_reader (string_enc (container_declaration c) @ rest) =
      Some (Ok (container_declaration c), rest)" for rest
    using c read_iffs(3) [of "string_enc (container_declaration c) @ rest"] by (simp add: container_ok_def)
  show "decodes (container_deserialize_reader strict slice_reader) c (container_enc c)"
    by (simp add: decodes_def container_deserialize_reader_def container_enc_def and_then_eval d m ret_def container_new_def)
qed

lemma from_slice_with_schema:
  assumes "deserialize_impl D enc ok" and "for_type B = Some (Ok c)" and "container_ok c" and "ok v"
  shows "try_from_slice_with_schema strict n D B (container_enc c @ enc v) = Some (Ok v)"
proof -
  have "from_slice (tuple2_de n (container_de strict) D) (pair_enc container_enc enc (c, v)) = Some (Ok (c, v))"
    by (rule deserialize_impl.from_slice_enc [OF tuple2_deserialize_impl [OF container_deserialize_impl assms(1)]])
      (simp add: pair_ok_def assms(3,4))
  then show ?thesis by (simp add: try_from_slice_with_schema_def schema_container_of_def assms(2) pair_enc_def)
qed

text \<open>
  C33. Values with their schema in front. \<open>try_from_slice_with_schema\<close> reads back what
  \<open>try_to_vec_with_schema\<close> wrote, with and without \<open>de_strict_order\<close>. Under \<open>de_strict_order\<close>
  it accepts nothing else as that value, and a value behind the schema of another type is
  refused; without it the definitions may come in another order.
\<close>

theorem schema_prefix_round_trip:
  assumes "serialize_impl S enc ok" and "canonical_impl D enc ok" and "for_type B = Some (Ok c)" and "container_ok c" and "ok v"
  shows "\<exists>bs. try_to_vec_with_schema S B v = Some (Ok bs) \<and>
    (\<forall>strict. try_from_slice_with_schema strict n D B bs = Some (Ok v)) \<and>
    (\<forall>bs'. try_from_slice_with_schema True n D B bs' = Some (Ok v) \<longleftrightarrow> bs' = bs) \<and>
    (\<forall>c'. container_ok c' \<and> c' \<noteq> c \<longrightarrow> try_from_slice_with_schema True n D B (container_enc c' @ enc v) =
      Some (Err (error_new InvalidData ''Borsh schema does not match'')))"
  using to_vec_with_schema [OF assms(1,5,3,4)] from_slice_with_schema_iff [OF assms(2,3), of n _ v] assms(4,5)
    from_slice_with_schema [OF canonical_impl.axioms(1) [OF assms(2)] assms(3,4,5)]
    from_slice_with_wrong_schema [OF assms(2,3) _ assms(5)] by simp

lemma u8_for_type: "for_type u8_schema = Some (Ok (container_new ''u8'' [(''u8'', Primitive 1)]))"
  by (simp add: for_type_def u8_schema_def primitive_schema_def add_definition_def)

lemma u8_container_ok: "container_ok (container_new ''u8'' [(''u8'', Primitive 1)])"
  by (simp add: container_ok_def container_new_def btree_map_ok_def vec_ok_def pair_ok_def string_ok_def valid_utf8_def)

theorem schema_prefix_round_trip_witness:
  "\<exists>bs. try_to_vec_with_schema u8_ser u8_schema 7 = Some (Ok bs) \<and>
    try_from_slice_with_schema True 56 u8_de u8_schema bs = Some (Ok 7)"
  using schema_prefix_round_trip [OF u8_S.serialize_impl_axioms u8_D.canonical_impl_axioms u8_for_type u8_container_ok, of 7 56]
  by blast

end
