(* ===== verification/Derive_Syntax.thy ===== *)
theory Derive_Syntax
  imports Borsh_Prelude
begin

section \<open>The input of the derive macros\<close>

text \<open>
  The part of Rust's syntax that \<open>borsh-derive\<close> inspects, with the constructors of the
  crate \<open>syn\<close> that its code matches on: types and paths, attributes with their nested
  metas, fields, variants, items and generics. Tokens that the macros only copy
  (predicates, expressions, macro paths) are strings. The \<open>?\<close> operator of the macro code
  is \<open>and_ok\<close>; its errors are the messages of \<open>syn::Error\<close>.
\<close>

type_synonym ident = string
type_synonym derive_error = string

subsection \<open>Results\<close>

definition and_ok :: "('e, 'a) outcome \<Rightarrow> ('a \<Rightarrow> ('e, 'b) outcome) \<Rightarrow> ('e, 'b) outcome" where
  "and_ok m f = (case m of Ok a \<Rightarrow> f a | Err e \<Rightarrow> Err e | Panic \<Rightarrow> Panic)"

lemma and_ok_simps [simp]: "and_ok (Ok a) f = f a" "and_ok (Err e) f = Err e" "and_ok Panic f = Panic"
  by (simp_all add: and_ok_def)

lemma and_ok_Ok_iff: "and_ok m f = Ok b \<longleftrightarrow> (\<exists>a. m = Ok a \<and> f a = Ok b)"
  by (cases m) simp_all

text \<open>A \<open>for\<close> loop whose body threads a state and ends with \<open>?\<close>.\<close>

fun fold_ok :: "('x \<Rightarrow> 's \<Rightarrow> ('e, 's) outcome) \<Rightarrow> 'x list \<Rightarrow> 's \<Rightarrow> ('e, 's) outcome" where
  "fold_ok f [] s = Ok s"
| "fold_ok f (x # xs) s = and_ok (f x s) (fold_ok f xs)"

lemma fold_ok_append: "fold_ok f (xs @ ys) s = and_ok (fold_ok f xs s) (fold_ok f ys)"
proof (induction xs arbitrary: s)
  case (Cons x xs)
  then show ?case by (cases "f x s") simp_all
qed simp

lemma fold_ok_invariant:
  assumes "fold_ok f xs s = Ok t" and "I s" and "\<And>x s t. x \<in> set xs \<Longrightarrow> I s \<Longrightarrow> f x s = Ok t \<Longrightarrow> I t"
  shows "I t"
  using assms
proof (induction xs arbitrary: s)
  case (Cons x xs)
  then obtain u where u: "f x s = Ok u" "fold_ok f xs u = Ok t" by (auto simp: and_ok_Ok_iff)
  show ?case by (rule Cons.IH [OF u(2)]) (use Cons.prems(2,3) u(1) in auto)
qed simp

subsection \<open>Types and paths\<close>

datatype ty =
    TypeArray ty
  | TypeBareFn "ty list" "ty option"
  | TypeGroup ty
  | TypeImplTrait "bound list"
  | TypeMacro string
  | TypeParen ty
  | TypePath "ty option" path
  | TypePtr ty
  | TypeReference ty
  | TypeSlice ty
  | TypeTraitObject "bound list"
  | TypeTuple "ty list"
  | TypeOther string
and path = Path bool "segment list"
and segment = Segment ident path_arguments
and path_arguments =
    NoArguments
  | AngleBracketed "generic_argument list"
  | Parenthesized "ty list" "ty option"
and generic_argument = ArgType ty | ArgAssocType ident ty | ArgOther string
and bound = BoundTrait path | BoundOther string

fun segments :: "path \<Rightarrow> segment list" where
  "segments (Path _ segs) = segs"

fun segment_ident :: "segment \<Rightarrow> ident" where
  "segment_ident (Segment i _) = i"

text \<open>A single identifier as a type.\<close>

definition ident_type :: "ident \<Rightarrow> ty" where
  "ident_type i = TypePath None (Path False [Segment i NoArguments])"

subsection \<open>Attributes\<close>

text \<open>
  An attribute \<open>#[path(meta, ...)]\<close>, or \<open>#[path]\<close> without arguments. What follows the path of a meta: nothing, an expression
  after \<open>=\<close>, or a list in parentheses. An expression is a string literal, a group of
  invisible delimiters, or other tokens.
\<close>

datatype expr = LitStr string | ExprGroup expr | ExprTokens string

datatype meta = Meta ident meta_value
and meta_value = NoValue | Assigned expr | Nested "meta list"

text \<open>The tokens of an expression; a group is invisible in them.\<close>

fun expr_tokens :: "expr \<Rightarrow> string" where
  "expr_tokens (LitStr s) = CHR 0x22 # s @ [CHR 0x22]"
| "expr_tokens (ExprGroup e) = expr_tokens e"
| "expr_tokens (ExprTokens s) = s"

fun meta_path :: "meta \<Rightarrow> ident" where
  "meta_path (Meta p _) = p"

record attribute =
  attr_path :: ident
  attr_args :: "meta list option"

text \<open>
  \<open>parse_nested_meta\<close> of \<open>syn\<close> calls the closure for each meta and stops at the first error;
  the closure tells whether it has consumed what follows the path, and tokens that are
  left before the next comma are an error.
\<close>

definition leftover :: "meta \<Rightarrow> bool" where
  "leftover m = (case m of Meta _ v \<Rightarrow> v \<noteq> NoValue)"

definition parse_nested_meta ::
  "(meta \<Rightarrow> 's \<Rightarrow> (derive_error, 's \<times> bool) outcome) \<Rightarrow> meta list \<Rightarrow> 's \<Rightarrow> (derive_error, 's) outcome" where
  "parse_nested_meta logic = fold_ok (\<lambda>m s.
     and_ok (logic m s) (\<lambda>(s', consumed).
       if \<not> consumed \<and> leftover m then Err ''expected `,`'' else Ok s'))"

definition attr_nested_meta ::
  "(meta \<Rightarrow> 's \<Rightarrow> (derive_error, 's \<times> bool) outcome) \<Rightarrow> attribute \<Rightarrow> 's \<Rightarrow> (derive_error, 's) outcome" where
  "attr_nested_meta logic attr s =
     (case attr_args attr of
         Some metas \<Rightarrow> parse_nested_meta logic metas s
       | None \<Rightarrow> Err ''expected attribute arguments in parentheses'')"

text \<open>\<open>meta.value()?.parse::<Expr>()?\<close>\<close>

fun meta_expr :: "meta \<Rightarrow> (derive_error, expr) outcome" where
  "meta_expr (Meta _ (Assigned e)) = Ok e"
| "meta_expr _ = Err ''expected `=`''"

subsection \<open>Constant expressions\<close>

text \<open>The tokens of an explicit discriminant.\<close>

datatype binop = Mul | Div | Rem | Add | Sub | Shl | Shr | BitAnd | BitXor | BitOr
datatype token = TNum int | TOp binop | TOpen | TClose

subsection \<open>Generics, fields and items\<close>

datatype generic_param =
    ParamLifetime ident
  | ParamType ident "bound list" "ty option"
  | ParamConst ident

datatype where_predicate =
    PredicateLifetime string
  | PredicateType ty string

record generics =
  gen_params :: "generic_param list"
  gen_where :: "where_predicate list option"

fun type_param :: "generic_param \<Rightarrow> ident option" where
  "type_param (ParamType i _ _) = Some i"
| "type_param _ = None"

definition type_params :: "generics \<Rightarrow> ident list" where
  "type_params g = List.map_filter type_param (gen_params g)"

record syn_field =
  fld_ident :: "ident option"
  fld_ty :: ty
  fld_attrs :: "attribute list"

datatype syn_fields = FieldsNamed "syn_field list" | FieldsUnnamed "syn_field list" | FieldsUnit

fun fields_list :: "syn_fields \<Rightarrow> syn_field list" where
  "fields_list (FieldsNamed fs) = fs"
| "fields_list (FieldsUnnamed fs) = fs"
| "fields_list FieldsUnit = []"

text \<open>Fields as the parser of Rust delivers them: all with different names, or all without.\<close>

fun fields_wf :: "syn_fields \<Rightarrow> bool" where
  "fields_wf (FieldsNamed fs) \<longleftrightarrow> (\<forall>f\<in>set fs. fld_ident f \<noteq> None) \<and> distinct (List.map fld_ident fs)"
| "fields_wf (FieldsUnnamed fs) \<longleftrightarrow> (\<forall>f\<in>set fs. fld_ident f = None)"
| "fields_wf FieldsUnit \<longleftrightarrow> True"

record variant =
  var_ident :: ident
  var_fields :: syn_fields
  var_discriminant :: "token list option"

record item_struct =
  st_ident :: ident
  st_generics :: generics
  st_fields :: syn_fields
  st_attrs :: "attribute list"

record item_enum =
  en_ident :: ident
  en_generics :: generics
  en_variants :: "variant list"
  en_attrs :: "attribute list"

text \<open>\<open>DeriveInput\<close>, as far as \<open>check_attributes\<close> reads it.\<close>

record derive_input =
  di_attrs :: "attribute list"
  di_is_struct :: bool

text \<open>
  Identifiers of ASCII, by the lexical rule of Rust: letters, digits and underscores, and no
  digit in front. Concrete parsers have this for \<open>is_identifier\<close>.
\<close>

definition ident_char :: "char \<Rightarrow> bool" where
  "ident_char c =
     (let n = (of_char c :: nat) in 97 \<le> n \<and> n \<le> 122 \<or> 65 \<le> n \<and> n \<le> 90 \<or> n = 95 \<or> 48 \<le> n \<and> n \<le> 57)"

definition ascii_identifier :: "string \<Rightarrow> bool" where
  "ascii_identifier s =
     (s \<noteq> [] \<and> list_all ident_char s \<and> \<not> (48 \<le> (of_char (hd s) :: nat) \<and> (of_char (hd s) :: nat) \<le> 57))"

lemma ascii_identifier_glued: "ascii_identifier a \<Longrightarrow> ascii_identifier b \<Longrightarrow> ascii_identifier (a @ b)"
  by (simp add: ascii_identifier_def)

lemma raw_identifier_glued: "\<not> ascii_identifier (a @ CHR ''r'' # CHR ''#'' # b)"
proof
  assume "ascii_identifier (a @ CHR ''r'' # CHR ''#'' # b)"
  then have "\<forall>c\<in>set (a @ CHR ''r'' # CHR ''#'' # b). ident_char c"
    unfolding ascii_identifier_def list_all_iff by blast
  then show False by (simp add: ident_char_def)
qed

end
