(* ===== verification/Derive_Attributes.thy ===== *)
theory Derive_Attributes
  imports Derive_Syntax
begin

section \<open>The attributes of the derive macros\<close>

text \<open>
  Models \<open>borsh-derive/src/internals/attributes\<close>: the nested keys of \<open>#[borsh(...)]\<close> on
  items (\<open>item/mod.rs\<close>) and on fields (\<open>field/\<close>), with the table-driven parser of
  \<open>parsing.rs\<close>. A parse table is the list of its entries in the order of the \<open>BTreeMap\<close>; an
  entry also tells whether its function consumes the value of the meta. What \<open>syn\<close> parses
  inside string literals is a parameter (\<open>literal_parsers\<close>).
\<close>

subsection \<open>Symbols\<close>

datatype symbol = Symbol (sym_key: string) (sym_text: string)

definition BORSH :: symbol where "BORSH = Symbol ''borsh'' ''borsh(...)''"
definition BOUND :: symbol where "BOUND = Symbol ''bound'' ''bound(...)''"
definition USE_DISCRIMINANT :: symbol where "USE_DISCRIMINANT = Symbol ''use_discriminant'' ''use_discriminant = ...''"
definition SERIALIZE :: symbol where "SERIALIZE = Symbol ''serialize'' ''serialize = ...''"
definition DESERIALIZE :: symbol where "DESERIALIZE = Symbol ''deserialize'' ''deserialize = ...''"
definition SKIP :: symbol where "SKIP = Symbol ''skip'' ''skip''"
definition INIT :: symbol where "INIT = Symbol ''init'' ''init = ...''"
definition SERIALIZE_WITH :: symbol where "SERIALIZE_WITH = Symbol ''serialize_with'' ''serialize_with = ...''"
definition DESERIALIZE_WITH :: symbol where "DESERIALIZE_WITH = Symbol ''deserialize_with'' ''deserialize_with = ...''"
definition CRATE :: symbol where "CRATE = Symbol ''crate'' ''crate = ...''"
definition SCHEMA :: symbol where "SCHEMA = Symbol ''schema'' ''schema(...)''"
definition PARAMS :: symbol where "PARAMS = Symbol ''params'' ''params = ...''"
definition WITH_FUNCS :: symbol where "WITH_FUNCS = Symbol ''with_funcs'' ''with_funcs(...)''"
definition DECLARATION :: symbol where "DECLARATION = Symbol ''declaration'' ''declaration = ...''"
definition DEFINITIONS :: symbol where "DEFINITIONS = Symbol ''definitions'' ''definitions = ...''"

lemmas symbol_defs = BORSH_def BOUND_def USE_DISCRIMINANT_def SERIALIZE_def DESERIALIZE_def SKIP_def INIT_def
  SERIALIZE_WITH_def DESERIALIZE_WITH_def CRATE_def SCHEMA_def PARAMS_def WITH_FUNCS_def DECLARATION_def DEFINITIONS_def

text \<open>\<open>PartialEq<Symbol> for Path\<close>: \<open>is_ident\<close> of the first component.\<close>

definition path_is :: "ident \<Rightarrow> symbol \<Rightarrow> bool" where
  "path_is p word \<longleftrightarrow> p = sym_key word"

datatype bound_type = BoundSerialize | BoundDeserialize

definition get_one_attribute :: "attribute list \<Rightarrow> (derive_error, attribute option) outcome" where
  "get_one_attribute attrs =
     (let cnt = length (filter (\<lambda>attr. path_is (attr_path attr) BORSH) attrs);
          borsh = find (\<lambda>attr. path_is (attr_path attr) BORSH) attrs
      in if cnt > 1 then Err (''multiple `'' @ sym_key BORSH @ ''` attributes not allowed'') else Ok borsh)"

subsection \<open>The table-driven parser\<close>

fun ungroup_expr :: "expr \<Rightarrow> expr" where
  "ungroup_expr (ExprGroup e) = ungroup_expr e"
| "ungroup_expr e = e"

definition get_lit_str2 :: "symbol \<Rightarrow> symbol \<Rightarrow> meta \<Rightarrow> (derive_error, string) outcome" where
  "get_lit_str2 attr_name meta_item_name m =
     and_ok (meta_expr m) (\<lambda>e.
       case ungroup_expr e of
           LitStr s \<Rightarrow> Ok s
         | _ \<Rightarrow> Err (''expected borsh '' @ sym_key attr_name @ '' attribute to be a string: `'' @
                    sym_key meta_item_name @ '' = \"...\"`''))"

definition parse_lit_into ::
  "(string \<Rightarrow> (derive_error, 'a) outcome) \<Rightarrow> symbol \<Rightarrow> symbol \<Rightarrow> meta \<Rightarrow> (derive_error, 'a) outcome" where
  "parse_lit_into parse attr_name meta_item_name m =
     and_ok (get_lit_str2 attr_name meta_item_name m) parse"

type_synonym 't parse_entry = "symbol \<times> (symbol \<Rightarrow> symbol \<Rightarrow> meta \<Rightarrow> (derive_error, 't) outcome) \<times> bool"
type_synonym 't parse_table = "'t parse_entry list"

definition get_nested_meta_logic ::
  "symbol \<Rightarrow> 't parse_table \<Rightarrow> meta \<Rightarrow> (symbol \<rightharpoonup> 't) \<Rightarrow> (derive_error, (symbol \<rightharpoonup> 't) \<times> bool) outcome" where
  "get_nested_meta_logic attr_name table m result =
     and_ok (fold_ok (\<lambda>(symbol_key, func, consumes) (result, matched, consumed).
         if path_is (meta_path m) symbol_key
         then and_ok (func attr_name symbol_key m) (\<lambda>v. Ok (result(symbol_key \<mapsto> v), True, consumes))
         else Ok (result, matched, consumed)) table (result, False, False))
       (\<lambda>(result, matched, consumed).
         if \<not> matched
         then Err (''malformed '' @ sym_key attr_name @ '' attribute, expected `'' @ sym_key attr_name @ ''('' @
                   join '', '' (List.map (\<lambda>(symbol, _). sym_text symbol) table) @ '')`'')
         else Ok (result, consumed))"

definition meta_get_by_symbol_keys ::
  "symbol \<Rightarrow> meta \<Rightarrow> 't parse_table \<Rightarrow> (derive_error, symbol \<rightharpoonup> 't) outcome" where
  "meta_get_by_symbol_keys attr_name m table =
     (case m of
         Meta _ (Nested metas) \<Rightarrow> parse_nested_meta (get_nested_meta_logic attr_name table) metas Map.empty
       | _ \<Rightarrow> Err ''expected parentheses'')"

definition attr_get_by_symbol_keys ::
  "symbol \<Rightarrow> attribute \<Rightarrow> 't parse_table \<Rightarrow> (derive_error, symbol \<rightharpoonup> 't) outcome" where
  "attr_get_by_symbol_keys attr_name attr table =
     attr_nested_meta (get_nested_meta_logic attr_name table) attr Map.empty"

text \<open>
  \<open>map.remove(&KEY).map(|variant| match variant { Variants::X(x) => x, _ => unreachable!() })\<close>
\<close>

definition take_variant :: "('t \<Rightarrow> 'a option) \<Rightarrow> symbol \<Rightarrow> (symbol \<rightharpoonup> 't) \<Rightarrow> (derive_error, 'a option) outcome" where
  "take_variant sel key m =
     (case m key of
         None \<Rightarrow> Ok None
       | Some v \<Rightarrow> (case sel v of Some x \<Rightarrow> Ok (Some x) | None \<Rightarrow> Panic))"

subsection \<open>Field attributes\<close>

record bounds =
  bounds_serialize :: "where_predicate list option"
  bounds_deserialize :: "where_predicate list option"

record with_funcs =
  wf_declaration :: "string option"
  wf_definitions :: "string option"

record parameter_override =
  order_param :: ident
  override_type :: ty

record schema_attributes =
  sa_params :: "parameter_override list option"
  sa_with_funcs :: "with_funcs option"

record attributes =
  at_bounds :: "bounds option"
  at_serialize_with :: "string option"
  at_deserialize_with :: "string option"
  at_skip :: bool
  at_schema :: "schema_attributes option"

record literal_parsers =
  parse_expr_path :: "string \<Rightarrow> (derive_error, string) outcome"
  parse_predicates :: "string \<Rightarrow> (derive_error, where_predicate list) outcome"
  parse_overrides :: "string \<Rightarrow> (derive_error, parameter_override list) outcome"
  is_identifier :: "string \<Rightarrow> bool"

datatype bounds_variant = BSerialize "where_predicate list" | BDeserialize "where_predicate list"
datatype funcs_variant = FDeclaration string | FDefinitions string
datatype schema_variants = SParams "parameter_override list" | SWithFuncs with_funcs
datatype field_variants =
    VBounds bounds
  | VSerializeWith string
  | VDeserializeWith string
  | VSkip
  | VSchema schema_attributes

definition map_outcome :: "('a \<Rightarrow> 'b) \<Rightarrow> ('e, 'a) outcome \<Rightarrow> ('e, 'b) outcome" where
  "map_outcome f r = and_ok r (\<lambda>a. Ok (f a))"

definition BOUNDS_FIELD_PARSE_MAP :: "literal_parsers \<Rightarrow> bounds_variant parse_table" where
  "BOUNDS_FIELD_PARSE_MAP P =
    [(DESERIALIZE, \<lambda>a k m. map_outcome BDeserialize (parse_lit_into (parse_predicates P) a k m), True),
     (SERIALIZE, \<lambda>a k m. map_outcome BSerialize (parse_lit_into (parse_predicates P) a k m), True)]"

definition bounds_from :: "(symbol \<rightharpoonup> bounds_variant) \<Rightarrow> (derive_error, bounds) outcome" where
  "bounds_from m =
     and_ok (take_variant (\<lambda>v. case v of BSerialize ser \<Rightarrow> Some ser | _ \<Rightarrow> None) SERIALIZE m) (\<lambda>ser.
     and_ok (take_variant (\<lambda>v. case v of BDeserialize de \<Rightarrow> Some de | _ \<Rightarrow> None) DESERIALIZE m) (\<lambda>de.
     Ok \<lparr>bounds_serialize = ser, bounds_deserialize = de\<rparr>))"

definition WITH_FUNCS_FIELD_PARSE_MAP :: "literal_parsers \<Rightarrow> funcs_variant parse_table" where
  "WITH_FUNCS_FIELD_PARSE_MAP P =
    [(DECLARATION, \<lambda>a k m. map_outcome FDeclaration (parse_lit_into (parse_expr_path P) a k m), True),
     (DEFINITIONS, \<lambda>a k m. map_outcome FDefinitions (parse_lit_into (parse_expr_path P) a k m), True)]"

definition with_funcs_from :: "(symbol \<rightharpoonup> funcs_variant) \<Rightarrow> (derive_error, with_funcs) outcome" where
  "with_funcs_from m =
     and_ok (take_variant (\<lambda>v. case v of FDeclaration d \<Rightarrow> Some d | _ \<Rightarrow> None) DECLARATION m) (\<lambda>decl.
     and_ok (take_variant (\<lambda>v. case v of FDefinitions d \<Rightarrow> Some d | _ \<Rightarrow> None) DEFINITIONS m) (\<lambda>defs.
     Ok \<lparr>wf_declaration = decl, wf_definitions = defs\<rparr>))"

definition f_with_funcs :: "literal_parsers \<Rightarrow> symbol \<Rightarrow> symbol \<Rightarrow> meta \<Rightarrow> (derive_error, schema_variants) outcome" where
  "f_with_funcs P attr_name meta_item_name m =
     and_ok (meta_get_by_symbol_keys WITH_FUNCS m (WITH_FUNCS_FIELD_PARSE_MAP P)) (\<lambda>map_result.
     and_ok (with_funcs_from map_result) (\<lambda>with_funcs.
       if (wf_declaration with_funcs \<noteq> None \<and> wf_definitions with_funcs = None) \<or>
          (wf_declaration with_funcs = None \<and> wf_definitions with_funcs \<noteq> None)
       then Err (''both `'' @ sym_text DECLARATION @ ''` and `'' @ sym_text DEFINITIONS @
                 ''` have to be specified at the same time'')
       else Ok (SWithFuncs with_funcs)))"

definition SCHEMA_FIELD_PARSE_MAP :: "literal_parsers \<Rightarrow> schema_variants parse_table" where
  "SCHEMA_FIELD_PARSE_MAP P =
    [(PARAMS, \<lambda>a k m. map_outcome SParams (parse_lit_into (parse_overrides P) a k m), True),
     (WITH_FUNCS, f_with_funcs P, True)]"

definition schema_attributes_from :: "(symbol \<rightharpoonup> schema_variants) \<Rightarrow> (derive_error, schema_attributes) outcome" where
  "schema_attributes_from m =
     and_ok (take_variant (\<lambda>v. case v of SParams ps \<Rightarrow> Some ps | _ \<Rightarrow> None) PARAMS m) (\<lambda>ps.
     and_ok (take_variant (\<lambda>v. case v of SWithFuncs wfs \<Rightarrow> Some wfs | _ \<Rightarrow> None) WITH_FUNCS m) (\<lambda>wfs.
     Ok \<lparr>sa_params = ps, sa_with_funcs = wfs\<rparr>))"

definition BORSH_FIELD_PARSE_MAP :: "literal_parsers \<Rightarrow> field_variants parse_table" where
  "BORSH_FIELD_PARSE_MAP P =
    [(BOUND, \<lambda>a k m. and_ok (meta_get_by_symbol_keys BOUND m (BOUNDS_FIELD_PARSE_MAP P)) (\<lambda>r.
        map_outcome VBounds (bounds_from r)), True),
     (DESERIALIZE_WITH, \<lambda>a k m. map_outcome VDeserializeWith (parse_lit_into (parse_expr_path P) a k m), True),
     (SCHEMA, \<lambda>a k m. and_ok (meta_get_by_symbol_keys SCHEMA m (SCHEMA_FIELD_PARSE_MAP P)) (\<lambda>r.
        map_outcome VSchema (schema_attributes_from r)), True),
     (SERIALIZE_WITH, \<lambda>a k m. map_outcome VSerializeWith (parse_lit_into (parse_expr_path P) a k m), True),
     (SKIP, \<lambda>a k m. Ok VSkip, False)]"

definition attributes_from :: "(symbol \<rightharpoonup> field_variants) \<Rightarrow> (derive_error, attributes) outcome" where
  "attributes_from m =
     and_ok (take_variant (\<lambda>v. case v of VBounds b \<Rightarrow> Some b | _ \<Rightarrow> None) BOUND m) (\<lambda>bounds.
     and_ok (take_variant (\<lambda>v. case v of VSerializeWith p \<Rightarrow> Some p | _ \<Rightarrow> None) SERIALIZE_WITH m) (\<lambda>sw.
     and_ok (take_variant (\<lambda>v. case v of VDeserializeWith p \<Rightarrow> Some p | _ \<Rightarrow> None) DESERIALIZE_WITH m) (\<lambda>dw.
     and_ok (take_variant (\<lambda>v. case v of VSkip \<Rightarrow> Some () | _ \<Rightarrow> None) SKIP m) (\<lambda>skip.
     and_ok (take_variant (\<lambda>v. case v of VSchema s \<Rightarrow> Some s | _ \<Rightarrow> None) SCHEMA m) (\<lambda>schema.
     Ok \<lparr>at_bounds = bounds, at_serialize_with = sw, at_deserialize_with = dw,
          at_skip = (skip \<noteq> None), at_schema = schema\<rparr>)))))"

definition check_schema :: "attributes \<Rightarrow> (derive_error, unit) outcome" where
  "check_schema self =
     (case at_schema self of
         None \<Rightarrow> Ok ()
       | Some schema \<Rightarrow>
           if at_skip self \<and> sa_params schema \<noteq> None
           then Err (''`'' @ sym_key SKIP @ ''` cannot be used at the same time as `'' @ sym_key SCHEMA @ ''('' @ sym_text PARAMS @ '')`'')
           else if at_skip self \<and> sa_with_funcs schema \<noteq> None
           then Err (''`'' @ sym_key SKIP @ ''` cannot be used at the same time as `'' @ sym_key SCHEMA @ ''('' @ sym_text WITH_FUNCS @ '')`'')
           else Ok ())"

definition check_field :: "attributes \<Rightarrow> (derive_error, unit) outcome" where
  "check_field self =
     (if at_skip self \<and> (at_serialize_with self \<noteq> None \<or> at_deserialize_with self \<noteq> None)
      then Err (''`'' @ sym_key SKIP @ ''` cannot be used at the same time as `'' @ sym_key SERIALIZE_WITH @ ''` or `'' @
                sym_key DESERIALIZE_WITH @ ''`'')
      else and_ok (check_schema self) (\<lambda>_. Ok ()))"

definition parse_attributes :: "literal_parsers \<Rightarrow> attribute list \<Rightarrow> (derive_error, attributes) outcome" where
  "parse_attributes P attrs =
     and_ok (get_one_attribute attrs) (\<lambda>borsh.
       case borsh of
           Some attr \<Rightarrow>
             and_ok (attr_get_by_symbol_keys BORSH attr (BORSH_FIELD_PARSE_MAP P)) (\<lambda>m.
             and_ok (attributes_from m) (\<lambda>result.
             and_ok (check_field result) (\<lambda>_. Ok result)))
         | None \<Rightarrow> attributes_from Map.empty)"

definition filter_attrs :: "attribute list \<Rightarrow> attribute list" where
  "filter_attrs attrs = filter (\<lambda>attr. path_is (attr_path attr) BORSH) attrs"

definition get_bounds :: "attributes \<Rightarrow> bound_type \<Rightarrow> where_predicate list option" where
  "get_bounds self t =
     (case at_bounds self of
         None \<Rightarrow> None
       | Some b \<Rightarrow> (case t of BoundSerialize \<Rightarrow> bounds_serialize b | BoundDeserialize \<Rightarrow> bounds_deserialize b))"

definition needs_bounds_derive :: "attributes \<Rightarrow> bound_type \<Rightarrow> bool" where
  "needs_bounds_derive self t \<longleftrightarrow> get_bounds self t = None"

definition collect_bounds :: "attributes \<Rightarrow> bound_type \<Rightarrow> where_predicate list" where
  "collect_bounds self t = (case get_bounds self t of None \<Rightarrow> [] | Some ps \<Rightarrow> ps)"

definition needs_schema_params_derive :: "attributes \<Rightarrow> bool" where
  "needs_schema_params_derive self =
     (case at_schema self of Some schema \<Rightarrow> sa_params schema = None | None \<Rightarrow> True)"

definition schema_declaration :: "attributes \<Rightarrow> string option" where
  "schema_declaration self =
     Option.bind (at_schema self) (\<lambda>schema. Option.bind (sa_with_funcs schema) wf_declaration)"

definition schema_definitions :: "attributes \<Rightarrow> string option" where
  "schema_definitions self =
     Option.bind (at_schema self) (\<lambda>schema. Option.bind (sa_with_funcs schema) wf_definitions)"

text \<open>The attributes of a field that has been processed.\<close>

definition attrs_of :: "literal_parsers \<Rightarrow> syn_field \<Rightarrow> attributes" where
  "attrs_of P f = (case parse_attributes P (fld_attrs f) of
       Ok a \<Rightarrow> a
     | _ \<Rightarrow> \<lparr>at_bounds = None, at_serialize_with = None, at_deserialize_with = None, at_skip = False, at_schema = None\<rparr>)"

subsection \<open>Item attributes\<close>

text \<open>The first attribute named \<open>borsh\<close>; the others were refused by \<open>check_attributes\<close>.\<close>

definition find_borsh :: "attribute list \<Rightarrow> attribute option" where
  "find_borsh attrs = find (\<lambda>attr. path_is (attr_path attr) BORSH) attrs"

definition check_attributes :: "derive_input \<Rightarrow> (derive_error, unit) outcome" where
  "check_attributes input =
     and_ok (get_one_attribute (di_attrs input)) (\<lambda>borsh.
       case borsh of
           None \<Rightarrow> Ok ()
         | Some attr \<Rightarrow> attr_nested_meta (\<lambda>m s.
             let p = meta_path m
             in if \<not> path_is p USE_DISCRIMINANT \<and> \<not> path_is p INIT \<and> \<not> path_is p CRATE
                then Err ''`crate`, `use_discriminant` or `init` are the only supported attributes for `borsh`''
                else if path_is p USE_DISCRIMINANT
                then and_ok (meta_expr m) (\<lambda>_.
                  if di_is_struct input then Err ''borsh(use_discriminant=<bool>) does not support structs''
                  else Ok (s, True))
                else and_ok (meta_expr m) (\<lambda>_. Ok (s, True))) attr ())"

definition contains_use_discriminant :: "item_enum \<Rightarrow> (derive_error, bool) outcome" where
  "contains_use_discriminant input =
     (if length (en_variants input) > 256 then Err ''up to 256 enum variants are supported''
      else
        and_ok
          (case find_borsh (en_attrs input) of
              None \<Rightarrow> Ok None
            | Some attr \<Rightarrow> attr_nested_meta (\<lambda>m use_discriminant.
                let p = meta_path m
                in if path_is p USE_DISCRIMINANT
                   then and_ok (meta_expr m) (\<lambda>e.
                     if expr_tokens e = ''true'' then Ok (Some True, True)
                     else if expr_tokens e = ''false'' then Ok (Some False, True)
                     else Err ''`use_discriminant` accepts only `true` or `false`'')
                   else if path_is p INIT \<or> path_is p CRATE
                   then and_ok (meta_expr m) (\<lambda>_. Ok (use_discriminant, True))
                   else Ok (use_discriminant, False)) attr None)
          (\<lambda>use_discriminant.
            let has_explicit_discriminants = list_ex (\<lambda>v. var_discriminant v \<noteq> None) (en_variants input)
            in if has_explicit_discriminants \<and> use_discriminant = None
               then Err ''You have to specify `#[borsh(use_discriminant=true)]` or `#[borsh(use_discriminant=false)]` for all enums with explicit discriminant''
               else Ok (case use_discriminant of Some b \<Rightarrow> b | None \<Rightarrow> False)))"

text \<open>\<open>meta.value()?.parse::<Path>()?\<close>; \<open>parse_path\<close> is the parser for paths of \<open>syn\<close>.\<close>

definition contains_initialize_with ::
  "(string \<Rightarrow> (derive_error, string) outcome) \<Rightarrow> attribute list \<Rightarrow> (derive_error, string option) outcome" where
  "contains_initialize_with parse_path attrs =
     (case find_borsh attrs of
         None \<Rightarrow> Ok None
       | Some attr \<Rightarrow> attr_nested_meta (\<lambda>m res.
           let p = meta_path m
           in if path_is p INIT
              then and_ok (meta_expr m) (\<lambda>e. and_ok (parse_path (expr_tokens e)) (\<lambda>v. Ok (Some v, True)))
              else if path_is p USE_DISCRIMINANT \<or> path_is p CRATE
              then and_ok (meta_expr m) (\<lambda>_. Ok (res, True))
              else Ok (res, False)) attr None)"

definition get_crate ::
  "(string \<Rightarrow> (derive_error, string) outcome) \<Rightarrow> attribute list \<Rightarrow> (derive_error, string option) outcome" where
  "get_crate parse_path attrs =
     (case find_borsh attrs of
         None \<Rightarrow> Ok None
       | Some attr \<Rightarrow> attr_nested_meta (\<lambda>m res.
           let p = meta_path m
           in if path_is p CRATE
              then and_ok (parse_lit_into parse_path BORSH CRATE m) (\<lambda>v. Ok (Some v, True))
              else if path_is p USE_DISCRIMINANT \<or> path_is p INIT
              then and_ok (meta_expr m) (\<lambda>_. Ok (res, True))
              else Ok (res, False)) attr None)"

subsection \<open>What the table-driven parser returns\<close>

text \<open>Every entry of a result was made by the table's function for its key.\<close>

definition made_by :: "'t parse_table \<Rightarrow> (symbol \<rightharpoonup> 't) \<Rightarrow> bool" where
  "made_by table m \<longleftrightarrow> (\<forall>k v. m k = Some v \<longrightarrow> (\<exists>f c a meta. (k, f, c) \<in> set table \<and> f a k meta = Ok v))"

lemma made_by_empty: "made_by table Map.empty"
  by (simp add: made_by_def)

lemma logic_made_by:
  assumes "get_nested_meta_logic attr_name table m result = Ok (result', c)" and "made_by table result"
  shows "made_by table result'"
proof -
  let ?step = "\<lambda>(symbol_key, func, consumes) (result, matched, consumed).
         if path_is (meta_path m) symbol_key
         then and_ok (func attr_name symbol_key m) (\<lambda>v. Ok (result(symbol_key \<mapsto> v), True, consumes))
         else Ok (result, matched, consumed)"
  from assms(1) obtain matched where "fold_ok ?step table (result, False, False) = Ok (result', matched, c)"
    by (auto simp: get_nested_meta_logic_def and_ok_Ok_iff split: if_splits)
  then have "made_by table (fst (result', matched, c))"
  proof (rule fold_ok_invariant)
    fix entry s s'
    assume entry: "entry \<in> set table" and s: "made_by table (fst s)" and step: "?step entry s = Ok s'"
    obtain k f cs where e: "entry = (k, f, cs)" by (cases entry)
    obtain r mt cd where r: "s = (r, mt, cd)" by (cases s)
    show "made_by table (fst s')"
    proof (cases "path_is (meta_path m) k")
      case True
      with step e r obtain v where "f attr_name k m = Ok v" "s' = (r(k \<mapsto> v), True, cs)"
        by (auto simp: and_ok_Ok_iff)
      with entry s e r show ?thesis by (auto simp: made_by_def simp del: split_paired_Ex)
    next
      case False
      with step s e r show ?thesis by auto
    qed
  qed (simp add: assms(2))
  then show ?thesis by simp
qed

lemma parse_made_by:
  assumes "parse_nested_meta (get_nested_meta_logic attr_name table) metas Map.empty = Ok m"
  shows "made_by table m"
  using assms unfolding parse_nested_meta_def
  by (rule fold_ok_invariant) (auto simp: made_by_empty and_ok_Ok_iff dest: logic_made_by split: if_splits)

lemma get_made_by:
  "meta_get_by_symbol_keys attr_name meta table = Ok m \<Longrightarrow> made_by table m"
  "attr_get_by_symbol_keys attr_name attr table = Ok m \<Longrightarrow> made_by table m"
  by (auto simp: meta_get_by_symbol_keys_def attr_get_by_symbol_keys_def attr_nested_meta_def
      dest: parse_made_by split: meta.splits meta_value.splits option.splits)

text \<open>A computation that does not panic.\<close>

definition returns :: "('e, 'a) outcome \<Rightarrow> bool" where
  "returns r \<longleftrightarrow> r \<noteq> Panic"

named_theorems return_intros \<open>computations that do not panic\<close>

lemma returns_basic [simp]: "returns (Ok a)" "returns (Err e)" "\<not> returns Panic"
  by (simp_all add: returns_def)

lemma returns_then [return_intros]: "returns r \<Longrightarrow> (\<And>a. r = Ok a \<Longrightarrow> returns (f a)) \<Longrightarrow> returns (and_ok r f)"
  by (cases r) simp_all

lemma returns_fold [return_intros]: "(\<And>x s. x \<in> set xs \<Longrightarrow> returns (f x s)) \<Longrightarrow> returns (fold_ok f xs s)"
proof (induction xs arbitrary: s)
  case (Cons x xs)
  have "returns (f x s)" and "\<And>t. returns (fold_ok f xs t)" using Cons by simp_all
  then show ?case by (cases "f x s") simp_all
qed simp

lemma returns_expr [return_intros]: "returns (meta_expr m)"
  by (cases m rule: meta_expr.cases) simp_all

lemma returns_lit [return_intros]: "(\<And>s. returns (parse s)) \<Longrightarrow> returns (parse_lit_into parse a k m)"
  by (auto simp: parse_lit_into_def get_lit_str2_def intro!: return_intros split: expr.split)

lemma returns_map [return_intros]: "returns r \<Longrightarrow> returns (map_outcome f r)"
  by (simp add: map_outcome_def return_intros)

lemma returns_logic [return_intros]:
  assumes "\<And>k f c a m. (k, f, c) \<in> set table \<Longrightarrow> returns (f a k m)"
  shows "returns (get_nested_meta_logic a (table :: 't parse_table) m r)"
  unfolding get_nested_meta_logic_def
proof (intro returns_then returns_fold)
  fix entry and s :: "(symbol \<rightharpoonup> 't) \<times> bool \<times> bool" assume entry: "entry \<in> set table"
  obtain k f cs where e: "entry = (k, f, cs)" by (cases entry)
  obtain r mt cd where s: "s = (r, mt, cd)" by (cases s)
  show "returns ((\<lambda>(symbol_key, func, consumes) (result, matched, consumed).
         if path_is (meta_path m) symbol_key
         then and_ok (func a symbol_key m) (\<lambda>v. Ok (result(symbol_key \<mapsto> v), True, consumes))
         else Ok (result, matched, consumed)) entry s)"
    using assms [OF entry [unfolded e]] by (simp add: e s return_intros)
qed (simp split: prod.split)

lemma returns_get [return_intros]:
  assumes "\<And>k f c a m. (k, f, c) \<in> set table \<Longrightarrow> returns (f a k m)"
  shows "returns (meta_get_by_symbol_keys a m table)" and "returns (attr_get_by_symbol_keys a attr table)"
  using assms
  by (auto simp: meta_get_by_symbol_keys_def attr_get_by_symbol_keys_def attr_nested_meta_def parse_nested_meta_def
      intro!: return_intros split: meta.splits meta_value.splits option.splits if_splits prod.splits)

lemma returns_take [return_intros]: "(\<And>v. m key = Some v \<Longrightarrow> sel v \<noteq> None) \<Longrightarrow> returns (take_variant sel key m)"
  by (auto simp: take_variant_def split: option.splits)

lemma take_variant_SomeD: "take_variant sel key m = Ok (Some x) \<Longrightarrow> \<exists>v. m key = Some v \<and> sel v = Some x"
  by (auto simp: take_variant_def split: option.splits)

subsection \<open>Field attributes are consistent\<close>

lemma bounds_made: "made_by (BOUNDS_FIELD_PARSE_MAP P) m \<Longrightarrow> returns (bounds_from m)"
  unfolding bounds_from_def
  by (intro return_intros)
    (fastforce simp: made_by_def BOUNDS_FIELD_PARSE_MAP_def symbol_defs map_outcome_def and_ok_Ok_iff)+

lemma funcs_made: "made_by (WITH_FUNCS_FIELD_PARSE_MAP P) m \<Longrightarrow> returns (with_funcs_from m)"
  unfolding with_funcs_from_def
  by (intro return_intros)
    (fastforce simp: made_by_def WITH_FUNCS_FIELD_PARSE_MAP_def symbol_defs map_outcome_def and_ok_Ok_iff)+

lemma schema_made: "made_by (SCHEMA_FIELD_PARSE_MAP P) m \<Longrightarrow> returns (schema_attributes_from m)"
  unfolding schema_attributes_from_def
  by (intro return_intros)
    (fastforce simp: made_by_def SCHEMA_FIELD_PARSE_MAP_def symbol_defs map_outcome_def and_ok_Ok_iff
      f_with_funcs_def split: if_splits)+

lemma attributes_made: "made_by (BORSH_FIELD_PARSE_MAP P) m \<Longrightarrow> returns (attributes_from m)"
  unfolding attributes_from_def
  by (intro return_intros)
    (fastforce simp: made_by_def BORSH_FIELD_PARSE_MAP_def symbol_defs map_outcome_def and_ok_Ok_iff)+

text \<open>The parsers of string literals do not panic: \<open>syn\<close> reports errors.\<close>

definition parsers_return :: "literal_parsers \<Rightarrow> bool" where
  "parsers_return P \<longleftrightarrow> (\<forall>s. returns (parse_expr_path P s) \<and> returns (parse_predicates P s) \<and> returns (parse_overrides P s))"

lemma with_funcs_returns: "parsers_return P \<Longrightarrow> returns (f_with_funcs P a k m)"
  unfolding f_with_funcs_def
  by (intro returns_then returns_get)
    (auto simp: parsers_return_def WITH_FUNCS_FIELD_PARSE_MAP_def intro!: return_intros funcs_made dest: get_made_by(1))

lemma field_table_returns:
  assumes "parsers_return P" and "(k, f, c) \<in> set (BORSH_FIELD_PARSE_MAP P)"
  shows "returns (f a k m)"
proof -
  have bounds: "returns (and_ok (meta_get_by_symbol_keys BOUND m (BOUNDS_FIELD_PARSE_MAP P)) (\<lambda>r. map_outcome VBounds (bounds_from r)))"
    by (intro returns_then returns_get returns_map)
      (use assms(1) in \<open>auto simp: parsers_return_def BOUNDS_FIELD_PARSE_MAP_def intro!: return_intros bounds_made dest: get_made_by(1)\<close>)
  have schema: "returns (and_ok (meta_get_by_symbol_keys SCHEMA m (SCHEMA_FIELD_PARSE_MAP P)) (\<lambda>r. map_outcome VSchema (schema_attributes_from r)))"
    by (intro returns_then returns_get returns_map)
      (use assms(1) with_funcs_returns [OF assms(1)] in
        \<open>auto simp: parsers_return_def SCHEMA_FIELD_PARSE_MAP_def intro!: return_intros schema_made dest: get_made_by(1)\<close>)
  show ?thesis
    using assms bounds schema by (auto simp: BORSH_FIELD_PARSE_MAP_def parsers_return_def intro!: return_intros)
qed

lemma get_one_returns [return_intros]: "returns (get_one_attribute attrs)"
  by (simp add: get_one_attribute_def Let_def)

lemma check_field_returns [return_intros]: "returns (check_field a)"
  by (auto simp: check_field_def check_schema_def split: option.splits intro!: return_intros)

lemma parse_attributes_returns:
  assumes "parsers_return P"
  shows "returns (parse_attributes P attrs)"
  unfolding parse_attributes_def
proof (rule returns_then)
  fix borsh assume "get_one_attribute attrs = Ok borsh"
  show "returns (case borsh of
           Some attr \<Rightarrow>
             and_ok (attr_get_by_symbol_keys BORSH attr (BORSH_FIELD_PARSE_MAP P)) (\<lambda>m.
             and_ok (attributes_from m) (\<lambda>result.
             and_ok (check_field result) (\<lambda>_. Ok result)))
         | None \<Rightarrow> attributes_from Map.empty)"
  proof (cases borsh)
    case None
    then show ?thesis by (simp add: attributes_made [OF made_by_empty])
  next
    case (Some attr)
    have "returns (attr_get_by_symbol_keys BORSH attr (BORSH_FIELD_PARSE_MAP P))"
      by (rule returns_get) (rule field_table_returns [OF assms])
    with Some show ?thesis
      by (auto intro!: returns_then check_field_returns attributes_made dest: get_made_by(2))
  qed
qed (rule get_one_returns)

lemma check_field_Ok: "check_field a = Ok u \<Longrightarrow> at_skip a \<Longrightarrow>
    at_serialize_with a = None \<and> at_deserialize_with a = None \<and> schema_declaration a = None \<and>
    schema_definitions a = None \<and> needs_schema_params_derive a"
  by (auto simp: check_field_def check_schema_def and_ok_Ok_iff schema_declaration_def schema_definitions_def
      needs_schema_params_derive_def split: option.splits if_splits)

lemma funcs_both:
  assumes "f_with_funcs P a k m = Ok (SWithFuncs w)"
  shows "wf_declaration w = None \<longleftrightarrow> wf_definitions w = None"
  using assms by (auto simp: f_with_funcs_def and_ok_Ok_iff split: if_splits)

lemma schema_funcs_both:
  assumes "made_by (SCHEMA_FIELD_PARSE_MAP P) m" and "schema_attributes_from m = Ok s" and "sa_with_funcs s = Some w"
  shows "wf_declaration w = None \<longleftrightarrow> wf_definitions w = None"
proof -
  from assms(2,3) have "take_variant (\<lambda>v. case v of SWithFuncs wfs \<Rightarrow> Some wfs | _ \<Rightarrow> None) WITH_FUNCS m = Ok (Some w)"
    by (auto simp: schema_attributes_from_def and_ok_Ok_iff)
  then have "m WITH_FUNCS = Some (SWithFuncs w)"
    by (auto dest!: take_variant_SomeD split: schema_variants.splits)
  with assms(1) obtain f c a meta where "(WITH_FUNCS, f, c) \<in> set (SCHEMA_FIELD_PARSE_MAP P)" "f a WITH_FUNCS meta = Ok (SWithFuncs w)"
    by (force simp: made_by_def)
  then have "f_with_funcs P a WITH_FUNCS meta = Ok (SWithFuncs w)"
    by (auto simp: SCHEMA_FIELD_PARSE_MAP_def symbol_defs map_outcome_def and_ok_Ok_iff)
  then show ?thesis by (rule funcs_both)
qed

lemma attributes_schema_both:
  assumes "made_by (BORSH_FIELD_PARSE_MAP P) m" and "attributes_from m = Ok a"
  shows "schema_declaration a = None \<longleftrightarrow> schema_definitions a = None"
proof (cases "at_schema a")
  case None
  then show ?thesis by (simp add: schema_declaration_def schema_definitions_def)
next
  case (Some s)
  with assms(2) have "take_variant (\<lambda>v. case v of VSchema s \<Rightarrow> Some s | _ \<Rightarrow> None) SCHEMA m = Ok (Some s)"
    by (auto simp: attributes_from_def and_ok_Ok_iff)
  then have "m SCHEMA = Some (VSchema s)"
    by (auto dest!: take_variant_SomeD split: field_variants.splits)
  with assms(1) obtain f c k meta where "(SCHEMA, f, c) \<in> set (BORSH_FIELD_PARSE_MAP P)" "f k SCHEMA meta = Ok (VSchema s)"
    by (force simp: made_by_def)
  then obtain r where "meta_get_by_symbol_keys SCHEMA meta (SCHEMA_FIELD_PARSE_MAP P) = Ok r" "schema_attributes_from r = Ok s"
    by (auto simp: BORSH_FIELD_PARSE_MAP_def symbol_defs map_outcome_def and_ok_Ok_iff)
  then have "\<And>w. sa_with_funcs s = Some w \<Longrightarrow> wf_declaration w = None \<longleftrightarrow> wf_definitions w = None"
    using schema_funcs_both get_made_by(1) by blast
  with Some show ?thesis
    by (cases "sa_with_funcs s") (auto simp: schema_declaration_def schema_definitions_def)
qed

lemma parse_attributes_consistent:
  assumes "parse_attributes P attrs = Ok a"
  shows "length (filter_attrs attrs) \<le> 1" and "schema_declaration a = None \<longleftrightarrow> schema_definitions a = None"
    and "at_skip a \<Longrightarrow> at_serialize_with a = None \<and> at_deserialize_with a = None \<and> schema_declaration a = None \<and>
      schema_definitions a = None \<and> needs_schema_params_derive a"
proof -
  from assms obtain borsh where one: "get_one_attribute attrs = Ok borsh" by (auto simp: parse_attributes_def and_ok_Ok_iff)
  then show "length (filter_attrs attrs) \<le> 1"
    by (auto simp: get_one_attribute_def Let_def filter_attrs_def split: if_splits)
  have "(schema_declaration a = None \<longleftrightarrow> schema_definitions a = None) \<and>
    (at_skip a \<longrightarrow> at_serialize_with a = None \<and> at_deserialize_with a = None \<and> schema_declaration a = None \<and>
      schema_definitions a = None \<and> needs_schema_params_derive a)"
  proof (cases borsh)
    case None
    with assms one show ?thesis
      by (auto simp: parse_attributes_def attributes_from_def take_variant_def schema_declaration_def schema_definitions_def)
  next
    case (Some attr)
    with assms one obtain m where m: "attr_get_by_symbol_keys BORSH attr (BORSH_FIELD_PARSE_MAP P) = Ok m"
      and a: "attributes_from m = Ok a" and check: "check_field a = Ok ()"
      by (auto simp: parse_attributes_def and_ok_Ok_iff)
    from attributes_schema_both [OF get_made_by(2) [OF m] a] check_field_Ok [OF check] show ?thesis by blast
  qed
  then show "schema_declaration a = None \<longleftrightarrow> schema_definitions a = None"
    and "at_skip a \<Longrightarrow> at_serialize_with a = None \<and> at_deserialize_with a = None \<and> schema_declaration a = None \<and>
      schema_definitions a = None \<and> needs_schema_params_derive a" by blast+
qed

end
