(* ===== verification/Derive_Generics.thy ===== *)
theory Derive_Generics
  imports Derive_Attributes
begin

section \<open>Generics of the derive macros\<close>

text \<open>
  Models \<open>borsh-derive/src/internals/generics.rs\<close> and the parts of
  \<open>internals/schema/mod.rs\<close> that use it. \<open>FindTyParams\<close> walks the type of a field and
  collects the type parameters that need a bound; a set of identifiers is a set, and the
  methods that take \<open>&mut self\<close> return the new value. The tokens of a type, by which the
  macro compares types, are a parameter \<open>tokens\<close> of the definitions that use them.
\<close>

subsection \<open>Small helpers\<close>

definition default_where :: "where_predicate list option \<Rightarrow> where_predicate list" where
  "default_where wc = (case wc of None \<Rightarrow> [] | Some ps \<Rightarrow> ps)"

definition compute_predicates :: "ty list \<Rightarrow> string \<Rightarrow> where_predicate list" where
  "compute_predicates ps traitname = List.map (\<lambda>p. PredicateType p traitname) ps"

fun without_default :: "generic_param \<Rightarrow> generic_param" where
  "without_default (ParamType i bs _) = ParamType i bs None"
| "without_default p = p"

definition without_defaults :: "generics \<Rightarrow> generics" where
  "without_defaults g = g\<lparr>gen_params := List.map without_default (gen_params g)\<rparr>"

fun ungroup :: "ty \<Rightarrow> ty" where
  "ungroup (TypeGroup elem) = ungroup elem"
| "ungroup t = t"

subsection \<open>The visitor\<close>

record find_ty_params =
  all_type_params_ordered :: "ident list"
  relevant_type_params :: "ident set"
  associated_type_params_usage :: "ident \<rightharpoonup> ty list"

definition find_new :: "generics \<Rightarrow> find_ty_params" where
  "find_new g = \<lparr>all_type_params_ordered = type_params g, relevant_type_params = {},
     associated_type_params_usage = Map.empty\<rparr>"

definition from_params :: "ident list \<Rightarrow> find_ty_params" where
  "from_params ps = \<lparr>all_type_params_ordered = ps, relevant_type_params = {},
     associated_type_params_usage = Map.empty\<rparr>"

text \<open>
  The recursive methods only change \<open>relevant_type_params\<close>; \<open>ps\<close> are the type parameters
  of the item.
\<close>

fun visit_type :: "ident list \<Rightarrow> ty \<Rightarrow> ident set \<Rightarrow> ident set"
  and visit_return_type :: "ident list \<Rightarrow> ty option \<Rightarrow> ident set \<Rightarrow> ident set"
  and visit_path :: "ident list \<Rightarrow> path \<Rightarrow> ident set \<Rightarrow> ident set"
  and visit_path_segment :: "ident list \<Rightarrow> segment \<Rightarrow> ident set \<Rightarrow> ident set"
  and visit_path_arguments :: "ident list \<Rightarrow> path_arguments \<Rightarrow> ident set \<Rightarrow> ident set"
  and visit_generic_argument :: "ident list \<Rightarrow> generic_argument \<Rightarrow> ident set \<Rightarrow> ident set"
  and visit_type_param_bound :: "ident list \<Rightarrow> bound \<Rightarrow> ident set \<Rightarrow> ident set"
where
  "visit_type ps (TypeArray elem) S = visit_type ps elem S"
| "visit_type ps (TypeBareFn inputs out) S =
     visit_return_type ps out (fold (visit_type ps) inputs S)"
| "visit_type ps (TypeGroup elem) S = visit_type ps elem S"
| "visit_type ps (TypeImplTrait bs) S = fold (visit_type_param_bound ps) bs S"
| "visit_type ps (TypeMacro mac) S = S"
| "visit_type ps (TypeParen elem) S = visit_type ps elem S"
| "visit_type ps (TypePath qself p) S =
     visit_path ps p (case qself of None \<Rightarrow> S | Some t \<Rightarrow> visit_type ps t S)"
| "visit_type ps (TypePtr elem) S = visit_type ps elem S"
| "visit_type ps (TypeReference elem) S = visit_type ps elem S"
| "visit_type ps (TypeSlice elem) S = visit_type ps elem S"
| "visit_type ps (TypeTraitObject bs) S = fold (visit_type_param_bound ps) bs S"
| "visit_type ps (TypeTuple elems) S = fold (visit_type ps) elems S"
| "visit_type ps (TypeOther toks) S = S"
| "visit_return_type ps None S = S"
| "visit_return_type ps (Some t) S = visit_type ps t S"
| "visit_path ps (Path leading_colon segs) S =
     (if segs \<noteq> [] \<and> segment_ident (last segs) = ''PhantomData'' then S
      else fold (visit_path_segment ps) segs
        (if \<not> leading_colon \<and> length segs = 1 \<and> segment_ident (hd segs) \<in> set ps
         then insert (segment_ident (hd segs)) S else S))"
| "visit_path_segment ps (Segment i arguments) S = visit_path_arguments ps arguments S"
| "visit_path_arguments ps NoArguments S = S"
| "visit_path_arguments ps (AngleBracketed args) S = fold (visit_generic_argument ps) args S"
| "visit_path_arguments ps (Parenthesized inputs out) S =
     visit_return_type ps out (fold (visit_type ps) inputs S)"
| "visit_generic_argument ps (ArgType t) S = visit_type ps t S"
| "visit_generic_argument ps (ArgAssocType i t) S = visit_type ps t S"
| "visit_generic_argument ps (ArgOther toks) S = S"
| "visit_type_param_bound ps (BoundTrait p) S = visit_path ps p S"
| "visit_type_param_bound ps (BoundOther toks) S = S"

definition param_associated_type_insert :: "ident \<Rightarrow> ty \<Rightarrow> find_ty_params \<Rightarrow> find_ty_params" where
  "param_associated_type_insert param t self =
     self\<lparr>associated_type_params_usage := (associated_type_params_usage self)(param \<mapsto>
       (case associated_type_params_usage self param of Some type_vec \<Rightarrow> type_vec @ [t] | None \<Rightarrow> [t]))\<rparr>"

text \<open>The first segment of a path of two or more is followed by punctuation.\<close>

fun first_punctuated :: "ty \<Rightarrow> ident option" where
  "first_punctuated (TypePath _ (Path _ (s # _ # _))) = Some (segment_ident s)"
| "first_punctuated _ = None"

definition visit_type_top_level :: "ty \<Rightarrow> find_ty_params \<Rightarrow> find_ty_params" where
  "visit_type_top_level t self =
     (let self' = (case first_punctuated (ungroup t) of
          Some i \<Rightarrow> if i \<in> set (all_type_params_ordered self) then param_associated_type_insert i t self else self
        | None \<Rightarrow> self)
      in self'\<lparr>relevant_type_params :=
           visit_type (all_type_params_ordered self') t (relevant_type_params self')\<rparr>)"

definition visit_field :: "syn_field \<Rightarrow> find_ty_params \<Rightarrow> find_ty_params" where
  "visit_field f self = visit_type_top_level (fld_ty f) self"

subsection \<open>The results of the visitor\<close>

text \<open>A type is added to the result unless one with the same tokens is there already.\<close>

definition add_predicate :: "(ty \<Rightarrow> string) \<Rightarrow> ty \<Rightarrow> ty list \<times> string set \<Rightarrow> ty list \<times> string set" where
  "add_predicate tokens t = (\<lambda>(new_predicates, new_predicates_set).
     if tokens t \<notin> new_predicates_set
     then (new_predicates @ [t], insert (tokens t) new_predicates_set)
     else (new_predicates, new_predicates_set))"

definition process_for_bounds :: "(ty \<Rightarrow> string) \<Rightarrow> find_ty_params \<Rightarrow> ty list" where
  "process_for_bounds tokens self =
     fst (fold (\<lambda>param acc.
         let acc' = (if param \<in> relevant_type_params self then add_predicate tokens (ident_type param) acc else acc)
         in case associated_type_params_usage self param of
                Some vec_type \<Rightarrow> fold (add_predicate tokens) vec_type acc'
              | None \<Rightarrow> acc')
       (all_type_params_ordered self) ([], {}))"

definition add_param :: "ident \<Rightarrow> bool \<Rightarrow> ident list \<times> ident set \<Rightarrow> ident list \<times> ident set" where
  "add_param param present = (\<lambda>(ps, seen).
     if present \<and> param \<notin> seen then (ps @ [param], insert param seen) else (ps, seen))"

definition process_for_params :: "find_ty_params \<Rightarrow> ident list" where
  "process_for_params self =
     fst (fold (\<lambda>param acc.
         add_param param (associated_type_params_usage self param \<noteq> None)
           (add_param param (param \<in> relevant_type_params self) acc))
       (all_type_params_ordered self) ([], {}))"

definition at_least_one_hit :: "find_ty_params \<Rightarrow> bool" where
  "at_least_one_hit self \<longleftrightarrow> relevant_type_params self \<noteq> {} \<or> associated_type_params_usage self \<noteq> Map.empty"

definition type_contains_some_param :: "ty \<Rightarrow> ident list \<Rightarrow> bool" where
  "type_contains_some_param t ps \<longleftrightarrow> at_least_one_hit (visit_type_top_level t (from_params ps))"

subsection \<open>Where a parameter occurs\<close>

text \<open>
  The specification of the visitor: \<open>p\<close> occurs in a type as a path of its own, outside
  macros and outside the arguments of \<open>PhantomData\<close>, whose implementations do not need a
  bound.
\<close>

inductive occurs_type :: "ident \<Rightarrow> ty \<Rightarrow> bool"
  and occurs_path :: "ident \<Rightarrow> path \<Rightarrow> bool"
  and occurs_segment :: "ident \<Rightarrow> segment \<Rightarrow> bool"
  and occurs_arguments :: "ident \<Rightarrow> path_arguments \<Rightarrow> bool"
  and occurs_argument :: "ident \<Rightarrow> generic_argument \<Rightarrow> bool"
  and occurs_bound :: "ident \<Rightarrow> bound \<Rightarrow> bool"
  for p :: ident where
  array: "occurs_type p t \<Longrightarrow> occurs_type p (TypeArray t)"
| fn_input: "t \<in> set inputs \<Longrightarrow> occurs_type p t \<Longrightarrow> occurs_type p (TypeBareFn inputs out)"
| fn_output: "occurs_type p t \<Longrightarrow> occurs_type p (TypeBareFn inputs (Some t))"
| group: "occurs_type p t \<Longrightarrow> occurs_type p (TypeGroup t)"
| impl_trait: "b \<in> set bs \<Longrightarrow> occurs_bound p b \<Longrightarrow> occurs_type p (TypeImplTrait bs)"
| paren: "occurs_type p t \<Longrightarrow> occurs_type p (TypeParen t)"
| qself: "occurs_type p t \<Longrightarrow> occurs_type p (TypePath (Some t) q)"
| path: "occurs_path p q \<Longrightarrow> occurs_type p (TypePath s q)"
| ptr: "occurs_type p t \<Longrightarrow> occurs_type p (TypePtr t)"
| reference: "occurs_type p t \<Longrightarrow> occurs_type p (TypeReference t)"
| slice: "occurs_type p t \<Longrightarrow> occurs_type p (TypeSlice t)"
| trait_object: "b \<in> set bs \<Longrightarrow> occurs_bound p b \<Longrightarrow> occurs_type p (TypeTraitObject bs)"
| tuple: "t \<in> set ts \<Longrightarrow> occurs_type p t \<Longrightarrow> occurs_type p (TypeTuple ts)"
| itself: "p \<noteq> ''PhantomData'' \<Longrightarrow> occurs_path p (Path False [Segment p a])"
| segment: "segs \<noteq> [] \<Longrightarrow> segment_ident (last segs) \<noteq> ''PhantomData'' \<Longrightarrow> s \<in> set segs \<Longrightarrow> occurs_segment p s \<Longrightarrow>
     occurs_path p (Path l segs)"
| arguments: "occurs_arguments p a \<Longrightarrow> occurs_segment p (Segment i a)"
| angle: "g \<in> set gs \<Longrightarrow> occurs_argument p g \<Longrightarrow> occurs_arguments p (AngleBracketed gs)"
| paren_input: "t \<in> set inputs \<Longrightarrow> occurs_type p t \<Longrightarrow> occurs_arguments p (Parenthesized inputs out)"
| paren_output: "occurs_type p t \<Longrightarrow> occurs_arguments p (Parenthesized inputs (Some t))"
| arg_type: "occurs_type p t \<Longrightarrow> occurs_argument p (ArgType t)"
| arg_assoc: "occurs_type p t \<Longrightarrow> occurs_argument p (ArgAssocType i t)"
| bound_trait: "occurs_path p q \<Longrightarrow> occurs_bound p (BoundTrait q)"

inductive_simps occurs_type_simps [simp]:
  "occurs_type p (TypeArray t)" "occurs_type p (TypeBareFn inputs out)" "occurs_type p (TypeGroup t)"
  "occurs_type p (TypeImplTrait bs)" "occurs_type p (TypeMacro m)" "occurs_type p (TypeParen t)"
  "occurs_type p (TypePath s q)" "occurs_type p (TypePtr t)" "occurs_type p (TypeReference t)"
  "occurs_type p (TypeSlice t)" "occurs_type p (TypeTraitObject bs)" "occurs_type p (TypeTuple ts)"
  "occurs_type p (TypeOther x)"

inductive_simps occurs_other_simps [simp]:
  "occurs_segment p (Segment i a)" "occurs_arguments p NoArguments" "occurs_arguments p (AngleBracketed gs)"
  "occurs_arguments p (Parenthesized inputs out)" "occurs_argument p (ArgType t)" "occurs_argument p (ArgAssocType i t)"
  "occurs_argument p (ArgOther x)" "occurs_bound p (BoundTrait q)" "occurs_bound p (BoundOther x)"

inductive_simps occurs_path_simps: "occurs_path p (Path l segs)"

lemma fold_collect:
  assumes "\<And>x S. x \<in> set xs \<Longrightarrow> f x S = S \<union> A x"
  shows "fold f xs S = S \<union> (\<Union>x\<in>set xs. A x)"
  using assms
proof (induction xs arbitrary: S)
  case (Cons x xs)
  then have "fold f (x # xs) S = (S \<union> A x) \<union> (\<Union>x\<in>set xs. A x)" by simp
  then show ?case by auto
qed simp

definition found :: "ident list \<Rightarrow> (ident \<Rightarrow> 'a \<Rightarrow> bool) \<Rightarrow> 'a \<Rightarrow> ident set" where
  "found ps occurs x = {p \<in> set ps. occurs p x}"

lemma path_found:
  assumes "\<And>s S. s \<in> set segs \<Longrightarrow> segment_ident (last segs) \<noteq> ''PhantomData'' \<Longrightarrow>
      visit_path_segment ps s S = S \<union> found ps occurs_segment s"
  shows "visit_path ps (Path l segs) S = S \<union> found ps occurs_path (Path l segs)"
proof (cases "segs \<noteq> [] \<and> segment_ident (last segs) = ''PhantomData''")
  case True
  then have "found ps occurs_path (Path l segs) = {}"
    by (auto simp: found_def occurs_path_simps)
  with True show ?thesis by simp
next
  case False
  let ?T = "if \<not> l \<and> length segs = 1 \<and> segment_ident (hd segs) \<in> set ps
         then insert (segment_ident (hd segs)) S else S"
  have "visit_path ps (Path l segs) S = fold (visit_path_segment ps) segs ?T"
    using False by auto
  also have "\<dots> = ?T \<union> (\<Union>s\<in>set segs. found ps occurs_segment s)"
    by (rule fold_collect) (rule assms, use False in auto)
  also have "\<dots> = S \<union> found ps occurs_path (Path l segs)"
  proof (cases "\<not> l \<and> length segs = 1")
    case True
    then obtain i a where segs: "segs = [Segment i a]"
      by (metis One_nat_def length_0_conv length_Suc_conv segment_ident.cases)
    with False True show ?thesis by (auto simp: found_def occurs_path_simps)
  next
    case other: False
    then have "found ps occurs_path (Path l segs) = (\<Union>s\<in>set segs. found ps occurs_segment s)"
      using False by (auto simp: found_def occurs_path_simps)
    with other show ?thesis by auto
  qed
  finally show ?thesis .
qed

lemma visit_found:
  "visit_type ps t S = S \<union> found ps occurs_type t"
  "visit_return_type ps out S = S \<union> (\<Union>t\<in>set_option out. found ps occurs_type t)"
  "visit_path ps q S = S \<union> found ps occurs_path q"
  "visit_path_segment ps s S = S \<union> found ps occurs_segment s"
  "visit_path_arguments ps a S = S \<union> found ps occurs_arguments a"
  "visit_generic_argument ps g S = S \<union> found ps occurs_argument g"
  "visit_type_param_bound ps b S = S \<union> found ps occurs_bound b"
proof (induction ps t S and ps out S and ps q S and ps s S and ps a S and ps g S and ps b S
    rule: visit_type_visit_return_type_visit_path_visit_path_segment_visit_path_arguments_visit_generic_argument_visit_type_param_bound.induct)
  case (16 ps l segs S)
  show ?case by (rule path_found) (rule 16, auto)
qed (auto simp: found_def fold_collect split: option.splits)

lemma visit_field_found:
  "relevant_type_params (visit_field f self) =
     relevant_type_params self \<union> {p \<in> set (all_type_params_ordered self). occurs_type p (fld_ty f)}"
  "all_type_params_ordered (visit_field f self) = all_type_params_ordered self"
  by (auto simp: visit_field_def visit_type_top_level_def Let_def visit_found found_def
      param_associated_type_insert_def split: option.splits)

subsection \<open>The results are without duplicates\<close>

definition predicates_ok :: "(ty \<Rightarrow> string) \<Rightarrow> ty list \<times> string set \<Rightarrow> bool" where
  "predicates_ok tokens acc \<longleftrightarrow> snd acc = tokens ` set (fst acc) \<and> distinct (List.map tokens (fst acc))"

lemma add_predicate_ok:
  assumes "predicates_ok tokens acc"
  shows "predicates_ok tokens (add_predicate tokens t acc)"
    and "tokens ` set (fst (add_predicate tokens t acc)) = insert (tokens t) (tokens ` set (fst acc))"
  using assms by (cases acc; auto simp: predicates_ok_def add_predicate_def)+

lemma add_predicates_ok:
  assumes "predicates_ok tokens acc"
  shows "predicates_ok tokens (fold (add_predicate tokens) ts acc) \<and>
    tokens ` set (fst (fold (add_predicate tokens) ts acc)) = tokens ` set ts \<union> tokens ` set (fst acc)"
  using assms by (induction ts arbitrary: acc) (auto simp: add_predicate_ok)

text \<open>The types for which one parameter is responsible.\<close>

definition types_of_param :: "find_ty_params \<Rightarrow> ident \<Rightarrow> ty set" where
  "types_of_param self param =
     {t. param \<in> relevant_type_params self \<and> t = ident_type param} \<union>
     (case associated_type_params_usage self param of Some ts \<Rightarrow> set ts | None \<Rightarrow> {})"

lemma process_for_bounds_spec:
  "distinct (List.map tokens (process_for_bounds tokens self)) \<and>
   tokens ` set (process_for_bounds tokens self) =
     tokens ` (\<Union>param\<in>set (all_type_params_ordered self). types_of_param self param)"
proof -
  let ?step = "\<lambda>param acc.
         let acc' = (if param \<in> relevant_type_params self then add_predicate tokens (ident_type param) acc else acc)
         in case associated_type_params_usage self param of
                Some vec_type \<Rightarrow> fold (add_predicate tokens) vec_type acc'
              | None \<Rightarrow> acc'"
  have step: "predicates_ok tokens (?step param acc) \<and>
      tokens ` set (fst (?step param acc)) = tokens ` types_of_param self param \<union> tokens ` set (fst acc)"
    if "predicates_ok tokens acc" for param acc
  proof -
    let ?acc' = "if param \<in> relevant_type_params self then add_predicate tokens (ident_type param) acc else acc"
    have ok: "predicates_ok tokens ?acc'"
      and set: "tokens ` set (fst ?acc') =
        tokens ` {t. param \<in> relevant_type_params self \<and> t = ident_type param} \<union> tokens ` set (fst acc)"
      using that by (auto simp: add_predicate_ok)
    from add_predicates_ok [OF ok] ok set show ?thesis
      by (cases "associated_type_params_usage self param")
        (simp_all add: Let_def types_of_param_def image_Un Un_ac del: image_Collect_subsetI)
  qed
  have "predicates_ok tokens acc \<Longrightarrow> predicates_ok tokens (fold ?step ps acc) \<and>
      tokens ` set (fst (fold ?step ps acc)) = tokens ` (\<Union>param\<in>set ps. types_of_param self param) \<union> tokens ` set (fst acc)"
    for ps acc
  proof (induction ps arbitrary: acc)
    case (Cons param ps)
    from step [OF Cons.prems, of param] Cons.IH [of "?step param acc"] show ?case
      by (simp add: image_Un Un_ac)
  qed simp
  from this [of "([], {})" "all_type_params_ordered self"] show ?thesis
    unfolding process_for_bounds_def by (simp add: predicates_ok_def)
qed

lemma add_param_ok:
  "snd acc = set (fst acc) \<Longrightarrow> distinct (fst acc) \<Longrightarrow>
   snd (add_param p b acc) = set (fst (add_param p b acc)) \<and> distinct (fst (add_param p b acc)) \<and>
   set (fst (add_param p b acc)) = (if b then insert p (set (fst acc)) else set (fst acc))"
  by (cases acc) (auto simp: add_param_def)

lemma process_for_params_spec:
  "distinct (process_for_params self) \<and>
   set (process_for_params self) = {p \<in> set (all_type_params_ordered self). types_of_param self p \<noteq> {} \<or>
     associated_type_params_usage self p \<noteq> None}"
proof -
  let ?step = "\<lambda>param acc.
         add_param param (associated_type_params_usage self param \<noteq> None)
           (add_param param (param \<in> relevant_type_params self) acc)"
  have "snd acc = set (fst acc) \<Longrightarrow> distinct (fst acc) \<Longrightarrow>
      snd (fold ?step ps acc) = set (fst (fold ?step ps acc)) \<and> distinct (fst (fold ?step ps acc)) \<and>
      set (fst (fold ?step ps acc)) = set (fst acc) \<union>
        {p \<in> set ps. p \<in> relevant_type_params self \<or> associated_type_params_usage self p \<noteq> None}" for ps acc
  proof (induction ps arbitrary: acc)
    case (Cons p ps)
    have one: "snd (?step p acc) = set (fst (?step p acc)) \<and> distinct (fst (?step p acc)) \<and>
        set (fst (?step p acc)) = set (fst acc) \<union>
          {q. q = p \<and> (p \<in> relevant_type_params self \<or> associated_type_params_usage self p \<noteq> None)}"
      using Cons.prems by (auto simp: add_param_ok)
    with Cons.IH [of "?step p acc"] show ?case by auto
  qed simp
  from this [of "([], {})" "all_type_params_ordered self"] show ?thesis
    unfolding process_for_params_def by (auto simp: types_of_param_def split: option.splits)
qed

end
