(* ===== verification/Derive_Discriminant.thy ===== *)
theory Derive_Discriminant
  imports Derive_Attributes "HOL-Library.Signed_Division"
begin

section \<open>Discriminants of enums\<close>

text \<open>
  Models \<open>borsh-derive/src/internals/enum_discriminant.rs\<close>. The macro works on tokens: the
  discriminant of a variant without an explicit one is the token list of its predecessor
  followed by \<open>+ 1\<close>. What the compiler makes of a token list is \<open>parse_tokens\<close>: Rust's
  precedences, all binary operators associating to the left.
\<close>

unbundle bit_operations_syntax

subsection \<open>The macro\<close>

fun discriminants_loop :: "variant list \<Rightarrow> token list \<Rightarrow> (ident \<rightharpoonup> token list) \<Rightarrow> (ident \<rightharpoonup> token list)" where
  "discriminants_loop [] next_if_not_specified m = m"
| "discriminants_loop (v # vs) next_if_not_specified m =
     (let this_discriminant = (case var_discriminant v of None \<Rightarrow> next_if_not_specified | Some e \<Rightarrow> e)
      in discriminants_loop vs (this_discriminant @ [TOp Add, TNum 1]) (m(var_ident v \<mapsto> this_discriminant)))"

definition discriminants_new :: "variant list \<Rightarrow> (ident \<rightharpoonup> token list)" where
  "discriminants_new variants = discriminants_loop variants [TNum 0] Map.empty"

definition discriminants_get ::
  "(ident \<rightharpoonup> token list) \<Rightarrow> ident \<Rightarrow> bool \<Rightarrow> nat \<Rightarrow> (derive_error, token list) outcome" where
  "discriminants_get self variant_ident use_discriminant variant_idx =
     (if 256 \<le> variant_idx
      then Err (''up to 256 enum variants are supported: '' @ ''out of range integral type conversion attempted'')
      else if use_discriminant
      then (case self variant_ident of Some discriminant_value \<Rightarrow> Ok discriminant_value | None \<Rightarrow> Panic)
      else Ok [TNum (int variant_idx)])"

subsection \<open>The compiler\<close>

datatype dexpr = Num int | Neg dexpr | Bin binop dexpr dexpr | Group dexpr

fun prec :: "binop \<Rightarrow> nat" where
  "prec Mul = 10" | "prec Div = 10" | "prec Rem = 10"
| "prec Add = 9" | "prec Sub = 9"
| "prec Shl = 8" | "prec Shr = 8"
| "prec BitAnd = 7" | "prec BitXor = 6" | "prec BitOr = 5"

fun eval_op :: "binop \<Rightarrow> int \<Rightarrow> int \<Rightarrow> int" where
  "eval_op Mul a b = a * b"
| "eval_op Div a b = a sdiv b"
| "eval_op Rem a b = a smod b"
| "eval_op Add a b = a + b"
| "eval_op Sub a b = a - b"
| "eval_op Shl a b = push_bit (nat b) a"
| "eval_op Shr a b = drop_bit (nat b) a"
| "eval_op BitAnd a b = (a AND b)"
| "eval_op BitXor a b = (a XOR b)"
| "eval_op BitOr a b = (a OR b)"

fun eval_expr :: "dexpr \<Rightarrow> int" where
  "eval_expr (Num n) = n"
| "eval_expr (Neg e) = - eval_expr e"
| "eval_expr (Bin op a b) = eval_op op (eval_expr a) (eval_expr b)"
| "eval_expr (Group e) = eval_expr e"

text \<open>
  The parser reads the tokens from left to right. It keeps, for the innermost open
  parenthesis, the operators that wait for their right operand, the last one first, and
  the operand that it has just read.
\<close>

datatype pending = PNeg | PBin dexpr binop

fun reduce :: "nat \<Rightarrow> pending list \<Rightarrow> dexpr \<Rightarrow> pending list \<times> dexpr" where
  "reduce p [] e = ([], e)"
| "reduce p (PNeg # ps) e = reduce p ps (Neg e)"
| "reduce p (PBin l op # ps) e = (if p \<le> prec op then reduce p ps (Bin op l e) else (PBin l op # ps, e))"

definition collapse :: "pending list \<Rightarrow> dexpr \<Rightarrow> dexpr" where
  "collapse ps e = snd (reduce 0 ps e)"

type_synonym parser_state = "pending list list \<times> pending list \<times> dexpr option"

fun feed :: "token \<Rightarrow> parser_state \<Rightarrow> parser_state option" where
  "feed (TNum n) (frames, ps, None) = Some (frames, ps, Some (Num n))"
| "feed (TOp op) (frames, ps, Some e) =
     (let (ps', e') = reduce (prec op) ps e in Some (frames, PBin e' op # ps', None))"
| "feed (TOp Sub) (frames, ps, None) = Some (frames, PNeg # ps, None)"
| "feed TOpen (frames, ps, None) = Some (ps # frames, [], None)"
| "feed TClose (ps' # frames, ps, Some e) = Some (frames, ps', Some (Group (collapse ps e)))"
| "feed _ _ = None"

fun feed_all :: "token list \<Rightarrow> parser_state \<Rightarrow> parser_state option" where
  "feed_all [] st = Some st"
| "feed_all (t # ts) st = (case feed t st of None \<Rightarrow> None | Some st' \<Rightarrow> feed_all ts st')"

definition parse_tokens :: "token list \<Rightarrow> dexpr option" where
  "parse_tokens ts =
     (case feed_all ts ([], [], None) of
         Some ([], ps, Some e) \<Rightarrow> Some (collapse ps e)
       | _ \<Rightarrow> None)"

definition token_value :: "token list \<Rightarrow> int option" where
  "token_value ts = map_option eval_expr (parse_tokens ts)"

text \<open>
  A discriminant as a \<open>u8\<close>; one that does not fit is refused. Only the final value is limited:
  code whose intermediate results overflow \<open>u8\<close>, or that divides by zero, the compiler
  refuses as well.
\<close>

definition tag_of :: "token list \<Rightarrow> u8 option" where
  "tag_of ts = (case token_value ts of
       Some n \<Rightarrow> if 0 \<le> n \<and> n < 256 then Some (word_of_int n) else None
     | None \<Rightarrow> None)"

text \<open>
  The discriminants that the compiler assigns: that of the expression, or one more than
  the one before.
\<close>

fun compiler_loop :: "variant list \<Rightarrow> int \<Rightarrow> (ident \<rightharpoonup> int) \<Rightarrow> (ident \<rightharpoonup> int) option" where
  "compiler_loop [] nxt m = Some m"
| "compiler_loop (v # vs) nxt m =
     (case (case var_discriminant v of None \<Rightarrow> Some nxt | Some e \<Rightarrow> token_value e) of
         None \<Rightarrow> None
       | Some n \<Rightarrow> compiler_loop vs (n + 1) (m(var_ident v \<mapsto> n)))"

definition compiler_discriminants :: "variant list \<Rightarrow> (ident \<rightharpoonup> int) option" where
  "compiler_discriminants variants = compiler_loop variants 0 Map.empty"

subsection \<open>Appending \<open>+ 1\<close>\<close>

text \<open>An expression whose outermost operator binds at least as tightly as \<open>+\<close>.\<close>

fun additive :: "dexpr \<Rightarrow> bool" where
  "additive (Bin op a b) \<longleftrightarrow> prec Add \<le> prec op"
| "additive _ \<longleftrightarrow> True"

text \<open>The waiting operators: first the signs, then binary operators in descending precedence.\<close>

fun binaries :: "pending list \<Rightarrow> nat list" where
  "binaries [] = []"
| "binaries (PNeg # ps) = binaries ps"
| "binaries (PBin l op # ps) = prec op # binaries ps"

fun stacked :: "pending list \<Rightarrow> bool" where
  "stacked (PNeg # ps) = stacked ps"
| "stacked ps = (PNeg \<notin> set ps \<and> sorted_wrt (>) (binaries ps))"

lemma stacked_no_sign: "stacked ps \<Longrightarrow> PNeg \<notin> set (fst (reduce p ps e)) \<and> sorted_wrt (>) (binaries (fst (reduce p ps e)))"
proof (induction p ps e rule: reduce.induct)
  case (3 p l op ps e)
  have "stacked ps" using 3(2) by (cases ps rule: stacked.cases) auto
  with 3 show ?case by auto
qed simp_all

lemma reduce_top: "fst (reduce p ps e) = PBin l op # qs \<Longrightarrow> prec op < p"
  by (induction p ps e rule: reduce.induct) (auto split: if_splits)

lemma stacked_push:
  assumes "stacked ps"
  shows "stacked (PBin e' op # fst (reduce (prec op) ps e))"
proof -
  let ?qs = "fst (reduce (prec op) ps e)"
  from stacked_no_sign [OF assms] have qs: "PNeg \<notin> set ?qs" "sorted_wrt (>) (binaries ?qs)" by blast+
  have "\<forall>k\<in>set (binaries ?qs). k < prec op"
  proof (cases ?qs)
    case (Cons q rest)
    with qs(1) obtain l op' where q: "q = PBin l op'" by (cases q) auto
    with reduce_top Cons have "prec op' < prec op" by blast
    with qs(2) Cons q show ?thesis by auto
  qed simp
  with qs show ?thesis by simp
qed

definition stacked_state :: "parser_state \<Rightarrow> bool" where
  "stacked_state st \<longleftrightarrow> (case st of (frames, ps, cur) \<Rightarrow> stacked ps \<and> (\<forall>f\<in>set frames. stacked f))"

lemma feed_stacked: "feed t st = Some st' \<Longrightarrow> stacked_state st \<Longrightarrow> stacked_state st'"
proof (induction t st rule: feed.induct)
  case (2 op frames ps e)
  then show ?case using stacked_push [of ps "snd (reduce (prec op) ps e)" op e]
    by (auto simp: stacked_state_def split: prod.splits)
qed (auto simp: stacked_state_def)

lemma feed_all_stacked: "feed_all ts st = Some st' \<Longrightarrow> stacked_state st \<Longrightarrow> stacked_state st'"
  by (induction ts arbitrary: st) (auto dest: feed_stacked split: option.splits)

lemma feed_all_append: "feed_all (ts @ us) st = Option.bind (feed_all ts st) (feed_all us)"
  by (induction ts arbitrary: st) (auto split: option.splits)

lemma reduce_all: "\<forall>k\<in>set (binaries ps). p \<le> k \<Longrightarrow> reduce p ps e = ([], collapse ps e)"
  unfolding collapse_def by (induction p ps e rule: reduce.induct) simp_all

lemma collapse_root:
  assumes "PNeg \<notin> set ps" and "ps \<noteq> []"
  shows "\<exists>l r op. collapse ps e = Bin op l r \<and> prec op = last (binaries ps)"
  using assms unfolding collapse_def
proof (induction ps arbitrary: e)
  case (Cons q ps)
  then obtain l op where q: "q = PBin l op" by (cases q) auto
  show ?case
  proof (cases "ps = []")
    case True
    with q show ?thesis by simp
  next
    case False
    with Cons q have "binaries ps \<noteq> []" by (cases ps; cases "hd ps") auto
    with Cons False q show ?thesis by simp
  qed
qed simp

lemma last_least: "sorted_wrt (>) (ks :: nat list) \<Longrightarrow> k \<in> set ks \<Longrightarrow> last ks \<le> k"
  by (induction ks) (auto simp: less_imp_le)

lemma stacked_additive:
  "stacked ps \<Longrightarrow> additive (collapse ps e) \<Longrightarrow> \<forall>k\<in>set (binaries ps). prec Add \<le> k"
proof (induction ps arbitrary: e)
  case (Cons q ps)
  let ?ps = "q # ps"
  show ?case
  proof (cases q)
    case PNeg
    with Cons show ?thesis by (simp add: collapse_def)
  next
    case (PBin l op)
    with Cons.prems(1) have s: "PNeg \<notin> set ?ps" "sorted_wrt (>) (binaries ?ps)" by simp_all
    from collapse_root [OF s(1), of e] Cons.prems(2) have "prec Add \<le> last (binaries ?ps)" by auto
    moreover have "last (binaries ?ps) \<le> k" if "k \<in> set (binaries ?ps)" for k
      by (rule last_least [OF s(2) that])
    ultimately show ?thesis by force
  qed
qed simp

lemma parse_plus_one:
  assumes "parse_tokens ts = Some e" and "additive e"
  shows "parse_tokens (ts @ [TOp Add, TNum 1]) = Some (Bin Add e (Num 1))"
proof -
  from assms(1) obtain ps x where f: "feed_all ts ([], [], None) = Some ([], ps, Some x)" and e: "e = collapse ps x"
    by (auto simp: parse_tokens_def split: option.splits prod.splits list.splits)
  have "stacked_state ([], ps, Some x)"
    by (rule feed_all_stacked [OF f]) (simp add: stacked_state_def)
  then have "stacked ps" by (simp add: stacked_state_def)
  from reduce_all [OF stacked_additive [OF this assms(2) [unfolded e]]]
  have "reduce (prec Add) ps x = ([], e)" by (simp add: e)
  with f show ?thesis
    by (simp add: parse_tokens_def feed_all_append collapse_def)
qed

lemma loop_agrees:
  assumes "token_value next_ts = Some nxt" and "\<exists>e. parse_tokens next_ts = Some e \<and> additive e"
    and "\<forall>v\<in>set vs. \<forall>ts. var_discriminant v = Some ts \<longrightarrow> (\<exists>e. parse_tokens ts = Some e \<and> additive e)"
    and "\<And>i ts. m i = Some ts \<Longrightarrow> \<exists>n. M i = Some n \<and> token_value ts = Some n" and "dom M = dom m"
  shows "\<exists>M'. compiler_loop vs nxt M = Some M' \<and> dom M' = dom (discriminants_loop vs next_ts m) \<and>
    (\<forall>i ts. discriminants_loop vs next_ts m i = Some ts \<longrightarrow> token_value ts = M' i)"
  using assms
proof (induction vs arbitrary: next_ts nxt m M)
  case Nil
  then show ?case by fastforce
next
  case (Cons v vs)
  define this where "this = (case var_discriminant v of None \<Rightarrow> next_ts | Some e \<Rightarrow> e)"
  have "\<exists>e. parse_tokens this = Some e \<and> additive e"
    using Cons.prems(2,3) by (auto simp: this_def split: option.split)
  then obtain e where e: "parse_tokens this = Some e" "additive e" by blast
  have val: "(case var_discriminant v of None \<Rightarrow> Some nxt | Some e \<Rightarrow> token_value e) = Some (eval_expr e)"
    using Cons.prems(1) e(1) by (auto simp: this_def token_value_def split: option.split)
  from parse_plus_one [OF e] have plus: "parse_tokens (this @ [TOp Add, TNum 1]) = Some (Bin Add e (Num 1))" .
  have "\<exists>M'. compiler_loop vs (eval_expr e + 1) (M(var_ident v \<mapsto> eval_expr e)) = Some M' \<and>
      dom M' = dom (discriminants_loop vs (this @ [TOp Add, TNum 1]) (m(var_ident v \<mapsto> this))) \<and>
      (\<forall>i ts. discriminants_loop vs (this @ [TOp Add, TNum 1]) (m(var_ident v \<mapsto> this)) i = Some ts \<longrightarrow>
        token_value ts = M' i)"
  proof (rule Cons.IH)
    show "token_value (this @ [TOp Add, TNum 1]) = Some (eval_expr e + 1)" by (simp add: token_value_def plus)
    show "\<exists>e. parse_tokens (this @ [TOp Add, TNum 1]) = Some e \<and> additive e" by (simp add: plus)
    show "\<exists>n. (M(var_ident v \<mapsto> eval_expr e)) i = Some n \<and> token_value ts = Some n"
      if "(m(var_ident v \<mapsto> this)) i = Some ts" for i ts
      using that Cons.prems(4) e(1) by (auto simp: token_value_def split: if_splits)
    show "dom (M(var_ident v \<mapsto> eval_expr e)) = dom (m(var_ident v \<mapsto> this))" using Cons.prems(5) by simp
  qed (use Cons.prems(3) in auto)
  then show ?case by (simp add: val this_def Let_def)
qed

lemma discriminants_agree_impl:
  assumes "\<forall>v\<in>set vs. \<forall>ts. var_discriminant v = Some ts \<longrightarrow> (\<exists>e. parse_tokens ts = Some e \<and> additive e)"
  shows "\<exists>M. compiler_discriminants vs = Some M \<and> dom M = dom (discriminants_new vs) \<and>
    (\<forall>i ts. discriminants_new vs i = Some ts \<longrightarrow> token_value ts = M i)"
  unfolding compiler_discriminants_def discriminants_new_def
  by (rule loop_agrees [OF _ _ assms]) (simp_all add: token_value_def parse_tokens_def collapse_def)

end
