(* ===== verification/Derive_Generate.thy ===== *)
theory Derive_Generate
  imports Derive_Generics Derive_Discriminant
begin

section \<open>The code that the derive macros generate\<close>

text \<open>
  Models \<open>borsh-derive/src/internals/serialize\<close> and \<open>internals/deserialize\<close>: the functions
  \<open>process\<close> and \<open>process_field\<close> for structs and enums. The generated token streams are
  data: a body is the list of its calls or of the expressions of its fields, a \<open>match\<close> the
  list of its arms, a \<open>where\<close> clause the list of its predicates. The code that only
  depends on the shape of the item (the names of the generics, the fixed text of the
  methods) is not part of the data. \<open>P\<close> are the parsers of \<open>syn\<close> for string literals,
  \<open>tokens\<close> gives the tokens of a type, \<open>cratename\<close> is the path of the crate.
\<close>

subsection \<open>Serialization\<close>

datatype field_id =
    IdStruct ident
  | IdStructUnnamed nat
  | IdEnum ident
  | IdEnumUnnamed nat

definition field_index :: "nat \<Rightarrow> (derive_error, nat) outcome" where
  "field_index field_idx =
     (if field_idx < 2 ^ 32 then Ok field_idx
      else Err (''up to 2^32 fields are supported '' @ ''out of range integral type conversion attempted''))"

definition new_struct_unnamed :: "nat \<Rightarrow> (derive_error, field_id) outcome" where
  "new_struct_unnamed field_idx = map_outcome IdStructUnnamed (field_index field_idx)"

definition new_enum_unnamed :: "nat \<Rightarrow> (derive_error, field_id) outcome" where
  "new_enum_unnamed field_idx = map_outcome IdEnumUnnamed (field_index field_idx)"

text \<open>\<open>&self.name\<close>, \<open>&self.0\<close>, or a variable bound by the pattern of a variant.\<close>

datatype ser_arg = SelfField ident | SelfIndex nat | LocalVar ident

fun serialize_arg :: "field_id \<Rightarrow> ser_arg" where
  "serialize_arg (IdStruct name) = SelfField name"
| "serialize_arg (IdStructUnnamed index) = SelfIndex index"
| "serialize_arg (IdEnum name) = LocalVar name"
| "serialize_arg (IdEnumUnnamed ind) = LocalVar (''id'' @ show_nat ind)"

text \<open>\<open>BorshSerialize::serialize(arg, writer)?;\<close> or \<open>func(arg, writer)?;\<close>\<close>

datatype ser_call = SerTrait ser_arg | SerWith string ser_arg

definition serialize_output :: "field_id \<Rightarrow> string option \<Rightarrow> ser_call" where
  "serialize_output self serialize_with =
     (let arg = serialize_arg self
      in case serialize_with of Some func \<Rightarrow> SerWith func arg | None \<Rightarrow> SerTrait arg)"

fun enum_variant_header :: "field_id \<Rightarrow> bool \<Rightarrow> (derive_error, ident option) outcome" where
  "enum_variant_header (IdStruct _) skipped = Panic"
| "enum_variant_header (IdStructUnnamed _) skipped = Panic"
| "enum_variant_header (IdEnum name) skipped = Ok (if \<not> skipped then Some name else None)"
| "enum_variant_header (IdEnumUnnamed index) skipped =
     Ok (Some (if skipped then ''_id'' @ show_nat index else ''id'' @ show_nat index))"

record ser_generics =
  ser_overrides :: "where_predicate list"
  serialize_visitor :: find_ty_params

definition ser_generics_new :: "generics \<Rightarrow> ser_generics" where
  "ser_generics_new g = \<lparr>ser_overrides = [], serialize_visitor = find_new g\<rparr>"

definition ser_generics_extend ::
  "(ty \<Rightarrow> string) \<Rightarrow> string \<Rightarrow> ser_generics \<Rightarrow> where_predicate list \<Rightarrow> where_predicate list" where
  "ser_generics_extend tokens cratename self where_clause =
     (let trait_path = cratename @ ''::ser::BorshSerialize'';
          predicates = compute_predicates (process_for_bounds tokens (serialize_visitor self)) trait_path
      in where_clause @ predicates @ ser_overrides self)"

text \<open>What both versions of \<open>process_field\<close> do with the bounds of a field.\<close>

definition ser_field_bounds :: "syn_field \<Rightarrow> attributes \<Rightarrow> ser_generics \<Rightarrow> ser_generics" where
  "ser_field_bounds field parsed g =
     (let g' = g\<lparr>ser_overrides := ser_overrides g @ collect_bounds parsed BoundSerialize\<rparr>
      in if \<not> at_skip parsed \<and> needs_bounds_derive parsed BoundSerialize
         then g'\<lparr>serialize_visitor := visit_field field (serialize_visitor g')\<rparr> else g')"

definition ser_process_field ::
  "literal_parsers \<Rightarrow> syn_field \<Rightarrow> field_id \<Rightarrow> ser_generics \<times> ser_call list \<Rightarrow>
   (derive_error, ser_generics \<times> ser_call list) outcome" where
  "ser_process_field P field field_id = (\<lambda>(generics, body).
     and_ok (parse_attributes P (fld_attrs field)) (\<lambda>parsed.
       Ok (ser_field_bounds field parsed generics,
           if \<not> at_skip parsed then body @ [serialize_output field_id (at_serialize_with parsed)] else body)))"

record ser_struct_code =
  ss_where :: "where_predicate list"
  ss_body :: "ser_call list"

definition unwrap_ident :: "syn_field \<Rightarrow> (derive_error, ident) outcome" where
  "unwrap_ident field = (case fld_ident field of Some name \<Rightarrow> Ok name | None \<Rightarrow> Panic)"

definition ser_struct_fields ::
  "literal_parsers \<Rightarrow> syn_fields \<Rightarrow> ser_generics \<Rightarrow> (derive_error, ser_generics \<times> ser_call list) outcome" where
  "ser_struct_fields P flds generics =
     (case flds of
         FieldsNamed named \<Rightarrow> fold_ok (\<lambda>field acc.
           and_ok (unwrap_ident field) (\<lambda>name. ser_process_field P field (IdStruct name) acc)) named (generics, [])
       | FieldsUnnamed unnamed \<Rightarrow> fold_ok (\<lambda>(field_idx, field) acc.
           and_ok (new_struct_unnamed field_idx) (\<lambda>field_id. ser_process_field P field field_id acc))
           (List.enumerate 0 unnamed) (generics, [])
       | FieldsUnit \<Rightarrow> Ok (generics, []))"

definition ser_struct_process ::
  "literal_parsers \<Rightarrow> (ty \<Rightarrow> string) \<Rightarrow> string \<Rightarrow> item_struct \<Rightarrow> (derive_error, ser_struct_code) outcome" where
  "ser_struct_process P tokens cratename input =
     (let generics = without_defaults (st_generics input);
          where_clause = default_where (gen_where generics)
      in and_ok (ser_struct_fields P (st_fields input) (ser_generics_new generics)) (\<lambda>(generics_output, body).
         Ok \<lparr>ss_where = ser_generics_extend tokens cratename generics_output where_clause, ss_body = body\<rparr>))"

text \<open>The pattern of a variant: \<open>{ a, b, .. }\<close>, \<open>( id0, _id1, )\<close>, or none.\<close>

datatype pattern = PatNamed "ident list" | PatUnnamed "ident list"

record variant_fields =
  vf_header :: "ident list"
  vf_body :: "ser_call list"

definition ser_enum_process_field ::
  "literal_parsers \<Rightarrow> syn_field \<Rightarrow> field_id \<Rightarrow> ser_generics \<times> variant_fields \<Rightarrow>
   (derive_error, ser_generics \<times> variant_fields) outcome" where
  "ser_enum_process_field P field field_id = (\<lambda>(generics, output).
     and_ok (parse_attributes P (fld_attrs field)) (\<lambda>parsed.
     and_ok (enum_variant_header field_id (at_skip parsed)) (\<lambda>field_variant_header.
       Ok (ser_field_bounds field parsed generics,
           \<lparr>vf_header = vf_header output @ (case field_variant_header of Some h \<Rightarrow> [h] | None \<Rightarrow> []),
            vf_body = (if \<not> at_skip parsed
              then vf_body output @ [serialize_output field_id (at_serialize_with parsed)] else vf_body output)\<rparr>))))"

datatype variant_body = BodyUnit | BodyFields pattern "ser_call list"

definition ser_process_variant ::
  "literal_parsers \<Rightarrow> variant \<Rightarrow> ser_generics \<Rightarrow> (derive_error, ser_generics \<times> variant_body) outcome" where
  "ser_process_variant P variant generics =
     (case var_fields variant of
         FieldsNamed named \<Rightarrow>
           and_ok (fold_ok (\<lambda>field acc.
               and_ok (unwrap_ident field) (\<lambda>name. ser_enum_process_field P field (IdEnum name) acc))
             named (generics, \<lparr>vf_header = [], vf_body = []\<rparr>))
           (\<lambda>(g, vf). Ok (g, BodyFields (PatNamed (vf_header vf)) (vf_body vf)))
       | FieldsUnnamed unnamed \<Rightarrow>
           and_ok (fold_ok (\<lambda>(field_idx, field) acc.
               and_ok (new_enum_unnamed field_idx) (\<lambda>field_id. ser_enum_process_field P field field_id acc))
             (List.enumerate 0 unnamed) (generics, \<lparr>vf_header = [], vf_body = []\<rparr>))
           (\<lambda>(g, vf). Ok (g, BodyFields (PatUnnamed (vf_header vf)) (vf_body vf)))
       | FieldsUnit \<Rightarrow> Ok (generics, BodyUnit))"

text \<open>
  The match that yields the tag has an arm for every variant. The second match has an arm
  for every variant with fields; it is left out when there is none, and ends with
  \<open>_ => {}\<close> when there is a variant without fields.
\<close>

record ser_match =
  sm_arms :: "(ident \<times> pattern \<times> ser_call list) list"
  sm_catch_all :: bool

definition optimize_fields_body :: "(ident \<times> pattern \<times> ser_call list) list \<Rightarrow> bool \<Rightarrow> ser_match option" where
  "optimize_fields_body fields_body has_unit_variant =
     (if fields_body = [] then None
      else Some \<lparr>sm_arms = fields_body, sm_catch_all = has_unit_variant\<rparr>)"

record ser_enum_code =
  se_where :: "where_predicate list"
  se_idx_arms :: "(ident \<times> token list) list"
  se_match :: "ser_match option"

record ser_enum_acc =
  sa_generics :: ser_generics
  sa_idx_arms :: "(ident \<times> token list) list"
  sa_fields_body :: "(ident \<times> pattern \<times> ser_call list) list"
  sa_has_unit :: bool

definition ser_enum_variant ::
  "literal_parsers \<Rightarrow> (ident \<rightharpoonup> token list) \<Rightarrow> bool \<Rightarrow> nat \<times> variant \<Rightarrow> ser_enum_acc \<Rightarrow> (derive_error, ser_enum_acc) outcome" where
  "ser_enum_variant P discriminants use_discriminant = (\<lambda>(variant_idx, variant) acc.
     and_ok (discriminants_get discriminants (var_ident variant) use_discriminant variant_idx) (\<lambda>discriminant_value.
     and_ok (ser_process_variant P variant (sa_generics acc)) (\<lambda>(g, body).
       let acc' = acc\<lparr>sa_generics := g,
             sa_idx_arms := sa_idx_arms acc @ [(var_ident variant, discriminant_value)]\<rparr>
       in Ok (case body of
                  BodyUnit \<Rightarrow> acc'\<lparr>sa_has_unit := True\<rparr>
                | BodyFields header calls \<Rightarrow>
                    acc'\<lparr>sa_fields_body := sa_fields_body acc' @ [(var_ident variant, header, calls)]\<rparr>))))"

definition ser_enum_process ::
  "literal_parsers \<Rightarrow> (ty \<Rightarrow> string) \<Rightarrow> string \<Rightarrow> item_enum \<Rightarrow> (derive_error, ser_enum_code) outcome" where
  "ser_enum_process P tokens cratename input =
     (let generics = without_defaults (en_generics input);
          where_clause = default_where (gen_where generics)
      in and_ok (contains_use_discriminant input) (\<lambda>use_discriminant.
         let discriminants = discriminants_new (en_variants input)
         in and_ok (fold_ok (ser_enum_variant P discriminants use_discriminant) (List.enumerate 0 (en_variants input))
              \<lparr>sa_generics = ser_generics_new generics, sa_idx_arms = [], sa_fields_body = [], sa_has_unit = False\<rparr>)
            (\<lambda>acc. Ok \<lparr>se_where = ser_generics_extend tokens cratename (sa_generics acc) where_clause,
               se_idx_arms = sa_idx_arms acc,
               se_match = optimize_fields_body (sa_fields_body acc) (sa_has_unit acc)\<rparr>)))"

subsection \<open>Deserialization\<close>

record de_generics =
  de_overrides :: "where_predicate list"
  default_visitor :: find_ty_params
  deserialize_visitor :: find_ty_params

definition de_generics_new :: "generics \<Rightarrow> de_generics" where
  "de_generics_new g = \<lparr>de_overrides = [], default_visitor = find_new g, deserialize_visitor = find_new g\<rparr>"

definition de_generics_extend ::
  "(ty \<Rightarrow> string) \<Rightarrow> string \<Rightarrow> de_generics \<Rightarrow> where_predicate list \<Rightarrow> where_predicate list" where
  "de_generics_extend tokens cratename self where_clause =
     (let de_trait = cratename @ ''::de::BorshDeserialize'';
          default_trait = ''core::default::Default'';
          de_predicates = compute_predicates (process_for_bounds tokens (deserialize_visitor self)) de_trait;
          default_predicates = compute_predicates (process_for_bounds tokens (default_visitor self)) default_trait
      in where_clause @ de_predicates @ default_predicates @ de_overrides self)"

text \<open>
  The expression of a field: \<open>path(reader)?\<close> with the method of the trait or the function of
  the attribute, or \<open>Default::default()\<close>. The entry of a named field has its name.
\<close>

datatype de_expr = DeTrait | DeWith string | DeDefault

type_synonym de_entry = "ident option \<times> de_expr"

definition field_output :: "ident option \<Rightarrow> string option \<Rightarrow> de_entry" where
  "field_output field_name deserialize_with =
     (field_name, case deserialize_with of Some path \<Rightarrow> DeWith path | None \<Rightarrow> DeTrait)"

definition field_default_output :: "ident option \<Rightarrow> de_entry" where
  "field_default_output field_name = (field_name, DeDefault)"

definition de_process_field ::
  "literal_parsers \<Rightarrow> syn_field \<Rightarrow> de_generics \<times> de_entry list \<Rightarrow> (derive_error, de_generics \<times> de_entry list) outcome" where
  "de_process_field P field = (\<lambda>(generics, body).
     and_ok (parse_attributes P (fld_attrs field)) (\<lambda>parsed.
       let g = generics\<lparr>de_overrides := de_overrides generics @ collect_bounds parsed BoundDeserialize\<rparr>;
           needs = needs_bounds_derive parsed BoundDeserialize;
           field_name = fld_ident field
       in if at_skip parsed
          then Ok (if needs then g\<lparr>default_visitor := visit_field field (default_visitor g)\<rparr> else g,
                   body @ [field_default_output field_name])
          else Ok (if needs then g\<lparr>deserialize_visitor := visit_field field (deserialize_visitor g)\<rparr> else g,
                   body @ [field_output field_name (at_deserialize_with parsed)])))"

record de_struct_code =
  ds_where :: "where_predicate list"
  ds_fields :: "de_entry list"
  ds_init :: "string option"

definition de_struct_process ::
  "literal_parsers \<Rightarrow> (string \<Rightarrow> (derive_error, string) outcome) \<Rightarrow> (ty \<Rightarrow> string) \<Rightarrow> string \<Rightarrow> item_struct \<Rightarrow>
   (derive_error, de_struct_code) outcome" where
  "de_struct_process P parse_path tokens cratename input =
     (let generics = without_defaults (st_generics input);
          where_clause = default_where (gen_where generics)
      in and_ok (fold_ok (de_process_field P) (fields_list (st_fields input)) (de_generics_new generics, []))
         (\<lambda>(generics_output, body).
         and_ok (contains_initialize_with parse_path (st_attrs input)) (\<lambda>method_ident.
         Ok \<lparr>ds_where = de_generics_extend tokens cratename generics_output where_clause,
             ds_fields = body, ds_init = method_ident\<rparr>)))"

definition de_process_variant ::
  "literal_parsers \<Rightarrow> variant \<Rightarrow> de_generics \<Rightarrow> (derive_error, de_generics \<times> de_entry list) outcome" where
  "de_process_variant P variant generics =
     fold_ok (de_process_field P) (fields_list (var_fields variant)) (generics, [])"

text \<open>\<open>if variant_tag == d { Name::Variant ... } else\<close> for each variant, and the final error.\<close>

record de_enum_code =
  de_where :: "where_predicate list"
  de_arms :: "(token list \<times> ident \<times> de_entry list) list"
  de_init :: "string option"

definition de_enum_variant ::
  "literal_parsers \<Rightarrow> (ident \<rightharpoonup> token list) \<Rightarrow> bool \<Rightarrow> nat \<times> variant \<Rightarrow>
   de_generics \<times> (token list \<times> ident \<times> de_entry list) list \<Rightarrow>
   (derive_error, de_generics \<times> (token list \<times> ident \<times> de_entry list) list) outcome" where
  "de_enum_variant P discriminants use_discriminant = (\<lambda>(variant_idx, variant) (generics, arms).
     and_ok (de_process_variant P variant generics) (\<lambda>(g, variant_body).
     and_ok (discriminants_get discriminants (var_ident variant) use_discriminant variant_idx) (\<lambda>discriminant_value.
     Ok (g, arms @ [(discriminant_value, var_ident variant, variant_body)]))))"

definition de_enum_process ::
  "literal_parsers \<Rightarrow> (string \<Rightarrow> (derive_error, string) outcome) \<Rightarrow> (ty \<Rightarrow> string) \<Rightarrow> string \<Rightarrow> item_enum \<Rightarrow>
   (derive_error, de_enum_code) outcome" where
  "de_enum_process P parse_path tokens cratename input =
     (let generics = without_defaults (en_generics input);
          where_clause = default_where (gen_where generics)
      in and_ok (contains_use_discriminant input) (\<lambda>use_discriminant.
         let discriminants = discriminants_new (en_variants input)
         in and_ok (fold_ok (de_enum_variant P discriminants use_discriminant) (List.enumerate 0 (en_variants input))
              (de_generics_new generics, [])) (\<lambda>(generics_output, variant_arms).
            and_ok (contains_initialize_with parse_path (en_attrs input)) (\<lambda>init.
            Ok \<lparr>de_where = de_generics_extend tokens cratename generics_output where_clause,
                de_arms = variant_arms, de_init = init\<rparr>))))"

end
