(* ===== verification/Derive_Codec.thy ===== *)
theory Derive_Codec
  imports Derive_Generate Borsh_Primitives
begin

section \<open>What derived code does\<close>

text \<open>
  The meaning of the code that \<open>Derive_Generate\<close> produces. A value of a derived type is the
  list of its fields in the order of their declaration, for an enum together with the
  name of the variant; the values of all field types are of one HOL type \<open>'v\<close>. What is not
  generated is a parameter: the implementations of the traits for the field types, the
  functions named in the attributes, \<open>Default\<close>, and the \<open>init\<close> method. Code that the
  compiler refuses, because a name is not bound or is bound to something else, has no
  behaviour (\<open>None\<close>).
\<close>

subsection \<open>Serialization\<close>

record ('w, 'v) ser_impls =
  ser_impl :: "ty \<Rightarrow> ('w, 'v) BorshSerialize"
  ser_with :: "string \<Rightarrow> 'w Write \<Rightarrow> 'v \<Rightarrow> ('w, unit) io"

definition refused :: "('s, 'e, 'a) eff" where
  "refused = (\<lambda>s. None)"

type_synonym 'v scope = "ser_arg \<Rightarrow> (ty \<times> 'v) option"

text \<open>Named fields are found by their name, the others by their position.\<close>

definition named_field :: "syn_field list \<Rightarrow> 'v list \<Rightarrow> ident \<Rightarrow> (ty \<times> 'v) option" where
  "named_field fs vals name = map_of (zip (List.map fld_ident fs) (zip (List.map fld_ty fs) vals)) (Some name)"

fun struct_scope :: "syn_fields \<Rightarrow> 'v list \<Rightarrow> 'v scope" where
  "struct_scope (FieldsNamed fs) vals (SelfField name) = named_field fs vals name"
| "struct_scope (FieldsUnnamed fs) vals (SelfIndex i) =
     (if i < length fs \<and> i < length vals then Some (fld_ty (fs ! i), vals ! i) else None)"
| "struct_scope _ _ _ = None"

fun pattern_scope :: "pattern \<Rightarrow> syn_fields \<Rightarrow> 'v list \<Rightarrow> 'v scope" where
  "pattern_scope (PatNamed names) (FieldsNamed fs) vals (LocalVar x) =
     (if x \<in> set names then named_field fs vals x else None)"
| "pattern_scope (PatUnnamed names) (FieldsUnnamed fs) vals (LocalVar x) =
     map_of (zip names (zip (List.map fld_ty fs) vals)) x"
| "pattern_scope _ _ _ _ = None"

text \<open>
  The second argument of a call is the variable \<open>writer\<close>. A pattern that binds a field of
  that name hides the parameter of the method, and the call is refused.
\<close>

definition exec_call :: "('w, 'v) ser_impls \<Rightarrow> 'v scope \<Rightarrow> 'w Write \<Rightarrow> ser_call \<Rightarrow> ('w, unit) io" where
  "exec_call I sc W call =
     (if sc (LocalVar ''writer'') \<noteq> None then refused
      else case call of
          SerTrait arg \<Rightarrow> (case sc arg of Some (t, v) \<Rightarrow> serialize (ser_impl I t) W v | None \<Rightarrow> refused)
        | SerWith func arg \<Rightarrow> (case sc arg of Some (t, v) \<Rightarrow> ser_with I func W v | None \<Rightarrow> refused))"

definition ser_struct_exec ::
  "('w, 'v) ser_impls \<Rightarrow> syn_fields \<Rightarrow> ser_struct_code \<Rightarrow> 'w Write \<Rightarrow> 'v list \<Rightarrow> ('w, unit) io" where
  "ser_struct_exec I flds code W vals = for_each (exec_call I (struct_scope flds vals) W) (ss_body code)"

definition variant_fields_of :: "variant list \<Rightarrow> ident \<Rightarrow> syn_fields option" where
  "variant_fields_of vs name = map_of (List.map (\<lambda>v. (var_ident v, var_fields v)) vs) name"

definition ser_enum_exec ::
  "('w, 'v) ser_impls \<Rightarrow> variant list \<Rightarrow> ser_enum_code \<Rightarrow> 'w Write \<Rightarrow> ident \<times> 'v list \<Rightarrow> ('w, unit) io" where
  "ser_enum_exec I vs code W = (\<lambda>(name, vals).
     case Option.bind (map_of (se_idx_arms code) name) tag_of of
         None \<Rightarrow> refused
       | Some variant_idx \<Rightarrow>
           and_then (write_all W (to_le_bytes variant_idx)) (\<lambda>_.
           case se_match code of
               None \<Rightarrow> ret ()
             | Some m \<Rightarrow>
                 (case (map_of (sm_arms m) name, variant_fields_of vs name) of
                     (Some (header, body), Some flds) \<Rightarrow>
                       for_each (exec_call I (pattern_scope header flds vals) W) body
                   | _ \<Rightarrow> if sm_catch_all m then ret () else refused)))"

subsection \<open>Deserialization\<close>

record ('r, 'v) de_impls =
  de_impl :: "ty \<Rightarrow> ('r, 'v) BorshDeserialize"
  de_with :: "string \<Rightarrow> 'r Read \<Rightarrow> ('r, 'v) io"
  default_of :: "ty \<Rightarrow> 'v"

fun exec_expr :: "('r, 'v) de_impls \<Rightarrow> 'r Read \<Rightarrow> ty \<Rightarrow> de_expr \<Rightarrow> ('r, 'v) io" where
  "exec_expr I reader t DeTrait = deserialize_reader (de_impl I t) reader"
| "exec_expr I reader t (DeWith path) = de_with I path reader"
| "exec_expr I reader t DeDefault = ret (default_of I t)"

fun exec_exprs :: "('r, 'v) de_impls \<Rightarrow> 'r Read \<Rightarrow> (syn_field \<times> de_entry) list \<Rightarrow> ('r, 'v list) io" where
  "exec_exprs I reader [] = ret []"
| "exec_exprs I reader ((f, _, e) # rest) =
     and_then (exec_expr I reader (fld_ty f) e) (\<lambda>v.
     and_then (exec_exprs I reader rest) (\<lambda>vs. ret (v # vs)))"

text \<open>\<open>Self { a: ..., b: ... }\<close> and \<open>Self(..., ...)\<close>.\<close>

definition exec_literal :: "('r, 'v) de_impls \<Rightarrow> 'r Read \<Rightarrow> syn_field list \<Rightarrow> de_entry list \<Rightarrow> ('r, 'v list) io" where
  "exec_literal I reader fs entries =
     (if List.map fst entries = List.map fld_ident fs then exec_exprs I reader (zip fs entries) else refused)"

definition de_struct_exec ::
  "('r, 'v) de_impls \<Rightarrow> (string \<Rightarrow> 'v list \<Rightarrow> 'v list) \<Rightarrow> syn_fields \<Rightarrow> de_struct_code \<Rightarrow> 'r Read \<Rightarrow> ('r, 'v list) io" where
  "de_struct_exec I init_method flds code reader =
     and_then (exec_literal I reader (fields_list flds) (ds_fields code)) (\<lambda>return_value.
     ret (case ds_init code of Some m \<Rightarrow> init_method m return_value | None \<Rightarrow> return_value))"

fun exec_arms ::
  "('r, 'v) de_impls \<Rightarrow> variant list \<Rightarrow> 'r Read \<Rightarrow> u8 \<Rightarrow> (token list \<times> ident \<times> de_entry list) list \<Rightarrow>
   ('r, ident \<times> 'v list) io" where
  "exec_arms I vs reader variant_tag [] =
     fail (error_new InvalidData (''Unexpected variant tag: '' @ show_nat (unat variant_tag)))"
| "exec_arms I vs reader variant_tag ((d, name, entries) # arms) =
     (case (tag_of d, variant_fields_of vs name) of
         (Some tag, Some flds) \<Rightarrow>
           if variant_tag = tag
           then map_ok (\<lambda>vals. (name, vals)) (exec_literal I reader (fields_list flds) entries)
           else exec_arms I vs reader variant_tag arms
       | _ \<Rightarrow> refused)"

definition deserialize_variant ::
  "('r, 'v) de_impls \<Rightarrow> (string \<Rightarrow> ident \<times> 'v list \<Rightarrow> ident \<times> 'v list) \<Rightarrow> variant list \<Rightarrow> de_enum_code \<Rightarrow>
   'r Read \<Rightarrow> u8 \<Rightarrow> ('r, ident \<times> 'v list) io" where
  "deserialize_variant I init_method vs code reader variant_tag =
     and_then (exec_arms I vs reader variant_tag (de_arms code)) (\<lambda>return_value.
     ret (case de_init code of Some m \<Rightarrow> init_method m return_value | None \<Rightarrow> return_value))"

definition de_enum_exec ::
  "('r, 'v) de_impls \<Rightarrow> (string \<Rightarrow> ident \<times> 'v list \<Rightarrow> ident \<times> 'v list) \<Rightarrow> variant list \<Rightarrow> de_enum_code \<Rightarrow>
   'r Read \<Rightarrow> ('r, ident \<times> 'v list) io" where
  "de_enum_exec I init_method vs code reader =
     and_then (u8_deserialize_reader reader) (\<lambda>tag. deserialize_variant I init_method vs code reader tag)"

subsection \<open>The shape of the generated bodies\<close>

fun struct_ids :: "syn_fields \<Rightarrow> field_id list" where
  "struct_ids (FieldsNamed fs) = List.map (\<lambda>f. IdStruct (the (fld_ident f))) fs"
| "struct_ids (FieldsUnnamed fs) = List.map IdStructUnnamed [0..<length fs]"
| "struct_ids FieldsUnit = []"

fun enum_ids :: "syn_fields \<Rightarrow> field_id list" where
  "enum_ids (FieldsNamed fs) = List.map (\<lambda>f. IdEnum (the (fld_ident f))) fs"
| "enum_ids (FieldsUnnamed fs) = List.map IdEnumUnnamed [0..<length fs]"
| "enum_ids FieldsUnit = []"

lemma length_ids [simp]: "length (struct_ids flds) = length (fields_list flds)" "length (enum_ids flds) = length (fields_list flds)"
  by (cases flds; simp)+

definition field_calls :: "literal_parsers \<Rightarrow> field_id \<times> syn_field \<Rightarrow> ser_call list" where
  "field_calls P = (\<lambda>(fid, f).
     if at_skip (attrs_of P f) then [] else [serialize_output fid (at_serialize_with (attrs_of P f))])"

definition field_entry :: "literal_parsers \<Rightarrow> syn_field \<Rightarrow> de_entry" where
  "field_entry P f =
     (if at_skip (attrs_of P f) then field_default_output (fld_ident f)
      else field_output (fld_ident f) (at_deserialize_with (attrs_of P f)))"

lemma fold_ok_appends:
  assumes "fold_ok f xs s = Ok t" and "\<And>x s t. x \<in> set xs \<Longrightarrow> f x s = Ok t \<Longrightarrow> view t = view s @ out x"
  shows "view t = view s @ concat (List.map out xs)"
  using assms
proof (induction xs arbitrary: s)
  case (Cons x xs)
  then obtain u where "f x s = Ok u" "fold_ok f xs u = Ok t" by (auto simp: and_ok_Ok_iff)
  with Cons.IH [of u] Cons.prems(2) show ?case by simp
qed simp

lemma ser_process_field_calls:
  "ser_process_field P f fid (g, body) = Ok (g', body') \<Longrightarrow> body' = body @ field_calls P (fid, f)"
  by (auto simp: ser_process_field_def and_ok_Ok_iff field_calls_def attrs_of_def)

lemma concat_enumerate:
  "concat (List.map (\<lambda>(i, x). g (h i, x)) (List.enumerate n xs)) = concat (List.map g (zip (List.map h [n..<n + length xs]) xs))"
  by (simp add: enumerate_eq_zip zip_map1 case_prod_unfold comp_def)

lemma ser_struct_fields_body:
  assumes "ser_struct_fields P flds g = Ok (g', body)"
  shows "body = concat (List.map (field_calls P) (zip (struct_ids flds) (fields_list flds)))"
proof (cases flds)
  case (FieldsNamed fs)
  with assms have "fold_ok (\<lambda>field acc.
      and_ok (unwrap_ident field) (\<lambda>name. ser_process_field P field (IdStruct name) acc)) fs (g, []) = Ok (g', body)"
    by (simp add: ser_struct_fields_def)
  then have "snd (g', body) = snd (g, []) @ concat (List.map (\<lambda>f. field_calls P (IdStruct (the (fld_ident f)), f)) fs)"
    by (rule fold_ok_appends)
      (auto simp: unwrap_ident_def and_ok_Ok_iff split: option.splits dest: ser_process_field_calls)
  with FieldsNamed show ?thesis by (simp add: zip_map1 zip_same_conv_map comp_def)
next
  case (FieldsUnnamed fs)
  with assms have "fold_ok (\<lambda>(field_idx, field) acc.
      and_ok (new_struct_unnamed field_idx) (\<lambda>field_id. ser_process_field P field field_id acc))
      (List.enumerate 0 fs) (g, []) = Ok (g', body)"
    by (simp add: ser_struct_fields_def)
  then have "snd (g', body) = snd (g, []) @
      concat (List.map (\<lambda>(i, f). field_calls P (IdStructUnnamed i, f)) (List.enumerate 0 fs))"
    by (rule fold_ok_appends)
      (auto simp: new_struct_unnamed_def map_outcome_def field_index_def and_ok_Ok_iff split: if_splits
        dest: ser_process_field_calls)
  with FieldsUnnamed concat_enumerate [where g = "field_calls P" and h = IdStructUnnamed and n = 0] show ?thesis by simp
next
  case FieldsUnit
  with assms show ?thesis by (simp add: ser_struct_fields_def)
qed

text \<open>The header of a variant binds every field that its body reads.\<close>

definition field_header :: "literal_parsers \<Rightarrow> field_id \<times> syn_field \<Rightarrow> ident list" where
  "field_header P = (\<lambda>(fid, f).
     case enum_variant_header fid (at_skip (attrs_of P f)) of Ok (Some h) \<Rightarrow> [h] | _ \<Rightarrow> [])"

lemma ser_enum_process_field_out:
  assumes "ser_enum_process_field P f fid (g, vf) = Ok (g', vf')"
  shows "vf_header vf' = vf_header vf @ field_header P (fid, f)" and "vf_body vf' = vf_body vf @ field_calls P (fid, f)"
  using assms
  by (auto simp: ser_enum_process_field_def and_ok_Ok_iff field_calls_def field_header_def attrs_of_def
      split: option.splits)

lemma ser_process_variant_body:
  assumes "ser_process_variant P v g = Ok (g', body)"
  shows "body = (case var_fields v of
      FieldsNamed fs \<Rightarrow> BodyFields
        (PatNamed (concat (List.map (field_header P) (zip (enum_ids (var_fields v)) fs))))
        (concat (List.map (field_calls P) (zip (enum_ids (var_fields v)) fs)))
    | FieldsUnnamed fs \<Rightarrow> BodyFields
        (PatUnnamed (concat (List.map (field_header P) (zip (enum_ids (var_fields v)) fs))))
        (concat (List.map (field_calls P) (zip (enum_ids (var_fields v)) fs)))
    | FieldsUnit \<Rightarrow> BodyUnit)"
proof (cases "var_fields v")
  case (FieldsNamed fs)
  with assms obtain vf where f: "fold_ok (\<lambda>field acc.
      and_ok (unwrap_ident field) (\<lambda>name. ser_enum_process_field P field (IdEnum name) acc)) fs
      (g, \<lparr>vf_header = [], vf_body = []\<rparr>) = Ok (g', vf)"
    and body: "body = BodyFields (PatNamed (vf_header vf)) (vf_body vf)"
    by (auto simp: ser_process_variant_def and_ok_Ok_iff)
  have step: "and_ok (unwrap_ident x) (\<lambda>name. ser_enum_process_field P x (IdEnum name) s) = Ok t \<Longrightarrow>
      vf_header (snd t) = vf_header (snd s) @ field_header P (IdEnum (the (fld_ident x)), x) \<and>
      vf_body (snd t) = vf_body (snd s) @ field_calls P (IdEnum (the (fld_ident x)), x)" for x s t
    by (cases s; cases t) (auto simp: unwrap_ident_def split: option.splits dest: ser_enum_process_field_out)
  from fold_ok_appends [OF f, of "\<lambda>s. vf_header (snd s)"] fold_ok_appends [OF f, of "\<lambda>s. vf_body (snd s)"] step
  have "vf_header vf = concat (List.map (\<lambda>x. field_header P (IdEnum (the (fld_ident x)), x)) fs)"
    and "vf_body vf = concat (List.map (\<lambda>x. field_calls P (IdEnum (the (fld_ident x)), x)) fs)" by fastforce+
  with FieldsNamed body show ?thesis by (simp add: zip_map1 zip_same_conv_map comp_def)
next
  case (FieldsUnnamed fs)
  with assms obtain vf where f: "fold_ok (\<lambda>(field_idx, field) acc.
      and_ok (new_enum_unnamed field_idx) (\<lambda>field_id. ser_enum_process_field P field field_id acc))
      (List.enumerate 0 fs) (g, \<lparr>vf_header = [], vf_body = []\<rparr>) = Ok (g', vf)"
    and body: "body = BodyFields (PatUnnamed (vf_header vf)) (vf_body vf)"
    by (auto simp: ser_process_variant_def and_ok_Ok_iff)
  have step: "(\<lambda>(field_idx, field) acc.
      and_ok (new_enum_unnamed field_idx) (\<lambda>field_id. ser_enum_process_field P field field_id acc)) x s = Ok t \<Longrightarrow>
      vf_header (snd t) = vf_header (snd s) @ (\<lambda>(i, f). field_header P (IdEnumUnnamed i, f)) x \<and>
      vf_body (snd t) = vf_body (snd s) @ (\<lambda>(i, f). field_calls P (IdEnumUnnamed i, f)) x" for x s t
    by (cases s; cases t; cases x)
      (auto simp: new_enum_unnamed_def map_outcome_def field_index_def and_ok_Ok_iff split: if_splits
        dest: ser_enum_process_field_out)
  from fold_ok_appends [OF f, of "\<lambda>s. vf_header (snd s)"] fold_ok_appends [OF f, of "\<lambda>s. vf_body (snd s)"] step
  have "vf_header vf = concat (List.map (\<lambda>(i, f). field_header P (IdEnumUnnamed i, f)) (List.enumerate 0 fs))"
    and "vf_body vf = concat (List.map (\<lambda>(i, f). field_calls P (IdEnumUnnamed i, f)) (List.enumerate 0 fs))" by fastforce+
  with FieldsUnnamed body concat_enumerate [where g = "field_calls P" and h = IdEnumUnnamed and n = 0]
    concat_enumerate [where g = "field_header P" and h = IdEnumUnnamed and n = 0] show ?thesis by simp
next
  case FieldsUnit
  with assms show ?thesis by (simp add: ser_process_variant_def)
qed

lemma de_process_field_entry:
  "de_process_field P f s = Ok t \<Longrightarrow> snd t = snd s @ [field_entry P f]"
  by (cases s) (auto simp: de_process_field_def and_ok_Ok_iff field_entry_def attrs_of_def Let_def split: if_splits)

lemma de_fields_entries:
  "fold_ok (de_process_field P) fs (g, []) = Ok (g', entries) \<Longrightarrow> entries = List.map (field_entry P) fs"
  using fold_ok_appends [where view = snd and out = "\<lambda>f. [field_entry P f]" and f = "de_process_field P" and xs = fs
      and s = "(g, [])" and t = "(g', entries)"] de_process_field_entry by fastforce

lemma field_entry_name [simp]: "fst (field_entry P f) = fld_ident f"
  by (simp add: field_entry_def field_default_output_def field_output_def)

subsection \<open>Contracts of the fields\<close>

definition ser_contract ::
  "literal_parsers \<Rightarrow> ('w, 'v) ser_impls \<Rightarrow> (syn_field \<Rightarrow> 'v \<Rightarrow> bytes) \<Rightarrow> (syn_field \<Rightarrow> 'v \<Rightarrow> bool) \<Rightarrow> syn_field \<Rightarrow> bool" where
  "ser_contract P I enc ok f \<longleftrightarrow> (\<not> at_skip (attrs_of P f) \<longrightarrow> (\<forall>v. ok f v \<longrightarrow>
     emits (\<lambda>W. case at_serialize_with (attrs_of P f) of
         Some func \<Rightarrow> ser_with I func W v
       | None \<Rightarrow> serialize (ser_impl I (fld_ty f)) W v) (enc f v)))"

definition de_contract ::
  "literal_parsers \<Rightarrow> (bytes, 'v) de_impls \<Rightarrow> (syn_field \<Rightarrow> 'v \<Rightarrow> bytes) \<Rightarrow> (syn_field \<Rightarrow> 'v \<Rightarrow> bool) \<Rightarrow> syn_field \<Rightarrow> bool" where
  "de_contract P I enc ok f \<longleftrightarrow> (\<not> at_skip (attrs_of P f) \<longrightarrow> (\<forall>v. ok f v \<longrightarrow>
     decodes (case at_deserialize_with (attrs_of P f) of
         Some path \<Rightarrow> de_with I path slice_reader
       | None \<Rightarrow> deserialize_reader (de_impl I (fld_ty f)) slice_reader) v (enc f v)))"

definition fields_enc :: "literal_parsers \<Rightarrow> (syn_field \<Rightarrow> 'v \<Rightarrow> bytes) \<Rightarrow> syn_field list \<Rightarrow> 'v list \<Rightarrow> bytes" where
  "fields_enc P enc fs vals = concat (List.map (\<lambda>(f, v). if at_skip (attrs_of P f) then [] else enc f v) (zip fs vals))"

definition fields_ok :: "literal_parsers \<Rightarrow> (syn_field \<Rightarrow> 'v \<Rightarrow> bool) \<Rightarrow> syn_field list \<Rightarrow> 'v list \<Rightarrow> bool" where
  "fields_ok P ok fs vals \<longleftrightarrow> length vals = length fs \<and> (\<forall>(f, v)\<in>set (zip fs vals). at_skip (attrs_of P f) \<or> ok f v)"

text \<open>The value that is read back: skipped fields have their default.\<close>

definition fields_reset :: "literal_parsers \<Rightarrow> ('r, 'v) de_impls \<Rightarrow> syn_field list \<Rightarrow> 'v list \<Rightarrow> 'v list" where
  "fields_reset P I fs vals = List.map (\<lambda>(f, v). if at_skip (attrs_of P f) then default_of I (fld_ty f) else v) (zip fs vals)"

definition resolves :: "literal_parsers \<Rightarrow> 'v scope \<Rightarrow> field_id list \<Rightarrow> syn_field list \<Rightarrow> 'v list \<Rightarrow> bool" where
  "resolves P sc fids fs vals \<longleftrightarrow> sc (LocalVar ''writer'') = None \<and>
     (\<forall>(fid, f, v)\<in>set (zip fids (zip fs vals)). at_skip (attrs_of P f) \<or> sc (serialize_arg fid) = Some (fld_ty f, v))"

lemma calls_emit:
  assumes "resolves P sc fids fs vals" and "length fids = length fs" and "fields_ok P ok fs vals"
    and "\<forall>f\<in>set fs. ser_contract P I enc ok f"
  shows "emits (\<lambda>W. for_each (exec_call I sc W) (concat (List.map (field_calls P) (zip fids fs)))) (fields_enc P enc fs vals)"
proof -
  have w: "sc (LocalVar ''writer'') = None" using assms(1) by (simp add: resolves_def)
  have "length fs = length vals" using assms(3) by (simp add: fields_ok_def)
  with assms(2) show ?thesis
    using assms(1,3,4)
  proof (induction fids fs vals rule: list_induct3)
    case Nil
    then show ?case by (simp add: fields_enc_def emits_ret)
  next
    case (Cons fid fids f fs v vals)
    have rest: "emits (\<lambda>W. for_each (exec_call I sc W) (concat (List.map (field_calls P) (zip fids fs)))) (fields_enc P enc fs vals)"
      by (rule Cons.IH) (use Cons.prems in \<open>auto simp: resolves_def fields_ok_def\<close>)
    show ?case
    proof (cases "at_skip (attrs_of P f)")
      case True
      with rest show ?thesis by (simp add: field_calls_def fields_enc_def)
    next
      case False
      with Cons.prems have sc: "sc (serialize_arg fid) = Some (fld_ty f, v)" and "ok f v" and "ser_contract P I enc ok f"
        by (auto simp: resolves_def fields_ok_def)
      with False have "emits (\<lambda>W. exec_call I sc W (serialize_output fid (at_serialize_with (attrs_of P f)))) (enc f v)"
        by (auto simp: ser_contract_def exec_call_def w serialize_output_def Let_def split: option.splits)
      from emits_and_then [OF this rest] False show ?thesis by (simp add: field_calls_def fields_enc_def)
    qed
  qed
qed

lemma exprs_decode:
  assumes "fields_ok P ok fs vals" and "\<forall>f\<in>set fs. de_contract P I enc ok f"
  shows "decodes (exec_exprs I slice_reader (zip fs (List.map (field_entry P) fs))) (fields_reset P I fs vals) (fields_enc P enc fs vals)"
proof -
  have "length fs = length vals" using assms(1) by (simp add: fields_ok_def)
  then show ?thesis
    using assms
  proof (induction fs vals rule: list_induct2)
    case Nil
    then show ?case by (simp add: fields_reset_def fields_enc_def decodes_ret)
  next
    case (Cons f fs v vals)
    obtain n e where fe: "field_entry P f = (n, e)" by (cases "field_entry P f")
    have rest: "decodes (exec_exprs I slice_reader (zip fs (List.map (field_entry P) fs))) (fields_reset P I fs vals) (fields_enc P enc fs vals)"
      by (rule Cons.IH) (use Cons.prems in \<open>auto simp: fields_ok_def\<close>)
    let ?v = "if at_skip (attrs_of P f) then default_of I (fld_ty f) else v"
    let ?e = "if at_skip (attrs_of P f) then [] else enc f v"
    have "decodes (exec_expr I slice_reader (fld_ty f) e) ?v ?e"
      using Cons.prems fe
      by (auto simp: field_entry_def field_default_output_def field_output_def fields_ok_def de_contract_def
          decodes_ret split: option.splits if_splits)
    moreover have "decodes (and_then (exec_exprs I slice_reader (zip fs (List.map (field_entry P) fs))) (\<lambda>vs. ret (?v # vs)))
        (?v # fields_reset P I fs vals) (fields_enc P enc fs vals)"
      using decodes_and_then [OF rest, where f = "\<lambda>vs. ret (?v # vs)", OF decodes_ret] by simp
    ultimately have "decodes (and_then (exec_expr I slice_reader (fld_ty f) e) (\<lambda>v.
        and_then (exec_exprs I slice_reader (zip fs (List.map (field_entry P) fs))) (\<lambda>vs. ret (v # vs))))
        (?v # fields_reset P I fs vals) (?e @ fields_enc P enc fs vals)"
      by (rule decodes_and_then)
    moreover have "?e @ fields_enc P enc fs vals = fields_enc P enc (f # fs) (v # vals)"
      and "?v # fields_reset P I fs vals = fields_reset P I (f # fs) (v # vals)"
      by (simp_all add: fields_enc_def fields_reset_def)
    ultimately show ?case by (simp add: fe)
  qed
qed

lemma literal_decodes:
  assumes "fields_ok P ok fs vals" and "\<forall>f\<in>set fs. de_contract P I enc ok f"
  shows "decodes (exec_literal I slice_reader fs (List.map (field_entry P) fs)) (fields_reset P I fs vals) (fields_enc P enc fs vals)"
  using exprs_decode [OF assms] by (simp add: exec_literal_def comp_def)

subsection \<open>Names resolve\<close>

lemma named_field_lookup:
  assumes "distinct (List.map fld_ident fs)" and "length vals = length fs" and "(f, v) \<in> set (zip fs vals)" and "fld_ident f = Some name"
  shows "named_field fs vals name = Some (fld_ty f, v)"
proof -
  from assms(3) obtain i where i: "i < length fs" "f = fs ! i" "v = vals ! i" by (auto simp: set_zip)
  have "map_of (zip (List.map fld_ident fs) (zip (List.map fld_ty fs) vals)) (List.map fld_ident fs ! i) =
      Some (zip (List.map fld_ty fs) vals ! i)"
    by (rule map_of_zip_nth) (use assms i in auto)
  with i assms(2,4) show ?thesis by (simp add: named_field_def)
qed

lemma struct_resolves:
  assumes "fields_wf flds" and "length vals = length (fields_list flds)"
  shows "resolves P (struct_scope flds vals) (struct_ids flds) (fields_list flds) vals"
proof (cases flds)
  case (FieldsNamed fs)
  have "struct_scope flds vals (serialize_arg fid) = Some (fld_ty f, v)"
    if m: "(fid, f, v) \<in> set (zip (struct_ids flds) (zip fs vals))" for fid f v
  proof -
    from m have fv: "(f, v) \<in> set (zip fs vals)" by (rule set_zip_rightD)
    from m FieldsNamed have fid: "fid = IdStruct (the (fld_ident f))" by (auto simp: set_zip)
    from fv have "f \<in> set fs" by (rule set_zip_leftD)
    with assms(1) FieldsNamed obtain name where name: "fld_ident f = Some name" by auto
    have "named_field fs vals name = Some (fld_ty f, v)"
      by (rule named_field_lookup) (use assms FieldsNamed fv name in auto)
    with name FieldsNamed fid show ?thesis by simp
  qed
  with FieldsNamed show ?thesis by (auto simp: resolves_def)
next
  case (FieldsUnnamed fs)
  with assms(2) show ?thesis by (auto simp: resolves_def set_zip)
next
  case FieldsUnit
  then show ?thesis by (simp add: resolves_def)
qed

text \<open>Decimal numbers are read back.\<close>

definition digits_value :: "string \<Rightarrow> nat" where
  "digits_value s = foldl (\<lambda>n c. 10 * n + (of_char c - 48)) 0 s"

lemma digits_show: "digits_value (show_nat n) = n"
proof (induction n rule: show_nat.induct)
  case (1 n)
  have digit: "of_char (digit_char d) - (48 :: nat) = d" if "d < 10" for d
    using that by (simp add: digit_char_def)
  show ?case
  proof (cases "n < 10")
    case True
    with digit show ?thesis by (simp add: show_nat.simps [of n] digits_value_def)
  next
    case False
    have "digits_value (show_nat n) = 10 * digits_value (show_nat (n div 10)) + (of_char (digit_char (n mod 10)) - 48)"
      using False by (subst show_nat.simps) (simp add: digits_value_def)
    also have "\<dots> = n" using 1 [OF False] digit [of "n mod 10"] by simp
    finally show ?thesis .
  qed
qed

lemma show_nat_inj: "show_nat m = show_nat n \<longleftrightarrow> m = n"
  by (metis digits_show)

lemma named_header:
  "set (concat (List.map (field_header P) (zip (enum_ids (FieldsNamed fs)) fs))) =
     {the (fld_ident f) | f. f \<in> set fs \<and> \<not> at_skip (attrs_of P f)}"
  by (auto simp: zip_map1 zip_same_conv_map field_header_def split: if_splits)

lemma named_pattern_resolves:
  assumes "fields_wf (FieldsNamed fs)" and "length vals = length fs"
    and "\<forall>f\<in>set fs. fld_ident f = Some ''writer'' \<longrightarrow> at_skip (attrs_of P f)"
    and "header = concat (List.map (field_header P) (zip (enum_ids (FieldsNamed fs)) fs))"
  shows "resolves P (pattern_scope (PatNamed header) (FieldsNamed fs) vals) (enum_ids (FieldsNamed fs)) fs vals"
proof -
  note header = named_header [of P fs, folded assms(4)]
  have "''writer'' \<notin> set header"
    using assms(1,3) unfolding header by force
  moreover have "pattern_scope (PatNamed header) (FieldsNamed fs) vals (serialize_arg fid) = Some (fld_ty f, v)"
    if m: "(fid, f, v) \<in> set (zip (enum_ids (FieldsNamed fs)) (zip fs vals))" and "\<not> at_skip (attrs_of P f)" for fid f v
  proof -
    from m have fv: "(f, v) \<in> set (zip fs vals)" by (rule set_zip_rightD)
    from m have fid: "fid = IdEnum (the (fld_ident f))" by (auto simp: set_zip)
    from fv have f: "f \<in> set fs" by (rule set_zip_leftD)
    with assms(1) obtain name where name: "fld_ident f = Some name" by auto
    have "named_field fs vals name = Some (fld_ty f, v)"
      by (rule named_field_lookup) (use assms(1,2) fv name in auto)
    moreover have "name \<in> set header" unfolding header using f name that(2) by force
    ultimately show ?thesis by (simp add: fid name)
  qed
  ultimately show ?thesis by (auto simp: resolves_def)
qed

definition unnamed_name :: "literal_parsers \<Rightarrow> nat \<times> syn_field \<Rightarrow> ident" where
  "unnamed_name P = (\<lambda>(i, f). (if at_skip (attrs_of P f) then ''_id'' else ''id'') @ show_nat i)"

lemma unnamed_header:
  "concat (List.map (field_header P) (zip (enum_ids (FieldsUnnamed fs)) fs)) =
     List.map (unnamed_name P) (zip [0..<length fs] fs)"
  by (simp add: zip_map1 field_header_def unnamed_name_def comp_def case_prod_unfold concat_map_singleton)

lemma unnamed_name_inj: "unnamed_name P (i, f) = unnamed_name P (j, g) \<Longrightarrow> i = j"
  by (auto simp: unnamed_name_def show_nat_inj split: if_splits)

lemma unnamed_pattern_resolves:
  assumes "length vals = length fs"
    and "header = concat (List.map (field_header P) (zip (enum_ids (FieldsUnnamed fs)) fs))"
  shows "resolves P (pattern_scope (PatUnnamed header) (FieldsUnnamed fs) vals) (enum_ids (FieldsUnnamed fs)) fs vals"
proof -
  note header = assms(2) [unfolded unnamed_header]
  have len: "length header = length fs" by (simp add: header)
  have nth: "header ! i = unnamed_name P (i, fs ! i)" if "i < length fs" for i using that by (simp add: header)
  have dist: "distinct header"
    unfolding distinct_conv_nth using len nth unnamed_name_inj by metis
  have "''writer'' \<notin> set header"
    by (auto simp: header unnamed_name_def split: if_splits)
  then have "map_of (zip header (zip (List.map fld_ty fs) vals)) ''writer'' = None"
    by (auto simp: map_of_eq_None_iff dest: set_zip_leftD)
  moreover have "map_of (zip header (zip (List.map fld_ty fs) vals)) (header ! i) = Some (fld_ty (fs ! i), vals ! i)"
    if "i < length fs" for i
    using map_of_zip_nth [OF _ dist, of "zip (List.map fld_ty fs) vals" i] that len assms(1) by simp
  moreover have "header ! i = ''id'' @ show_nat i" if "i < length fs" and "\<not> at_skip (attrs_of P (fs ! i))" for i
    using nth [OF that(1)] that(2) by (simp add: unnamed_name_def)
  ultimately show ?thesis
    by (force simp: resolves_def set_zip)
qed

subsection \<open>Structs\<close>

lemma struct_emits:
  assumes "ser_struct_process P tokens cr input = Ok code" and "fields_wf (st_fields input)"
    and "fields_ok P ok (fields_list (st_fields input)) vals"
    and "\<forall>f\<in>set (fields_list (st_fields input)). ser_contract P I enc ok f"
  shows "emits (\<lambda>W. ser_struct_exec I (st_fields input) code W vals) (fields_enc P enc (fields_list (st_fields input)) vals)"
proof -
  from assms(1) obtain g g' where "ser_struct_fields P (st_fields input) g = Ok (g', ss_body code)"
    by (auto simp: ser_struct_process_def Let_def and_ok_Ok_iff)
  from ser_struct_fields_body [OF this] show ?thesis
    unfolding ser_struct_exec_def
    using calls_emit [OF struct_resolves [OF assms(2)] length_ids(1) assms(3,4)] assms(3) by (simp add: fields_ok_def)
qed

lemma struct_decodes:
  assumes "de_struct_process P parse_path tokens cr input = Ok code"
    and "fields_ok P ok (fields_list (st_fields input)) vals"
    and "\<forall>f\<in>set (fields_list (st_fields input)). de_contract P I enc ok f"
  shows "decodes (de_struct_exec I init_method (st_fields input) code slice_reader)
    ((case ds_init code of Some m \<Rightarrow> init_method m | None \<Rightarrow> id) (fields_reset P I (fields_list (st_fields input)) vals))
    (fields_enc P enc (fields_list (st_fields input)) vals)"
proof -
  from assms(1) obtain g g' where "fold_ok (de_process_field P) (fields_list (st_fields input)) (g, []) = Ok (g', ds_fields code)"
    by (auto simp: de_struct_process_def Let_def and_ok_Ok_iff)
  from de_fields_entries [OF this] literal_decodes [OF assms(2,3)]
  have lit: "decodes (exec_literal I slice_reader (fields_list (st_fields input)) (ds_fields code))
      (fields_reset P I (fields_list (st_fields input)) vals) (fields_enc P enc (fields_list (st_fields input)) vals)" by simp
  show ?thesis
  proof (cases "ds_init code")
    case None
    with decodes_and_then [OF lit, where f = ret, OF decodes_ret] show ?thesis by (simp add: de_struct_exec_def)
  next
    case (Some m)
    with decodes_and_then [OF lit, where f = "\<lambda>v. ret (init_method m v)", OF decodes_ret] show ?thesis
      by (simp add: de_struct_exec_def)
  qed
qed

end
