(* ===== verification/Derive_Bounds.thy ===== *)
theory Derive_Bounds
  imports Derive_Codec
begin

section \<open>The bounds of the generated implementations\<close>

text \<open>
  The types for which the \<open>where\<close> clause of a generated implementation demands a trait, as a
  function of the fields that were visited: the type parameters that occur in them, and the
  field types that are projections of a parameter (\<open>bounded_types\<close>).
\<close>

definition bounded_types :: "ident list \<Rightarrow> syn_field list \<Rightarrow> ty set" where
  "bounded_types ps fs =
     {ident_type p | p. p \<in> set ps \<and> (\<exists>f\<in>set fs. occurs_type p (fld_ty f))} \<union>
     {fld_ty f | f. f \<in> set fs \<and> (\<exists>p\<in>set ps. first_punctuated (ungroup (fld_ty f)) = Some p)}"

definition usage :: "find_ty_params \<Rightarrow> ident \<Rightarrow> ty set" where
  "usage self p = (case associated_type_params_usage self p of Some ts \<Rightarrow> set ts | None \<Rightarrow> {})"

lemma usage_field:
  assumes "p \<in> set (all_type_params_ordered self)"
  shows "usage (visit_field f self) p =
    usage self p \<union> (if first_punctuated (ungroup (fld_ty f)) = Some p then {fld_ty f} else {})"
  using assms
  by (auto simp: usage_def visit_field_def visit_type_top_level_def Let_def param_associated_type_insert_def split: option.splits)

lemma visited_fields:
  "all_type_params_ordered (fold visit_field fs self) = all_type_params_ordered self \<and>
   relevant_type_params (fold visit_field fs self) =
     relevant_type_params self \<union> {p \<in> set (all_type_params_ordered self). \<exists>f\<in>set fs. occurs_type p (fld_ty f)} \<and>
   (\<forall>p\<in>set (all_type_params_ordered self). usage (fold visit_field fs self) p =
     usage self p \<union> {fld_ty f | f. f \<in> set fs \<and> first_punctuated (ungroup (fld_ty f)) = Some p})"
proof (induction fs arbitrary: self)
  case (Cons f fs)
  have "usage (fold visit_field fs (visit_field f self)) p =
      usage self p \<union> {fld_ty g | g. g \<in> set (f # fs) \<and> first_punctuated (ungroup (fld_ty g)) = Some p}"
    if p: "p \<in> set (all_type_params_ordered self)" for p
    using Cons.IH [of "visit_field f self"] usage_field [OF p, of f] p by (auto simp: visit_field_found)
  with Cons.IH [of "visit_field f self"] show ?case by (auto simp: visit_field_found)
qed simp

lemma visited_bounds:
  assumes "relevant_type_params self = {}" and "associated_type_params_usage self = Map.empty"
  shows "distinct (List.map tokens (process_for_bounds tokens (fold visit_field fs self)))"
    and "tokens ` set (process_for_bounds tokens (fold visit_field fs self)) =
      tokens ` bounded_types (all_type_params_ordered self) fs"
proof -
  let ?v = "fold visit_field fs self"
  note spec = process_for_bounds_spec [of tokens ?v] and v = visited_fields [of fs self]
  show "distinct (List.map tokens (process_for_bounds tokens ?v))" using spec by blast
  have types: "types_of_param ?v p = {t. p \<in> relevant_type_params ?v \<and> t = ident_type p} \<union> usage ?v p" for p
    by (simp add: types_of_param_def usage_def)
  have "(\<Union>p\<in>set (all_type_params_ordered ?v). types_of_param ?v p) = bounded_types (all_type_params_ordered self) fs"
    using v assms by (auto simp: types bounded_types_def usage_def)
  with spec show "tokens ` set (process_for_bounds tokens ?v) = tokens ` bounded_types (all_type_params_ordered self) fs"
    by simp
qed

subsection \<open>What the bounds are good for\<close>

text \<open>
  When a type implements a trait, as far as the structure of the type tells: a type of \<open>B\<close>
  does, by a \<open>where\<close> clause; a path, an array or a tuple of a shape in \<open>C\<close> does when the types
  inside do; and \<open>PhantomData\<close> does, whatever its argument is. \<open>C\<close> are the implementations
  in scope, those of the library and those of other items.
\<close>

datatype shape = ShapePath bool "ident list" | ShapeArray | ShapeTuple nat

fun segment_types :: "segment \<Rightarrow> ty set option" where
  "segment_types (Segment _ NoArguments) = Some {}"
| "segment_types (Segment _ (AngleBracketed gs)) = Some {t. ArgType t \<in> set gs}"
| "segment_types _ = None"

inductive resolves :: "(shape \<Rightarrow> bool) \<Rightarrow> ty set \<Rightarrow> ty \<Rightarrow> bool" for C B where
  bound: "t \<in> B \<Longrightarrow> resolves C B t"
| applied: "C (ShapePath l (List.map segment_ident segs)) \<Longrightarrow> segs \<noteq> [] \<Longrightarrow>
     \<forall>s\<in>set segs. \<exists>T. segment_types s = Some T \<and> (\<forall>t\<in>T. resolves C B t) \<Longrightarrow> resolves C B (TypePath None (Path l segs))"
| phantom: "segs \<noteq> [] \<Longrightarrow> segment_ident (last segs) = ''PhantomData'' \<Longrightarrow> resolves C B (TypePath None (Path l segs))"
| array: "C ShapeArray \<Longrightarrow> resolves C B t \<Longrightarrow> resolves C B (TypeArray t)"
| tuple: "C (ShapeTuple (length ts)) \<Longrightarrow> \<forall>t\<in>set ts. resolves C B t \<Longrightarrow> resolves C B (TypeTuple ts)"
| paren: "resolves C B t \<Longrightarrow> resolves C B (TypeParen t)"
| group: "resolves C B t \<Longrightarrow> resolves C B (TypeGroup t)"

lemma segment_occurs:
  assumes "segment_types s = Some T" and "t \<in> T" and "occurs_type p t"
  shows "occurs_segment p s"
  using assms by (cases s rule: segment_types.cases) (auto intro: occurs_type_occurs_path_occurs_segment_occurs_arguments_occurs_argument_occurs_bound.intros)

lemma resolves_with_occurring:
  assumes "resolves C (ident_type ` set params) t" and "''PhantomData'' \<notin> set params"
    and "\<And>p. p \<in> set params \<Longrightarrow> occurs_type p t \<Longrightarrow> ident_type p \<in> B"
  shows "resolves C B t"
  using assms(1,3)
proof (induction rule: resolves.induct)
  case (bound t)
  then obtain p where "t = ident_type p" "p \<in> set params" by blast
  moreover from this have "occurs_type p t" using assms(2) by (auto simp: ident_type_def occurs_path_simps)
  ultimately show ?case using bound.prems by (auto intro: resolves.bound)
next
  case (applied l segs)
  show ?case
  proof (cases "segment_ident (last segs) = ''PhantomData''")
    case True
    with applied show ?thesis by (auto intro: resolves.phantom)
  next
    case False
    have "\<exists>T. segment_types s = Some T \<and> (\<forall>t\<in>T. resolves C B t)" if s: "s \<in> set segs" for s
    proof -
      from applied.IH s obtain T where T: "segment_types s = Some T"
        and ih: "\<And>t. t \<in> T \<Longrightarrow> (\<And>p. p \<in> set params \<Longrightarrow> occurs_type p t \<Longrightarrow> ident_type p \<in> B) \<Longrightarrow> resolves C B t" by blast
      have "occurs_type p (TypePath None (Path l segs))" if "t \<in> T" "occurs_type p t" for p t
        using False s segment_occurs [OF T that] applied.hyps(2) by (auto simp: occurs_path_simps)
      with T ih applied.prems show ?thesis by blast
    qed
    with applied.hyps show ?thesis by (auto intro!: resolves.applied)
  qed
qed (auto intro: resolves.intros)

text \<open>
  The types \<open>ts\<close> that a clause demands cover the fields \<open>fs\<close>: a field whose type implements
  the trait once all type parameters do, does so under the clause; and a field whose type is
  a projection of a parameter is demanded itself. They are used by \<open>fs\<close>: each is a parameter
  that occurs in a field, or the type of a field that is a projection of one. Types are compared by their tokens.
\<close>

definition covers :: "(ty \<Rightarrow> string) \<Rightarrow> ident list \<Rightarrow> syn_field list \<Rightarrow> ty list \<Rightarrow> bool" where
  "covers tokens params fs ts \<longleftrightarrow> (\<forall>f\<in>set fs. \<forall>C.
     resolves C (ident_type ` set params) (fld_ty f) \<or> (\<exists>p\<in>set params. first_punctuated (ungroup (fld_ty f)) = Some p) \<longrightarrow>
     resolves C {t. tokens t \<in> tokens ` set ts} (fld_ty f))"

definition used_by :: "(ty \<Rightarrow> string) \<Rightarrow> ident list \<Rightarrow> syn_field list \<Rightarrow> ty list \<Rightarrow> bool" where
  "used_by tokens params fs ts \<longleftrightarrow> (\<forall>t\<in>set ts. \<exists>f\<in>set fs.
     (\<exists>p\<in>set params. tokens t = tokens (ident_type p) \<and> occurs_type p (fld_ty f)) \<or>
     (\<exists>p\<in>set params. first_punctuated (ungroup (fld_ty f)) = Some p) \<and> tokens t = tokens (fld_ty f))"

lemma bounded_types_cover:
  assumes "tokens ` set ts = tokens ` bounded_types params fs" and "''PhantomData'' \<notin> set params"
  shows "covers tokens params fs ts" and "used_by tokens params fs ts"
proof -
  have demanded: "tokens u \<in> tokens ` set ts" if "u \<in> bounded_types params fs" for u using assms(1) that by blast
  show "covers tokens params fs ts"
    unfolding covers_def
  proof (intro ballI allI impI, elim disjE bexE)
    fix f C assume f: "f \<in> set fs" and r: "resolves C (ident_type ` set params) (fld_ty f)"
    show "resolves C {t. tokens t \<in> tokens ` set ts} (fld_ty f)"
      by (rule resolves_with_occurring [OF r assms(2)]) (use f demanded in \<open>auto simp: bounded_types_def\<close>)
  next
    fix f C p assume "f \<in> set fs" "p \<in> set params" "first_punctuated (ungroup (fld_ty f)) = Some p"
    then have "fld_ty f \<in> bounded_types params fs" by (auto simp: bounded_types_def)
    then show "resolves C {t. tokens t \<in> tokens ` set ts} (fld_ty f)" by (auto intro: resolves.bound demanded)
  qed
  show "used_by tokens params fs ts"
    unfolding used_by_def
  proof
    fix t assume "t \<in> set ts"
    then obtain u where "u \<in> bounded_types params fs" "tokens t = tokens u" using assms(1) by (metis image_eqI image_iff)
    then show "\<exists>f\<in>set fs. (\<exists>p\<in>set params. tokens t = tokens (ident_type p) \<and> occurs_type p (fld_ty f)) \<or>
        (\<exists>p\<in>set params. first_punctuated (ungroup (fld_ty f)) = Some p) \<and> tokens t = tokens (fld_ty f)"
      by (auto simp: bounded_types_def)
  qed
qed

subsection \<open>Serialization\<close>

text \<open>The fields for whose types the macro derives bounds.\<close>

definition derives_bounds :: "literal_parsers \<Rightarrow> bound_type \<Rightarrow> syn_field \<Rightarrow> bool" where
  "derives_bounds P t f \<longleftrightarrow> needs_bounds_derive (attrs_of P f) t"

definition explicit_bounds :: "literal_parsers \<Rightarrow> bound_type \<Rightarrow> syn_field list \<Rightarrow> where_predicate list" where
  "explicit_bounds P t fs = concat (List.map (\<lambda>f. collect_bounds (attrs_of P f) t) fs)"

lemma fold_ok_state:
  assumes "fold_ok f xs s = Ok t" and "\<And>x s t. x \<in> set xs \<Longrightarrow> f x s = Ok t \<Longrightarrow> view t = step x (view s)"
  shows "view t = fold step xs (view s)"
  using assms
proof (induction xs arbitrary: s)
  case (Cons x xs)
  then obtain u where "f x s = Ok u" "fold_ok f xs u = Ok t" by (auto simp: and_ok_Ok_iff)
  with Cons.IH [of u] Cons.prems(2) [of x s u] Cons.prems(2) show ?case by simp
qed simp

lemma ser_process_field_generics:
  "ser_process_field P f fid (g, body) = Ok (g', body') \<Longrightarrow> g' = ser_field_bounds f (attrs_of P f) g"
  by (auto simp: ser_process_field_def and_ok_Ok_iff attrs_of_def)

lemma fold_enumerate: "fold (\<lambda>(i, x). h x) (List.enumerate n xs) s = fold h xs s"
  by (induction xs arbitrary: n s) simp_all

lemma ser_struct_generics:
  assumes "ser_struct_fields P flds g = Ok (g', body)"
  shows "g' = fold (\<lambda>f. ser_field_bounds f (attrs_of P f)) (fields_list flds) g"
proof (cases flds)
  case (FieldsNamed fs)
  with assms have "fold_ok (\<lambda>field acc.
      and_ok (unwrap_ident field) (\<lambda>name. ser_process_field P field (IdStruct name) acc)) fs (g, []) = Ok (g', body)"
    by (simp add: ser_struct_fields_def)
  then have "fst (g', body) = fold (\<lambda>f. ser_field_bounds f (attrs_of P f)) fs (fst (g, [] :: ser_call list))"
    by (rule fold_ok_state) (auto simp: and_ok_Ok_iff dest: ser_process_field_generics)
  with FieldsNamed show ?thesis by simp
next
  case (FieldsUnnamed fs)
  with assms have "fold_ok (\<lambda>(field_idx, field) acc.
      and_ok (new_struct_unnamed field_idx) (\<lambda>field_id. ser_process_field P field field_id acc))
      (List.enumerate 0 fs) (g, []) = Ok (g', body)"
    by (simp add: ser_struct_fields_def)
  then have "fst (g', body) = fold (\<lambda>(i, f). ser_field_bounds f (attrs_of P f)) (List.enumerate 0 fs) (fst (g, [] :: ser_call list))"
    by (rule fold_ok_state) (auto simp: and_ok_Ok_iff dest: ser_process_field_generics)
  with FieldsUnnamed show ?thesis by (simp add: fold_enumerate)
next
  case FieldsUnit
  with assms show ?thesis by (simp add: ser_struct_fields_def)
qed

lemma ser_bounds_fold:
  "serialize_visitor (fold (\<lambda>f. ser_field_bounds f (attrs_of P f)) fs g) =
     fold visit_field (filter (\<lambda>f. \<not> at_skip (attrs_of P f) \<and> derives_bounds P BoundSerialize f) fs) (serialize_visitor g)"
  "ser_overrides (fold (\<lambda>f. ser_field_bounds f (attrs_of P f)) fs g) = ser_overrides g @ explicit_bounds P BoundSerialize fs"
  by (induction fs arbitrary: g) (simp_all add: ser_field_bounds_def Let_def derives_bounds_def explicit_bounds_def)

text \<open>The clause, from the fields that were visited.\<close>

definition ser_clause ::
  "literal_parsers \<Rightarrow> (ty \<Rightarrow> string) \<Rightarrow> string \<Rightarrow> generics \<Rightarrow> syn_field list \<Rightarrow> ty list \<Rightarrow> where_predicate list" where
  "ser_clause P tokens cr g fs ts = default_where (gen_where g) @
     compute_predicates ts (cr @ ''::ser::BorshSerialize'') @ explicit_bounds P BoundSerialize fs"

lemma ser_extend_bounds:
  assumes go: "go = fold (\<lambda>f. ser_field_bounds f (attrs_of P f)) fs (ser_generics_new (without_defaults g))"
  shows "\<exists>ts. ser_generics_extend tokens cr go (default_where (gen_where (without_defaults g))) = ser_clause P tokens cr g fs ts \<and>
    distinct (List.map tokens ts) \<and>
    tokens ` set ts = tokens ` bounded_types (type_params (without_defaults g))
      (filter (\<lambda>f. \<not> at_skip (attrs_of P f) \<and> derives_bounds P BoundSerialize f) fs)"
proof -
  let ?g = "without_defaults g" and ?fs = "filter (\<lambda>f. \<not> at_skip (attrs_of P f) \<and> derives_bounds P BoundSerialize f) fs"
  have v: "serialize_visitor go = fold visit_field ?fs (find_new ?g)"
    unfolding go ser_bounds_fold by (simp add: ser_generics_new_def)
  have o: "ser_overrides go = explicit_bounds P BoundSerialize fs"
    unfolding go ser_bounds_fold by (simp add: ser_generics_new_def)
  have "ser_generics_extend tokens cr go (default_where (gen_where ?g)) =
      ser_clause P tokens cr g fs (process_for_bounds tokens (serialize_visitor go))"
    by (simp add: ser_clause_def ser_generics_extend_def Let_def o without_defaults_def)
  moreover note visited_bounds [of "find_new ?g" tokens ?fs, folded v]
  ultimately show ?thesis by (auto simp: find_new_def)
qed

lemma ser_struct_bounds:
  assumes "ser_struct_process P tokens cr input = Ok code"
  shows "\<exists>ts. ss_where code = ser_clause P tokens cr (st_generics input) (fields_list (st_fields input)) ts \<and>
    distinct (List.map tokens ts) \<and>
    tokens ` set ts = tokens ` bounded_types (type_params (without_defaults (st_generics input)))
      (filter (\<lambda>f. \<not> at_skip (attrs_of P f) \<and> derives_bounds P BoundSerialize f) (fields_list (st_fields input)))"
proof -
  let ?g = "without_defaults (st_generics input)"
  from assms obtain go where f: "ser_struct_fields P (st_fields input) (ser_generics_new ?g) = Ok (go, ss_body code)"
    and code: "ss_where code = ser_generics_extend tokens cr go (default_where (gen_where ?g))"
    by (auto simp: ser_struct_process_def Let_def and_ok_Ok_iff)
  from ser_extend_bounds [OF ser_struct_generics [OF f]] show ?thesis unfolding code .
qed

text \<open>For an enum the fields of all its variants are visited, in their order.\<close>

definition enum_fields :: "item_enum \<Rightarrow> syn_field list" where
  "enum_fields input = concat (List.map (\<lambda>v. fields_list (var_fields v)) (en_variants input))"

lemma fold_concat_map: "fold f (concat (List.map g xs)) s = fold (\<lambda>x. fold f (g x)) xs s"
  by (induction xs arbitrary: s) simp_all

lemma ser_enum_process_field_generics:
  "ser_enum_process_field P f fid (g, vf) = Ok (g', vf') \<Longrightarrow> g' = ser_field_bounds f (attrs_of P f) g"
  by (auto simp: ser_enum_process_field_def and_ok_Ok_iff attrs_of_def)

lemma ser_variant_generics:
  assumes "ser_process_variant P v g = Ok (g', body)"
  shows "g' = fold (\<lambda>f. ser_field_bounds f (attrs_of P f)) (fields_list (var_fields v)) g"
proof (cases "var_fields v")
  case (FieldsNamed fs)
  with assms obtain vf where "fold_ok (\<lambda>field acc. and_ok (unwrap_ident field) (\<lambda>name.
      ser_enum_process_field P field (IdEnum name) acc)) fs (g, \<lparr>vf_header = [], vf_body = []\<rparr>) = Ok (g', vf)"
    by (auto simp: ser_process_variant_def and_ok_Ok_iff)
  then have "fst (g', vf) = fold (\<lambda>f. ser_field_bounds f (attrs_of P f)) fs (fst (g, \<lparr>vf_header = [], vf_body = []\<rparr>))"
    by (rule fold_ok_state) (auto simp: and_ok_Ok_iff dest: ser_enum_process_field_generics)
  with FieldsNamed show ?thesis by simp
next
  case (FieldsUnnamed fs)
  with assms obtain vf where "fold_ok (\<lambda>(field_idx, field) acc. and_ok (new_enum_unnamed field_idx) (\<lambda>field_id.
      ser_enum_process_field P field field_id acc)) (List.enumerate 0 fs) (g, \<lparr>vf_header = [], vf_body = []\<rparr>) = Ok (g', vf)"
    by (auto simp: ser_process_variant_def and_ok_Ok_iff)
  then have "fst (g', vf) =
      fold (\<lambda>(i, f). ser_field_bounds f (attrs_of P f)) (List.enumerate 0 fs) (fst (g, \<lparr>vf_header = [], vf_body = []\<rparr>))"
    by (rule fold_ok_state) (auto simp: and_ok_Ok_iff dest: ser_enum_process_field_generics)
  with FieldsUnnamed show ?thesis by (simp add: fold_enumerate)
next
  case FieldsUnit
  with assms show ?thesis by (simp add: ser_process_variant_def)
qed

lemma ser_enum_variant_generics:
  assumes "ser_enum_variant P D u (i, v) acc = Ok acc'"
  shows "sa_generics acc' = fold (\<lambda>f. ser_field_bounds f (attrs_of P f)) (fields_list (var_fields v)) (sa_generics acc)"
proof -
  from assms obtain d r where "discriminants_get D (var_ident v) u i = Ok d" and r: "ser_process_variant P v (sa_generics acc) = Ok r"
    by (auto simp: ser_enum_variant_def and_ok_Ok_iff)
  obtain g body where g: "r = (g, body)" by (cases r)
  with assms r have "sa_generics acc' = g"
    by (cases body) (auto simp: ser_enum_variant_def and_ok_Ok_iff Let_def)
  with ser_variant_generics r g show ?thesis by simp
qed

lemma ser_enum_bounds:
  assumes "ser_enum_process P tokens cr input = Ok code"
  shows "\<exists>ts. se_where code = ser_clause P tokens cr (en_generics input) (enum_fields input) ts \<and>
    distinct (List.map tokens ts) \<and>
    tokens ` set ts = tokens ` bounded_types (type_params (without_defaults (en_generics input)))
      (filter (\<lambda>f. \<not> at_skip (attrs_of P f) \<and> derives_bounds P BoundSerialize f) (enum_fields input))"
proof -
  let ?g = "without_defaults (en_generics input)" and ?vs = "List.enumerate 0 (en_variants input)"
  from assms obtain u acc where f: "fold_ok (ser_enum_variant P (discriminants_new (en_variants input)) u) ?vs
      \<lparr>sa_generics = ser_generics_new ?g, sa_idx_arms = [], sa_fields_body = [], sa_has_unit = False\<rparr> = Ok acc"
    and code: "se_where code = ser_generics_extend tokens cr (sa_generics acc) (default_where (gen_where ?g))"
    by (auto simp: ser_enum_process_def Let_def and_ok_Ok_iff)
  have "sa_generics acc = fold (\<lambda>(i, v). fold (\<lambda>f. ser_field_bounds f (attrs_of P f)) (fields_list (var_fields v))) ?vs
      (sa_generics \<lparr>sa_generics = ser_generics_new ?g, sa_idx_arms = [], sa_fields_body = [], sa_has_unit = False\<rparr>)"
    by (rule fold_ok_state [OF f]) (auto dest: ser_enum_variant_generics)
  then have "sa_generics acc = fold (\<lambda>f. ser_field_bounds f (attrs_of P f)) (enum_fields input) (ser_generics_new ?g)"
    by (simp add: fold_enumerate enum_fields_def fold_concat_map)
  from ser_extend_bounds [OF this] show ?thesis unfolding code .
qed

subsection \<open>Deserialization\<close>

definition de_field_generics :: "literal_parsers \<Rightarrow> syn_field \<Rightarrow> de_generics \<Rightarrow> de_generics" where
  "de_field_generics P f g =
     g\<lparr>de_overrides := de_overrides g @ collect_bounds (attrs_of P f) BoundDeserialize,
       default_visitor := (if at_skip (attrs_of P f) \<and> derives_bounds P BoundDeserialize f
         then visit_field f (default_visitor g) else default_visitor g),
       deserialize_visitor := (if \<not> at_skip (attrs_of P f) \<and> derives_bounds P BoundDeserialize f
         then visit_field f (deserialize_visitor g) else deserialize_visitor g)\<rparr>"

lemma de_process_field_generics: "de_process_field P f s = Ok t \<Longrightarrow> fst t = de_field_generics P f (fst s)"
  by (cases s) (auto simp: de_process_field_def and_ok_Ok_iff attrs_of_def Let_def de_field_generics_def derives_bounds_def
      split: if_splits)

lemma de_bounds_fold:
  "deserialize_visitor (fold (de_field_generics P) fs g) =
     fold visit_field (filter (\<lambda>f. \<not> at_skip (attrs_of P f) \<and> derives_bounds P BoundDeserialize f) fs) (deserialize_visitor g)"
  "default_visitor (fold (de_field_generics P) fs g) =
     fold visit_field (filter (\<lambda>f. at_skip (attrs_of P f) \<and> derives_bounds P BoundDeserialize f) fs) (default_visitor g)"
  "de_overrides (fold (de_field_generics P) fs g) = de_overrides g @ explicit_bounds P BoundDeserialize fs"
  by (induction fs arbitrary: g) (simp_all add: de_field_generics_def explicit_bounds_def)

definition de_clause ::
  "literal_parsers \<Rightarrow> (ty \<Rightarrow> string) \<Rightarrow> string \<Rightarrow> generics \<Rightarrow> syn_field list \<Rightarrow> ty list \<Rightarrow> ty list \<Rightarrow> where_predicate list" where
  "de_clause P tokens cr g fs ts ds = default_where (gen_where g) @
     compute_predicates ts (cr @ ''::de::BorshDeserialize'') @ compute_predicates ds ''core::default::Default'' @
     explicit_bounds P BoundDeserialize fs"

lemma de_extend_bounds:
  assumes go: "go = fold (de_field_generics P) fs (de_generics_new (without_defaults g))"
  shows "\<exists>ts ds. de_generics_extend tokens cr go (default_where (gen_where (without_defaults g))) = de_clause P tokens cr g fs ts ds \<and>
    tokens ` set ts = tokens ` bounded_types (type_params (without_defaults g))
      (filter (\<lambda>f. \<not> at_skip (attrs_of P f) \<and> derives_bounds P BoundDeserialize f) fs) \<and>
    tokens ` set ds = tokens ` bounded_types (type_params (without_defaults g))
      (filter (\<lambda>f. at_skip (attrs_of P f) \<and> derives_bounds P BoundDeserialize f) fs)"
proof -
  let ?g = "without_defaults g"
  let ?read = "filter (\<lambda>f. \<not> at_skip (attrs_of P f) \<and> derives_bounds P BoundDeserialize f) fs"
  let ?skipped = "filter (\<lambda>f. at_skip (attrs_of P f) \<and> derives_bounds P BoundDeserialize f) fs"
  have v: "deserialize_visitor go = fold visit_field ?read (find_new ?g)"
      "default_visitor go = fold visit_field ?skipped (find_new ?g)" "de_overrides go = explicit_bounds P BoundDeserialize fs"
    unfolding go de_bounds_fold by (simp_all add: de_generics_new_def)
  have "de_generics_extend tokens cr go (default_where (gen_where ?g)) =
      de_clause P tokens cr g fs (process_for_bounds tokens (deserialize_visitor go)) (process_for_bounds tokens (default_visitor go))"
    by (simp add: de_clause_def de_generics_extend_def Let_def v(3) without_defaults_def)
  moreover note visited_bounds(2) [of "find_new ?g" tokens ?read, folded v(1)]
    visited_bounds(2) [of "find_new ?g" tokens ?skipped, folded v(2)]
  ultimately show ?thesis by (auto simp: find_new_def)
qed

lemma de_struct_bounds:
  assumes "de_struct_process P parse_path tokens cr input = Ok code"
  shows "\<exists>ts ds. ds_where code = de_clause P tokens cr (st_generics input) (fields_list (st_fields input)) ts ds \<and>
    tokens ` set ts = tokens ` bounded_types (type_params (without_defaults (st_generics input)))
      (filter (\<lambda>f. \<not> at_skip (attrs_of P f) \<and> derives_bounds P BoundDeserialize f) (fields_list (st_fields input))) \<and>
    tokens ` set ds = tokens ` bounded_types (type_params (without_defaults (st_generics input)))
      (filter (\<lambda>f. at_skip (attrs_of P f) \<and> derives_bounds P BoundDeserialize f) (fields_list (st_fields input)))"
proof -
  let ?g = "without_defaults (st_generics input)" and ?fs = "fields_list (st_fields input)"
  from assms obtain go where f: "fold_ok (de_process_field P) ?fs (de_generics_new ?g, []) = Ok (go, ds_fields code)"
    and code: "ds_where code = de_generics_extend tokens cr go (default_where (gen_where ?g))"
    by (auto simp: de_struct_process_def Let_def and_ok_Ok_iff)
  have "go = fold (de_field_generics P) ?fs (de_generics_new ?g)"
    using fold_ok_state [OF f, where view = fst] de_process_field_generics by fastforce
  from de_extend_bounds [OF this] show ?thesis unfolding code .
qed

lemma de_variant_generics:
  assumes "de_process_variant P v g = Ok (g', es)"
  shows "g' = fold (de_field_generics P) (fields_list (var_fields v)) g"
proof -
  have "fst (g', es) = fold (de_field_generics P) (fields_list (var_fields v)) (fst (g, [] :: de_entry list))"
    by (rule fold_ok_state [OF assms [unfolded de_process_variant_def]]) (rule de_process_field_generics)
  then show ?thesis by simp
qed

lemma de_enum_bounds:
  assumes "de_enum_process P parse_path tokens cr input = Ok code"
  shows "\<exists>ts ds. de_where code = de_clause P tokens cr (en_generics input) (enum_fields input) ts ds \<and>
    tokens ` set ts = tokens ` bounded_types (type_params (without_defaults (en_generics input)))
      (filter (\<lambda>f. \<not> at_skip (attrs_of P f) \<and> derives_bounds P BoundDeserialize f) (enum_fields input)) \<and>
    tokens ` set ds = tokens ` bounded_types (type_params (without_defaults (en_generics input)))
      (filter (\<lambda>f. at_skip (attrs_of P f) \<and> derives_bounds P BoundDeserialize f) (enum_fields input))"
proof -
  let ?g = "without_defaults (en_generics input)" and ?vs = "List.enumerate 0 (en_variants input)"
  from assms obtain u go where f: "fold_ok (de_enum_variant P (discriminants_new (en_variants input)) u) ?vs
      (de_generics_new ?g, []) = Ok (go, de_arms code)"
    and code: "de_where code = de_generics_extend tokens cr go (default_where (gen_where ?g))"
    by (auto simp: de_enum_process_def Let_def and_ok_Ok_iff)
  have "fst (go, de_arms code) = fold (\<lambda>(i, v). fold (de_field_generics P) (fields_list (var_fields v))) ?vs
      (fst (de_generics_new ?g, [] :: (token list \<times> ident \<times> de_entry list) list))"
    by (rule fold_ok_state [OF f]) (auto simp: de_enum_variant_def and_ok_Ok_iff dest: de_variant_generics)
  then have "go = fold (de_field_generics P) (enum_fields input) (de_generics_new ?g)"
    by (simp add: fold_enumerate enum_fields_def fold_concat_map)
  from de_extend_bounds [OF this] show ?thesis unfolding code .
qed

end
