(* ===== verification/Derive_Enums.thy ===== *)
theory Derive_Enums
  imports Derive_Codec
begin

section \<open>Derived code for enums\<close>

text \<open>
  What the loops over the variants accumulate, and the arm that a value or a tag selects.
  The tag of a variant is its position, or its discriminant under
  \<open>#[borsh(use_discriminant = true)]\<close>; \<open>enum_accepted\<close> are the conditions under which the
  compiler takes the enum and the generated code.
\<close>

subsection \<open>The arms\<close>

definition discriminant_tokens :: "(ident \<rightharpoonup> token list) \<Rightarrow> bool \<Rightarrow> nat \<times> variant \<Rightarrow> token list" where
  "discriminant_tokens D u = (\<lambda>(i, v).
     case discriminants_get D (var_ident v) u i of Ok ts \<Rightarrow> ts | _ \<Rightarrow> [])"

definition header_of :: "literal_parsers \<Rightarrow> syn_fields \<Rightarrow> ident list" where
  "header_of P flds = concat (List.map (field_header P) (zip (enum_ids flds) (fields_list flds)))"

definition calls_of :: "literal_parsers \<Rightarrow> syn_fields \<Rightarrow> ser_call list" where
  "calls_of P flds = concat (List.map (field_calls P) (zip (enum_ids flds) (fields_list flds)))"

fun pattern_of :: "literal_parsers \<Rightarrow> syn_fields \<Rightarrow> pattern" where
  "pattern_of P (FieldsNamed fs) = PatNamed (header_of P (FieldsNamed fs))"
| "pattern_of P flds = PatUnnamed (header_of P flds)"

definition variant_arm :: "literal_parsers \<Rightarrow> variant \<Rightarrow> ident \<times> pattern \<times> ser_call list" where
  "variant_arm P v = (var_ident v, pattern_of P (var_fields v), calls_of P (var_fields v))"

lemma fold_ok_flag:
  assumes "fold_ok f xs s = Ok t" and "\<And>x s t. x \<in> set xs \<Longrightarrow> f x s = Ok t \<Longrightarrow> p t \<longleftrightarrow> p s \<or> q x"
  shows "p t \<longleftrightarrow> p s \<or> (\<exists>x\<in>set xs. q x)"
  using assms
proof (induction xs arbitrary: s)
  case (Cons x xs)
  then obtain u where "f x s = Ok u" "fold_ok f xs u = Ok t" by (auto simp: and_ok_Ok_iff)
  with Cons.IH [of u] Cons.prems(2) [of x s u] Cons.prems(2) show ?case by auto
qed simp

lemma fold_ok_each: "fold_ok f xs s = Ok t \<Longrightarrow> x \<in> set xs \<Longrightarrow> \<exists>a b. f x a = Ok b"
  by (induction xs arbitrary: s) (auto simp: and_ok_Ok_iff)

lemma ser_enum_variant_step:
  assumes "ser_enum_variant P D u (i, v) s = Ok t"
  shows "sa_idx_arms t = sa_idx_arms s @ [(var_ident v, discriminant_tokens D u (i, v))]"
    and "sa_fields_body t = sa_fields_body s @ (if var_fields v = FieldsUnit then [] else [variant_arm P v])"
    and "sa_has_unit t \<longleftrightarrow> sa_has_unit s \<or> var_fields v = FieldsUnit"
    and "discriminants_get D (var_ident v) u i = Ok (discriminant_tokens D u (i, v))"
proof -
  from assms obtain d g body where d: "discriminants_get D (var_ident v) u i = Ok d"
    and p: "ser_process_variant P v (sa_generics s) = Ok (g, body)"
    and t: "t = (let acc' = s\<lparr>sa_generics := g, sa_idx_arms := sa_idx_arms s @ [(var_ident v, d)]\<rparr>
       in case body of
            BodyUnit \<Rightarrow> acc'\<lparr>sa_has_unit := True\<rparr>
          | BodyFields header calls \<Rightarrow> acc'\<lparr>sa_fields_body := sa_fields_body acc' @ [(var_ident v, header, calls)]\<rparr>)"
    by (auto simp: ser_enum_variant_def and_ok_Ok_iff Let_def)
  note body = ser_process_variant_body [OF p]
  show "sa_idx_arms t = sa_idx_arms s @ [(var_ident v, discriminant_tokens D u (i, v))]"
    using t d by (cases body) (simp_all add: discriminant_tokens_def)
  show "sa_fields_body t = sa_fields_body s @ (if var_fields v = FieldsUnit then [] else [variant_arm P v])"
    and "sa_has_unit t \<longleftrightarrow> sa_has_unit s \<or> var_fields v = FieldsUnit"
    using t body by (cases "var_fields v"; simp add: variant_arm_def header_of_def calls_of_def)+
  show "discriminants_get D (var_ident v) u i = Ok (discriminant_tokens D u (i, v))"
    using d by (simp add: discriminant_tokens_def)
qed

lemma concat_enumerate_snd: "concat (List.map (\<lambda>(i, x). g x) (List.enumerate n xs)) = concat (List.map g xs)"
  by (induction xs arbitrary: n) simp_all

lemma map_enumerate_snd: "List.map (\<lambda>x. g (snd x)) (List.enumerate n xs) = List.map g xs"
  by (induction xs arbitrary: n) simp_all

lemma ser_enum_arms:
  assumes "ser_enum_process P tokens cr input = Ok code"
  obtains u where "contains_use_discriminant input = Ok u"
    and "se_idx_arms code = List.map (\<lambda>x. (var_ident (snd x), discriminant_tokens (discriminants_new (en_variants input)) u x))
      (List.enumerate 0 (en_variants input))"
    and "se_match code = optimize_fields_body
      (List.map (variant_arm P) (filter (\<lambda>v. var_fields v \<noteq> FieldsUnit) (en_variants input)))
      (\<exists>v\<in>set (en_variants input). var_fields v = FieldsUnit)"
    and "\<forall>x\<in>set (List.enumerate 0 (en_variants input)). discriminants_get (discriminants_new (en_variants input))
      (var_ident (snd x)) u (fst x) = Ok (discriminant_tokens (discriminants_new (en_variants input)) u x)"
proof -
  let ?vs = "en_variants input" and ?D = "discriminants_new (en_variants input)"
  define s where "s = \<lparr>sa_generics = ser_generics_new (without_defaults (en_generics input)),
    sa_idx_arms = [], sa_fields_body = [], sa_has_unit = False\<rparr>"
  from assms obtain u acc where u: "contains_use_discriminant input = Ok u"
    and f: "fold_ok (ser_enum_variant P ?D u) (List.enumerate 0 ?vs) s = Ok acc"
    and code: "se_idx_arms code = sa_idx_arms acc" "se_match code = optimize_fields_body (sa_fields_body acc) (sa_has_unit acc)"
    by (fastforce simp: ser_enum_process_def Let_def and_ok_Ok_iff s_def)
  have s: "sa_idx_arms s = []" "sa_fields_body s = []" "\<not> sa_has_unit s" by (simp_all add: s_def)
  have step: "ser_enum_variant P ?D u x s = Ok t \<Longrightarrow>
      sa_idx_arms t = sa_idx_arms s @ [(var_ident (snd x), discriminant_tokens ?D u x)] \<and>
      sa_fields_body t = sa_fields_body s @ (\<lambda>(i, v). if var_fields v = FieldsUnit then [] else [variant_arm P v]) x \<and>
      (sa_has_unit t \<longleftrightarrow> sa_has_unit s \<or> var_fields (snd x) = FieldsUnit) \<and>
      discriminants_get ?D (var_ident (snd x)) u (fst x) = Ok (discriminant_tokens ?D u x)" for x s t
    using ser_enum_variant_step by (cases x) auto
  have "sa_idx_arms acc = sa_idx_arms s @ concat (List.map (\<lambda>x. [(var_ident (snd x), discriminant_tokens ?D u x)])
      (List.enumerate 0 ?vs))"
    by (rule fold_ok_appends [OF f]) (use step in blast)
  then have arms: "se_idx_arms code = List.map (\<lambda>x. (var_ident (snd x), discriminant_tokens ?D u x)) (List.enumerate 0 ?vs)"
    by (simp add: code s concat_map_singleton)
  have "sa_fields_body acc = sa_fields_body s @ concat (List.map
      (\<lambda>(i, v). if var_fields v = FieldsUnit then [] else [variant_arm P v]) (List.enumerate 0 ?vs))"
    by (rule fold_ok_appends [OF f]) (use step in blast)
  moreover have "concat (List.map (\<lambda>v. if var_fields v = FieldsUnit then [] else [variant_arm P v]) vs) =
      List.map (variant_arm P) (filter (\<lambda>v. var_fields v \<noteq> FieldsUnit) vs)" for vs
    by (induction vs) simp_all
  ultimately have body: "sa_fields_body acc = List.map (variant_arm P) (filter (\<lambda>v. var_fields v \<noteq> FieldsUnit) ?vs)"
    by (simp add: s concat_enumerate_snd)
  have "sa_has_unit acc \<longleftrightarrow> sa_has_unit s \<or> (\<exists>x\<in>set (List.enumerate 0 ?vs). var_fields (snd x) = FieldsUnit)"
    by (rule fold_ok_flag [OF f]) (use step in blast)
  then have "sa_has_unit acc \<longleftrightarrow> (\<exists>v\<in>set ?vs. var_fields v = FieldsUnit)"
    by (metis (no_types, lifting) s(3) image_iff map_snd_enumerate set_map)
  with body code have match: "se_match code = optimize_fields_body
      (List.map (variant_arm P) (filter (\<lambda>v. var_fields v \<noteq> FieldsUnit) ?vs)) (\<exists>v\<in>set ?vs. var_fields v = FieldsUnit)"
    by simp
  have "\<forall>x\<in>set (List.enumerate 0 ?vs). discriminants_get ?D (var_ident (snd x)) u (fst x) = Ok (discriminant_tokens ?D u x)"
  proof
    fix x assume "x \<in> set (List.enumerate 0 ?vs)"
    with fold_ok_each [OF f] obtain a b where "ser_enum_variant P ?D u x a = Ok b" by blast
    with step show "discriminants_get ?D (var_ident (snd x)) u (fst x) = Ok (discriminant_tokens ?D u x)" by blast
  qed
  with that u arms match show ?thesis by blast
qed

lemma de_enum_arms:
  assumes "de_enum_process P parse_path tokens cr input = Ok code" and "contains_use_discriminant input = Ok u"
  shows "de_arms code = List.map (\<lambda>x. (discriminant_tokens (discriminants_new (en_variants input)) u x, var_ident (snd x),
      List.map (field_entry P) (fields_list (var_fields (snd x))))) (List.enumerate 0 (en_variants input))"
    and "\<forall>x\<in>set (List.enumerate 0 (en_variants input)). discriminants_get (discriminants_new (en_variants input))
      (var_ident (snd x)) u (fst x) = Ok (discriminant_tokens (discriminants_new (en_variants input)) u x)"
proof -
  let ?D = "discriminants_new (en_variants input)"
  from assms obtain g g' where f: "fold_ok (de_enum_variant P ?D u) (List.enumerate 0 (en_variants input)) (g, []) =
      Ok (g', de_arms code)"
    by (auto simp: de_enum_process_def Let_def and_ok_Ok_iff)
  have step: "snd t = snd s @ [(discriminant_tokens ?D u x, var_ident (snd x),
        List.map (field_entry P) (fields_list (var_fields (snd x))))] \<and>
      discriminants_get ?D (var_ident (snd x)) u (fst x) = Ok (discriminant_tokens ?D u x)"
    if step: "de_enum_variant P ?D u x s = Ok t" for x s t
  proof -
    obtain i v where x: "x = (i, v)" by (cases x)
    obtain g arms where s: "s = (g, arms)" by (cases s)
    from step x s obtain g' body d where "de_process_variant P v g = Ok (g', body)"
      and "discriminants_get ?D (var_ident v) u i = Ok d" and "t = (g', arms @ [(d, var_ident v, body)])"
      by (auto simp: de_enum_variant_def and_ok_Ok_iff)
    then show ?thesis
      using de_fields_entries by (simp add: x s discriminant_tokens_def de_process_variant_def)
  qed
  have "snd (g', de_arms code) = snd (g, []) @ concat (List.map (\<lambda>x. [(discriminant_tokens ?D u x, var_ident (snd x),
      List.map (field_entry P) (fields_list (var_fields (snd x))))]) (List.enumerate 0 (en_variants input)))"
    by (rule fold_ok_appends [OF f]) (use step in blast)
  then show "de_arms code = List.map (\<lambda>x. (discriminant_tokens ?D u x, var_ident (snd x),
      List.map (field_entry P) (fields_list (var_fields (snd x))))) (List.enumerate 0 (en_variants input))"
    by (simp add: concat_map_singleton)
  show "\<forall>x\<in>set (List.enumerate 0 (en_variants input)).
      discriminants_get ?D (var_ident (snd x)) u (fst x) = Ok (discriminant_tokens ?D u x)"
    using fold_ok_each [OF f] step by blast
qed

subsection \<open>Tags\<close>

text \<open>The tag that the declaration gives to a variant.\<close>

definition declared_tag :: "variant list \<Rightarrow> bool \<Rightarrow> nat \<times> variant \<Rightarrow> int option" where
  "declared_tag vs u = (\<lambda>(i, v).
     if u then Option.bind (compiler_discriminants vs) (\<lambda>M. M (var_ident v)) else Some (int i))"

text \<open>
  What the compiler demands of the discriminants of an enum that is used with \<open>u8\<close> tags:
  they fit and are different. \<open>additive\<close> is the condition under which the macro agrees.
\<close>

definition discriminants_accepted :: "variant list \<Rightarrow> bool" where
  "discriminants_accepted vs \<longleftrightarrow>
     (\<forall>v\<in>set vs. case var_discriminant v of None \<Rightarrow> True | Some ts \<Rightarrow>
        (case parse_tokens ts of None \<Rightarrow> False | Some e \<Rightarrow> additive e)) \<and>
     (\<forall>v\<in>set vs. case declared_tag vs True (0, v) of None \<Rightarrow> False | Some n \<Rightarrow> 0 \<le> n \<and> n < 256) \<and>
     distinct (List.map (\<lambda>v. declared_tag vs True (0, v)) vs)"

definition enum_accepted :: "literal_parsers \<Rightarrow> variant list \<Rightarrow> bool" where
  "enum_accepted P vs \<longleftrightarrow> distinct (List.map var_ident vs) \<and>
     (\<forall>v\<in>set vs. fields_wf (var_fields v) \<and>
        (\<forall>f\<in>set (fields_list (var_fields v)). fld_ident f = Some ''writer'' \<longrightarrow> at_skip (attrs_of P f)))"

lemma tag_of_literal: "i < 256 \<Longrightarrow> tag_of [TNum (int i)] = Some (word_of_int (int i))"
  by (simp add: tag_of_def token_value_def parse_tokens_def collapse_def)

lemma tag_of_tokens:
  assumes "u \<longrightarrow> discriminants_accepted vs" and "x \<in> set (List.enumerate 0 vs)"
    and "discriminants_get (discriminants_new vs) (var_ident (snd x)) u (fst x) = Ok (discriminant_tokens (discriminants_new vs) u x)"
  shows "\<exists>n. declared_tag vs u x = Some n \<and> 0 \<le> n \<and> n < 256 \<and>
    tag_of (discriminant_tokens (discriminants_new vs) u x) = Some (word_of_int n)"
proof -
  obtain i v where x: "x = (i, v)" by (cases x)
  with assms(2) have v: "v \<in> set vs" by (auto simp: in_set_enumerate_eq)
  show ?thesis
  proof (cases u)
    case False
    with assms(3) x have "i < 256" "discriminant_tokens (discriminants_new vs) u x = [TNum (int i)]"
      by (auto simp: discriminants_get_def split: if_splits)
    with False x show ?thesis by (simp add: declared_tag_def tag_of_literal)
  next
    case True
    with assms(1) have acc: "discriminants_accepted vs" by simp
    then have "\<forall>v\<in>set vs. \<forall>ts. var_discriminant v = Some ts \<longrightarrow> (\<exists>e. parse_tokens ts = Some e \<and> additive e)"
      by (fastforce simp: discriminants_accepted_def split: option.splits)
    from discriminants_agree_impl [OF this] obtain M where M: "compiler_discriminants vs = Some M"
      and agree: "\<And>i ts. discriminants_new vs i = Some ts \<Longrightarrow> token_value ts = M i" by blast
    from assms(3) x True have tokens: "discriminants_new vs (var_ident v) = Some (discriminant_tokens (discriminants_new vs) u x)"
      by (auto simp: discriminants_get_def split: if_splits option.splits)
    have d: "declared_tag vs True (k, v) = M (var_ident v)" for k by (simp add: declared_tag_def M)
    from acc v have "case declared_tag vs True (0, v) of None \<Rightarrow> False | Some n \<Rightarrow> 0 \<le> n \<and> n < 256"
      by (simp add: discriminants_accepted_def)
    then obtain n where n: "M (var_ident v) = Some n" "0 \<le> n" "n < 256"
      unfolding d by (auto split: option.splits)
    with agree [OF tokens] d True x show ?thesis by (simp add: tag_of_def)
  qed
qed

lemma enumerated: "x \<in> set (List.enumerate 0 xs) \<Longrightarrow> snd x = xs ! fst x \<and> fst x < length xs \<and> snd x \<in> set xs"
  by (cases x) (auto simp: in_set_enumerate_eq)

lemma declared_tag_inj:
  assumes "u \<longrightarrow> discriminants_accepted vs" and "x \<in> set (List.enumerate 0 vs)" and "y \<in> set (List.enumerate 0 vs)"
    and "declared_tag vs u x = declared_tag vs u y"
  shows "x = y"
proof -
  obtain i where x: "x = (i, vs ! i)" "i < length vs" using enumerated [OF assms(2)] by (metis prod.collapse)
  obtain j where y: "y = (j, vs ! j)" "j < length vs" using enumerated [OF assms(3)] by (metis prod.collapse)
  note xy = x(1) y(1) x(2) y(2)
  have "i = j"
  proof (cases u)
    case True
    with assms(1) have "distinct (List.map (\<lambda>v. declared_tag vs True (0, v)) vs)" by (simp add: discriminants_accepted_def)
    moreover have "List.map (\<lambda>v. declared_tag vs True (0, v)) vs ! i = List.map (\<lambda>v. declared_tag vs True (0, v)) vs ! j"
      using assms(4) True xy by (simp add: declared_tag_def)
    ultimately show ?thesis using nth_eq_iff_index_eq xy(3,4) by (metis length_map)
  next
    case False
    with assms(4) xy show ?thesis by (simp add: declared_tag_def)
  qed
  with xy show ?thesis by simp
qed

lemma small_word_inj: "0 \<le> m \<Longrightarrow> m < 256 \<Longrightarrow> 0 \<le> n \<Longrightarrow> n < 256 \<Longrightarrow> (word_of_int m :: u8) = word_of_int n \<longleftrightarrow> m = n"
  by (auto simp: word_of_int_eq_iff take_bit_int_eq_self)

subsection \<open>What a variant writes and what a tag selects\<close>

lemma variant_resolves:
  assumes "fields_wf flds" and "length vals = length (fields_list flds)" and "flds \<noteq> FieldsUnit"
    and "\<forall>f\<in>set (fields_list flds). fld_ident f = Some ''writer'' \<longrightarrow> at_skip (attrs_of P f)"
  shows "resolves P (pattern_scope (pattern_of P flds) flds vals) (enum_ids flds) (fields_list flds) vals"
proof (cases flds)
  case (FieldsNamed fs)
  with named_pattern_resolves [of fs vals P, OF _ _ _ refl] assms show ?thesis by (simp add: header_of_def)
next
  case (FieldsUnnamed fs)
  with unnamed_pattern_resolves [of vals fs _ P, OF _ refl] assms show ?thesis by (simp add: header_of_def)
qed (use assms(3) in simp)

lemma map_of_position:
  assumes "distinct (List.map key xs)" and "x \<in> set xs"
  shows "map_of (List.map (\<lambda>x. (key x, g x)) xs) (key x) = Some (g x)"
  using assms by (intro map_of_is_SomeI) (auto simp: comp_def)

lemma map_of_filtered:
  assumes "distinct (List.map key xs)" and "x \<in> set xs"
  shows "map_of (List.map (\<lambda>x. (key x, g x)) (filter p xs)) (key x) = (if p x then Some (g x) else None)"
proof (cases "p x")
  case True
  with assms show ?thesis by (auto intro!: map_of_position simp: distinct_map_filter)
next
  case False
  have "y = x" if "y \<in> set xs" "key y = key x" for y
    using that assms by (metis (no_types, lifting) distinct_map inj_onD)
  with False show ?thesis by (force simp: map_of_eq_None_iff)
qed

lemma variant_lookup:
  assumes "distinct (List.map var_ident vs)" and "v \<in> set vs"
  shows "variant_fields_of vs (var_ident v) = Some (var_fields v)"
  unfolding variant_fields_of_def by (rule map_of_position [OF assms])

lemma ser_enum_got:
  assumes "ser_enum_process P tokens cr input = Ok code" and "contains_use_discriminant input = Ok u"
    and "x \<in> set (List.enumerate 0 (en_variants input))"
  shows "discriminants_get (discriminants_new (en_variants input)) (var_ident (snd x)) u (fst x) =
    Ok (discriminant_tokens (discriminants_new (en_variants input)) u x)"
  using assms by (elim ser_enum_arms) simp

lemma to_le_bytes_byte: "to_le_bytes (w :: u8) = [w]"
  using unsigned_less [of w, where 'a = nat] by (simp add: to_le_bytes_def)

lemma enum_emits:
  assumes "ser_enum_process P tokens cr input = Ok code" and acc: "enum_accepted P (en_variants input)"
    and "contains_use_discriminant input = Ok u" and disc: "u \<longrightarrow> discriminants_accepted (en_variants input)"
    and x: "(i, v) \<in> set (List.enumerate 0 (en_variants input))" and tag: "declared_tag (en_variants input) u (i, v) = Some n"
    and ok: "fields_ok P ok (fields_list (var_fields v)) vals"
    and contracts: "\<forall>f\<in>set (fields_list (var_fields v)). ser_contract P I enc ok f"
  shows "emits (\<lambda>W. ser_enum_exec I (en_variants input) code W (var_ident v, vals))
    (word_of_int n # fields_enc P enc (fields_list (var_fields v)) vals)"
proof -
  let ?vs = "en_variants input" and ?D = "discriminants_new (en_variants input)"
  obtain u' where u': "contains_use_discriminant input = Ok u'"
    and arms': "se_idx_arms code = List.map (\<lambda>x. (var_ident (snd x), discriminant_tokens ?D u' x)) (List.enumerate 0 ?vs)"
    and match: "se_match code = optimize_fields_body
      (List.map (variant_arm P) (filter (\<lambda>v. var_fields v \<noteq> FieldsUnit) ?vs)) (\<exists>v\<in>set ?vs. var_fields v = FieldsUnit)"
    and got': "\<forall>x\<in>set (List.enumerate 0 ?vs).
      discriminants_get ?D (var_ident (snd x)) u' (fst x) = Ok (discriminant_tokens ?D u' x)"
    by (rule ser_enum_arms [OF assms(1)])
  with assms(3) have "u' = u" by simp
  note arms = arms' [unfolded this] and got = got' [unfolded this]
  from x have v: "v \<in> set ?vs" by (auto dest: enumerated)
  from acc v have names: "distinct (List.map var_ident ?vs)" and wf: "fields_wf (var_fields v)"
    and w: "\<forall>f\<in>set (fields_list (var_fields v)). fld_ident f = Some ''writer'' \<longrightarrow> at_skip (attrs_of P f)"
    by (auto simp: enum_accepted_def)
  have "map_of (se_idx_arms code) (var_ident (snd (i, v))) = Some (discriminant_tokens ?D u (i, v))"
    unfolding arms by (rule map_of_position) (use names x in \<open>simp_all add: map_enumerate_snd\<close>)
  moreover from tag_of_tokens [OF disc x] got x tag
  have "tag_of (discriminant_tokens ?D u (i, v)) = Some (word_of_int n)" by force
  ultimately have idx: "Option.bind (map_of (se_idx_arms code) (var_ident v)) tag_of = Some (word_of_int n)" by simp
  define rest where "rest = (\<lambda>W. case se_match code of
               None \<Rightarrow> ret ()
             | Some m \<Rightarrow>
                 (case (map_of (sm_arms m) (var_ident v), variant_fields_of ?vs (var_ident v)) of
                     (Some (header, body), Some flds) \<Rightarrow>
                       for_each (exec_call I (pattern_scope header flds vals) W) body
                   | _ \<Rightarrow> if sm_catch_all m then ret () else refused))"
  have arm: "map_of (List.map (variant_arm P) (filter (\<lambda>v. var_fields v \<noteq> FieldsUnit) ?vs)) (var_ident v) =
      (if var_fields v \<noteq> FieldsUnit then Some (pattern_of P (var_fields v), calls_of P (var_fields v)) else None)"
    unfolding variant_arm_def by (rule map_of_filtered [OF names v])
  have "emits rest (fields_enc P enc (fields_list (var_fields v)) vals)"
  proof (cases "var_fields v = FieldsUnit")
    case True
    with arm match v have "rest = (\<lambda>W. ret ())"
      by (auto simp: rest_def optimize_fields_body_def split: option.splits)
    with True show ?thesis by (simp add: emits_ret fields_enc_def)
  next
    case False
    with v have "filter (\<lambda>v. var_fields v \<noteq> FieldsUnit) ?vs \<noteq> []" by (auto simp: filter_empty_conv)
    with False arm match variant_lookup [OF names v]
    have "rest = (\<lambda>W. for_each (exec_call I (pattern_scope (pattern_of P (var_fields v)) (var_fields v) vals) W) (calls_of P (var_fields v)))"
      by (simp add: rest_def optimize_fields_body_def)
    with calls_emit [OF variant_resolves [OF wf _ False w] length_ids(2) ok contracts] ok show ?thesis
      by (simp add: calls_of_def fields_ok_def)
  qed
  then have "emits (\<lambda>W. and_then (write_all W (to_le_bytes (word_of_int n :: u8))) (\<lambda>_. rest W))
      (to_le_bytes (word_of_int n :: u8) @ fields_enc P enc (fields_list (var_fields v)) vals)"
    by (rule emits_and_then [OF emits_write_all])
  then show ?thesis by (simp add: ser_enum_exec_def idx rest_def to_le_bytes_byte)
qed

lemma exec_arms_find:
  assumes "\<forall>(d, name, entries)\<in>set arms. tag_of d \<noteq> None \<and> variant_fields_of vs name \<noteq> None"
  shows "exec_arms I vs reader tag arms =
    (case find (\<lambda>(d, name, entries). tag_of d = Some tag) arms of
        Some (d, name, entries) \<Rightarrow>
          map_ok (\<lambda>vals. (name, vals)) (exec_literal I reader (fields_list (the (variant_fields_of vs name))) entries)
      | None \<Rightarrow> fail (error_new InvalidData (''Unexpected variant tag: '' @ show_nat (unat tag))))"
  using assms
proof (induction arms)
  case (Cons arm arms)
  obtain d name entries where "arm = (d, name, entries)" by (cases arm)
  with Cons show ?case by (auto split: option.splits)
qed simp

lemma find_unique:
  assumes "x \<in> set xs" and "p x" and "\<forall>y\<in>set xs. p y \<longrightarrow> y = x"
  shows "find p xs = Some x"
proof (cases "find p xs")
  case None
  with assms(1,2) show ?thesis by (simp add: find_None_iff)
next
  case (Some y)
  then have "y \<in> set xs" and "p y" by (auto simp: find_Some_iff)
  with assms(3) Some show ?thesis by blast
qed

lemma find_map_arms: "find p (List.map f xs) = map_option f (find (\<lambda>x. p (f x)) xs)"
  by (induction xs) simp_all

text \<open>The arms as the compiler sees them.\<close>

lemma arms_meaning:
  assumes "de_enum_process P parse_path tokens cr input = Ok code" and acc: "enum_accepted P (en_variants input)"
    and u: "contains_use_discriminant input = Ok u" and disc: "u \<longrightarrow> discriminants_accepted (en_variants input)"
  shows "exec_arms I (en_variants input) reader tag (de_arms code) =
    (case find (\<lambda>x. declared_tag (en_variants input) u x = Some (uint tag)) (List.enumerate 0 (en_variants input)) of
        Some (i, v) \<Rightarrow> map_ok (\<lambda>vals. (var_ident v, vals)) (exec_literal I reader (fields_list (var_fields v))
          (List.map (field_entry P) (fields_list (var_fields v))))
      | None \<Rightarrow> fail (error_new InvalidData (''Unexpected variant tag: '' @ show_nat (unat tag))))"
proof -
  let ?vs = "en_variants input" and ?D = "discriminants_new (en_variants input)"
  let ?arm = "\<lambda>x. (discriminant_tokens ?D u x, var_ident (snd x), List.map (field_entry P) (fields_list (var_fields (snd x))))"
  note arms = de_enum_arms [OF assms(1) u]
  from acc have names: "distinct (List.map var_ident ?vs)" by (simp add: enum_accepted_def)
  have meaning: "tag_of (discriminant_tokens ?D u x) \<noteq> None \<and> variant_fields_of ?vs (var_ident (snd x)) = Some (var_fields (snd x)) \<and>
      (tag_of (discriminant_tokens ?D u x) = Some tag \<longleftrightarrow> declared_tag ?vs u x = Some (uint tag))"
    if x: "x \<in> set (List.enumerate 0 ?vs)" for x
  proof -
    from tag_of_tokens [OF disc x] arms(2) x obtain n where n: "declared_tag ?vs u x = Some n" "0 \<le> n" "n < 256"
      "tag_of (discriminant_tokens ?D u x) = Some (word_of_int n)" by blast
    have "(word_of_int n = tag) = (n = uint tag)"
      using small_word_inj [of n "uint tag"] n(2,3) unsigned_less [of tag, where 'a = int] by simp
    with n variant_lookup [OF names] enumerated [OF x] show ?thesis by simp
  qed
  have "find (\<lambda>(d, name, entries). tag_of d = Some tag) (de_arms code) =
      map_option ?arm (find (\<lambda>x. declared_tag ?vs u x = Some (uint tag)) (List.enumerate 0 ?vs))"
    unfolding arms(1) find_map_arms
    by (rule arg_cong [where f = "map_option ?arm"], rule find_cong) (use meaning in simp_all)
  moreover have "\<forall>(d, name, entries)\<in>set (de_arms code). tag_of d \<noteq> None \<and> variant_fields_of ?vs name \<noteq> None"
    unfolding arms(1) using meaning by auto
  ultimately have exec: "exec_arms I ?vs reader tag (de_arms code) =
      (case map_option ?arm (find (\<lambda>x. declared_tag ?vs u x = Some (uint tag)) (List.enumerate 0 ?vs)) of
        Some (d, name, entries) \<Rightarrow>
          map_ok (\<lambda>vals. (name, vals)) (exec_literal I reader (fields_list (the (variant_fields_of ?vs name))) entries)
      | None \<Rightarrow> fail (error_new InvalidData (''Unexpected variant tag: '' @ show_nat (unat tag))))"
    by (simp add: exec_arms_find)
  show ?thesis
  proof (cases "find (\<lambda>x. declared_tag ?vs u x = Some (uint tag)) (List.enumerate 0 ?vs)")
    case None
    then show ?thesis by (simp add: exec)
  next
    case (Some x)
    then have "x \<in> set (List.enumerate 0 ?vs)" by (auto simp: find_Some_iff)
    with meaning [OF this] Some show ?thesis by (simp add: exec case_prod_beta)
  qed
qed

lemma enum_decodes:
  assumes "de_enum_process P parse_path tokens cr input = Ok code" and "enum_accepted P (en_variants input)"
    and "contains_use_discriminant input = Ok u" and disc: "u \<longrightarrow> discriminants_accepted (en_variants input)"
    and x: "(i, v) \<in> set (List.enumerate 0 (en_variants input))" and tag: "declared_tag (en_variants input) u (i, v) = Some n"
    and n: "0 \<le> n" "n < 256"
    and "fields_ok P ok (fields_list (var_fields v)) vals"
    and "\<forall>f\<in>set (fields_list (var_fields v)). de_contract P I enc ok f"
  shows "decodes (de_enum_exec I init_method (en_variants input) code slice_reader)
    ((case de_init code of Some m \<Rightarrow> init_method m | None \<Rightarrow> id)
      (var_ident v, fields_reset P I (fields_list (var_fields v)) vals))
    (word_of_int n # fields_enc P enc (fields_list (var_fields v)) vals)"
proof -
  let ?vs = "en_variants input"
  have "uint (word_of_int n :: u8) = n" using n by (simp add: uint_word_of_int_eq take_bit_int_eq_self)
  moreover have "find (\<lambda>x. declared_tag ?vs u x = Some n) (List.enumerate 0 ?vs) = Some (i, v)"
  proof (rule find_unique [OF x])
    show "\<forall>y\<in>set (List.enumerate 0 ?vs). declared_tag ?vs u y = Some n \<longrightarrow> y = (i, v)"
      using declared_tag_inj [OF disc _ x] tag by metis
  qed (rule tag)
  ultimately have "exec_arms I ?vs slice_reader (word_of_int n) (de_arms code) =
      map_ok (\<lambda>vals. (var_ident v, vals)) (exec_literal I slice_reader (fields_list (var_fields v))
        (List.map (field_entry P) (fields_list (var_fields v))))"
    by (simp add: arms_meaning [OF assms(1-4)])
  with decodes_map_ok [OF literal_decodes [OF assms(9,10)]]
  have lit: "decodes (exec_arms I ?vs slice_reader (word_of_int n) (de_arms code))
      (var_ident v, fields_reset P I (fields_list (var_fields v)) vals) (fields_enc P enc (fields_list (var_fields v)) vals)"
    by simp
  have "decodes (deserialize_variant I init_method ?vs code slice_reader (word_of_int n))
      ((case de_init code of Some m \<Rightarrow> init_method m | None \<Rightarrow> id)
        (var_ident v, fields_reset P I (fields_list (var_fields v)) vals)) (fields_enc P enc (fields_list (var_fields v)) vals)"
    using decodes_and_then [OF lit, where f = ret, OF decodes_ret]
      decodes_and_then [OF lit, where f = "\<lambda>v. ret (init_method m v)" for m, OF decodes_ret]
    by (cases "de_init code") (simp_all add: deserialize_variant_def)
  from decodes_and_then [OF decodes_u8, where f = "deserialize_variant I init_method ?vs code slice_reader", OF this]
  show ?thesis by (simp add: de_enum_exec_def)
qed

lemma enum_unknown_tag:
  assumes "de_enum_process P parse_path tokens cr input = Ok code" and "enum_accepted P (en_variants input)"
    and "contains_use_discriminant input = Ok u" and "u \<longrightarrow> discriminants_accepted (en_variants input)"
    and "\<forall>x\<in>set (List.enumerate 0 (en_variants input)). declared_tag (en_variants input) u x \<noteq> Some (uint tag)"
  shows "de_enum_exec I init_method (en_variants input) code slice_reader (tag # rest) =
    Some (Err (error_new InvalidData (''Unexpected variant tag: '' @ show_nat (unat tag))), rest)"
proof -
  have "find (\<lambda>x. declared_tag (en_variants input) u x = Some (uint tag)) (List.enumerate 0 (en_variants input)) = None"
    using assms(5) by (auto simp: find_None_iff)
  then have "exec_arms I (en_variants input) slice_reader tag (de_arms code) =
      fail (error_new InvalidData (''Unexpected variant tag: '' @ show_nat (unat tag)))"
    by (simp add: arms_meaning [OF assms(1-4)])
  moreover have "u8_deserialize_reader slice_reader (tag # rest) = Some (Ok tag, rest)"
    using decodes_u8 [of tag] by (simp add: decodes_def)
  ultimately show ?thesis
    by (simp add: de_enum_exec_def deserialize_variant_def and_then_def fail_def)
qed

end
