(* ===== verification/Derive_Schema.thy ===== *)
theory Derive_Schema
  imports Derive_Generics Derive_Discriminant Schema_Model
begin

section \<open>Deriving the schema\<close>

text \<open>
  Models \<open>borsh-derive/src/internals/schema\<close>: the functions \<open>process\<close> for structs and enums
  with all that they call. As for the other derives, the generated code is data. The second
  half is its meaning: the implementation of \<open>BorshSchema\<close> that the generated code is, as an
  element of the type of \<open>Schema_Model\<close>. The derive of an enum generates one struct for each
  variant, on which the compiler runs the derive again.
\<close>

subsection \<open>The shared part\<close>

definition schema_visit_field ::
  "literal_parsers \<Rightarrow> syn_field \<Rightarrow> find_ty_params \<Rightarrow> (derive_error, find_ty_params) outcome" where
  "schema_visit_field P field visitor =
     and_ok (parse_attributes P (fld_attrs field)) (\<lambda>parsed.
       if at_skip parsed then Ok visitor
       else
         let visitor' = (if needs_schema_params_derive parsed then visit_field field visitor else visitor)
         in Ok (case Option.bind (at_schema parsed) sa_params of
                  None \<Rightarrow> visitor'
                | Some schema_params \<Rightarrow>
                    fold (\<lambda>ovr. param_associated_type_insert (order_param ovr) (override_type ovr)) schema_params visitor'))"

definition visit_struct_fields ::
  "literal_parsers \<Rightarrow> syn_fields \<Rightarrow> find_ty_params \<Rightarrow> (derive_error, find_ty_params) outcome" where
  "visit_struct_fields P flds visitor = fold_ok (schema_visit_field P) (fields_list flds) visitor"

definition visit_struct_fields_unconditional :: "syn_fields \<Rightarrow> find_ty_params \<Rightarrow> find_ty_params" where
  "visit_struct_fields_unconditional flds visitor = fold visit_field (fields_list flds) visitor"

definition keeps_param :: "ident list \<Rightarrow> generic_param \<Rightarrow> bool" where
  "keeps_param not_skipped_type_params param =
     (case type_param param of Some i \<Rightarrow> i \<in> set not_skipped_type_params | None \<Rightarrow> True)"

definition keeps_predicate :: "ident list \<Rightarrow> where_predicate \<Rightarrow> bool" where
  "keeps_predicate not_skipped_type_params predicate =
     (case predicate of
         PredicateLifetime _ \<Rightarrow> True
       | PredicateType bounded_ty _ \<Rightarrow> type_contains_some_param bounded_ty not_skipped_type_params)"

definition filter_used_params :: "generics \<Rightarrow> ident list \<Rightarrow> generics" where
  "filter_used_params g not_skipped_type_params =
     g\<lparr>gen_params := filter (keeps_param not_skipped_type_params) (gen_params g),
       gen_where := map_option (filter (keeps_predicate not_skipped_type_params)) (gen_where g)\<rparr>"

text \<open>
  \<open>GenericsOutput::result\<close>: the bounds, and the body of \<open>declaration\<close>, which is the name of
  the item and the types whose declarations are its arguments.
\<close>

type_synonym declaration_code = "string \<times> ty list"

definition generics_result ::
  "(ty \<Rightarrow> string) \<Rightarrow> string \<Rightarrow> string \<Rightarrow> find_ty_params \<Rightarrow> where_predicate list \<times> declaration_code" where
  "generics_result tokens item_name cratename params_visitor =
     (let trait_path = cratename @ ''::BorshSchema''
      in (compute_predicates (process_for_bounds tokens params_visitor) trait_path,
          (item_name, process_for_bounds tokens params_visitor)))"

subsection \<open>Structs\<close>

text \<open>A call of a method of \<open>BorshSchema\<close> for a type, or of the function that replaces it.\<close>

datatype schema_call = ByType ty | ByPath string

definition field_declaration_output :: "ident option \<Rightarrow> ty \<Rightarrow> string option \<Rightarrow> ident option \<times> schema_call" where
  "field_declaration_output name t decl_path =
     (name, case decl_path of Some path \<Rightarrow> ByPath path | None \<Rightarrow> ByType t)"

definition field_definitions_output :: "ty \<Rightarrow> string option \<Rightarrow> schema_call" where
  "field_definitions_output t defs_path =
     (case defs_path of Some path \<Rightarrow> ByPath path | None \<Rightarrow> ByType t)"

datatype fields_code =
    NamedCode "(ident option \<times> schema_call) list"
  | UnnamedCode "(ident option \<times> schema_call) list"
  | EmptyCode

definition schema_process_field ::
  "literal_parsers \<Rightarrow> syn_field \<Rightarrow> (ident option \<times> schema_call) list \<times> schema_call list \<Rightarrow>
   (derive_error, (ident option \<times> schema_call) list \<times> schema_call list) outcome" where
  "schema_process_field P field = (\<lambda>(fields_vec, calls).
     and_ok (parse_attributes P (fld_attrs field)) (\<lambda>parsed.
       Ok (if \<not> at_skip parsed
           then (fields_vec @ [field_declaration_output (fld_ident field) (fld_ty field) (schema_declaration parsed)],
                 calls @ [field_definitions_output (fld_ty field) (schema_definitions parsed)])
           else (fields_vec, calls))))"

definition schema_process_fields ::
  "literal_parsers \<Rightarrow> syn_fields \<Rightarrow> find_ty_params \<Rightarrow> (derive_error, find_ty_params \<times> fields_code \<times> schema_call list) outcome" where
  "schema_process_fields P flds params_visitor =
     and_ok (visit_struct_fields P flds params_visitor) (\<lambda>visitor.
     and_ok (fold_ok (schema_process_field P) (fields_list flds) ([], [])) (\<lambda>(fields_vec, calls).
       Ok (visitor,
           if fields_vec = [] then EmptyCode
           else (case flds of FieldsNamed _ \<Rightarrow> NamedCode fields_vec | _ \<Rightarrow> UnnamedCode fields_vec),
           calls)))"

record schema_struct_code =
  sc_where :: "where_predicate list"
  sc_declaration :: declaration_code
  sc_fields :: fields_code
  sc_calls :: "schema_call list"

definition schema_struct_process ::
  "literal_parsers \<Rightarrow> (ty \<Rightarrow> string) \<Rightarrow> string \<Rightarrow> item_struct \<Rightarrow> (derive_error, schema_struct_code) outcome" where
  "schema_struct_process P tokens cratename input =
     (let generics = without_defaults (st_generics input);
          where_clause = default_where (gen_where generics)
      in and_ok (schema_process_fields P (st_fields input) (find_new generics))
         (\<lambda>(visitor, struct_fields, calls).
           let (predicates, declaration) = generics_result tokens (st_ident input) cratename visitor
           in Ok \<lparr>sc_where = where_clause @ predicates, sc_declaration = declaration,
                   sc_fields = struct_fields, sc_calls = calls\<rparr>))"

subsection \<open>Enums\<close>

definition filtered_field :: "syn_field \<Rightarrow> syn_field" where
  "filtered_field field = field\<lparr>fld_attrs := filter_attrs (fld_attrs field)\<rparr>"

fun transform_variant_fields :: "syn_fields \<Rightarrow> syn_fields" where
  "transform_variant_fields (FieldsNamed named) = FieldsNamed (List.map filtered_field named)"
| "transform_variant_fields (FieldsUnnamed unnamed) = FieldsUnnamed (List.map filtered_field unnamed)"
| "transform_variant_fields FieldsUnit = FieldsUnit"

definition inner_struct_definition :: "variant \<Rightarrow> string \<Rightarrow> ident \<Rightarrow> generics \<Rightarrow> item_struct \<times> generics" where
  "inner_struct_definition variant cratename inner_struct_ident enum_generics =
     (let transformed_fields = transform_variant_fields (var_fields variant);
          visitor = visit_struct_fields_unconditional (var_fields variant) (find_new enum_generics);
          variant_not_skipped_params = process_for_params visitor;
          inner_struct_generics = filter_used_params enum_generics variant_not_skipped_params
      in (\<lparr>st_ident = inner_struct_ident, st_generics = inner_struct_generics, st_fields = transformed_fields,
           st_attrs = [\<lparr>attr_path = ''borsh'', attr_args = Some [Meta ''crate'' (Assigned (LitStr cratename))]\<rparr>]\<rparr>,
          inner_struct_generics))"

text \<open>
  \<open>Ident::new\<close> of \<open>proc_macro2\<close> panics on a string that is no identifier. The tokens of a raw
  identifier begin with \<open>r#\<close>, which is no part of an identifier that it accepts.
\<close>

definition Ident_new :: "literal_parsers \<Rightarrow> string \<Rightarrow> (derive_error, ident) outcome" where
  "Ident_new P s = (if is_identifier P s then Ok s else Panic)"

text \<open>The entry of a variant: its discriminant as an \<open>i64\<close>, its name, and its struct's declaration.\<close>

record variant_output =
  vo_inner_struct :: item_struct
  vo_generics :: generics
  vo_discriminant :: "token list"
  vo_name :: string

definition schema_process_variant ::
  "literal_parsers \<Rightarrow> (ident \<rightharpoonup> token list) \<Rightarrow> bool \<Rightarrow> string \<Rightarrow> string \<Rightarrow> generics \<Rightarrow> nat \<times> variant \<Rightarrow>
   find_ty_params \<times> variant_output list \<Rightarrow> (derive_error, find_ty_params \<times> variant_output list) outcome" where
  "schema_process_variant P discriminants use_discriminant cratename enum_name enum_generics =
     (\<lambda>(variant_idx, variant) (params_visitor, outputs).
       and_ok (Ident_new P (enum_name @ var_ident variant)) (\<lambda>full_variant_ident.
          and_ok (visit_struct_fields P (var_fields variant) params_visitor) (\<lambda>visitor.
          let (inner_struct, inner_generics) =
                inner_struct_definition variant cratename full_variant_ident enum_generics
          in and_ok (discriminants_get discriminants (var_ident variant) use_discriminant variant_idx) (\<lambda>discriminant_value.
             Ok (visitor, outputs @ [\<lparr>vo_inner_struct = inner_struct, vo_generics = inner_generics,
                   vo_discriminant = discriminant_value, vo_name = var_ident variant\<rparr>])))))"

record schema_enum_code =
  sec_where :: "where_predicate list"
  sec_declaration :: declaration_code
  sec_variants :: "variant_output list"

definition schema_enum_process ::
  "literal_parsers \<Rightarrow> (ty \<Rightarrow> string) \<Rightarrow> string \<Rightarrow> item_enum \<Rightarrow> (derive_error, schema_enum_code) outcome" where
  "schema_enum_process P tokens cratename input =
     (let generics = without_defaults (en_generics input);
          where_clause = default_where (gen_where generics)
      in and_ok (contains_use_discriminant input) (\<lambda>use_discriminant.
         and_ok (fold_ok (schema_process_variant P (discriminants_new (en_variants input)) use_discriminant
             cratename (en_ident input) generics)
           (List.enumerate 0 (en_variants input)) (find_new generics, [])) (\<lambda>(visitor, outputs).
           let (predicates, declaration) = generics_result tokens (en_ident input) cratename visitor
           in Ok \<lparr>sec_where = where_clause @ predicates, sec_declaration = declaration, sec_variants = outputs\<rparr>)))"

subsection \<open>What the generated code is\<close>

text \<open>
  \<open>env_type\<close> are the implementations of the types of the fields, under one instantiation of
  the type parameters; the functions of the attributes are parameters as well.
\<close>

record schema_env =
  env_type :: "ty \<Rightarrow> BorshSchema"
  env_declaration :: "string \<Rightarrow> Declaration"
  env_definitions :: "string \<Rightarrow> add_effect"

fun call_declaration :: "schema_env \<Rightarrow> schema_call \<Rightarrow> Declaration" where
  "call_declaration E (ByType t) = declaration_of (env_type E t)"
| "call_declaration E (ByPath path) = env_declaration E path"

fun call_definitions :: "schema_env \<Rightarrow> schema_call \<Rightarrow> add_effect" where
  "call_definitions E (ByType t) = add_definitions_recursively (env_type E t)"
| "call_definitions E (ByPath path) = env_definitions E path"

text \<open>The elements of a vector of named fields must be pairs.\<close>

fun exec_fields :: "schema_env \<Rightarrow> fields_code \<Rightarrow> Fields option" where
  "exec_fields E (NamedCode es) =
     (if \<forall>e\<in>set es. fst e \<noteq> None
      then Some (NamedFields (List.map (\<lambda>(n, c). (the n, call_declaration E c)) es)) else None)"
| "exec_fields E (UnnamedCode es) =
     (if \<forall>e\<in>set es. fst e = None
      then Some (UnnamedFields (List.map (\<lambda>(n, c). call_declaration E c) es)) else None)"
| "exec_fields E EmptyCode = Some Empty"

definition exec_declaration :: "schema_env \<Rightarrow> declaration_code \<Rightarrow> Declaration" where
  "exec_declaration E = (\<lambda>(ident_str, params).
     if params = [] then ident_str
     else ident_str @ ''<'' @ join '', '' (List.map (\<lambda>t. declaration_of (env_type E t)) params) @ ''>'')"

definition schema_struct_exec :: "schema_env \<Rightarrow> schema_struct_code \<Rightarrow> BorshSchema option" where
  "schema_struct_exec E code =
     map_option (\<lambda>flds. \<lparr>declaration_of = exec_declaration E (sc_declaration code),
       add_definitions_recursively = (\<lambda>definitions.
         let definition = Struct flds;
             no_recursion_flag = (map_of definitions (exec_declaration E (sc_declaration code)) = None)
         in and_then (add_definition (exec_declaration E (sc_declaration code)) definition) (\<lambda>_.
              if no_recursion_flag then for_each (call_definitions E) (sc_calls code) else ret ()) definitions)\<rparr>)
       (exec_fields E (sc_fields code))"

text \<open>
  Every type parameter that the definition of a struct mentions must be one of its own; a
  first segment resolves to a parameter whatever follows it.
\<close>

fun mentions_type :: "ident \<Rightarrow> ty \<Rightarrow> bool"
  and mentions_path :: "ident \<Rightarrow> path \<Rightarrow> bool"
  and mentions_segment :: "ident \<Rightarrow> segment \<Rightarrow> bool"
  and mentions_arguments :: "ident \<Rightarrow> path_arguments \<Rightarrow> bool"
  and mentions_argument :: "ident \<Rightarrow> generic_argument \<Rightarrow> bool"
  and mentions_bound :: "ident \<Rightarrow> bound \<Rightarrow> bool"
where
  "mentions_type p (TypeArray t) = mentions_type p t"
| "mentions_type p (TypeBareFn inputs out) =
     (list_ex (mentions_type p) inputs \<or> (case out of None \<Rightarrow> False | Some t \<Rightarrow> mentions_type p t))"
| "mentions_type p (TypeGroup t) = mentions_type p t"
| "mentions_type p (TypeImplTrait bs) = list_ex (mentions_bound p) bs"
| "mentions_type p (TypeMacro m) = False"
| "mentions_type p (TypeParen t) = mentions_type p t"
| "mentions_type p (TypePath s q) =
     (mentions_path p q \<or> (case s of None \<Rightarrow> False | Some t \<Rightarrow> mentions_type p t))"
| "mentions_type p (TypePtr t) = mentions_type p t"
| "mentions_type p (TypeReference t) = mentions_type p t"
| "mentions_type p (TypeSlice t) = mentions_type p t"
| "mentions_type p (TypeTraitObject bs) = list_ex (mentions_bound p) bs"
| "mentions_type p (TypeTuple ts) = list_ex (mentions_type p) ts"
| "mentions_type p (TypeOther x) = False"
| "mentions_path p (Path l segs) =
     ((\<not> l \<and> segs \<noteq> [] \<and> segment_ident (hd segs) = p) \<or> list_ex (mentions_segment p) segs)"
| "mentions_segment p (Segment i a) = mentions_arguments p a"
| "mentions_arguments p NoArguments = False"
| "mentions_arguments p (AngleBracketed gs) = list_ex (mentions_argument p) gs"
| "mentions_arguments p (Parenthesized inputs out) =
     (list_ex (mentions_type p) inputs \<or> (case out of None \<Rightarrow> False | Some t \<Rightarrow> mentions_type p t))"
| "mentions_argument p (ArgType t) = mentions_type p t"
| "mentions_argument p (ArgAssocType i t) = mentions_type p t"
| "mentions_argument p (ArgOther x) = False"
| "mentions_bound p (BoundTrait q) = mentions_path p q"
| "mentions_bound p (BoundOther x) = False"

definition in_scope :: "ident list \<Rightarrow> item_struct \<Rightarrow> bool" where
  "in_scope ps s \<longleftrightarrow>
     (\<forall>p\<in>set ps. p \<in> set (type_params (st_generics s)) \<or> (\<forall>f\<in>set (fields_list (st_fields s)). \<not> mentions_type p (fld_ty f)))"

text \<open>
  The struct of a variant, derived by the same macro. It is refused when it mentions a type
  parameter of the enum that is not one of its own.
\<close>

definition exec_inner ::
  "literal_parsers \<Rightarrow> (ty \<Rightarrow> string) \<Rightarrow> string \<Rightarrow> schema_env \<Rightarrow> ident list \<Rightarrow> item_struct \<Rightarrow> BorshSchema option" where
  "exec_inner P tokens cratename E ps s =
     (if in_scope ps s
      then (case schema_struct_process P tokens cratename s of Ok code \<Rightarrow> schema_struct_exec E code | _ \<Rightarrow> None)
      else None)"

fun all_some :: "'a option list \<Rightarrow> 'a list option" where
  "all_some [] = Some []"
| "all_some (x # xs) = (case x of None \<Rightarrow> None | Some y \<Rightarrow> map_option ((#) y) (all_some xs))"

definition exec_variant ::
  "literal_parsers \<Rightarrow> (ty \<Rightarrow> string) \<Rightarrow> string \<Rightarrow> schema_env \<Rightarrow> ident list \<Rightarrow> variant_output \<Rightarrow> (u64 \<times> string \<times> BorshSchema) option" where
  "exec_variant P tokens cratename E ps out =
     (case (tag_of (vo_discriminant out), exec_inner P tokens cratename E ps (vo_inner_struct out)) of
         (Some tag, Some B) \<Rightarrow> Some (ucast tag, vo_name out, B)
       | _ \<Rightarrow> None)"

definition schema_enum_exec ::
  "literal_parsers \<Rightarrow> (ty \<Rightarrow> string) \<Rightarrow> string \<Rightarrow> schema_env \<Rightarrow> ident list \<Rightarrow> schema_enum_code \<Rightarrow> BorshSchema option" where
  "schema_enum_exec P tokens cratename E ps code =
     map_option (\<lambda>vs. \<lparr>declaration_of = exec_declaration E (sec_declaration code),
       add_definitions_recursively =
         and_then (add_all (List.map (\<lambda>(tag, name, B). B) vs)) (\<lambda>_.
         add_definition (exec_declaration E (sec_declaration code))
           (Enum 1 (List.map (\<lambda>(tag, name, B). (tag, name, declaration_of B)) vs)))\<rparr>)
       (all_some (List.map (exec_variant P tokens cratename E ps) (sec_variants code)))"

end
