(* ===== verification/Derive_Entry.thy ===== *)
theory Derive_Entry
  imports Derive_Bounds Derive_Enums Derive_Schema
begin

section \<open>The entry points of the derive macros\<close>

text \<open>
  Models \<open>borsh-derive/src/lib.rs\<close> and \<open>internals/cratename.rs\<close>. What
  \<open>proc_macro_crate::crate_name\<close> finds in the manifest of the calling crate is a parameter.
  A macro yields the generated code, a compile error, or panics; the derives of
  \<open>BorshSerialize\<close> and \<open>BorshDeserialize\<close> do the latter for unions.
\<close>

datatype found_crate = Itself | FoundName ident | NotFound

definition get_from_cargo :: "found_crate \<Rightarrow> (derive_error, ident) outcome" where
  "get_from_cargo krate =
     (case krate of Itself \<Rightarrow> Ok ''borsh'' | FoundName name \<Rightarrow> Ok name | NotFound \<Rightarrow> Panic)"

definition cratename_get ::
  "(string \<Rightarrow> (derive_error, string) outcome) \<Rightarrow> found_crate \<Rightarrow> attribute list \<Rightarrow> (derive_error, string) outcome" where
  "cratename_get parse_path krate attrs =
     and_ok (get_crate parse_path attrs) (\<lambda>path.
       case path of Some path \<Rightarrow> Ok path | None \<Rightarrow> get_from_cargo krate)"

datatype derive_item = StructItem item_struct | EnumItem item_enum | UnionItem "attribute list"

fun derive_input_of :: "derive_item \<Rightarrow> derive_input" where
  "derive_input_of (StructItem s) = \<lparr>di_attrs = st_attrs s, di_is_struct = True\<rparr>"
| "derive_input_of (EnumItem e) = \<lparr>di_attrs = en_attrs e, di_is_struct = False\<rparr>"
| "derive_input_of (UnionItem attrs) = \<lparr>di_attrs = attrs, di_is_struct = False\<rparr>"

definition check_attrs_get_cratename ::
  "(string \<Rightarrow> (derive_error, string) outcome) \<Rightarrow> found_crate \<Rightarrow> derive_item \<Rightarrow> (derive_error, string) outcome" where
  "check_attrs_get_cratename parse_path krate input =
     and_ok (check_attributes (derive_input_of input)) (\<lambda>_.
       cratename_get parse_path krate (di_attrs (derive_input_of input)))"

datatype ('s, 'e) generated = StructCode 's | EnumCode 'e

definition ser_union_process :: "('e, 'a) outcome" where
  "ser_union_process = Panic"

definition de_union_process :: "('e, 'a) outcome" where
  "de_union_process = Panic"

definition borsh_serialize ::
  "literal_parsers \<Rightarrow> (string \<Rightarrow> (derive_error, string) outcome) \<Rightarrow> (ty \<Rightarrow> string) \<Rightarrow> found_crate \<Rightarrow> derive_item \<Rightarrow>
   (derive_error, (ser_struct_code, ser_enum_code) generated) outcome" where
  "borsh_serialize P parse_path tokens krate input =
     and_ok (check_attrs_get_cratename parse_path krate input) (\<lambda>cratename.
       case input of
           StructItem s \<Rightarrow> map_outcome StructCode (ser_struct_process P tokens cratename s)
         | EnumItem e \<Rightarrow> map_outcome EnumCode (ser_enum_process P tokens cratename e)
         | UnionItem _ \<Rightarrow> ser_union_process)"

definition borsh_deserialize ::
  "literal_parsers \<Rightarrow> (string \<Rightarrow> (derive_error, string) outcome) \<Rightarrow> (ty \<Rightarrow> string) \<Rightarrow> found_crate \<Rightarrow> derive_item \<Rightarrow>
   (derive_error, (de_struct_code, de_enum_code) generated) outcome" where
  "borsh_deserialize P parse_path tokens krate input =
     and_ok (check_attrs_get_cratename parse_path krate input) (\<lambda>cratename.
       case input of
           StructItem s \<Rightarrow> map_outcome StructCode (de_struct_process P parse_path tokens cratename s)
         | EnumItem e \<Rightarrow> map_outcome EnumCode (de_enum_process P parse_path tokens cratename e)
         | UnionItem _ \<Rightarrow> de_union_process)"

definition borsh_schema ::
  "literal_parsers \<Rightarrow> (string \<Rightarrow> (derive_error, string) outcome) \<Rightarrow> (ty \<Rightarrow> string) \<Rightarrow> found_crate \<Rightarrow> derive_item \<Rightarrow>
   (derive_error, (schema_struct_code, schema_enum_code) generated) outcome" where
  "borsh_schema P parse_path tokens krate input =
     and_ok (check_attrs_get_cratename parse_path krate input) (\<lambda>cratename.
       case input of
           StructItem s \<Rightarrow> map_outcome StructCode (schema_struct_process P tokens cratename s)
         | EnumItem e \<Rightarrow> map_outcome EnumCode (schema_enum_process P tokens cratename e)
         | UnionItem _ \<Rightarrow> Err ''Borsh schema does not support unions yet.'')"

subsection \<open>The macros do not panic\<close>

text \<open>Items as the parser of Rust delivers them.\<close>

fun item_wf :: "derive_item \<Rightarrow> bool" where
  "item_wf (StructItem s) \<longleftrightarrow> fields_wf (st_fields s)"
| "item_wf (EnumItem e) \<longleftrightarrow> (\<forall>v\<in>set (en_variants e). fields_wf (var_fields v))"
| "item_wf (UnionItem _) \<longleftrightarrow> False"

lemma returns_nested [return_intros]:
  "(\<And>m s. returns (logic m s)) \<Longrightarrow> returns (attr_nested_meta logic attr s)"
  by (auto simp: attr_nested_meta_def parse_nested_meta_def intro!: return_intros split: option.splits prod.splits)

lemma returns_option [return_intros]:
  "returns a \<Longrightarrow> (\<And>x. returns (f x)) \<Longrightarrow> returns (case r of None \<Rightarrow> a | Some x \<Rightarrow> f x)"
  by (cases r) simp_all

lemma check_attributes_returns [return_intros]: "returns (check_attributes input)"
  by (auto simp: check_attributes_def Let_def intro!: return_intros)

lemma use_discriminant_returns [return_intros]: "returns (contains_use_discriminant input)"
  by (auto simp: contains_use_discriminant_def Let_def intro!: return_intros)

lemma initialize_returns [return_intros]:
  "(\<And>s. returns (parse_path s)) \<Longrightarrow> returns (contains_initialize_with parse_path attrs)"
  by (auto simp: contains_initialize_with_def Let_def intro!: return_intros)

lemma cratename_returns:
  assumes "\<And>s. returns (parse_path s)" and "krate \<noteq> NotFound"
  shows "returns (check_attrs_get_cratename parse_path krate input)"
  using assms
  by (auto simp: check_attrs_get_cratename_def cratename_get_def get_crate_def get_from_cargo_def Let_def
      intro!: return_intros split: found_crate.split)

lemma index_returns [return_intros]: "returns (field_index i)" "returns (new_struct_unnamed i)" "returns (new_enum_unnamed i)"
  by (auto simp: new_struct_unnamed_def new_enum_unnamed_def field_index_def intro!: return_intros)

lemma ser_process_field_returns [return_intros]: "parsers_return P \<Longrightarrow> returns (ser_process_field P f fid s)"
  by (cases s) (auto simp: ser_process_field_def intro!: return_intros parse_attributes_returns)

lemma unwrap_returns [return_intros]: "fld_ident f \<noteq> None \<Longrightarrow> returns (unwrap_ident f)"
  by (auto simp: unwrap_ident_def)

lemma ser_struct_returns:
  assumes "parsers_return P" and "fields_wf (st_fields s)"
  shows "returns (ser_struct_process P tokens cr s)"
proof -
  have "returns (ser_struct_fields P (st_fields s) g)" for g
    using assms by (cases "st_fields s") (auto simp: ser_struct_fields_def intro!: return_intros)
  then show ?thesis by (auto simp: ser_struct_process_def Let_def intro!: return_intros)
qed

lemma ser_enum_process_field_returns:
  assumes "parsers_return P" and "(\<exists>n. fid = IdEnum n) \<or> (\<exists>i. fid = IdEnumUnnamed i)"
  shows "returns (ser_enum_process_field P f fid s)"
  using assms by (cases s) (auto simp: ser_enum_process_field_def intro!: return_intros parse_attributes_returns)

lemma ser_process_variant_returns:
  assumes "parsers_return P" and "fields_wf (var_fields v)"
  shows "returns (ser_process_variant P v g)"
  using assms
  by (cases "var_fields v")
    (auto simp: ser_process_variant_def new_enum_unnamed_def map_outcome_def and_ok_Ok_iff
      intro!: return_intros ser_enum_process_field_returns)

lemma discriminants_loop_dom: "dom (discriminants_loop vs nxt m) = dom m \<union> var_ident ` set vs"
  by (induction vs arbitrary: nxt m) (auto simp: Let_def)

lemma discriminants_get_returns:
  assumes "v \<in> set vs"
  shows "returns (discriminants_get (discriminants_new vs) (var_ident v) u i)"
proof -
  have "var_ident v \<in> dom (discriminants_new vs)" using assms by (simp add: discriminants_new_def discriminants_loop_dom)
  then show ?thesis by (auto simp: discriminants_get_def)
qed

lemma ser_enum_returns:
  assumes "parsers_return P" and "\<forall>v\<in>set (en_variants e). fields_wf (var_fields v)"
  shows "returns (ser_enum_process P tokens cr e)"
proof -
  have "returns (ser_enum_variant P (discriminants_new (en_variants e)) u x acc)"
    if "x \<in> set (List.enumerate 0 (en_variants e))" for u x acc
    using enumerated [OF that] assms
    by (cases x) (auto simp: ser_enum_variant_def Let_def
        intro!: return_intros discriminants_get_returns ser_process_variant_returns)
  then show ?thesis by (auto simp: ser_enum_process_def Let_def intro!: return_intros)
qed

lemma de_process_field_returns [return_intros]: "parsers_return P \<Longrightarrow> returns (de_process_field P f s)"
  by (cases s) (auto simp: de_process_field_def Let_def intro!: return_intros parse_attributes_returns)

lemma de_struct_returns:
  "parsers_return P \<Longrightarrow> (\<And>s. returns (parse_path s)) \<Longrightarrow> returns (de_struct_process P parse_path tokens cr s)"
  by (auto simp: de_struct_process_def Let_def intro!: return_intros)

lemma de_enum_returns:
  assumes "parsers_return P" and "\<And>s. returns (parse_path s)"
  shows "returns (de_enum_process P parse_path tokens cr e)"
proof -
  have "returns (de_enum_variant P (discriminants_new (en_variants e)) u x acc)"
    if "x \<in> set (List.enumerate 0 (en_variants e))" for u x acc
    using enumerated [OF that] assms
    by (cases x; cases acc) (auto simp: de_enum_variant_def de_process_variant_def intro!: return_intros discriminants_get_returns)
  with assms(2) show ?thesis by (auto simp: de_enum_process_def Let_def intro!: return_intros)
qed

lemma schema_visit_returns [return_intros]: "parsers_return P \<Longrightarrow> returns (visit_struct_fields P flds v)"
  by (auto simp: visit_struct_fields_def schema_visit_field_def Let_def intro!: return_intros parse_attributes_returns)

lemma schema_struct_returns:
  assumes "parsers_return P"
  shows "returns (schema_struct_process P tokens cr s)"
proof -
  have "returns (schema_process_field P f acc)" for f acc
    using assms by (cases acc) (auto simp: schema_process_field_def intro!: return_intros parse_attributes_returns)
  with assms show ?thesis
    by (auto simp: schema_struct_process_def schema_process_fields_def Let_def intro!: return_intros split: prod.split)
qed

lemma schema_enum_returns:
  assumes "parsers_return P" and "\<forall>v\<in>set (en_variants e). is_identifier P (en_ident e @ var_ident v)"
  shows "returns (schema_enum_process P tokens cr e)"
proof -
  have "returns (schema_process_variant P (discriminants_new (en_variants e)) u cr (en_ident e) g x acc)"
    if "x \<in> set (List.enumerate 0 (en_variants e))" for u g x acc
    using enumerated [OF that] assms
    by (cases x; cases acc) (auto simp: schema_process_variant_def Ident_new_def Let_def intro!: return_intros discriminants_get_returns
        split: prod.split)
  with assms show ?thesis
    by (auto simp: schema_enum_process_def Let_def intro!: return_intros split: prod.split)
qed

text \<open>The names that the schema derive glues together are identifiers.\<close>

fun glued_names_ok :: "literal_parsers \<Rightarrow> derive_item \<Rightarrow> bool" where
  "glued_names_ok P (EnumItem e) \<longleftrightarrow> (\<forall>v\<in>set (en_variants e). is_identifier P (en_ident e @ var_ident v))"
| "glued_names_ok P _ \<longleftrightarrow> True"

lemma derives_return:
  assumes "parsers_return P" and "\<And>s. returns (parse_path s)" and "krate \<noteq> NotFound" and "item_wf item"
  shows "returns (borsh_serialize P parse_path tokens krate item)"
    and "returns (borsh_deserialize P parse_path tokens krate item)"
    and "glued_names_ok P item \<Longrightarrow> returns (borsh_schema P parse_path tokens krate item)"
  using assms
  by (cases item; auto simp: borsh_serialize_def borsh_deserialize_def borsh_schema_def intro!: return_intros cratename_returns
      ser_struct_returns ser_enum_returns de_struct_returns de_enum_returns schema_struct_returns schema_enum_returns)+

end
