(* ===== verification/Derive_Schema_Laws.thy ===== *)
theory Derive_Schema_Laws
  imports Derive_Schema Derive_Enums Schema_Meaning
begin

section \<open>Laws of the derived schema\<close>

text \<open>
  The generated code is the implementation of \<open>Schema_Model\<close> for derived items
  (\<open>struct_code_is\<close>, \<open>enum_code_is\<close>), the parameters of the struct of a variant are those
  that its fields use, and the schema of a derived struct describes the bytes that the
  derived \<open>BorshSerialize\<close> writes.
\<close>

subsection \<open>Structs\<close>

definition kept_fields :: "literal_parsers \<Rightarrow> syn_field list \<Rightarrow> syn_field list" where
  "kept_fields P fs = filter (\<lambda>f. \<not> at_skip (attrs_of P f)) fs"

definition declaration_entry :: "literal_parsers \<Rightarrow> syn_field \<Rightarrow> ident option \<times> schema_call" where
  "declaration_entry P f = field_declaration_output (fld_ident f) (fld_ty f) (schema_declaration (attrs_of P f))"

definition definitions_entry :: "literal_parsers \<Rightarrow> syn_field \<Rightarrow> schema_call" where
  "definitions_entry P f = field_definitions_output (fld_ty f) (schema_definitions (attrs_of P f))"

lemma schema_process_field_out:
  assumes "schema_process_field P f s = Ok t"
  shows "fst t = fst s @ List.map (declaration_entry P) (kept_fields P [f])"
    and "snd t = snd s @ List.map (definitions_entry P) (kept_fields P [f])"
  using assms
  by (cases s; auto simp: schema_process_field_def and_ok_Ok_iff kept_fields_def attrs_of_def
      declaration_entry_def definitions_entry_def)+

lemma kept_concat: "concat (List.map (\<lambda>f. List.map g (kept_fields P [f])) fs) = List.map g (kept_fields P fs)"
  by (induction fs) (simp_all add: kept_fields_def)

lemma schema_process_fields_out:
  assumes "schema_process_fields P flds visitor = Ok (v, code, calls)"
  shows "calls = List.map (definitions_entry P) (kept_fields P (fields_list flds))"
    and "code = (if kept_fields P (fields_list flds) = [] then EmptyCode
      else (case flds of FieldsNamed _ \<Rightarrow> NamedCode | _ \<Rightarrow> UnnamedCode)
        (List.map (declaration_entry P) (kept_fields P (fields_list flds))))"
proof -
  from assms obtain vec where f: "fold_ok (schema_process_field P) (fields_list flds) ([], []) = Ok (vec, calls)"
    and code: "code = (if vec = [] then EmptyCode
      else (case flds of FieldsNamed _ \<Rightarrow> NamedCode vec | _ \<Rightarrow> UnnamedCode vec))"
    by (auto simp: schema_process_fields_def and_ok_Ok_iff)
  have vec: "vec = List.map (declaration_entry P) (kept_fields P (fields_list flds))"
    using fold_ok_appends [OF f, where view = fst and out = "\<lambda>f. List.map (declaration_entry P) (kept_fields P [f])"]
      schema_process_field_out(1) by (simp add: kept_concat)
  show "calls = List.map (definitions_entry P) (kept_fields P (fields_list flds))"
    using fold_ok_appends [OF f, where view = snd and out = "\<lambda>f. List.map (definitions_entry P) (kept_fields P [f])"]
      schema_process_field_out(2) by (simp add: kept_concat)
  show "code = (if kept_fields P (fields_list flds) = [] then EmptyCode
      else (case flds of FieldsNamed _ \<Rightarrow> NamedCode | _ \<Rightarrow> UnnamedCode)
        (List.map (declaration_entry P) (kept_fields P (fields_list flds))))"
    by (cases flds) (simp_all add: code vec)
qed

text \<open>The item of \<open>Schema_Model\<close> that a list of fields stands for.\<close>

definition schema_field_of :: "literal_parsers \<Rightarrow> schema_env \<Rightarrow> syn_field \<Rightarrow> schema_field" where
  "schema_field_of P E f =
     \<lparr>field_name = (case fld_ident f of Some n \<Rightarrow> n | None \<Rightarrow> []), field_skip = at_skip (attrs_of P f),
      field_type = env_type E (fld_ty f),
      declaration_override = map_option (env_declaration E) (schema_declaration (attrs_of P f)),
      definitions_override = map_option (env_definitions E) (schema_definitions (attrs_of P f))\<rparr>"

fun item_of :: "literal_parsers \<Rightarrow> schema_env \<Rightarrow> syn_fields \<Rightarrow> item_fields" where
  "item_of P E (FieldsNamed fs) = Named_Fields (List.map (schema_field_of P E) fs)"
| "item_of P E (FieldsUnnamed fs) = Unnamed_Fields (List.map (schema_field_of P E) fs)"
| "item_of P E FieldsUnit = Unit_Fields"

lemma entry_of_field:
  "fst (declaration_entry P f) = fld_ident f"
  "call_declaration E (snd (declaration_entry P f)) = field_declaration (schema_field_of P E f)"
  "call_definitions E (definitions_entry P f) = field_definitions (schema_field_of P E f)"
  by (simp_all add: declaration_entry_def definitions_entry_def field_declaration_output_def field_definitions_output_def
      field_declaration_def field_definitions_def schema_field_of_def split: option.split)

lemma kept_filter:
  "filter (\<lambda>f. \<not> field_skip f) (List.map (schema_field_of P E) fs) = List.map (schema_field_of P E) (kept_fields P fs)"
  by (simp add: kept_fields_def filter_map comp_def schema_field_of_def)

lemma fields_code_is:
  assumes "schema_process_fields P flds visitor = Ok (v, code, calls)" and "fields_wf flds"
  shows "exec_fields E code = Some (fst (process_fields (item_of P E flds)))"
    and "for_each (call_definitions E) calls = for_each field_definitions (snd (process_fields (item_of P E flds)))"
proof -
  note out = schema_process_fields_out [OF assms(1)]
  have each: "for_each (call_definitions E) (List.map (definitions_entry P) fs) =
      for_each field_definitions (List.map (schema_field_of P E) fs)" for fs
    by (induction fs) (simp_all add: entry_of_field)
  show "for_each (call_definitions E) calls = for_each field_definitions (snd (process_fields (item_of P E flds)))"
    unfolding out(1) each by (cases flds) (simp_all add: Let_def kept_filter kept_fields_def)
  show "exec_fields E code = Some (fst (process_fields (item_of P E flds)))"
  proof (cases flds)
    case (FieldsNamed fs)
    have "\<forall>f\<in>set (kept_fields P fs). \<exists>n. fld_ident f = Some n"
      using assms(2) by (auto simp: FieldsNamed kept_fields_def)
    with FieldsNamed show ?thesis
      unfolding out(2)
      by (auto simp: Let_def kept_filter comp_def case_prod_beta entry_of_field schema_field_of_def)
  next
    case (FieldsUnnamed fs)
    have "\<forall>f\<in>set (kept_fields P fs). fld_ident f = None"
      using assms(2) by (auto simp: FieldsUnnamed kept_fields_def)
    with FieldsUnnamed show ?thesis
      unfolding out(2) by (auto simp: Let_def kept_filter comp_def case_prod_beta entry_of_field)
  next
    case FieldsUnit
    then show ?thesis unfolding out(2) by (simp add: kept_fields_def)
  qed
qed

lemma exec_declaration_is:
  "exec_declaration E (name, ts) = derived_declaration name (List.map (\<lambda>t. declaration_of (env_type E t)) ts)"
  by (simp add: exec_declaration_def derived_declaration_def)

lemma struct_code_is:
  assumes "schema_struct_process P tokens cr input = Ok code" and "fields_wf (st_fields input)"
  shows "schema_struct_exec E code = Some (derived_struct_schema (st_ident input)
    (List.map (\<lambda>t. declaration_of (env_type E t)) (snd (sc_declaration code))) (item_of P E (st_fields input)))"
proof -
  from assms(1) obtain v where f: "schema_process_fields P (st_fields input) (find_new (without_defaults (st_generics input))) =
      Ok (v, sc_fields code, sc_calls code)" and decl: "fst (sc_declaration code) = st_ident input"
    by (auto simp: schema_struct_process_def Let_def and_ok_Ok_iff generics_result_def)
  have "exec_declaration E (sc_declaration code) =
      derived_declaration (st_ident input) (List.map (\<lambda>t. declaration_of (env_type E t)) (snd (sc_declaration code)))"
    using exec_declaration_is decl by (metis prod.collapse)
  with fields_code_is [OF f assms(2), of E] show ?thesis
    by (simp add: schema_struct_exec_def derived_struct_schema_def Let_def cong: if_cong)
qed

subsection \<open>The struct of a variant\<close>

lemma find_filter: "find p (filter p xs) = find p xs"
  by (induction xs) simp_all

lemma filter_attrs_twice: "parse_attributes P (filter_attrs attrs) = parse_attributes P attrs"
  by (simp add: parse_attributes_def get_one_attribute_def filter_attrs_def Let_def find_filter)

lemma attrs_of_filtered [simp]: "attrs_of P (filtered_field f) = attrs_of P f"
  by (simp add: attrs_of_def filtered_field_def filter_attrs_twice)

lemma transformed [simp]:
  "fields_list (transform_variant_fields flds) = List.map filtered_field (fields_list flds)"
  "fields_wf flds \<Longrightarrow> fields_wf (transform_variant_fields flds)"
  "item_of P E (transform_variant_fields flds) = item_of P E flds"
  by (cases flds; simp add: filtered_field_def comp_def schema_field_of_def attrs_of_def filter_attrs_twice)+

lemma visit_field_associated:
  "associated_type_params_usage (visit_field f self) p \<noteq> None \<longleftrightarrow> associated_type_params_usage self p \<noteq> None \<or>
     (p \<in> set (all_type_params_ordered self) \<and> first_punctuated (ungroup (fld_ty f)) = Some p)"
  by (auto simp: visit_field_def visit_type_top_level_def Let_def param_associated_type_insert_def split: option.splits)

text \<open>A field uses a parameter: the type of the field is a path that starts with it, or it occurs.\<close>

definition uses :: "ident \<Rightarrow> syn_field \<Rightarrow> bool" where
  "uses p f \<longleftrightarrow> occurs_type p (fld_ty f) \<or> first_punctuated (ungroup (fld_ty f)) = Some p"

lemma visit_unconditional:
  assumes "p \<in> set (all_type_params_ordered self)"
  shows "all_type_params_ordered (fold visit_field fs self) = all_type_params_ordered self"
    and "p \<in> relevant_type_params (fold visit_field fs self) \<or> associated_type_params_usage (fold visit_field fs self) p \<noteq> None \<longleftrightarrow>
      p \<in> relevant_type_params self \<or> associated_type_params_usage self p \<noteq> None \<or> (\<exists>f\<in>set fs. uses p f)"
  using assms
proof (induction fs arbitrary: self)
  case (Cons f fs)
  { case 1 with Cons.IH(1) [of "visit_field f self"] show ?case by (simp add: visit_field_found) }
  { case 2 with Cons.IH(2) [of "visit_field f self"] show ?case
      by (simp add: visit_field_found visit_field_associated [simplified] uses_def) blast }
qed simp_all

lemma type_params_filter: "type_params (filter_used_params g ps) = filter (\<lambda>p. p \<in> set ps) (type_params g)"
proof -
  have "List.map_filter type_param (filter (keeps_param ps) gs) = filter (\<lambda>p. p \<in> set ps) (List.map_filter type_param gs)" for gs
    by (induction gs) (auto simp: List.map_filter_simps keeps_param_def split: option.splits)
  then show ?thesis by (simp add: type_params_def filter_used_params_def)
qed

lemma variant_params:
  assumes "inner_struct_definition v cr name g = (s, ig)"
  shows "type_params (st_generics s) = filter (\<lambda>p. \<exists>f\<in>set (fields_list (var_fields v)). uses p f) (type_params g)"
    and "ig = st_generics s" and "st_ident s = name" and "st_fields s = transform_variant_fields (var_fields v)"
proof -
  let ?v = "visit_struct_fields_unconditional (var_fields v) (find_new g)"
  have "p \<in> set (process_for_params ?v) \<longleftrightarrow> (\<exists>f\<in>set (fields_list (var_fields v)). uses p f)" if "p \<in> set (type_params g)" for p
    using visit_unconditional [of p "find_new g" "fields_list (var_fields v)"] that process_for_params_spec [of ?v]
    by (auto simp: visit_struct_fields_unconditional_def find_new_def types_of_param_def split: option.splits)
  then have "filter (\<lambda>p. p \<in> set (process_for_params ?v)) (type_params g) =
      filter (\<lambda>p. \<exists>f\<in>set (fields_list (var_fields v)). uses p f) (type_params g)"
    by (intro filter_cong) simp_all
  with assms show "type_params (st_generics s) = filter (\<lambda>p. \<exists>f\<in>set (fields_list (var_fields v)). uses p f) (type_params g)"
    by (auto simp: inner_struct_definition_def Let_def type_params_filter)
  show "ig = st_generics s" and "st_ident s = name" and "st_fields s = transform_variant_fields (var_fields v)"
    using assms by (auto simp: inner_struct_definition_def Let_def)
qed

text \<open>The struct of a variant is accepted when the parameters its fields mention are used.\<close>

lemma variant_in_scope:
  assumes "inner_struct_definition v cr name g = (s, ig)"
  shows "in_scope (type_params g) s \<longleftrightarrow>
    (\<forall>p\<in>set (type_params g). (\<exists>f\<in>set (fields_list (var_fields v)). mentions_type p (fld_ty f)) \<longrightarrow>
      (\<exists>f\<in>set (fields_list (var_fields v)). uses p f))"
  by (auto simp: in_scope_def variant_params [OF assms] filtered_field_def)

lemma visit_struct_fields_Ok_iff:
  "(\<exists>v. visit_struct_fields P flds visitor = Ok v) \<longleftrightarrow> (\<forall>f\<in>set (fields_list flds). \<exists>a. parse_attributes P (fld_attrs f) = Ok a)"
proof -
  have step: "(\<exists>v. schema_visit_field P f visitor = Ok v) \<longleftrightarrow> (\<exists>a. parse_attributes P (fld_attrs f) = Ok a)" for f visitor
    by (cases "parse_attributes P (fld_attrs f)") (auto simp: schema_visit_field_def Let_def)
  have "(\<exists>v. fold_ok (schema_visit_field P) fs visitor = Ok v) \<longleftrightarrow> (\<forall>f\<in>set fs. \<exists>a. parse_attributes P (fld_attrs f) = Ok a)" for fs
  proof (induction fs arbitrary: visitor)
    case (Cons f fs)
    have "(\<exists>v. fold_ok (schema_visit_field P) (f # fs) visitor = Ok v) \<longleftrightarrow>
        (\<exists>u. schema_visit_field P f visitor = Ok u \<and> (\<exists>v. fold_ok (schema_visit_field P) fs u = Ok v))"
      by (auto simp: and_ok_Ok_iff)
    with Cons.IH step [of f visitor] show ?case by auto
  qed simp
  then show ?thesis by (simp add: visit_struct_fields_def)
qed

lemma schema_process_fields_Ok:
  assumes "\<forall>f\<in>set (fields_list flds). \<exists>a. parse_attributes P (fld_attrs f) = Ok a"
  shows "\<exists>r. schema_process_fields P flds visitor = Ok r"
proof -
  from assms obtain v where v: "visit_struct_fields P flds visitor = Ok v" using visit_struct_fields_Ok_iff by blast
  have "\<forall>f\<in>set fs. \<exists>a. parse_attributes P (fld_attrs f) = Ok a \<Longrightarrow> \<exists>r. fold_ok (schema_process_field P) fs s = Ok r" for fs s
  proof (induction fs arbitrary: s)
    case (Cons f fs)
    from Cons.prems obtain a where "parse_attributes P (fld_attrs f) = Ok a" by auto
    then have "\<exists>u. schema_process_field P f s = Ok u" by (cases s) (simp add: schema_process_field_def)
    with Cons show ?case by auto
  qed simp
  with assms obtain r where "fold_ok (schema_process_field P) (fields_list flds) ([], []) = Ok r" by blast
  with v show ?thesis by (cases r) (simp add: schema_process_fields_def)
qed

lemma schema_struct_process_Ok:
  assumes "\<forall>f\<in>set (fields_list (st_fields input)). \<exists>a. parse_attributes P (fld_attrs f) = Ok a"
  shows "\<exists>code. schema_struct_process P tokens cr input = Ok code"
  using schema_process_fields_Ok [OF assms, of "find_new (without_defaults (st_generics input))"]
  by (auto simp: schema_struct_process_def Let_def generics_result_def)

subsection \<open>Enums\<close>

definition output_of :: "string \<Rightarrow> item_enum \<Rightarrow> bool \<Rightarrow> nat \<times> variant \<Rightarrow> variant_output" where
  "output_of cr input u x =
     (let inner = inner_struct_definition (snd x) cr (en_ident input @ var_ident (snd x)) (without_defaults (en_generics input))
      in \<lparr>vo_inner_struct = fst inner, vo_generics = snd inner,
          vo_discriminant = discriminant_tokens (discriminants_new (en_variants input)) u x, vo_name = var_ident (snd x)\<rparr>)"

lemma schema_enum_outputs:
  assumes "schema_enum_process P tokens cr input = Ok code" and "contains_use_discriminant input = Ok u"
  shows "sec_variants code = List.map (output_of cr input u) (List.enumerate 0 (en_variants input))"
    and "fst (sec_declaration code) = en_ident input"
    and "x \<in> set (List.enumerate 0 (en_variants input)) \<Longrightarrow>
      (\<forall>f\<in>set (fields_list (var_fields (snd x))). \<exists>a. parse_attributes P (fld_attrs f) = Ok a) \<and>
      discriminants_get (discriminants_new (en_variants input)) (var_ident (snd x)) u (fst x) =
        Ok (discriminant_tokens (discriminants_new (en_variants input)) u x)"
proof -
  let ?D = "discriminants_new (en_variants input)" and ?g = "without_defaults (en_generics input)"
  let ?step = "schema_process_variant P ?D u cr (en_ident input) ?g"
  from assms obtain v where f: "fold_ok ?step (List.enumerate 0 (en_variants input)) (find_new ?g, []) = Ok (v, sec_variants code)"
    and decl: "fst (sec_declaration code) = en_ident input"
    by (auto simp: schema_enum_process_def Let_def and_ok_Ok_iff generics_result_def)
  then show "fst (sec_declaration code) = en_ident input" by simp
  have step: "snd t = snd s @ [output_of cr input u x] \<and>
      (\<forall>f\<in>set (fields_list (var_fields (snd x))). \<exists>a. parse_attributes P (fld_attrs f) = Ok a) \<and>
      discriminants_get ?D (var_ident (snd x)) u (fst x) = Ok (discriminant_tokens ?D u x)"
    if step: "?step x s = Ok t" for x s t
  proof -
    obtain i v where x: "x = (i, v)" by (cases x)
    obtain w os where s: "s = (w, os)" by (cases s)
    obtain inner ig where inner: "inner_struct_definition v cr (en_ident input @ var_ident v) ?g = (inner, ig)" by fastforce
    from step obtain w' d where "visit_struct_fields P (var_fields v) w = Ok w'" and d: "discriminants_get ?D (var_ident v) u i = Ok d"
      and t: "snd t = os @ [\<lparr>vo_inner_struct = inner, vo_generics = ig, vo_discriminant = d, vo_name = var_ident v\<rparr>]"
      by (auto simp: x s schema_process_variant_def Ident_new_def Let_def and_ok_Ok_iff inner split: if_splits)
    then show ?thesis
      using visit_struct_fields_Ok_iff [of P "var_fields v" w] by (auto simp: x s output_of_def Let_def inner discriminant_tokens_def)
  qed
  show "sec_variants code = List.map (output_of cr input u) (List.enumerate 0 (en_variants input))"
    using fold_ok_appends [OF f, where view = snd and out = "\<lambda>x. [output_of cr input u x]"] step
    by (simp add: concat_map_singleton)
  show "(\<forall>f\<in>set (fields_list (var_fields (snd x))). \<exists>a. parse_attributes P (fld_attrs f) = Ok a) \<and>
      discriminants_get ?D (var_ident (snd x)) u (fst x) = Ok (discriminant_tokens ?D u x)"
    if "x \<in> set (List.enumerate 0 (en_variants input))"
    using fold_ok_each [OF f that] step by blast
qed

lemma all_some_map: "\<forall>x\<in>set xs. f x = Some (g x) \<Longrightarrow> all_some (List.map f xs) = Some (List.map g xs)"
  by (induction xs) simp_all

text \<open>The variant of \<open>Schema_Model\<close>, with the declarations of its struct's parameters.\<close>

definition variant_of ::
  "literal_parsers \<Rightarrow> (ty \<Rightarrow> string) \<Rightarrow> string \<Rightarrow> schema_env \<Rightarrow> item_enum \<Rightarrow> bool \<Rightarrow> nat \<times> variant \<Rightarrow> schema_variant" where
  "variant_of P tokens cr E input u x =
     \<lparr>variant_name = var_ident (snd x),
      variant_discriminant = (case declared_tag (en_variants input) u x of Some n \<Rightarrow> word_of_int n | None \<Rightarrow> 0),
      variant_params =
        (case schema_struct_process P tokens cr (vo_inner_struct (output_of cr input u x)) of
            Ok code \<Rightarrow> List.map (\<lambda>t. declaration_of (env_type E t)) (snd (sc_declaration code)) | _ \<Rightarrow> []),
      variant_fields = item_of P E (var_fields (snd x))\<rparr>"

definition variants_scoped :: "item_enum \<Rightarrow> bool" where
  "variants_scoped input \<longleftrightarrow> (\<forall>v\<in>set (en_variants input). \<forall>p\<in>set (type_params (en_generics input)).
     (\<exists>f\<in>set (fields_list (var_fields v)). mentions_type p (fld_ty f)) \<longrightarrow>
     (\<exists>f\<in>set (fields_list (var_fields v)). uses p f))"

lemma type_params_without_defaults [simp]: "type_params (without_defaults g) = type_params g"
proof -
  have "type_param (without_default x) = type_param x" for x by (cases x) simp_all
  then have "List.map_filter type_param (List.map without_default gs) = List.map_filter type_param gs" for gs
    by (induction gs) (simp_all add: List.map_filter_simps split: option.split)
  then show ?thesis by (simp add: type_params_def without_defaults_def)
qed

lemma variant_code_is:
  assumes "schema_enum_process P tokens cr input = Ok code" and u: "contains_use_discriminant input = Ok u"
    and disc: "u \<longrightarrow> discriminants_accepted (en_variants input)"
    and wf: "\<forall>v\<in>set (en_variants input). fields_wf (var_fields v)" and scoped: "variants_scoped input"
    and x: "x \<in> set (List.enumerate 0 (en_variants input))"
  shows "exec_variant P tokens cr E (type_params (en_generics input)) (output_of cr input u x) =
    Some (let v = variant_of P tokens cr E input u x
          in (ucast (variant_discriminant v), variant_name v, variant_schema (en_ident input) v))"
proof -
  obtain inner ig where inner: "inner_struct_definition (snd x) cr (en_ident input @ var_ident (snd x))
      (without_defaults (en_generics input)) = (inner, ig)" by fastforce
  have out: "vo_inner_struct (output_of cr input u x) = inner" by (simp add: output_of_def inner)
  note params = variant_params [OF inner]
  from x have v: "snd x \<in> set (en_variants input)" by (simp add: enumerated)
  from schema_enum_outputs(3) [OF assms(1) u x]
  have ok: "\<forall>f\<in>set (fields_list (st_fields inner)). \<exists>a. parse_attributes P (fld_attrs f) = Ok a"
    and get: "discriminants_get (discriminants_new (en_variants input)) (var_ident (snd x)) u (fst x) =
      Ok (discriminant_tokens (discriminants_new (en_variants input)) u x)"
    by (auto simp: params(4) filtered_field_def filter_attrs_twice)
  from schema_struct_process_Ok [OF ok] obtain sc where sc: "schema_struct_process P tokens cr inner = Ok sc" by blast
  have "fields_wf (st_fields inner)" using wf v by (simp add: params(4))
  from struct_code_is [OF sc this, of E]
  have exec: "schema_struct_exec E sc = Some (derived_struct_schema (en_ident input @ var_ident (snd x))
      (List.map (\<lambda>t. declaration_of (env_type E t)) (snd (sc_declaration sc))) (item_of P E (var_fields (snd x))))"
    by (simp add: params(3,4))
  have "in_scope (type_params (en_generics input)) inner"
    using variant_in_scope [OF inner] scoped v by (auto simp: variants_scoped_def)
  moreover from tag_of_tokens [OF disc x get] obtain n where "declared_tag (en_variants input) u x = Some n"
    and "tag_of (discriminant_tokens (discriminants_new (en_variants input)) u x) = Some (word_of_int n)" by blast
  ultimately show ?thesis
    by (simp add: exec_variant_def exec_inner_def out sc exec variant_of_def variant_schema_def Let_def)
      (simp add: output_of_def Let_def)
qed

lemma enum_code_is:
  assumes "schema_enum_process P tokens cr input = Ok code" and "contains_use_discriminant input = Ok u"
    and "u \<longrightarrow> discriminants_accepted (en_variants input)"
    and "\<forall>v\<in>set (en_variants input). fields_wf (var_fields v)" and "variants_scoped input"
  shows "schema_enum_exec P tokens cr E (type_params (en_generics input)) code = Some (derived_enum_schema (en_ident input)
    (List.map (\<lambda>t. declaration_of (env_type E t)) (snd (sec_declaration code)))
    (List.map (variant_of P tokens cr E input u) (List.enumerate 0 (en_variants input))))"
proof -
  let ?v = "variant_of P tokens cr E input u"
  let ?entry = "\<lambda>x. (ucast (variant_discriminant (?v x)), variant_name (?v x), variant_schema (en_ident input) (?v x))"
  note outs = schema_enum_outputs [OF assms(1,2)]
  have "all_some (List.map (exec_variant P tokens cr E (type_params (en_generics input))) (sec_variants code)) =
      Some (List.map ?entry (List.enumerate 0 (en_variants input)))"
    unfolding outs(1) map_map
    by (rule all_some_map) (use variant_code_is [OF assms] in \<open>simp add: Let_def\<close>)
  moreover have "exec_declaration E (sec_declaration code) =
      derived_declaration (en_ident input) (List.map (\<lambda>t. declaration_of (env_type E t)) (snd (sec_declaration code)))"
    using exec_declaration_is outs(2) by (metis prod.collapse)
  ultimately show ?thesis
    by (simp add: schema_enum_exec_def derived_enum_schema_def Let_def comp_def)
qed

subsection \<open>The schema of a derived struct describes its bytes\<close>

text \<open>A field whose type is described by its schema, and whose schema is not overridden.\<close>

definition described_field ::
  "literal_parsers \<Rightarrow> schema_env \<Rightarrow> (syn_field \<Rightarrow> 'v \<Rightarrow> bytes) \<Rightarrow> (syn_field \<Rightarrow> 'v \<Rightarrow> bool) \<Rightarrow> syn_field \<Rightarrow> bool" where
  "described_field P E enc ok f \<longleftrightarrow> (\<not> at_skip (attrs_of P f) \<longrightarrow>
     schema_declaration (attrs_of P f) = None \<and> schema_definitions (attrs_of P f) = None \<and>
     described_impl (env_type E (fld_ty f)) (enc f) (ok f))"

lemma described_field_is:
  assumes "described_field P E enc ok f" and "\<not> at_skip (attrs_of P f)"
  shows "field_declaration (schema_field_of P E f) = declaration_of (env_type E (fld_ty f))"
    and "field_definitions (schema_field_of P E f) = add_definitions_recursively (env_type E (fld_ty f))"
    and "described_impl (env_type E (fld_ty f)) (enc f) (ok f)"
  using assms by (simp_all add: described_field_def field_definitions_def field_declaration_def schema_field_of_def)

lemma described_fields_add:
  assumes "\<forall>f\<in>set fs. described_field P E enc ok f"
  shows "adds (for_each field_definitions (List.map (schema_field_of P E) (kept_fields P fs)))
    (\<Union>g\<in>set (List.map (schema_field_of P E) (kept_fields P fs)). {field_declaration g}) {}"
proof (rule adds_each)
  fix g assume "g \<in> set (List.map (schema_field_of P E) (kept_fields P fs))"
  then obtain f where "g = schema_field_of P E f" "f \<in> set fs" "\<not> at_skip (attrs_of P f)"
    by (auto simp: kept_fields_def)
  with assms described_field_is [of P E enc ok f] schema_impl.adds_impl [OF described_impl.axioms(1)]
  show "adds (field_definitions g) {field_declaration g} {}" by metis
qed

lemma fields_encode:
  assumes "length fs = length vals" and "\<forall>f\<in>set fs. described_field P E enc ok f" and "fields_ok P ok fs vals"
    and "ordered d" and "for_each field_definitions (List.map (schema_field_of P E) (kept_fields P fs)) d = Some (Ok (), d')"
  shows "encodes_all (map_of d') (List.map (\<lambda>f. field_declaration (schema_field_of P E f)) (kept_fields P fs))
    (fields_enc P enc fs vals)"
  using assms
proof (induction fs vals arbitrary: d rule: list_induct2)
  case Nil
  then show ?case by (simp add: kept_fields_def fields_enc_def none)
next
  case (Cons f fs v vals)
  have ok: "fields_ok P ok fs vals" using Cons.prems(2) by (auto simp: fields_ok_def)
  show ?case
  proof (cases "at_skip (attrs_of P f)")
    case True
    with Cons.IH [OF _ ok Cons.prems(3)] Cons.prems show ?thesis by (simp add: kept_fields_def fields_enc_def)
  next
    case False
    let ?T = "env_type E (fld_ty f)"
    from Cons.prems(1) have "described_field P E enc ok f" by simp
    note field = described_field_is [OF this False] and T = described_field_is(3) [OF this False]
    have kept: "kept_fields P (f # fs) = f # kept_fields P fs" using False by (simp add: kept_fields_def)
    from Cons.prems(4) obtain d1 where d1: "add_definitions_recursively ?T d = Some (Ok (), d1)"
      and rest: "for_each field_definitions (List.map (schema_field_of P E) (kept_fields P fs)) d1 = Some (Ok (), d')"
      by (auto simp: kept field(2) and_then_Ok_iff)
    have "grows d d1" using adds_Ok [OF schema_impl.adds_impl [OF described_impl.axioms(1) [OF T]] Cons.prems(3) d1] by blast
    then have o1: "ordered d1" by (simp add: grows_def)
    have g: "grows d1 d'"
      using adds_Ok [OF described_fields_add o1 rest] Cons.prems(1) by auto
    have "ok f v" using Cons.prems(2) False by (auto simp: fields_ok_def)
    from described_impl.described_larger [OF T this Cons.prems(3) d1 g]
    have "encodes (map_of d') (field_declaration (schema_field_of P E f)) (enc f v)"
      by (simp add: field(1))
    from more [OF this Cons.IH [OF _ ok o1 rest]] Cons.prems(1) False show ?thesis
      by (simp add: kept fields_enc_def)
  qed
qed

lemma item_refs:
  "refs (Struct (fst (process_fields (item_of P E flds)))) =
     List.map (\<lambda>f. field_declaration (schema_field_of P E f)) (kept_fields P (fields_list flds))"
  "snd (process_fields (item_of P E flds)) = List.map (schema_field_of P E) (kept_fields P (fields_list flds))"
  by (cases flds; simp add: Let_def kept_filter comp_def kept_fields_def)+

lemma derived_struct_encodes:
  assumes "\<forall>f\<in>set (fields_list flds). described_field P E enc ok f" and "fields_ok P ok (fields_list flds) vals"
    and "for_type (derived_struct_schema ident params (item_of P E flds)) = Some (Ok c)"
  shows "encodes (get_definition c) (container_declaration c) (fields_enc P enc (fields_list flds) vals)"
proof -
  let ?B = "derived_struct_schema ident params (item_of P E flds)" and ?self = "derived_declaration ident params"
  let ?fs = "List.map (schema_field_of P E) (kept_fields P (fields_list flds))"
  let ?def = "Struct (fst (process_fields (item_of P E flds)))"
  from assms(3) obtain d' where r: "add_definitions_recursively ?B [] = Some (Ok (), d')"
    and c: "c = container_new (declaration_of ?B) d'"
    by (auto simp: for_type_def split: option.splits prod.splits outcome.splits)
  from r have "and_then (add_definition ?self ?def) (\<lambda>_. for_each field_definitions ?fs) [] = Some (Ok (), d')"
    by (simp add: derived_struct_schema_def Let_def item_refs(2))
  from entry_table [OF this _ described_fields_add [OF assms(1)]] obtain d1 where "ordered d1" and "for_each field_definitions ?fs d1 = Some (Ok (), d')"
    and t: "map_of d' ?self = Some ?def" by (auto simp: ordered_def)
  with fields_encode [OF _ assms(1,2)] assms(2)
  have "encodes_all (map_of d') (refs ?def) (fields_enc P enc (fields_list flds) vals)"
    by (simp add: item_refs(1) fields_ok_def)
  from struct [where D = "map_of d'", OF t this] have "encodes (map_of d') ?self (fields_enc P enc (fields_list flds) vals)" .
  moreover have "get_definition c = map_of d'" by (rule ext) (simp add: c get_definition_def container_new_def)
  ultimately show ?thesis by (simp add: c container_new_def derived_struct_schema_def Let_def)
qed

end
