(* ===== verification/Derive_Properties.thy ===== *)
theory Derive_Properties
  imports Derive_Entry Derive_Schema_Laws
begin

section \<open>Properties of the derive macros\<close>

text \<open>
  The claims about the macros: what they accept, the bounds that they generate, and what the
  generated code does.
\<close>

subsection \<open>Examples\<close>

text \<open>Fields without attributes and fields with \<open>#[borsh(skip)]\<close>, and no parser of literals.\<close>

definition no_literals :: literal_parsers where
  "no_literals = \<lparr>parse_expr_path = (\<lambda>_. Err ''''), parse_predicates = (\<lambda>_. Err ''''), parse_overrides = (\<lambda>_. Err ''''),
     is_identifier = ascii_identifier\<rparr>"

definition plain :: "ident option \<Rightarrow> ty \<Rightarrow> syn_field" where
  "plain name t = \<lparr>fld_ident = name, fld_ty = t, fld_attrs = []\<rparr>"

definition skipped :: "ident option \<Rightarrow> ty \<Rightarrow> syn_field" where
  "skipped name t = \<lparr>fld_ident = name, fld_ty = t,
     fld_attrs = [\<lparr>attr_path = ''borsh'', attr_args = Some [Meta ''skip'' NoValue]\<rparr>]\<rparr>"

definition no_attributes :: attributes where
  "no_attributes = \<lparr>at_bounds = None, at_serialize_with = None, at_deserialize_with = None, at_skip = False, at_schema = None\<rparr>"

lemma parse_plain: "parse_attributes P (fld_attrs (plain name t)) = Ok no_attributes"
  by (simp add: parse_attributes_def get_one_attribute_def plain_def attributes_from_def take_variant_def no_attributes_def)

lemma parse_skipped: "parse_attributes P (fld_attrs (skipped name t)) = Ok (no_attributes\<lparr>at_skip := True\<rparr>)"
  by (simp add: parse_attributes_def get_one_attribute_def skipped_def attr_get_by_symbol_keys_def attr_nested_meta_def
      parse_nested_meta_def get_nested_meta_logic_def BORSH_FIELD_PARSE_MAP_def path_is_def symbol_defs leftover_def
      attributes_from_def take_variant_def check_field_def check_schema_def no_attributes_def)

lemma attrs_of_plain [simp]: "attrs_of P (plain name t) = no_attributes"
  by (simp add: attrs_of_def parse_plain)

lemma attrs_of_skipped [simp]: "attrs_of P (skipped name t) = no_attributes\<lparr>at_skip := True\<rparr>"
  by (simp add: attrs_of_def parse_skipped)

lemma example_fields [simp]:
  "fld_ident (plain name t) = name" "fld_ty (plain name t) = t"
  "fld_ident (skipped name t) = name" "fld_ty (skipped name t) = t"
  by (simp_all add: plain_def skipped_def)

lemma no_attributes_simps [simp]:
  "at_bounds no_attributes = None" "at_serialize_with no_attributes = None" "at_deserialize_with no_attributes = None"
  "\<not> at_skip no_attributes" "at_schema no_attributes = None"
  by (simp_all add: no_attributes_def)

text \<open>\<open>struct Pair<T> { first: u8, #[borsh(skip)] second: T }\<close>\<close>

definition pair_struct :: item_struct where
  "pair_struct = \<lparr>st_ident = ''Pair'', st_generics = \<lparr>gen_params = [ParamType ''T'' [] None], gen_where = None\<rparr>,
     st_fields = FieldsNamed [plain (Some ''first'') (ident_type ''u8''), skipped (Some ''second'') (ident_type ''T'')],
     st_attrs = []\<rparr>"

text \<open>\<open>enum Choice { Nothing, Byte(u8) }\<close>\<close>

definition choice_enum :: item_enum where
  "choice_enum = \<lparr>en_ident = ''Choice'', en_generics = \<lparr>gen_params = [], gen_where = None\<rparr>,
     en_variants =
       [\<lparr>var_ident = ''Nothing'', var_fields = FieldsUnit, var_discriminant = None\<rparr>,
        \<lparr>var_ident = ''Byte'', var_fields = FieldsUnnamed [plain None (ident_type ''u8'')], var_discriminant = None\<rparr>],
     en_attrs = []\<rparr>"

definition type_tokens :: "ty \<Rightarrow> string" where
  "type_tokens t = (case t of TypePath None (Path False [Segment i NoArguments]) \<Rightarrow> i | _ \<Rightarrow> [])"

definition byte_ser :: "('w, u8) ser_impls" where
  "byte_ser = \<lparr>ser_impl = (\<lambda>_. u8_ser), ser_with = (\<lambda>_ _ _. ret ())\<rparr>"

definition byte_de :: "('r, u8) de_impls" where
  "byte_de = \<lparr>de_impl = (\<lambda>_. u8_de), de_with = (\<lambda>_ _. ret 0), default_of = (\<lambda>_. 0)\<rparr>"

lemma byte_contracts:
  "ser_contract P byte_ser (\<lambda>_ b. [b]) (\<lambda>_ _. True) (plain name t)"
  "de_contract P byte_de (\<lambda>_ b. [b]) (\<lambda>_ _. True) (plain name t)"
  "ser_contract P byte_ser (\<lambda>_ b. [b]) (\<lambda>_ _. True) (skipped name t)"
  "de_contract P byte_de (\<lambda>_ b. [b]) (\<lambda>_ _. True) (skipped name t)"
  by (simp_all add: ser_contract_def de_contract_def byte_ser_def byte_de_def u8_ser_def u8_de_def emits_u8 decodes_u8)

text \<open>What the macros make of the two items.\<close>

lemmas process_eval = parse_plain parse_skipped Let_def without_defaults_def default_where_def type_params_def
  find_new_def ser_field_bounds_def needs_bounds_derive_def get_bounds_def collect_bounds_def visit_field_def
  visit_type_top_level_def ident_type_def process_for_bounds_def compute_predicates_def add_predicate_def
  List.map_filter_simps contains_initialize_with_def contains_use_discriminant_def find_borsh_def type_tokens_def

lemma no_literals_identifier: "is_identifier no_literals = ascii_identifier"
  by (simp add: no_literals_def)

lemmas identifier_eval = Ident_new_def no_literals_identifier ascii_identifier_def ident_char_def

lemma pair_ser: "\<exists>code. ser_struct_process no_literals type_tokens ''borsh'' pair_struct = Ok code"
  by (simp add: ser_struct_process_def ser_struct_fields_def pair_struct_def ser_process_field_def unwrap_ident_def process_eval)

lemma pair_de: "\<exists>code. de_struct_process no_literals Ok type_tokens ''borsh'' pair_struct = Ok code"
  by (simp add: de_struct_process_def pair_struct_def de_process_field_def process_eval)

lemma choice_use: "contains_use_discriminant choice_enum = Ok False"
  by (simp add: choice_enum_def process_eval)

lemma choice_ser: "\<exists>code. ser_enum_process no_literals type_tokens ''borsh'' choice_enum = Ok code"
  by (simp add: ser_enum_process_def choice_use)
    (simp add: choice_enum_def ser_enum_variant_def ser_process_variant_def discriminants_get_def ser_enum_process_field_def
      new_enum_unnamed_def field_index_def map_outcome_def process_eval)

lemma choice_de: "\<exists>code. de_enum_process no_literals Ok type_tokens ''borsh'' choice_enum = Ok code"
  by (simp add: de_enum_process_def choice_use)
    (simp add: choice_enum_def de_enum_variant_def de_process_variant_def discriminants_get_def de_process_field_def process_eval)

lemma choice_accepted: "enum_accepted no_literals (en_variants choice_enum)"
  by (simp add: enum_accepted_def choice_enum_def)

subsection \<open>Attributes\<close>

text \<open>
  C20. The parser of field attributes never panics, whatever the attributes are: the
  \<open>unreachable!()\<close> arms of the conversions are not reached. What it accepts is consistent:
  at most one \<open>borsh\<close> attribute, both schema functions or none, and a skipped field has
  neither \<open>serialize_with\<close>, \<open>deserialize_with\<close>, schema functions nor schema parameters.
\<close>

theorem field_attributes_consistent:
  assumes "parsers_return P"
  shows "parse_attributes P attrs \<noteq> Panic \<and>
    (case parse_attributes P attrs of
        Ok a \<Rightarrow> length (filter_attrs attrs) \<le> 1 \<and> (schema_declaration a = None \<longleftrightarrow> schema_definitions a = None) \<and>
          (at_skip a \<longrightarrow> at_serialize_with a = None \<and> at_deserialize_with a = None \<and>
            schema_declaration a = None \<and> needs_schema_params_derive a)
      | _ \<Rightarrow> True)"
proof (cases "parse_attributes P attrs")
  case (Ok a)
  from parse_attributes_consistent [OF Ok] Ok show ?thesis by simp
next
  case Panic
  with parse_attributes_returns [OF assms, of attrs] show ?thesis by simp
qed simp

theorem field_attributes_consistent_witness:
  "parse_attributes no_literals (fld_attrs (skipped None (ident_type ''u8''))) \<noteq> Panic"
  using field_attributes_consistent [of no_literals] by (auto simp: parsers_return_def no_literals_def)

subsection \<open>Discriminants\<close>

text \<open>
  C21. When the outermost operator of every explicit discriminant binds at least as tightly
  as \<open>+\<close>, the tokens that the macro computes for a variant have the value that the compiler
  assigns to it, for every list of variants.
\<close>

theorem discriminants_agree:
  assumes "\<forall>v\<in>set vs. case var_discriminant v of None \<Rightarrow> True | Some ts \<Rightarrow>
      (case parse_tokens ts of None \<Rightarrow> False | Some e \<Rightarrow> additive e)"
  shows "\<exists>M. compiler_discriminants vs = Some M \<and> dom M = dom (discriminants_new vs) \<and>
    (\<forall>i ts. discriminants_new vs i = Some ts \<longrightarrow> token_value ts = M i)"
  using assms by (intro discriminants_agree_impl) (fastforce split: option.splits)

text \<open>\<open>enum { A, B = 3 * 2, C, D }\<close>\<close>

theorem discriminants_agree_witness:
  "\<exists>M. compiler_discriminants
      [\<lparr>var_ident = ''A'', var_fields = FieldsUnit, var_discriminant = None\<rparr>,
       \<lparr>var_ident = ''B'', var_fields = FieldsUnit, var_discriminant = Some [TNum 3, TOp Mul, TNum 2]\<rparr>,
       \<lparr>var_ident = ''C'', var_fields = FieldsUnit, var_discriminant = None\<rparr>,
       \<lparr>var_ident = ''D'', var_fields = FieldsUnit, var_discriminant = None\<rparr>] = Some M \<and> M ''D'' = Some 8"
    (is "\<exists>M. compiler_discriminants ?vs = Some M \<and> _")
proof -
  have "\<forall>v\<in>set ?vs. case var_discriminant v of None \<Rightarrow> True | Some ts \<Rightarrow>
      (case parse_tokens ts of None \<Rightarrow> False | Some e \<Rightarrow> additive e)"
    by (simp add: parse_tokens_def collapse_def)
  from discriminants_agree [OF this] obtain M where M: "compiler_discriminants ?vs = Some M"
    and agree: "\<And>i ts. discriminants_new ?vs i = Some ts \<Longrightarrow> token_value ts = M i" by blast
  have "discriminants_new ?vs ''D'' = Some [TNum 3, TOp Mul, TNum 2, TOp Add, TNum 1, TOp Add, TNum 1]"
    by (simp add: discriminants_new_def)
  from agree [OF this] have "M ''D'' = Some 8"
    by (simp add: token_value_def parse_tokens_def collapse_def)
  with M show ?thesis by blast
qed

text \<open>
  Without that condition they differ, because \<open>+ 1\<close> is appended to the tokens without
  parentheses: for \<open>enum { A = 1 << 3, B }\<close> the compiler assigns 9 to \<open>B\<close>, and the macro
  writes \<open>1 << 3 + 1\<close>, which is 16.
\<close>

lemma discriminant_precedence:
  "compiler_discriminants
      [\<lparr>var_ident = ''A'', var_fields = FieldsUnit, var_discriminant = Some [TNum 1, TOp Shl, TNum 3]\<rparr>,
       \<lparr>var_ident = ''B'', var_fields = FieldsUnit, var_discriminant = None\<rparr>] =
     Some [''A'' \<mapsto> 8, ''B'' \<mapsto> 9] \<and>
   map_option tag_of (discriminants_new
      [\<lparr>var_ident = ''A'', var_fields = FieldsUnit, var_discriminant = Some [TNum 1, TOp Shl, TNum 3]\<rparr>,
       \<lparr>var_ident = ''B'', var_fields = FieldsUnit, var_discriminant = None\<rparr>] ''B'') = Some (Some 16)"
  by (simp add: compiler_discriminants_def discriminants_new_def tag_of_def token_value_def parse_tokens_def collapse_def)

subsection \<open>Derived serialization\<close>

text \<open>
  C22. The round trip of derived structs. When the implementation for the type of every
  field that is not skipped, or the function of its attribute, writes and reads the same
  encoding, the derived \<open>deserialize_reader\<close> reads back what the derived \<open>serialize\<close> wrote:
  the fields in their order, the default in place of a skipped one, and at the end the
  \<open>init\<close> method.
\<close>

theorem derived_struct_round_trip:
  assumes "ser_struct_process P tokens cratename input = Ok ser_code"
    and "de_struct_process P parse_path tokens cratename input = Ok de_code" and "fields_wf (st_fields input)"
    and "fields_ok P ok (fields_list (st_fields input)) vals"
    and "\<forall>f\<in>set (fields_list (st_fields input)). ser_contract P S enc ok f \<and> de_contract P D enc ok f"
  shows "\<exists>bs. ser_struct_exec S (st_fields input) ser_code vec_writer vals [] = Some (Ok (), bs) \<and>
    (\<forall>rest. de_struct_exec D init_method (st_fields input) de_code slice_reader (bs @ rest) =
      Some (Ok (case ds_init de_code of
          Some m \<Rightarrow> init_method m (fields_reset P D (fields_list (st_fields input)) vals)
        | None \<Rightarrow> fields_reset P D (fields_list (st_fields input)) vals), rest))"
proof -
  let ?fs = "fields_list (st_fields input)"
  have "emits (\<lambda>W. ser_struct_exec S (st_fields input) ser_code W vals) (fields_enc P enc ?fs vals)"
    by (rule struct_emits [OF assms(1,3,4)]) (use assms(5) in blast)
  then have "ser_struct_exec S (st_fields input) ser_code vec_writer vals [] = Some (Ok (), fields_enc P enc ?fs vals)"
    using emits_vec by fastforce
  moreover have "decodes (de_struct_exec D init_method (st_fields input) de_code slice_reader)
      ((case ds_init de_code of Some m \<Rightarrow> init_method m | None \<Rightarrow> id) (fields_reset P D ?fs vals)) (fields_enc P enc ?fs vals)"
    by (rule struct_decodes [OF assms(2,4)]) (use assms(5) in blast)
  ultimately show ?thesis by (auto simp: decodes_def split: option.splits)
qed

theorem derived_struct_round_trip_witness:
  "\<exists>ser_code de_code bs.
     ser_struct_process no_literals type_tokens ''borsh'' pair_struct = Ok ser_code \<and>
     de_struct_process no_literals Ok type_tokens ''borsh'' pair_struct = Ok de_code \<and> ds_init de_code = None \<and>
     ser_struct_exec byte_ser (st_fields pair_struct) ser_code vec_writer [7, 9] [] = Some (Ok (), bs) \<and>
     de_struct_exec byte_de (\<lambda>_ v. v) (st_fields pair_struct) de_code slice_reader (bs @ [1]) = Some (Ok [7, 0], [1])"
proof -
  obtain sc where sc: "ser_struct_process no_literals type_tokens ''borsh'' pair_struct = Ok sc" using pair_ser by blast
  obtain dc where dc: "de_struct_process no_literals Ok type_tokens ''borsh'' pair_struct = Ok dc" using pair_de by blast
  have "ds_init dc = None"
    using dc by (auto simp: de_struct_process_def pair_struct_def de_process_field_def process_eval)
  moreover have "fields_reset no_literals byte_de (fields_list (st_fields pair_struct)) [7, 9] = [7, 0]"
    by (simp add: fields_reset_def pair_struct_def byte_de_def)
  ultimately show ?thesis
    using sc dc derived_struct_round_trip [OF sc dc, of "\<lambda>_ _. True" "[7, 9]" byte_ser "\<lambda>_ b. [b]" byte_de "\<lambda>_ v. v"]
    by (force simp: pair_struct_def fields_ok_def byte_contracts)
qed

text \<open>
  C24. The round trip of derived enums. The first byte is the position of the variant, or its
  discriminant under \<open>use_discriminant\<close>, the fields follow, and the derived
  \<open>deserialize_reader\<close> reads the same variant back. \<open>enum_accepted\<close> and
  \<open>discriminants_accepted\<close> are what the compiler demands of the enum.
\<close>

theorem derived_enum_round_trip:
  assumes "ser_enum_process P tokens cratename input = Ok ser_code"
    and "de_enum_process P parse_path tokens cratename input = Ok de_code"
    and "contains_use_discriminant input = Ok u" and "enum_accepted P (en_variants input)"
    and "u \<longrightarrow> discriminants_accepted (en_variants input)"
    and "i < length (en_variants input)" and "v = en_variants input ! i"
    and "fields_ok P ok (fields_list (var_fields v)) vals"
    and "\<forall>f\<in>set (fields_list (var_fields v)). ser_contract P S enc ok f \<and> de_contract P D enc ok f"
  shows "\<exists>n bs. declared_tag (en_variants input) u (i, v) = Some n \<and>
    ser_enum_exec S (en_variants input) ser_code vec_writer (var_ident v, vals) [] = Some (Ok (), word_of_int n # bs) \<and>
    (\<forall>rest. de_enum_exec D init_method (en_variants input) de_code slice_reader (word_of_int n # bs @ rest) =
      Some (Ok (case de_init de_code of
          Some m \<Rightarrow> init_method m (var_ident v, fields_reset P D (fields_list (var_fields v)) vals)
        | None \<Rightarrow> (var_ident v, fields_reset P D (fields_list (var_fields v)) vals)), rest))"
proof -
  let ?vs = "en_variants input" and ?fs = "fields_list (var_fields v)"
  have x: "(i, v) \<in> set (List.enumerate 0 ?vs)" using assms(6,7) by (auto simp: in_set_enumerate_eq)
  from tag_of_tokens [OF assms(5) x] ser_enum_got [OF assms(1,3) x] obtain n where
    n: "declared_tag ?vs u (i, v) = Some n" "0 \<le> n" "n < 256" by blast
  have "emits (\<lambda>W. ser_enum_exec S ?vs ser_code W (var_ident v, vals)) (word_of_int n # fields_enc P enc ?fs vals)"
    by (rule enum_emits [OF assms(1,4,3,5) x n(1) assms(8)]) (use assms(9) in blast)
  then have "ser_enum_exec S ?vs ser_code vec_writer (var_ident v, vals) [] = Some (Ok (), word_of_int n # fields_enc P enc ?fs vals)"
    using emits_vec by fastforce
  moreover have "decodes (de_enum_exec D init_method ?vs de_code slice_reader)
      ((case de_init de_code of Some m \<Rightarrow> init_method m | None \<Rightarrow> id) (var_ident v, fields_reset P D ?fs vals))
      (word_of_int n # fields_enc P enc ?fs vals)"
    by (rule enum_decodes [OF assms(2,4,3,5) x n assms(8)]) (use assms(9) in blast)
  ultimately show ?thesis using n(1) by (auto simp: decodes_def split: option.splits)
qed

theorem derived_enum_round_trip_witness:
  "\<exists>ser_code de_code n bs.
     ser_enum_process no_literals type_tokens ''borsh'' choice_enum = Ok ser_code \<and>
     de_enum_process no_literals Ok type_tokens ''borsh'' choice_enum = Ok de_code \<and>
     declared_tag (en_variants choice_enum) False (1, en_variants choice_enum ! 1) = Some n \<and>
     ser_enum_exec byte_ser (en_variants choice_enum) ser_code vec_writer (''Byte'', [7]) [] = Some (Ok (), word_of_int n # bs)"
proof -
  obtain sc where sc: "ser_enum_process no_literals type_tokens ''borsh'' choice_enum = Ok sc" using choice_ser by blast
  obtain dc where dc: "de_enum_process no_literals Ok type_tokens ''borsh'' choice_enum = Ok dc" using choice_de by blast
  from derived_enum_round_trip [OF sc dc choice_use choice_accepted, of 1 "en_variants choice_enum ! 1"
      "\<lambda>_ _. True" "[7]" byte_ser "\<lambda>_ b. [b]" byte_de "\<lambda>_ v. v"]
  show ?thesis using sc dc by (force simp: choice_enum_def fields_ok_def byte_contracts)
qed

text \<open>
  A byte that is the tag of no variant is refused: the derived \<open>deserialize_reader\<close>
  returns \<open>InvalidData\<close> with the tag in the message, and has consumed only that byte.
\<close>

lemma derived_enum_unknown_tag:
  assumes "de_enum_process P parse_path tokens cratename input = Ok code"
    and "contains_use_discriminant input = Ok u" and "enum_accepted P (en_variants input)"
    and "u \<longrightarrow> discriminants_accepted (en_variants input)"
    and "\<forall>x\<in>set (List.enumerate 0 (en_variants input)). declared_tag (en_variants input) u x \<noteq> Some (uint tag)"
  shows "de_enum_exec D init_method (en_variants input) code slice_reader (tag # rest) =
    Some (Err (error_new InvalidData (''Unexpected variant tag: '' @ show_nat (unat tag))), rest)"
  by (rule enum_unknown_tag [OF assms(1,3,2,4,5)])

lemma derived_enum_unknown_tag_witness:
  "\<exists>code. de_enum_process no_literals Ok type_tokens ''borsh'' choice_enum = Ok code \<and>
     de_enum_exec byte_de (\<lambda>_ v. v) (en_variants choice_enum) code slice_reader [2, 5] =
       Some (Err (error_new InvalidData (''Unexpected variant tag: '' @ show_nat (unat (2 :: u8)))), [5])"
proof -
  obtain dc where dc: "de_enum_process no_literals Ok type_tokens ''borsh'' choice_enum = Ok dc" using choice_de by blast
  from derived_enum_unknown_tag [OF dc choice_use choice_accepted, of 2 byte_de "\<lambda>_ v. v" "[5]"] dc
  show ?thesis by (simp add: choice_enum_def declared_tag_def)
qed

text \<open>A variant and a struct with a field named \<open>writer\<close>.\<close>

definition writer_enum :: item_enum where
  "writer_enum = \<lparr>en_ident = ''Log'', en_generics = \<lparr>gen_params = [], gen_where = None\<rparr>,
     en_variants = [\<lparr>var_ident = ''Entry'', var_fields = FieldsNamed [plain (Some ''writer'') (ident_type ''u8'')],
       var_discriminant = None\<rparr>], en_attrs = []\<rparr>"

definition writer_struct :: item_struct where
  "writer_struct = \<lparr>st_ident = ''Entry'', st_generics = \<lparr>gen_params = [], gen_where = None\<rparr>,
     st_fields = FieldsNamed [plain (Some ''writer'') (ident_type ''u8'')], st_attrs = []\<rparr>"

text \<open>
  A field named \<open>writer\<close> of an enum variant, which is accepted in a struct, makes the
  generated code refuse the variant: the pattern binds the field under the name of the
  argument of \<open>serialize\<close>, so the call has the field where the writer belongs.
\<close>

lemma writer_field_captured:
  "(\<exists>code. ser_struct_process P tokens cratename writer_struct = Ok code \<and>
      ser_struct_exec byte_ser (st_fields writer_struct) code vec_writer [b] [] = Some (Ok (), [b])) \<and>
   (\<exists>code. ser_enum_process P tokens cratename writer_enum = Ok code \<and>
      ser_enum_exec byte_ser (en_variants writer_enum) code vec_writer (''Entry'', [b]) [] = None)"
proof
  show "\<exists>code. ser_struct_process P tokens cratename writer_struct = Ok code \<and>
      ser_struct_exec byte_ser (st_fields writer_struct) code vec_writer [b] [] = Some (Ok (), [b])"
    using emits_vec [OF emits_u8, of b "[]"]
    by (simp add: ser_struct_process_def ser_struct_fields_def writer_struct_def ser_process_field_def unwrap_ident_def
        process_eval ser_struct_exec_def serialize_output_def exec_call_def named_field_def byte_ser_def u8_ser_def)
  show "\<exists>code. ser_enum_process P tokens cratename writer_enum = Ok code \<and>
      ser_enum_exec byte_ser (en_variants writer_enum) code vec_writer (''Entry'', [b]) [] = None"
    using emits_vec [OF emits_write_all, of "[0 :: u8]" "[]"]
    by (simp add: ser_enum_process_def writer_enum_def ser_enum_variant_def ser_process_variant_def discriminants_get_def
        ser_enum_process_field_def unwrap_ident_def process_eval optimize_fields_body_def ser_enum_exec_def tag_of_literal
        tag_of_def token_value_def parse_tokens_def collapse_def to_le_bytes_byte variant_fields_of_def exec_call_def
        named_field_def and_then_def refused_def)
qed

subsection \<open>Generated bounds\<close>



text \<open>\<open>enum Either<T> { Left(T), Right(#[borsh(skip)] T) }\<close>\<close>

definition either_enum :: item_enum where
  "either_enum = \<lparr>en_ident = ''Either'', en_generics = \<lparr>gen_params = [ParamType ''T'' [] None], gen_where = None\<rparr>,
     en_variants =
       [\<lparr>var_ident = ''Left'', var_fields = FieldsUnnamed [plain None (ident_type ''T'')], var_discriminant = None\<rparr>,
        \<lparr>var_ident = ''Right'', var_fields = FieldsUnnamed [skipped None (ident_type ''T'')], var_discriminant = None\<rparr>],
     en_attrs = []\<rparr>"

lemma either_codes:
  "\<exists>code. ser_enum_process no_literals type_tokens ''borsh'' either_enum = Ok code"
  "\<exists>code. de_enum_process no_literals Ok type_tokens ''borsh'' either_enum = Ok code"
proof -
  have u: "contains_use_discriminant either_enum = Ok False" by (simp add: either_enum_def process_eval)
  show "\<exists>code. ser_enum_process no_literals type_tokens ''borsh'' either_enum = Ok code"
    by (simp add: ser_enum_process_def u)
      (simp add: either_enum_def ser_enum_variant_def ser_process_variant_def discriminants_get_def ser_enum_process_field_def
        new_enum_unnamed_def field_index_def map_outcome_def process_eval)
  show "\<exists>code. de_enum_process no_literals Ok type_tokens ''borsh'' either_enum = Ok code"
    by (simp add: de_enum_process_def u)
      (simp add: either_enum_def de_enum_variant_def de_process_variant_def discriminants_get_def de_process_field_def process_eval)
qed

text \<open>
  The bounds of a derived enum are exactly those that the fields of its variants need,
  all together: a type for which several variants need the trait is demanded once.
\<close>

lemma derived_enum_bounds_exact:
  assumes "ser_enum_process P tokens cratename input = Ok ser_code"
    and "de_enum_process P parse_path tokens cratename input = Ok de_code"
    and "params = type_params (without_defaults (en_generics input))"
    and "fs = concat (List.map (\<lambda>v. fields_list (var_fields v)) (en_variants input))"
  shows "\<exists>ss ds defaults.
    se_where ser_code = default_where (gen_where (en_generics input)) @
      compute_predicates ss (cratename @ ''::ser::BorshSerialize'') @ explicit_bounds P BoundSerialize fs \<and>
    de_where de_code = default_where (gen_where (en_generics input)) @
      compute_predicates ds (cratename @ ''::de::BorshDeserialize'') @
      compute_predicates defaults ''core::default::Default'' @ explicit_bounds P BoundDeserialize fs \<and>
    distinct (List.map tokens ss) \<and>
    tokens ` set ss = tokens ` bounded_types params (filter (\<lambda>f. \<not> at_skip (attrs_of P f) \<and> derives_bounds P BoundSerialize f) fs) \<and>
    tokens ` set ds = tokens ` bounded_types params (filter (\<lambda>f. \<not> at_skip (attrs_of P f) \<and> derives_bounds P BoundDeserialize f) fs) \<and>
    tokens ` set defaults = tokens ` bounded_types params (filter (\<lambda>f. at_skip (attrs_of P f) \<and> derives_bounds P BoundDeserialize f) fs)"
proof -
  from ser_enum_bounds [OF assms(1)] de_enum_bounds [OF assms(2)] show ?thesis
    unfolding assms(3,4) ser_clause_def de_clause_def enum_fields_def by (elim exE conjE) (intro exI conjI; assumption)
qed

lemma derived_enum_bounds_exact_witness:
  "\<exists>ser_code de_code ss ds defaults.
     ser_enum_process no_literals type_tokens ''borsh'' either_enum = Ok ser_code \<and>
     de_enum_process no_literals Ok type_tokens ''borsh'' either_enum = Ok de_code \<and>
     se_where ser_code = compute_predicates ss ''borsh::ser::BorshSerialize'' \<and> type_tokens ` set ss = {''T''} \<and>
     de_where de_code = compute_predicates ds ''borsh::de::BorshDeserialize'' @
       compute_predicates defaults ''core::default::Default'' \<and>
     type_tokens ` set ds = {''T''} \<and> type_tokens ` set defaults = {''T''}"
proof -
  obtain sc where sc: "ser_enum_process no_literals type_tokens ''borsh'' either_enum = Ok sc" using either_codes(1) by blast
  obtain dc where dc: "de_enum_process no_literals Ok type_tokens ''borsh'' either_enum = Ok dc" using either_codes(2) by blast
  have g: "default_where (gen_where (en_generics either_enum)) = []"
      "type_params (without_defaults (en_generics either_enum)) = [''T'']"
    by (simp_all add: either_enum_def process_eval)
  have fs: "concat (List.map (\<lambda>v. fields_list (var_fields v)) (en_variants either_enum)) =
      [plain None (ident_type ''T''), skipped None (ident_type ''T'')]" by (simp add: either_enum_def)
  have e: "explicit_bounds no_literals t [plain None (ident_type ''T''), skipped None (ident_type ''T'')] = []" for t
    by (simp add: explicit_bounds_def collect_bounds_def get_bounds_def)
  have "occurs_type ''T'' (ident_type ''T'')" "first_punctuated (ungroup (ident_type ''T'')) = None"
    by (auto simp: ident_type_def occurs_path_simps)
  then have T: "bounded_types [''T''] [plain None (ident_type ''T'')] = {ident_type ''T''}"
    "bounded_types [''T''] [skipped None (ident_type ''T'')] = {ident_type ''T''}"
    by (auto simp: bounded_types_def)
  have b: "derives_bounds no_literals t (plain None (ident_type ''T''))" "derives_bounds no_literals t (skipped None (ident_type ''T''))" for t
    by (simp_all add: derives_bounds_def needs_bounds_derive_def get_bounds_def)
  have tok: "type_tokens (ident_type ''T'') = ''T''" by (simp add: type_tokens_def ident_type_def)
  have kept: "filter (\<lambda>f. \<not> at_skip (attrs_of no_literals f) \<and> derives_bounds no_literals t f)
        [plain None (ident_type ''T''), skipped None (ident_type ''T'')] = [plain None (ident_type ''T'')]"
      "filter (\<lambda>f. at_skip (attrs_of no_literals f) \<and> derives_bounds no_literals t f)
        [plain None (ident_type ''T''), skipped None (ident_type ''T'')] = [skipped None (ident_type ''T'')]" for t
    by (simp_all add: b)
  from derived_enum_bounds_exact [OF sc dc refl refl]
  show ?thesis
    unfolding g fs e kept T image_insert image_empty tok append_Nil append_Nil2 list.set append_Cons
    by (elim exE conjE) (intro exI conjI; (rule sc dc | assumption))
qed

subsection \<open>The macros\<close>

text \<open>
  C29. When the look-up of the crate in the caller's \<open>Cargo.toml\<close> succeeds, the derives of
  \<open>BorshSerialize\<close> and \<open>BorshDeserialize\<close> do not panic on structs and enums: they yield code
  or a compile error, for every attribute, every number of fields and variants, and every
  discriminant. The derive of \<open>BorshSchema\<close> does not panic either when the name of the enum,
  glued to the name of each variant, is an identifier, which it is unless one of the two is
  a raw identifier. On unions \<open>BorshSchema\<close> reports an error and the other two panic.
\<close>

theorem derives_do_not_panic:
  assumes "parsers_return P" and "\<forall>s. returns (parse_path s)" and "krate \<noteq> NotFound" and "item_wf item"
  shows "borsh_serialize P parse_path tokens krate item \<noteq> Panic \<and>
    borsh_deserialize P parse_path tokens krate item \<noteq> Panic \<and>
    (glued_names_ok P item \<longrightarrow> borsh_schema P parse_path tokens krate item \<noteq> Panic) \<and>
    borsh_serialize P parse_path tokens krate (UnionItem []) = Panic \<and>
    borsh_deserialize P parse_path tokens krate (UnionItem []) = Panic \<and>
    borsh_schema P parse_path tokens krate (UnionItem []) = Err ''Borsh schema does not support unions yet.''"
proof -
  have "\<exists>name. check_attrs_get_cratename parse_path krate (UnionItem []) = Ok name"
    using assms(3) by (cases krate) (simp_all add: check_attrs_get_cratename_def check_attributes_def get_one_attribute_def
        cratename_get_def get_crate_def find_borsh_def get_from_cargo_def)
  moreover note derives_return [OF assms(1) _ assms(3,4), of parse_path tokens]
  ultimately show ?thesis
    using assms(2) by (auto simp: returns_def borsh_serialize_def borsh_deserialize_def borsh_schema_def
        ser_union_process_def de_union_process_def)
qed

theorem derives_do_not_panic_witness:
  "borsh_serialize no_literals Ok type_tokens Itself (EnumItem choice_enum) \<noteq> Panic \<and>
   borsh_schema no_literals Ok type_tokens Itself (EnumItem choice_enum) \<noteq> Panic"
  using derives_do_not_panic [of no_literals Ok Itself "EnumItem choice_enum" type_tokens]
  by (simp add: parsers_return_def no_literals_def choice_enum_def plain_def ascii_identifier_def ident_char_def)

text \<open>
  Outside the conditions the derives do panic. \<open>enum Foo { r#type }\<close> makes \<open>Ident::new\<close> refuse
  \<open>Foor#type\<close>, while the other two derives expand it; and a crate that is not found makes the
  derive of an item without \<open>#[borsh(crate = "...")]\<close> panic.
\<close>

definition raw_enum :: item_enum where
  "raw_enum = \<lparr>en_ident = ''Foo'', en_generics = \<lparr>gen_params = [], gen_where = None\<rparr>,
     en_variants = [\<lparr>var_ident = ''r#type'', var_fields = FieldsUnit, var_discriminant = None\<rparr>], en_attrs = []\<rparr>"

lemma raw_variant_panics:
  "borsh_schema no_literals Ok type_tokens Itself (EnumItem raw_enum) = Panic"
  "\<exists>code. borsh_serialize no_literals Ok type_tokens Itself (EnumItem raw_enum) = Ok (EnumCode code)"
proof -
  have name: "check_attrs_get_cratename Ok Itself (EnumItem raw_enum) = Ok ''borsh''"
    by (simp add: check_attrs_get_cratename_def check_attributes_def get_one_attribute_def cratename_get_def get_crate_def
        find_borsh_def get_from_cargo_def raw_enum_def BORSH_def)
  have "\<not> is_identifier no_literals ''Foor#type''"
    using raw_identifier_glued [of "''Foo''" "''type''"] by (simp add: no_literals_def)
  then show "borsh_schema no_literals Ok type_tokens Itself (EnumItem raw_enum) = Panic"
    by (simp add: borsh_schema_def name)
      (simp add: schema_enum_process_def raw_enum_def contains_use_discriminant_def find_borsh_def
        schema_process_variant_def Ident_new_def Let_def map_outcome_def)
  show "\<exists>code. borsh_serialize no_literals Ok type_tokens Itself (EnumItem raw_enum) = Ok (EnumCode code)"
    by (simp add: borsh_serialize_def name)
      (simp add: ser_enum_process_def raw_enum_def ser_enum_variant_def ser_process_variant_def discriminants_get_def map_outcome_def process_eval)
qed

lemma crate_not_found_panics: "borsh_serialize P parse_path tokens NotFound (EnumItem raw_enum) = Panic"
  by (simp add: borsh_serialize_def check_attrs_get_cratename_def check_attributes_def get_one_attribute_def cratename_get_def
      get_crate_def find_borsh_def get_from_cargo_def raw_enum_def)

subsection \<open>The derived schema\<close>

text \<open>
  The derive of \<open>BorshSchema\<close> for enums, with the structs of the variants on which the
  compiler runs it again, yields the implementation of \<open>Schema_Model\<close>: the declaration with
  the derived parameters, one struct for each variant, and the entries with the tags that
  the derived \<open>BorshSerialize\<close> writes. The condition is that every type parameter that a
  variant mentions is one that the visitor finds in it.
\<close>

lemma derived_enum_schema_is_model:
  assumes "schema_enum_process P tokens cratename input = Ok code" and "contains_use_discriminant input = Ok u"
    and "u \<longrightarrow> discriminants_accepted (en_variants input)"
    and "\<forall>v\<in>set (en_variants input). fields_wf (var_fields v)" and "variants_scoped input"
  shows "schema_enum_exec P tokens cratename E (type_params (en_generics input)) code = Some (derived_enum_schema (en_ident input)
    (List.map (\<lambda>t. declaration_of (env_type E t)) (snd (sec_declaration code)))
    (List.map (variant_of P tokens cratename E input u) (List.enumerate 0 (en_variants input))))"
  by (rule enum_code_is [OF assms])

lemma choice_schema: "\<exists>code. schema_enum_process no_literals type_tokens ''borsh'' choice_enum = Ok code"
  by (simp add: schema_enum_process_def choice_use)
    (simp add: choice_enum_def schema_process_variant_def identifier_eval visit_struct_fields_def schema_visit_field_def discriminants_get_def
      inner_struct_definition_def generics_result_def needs_schema_params_derive_def process_eval)

text \<open>
  The condition is not met by \<open>enum Tagged<T> { Mark(PhantomData<T>), Byte(u8) }\<close>: the visitor
  leaves \<open>T\<close> out of the struct of \<open>Mark\<close>, whose field mentions it, and the generated code
  is refused. A lifetime, on the other hand, is a parameter of the struct of every variant,
  whether a field mentions it or not.
\<close>

definition phantom_enum :: item_enum where
  "phantom_enum = \<lparr>en_ident = ''Tagged'', en_generics = \<lparr>gen_params = [ParamLifetime ''a'', ParamType ''T'' [] None], gen_where = None\<rparr>,
     en_variants =
       [\<lparr>var_ident = ''Mark'', var_fields = FieldsUnnamed [plain None
           (TypePath None (Path False [Segment ''PhantomData'' (AngleBracketed [ArgType (ident_type ''T'')])]))],
         var_discriminant = None\<rparr>,
        \<lparr>var_ident = ''Byte'', var_fields = FieldsUnnamed [plain None (ident_type ''u8'')], var_discriminant = None\<rparr>],
     en_attrs = []\<rparr>"

lemma phantom_variant_refused:
  "\<exists>code. schema_enum_process no_literals type_tokens ''borsh'' phantom_enum = Ok code \<and>
     schema_enum_exec no_literals type_tokens ''borsh'' E (type_params (en_generics phantom_enum)) code = None \<and>
     \<not> in_scope [''T''] (vo_inner_struct (sec_variants code ! 0)) \<and> in_scope [''T''] (vo_inner_struct (sec_variants code ! 1)) \<and>
     gen_params (vo_generics (sec_variants code ! 1)) = [ParamLifetime ''a'']"
proof -
  have "contains_use_discriminant phantom_enum = Ok False" by (simp add: phantom_enum_def process_eval)
  then show ?thesis
    by (simp add: schema_enum_process_def)
      (simp add: phantom_enum_def schema_process_variant_def identifier_eval visit_struct_fields_def schema_visit_field_def discriminants_get_def
        inner_struct_definition_def visit_struct_fields_unconditional_def process_for_params_def add_param_def
        filter_used_params_def keeps_param_def generics_result_def needs_schema_params_derive_def process_eval
        schema_enum_exec_def exec_variant_def exec_inner_def in_scope_def filtered_field_def
        tag_of_def token_value_def parse_tokens_def collapse_def)
qed

text \<open>
  C31. The derived schema describes the derived bytes: what the derived \<open>serialize\<close> of a
  struct writes is an encoding by the definitions of the container that the derived
  \<open>BorshSchema\<close> generates, when the types of the fields have such schemas.
\<close>

theorem derived_schema_describes_bytes:
  assumes "ser_struct_process P tokens cratename input = Ok ser_code"
    and "schema_struct_process P tokens cratename input = Ok schema_code" and "fields_wf (st_fields input)"
    and "fields_ok P ok (fields_list (st_fields input)) vals"
    and "\<forall>f\<in>set (fields_list (st_fields input)). ser_contract P S enc ok f \<and> described_field P E enc ok f"
    and "schema_struct_exec E schema_code = Some B" and "for_type B = Some (Ok c)"
  shows "\<exists>bs. ser_struct_exec S (st_fields input) ser_code vec_writer vals [] = Some (Ok (), bs) \<and>
    encodes (get_definition c) (container_declaration c) bs"
proof -
  let ?bs = "fields_enc P enc (fields_list (st_fields input)) vals"
  have "emits (\<lambda>W. ser_struct_exec S (st_fields input) ser_code W vals) ?bs"
    by (rule struct_emits [OF assms(1,3,4)]) (use assms(5) in blast)
  then have "ser_struct_exec S (st_fields input) ser_code vec_writer vals [] = Some (Ok (), ?bs)"
    using emits_vec by fastforce
  moreover have "encodes (get_definition c) (container_declaration c) ?bs"
  proof (rule derived_struct_encodes [OF _ assms(4)])
    show "\<forall>f\<in>set (fields_list (st_fields input)). described_field P E enc ok f" using assms(5) by blast
    show "for_type (derived_struct_schema (st_ident input)
        (List.map (\<lambda>t. declaration_of (env_type E t)) (snd (sc_declaration schema_code))) (item_of P E (st_fields input))) = Some (Ok c)"
      using assms(6,7) struct_code_is [OF assms(2,3), of E] by simp
  qed
  ultimately show ?thesis by blast
qed

definition byte_env :: schema_env where
  "byte_env = \<lparr>env_type = (\<lambda>_. u8_schema), env_declaration = (\<lambda>_. []), env_definitions = (\<lambda>_. ret ())\<rparr>"

lemma pair_schema:
  "\<exists>code B c. schema_struct_process no_literals type_tokens ''borsh'' pair_struct = Ok code \<and>
     schema_struct_exec byte_env code = Some B \<and> for_type B = Some (Ok c)"
  by (simp add: schema_struct_process_def schema_process_fields_def pair_struct_def visit_struct_fields_def schema_visit_field_def
      schema_process_field_def field_declaration_output_def field_definitions_output_def schema_declaration_def
      schema_definitions_def needs_schema_params_derive_def generics_result_def schema_struct_exec_def exec_declaration_def
      byte_env_def for_type_def u8_schema_def primitive_schema_def add_definition_def and_then_def ret_def less_char_def process_eval)

theorem derived_schema_describes_bytes_witness:
  "\<exists>ser_code schema_code B c bs.
     ser_struct_process no_literals type_tokens ''borsh'' pair_struct = Ok ser_code \<and>
     schema_struct_process no_literals type_tokens ''borsh'' pair_struct = Ok schema_code \<and>
     schema_struct_exec byte_env schema_code = Some B \<and> for_type B = Some (Ok c) \<and>
     ser_struct_exec byte_ser (st_fields pair_struct) ser_code vec_writer [7, 9] [] = Some (Ok (), bs) \<and>
     encodes (get_definition c) (container_declaration c) bs"
proof -
  obtain sc where sc: "ser_struct_process no_literals type_tokens ''borsh'' pair_struct = Ok sc" using pair_ser by blast
  from pair_schema obtain code B c where code: "schema_struct_process no_literals type_tokens ''borsh'' pair_struct = Ok code"
    and B: "schema_struct_exec byte_env code = Some B" and c: "for_type B = Some (Ok c)" by blast
  have "\<forall>f\<in>set (fields_list (st_fields pair_struct)).
      ser_contract no_literals byte_ser (\<lambda>_ b. [b]) (\<lambda>_ _. True) f \<and>
      described_field no_literals byte_env (\<lambda>_ b. [b]) (\<lambda>_ _. True) f"
    using u8_described
    by (simp add: pair_struct_def byte_contracts described_field_def byte_env_def schema_declaration_def schema_definitions_def)
  from derived_schema_describes_bytes [OF sc code _ _ this B c, of "[7, 9]"] sc code B c
  show ?thesis by (auto simp: pair_struct_def fields_ok_def)
qed

end
