(* ===== verification/Derive_Instances.thy ===== *)
theory Derive_Instances
  imports Derive_Enums Borsh_Collection_Laws
begin

section \<open>Derived implementations keep the contracts of the traits\<close>

text \<open>
  A derived implementation as a record of the trait: the generated \<open>impl\<close> has the one required
  method and keeps the provided ones. When the implementations of the fields keep the
  contracts of \<open>Borsh_Traits\<close>, so does the derived one; it can then be the element of a
  vector, the value of a map, or the field of another derived type.
\<close>

definition derived_struct_ser ::
  "nat \<Rightarrow> ('w, 'v) ser_impls \<Rightarrow> syn_fields \<Rightarrow> ser_struct_code \<Rightarrow> ('w, 'v list) BorshSerialize" where
  "derived_struct_ser n I flds code = plain_ser n (ser_struct_exec I flds code)"

definition derived_struct_de ::
  "nat \<Rightarrow> ('r, 'v) de_impls \<Rightarrow> (string \<Rightarrow> 'v list \<Rightarrow> 'v list) \<Rightarrow> syn_fields \<Rightarrow> de_struct_code \<Rightarrow>
   ('r, 'v list) BorshDeserialize" where
  "derived_struct_de n I init_method flds code = plain_de n (de_struct_exec I init_method flds code)"

definition derived_enum_ser ::
  "nat \<Rightarrow> ('w, 'v) ser_impls \<Rightarrow> variant list \<Rightarrow> ser_enum_code \<Rightarrow> ('w, ident \<times> 'v list) BorshSerialize" where
  "derived_enum_ser n I vs code = plain_ser n (ser_enum_exec I vs code)"

definition derived_enum_de ::
  "nat \<Rightarrow> ('r, 'v) de_impls \<Rightarrow> (string \<Rightarrow> ident \<times> 'v list \<Rightarrow> ident \<times> 'v list) \<Rightarrow> variant list \<Rightarrow> de_enum_code \<Rightarrow>
   ('r, ident \<times> 'v list) BorshDeserialize" where
  "derived_enum_de n I init_method vs code = plain_de n (de_enum_exec I init_method vs code)"

subsection \<open>Canonical fields\<close>

text \<open>What the decoder of a field reads is the encoding of the value that it returns.\<close>

definition de_canonical ::
  "literal_parsers \<Rightarrow> (bytes, 'v) de_impls \<Rightarrow> (syn_field \<Rightarrow> 'v \<Rightarrow> bytes) \<Rightarrow> (syn_field \<Rightarrow> 'v \<Rightarrow> bool) \<Rightarrow> syn_field \<Rightarrow> bool" where
  "de_canonical P I enc ok f \<longleftrightarrow> (\<not> at_skip (attrs_of P f) \<longrightarrow> (\<forall>s v t.
     (case at_deserialize_with (attrs_of P f) of
         Some path \<Rightarrow> de_with I path slice_reader
       | None \<Rightarrow> deserialize_reader (de_impl I (fld_ty f)) slice_reader) s = Some (Ok v, t) \<longrightarrow>
     ok f v \<and> s = enc f v @ t))"

text \<open>The contracts of a field follow from those of the implementation for its type.\<close>

lemma field_contracts:
  assumes "at_serialize_with (attrs_of P f) = None" and "at_deserialize_with (attrs_of P f) = None"
  shows "serialize_impl (ser_impl S (fld_ty f)) (enc f) (ok f) \<Longrightarrow> ser_contract P S enc ok f"
    and "deserialize_impl (de_impl D (fld_ty f)) (enc f) (ok f) \<Longrightarrow> de_contract P D enc ok f"
    and "canonical_impl (de_impl D (fld_ty f)) (enc f) (ok f) \<Longrightarrow> de_canonical P D enc ok f"
  using assms by (auto simp: ser_contract_def de_contract_def de_canonical_def
      dest: serialize_impl.ser_emits deserialize_impl.de_decodes canonical_impl.canon)

text \<open>
  The values that are read back unchanged: fields within their contracts, and skipped fields
  at their default.
\<close>

definition struct_ok ::
  "literal_parsers \<Rightarrow> ('r, 'v) de_impls \<Rightarrow> (syn_field \<Rightarrow> 'v \<Rightarrow> bool) \<Rightarrow> syn_field list \<Rightarrow> 'v list \<Rightarrow> bool" where
  "struct_ok P D ok fs vals \<longleftrightarrow> fields_ok P ok fs vals \<and> fields_reset P D fs vals = vals"

lemma exec_exprs_canonical:
  assumes "exec_exprs D slice_reader (zip fs (List.map (field_entry P) fs)) s = Some (Ok vals, t)"
    and "\<forall>f\<in>set fs. de_canonical P D enc ok f"
  shows "struct_ok P D ok fs vals \<and> s = fields_enc P enc fs vals @ t"
  using assms
proof (induction fs arbitrary: s vals)
  case Nil
  then show ?case by (simp add: struct_ok_def fields_ok_def fields_reset_def fields_enc_def ret_def)
next
  case (Cons f fs)
  obtain name e where fe: "field_entry P f = (name, e)" by (cases "field_entry P f")
  from Cons.prems(1) obtain v u vs where v: "exec_expr D slice_reader (fld_ty f) e s = Some (Ok v, u)"
    and vs: "exec_exprs D slice_reader (zip fs (List.map (field_entry P) fs)) u = Some (Ok vs, t)" and vals: "vals = v # vs"
    by (auto simp: fe ok_iffs)
  from Cons.IH [OF vs] Cons.prems(2) have tail: "struct_ok P D ok fs vs" "u = fields_enc P enc fs vs @ t" by simp_all
  show ?case
  proof (cases "at_skip (attrs_of P f)")
    case True
    with v fe have "v = default_of D (fld_ty f)" "u = s"
      by (auto simp: field_entry_def field_default_output_def ret_def)
    with True tail vals show ?thesis
      by (simp add: struct_ok_def fields_ok_def fields_reset_def fields_enc_def)
  next
    case False
    with v fe Cons.prems(2) have "ok f v" "s = enc f v @ u"
      by (auto simp: field_entry_def field_output_def de_canonical_def split: option.splits)
    with False tail vals show ?thesis
      by (simp add: struct_ok_def fields_ok_def fields_reset_def fields_enc_def)
  qed
qed

lemma exec_literal_canonical:
  assumes "exec_literal D slice_reader fs (List.map (field_entry P) fs) s = Some (Ok vals, t)"
    and "\<forall>f\<in>set fs. de_canonical P D enc ok f"
  shows "struct_ok P D ok fs vals \<and> s = fields_enc P enc fs vals @ t"
  using assms exec_exprs_canonical [of D fs P s vals t enc ok] by (simp add: exec_literal_def comp_def)

subsection \<open>Structs\<close>

lemma derived_struct_serialize_impl:
  assumes "ser_struct_process P tokens cr input = Ok code" and "fields_wf (st_fields input)"
    and "\<forall>f\<in>set (fields_list (st_fields input)). ser_contract P I enc ok f"
  shows "serialize_impl (derived_struct_ser n I (st_fields input) code) (fields_enc P enc (fields_list (st_fields input)))
    (fields_ok P ok (fields_list (st_fields input)))"
  unfolding derived_struct_ser_def by (rule plain_serialize_impl) (rule struct_emits [OF assms(1,2) _ assms(3)])

lemma derived_struct_deserialize_impl:
  assumes "de_struct_process P parse_path tokens cr input = Ok code" and "ds_init code = None"
    and "\<forall>f\<in>set (fields_list (st_fields input)). de_contract P I enc ok f"
  shows "deserialize_impl (derived_struct_de n I init_method (st_fields input) code)
    (fields_enc P enc (fields_list (st_fields input))) (struct_ok P I ok (fields_list (st_fields input)))"
  unfolding derived_struct_de_def
proof (rule plain_deserialize_impl)
  fix vals assume "struct_ok P I ok (fields_list (st_fields input)) vals"
  with struct_decodes [OF assms(1) _ assms(3), of vals init_method] assms(2)
  show "decodes (de_struct_exec I init_method (st_fields input) code slice_reader) vals
      (fields_enc P enc (fields_list (st_fields input)) vals)" by (simp add: struct_ok_def)
qed

lemma derived_struct_canonical_impl:
  assumes "de_struct_process P parse_path tokens cr input = Ok code" and "ds_init code = None"
    and "\<forall>f\<in>set (fields_list (st_fields input)). de_contract P I enc ok f \<and> de_canonical P I enc ok f"
  shows "canonical_impl (derived_struct_de n I init_method (st_fields input) code)
    (fields_enc P enc (fields_list (st_fields input))) (struct_ok P I ok (fields_list (st_fields input)))"
  unfolding derived_struct_de_def
proof (rule plain_canonical_impl)
  let ?fs = "fields_list (st_fields input)"
  show "decodes (de_struct_exec I init_method (st_fields input) code slice_reader) vals (fields_enc P enc ?fs vals)"
    if "struct_ok P I ok ?fs vals" for vals
    using deserialize_impl.de_decodes [OF derived_struct_deserialize_impl [OF assms(1,2),
        where enc = enc and ok = ok and n = n and init_method = init_method]] assms(3) that
    by (simp add: derived_struct_de_def)
  show "struct_ok P I ok ?fs vals \<and> s = fields_enc P enc ?fs vals @ t"
    if de: "de_struct_exec I init_method (st_fields input) code slice_reader s = Some (Ok vals, t)" for s vals t
  proof (rule exec_literal_canonical)
    from assms(1) obtain g g' where "fold_ok (de_process_field P) ?fs (g, []) = Ok (g', ds_fields code)"
      by (auto simp: de_struct_process_def Let_def and_ok_Ok_iff)
    from de_fields_entries [OF this] de assms(2)
    show "exec_literal I slice_reader ?fs (List.map (field_entry P) ?fs) s = Some (Ok vals, t)"
      by (simp add: de_struct_exec_def)
  qed (use assms(3) in blast)
qed

subsection \<open>Enums\<close>

text \<open>
  A value of an enum is the name of a variant and its fields. Its encoding is the tag that the
  declaration gives to the variant, and the fields.
\<close>

definition variant_named :: "variant list \<Rightarrow> ident \<Rightarrow> (nat \<times> variant) option" where
  "variant_named vs name = find (\<lambda>x. var_ident (snd x) = name) (List.enumerate 0 vs)"

definition enum_enc ::
  "literal_parsers \<Rightarrow> (syn_field \<Rightarrow> 'v \<Rightarrow> bytes) \<Rightarrow> variant list \<Rightarrow> bool \<Rightarrow> ident \<times> 'v list \<Rightarrow> bytes" where
  "enum_enc P enc vs u = (\<lambda>(name, vals). case variant_named vs name of
       None \<Rightarrow> []
     | Some (i, v) \<Rightarrow> word_of_int (the (declared_tag vs u (i, v))) # fields_enc P enc (fields_list (var_fields v)) vals)"

definition enum_ok ::
  "(syn_field list \<Rightarrow> 'v list \<Rightarrow> bool) \<Rightarrow> variant list \<Rightarrow> ident \<times> 'v list \<Rightarrow> bool" where
  "enum_ok okf vs = (\<lambda>(name, vals). case variant_named vs name of
       None \<Rightarrow> False
     | Some (i, v) \<Rightarrow> okf (fields_list (var_fields v)) vals)"

definition field_contracts_of :: "variant list \<Rightarrow> (syn_field \<Rightarrow> bool) \<Rightarrow> bool" where
  "field_contracts_of vs contract \<longleftrightarrow> (\<forall>v\<in>set vs. \<forall>f\<in>set (fields_list (var_fields v)). contract f)"

lemma find_SomeD: "find p xs = Some x \<Longrightarrow> x \<in> set xs \<and> p x"
  by (induction xs) (auto split: if_splits)

lemma variant_named_Some:
  assumes "variant_named vs name = Some (i, v)"
  shows "(i, v) \<in> set (List.enumerate 0 vs)" and "var_ident v = name" and "i < length vs" and "v = vs ! i" and "v \<in> set vs"
proof -
  from find_SomeD [OF assms [unfolded variant_named_def]]
  show iv: "(i, v) \<in> set (List.enumerate 0 vs)" and "var_ident v = name" by simp_all
  from enumerated [OF iv] show "i < length vs" and "v = vs ! i" and "v \<in> set vs" by simp_all
qed

lemma variant_named_iff:
  assumes "distinct (List.map var_ident vs)"
  shows "variant_named vs name = Some x \<longleftrightarrow> x \<in> set (List.enumerate 0 vs) \<and> var_ident (snd x) = name"
proof
  assume "x \<in> set (List.enumerate 0 vs) \<and> var_ident (snd x) = name"
  then have x: "x \<in> set (List.enumerate 0 vs)" "var_ident (snd x) = name" by blast+
  have "\<forall>y\<in>set (List.enumerate 0 vs). var_ident (snd y) = name \<longrightarrow> y = x"
  proof (intro ballI impI)
    fix y assume y: "y \<in> set (List.enumerate 0 vs)" "var_ident (snd y) = name"
    from enumerated [OF x(1)] enumerated [OF y(1)] x(2) y(2)
    have "List.map var_ident vs ! fst y = List.map var_ident vs ! fst x" and len: "fst x < length vs" "fst y < length vs" by auto
    with nth_eq_iff_index_eq [OF assms, of "fst y" "fst x"] have "fst y = fst x" by simp
    with enumerated [OF x(1)] enumerated [OF y(1)] show "y = x" by (simp add: prod_eq_iff)
  qed
  with find_unique [where p = "\<lambda>x. var_ident (snd x) = name", OF x] show "variant_named vs name = Some x"
    by (simp only: variant_named_def)
qed (use variant_named_Some(1,2) [of vs name "fst x" "snd x"] in simp)

lemma derived_enum_serialize_impl:
  assumes code: "ser_enum_process P tokens cr input = Ok code" and acc: "enum_accepted P (en_variants input)"
    and u: "contains_use_discriminant input = Ok u" and disc: "u \<longrightarrow> discriminants_accepted (en_variants input)"
    and contracts: "field_contracts_of (en_variants input) (ser_contract P I enc ok)"
  shows "serialize_impl (derived_enum_ser n I (en_variants input) code) (enum_enc P enc (en_variants input) u)
    (enum_ok (fields_ok P ok) (en_variants input))"
  unfolding derived_enum_ser_def
proof (rule plain_serialize_impl)
  fix x assume ok: "enum_ok (fields_ok P ok) (en_variants input) x"
  obtain name vals where x: "x = (name, vals)" by (cases x)
  with ok obtain i v where named: "variant_named (en_variants input) name = Some (i, v)"
    and vals: "fields_ok P ok (fields_list (var_fields v)) vals"
    by (auto simp: enum_ok_def split: option.splits)
  note v = variant_named_Some [OF named]
  from tag_of_tokens [OF disc v(1) ser_enum_got [OF code u v(1)]] obtain t where
    t: "declared_tag (en_variants input) u (i, v) = Some t" by blast
  have "\<forall>f\<in>set (fields_list (var_fields v)). ser_contract P I enc ok f"
    using contracts v(5) by (auto simp: field_contracts_of_def)
  from enum_emits [OF code acc u disc v(1) t vals this]
  show "emits (\<lambda>W. ser_enum_exec I (en_variants input) code W x) (enum_enc P enc (en_variants input) u x)"
    by (simp add: x enum_enc_def named t v(2))
qed

lemma derived_enum_deserialize_impl:
  assumes code: "de_enum_process P parse_path tokens cr input = Ok code" and acc: "enum_accepted P (en_variants input)"
    and u: "contains_use_discriminant input = Ok u" and disc: "u \<longrightarrow> discriminants_accepted (en_variants input)"
    and init: "de_init code = None"
    and contracts: "field_contracts_of (en_variants input) (de_contract P I enc ok)"
  shows "deserialize_impl (derived_enum_de n I init_method (en_variants input) code) (enum_enc P enc (en_variants input) u)
    (enum_ok (struct_ok P I ok) (en_variants input))"
  unfolding derived_enum_de_def
proof (rule plain_deserialize_impl)
  fix x assume ok: "enum_ok (struct_ok P I ok) (en_variants input) x"
  obtain name vals where x: "x = (name, vals)" by (cases x)
  with ok obtain i v where named: "variant_named (en_variants input) name = Some (i, v)"
    and vals: "fields_ok P ok (fields_list (var_fields v)) vals" "fields_reset P I (fields_list (var_fields v)) vals = vals"
    by (auto simp: enum_ok_def struct_ok_def split: option.splits)
  note v = variant_named_Some [OF named]
  from tag_of_tokens [OF disc v(1)] de_enum_arms(2) [OF code u] v(1) obtain t where
    t: "declared_tag (en_variants input) u (i, v) = Some t" "0 \<le> t" "t < 256" by fastforce
  have "\<forall>f\<in>set (fields_list (var_fields v)). de_contract P I enc ok f"
    using contracts v(5) by (auto simp: field_contracts_of_def)
  from enum_decodes [OF code acc u disc v(1) t vals(1) this, of init_method]
  show "decodes (de_enum_exec I init_method (en_variants input) code slice_reader) x
      (enum_enc P enc (en_variants input) u x)"
    by (simp add: x enum_enc_def named t v(2) init vals(2))
qed

lemma derived_enum_canonical_impl:
  assumes code: "de_enum_process P parse_path tokens cr input = Ok code" and acc: "enum_accepted P (en_variants input)"
    and u: "contains_use_discriminant input = Ok u" and disc: "u \<longrightarrow> discriminants_accepted (en_variants input)"
    and init: "de_init code = None"
    and contracts: "field_contracts_of (en_variants input) (\<lambda>f. de_contract P I enc ok f \<and> de_canonical P I enc ok f)"
  shows "canonical_impl (derived_enum_de n I init_method (en_variants input) code) (enum_enc P enc (en_variants input) u)
    (enum_ok (struct_ok P I ok) (en_variants input))"
  unfolding derived_enum_de_def
proof (rule plain_canonical_impl)
  let ?vs = "en_variants input"
  have "field_contracts_of ?vs (de_contract P I enc ok)" using contracts by (auto simp: field_contracts_of_def)
  note impl = derived_enum_deserialize_impl [OF code acc u disc init this, where n = n and init_method = init_method]
  show "decodes (de_enum_exec I init_method ?vs code slice_reader) x (enum_enc P enc ?vs u x)"
    if "enum_ok (struct_ok P I ok) ?vs x" for x
    using deserialize_impl.de_decodes [OF impl that] by (simp add: derived_enum_de_def)
  show "enum_ok (struct_ok P I ok) ?vs x \<and> s = enum_enc P enc ?vs u x @ t"
    if "de_enum_exec I init_method ?vs code slice_reader s = Some (Ok x, t)" for s x t
  proof -
    from that init obtain tag r where s: "s = tag # r"
      and arms: "exec_arms I ?vs slice_reader tag (de_arms code) r = Some (Ok x, t)"
      by (auto simp: de_enum_exec_def deserialize_variant_def ok_iffs u8_read_iff)
    then obtain i v vals where found: "find (\<lambda>x. declared_tag ?vs u x = Some (uint tag)) (List.enumerate 0 ?vs) = Some (i, v)"
      and lit: "exec_literal I slice_reader (fields_list (var_fields v))
        (List.map (field_entry P) (fields_list (var_fields v))) r = Some (Ok vals, t)" and x: "x = (var_ident v, vals)"
      by (auto simp: arms_meaning [OF code acc u disc] ok_iffs split: option.splits)
    then have iv: "(i, v) \<in> set (List.enumerate 0 ?vs)" and tag: "declared_tag ?vs u (i, v) = Some (uint tag)"
      using find_SomeD by fastforce+
    have named: "variant_named ?vs (var_ident v) = Some (i, v)"
      using acc iv by (subst variant_named_iff) (auto simp: enum_accepted_def)
    have "\<forall>f\<in>set (fields_list (var_fields v)). de_canonical P I enc ok f"
      using contracts variant_named_Some(5) [OF named] by (auto simp: field_contracts_of_def)
    from exec_literal_canonical [OF lit this] show ?thesis
      by (simp add: x s enum_ok_def enum_enc_def named tag)
  qed
qed

end
