(* ===== verification/Borsh_Totality.thy ===== *)
theory Borsh_Totality
  imports Borsh_Collection_Laws Borsh_Composite_Laws
begin

section \<open>Decoders return on every input\<close>

text \<open>
  \<open>safe m\<close>: on every slice, \<open>m\<close> returns a value or an error, never panics, and leaves a suffix
  of the slice when it returns a value. The locale \<open>total_impl\<close> demands this of the three reading methods of an
  implementation; every decoder of the library has it when its element types do and their
  sizes are not multiples of \<open>2 ^ 32\<close>.
\<close>

definition safe_at :: "(bytes, 'a) io \<Rightarrow> bytes \<Rightarrow> bool" where
  "safe_at m s \<longleftrightarrow> (\<exists>x t. m s = Some (x, t) \<and> x \<noteq> Panic \<and> (\<forall>v. x = Ok v \<longrightarrow> (\<exists>used. s = used @ t)))"

definition safe :: "(bytes, 'a) io \<Rightarrow> bool" where
  "safe m \<longleftrightarrow> (\<forall>s. safe_at m s)"

named_theorems safe_intros \<open>composition of safe decoders\<close>

lemma safeI: "(\<And>s. safe_at m s) \<Longrightarrow> safe m"
  by (simp add: safe_def)

lemma safeD: "safe m \<Longrightarrow> safe_at m s"
  by (simp add: safe_def)

lemma safe_at_Ok: "m s = Some (Ok v, t) \<Longrightarrow> s = used @ t \<Longrightarrow> safe_at m s"
  by (auto simp: safe_at_def)

lemma safe_at_Err: "m s = Some (Err e, t) \<Longrightarrow> safe_at m s"
  by (auto simp: safe_at_def)

lemma safe_at_cases:
  assumes "safe_at m s"
  obtains v used t where "m s = Some (Ok v, t)" "s = used @ t"
    | e t where "m s = Some (Err e, t)"
  using assms unfolding safe_at_def by (metis outcome.exhaust)

lemma safe_at_and_then:
  assumes "safe_at m s" and "\<And>a used t. s = used @ t \<Longrightarrow> m s = Some (Ok a, t) \<Longrightarrow> safe_at (f a) t"
  shows "safe_at (and_then m f) s"
  using assms(1)
proof (cases rule: safe_at_cases)
  case (1 v used t)
  from assms(2) [OF 1(2,1)] show ?thesis
  proof (cases rule: safe_at_cases)
    case r: (1 w u r)
    with 1 show ?thesis by (intro safe_at_Ok [where v = w and t = r and used = "used @ u"]) (simp_all add: and_then_def)
  next
    case r: (2 e r)
    with 1 show ?thesis by (intro safe_at_Err [where e = e and t = r]) (simp add: and_then_def)
  qed
next
  case (2 e t)
  then show ?thesis by (intro safe_at_Err [where e = e and t = t]) (simp add: and_then_def)
qed

lemma safe_ret [safe_intros]: "safe (ret v)"
  by (auto simp: safe_def safe_at_def ret_def)

lemma safe_fail [safe_intros]: "safe (fail e)"
  by (auto simp: safe_def safe_at_def fail_def)

lemma safe_and_then [safe_intros]: "safe m \<Longrightarrow> (\<And>a. safe (f a)) \<Longrightarrow> safe (and_then m f)"
  by (simp add: safe_def safe_at_and_then)

lemma safe_map_ok [safe_intros]: "safe m \<Longrightarrow> safe (map_ok g m)"
  unfolding map_ok_def by (intro safe_intros)

lemma safe_map_err [safe_intros]: "safe m \<Longrightarrow> safe (map_err g m)"
  unfolding safe_def
proof
  fix s assume "\<forall>s. safe_at m s"
  then have "safe_at m s" ..
  then show "safe_at (map_err g m) s" by (cases rule: safe_at_cases) (simp_all add: safe_at_def map_err_def)
qed

lemma safe_lift: "r \<noteq> Panic \<Longrightarrow> safe (lift r)"
  by (auto simp: safe_def safe_at_def lift_def)

lemma safe_if [safe_intros]: "(b \<Longrightarrow> safe m) \<Longrightarrow> (\<not> b \<Longrightarrow> safe m') \<Longrightarrow> safe (if b then m else m')"
  by simp

lemma safe_read_exact [safe_intros]: "safe (slice_read_exact n)"
  by (auto simp: safe_def safe_at_def slice_read_exact_def intro: append_take_drop_id [symmetric])

lemma safe_check_zst [safe_intros]: "safe (check_zst n)"
  unfolding check_zst_def by (intro safe_intros)

lemma cautious_returns: "elem_size_ok sz \<Longrightarrow> cautious sz hint \<noteq> Panic"
  by (auto simp: elem_size_ok_def cautious_def Let_def)

lemma safe_cautious [safe_intros]: "elem_size_ok sz \<Longrightarrow> safe (lift (cautious sz hint))"
  by (rule safe_lift) (rule cautious_returns)

text \<open>A loop is safe on a slice if its body is safe on every suffix.\<close>

lemma safe_at_push_times:
  assumes "\<And>used t. s = used @ t \<Longrightarrow> safe_at m t"
  shows "safe_at (push_times n m acc) s"
  using assms
proof (induction n arbitrary: acc s)
  case 0
  show ?case using safeD [OF safe_ret] by simp
next
  case (Suc n)
  from Suc.prems [of "[]" s] have "safe_at m s" by simp
  then show ?case
    unfolding push_times.simps
  proof (rule safe_at_and_then)
    fix a used t assume "s = used @ t"
    with Suc.prems show "safe_at (push_times n m (acc @ [a])) t" by (intro Suc.IH) (metis append_assoc)
  qed
qed

lemma safe_push_times [safe_intros]: "safe m \<Longrightarrow> safe (push_times n m acc)"
  by (intro safeI safe_at_push_times) (rule safeD)

subsection \<open>The contract\<close>

locale total_impl =
  fixes D :: "(bytes, 'a) BorshDeserialize"
  assumes safe_de: "safe (deserialize_reader D slice_reader)"
    and safe_vec: "safe (vec_from_reader D slice_reader n)"
    and safe_array: "safe (array_from_reader D slice_reader k)"
begin

lemma from_slice_returns: "\<exists>x. from_slice D bs = Some x \<and> x \<noteq> Panic"
  using safeD [OF safe_de, of bs]
  by (auto simp: safe_at_def from_slice_def deserialize_def split: outcome.splits)

lemma deserialize_returns: "\<exists>x rest. deserialize D bs = Some (x, rest) \<and> x \<noteq> Panic"
  using safeD [OF safe_de, of bs] by (auto simp: safe_at_def deserialize_def)

end

lemma plain_total: "safe (f slice_reader) \<Longrightarrow> total_impl (plain_de n f)"
  by unfold_locales
    (simp_all add: default_vec_from_reader_def default_array_from_reader_def safe_ret)

lemmas total_de = total_impl.safe_de

subsection \<open>Primitive types\<close>

lemma safe_u8 [safe_intros]: "safe (u8_deserialize_reader slice_reader)"
  unfolding u8_deserialize_reader_def slice_reader_sel by (intro safe_intros)

lemma safe_u8_vec: "safe (u8_vec_from_reader slice_reader n)"
proof (rule safeI)
  fix s
  show "safe_at (u8_vec_from_reader slice_reader n) s"
  proof (cases "unat n \<le> length s")
    case True
    with slice_rd.u8_vec_from_reader_ok [where r = s and n = n]
    have "u8_vec_from_reader slice_reader n s = Some (Ok (Some (take (unat n) s)), drop (unat n) s)" by auto
    then show ?thesis by (rule safe_at_Ok) (rule append_take_drop_id [symmetric])
  next
    case False
    with slice_rd.u8_vec_from_reader_eof [where r = s and n = n] obtain e t where
      "u8_vec_from_reader slice_reader n s = Some (Err e, t)" by auto
    then show ?thesis by (rule safe_at_Err)
  qed
qed

interpretation u8_T: total_impl u8_de
  by unfold_locales (auto simp: u8_de_def u8_array_from_reader_def safe_u8_vec intro!: safe_intros)

lemma safe_integer [safe_intros]: "safe (integer_deserialize_reader slice_reader)"
  unfolding integer_deserialize_reader_def slice_reader_sel by (intro safe_intros)

interpretation integer_T: total_impl integer_de
  unfolding integer_de_def by (rule plain_total) (rule safe_integer)

lemma safe_float: "safe (float_deserialize_reader is_nan slice_reader)"
  unfolding float_deserialize_reader_def slice_reader_sel Let_def by (intro safe_intros)

interpretation f32_T: total_impl f32_de
  unfolding f32_de_def by (rule plain_total) (rule safe_float)

interpretation f64_T: total_impl f64_de
  unfolding f64_de_def by (rule plain_total) (rule safe_float)

interpretation bool_T: total_impl bool_de
  unfolding bool_de_def
  by (rule plain_total) (auto simp: bool_deserialize_reader_def intro!: safe_intros)

interpretation usize_T: total_impl "usize_de ub"
  unfolding usize_de_def
  by (rule plain_total) (auto simp: usize_deserialize_reader_def intro!: safe_intros)

interpretation isize_T: total_impl "isize_de ub"
  unfolding isize_de_def
  by (rule plain_total) (auto simp: isize_deserialize_reader_def Let_def intro!: safe_intros)

lemma nonzero_total: "total_impl T \<Longrightarrow> total_impl (nonzero_de T)"
  unfolding nonzero_de_def nonzero_deserialize_reader_def
  by (rule plain_total) (auto intro!: safe_intros total_de split: option.split)

lemma option_total: "total_impl T \<Longrightarrow> total_impl (option_de n T)"
  unfolding option_de_def option_deserialize_reader_def
  by (rule plain_total) (auto intro!: safe_intros total_de)

lemma result_total: "total_impl T \<Longrightarrow> total_impl E \<Longrightarrow> total_impl (result_de n T E)"
  unfolding result_de_def result_deserialize_reader_def
  by (rule plain_total) (auto intro!: safe_intros total_de)

subsection \<open>Collections\<close>

lemma safe_vec_reader:
  assumes "total_impl T" and "elem_size_ok (de_size_of T)"
  shows "safe (vec_deserialize_reader T slice_reader)"
  unfolding vec_deserialize_reader_def
  by (auto intro!: safe_intros total_impl.safe_vec [OF assms(1)] total_de [OF assms(1)] assms(2) split: option.split)

lemma vec_total: "total_impl T \<Longrightarrow> elem_size_ok (de_size_of T) \<Longrightarrow> total_impl (vec_de n T)"
  unfolding vec_de_def by (rule plain_total) (rule safe_vec_reader)

lemma safe_u8_vec_reader: "safe (vec_deserialize_reader u8_de slice_reader)"
  by (rule safe_vec_reader [OF u8_T.total_impl_axioms]) simp

interpretation string_T: total_impl "string_de n"
  unfolding string_de_def
proof (rule plain_total)
  have "string_from_utf8 bs \<noteq> Panic" for bs by (simp add: string_from_utf8_def split: option.split)
  then show "safe (string_deserialize_reader slice_reader)"
    unfolding string_deserialize_reader_def
    by (intro safe_and_then safe_u8_vec_reader) (auto split: outcome.split intro: safe_intros)
qed

lemma tuple2_total: "total_impl A \<Longrightarrow> total_impl B \<Longrightarrow> total_impl (tuple2_de n A B)"
  unfolding tuple2_de_def tuple2_deserialize_reader_def
  by (rule plain_total) (auto intro!: safe_intros total_de)

lemma check_ascending_returns: "check_ascending ks \<noteq> Panic"
  by (induction ks rule: check_ascending.induct) simp_all

lemma safe_check_ascending: "safe (if strict then lift (check_ascending ks) else ret ())"
  by (simp add: safe_lift check_ascending_returns safe_ret)

lemma safe_entries:
  assumes "total_impl K" and "total_impl V" and "elem_size_ok ps"
  shows "safe (vec_deserialize_reader (tuple2_de ps K V) slice_reader)"
  by (rule safe_vec_reader [OF tuple2_total [OF assms(1,2)]]) (simp add: tuple2_de_def assms(3))

lemma btree_map_total:
  "total_impl K \<Longrightarrow> total_impl V \<Longrightarrow> elem_size_ok ps \<Longrightarrow> total_impl (btree_map_de strict n ps K V)"
  unfolding btree_map_de_def btree_map_deserialize_reader_def
  by (rule plain_total) (intro safe_and_then safe_check_zst safe_entries safe_check_ascending safe_ret)

lemma btree_set_total: "total_impl T \<Longrightarrow> elem_size_ok (de_size_of T) \<Longrightarrow> total_impl (btree_set_de strict n T)"
  unfolding btree_set_de_def btree_set_deserialize_reader_def
  by (rule plain_total) (intro safe_and_then safe_vec_reader safe_check_ascending safe_ret)

lemma hash_map_total:
  "total_impl K \<Longrightarrow> total_impl V \<Longrightarrow> elem_size_ok ps \<Longrightarrow>
   total_impl (plain_de n (hash_map_deserialize_reader strict iter_order ps K V))"
  unfolding hash_map_deserialize_reader_def
  by (rule plain_total) (intro safe_and_then safe_check_zst safe_entries safe_check_ascending safe_ret)

lemma hash_set_total:
  "total_impl T \<Longrightarrow> elem_size_ok (de_size_of T) \<Longrightarrow>
   total_impl (plain_de n (hash_set_deserialize_reader strict iter_order T))"
  unfolding hash_set_deserialize_reader_def
  by (rule plain_total) (intro safe_and_then safe_vec_reader safe_check_ascending safe_ret)

subsection \<open>Arrays, pointers and addresses\<close>

lemma array_total: "total_impl T \<Longrightarrow> total_impl (array_de N T)"
  unfolding array_de_def array_reader_eq
  by (rule plain_total)
    (auto intro!: safe_intros total_de total_impl.safe_array split: option.split simp: array_reader_eq)

lemma box_total: "total_impl T \<Longrightarrow> total_impl (plain_de n (box_deserialize_reader into T))"
  unfolding box_deserialize_reader_def by (rule plain_total) (intro safe_and_then total_de safe_ret)

lemma safe_ip_parts [safe_intros]:
  "safe (ipv4_deserialize_reader slice_reader)" "safe (ipv6_deserialize_reader slice_reader)"
  unfolding ipv4_deserialize_reader_def ipv6_deserialize_reader_def slice_reader_sel by (intro safe_intros)+

lemma address_total:
  "total_impl (plain_de n ipv4_deserialize_reader)" "total_impl (plain_de n ipv6_deserialize_reader)"
  "total_impl (plain_de n ip_deserialize_reader)"
  "total_impl (plain_de n socket_v4_deserialize_reader)" "total_impl (plain_de n socket_v6_deserialize_reader)"
  "total_impl (plain_de n socket_deserialize_reader)"
  by (rule plain_total, auto simp: ip_deserialize_reader_def socket_v4_deserialize_reader_def
      socket_v6_deserialize_reader_def socket_deserialize_reader_def intro!: safe_intros)+

end
