(* ===== verification/Derive_Totality.thy ===== *)
theory Derive_Totality
  imports Derive_Instances Borsh_Totality
begin

section \<open>Derived decoders on any input and any reader\<close>

text \<open>
  Two more contracts that a derived \<open>deserialize_reader\<close> has when those of its fields have
  them: it returns on every slice without a panic (\<open>total_impl\<close>), and what it returns depends
  only on the bytes that a reader delivers (\<open>simulated_impl\<close>).
\<close>

text \<open>The expression in the generated literal that reads a field that is not skipped.\<close>

definition field_reader :: "literal_parsers \<Rightarrow> ('r, 'v) de_impls \<Rightarrow> 'r Read \<Rightarrow> syn_field \<Rightarrow> ('r, 'v) io" where
  "field_reader P I reader f =
     (case at_deserialize_with (attrs_of P f) of
         Some path \<Rightarrow> de_with I path reader
       | None \<Rightarrow> deserialize_reader (de_impl I (fld_ty f)) reader)"

lemma exec_field_entry:
  "exec_exprs I reader (zip (f # fs) (List.map (field_entry P) (f # fs))) =
     and_then (if at_skip (attrs_of P f) then ret (default_of I (fld_ty f)) else field_reader P I reader f) (\<lambda>v.
     and_then (exec_exprs I reader (zip fs (List.map (field_entry P) fs))) (\<lambda>vs. ret (v # vs)))"
  by (simp add: field_entry_def field_default_output_def field_output_def field_reader_def split: option.split)

lemma literal_entries:
  "exec_literal I reader fs (List.map (field_entry P) fs) = exec_exprs I reader (zip fs (List.map (field_entry P) fs))"
  by (simp add: exec_literal_def comp_def)

lemma struct_body:
  assumes "de_struct_process P parse_path tokens cr input = Ok code"
  shows "de_struct_exec I init_method (st_fields input) code reader =
    and_then (exec_exprs I reader (zip (fields_list (st_fields input)) (List.map (field_entry P) (fields_list (st_fields input)))))
      (\<lambda>vals. ret (case ds_init code of Some m \<Rightarrow> init_method m vals | None \<Rightarrow> vals))"
proof -
  from assms obtain g g' where "fold_ok (de_process_field P) (fields_list (st_fields input)) (g, []) = Ok (g', ds_fields code)"
    by (auto simp: de_struct_process_def Let_def and_ok_Ok_iff)
  from de_fields_entries [OF this] show ?thesis by (simp add: de_struct_exec_def literal_entries)
qed

subsection \<open>Totality\<close>

definition de_total :: "literal_parsers \<Rightarrow> (bytes, 'v) de_impls \<Rightarrow> syn_field \<Rightarrow> bool" where
  "de_total P I f \<longleftrightarrow> (\<not> at_skip (attrs_of P f) \<longrightarrow> safe (field_reader P I slice_reader f))"

lemma field_total:
  "at_deserialize_with (attrs_of P f) = None \<Longrightarrow> total_impl (de_impl I (fld_ty f)) \<Longrightarrow> de_total P I f"
  by (simp add: de_total_def field_reader_def total_de)

lemma exec_exprs_safe:
  "\<forall>f\<in>set fs. de_total P I f \<Longrightarrow> safe (exec_exprs I slice_reader (zip fs (List.map (field_entry P) fs)))"
proof (induction fs)
  case Nil
  show ?case by (simp add: safe_ret)
next
  case (Cons f fs)
  then have "safe (exec_exprs I slice_reader (zip fs (List.map (field_entry P) fs)))" and "de_total P I f" by simp_all
  then show ?case unfolding exec_field_entry de_total_def by (intro safe_and_then safe_if safe_ret) simp
qed

lemma derived_struct_total:
  assumes "de_struct_process P parse_path tokens cr input = Ok code"
    and "\<forall>f\<in>set (fields_list (st_fields input)). de_total P I f"
  shows "total_impl (derived_struct_de n I init_method (st_fields input) code)"
  unfolding derived_struct_de_def
  by (rule plain_total) (simp add: struct_body [OF assms(1)] exec_exprs_safe [OF assms(2)] safe_and_then safe_ret)

lemma derived_enum_total:
  assumes code: "de_enum_process P parse_path tokens cr input = Ok code" and acc: "enum_accepted P (en_variants input)"
    and u: "contains_use_discriminant input = Ok u" and disc: "u \<longrightarrow> discriminants_accepted (en_variants input)"
    and fields: "field_contracts_of (en_variants input) (de_total P I)"
  shows "total_impl (derived_enum_de n I init_method (en_variants input) code)"
  unfolding derived_enum_de_def
proof (rule plain_total)
  have "safe (exec_arms I (en_variants input) slice_reader tag (de_arms code))" for tag
  proof (cases "find (\<lambda>x. declared_tag (en_variants input) u x = Some (uint tag)) (List.enumerate 0 (en_variants input))")
    case None
    then show ?thesis by (simp add: arms_meaning [OF code acc u disc] safe_fail)
  next
    case (Some x)
    obtain i v where x: "x = (i, v)" by (cases x)
    with find_SomeD [OF Some] enumerated [of x "en_variants input"] have "v \<in> set (en_variants input)" by simp
    then have "\<forall>f\<in>set (fields_list (var_fields v)). de_total P I f" using fields by (simp add: field_contracts_of_def)
    from exec_exprs_safe [OF this] Some show ?thesis
      by (simp add: arms_meaning [OF code acc u disc] x literal_entries safe_map_ok)
  qed
  then show "safe (de_enum_exec I init_method (en_variants input) code slice_reader)"
    unfolding de_enum_exec_def deserialize_variant_def by (intro safe_and_then safe_u8 safe_ret)
qed

subsection \<open>Readers\<close>

definition de_simulated ::
  "literal_parsers \<Rightarrow> ('r \<Rightarrow> bool) \<Rightarrow> ('r \<Rightarrow> bytes) \<Rightarrow> 'r Read \<Rightarrow> (bytes, 'v) de_impls \<Rightarrow> ('r, 'v) de_impls \<Rightarrow> syn_field \<Rightarrow> bool" where
  "de_simulated P invar rest R Is Ir f \<longleftrightarrow>
     (if at_skip (attrs_of P f) then default_of Ir (fld_ty f) = default_of Is (fld_ty f)
      else simulates invar rest (field_reader P Is slice_reader f) (field_reader P Ir R f))"

lemma field_simulated:
  "at_deserialize_with (attrs_of P f) = None \<Longrightarrow> \<not> at_skip (attrs_of P f) \<Longrightarrow>
   simulated_impl R invar rest (de_impl Is (fld_ty f)) (de_impl Ir (fld_ty f)) \<Longrightarrow> de_simulated P invar rest R Is Ir f"
  by (simp add: de_simulated_def field_reader_def simulated_de)

lemma exec_exprs_simulated:
  "\<forall>f\<in>set fs. de_simulated P invar rest R Is Ir f \<Longrightarrow>
   simulates invar rest (exec_exprs Is slice_reader (zip fs (List.map (field_entry P) fs)))
     (exec_exprs Ir R (zip fs (List.map (field_entry P) fs)))"
proof (induction fs)
  case Nil
  show ?case by (simp add: simulates_ret)
next
  case (Cons f fs)
  then have tail: "simulates invar rest (exec_exprs Is slice_reader (zip fs (List.map (field_entry P) fs)))
      (exec_exprs Ir R (zip fs (List.map (field_entry P) fs)))" and f: "de_simulated P invar rest R Is Ir f" by simp_all
  have "simulates invar rest
      (if at_skip (attrs_of P f) then ret (default_of Is (fld_ty f)) else field_reader P Is slice_reader f)
      (if at_skip (attrs_of P f) then ret (default_of Ir (fld_ty f)) else field_reader P Ir R f)"
    using f by (simp add: de_simulated_def simulates_ret)
  then show ?case unfolding exec_field_entry by (intro simulates_and_then tail simulates_ret)
qed

lemma derived_struct_simulated:
  assumes "lawful_reader R invar rest" and "de_struct_process P parse_path tokens cr input = Ok code"
    and "\<forall>f\<in>set (fields_list (st_fields input)). de_simulated P invar rest R Is Ir f"
  shows "simulated_impl R invar rest (derived_struct_de n Is init_method (st_fields input) code)
    (derived_struct_de n Ir init_method (st_fields input) code)"
  unfolding derived_struct_de_def
  by (rule plain_simulated_impl [OF assms(1)])
    (simp add: struct_body [OF assms(2)] exec_exprs_simulated [OF assms(3)] simulates_and_then simulates_ret)

lemma derived_enum_simulated:
  assumes R: "lawful_reader R invar rest"
    and code: "de_enum_process P parse_path tokens cr input = Ok code" and acc: "enum_accepted P (en_variants input)"
    and u: "contains_use_discriminant input = Ok u" and disc: "u \<longrightarrow> discriminants_accepted (en_variants input)"
    and fields: "field_contracts_of (en_variants input) (de_simulated P invar rest R Is Ir)"
  shows "simulated_impl R invar rest (derived_enum_de n Is init_method (en_variants input) code)
    (derived_enum_de n Ir init_method (en_variants input) code)"
  unfolding derived_enum_de_def
proof (rule plain_simulated_impl [OF R])
  have "simulates invar rest (exec_arms Is (en_variants input) slice_reader tag (de_arms code))
      (exec_arms Ir (en_variants input) R tag (de_arms code))" for tag
  proof (cases "find (\<lambda>x. declared_tag (en_variants input) u x = Some (uint tag)) (List.enumerate 0 (en_variants input))")
    case None
    then show ?thesis by (simp add: arms_meaning [OF code acc u disc] simulates_fail)
  next
    case (Some x)
    obtain i v where x: "x = (i, v)" by (cases x)
    with find_SomeD [OF Some] enumerated [of x "en_variants input"] have "v \<in> set (en_variants input)" by simp
    then have "\<forall>f\<in>set (fields_list (var_fields v)). de_simulated P invar rest R Is Ir f"
      using fields by (simp add: field_contracts_of_def)
    from exec_exprs_simulated [OF this] Some show ?thesis
      by (simp add: arms_meaning [OF code acc u disc] x literal_entries simulates_map_ok)
  qed
  then show "simulates invar rest (de_enum_exec Is init_method (en_variants input) code slice_reader)
      (de_enum_exec Ir init_method (en_variants input) code R)"
    unfolding de_enum_exec_def deserialize_variant_def
    by (intro simulates_and_then lawful_reader.sim_u8 [OF R] simulates_ret)
qed

end
