(* ===== verification/Derive_Composition.thy ===== *)
theory Derive_Composition
  imports Derive_Properties Derive_Totality Codec_Properties
begin

section \<open>Derived types inside other types, and their schemas\<close>

text \<open>
  The derived implementations put together with the rest of the library: vectors of derived
  types, and the schema of a derived enum beside the bytes of its derived \<open>serialize\<close>.
\<close>

subsection \<open>The schema of a derived enum describes its bytes\<close>

text \<open>
  The name of the struct of a variant is free when its turn comes: no type that an earlier
  variant mentions has taken it. (A derived schema leaves out its fields when its name is
  in the table already.)
\<close>

definition variant_fresh :: "string \<Rightarrow> schema_variant list \<Rightarrow> nat \<Rightarrow> bool" where
  "variant_fresh ident vs i \<longleftrightarrow>
     (\<forall>d. add_all (List.map (variant_schema ident) (take i vs)) [] = Some (Ok (), d) \<longrightarrow>
       map_of d (declaration_of (variant_schema ident (vs ! i))) = None)"

lemma definition_entry:
  assumes "add_definition self def d = Some (Ok (), d')" and "ordered d"
  shows "map_of d' self = Some def"
proof -
  have "and_then (add_definition self def) (\<lambda>_. ret ()) d = Some (Ok (), d')"
    using assms(1) by (simp add: and_then_Ok_iff ret_def)
  from entry_table [OF this assms(2) adds_ret] show ?thesis by blast
qed

lemma described_field_lawful:
  assumes "described_field P E enc ok f" and "\<not> at_skip (attrs_of P f)"
  shows "field_lawful (schema_field_of P E f)"
  using described_field_is [OF assms] schema_impl.adds_impl schema_impl.stable_impl
  by (simp add: field_lawful_def described_impl.axioms(1))

lemma described_struct_schema_impl:
  assumes "\<forall>f\<in>set (fields_list flds). described_field P E enc ok f"
  shows "schema_impl (derived_struct_schema ident params (item_of P E flds))"
  by (rule derived_struct_schema_impl)
    (use assms in \<open>auto simp: item_refs(2) kept_fields_def intro: described_field_lawful\<close>)

text \<open>A derived struct whose name is new to the table.\<close>

lemma derived_struct_adds:
  assumes "\<forall>f\<in>set (fields_list flds). described_field P E enc ok f" and "fields_ok P ok (fields_list flds) vals"
    and "ordered d" and "add_definitions_recursively (derived_struct_schema ident params (item_of P E flds)) d = Some (Ok (), d')"
    and "map_of d (derived_declaration ident params) = None"
  shows "encodes (map_of d') (derived_declaration ident params) (fields_enc P enc (fields_list flds) vals)"
proof -
  let ?self = "derived_declaration ident params" and ?def = "Struct (fst (process_fields (item_of P E flds)))"
  let ?fs = "List.map (schema_field_of P E) (kept_fields P (fields_list flds))"
  from assms(4,5) have "and_then (add_definition ?self ?def) (\<lambda>_. for_each field_definitions ?fs) d = Some (Ok (), d')"
    by (simp add: derived_struct_schema_def Let_def item_refs(2))
  from entry_table [OF this assms(3) described_fields_add [OF assms(1)]] obtain d1
    where d1: "ordered d1" "for_each field_definitions ?fs d1 = Some (Ok (), d')" and t: "map_of d' ?self = Some ?def" .
  from assms(2) have "length (fields_list flds) = length vals" by (simp add: fields_ok_def)
  from fields_encode [OF this assms(1,2) d1]
  have "encodes_all (map_of d') (refs ?def) (fields_enc P enc (fields_list flds) vals)" by (simp add: item_refs(1))
  from struct [where D = "map_of d'", OF t this] show ?thesis .
qed

lemma derived_enum_encodes:
  assumes impls: "\<forall>v\<in>set vs. schema_impl (variant_schema ident v)"
    and i: "i < length vs" "variant_fields (vs ! i) = item_of P E flds" "variant_fresh ident vs i"
    and fs: "\<forall>f\<in>set (fields_list flds). described_field P E enc ok f" "fields_ok P ok (fields_list flds) vals"
    and c: "for_type (derived_enum_schema ident params vs) = Some (Ok c)"
  shows "encodes (get_definition c) (container_declaration c)
    (variant_discriminant (vs ! i) # fields_enc P enc (fields_list flds) vals)"
proof -
  let ?self = "derived_declaration ident params" and ?V = "variant_schema ident" and ?v = "vs ! i"
  let ?entry = "\<lambda>v. (ucast (variant_discriminant v), variant_name v, declaration_of (?V v))"
  have split: "List.map ?V vs = List.map ?V (take i vs) @ ?V ?v # List.map ?V (drop (Suc i) vs)"
    using id_take_nth_drop [OF i(1)] by (metis list.simps(9) map_append)
  from c obtain d' where r: "add_definitions_recursively (derived_enum_schema ident params vs) [] = Some (Ok (), d')"
    and c: "c = container_new ?self d'"
    by (auto simp: for_type_def derived_enum_schema_def Let_def split: option.splits prod.splits outcome.splits)
  from r obtain d0 d1 d2 where d0: "add_all (List.map ?V (take i vs)) [] = Some (Ok (), d0)"
    and d1: "add_definitions_recursively (?V ?v) d0 = Some (Ok (), d1)"
    and d2: "add_all (List.map ?V (drop (Suc i) vs)) d1 = Some (Ok (), d2)"
    and d': "add_definition ?self (Enum 1 (List.map ?entry vs)) d2 = Some (Ok (), d')"
    by (auto simp: derived_enum_schema_def Let_def split add_all_def for_each_append and_then_Ok_iff)
  have sub: "\<forall>T\<in>set (List.map ?V (take i vs)). schema_impl T" "\<forall>T\<in>set (List.map ?V (drop (Suc i) vs)). schema_impl T"
    using impls by (auto dest: in_set_takeD in_set_dropD)
  from impls i(1) have impl: "schema_impl (?V ?v)" by simp
  have "grows [] d0" using adds_Ok [OF add_all_impl(1) [OF sub(1)] _ d0] by (simp add: ordered_def)
  then have o0: "ordered d0" by (simp add: grows_def)
  have "grows d0 d1" using adds_Ok [OF schema_impl.adds_impl [OF impl] o0 d1] by blast
  then have o1: "ordered d1" by (simp add: grows_def)
  have g: "grows d1 d2" using adds_Ok [OF add_all_impl(1) [OF sub(2)] o1 d2] by blast
  then have o2: "ordered d2" by (simp add: grows_def)
  have "grows d2 d'" using adds_Ok [OF adds_definition o2 d'] by blast
  with g have g: "grows d1 d'" by (rule grows_trans)
  have name: "declaration_of (?V ?v) = derived_declaration (ident @ variant_name ?v) (variant_params ?v)"
    by (simp add: variant_schema_def derived_struct_schema_def Let_def)
  have "encodes (map_of d1) (declaration_of (?V ?v)) (fields_enc P enc (fields_list flds) vals)"
    unfolding name
  proof (rule derived_struct_adds [OF fs o0])
    show "add_definitions_recursively (derived_struct_schema (ident @ variant_name ?v) (variant_params ?v) (item_of P E flds)) d0 =
        Some (Ok (), d1)" using d1 by (simp add: variant_schema_def i(2))
    show "map_of d0 (derived_declaration (ident @ variant_name ?v) (variant_params ?v)) = None"
      using i(3) d0 by (simp add: variant_fresh_def name)
  qed
  with g have "encodes (map_of d') (declaration_of (?V ?v)) (fields_enc P enc (fields_list flds) vals)"
    by (auto simp: grows_def intro: encodes_mono)
  moreover have "?entry ?v \<in> set (List.map ?entry vs)" using i(1) by simp
  moreover have "map_of d' ?self = Some (Enum 1 (List.map ?entry vs))" by (rule definition_entry [OF d' o2])
  ultimately have "encodes (map_of d') ?self
      (le_bytes (unat (1 :: u8)) (unat (ucast (variant_discriminant ?v) :: DiscriminantValue)) @ fields_enc P enc (fields_list flds) vals)"
    by (intro enum)
  moreover have "unat (ucast (variant_discriminant ?v) :: DiscriminantValue) = unat (variant_discriminant ?v)"
    using unsigned_less [of "variant_discriminant ?v", where ?'a = nat] by (simp add: unsigned_ucast_eq take_bit_nat_eq_self)
  moreover have "unat (variant_discriminant ?v) < 256" using unsigned_less [of "variant_discriminant ?v", where ?'a = nat] by simp
  moreover have "get_definition c = map_of d'" by (rule ext) (simp add: c get_definition_def container_new_def)
  ultimately show ?thesis by (simp add: c container_new_def)
qed

subsection \<open>Canonicity\<close>

lemma byte_canonical:
  "de_canonical P byte_de (\<lambda>_ b. [b]) (\<lambda>_ _. True) (plain name t)"
  "de_canonical P byte_de (\<lambda>_ b. [b]) (\<lambda>_ _. True) (skipped name t)"
  by (auto simp: de_canonical_def byte_de_def dest: u8_D.canon)

text \<open>
  C23. Derived structs are canonical. When the decoders of the fields are, \<open>from_slice\<close> of a
  derived struct accepts exactly the encodings of its values, with the skipped fields at
  their default, and so does \<open>from_slice\<close> of a vector of it: the derived implementation
  meets the contract on which the collections rely.
\<close>

theorem derived_struct_canonical:
  assumes "de_struct_process P parse_path tokens cratename input = Ok code" and "ds_init code = None"
    and "\<forall>f\<in>set (fields_list (st_fields input)). de_contract P I enc ok f \<and> de_canonical P I enc ok f"
    and "elem_size_ok n"
  shows "(from_slice (derived_struct_de n I init_method (st_fields input) code) bs = Some (Ok vals) \<longleftrightarrow>
      struct_ok P I ok (fields_list (st_fields input)) vals \<and> bs = fields_enc P enc (fields_list (st_fields input)) vals) \<and>
    (from_slice (vec_de k (derived_struct_de n I init_method (st_fields input) code)) bs = Some (Ok vs) \<longleftrightarrow>
      vec_ok (struct_ok P I ok (fields_list (st_fields input))) vs \<and>
      bs = vec_enc (fields_enc P enc (fields_list (st_fields input))) vs)"
proof -
  note impl = derived_struct_canonical_impl [OF assms(1-3), where n = n and init_method = init_method]
  have "elem_size_ok (de_size_of (derived_struct_de n I init_method (st_fields input) code))"
    using assms(4) by (simp add: derived_struct_de_def plain_de_def)
  from canonical_impl.from_slice_Ok_iff [OF vec_canonical_impl [OF impl this]] canonical_impl.from_slice_Ok_iff [OF impl]
  show ?thesis by blast
qed

theorem derived_struct_canonical_witness:
  "\<exists>code. de_struct_process no_literals Ok type_tokens ''borsh'' pair_struct = Ok code \<and>
     from_slice (derived_struct_de 2 byte_de (\<lambda>_ v. v) (st_fields pair_struct) code) [7] = Some (Ok [7, 0]) \<and>
     from_slice (vec_de 24 (derived_struct_de 2 byte_de (\<lambda>_ v. v) (st_fields pair_struct) code)) [2, 0, 0, 0, 7, 8] =
       Some (Ok [[7, 0], [8, 0]]) \<and>
     from_slice (vec_de 24 (derived_struct_de 2 byte_de (\<lambda>_ v. v) (st_fields pair_struct) code)) [2, 0, 0, 0, 7, 8] \<noteq>
       Some (Ok [[7, 0]])"
proof -
  obtain dc where dc: "de_struct_process no_literals Ok type_tokens ''borsh'' pair_struct = Ok dc" using pair_de by blast
  have init: "ds_init dc = None"
    using dc by (auto simp: de_struct_process_def pair_struct_def de_process_field_def process_eval)
  have "\<forall>f\<in>set (fields_list (st_fields pair_struct)).
      de_contract no_literals byte_de (\<lambda>_ b. [b]) (\<lambda>_ _. True) f \<and> de_canonical no_literals byte_de (\<lambda>_ b. [b]) (\<lambda>_ _. True) f"
    by (simp add: pair_struct_def byte_contracts byte_canonical)
  note canonical = derived_struct_canonical [OF dc init this, of 2, where init_method = "\<lambda>_ v. v", OF elem_size_okI]
  have computed: "struct_ok no_literals byte_de (\<lambda>_ _. True) (fields_list (st_fields pair_struct)) [b, 0]"
    "fields_enc no_literals (\<lambda>_ b. [b]) (fields_list (st_fields pair_struct)) [b, 0] = [b]" for b
    by (simp_all add: struct_ok_def fields_ok_def fields_reset_def fields_enc_def pair_struct_def byte_de_def)
  show ?thesis
    using dc canonical by (intro exI [of _ dc]) (simp add: computed concrete)
qed

text \<open>
  C25. Derived enums are canonical: the tag and the fields are the only encoding of a value,
  whatever the discriminants are, and the same holds of vectors of the enum.
\<close>

theorem derived_enum_canonical:
  assumes "de_enum_process P parse_path tokens cratename input = Ok code" and "enum_accepted P (en_variants input)"
    and "contains_use_discriminant input = Ok u" and "u \<longrightarrow> discriminants_accepted (en_variants input)"
    and "de_init code = None"
    and "\<forall>v\<in>set (en_variants input). \<forall>f\<in>set (fields_list (var_fields v)).
      de_contract P I enc ok f \<and> de_canonical P I enc ok f"
    and "elem_size_ok n"
  shows "(from_slice (derived_enum_de n I init_method (en_variants input) code) bs = Some (Ok x) \<longleftrightarrow>
      enum_ok (struct_ok P I ok) (en_variants input) x \<and> bs = enum_enc P enc (en_variants input) u x) \<and>
    (from_slice (vec_de k (derived_enum_de n I init_method (en_variants input) code)) bs = Some (Ok xs) \<longleftrightarrow>
      vec_ok (enum_ok (struct_ok P I ok) (en_variants input)) xs \<and> bs = vec_enc (enum_enc P enc (en_variants input) u) xs)"
proof -
  have "field_contracts_of (en_variants input) (\<lambda>f. de_contract P I enc ok f \<and> de_canonical P I enc ok f)"
    using assms(6) by (simp add: field_contracts_of_def)
  note impl = derived_enum_canonical_impl [OF assms(1-5) this, where n = n and init_method = init_method]
  have "elem_size_ok (de_size_of (derived_enum_de n I init_method (en_variants input) code))"
    using assms(7) by (simp add: derived_enum_de_def plain_de_def)
  from canonical_impl.from_slice_Ok_iff [OF vec_canonical_impl [OF impl this]] canonical_impl.from_slice_Ok_iff [OF impl]
  show ?thesis by blast
qed

theorem derived_enum_canonical_witness:
  "\<exists>code. de_enum_process no_literals Ok type_tokens ''borsh'' choice_enum = Ok code \<and>
     from_slice (derived_enum_de 2 byte_de (\<lambda>_ v. v) (en_variants choice_enum) code) [1, 7] = Some (Ok (''Byte'', [7])) \<and>
     from_slice (vec_de 24 (derived_enum_de 2 byte_de (\<lambda>_ v. v) (en_variants choice_enum) code)) [2, 0, 0, 0, 0, 1, 7] =
       Some (Ok [(''Nothing'', []), (''Byte'', [7])])"
proof -
  obtain dc where dc: "de_enum_process no_literals Ok type_tokens ''borsh'' choice_enum = Ok dc" using choice_de by blast
  have init: "de_init dc = None"
    using dc by (simp add: de_enum_process_def choice_use) (auto simp: choice_enum_def process_eval and_ok_Ok_iff)
  have "\<forall>v\<in>set (en_variants choice_enum). \<forall>f\<in>set (fields_list (var_fields v)).
      de_contract no_literals byte_de (\<lambda>_ b. [b]) (\<lambda>_ _. True) f \<and> de_canonical no_literals byte_de (\<lambda>_ b. [b]) (\<lambda>_ _. True) f"
    by (simp add: choice_enum_def byte_contracts byte_canonical)
  note canonical = derived_enum_canonical [OF dc choice_accepted choice_use _ init this, of 2,
      where init_method = "\<lambda>_ v. v", OF _ elem_size_okI]
  have computed: "enum_ok (struct_ok no_literals byte_de (\<lambda>_ _. True)) (en_variants choice_enum) (''Byte'', [7])"
    "enum_ok (struct_ok no_literals byte_de (\<lambda>_ _. True)) (en_variants choice_enum) (''Nothing'', [])"
    "enum_enc no_literals (\<lambda>_ b. [b]) (en_variants choice_enum) False (''Byte'', [7]) = [1, 7]"
    "enum_enc no_literals (\<lambda>_ b. [b]) (en_variants choice_enum) False (''Nothing'', []) = [0]"
    by (simp_all add: enum_ok_def enum_enc_def variant_named_def choice_enum_def struct_ok_def fields_ok_def
        fields_reset_def fields_enc_def declared_tag_def byte_de_def)
  show ?thesis
    using dc canonical by (intro exI [of _ dc]) (simp add: computed concrete)
qed

subsection \<open>Any input, any reader\<close>

lemma byte_total:
  "de_total P byte_de (plain name t)" "de_total P byte_de (skipped name t)"
  using safe_u8 by (simp_all add: de_total_def field_reader_def byte_de_def u8_de_def)

lemma byte_simulated:
  assumes "lawful_reader R invar rest"
  shows "de_simulated P invar rest R byte_de byte_de (plain name t)"
    and "de_simulated P invar rest R byte_de byte_de (skipped name t)"
  using lawful_reader.sim_u8 [OF assms] by (simp_all add: de_simulated_def field_reader_def byte_de_def u8_de_def)

lemma example_items:
  "Q (plain (Some ''first'') (ident_type ''u8'')) \<Longrightarrow> Q (skipped (Some ''second'') (ident_type ''T'')) \<Longrightarrow>
   \<forall>f\<in>set (fields_list (st_fields pair_struct)). Q f"
  "Q (plain None (ident_type ''u8'')) \<Longrightarrow> \<forall>v\<in>set (en_variants choice_enum). \<forall>f\<in>set (fields_list (var_fields v)). Q f"
  by (simp_all add: pair_struct_def choice_enum_def)

lemma choice_byte_read:
  assumes "de_enum_process no_literals Ok type_tokens ''borsh'' choice_enum = Ok code"
  shows "from_slice (derived_enum_de n byte_de (\<lambda>_ v. v) (en_variants choice_enum) code) [1, 7] = Some (Ok (''Byte'', [7]))"
proof -
  have init: "de_init code = None"
    using assms by (simp add: de_enum_process_def choice_use) (auto simp: choice_enum_def process_eval and_ok_Ok_iff)
  have contracts: "field_contracts_of (en_variants choice_enum) (de_contract no_literals byte_de (\<lambda>_ b. [b]) (\<lambda>_ _. True))"
    unfolding field_contracts_of_def by (rule example_items(2)) (rule byte_contracts)
  from deserialize_impl.from_slice_enc [OF derived_enum_deserialize_impl [OF assms choice_accepted choice_use _ init contracts],
      of "(''Byte'', [7])" n "\<lambda>_ v. v"]
  show ?thesis
    by (simp add: enum_ok_def enum_enc_def variant_named_def choice_enum_def struct_ok_def fields_ok_def
        fields_reset_def fields_enc_def declared_tag_def byte_de_def)
qed

text \<open>
  C26. Hostile input. When the decoders of the fields return on every slice without a panic,
  so do those of derived structs and enums, and of vectors of them with whatever length they
  announce.
\<close>

theorem derived_types_return:
  assumes "de_struct_process P parse_path tokens cratename s = Ok s_code"
    and "\<forall>f\<in>set (fields_list (st_fields s)). de_total P I f"
    and "de_enum_process P parse_path tokens cratename e = Ok e_code" and "enum_accepted P (en_variants e)"
    and "contains_use_discriminant e = Ok u" and "u \<longrightarrow> discriminants_accepted (en_variants e)"
    and "\<forall>v\<in>set (en_variants e). \<forall>f\<in>set (fields_list (var_fields v)). de_total P J f"
    and "elem_size_ok n"
  shows "(\<exists>x. from_slice (derived_struct_de n I init_s (st_fields s) s_code) bs = Some x \<and> x \<noteq> Panic) \<and>
    (\<exists>x. from_slice (vec_de k (derived_struct_de n I init_s (st_fields s) s_code)) bs = Some x \<and> x \<noteq> Panic) \<and>
    (\<exists>x. from_slice (derived_enum_de n J init_e (en_variants e) e_code) bs = Some x \<and> x \<noteq> Panic) \<and>
    (\<exists>x. from_slice (vec_de k (derived_enum_de n J init_e (en_variants e) e_code)) bs = Some x \<and> x \<noteq> Panic)"
proof -
  note st = derived_struct_total [OF assms(1,2), where n = n and init_method = init_s]
  have "field_contracts_of (en_variants e) (de_total P J)" using assms(7) by (simp add: field_contracts_of_def)
  note en = derived_enum_total [OF assms(3-6) this, where n = n and init_method = init_e]
  have "elem_size_ok (de_size_of (derived_struct_de n I init_s (st_fields s) s_code))"
    "elem_size_ok (de_size_of (derived_enum_de n J init_e (en_variants e) e_code))"
    using assms(8) by (simp_all add: derived_struct_de_def derived_enum_de_def)
  with st en show ?thesis by (blast intro: total_impl.from_slice_returns vec_total)
qed

theorem derived_types_return_witness:
  "\<exists>s_code e_code. de_struct_process no_literals Ok type_tokens ''borsh'' pair_struct = Ok s_code \<and>
     de_enum_process no_literals Ok type_tokens ''borsh'' choice_enum = Ok e_code \<and>
     (\<exists>x. from_slice (vec_de 24 (derived_enum_de 2 byte_de (\<lambda>_ v. v) (en_variants choice_enum) e_code))
       [255, 255, 255, 255, 1, 7, 9] = Some x \<and> x \<noteq> Panic)"
proof -
  obtain sc where sc: "de_struct_process no_literals Ok type_tokens ''borsh'' pair_struct = Ok sc" using pair_de by blast
  obtain ec where ec: "de_enum_process no_literals Ok type_tokens ''borsh'' choice_enum = Ok ec" using choice_de by blast
  have "\<forall>f\<in>set (fields_list (st_fields pair_struct)). de_total no_literals byte_de f"
    "\<forall>v\<in>set (en_variants choice_enum). \<forall>f\<in>set (fields_list (var_fields v)). de_total no_literals byte_de f"
    by (rule example_items byte_total)+
  from derived_types_return [OF sc this(1) ec choice_accepted choice_use _ this(2), of 2] sc ec
  show ?thesis by (auto simp: elem_size_okI)
qed

text \<open>
  C27. Derived types are read the same from every lawful reader, such as one that delivers
  half of what is asked for: \<open>from_reader\<close> gives what \<open>from_slice\<close> gives on the bytes that
  the reader still has.
\<close>

theorem derived_types_any_reader:
  assumes "lawful_reader R invar rest" and "invar r"
    and "de_struct_process P parse_path tokens cratename s = Ok s_code"
    and "\<forall>f\<in>set (fields_list (st_fields s)). de_simulated P invar rest R Is Ir f"
    and "de_enum_process P parse_path tokens cratename e = Ok e_code" and "enum_accepted P (en_variants e)"
    and "contains_use_discriminant e = Ok u" and "u \<longrightarrow> discriminants_accepted (en_variants e)"
    and "\<forall>v\<in>set (en_variants e). \<forall>f\<in>set (fields_list (var_fields v)). de_simulated P invar rest R Js Jr f"
  shows "map_option fst (from_reader R (derived_struct_de n Ir init_s (st_fields s) s_code) r) =
      from_slice (derived_struct_de n Is init_s (st_fields s) s_code) (rest r) \<and>
    map_option fst (from_reader R (derived_enum_de n Jr init_e (en_variants e) e_code) r) =
      from_slice (derived_enum_de n Js init_e (en_variants e) e_code) (rest r)"
proof -
  have "field_contracts_of (en_variants e) (de_simulated P invar rest R Js Jr)"
    using assms(9) by (simp add: field_contracts_of_def)
  from derived_struct_simulated [OF assms(1,3,4)] derived_enum_simulated [OF assms(1,5-8) this]
  show ?thesis using assms(2) by (blast intro: simulated_impl.from_reader_eq_from_slice)
qed

theorem derived_types_any_reader_witness:
  "\<exists>s_code e_code. de_struct_process no_literals Ok type_tokens ''borsh'' pair_struct = Ok s_code \<and>
     de_enum_process no_literals Ok type_tokens ''borsh'' choice_enum = Ok e_code \<and>
     map_option fst (from_reader (provided_reader half_read) (derived_enum_de 2 byte_de (\<lambda>_ v. v) (en_variants choice_enum) e_code)
       \<lparr>data = [9, 1, 7], read_index = 1\<rparr>) = Some (Ok (''Byte'', [7]))"
proof -
  obtain sc where sc: "de_struct_process no_literals Ok type_tokens ''borsh'' pair_struct = Ok sc" using pair_de by blast
  obtain ec where ec: "de_enum_process no_literals Ok type_tokens ''borsh'' choice_enum = Ok ec" using choice_de by blast
  note half = half_R.lawful_reader_axioms
  have fields: "\<forall>f\<in>set (fields_list (st_fields pair_struct)).
        de_simulated no_literals reader_invar remaining (provided_reader half_read) byte_de byte_de f"
      "\<forall>v\<in>set (en_variants choice_enum). \<forall>f\<in>set (fields_list (var_fields v)).
        de_simulated no_literals reader_invar remaining (provided_reader half_read) byte_de byte_de f"
    by (rule example_items byte_simulated [OF half])+
  have "reader_invar \<lparr>data = [9, 1, 7], read_index = 1\<rparr>" by (simp add: reader_invar_def)
  from derived_types_any_reader [OF half this sc fields(1) ec choice_accepted choice_use _ fields(2), of 2 "\<lambda>_ v. v" "\<lambda>_ v. v"]
  have "map_option fst (from_reader (provided_reader half_read) (derived_enum_de 2 byte_de (\<lambda>_ v. v) (en_variants choice_enum) ec)
       \<lparr>data = [9, 1, 7], read_index = 1\<rparr>) =
     from_slice (derived_enum_de 2 byte_de (\<lambda>_ v. v) (en_variants choice_enum) ec) [1, 7]"
    by (simp add: remaining_def)
  also have "\<dots> = Some (Ok (''Byte'', [7]))" by (rule choice_byte_read [OF ec])
  finally show ?thesis using sc ec by blast
qed

subsection \<open>Derived bytes and derived schema of an enum\<close>

text \<open>
  C32. The derived schema of an enum describes the derived bytes: what the derived
  \<open>serialize\<close> of a variant writes is an encoding by the definitions of the container that
  the derived \<open>BorshSchema\<close> generates, so the tags of the two agree, and the fields are
  those of the struct that the schema has for the variant.
\<close>

theorem derived_enum_schema_describes_bytes:
  assumes "ser_enum_process P tokens cratename input = Ok ser_code"
    and "schema_enum_process P tokens cratename input = Ok schema_code"
    and "contains_use_discriminant input = Ok u" and "enum_accepted P (en_variants input)"
    and "u \<longrightarrow> discriminants_accepted (en_variants input)" and "variants_scoped input"
    and "\<forall>v\<in>set (en_variants input). fields_wf (var_fields v) \<and>
      (\<forall>f\<in>set (fields_list (var_fields v)). ser_contract P S enc ok f \<and> described_field P E enc ok f)"
    and "variant_fresh (en_ident input) (List.map (variant_of P tokens cratename E input u) (List.enumerate 0 (en_variants input))) i"
    and "i < length (en_variants input)" and "v = en_variants input ! i" and "fields_ok P ok (fields_list (var_fields v)) vals"
    and "schema_enum_exec P tokens cratename E (type_params (en_generics input)) schema_code = Some B"
    and "for_type B = Some (Ok c)"
  shows "\<exists>bs. ser_enum_exec S (en_variants input) ser_code vec_writer (var_ident v, vals) [] = Some (Ok (), bs) \<and>
    encodes (get_definition c) (container_declaration c) bs"
proof -
  let ?vs = "en_variants input" and ?fs = "fields_list (var_fields v)"
  let ?of = "variant_of P tokens cratename E input u"
  let ?svs = "List.map ?of (List.enumerate 0 ?vs)"
  have x: "(i, v) \<in> set (List.enumerate 0 ?vs)" and v: "v \<in> set ?vs" using assms(9,10) by (auto simp: in_set_enumerate_eq)
  from tag_of_tokens [OF assms(5) x] ser_enum_got [OF assms(1,3) x] obtain n where
    n: "declared_tag ?vs u (i, v) = Some n" by blast
  have "emits (\<lambda>W. ser_enum_exec S ?vs ser_code W (var_ident v, vals)) (word_of_int n # fields_enc P enc ?fs vals)"
    by (rule enum_emits [OF assms(1,4,3,5) x n assms(11)]) (use assms(7) v in blast)
  then have "ser_enum_exec S ?vs ser_code vec_writer (var_ident v, vals) [] = Some (Ok (), word_of_int n # fields_enc P enc ?fs vals)"
    using emits_vec by fastforce
  moreover have nth: "?svs ! i = ?of (i, v)" using assms(9,10) by (simp add: nth_enumerate_eq)
  have "encodes (get_definition c) (container_declaration c) (variant_discriminant (?svs ! i) # fields_enc P enc ?fs vals)"
  proof (rule derived_enum_encodes [OF _ _ _ assms(8) _ assms(11)])
    show "\<forall>w\<in>set ?svs. schema_impl (variant_schema (en_ident input) w)"
    proof
      fix w assume "w \<in> set ?svs"
      then obtain y where y: "y \<in> set (List.enumerate 0 ?vs)" and w: "w = ?of y" by auto
      have "\<forall>f\<in>set (fields_list (var_fields (snd y))). described_field P E enc ok f"
        using assms(7) enumerated [OF y] by blast
      from described_struct_schema_impl [OF this] show "schema_impl (variant_schema (en_ident input) w)"
        by (simp add: w variant_schema_def variant_of_def)
    qed
    show "variant_fields (?svs ! i) = item_of P E (var_fields v)" unfolding nth by (simp add: variant_of_def)
    show "\<forall>f\<in>set ?fs. described_field P E enc ok f" using assms(7) v by blast
    show "for_type (derived_enum_schema (en_ident input)
        (List.map (\<lambda>t. declaration_of (env_type E t)) (snd (sec_declaration schema_code))) ?svs) = Some (Ok c)"
      using assms(7,12,13) enum_code_is [OF assms(2,3,5) _ assms(6), of E] by simp
  qed (use assms(9) in simp)
  moreover have "variant_discriminant (?svs ! i) = word_of_int n" unfolding nth by (simp add: variant_of_def n)
  ultimately show ?thesis by auto
qed

text \<open>The variants of \<open>Choice\<close> as the derive of the schema has them, and its table.\<close>

definition choice_variants :: "schema_variant list" where
  "choice_variants =
     [\<lparr>variant_name = ''Nothing'', variant_discriminant = 0, variant_params = [], variant_fields = Unit_Fields\<rparr>,
      \<lparr>variant_name = ''Byte'', variant_discriminant = 1, variant_params = [],
        variant_fields = Unnamed_Fields [schema_field_of no_literals byte_env (plain None (ident_type ''u8''))]\<rparr>]"

lemma parse_filtered: "parse_attributes P (fld_attrs (filtered_field f)) = parse_attributes P (fld_attrs f)"
  "fld_ty (filtered_field f) = fld_ty f" "fld_ident (filtered_field f) = fld_ident f"
  by (simp_all add: filtered_field_def filter_attrs_twice)

lemma choice_variants:
  "List.map (variant_of no_literals type_tokens ''borsh'' byte_env choice_enum False)
     (List.enumerate 0 (en_variants choice_enum)) = choice_variants"
  by (simp add: choice_enum_def choice_variants_def variant_of_def declared_tag_def output_of_def
      inner_struct_definition_def visit_struct_fields_unconditional_def schema_struct_process_def schema_process_fields_def
      visit_struct_fields_def schema_visit_field_def needs_schema_params_derive_def generics_result_def
      filter_used_params_def process_for_params_def parse_filtered
      schema_process_field_def field_declaration_output_def field_definitions_output_def schema_declaration_def
      schema_definitions_def process_eval)

lemma choice_table:
  "\<exists>c. for_type (derived_enum_schema ''Choice'' [] choice_variants) = Some (Ok c)"
  by (simp add: for_type_def derived_enum_schema_def choice_variants_def variant_schema_def
      derived_struct_schema_def derived_declaration_def add_all_def Let_def schema_field_of_def field_definitions_def
      field_declaration_def byte_env_def u8_schema_def primitive_schema_def add_definition_def and_then_def ret_def
      schema_declaration_def schema_definitions_def less_char_def)

lemma choice_fresh: "variant_fresh ''Choice'' choice_variants 1"
  by (auto simp: variant_fresh_def choice_variants_def variant_schema_def derived_struct_schema_def derived_declaration_def
      add_all_def Let_def add_definition_def and_then_def ret_def)

lemma choice_schema_run:
  "\<exists>code B c. schema_enum_process no_literals type_tokens ''borsh'' choice_enum = Ok code \<and>
     schema_enum_exec no_literals type_tokens ''borsh'' byte_env (type_params (en_generics choice_enum)) code = Some B \<and>
     for_type B = Some (Ok c)"
proof -
  obtain code where code: "schema_enum_process no_literals type_tokens ''borsh'' choice_enum = Ok code"
    using choice_schema by blast
  then have params: "snd (sec_declaration code) = []"
    by (simp add: schema_enum_process_def choice_use)
      (auto simp: choice_enum_def schema_process_variant_def identifier_eval visit_struct_fields_def schema_visit_field_def
        discriminants_get_def inner_struct_definition_def generics_result_def needs_schema_params_derive_def process_eval)
  have "\<forall>v\<in>set (en_variants choice_enum). fields_wf (var_fields v)" and "variants_scoped choice_enum"
    by (simp_all add: choice_enum_def variants_scoped_def type_params_def List.map_filter_simps)
  from enum_code_is [OF code choice_use _ this, of byte_env]
  have "schema_enum_exec no_literals type_tokens ''borsh'' byte_env (type_params (en_generics choice_enum)) code =
      Some (derived_enum_schema ''Choice'' [] choice_variants)"
    using params choice_variants by (simp add: choice_enum_def)
  with code choice_table show ?thesis by blast
qed

theorem derived_enum_schema_describes_bytes_witness:
  "\<exists>ser_code schema_code B c bs.
     ser_enum_process no_literals type_tokens ''borsh'' choice_enum = Ok ser_code \<and>
     schema_enum_process no_literals type_tokens ''borsh'' choice_enum = Ok schema_code \<and>
     schema_enum_exec no_literals type_tokens ''borsh'' byte_env (type_params (en_generics choice_enum)) schema_code = Some B \<and>
     for_type B = Some (Ok c) \<and>
     ser_enum_exec byte_ser (en_variants choice_enum) ser_code vec_writer (''Byte'', [7]) [] = Some (Ok (), bs) \<and>
     encodes (get_definition c) (container_declaration c) bs"
proof -
  obtain sc where sc: "ser_enum_process no_literals type_tokens ''borsh'' choice_enum = Ok sc" using choice_ser by blast
  from choice_schema_run obtain code B c where code: "schema_enum_process no_literals type_tokens ''borsh'' choice_enum = Ok code"
    and B: "schema_enum_exec no_literals type_tokens ''borsh'' byte_env (type_params (en_generics choice_enum)) code = Some B"
    and c: "for_type B = Some (Ok c)" by blast
  have scoped: "variants_scoped choice_enum"
    by (simp add: choice_enum_def variants_scoped_def type_params_def List.map_filter_simps)
  have "\<forall>v\<in>set (en_variants choice_enum). fields_wf (var_fields v) \<and> (\<forall>f\<in>set (fields_list (var_fields v)).
      ser_contract no_literals byte_ser (\<lambda>_ b. [b]) (\<lambda>_ _. True) f \<and>
      described_field no_literals byte_env (\<lambda>_ b. [b]) (\<lambda>_ _. True) f)"
    using u8_described
    by (simp add: choice_enum_def byte_contracts described_field_def byte_env_def schema_declaration_def schema_definitions_def)
  moreover have "variant_fresh (en_ident choice_enum) (List.map (variant_of no_literals type_tokens ''borsh'' byte_env choice_enum False)
      (List.enumerate 0 (en_variants choice_enum))) 1"
    using choice_fresh unfolding choice_variants by (simp add: choice_enum_def)
  ultimately show ?thesis
    using derived_enum_schema_describes_bytes [OF sc code choice_use choice_accepted _ scoped _ _ _ refl _ B c,
        of byte_ser "\<lambda>_ b. [b]" "\<lambda>_ _. True" 1 "[7]"] sc code B c
    by (simp add: choice_enum_def fields_ok_def) blast
qed

end
