(* ===== verification/Custom_Reader_Test.thy ===== *)
theory Custom_Reader_Test
  imports Custom_Readers Derive_Totality
begin

section \<open>A derived struct from the readers of the caller\<close>

text \<open>
  Models the struct of \<open>borsh/tests/custom_reader/test_custom_reader.rs\<close> and what its tests
  check of the readers of \<open>Custom_Readers\<close>.
\<close>

subsection \<open>The struct of the test\<close>

text \<open>A value of one of its fields, and the implementations for the types of the fields.\<close>

datatype item = ItemInt u32 | ItemString string | ItemFloat u64

definition test_field :: "ident \<Rightarrow> ident \<Rightarrow> syn_field" where
  "test_field name t = \<lparr>fld_ident = Some name, fld_ty = ident_type t, fld_attrs = []\<rparr>"

definition Serializable :: item_struct where
  "Serializable = \<lparr>st_ident = ''Serializable'', st_generics = \<lparr>gen_params = [], gen_where = None\<rparr>,
     st_fields = FieldsNamed [test_field ''item1'' ''i32'', test_field ''item2'' ''String'', test_field ''item3'' ''f64''],
     st_attrs = []\<rparr>"

definition item_reader :: "ident \<Rightarrow> 'r Read \<Rightarrow> ('r, item) io" where
  "item_reader t reader =
     (if t = ''i32'' then map_ok ItemInt (integer_deserialize_reader reader)
      else if t = ''String'' then map_ok ItemString (string_deserialize_reader reader)
      else map_ok ItemFloat (float_deserialize_reader f64_is_nan reader))"

definition type_name :: "ty \<Rightarrow> ident" where
  "type_name t = (if t = ident_type ''i32'' then ''i32'' else if t = ident_type ''String'' then ''String'' else ''f64'')"

definition item_des :: "('r, item) de_impls" where
  "item_des = \<lparr>de_impl = (\<lambda>t. plain_de 32 (item_reader (type_name t))),
     de_with = (\<lambda>_ _. refused), default_of = (\<lambda>_. ItemInt 0)\<rparr>"

fun item_enc :: "item \<Rightarrow> bytes" where
  "item_enc (ItemInt i) = to_le_bytes i"
| "item_enc (ItemString s) = string_enc s"
| "item_enc (ItemFloat f) = to_le_bytes f"

fun item_ok :: "ident \<Rightarrow> item \<Rightarrow> bool" where
  "item_ok t (ItemInt i) \<longleftrightarrow> t = ''i32''"
| "item_ok t (ItemString s) \<longleftrightarrow> t = ''String'' \<and> string_ok s"
| "item_ok t (ItemFloat f) \<longleftrightarrow> t = ''f64'' \<and> \<not> f64_is_nan f"

lemma decodes_item: "item_ok t v \<Longrightarrow> decodes (item_reader t slice_reader) v (item_enc v)"
proof (cases v)
  case (ItemInt i)
  assume "item_ok t v"
  with ItemInt u32_D.de_decodes [of i] show ?thesis by (simp add: item_reader_def decodes_map_ok integer_de_def)
next
  case (ItemString s)
  assume "item_ok t v"
  with ItemString string_D.de_decodes [of s] show ?thesis by (simp add: item_reader_def decodes_map_ok string_de_def)
next
  case (ItemFloat f)
  assume "item_ok t v"
  with ItemFloat f64_D.de_decodes [of f] show ?thesis by (simp add: item_reader_def decodes_map_ok f64_de_def)
qed

lemma simulates_item:
  assumes "lawful_reader R invar rest"
  shows "simulates invar rest (item_reader t slice_reader) (item_reader t R)"
proof -
  have "simulates invar rest (string_deserialize_reader slice_reader) (string_deserialize_reader R)"
    using simulated_impl.sim_de [OF string_simulated_impl [OF assms]] by (simp add: string_de_def)
  moreover have "simulates invar rest (float_deserialize_reader f64_is_nan slice_reader) (float_deserialize_reader f64_is_nan R)"
    using simulated_impl.sim_de [OF float_simulated_impl [OF assms]] by simp
  ultimately show ?thesis
    unfolding item_reader_def by (intro simulates_if simulates_map_ok lawful_reader.sim_integer [OF assms])
qed

lemma test_attrs [simp]: "parse_attributes P (fld_attrs (test_field name t)) =
    Ok \<lparr>at_bounds = None, at_serialize_with = None, at_deserialize_with = None, at_skip = False, at_schema = None\<rparr>"
  "attrs_of P (test_field name t) =
    \<lparr>at_bounds = None, at_serialize_with = None, at_deserialize_with = None, at_skip = False, at_schema = None\<rparr>"
  by (simp_all add: attrs_of_def parse_attributes_def get_one_attribute_def test_field_def attributes_from_def take_variant_def)

lemma test_fields: "fields_list (st_fields Serializable) =
    [test_field ''item1'' ''i32'', test_field ''item2'' ''String'', test_field ''item3'' ''f64'']"
  by (simp add: Serializable_def)

lemma item_contracts:
  assumes "f \<in> set (fields_list (st_fields Serializable))"
  shows "de_contract P item_des (\<lambda>_. item_enc) (\<lambda>f. item_ok (type_name (fld_ty f))) f"
    and "lawful_reader R invar rest \<Longrightarrow> de_simulated P invar rest R item_des item_des f"
  using assms decodes_item simulates_item
  by (auto simp: test_fields de_contract_def de_simulated_def field_reader_def item_des_def)

text \<open>
  What the tests check: from either reader, at any position, the struct is read as from a
  slice, so a struct that was written is read back; and an error of the reader is returned
  as it is.
\<close>

lemma serializable_from_readers:
  assumes "de_struct_process P parse_path tokens cr Serializable = Ok code" and "ds_init code = None"
    and "rd = custom_read \<or> rd = half_read" and "reader_invar r"
    and "remaining r = to_le_bytes i @ string_enc s @ to_le_bytes f" and "string_ok s" and "\<not> f64_is_nan f"
  shows "map_option fst (from_reader (provided_reader rd) (derived_struct_de n item_des m (st_fields Serializable) code) r) =
    Some (Ok [ItemInt i, ItemString s, ItemFloat f])"
proof -
  let ?ok = "\<lambda>f. item_ok (type_name (fld_ty f))"
  let ?fs = "fields_list (st_fields Serializable)" and ?vals = "[ItemInt i, ItemString s, ItemFloat f]"
  have R: "lawful_reader (provided_reader rd) reader_invar remaining"
    using assms(3) custom_R.lawful_reader_axioms half_R.lawful_reader_axioms by blast
  have "map_option fst (from_reader (provided_reader rd) (derived_struct_de n item_des m (st_fields Serializable) code) r) =
      from_slice (derived_struct_de n item_des m (st_fields Serializable) code) (remaining r)"
    by (rule simulated_impl.from_reader_eq_from_slice [OF derived_struct_simulated [OF R assms(1)] assms(4)])
      (use item_contracts(2) [OF _ R] in blast)
  also have ok: "struct_ok P (item_des :: (bytes, item) de_impls) ?ok ?fs ?vals"
    using assms(6,7) by (simp add: struct_ok_def fields_ok_def fields_reset_def test_fields)
      (simp add: test_field_def type_name_def ident_type_def)
  have contracts: "\<forall>f\<in>set ?fs. de_contract P item_des (\<lambda>_. item_enc) ?ok f" using item_contracts(1) by blast
  from ok have "from_slice (derived_struct_de n item_des m (st_fields Serializable) code) (fields_enc P (\<lambda>_. item_enc) ?fs ?vals) =
      Some (Ok ?vals)"
    by (rule deserialize_impl.from_slice_enc [OF derived_struct_deserialize_impl [OF assms(1,2) contracts]])
  moreover have "fields_enc P (\<lambda>_. item_enc) ?fs ?vals = remaining r"
    by (simp add: fields_enc_def test_fields assms(5))
  ultimately show ?thesis by simp
qed

lemma failing_reader_error:
  assumes "de_struct_process P parse_path tokens cr Serializable = Ok code"
  shows "map_option fst (from_reader (provided_reader failing_read) (derived_struct_de n item_des m (st_fields Serializable) code) r) =
    Some (Err (error_new ConnectionAborted (''I don'' @ [CHR 0x27] @ ''t like to run'')))"
proof -
  let ?e = "error_new ConnectionAborted (''I don'' @ [CHR 0x27] @ ''t like to run'')"
  let ?f = "test_field ''item1'' ''i32''" and ?R = "provided_reader failing_read"
  have "item_reader ''i32'' ?R r = Some (Err ?e, r)"
    by (simp add: item_reader_def integer_deserialize_reader_def provided_reader_def default_read_exact_def
        default_read_exact_loop.simps failing_read_def fail_def map_ok_def and_then_def map_err_def
        unexpected_eof_to_unexpected_length_of_input_def)
  then have "field_reader P item_des ?R ?f r = Some (Err ?e, r)"
    by (simp add: field_reader_def item_des_def) (simp add: test_field_def type_name_def)
  then have "exec_exprs item_des ?R (zip (?f # fs) (List.map (field_entry P) (?f # fs))) r = Some (Err ?e, r)" for fs
    unfolding exec_field_entry by (simp add: and_then_def)
  then show ?thesis
    unfolding derived_struct_de_def from_reader_def by (simp only: plain_de_sel struct_body [OF assms] test_fields and_then_def)
      (simp add: and_then_def)
qed

end
