(* ===== verification/Fuzz_Targets.thy ===== *)
theory Fuzz_Targets
  imports Borsh_Totality "HOL-Library.Product_Lexorder"
begin

section \<open>The fuzzing program\<close>

text \<open>
  Models \<open>fuzz/fuzz-run/src/main.rs\<close>: on the data that the fuzzer supplies, the program
  deserializes a value of each of its types in turn and drops the result. The fuzzer looks
  for an input on which one of them panics or does not return; there is none.
  \<open>size_of\<close> are the sizes that the compiler gives to the element types, by their names.
\<close>

subsection \<open>The order of addresses\<close>

text \<open>Keys of maps are ordered; an address is ordered by its octets and then its port.\<close>

instantiation Ipv4Addr :: linorder
begin

definition less_eq_Ipv4Addr :: "Ipv4Addr \<Rightarrow> Ipv4Addr \<Rightarrow> bool" where
  "a \<le> b \<longleftrightarrow> octets4 a \<le> octets4 b"

definition less_Ipv4Addr :: "Ipv4Addr \<Rightarrow> Ipv4Addr \<Rightarrow> bool" where
  "a < b \<longleftrightarrow> octets4 a < octets4 b"

instance
  by standard (auto simp: less_eq_Ipv4Addr_def less_Ipv4Addr_def Ipv4Addr.expand)

end

definition v4_key :: "'m SocketAddrV4_scheme \<Rightarrow> Ipv4Addr \<times> u16 \<times> 'm" where
  "v4_key a = (v4_ip a, v4_port a, SocketAddrV4.more a)"

lemma v4_key_inj: "v4_key a = v4_key b \<longleftrightarrow> a = b"
  by (cases a, cases b) (simp add: v4_key_def)

instantiation SocketAddrV4_ext :: (linorder) linorder
begin

definition less_eq_SocketAddrV4_ext :: "'a SocketAddrV4_scheme \<Rightarrow> 'a SocketAddrV4_scheme \<Rightarrow> bool" where
  "a \<le> b \<longleftrightarrow> v4_key a \<le> v4_key b"

definition less_SocketAddrV4_ext :: "'a SocketAddrV4_scheme \<Rightarrow> 'a SocketAddrV4_scheme \<Rightarrow> bool" where
  "a < b \<longleftrightarrow> v4_key a < v4_key b"

instance
  by standard (auto simp: less_eq_SocketAddrV4_ext_def less_SocketAddrV4_ext_def v4_key_inj dest: antisym)

end

subsection \<open>The program\<close>

text \<open>\<open>let _ = <T>::deserialize(&mut &data[..]);\<close>\<close>

definition attempt :: "(bytes, 'a) BorshDeserialize \<Rightarrow> bytes \<Rightarrow> (unit, unit) outcome option" where
  "attempt T data =
     (case deserialize T data of
         None \<Rightarrow> None
       | Some (Panic, _) \<Rightarrow> Some Panic
       | Some (_, _) \<Rightarrow> Some (Ok ()))"

fun in_turn :: "(bytes \<Rightarrow> (unit, unit) outcome option) list \<Rightarrow> bytes \<Rightarrow> (unit, unit) outcome option" where
  "in_turn [] data = Some (Ok ())"
| "in_turn (f # fs) data = (case f data of Some (Ok _) \<Rightarrow> in_turn fs data | r \<Rightarrow> r)"

text \<open>
  The implementations for the types that occur. The iteration order of a hashed collection
  cannot be observed here, because the value is dropped; \<open>strict\<close> is the feature
  \<open>de_strict_order\<close>.
\<close>

type_synonym layout = "string \<Rightarrow> nat"

definition Vec_u8 :: "layout \<Rightarrow> (bytes, bytes) BorshDeserialize" where
  "Vec_u8 size_of = vec_de (size_of ''Vec<u8>'') u8_de"

definition Vec_u64 :: "layout \<Rightarrow> (bytes, u64 list) BorshDeserialize" where
  "Vec_u64 size_of = vec_de (size_of ''Vec<u64>'') integer_de"

definition String :: "layout \<Rightarrow> (bytes, string) BorshDeserialize" where
  "String size_of = string_de (size_of ''String'')"

definition Box_slice :: "layout \<Rightarrow> (bytes, bytes) BorshDeserialize" where
  "Box_slice size_of = plain_de (size_of ''Box<[u8]>'') (box_deserialize_reader (\<lambda>v. v) (Vec_u8 size_of))"

definition Socket_v4 :: "layout \<Rightarrow> (bytes, SocketAddrV4) BorshDeserialize" where
  "Socket_v4 size_of = plain_de (size_of ''SocketAddrV4'') socket_v4_deserialize_reader"

definition HashSet :: "bool \<Rightarrow> layout \<Rightarrow> (bytes, 'k::linorder) BorshDeserialize \<Rightarrow> (bytes, 'k list) BorshDeserialize" where
  "HashSet strict size_of T = plain_de (size_of ''HashSet'') (hash_set_deserialize_reader strict (\<lambda>s. s) T)"

definition HashMap ::
  "bool \<Rightarrow> layout \<Rightarrow> string \<Rightarrow> (bytes, 'k::linorder) BorshDeserialize \<Rightarrow> (bytes, 'v) BorshDeserialize \<Rightarrow>
   (bytes, ('k \<times> 'v) list) BorshDeserialize" where
  "HashMap strict size_of pair K V =
     plain_de (size_of ''HashMap'') (hash_map_deserialize_reader strict (\<lambda>m. m) (size_of pair) K V)"

definition BTreeMap ::
  "bool \<Rightarrow> layout \<Rightarrow> string \<Rightarrow> (bytes, 'k::linorder) BorshDeserialize \<Rightarrow> (bytes, 'v) BorshDeserialize \<Rightarrow>
   (bytes, ('k \<times> 'v) list) BorshDeserialize" where
  "BTreeMap strict size_of pair K V = btree_map_de strict (size_of ''BTreeMap'') (size_of pair) K V"

text \<open>A tuple of seven components is nested to the right.\<close>

definition Tuple7 :: "layout \<Rightarrow> (bytes, u32 \<times> u64 \<times> u32 \<times> u64 \<times> u32 \<times> u64 \<times> string) BorshDeserialize" where
  "Tuple7 size_of = tuple2_de (size_of ''tuple'') integer_de (tuple2_de 0 integer_de (tuple2_de 0 integer_de
     (tuple2_de 0 integer_de (tuple2_de 0 f32_de (tuple2_de 0 f64_de (String size_of))))))"

definition fuzz_types :: "bool \<Rightarrow> layout \<Rightarrow> bytes \<Rightarrow> (unit, unit) outcome option" where
  "fuzz_types strict size_of = in_turn
    [attempt (integer_de :: (bytes, u32) BorshDeserialize),
     attempt (integer_de :: (bytes, u64) BorshDeserialize),
     attempt (integer_de :: (bytes, u32) BorshDeserialize),
     attempt (integer_de :: (bytes, u64) BorshDeserialize),
     attempt f32_de,
     attempt f64_de,
     attempt (String size_of),
     attempt (Tuple7 size_of),
     attempt (Socket_v4 size_of),
     attempt (plain_de (size_of ''SocketAddrV6'') socket_v6_deserialize_reader),
     attempt (plain_de (size_of ''Ipv4Addr'') ipv4_deserialize_reader),
     attempt (plain_de (size_of ''Ipv6Addr'') ipv6_deserialize_reader),
     attempt (Box_slice size_of),
     attempt (option_de (size_of ''Option'') (integer_de :: (bytes, u64) BorshDeserialize)),
     attempt (option_de (size_of ''Option'') (String size_of)),
     attempt (option_de (size_of ''Option'') (Vec_u8 size_of)),
     attempt (option_de (size_of ''Option'') (Vec_u64 size_of)),
     attempt (option_de (size_of ''Option'') (Box_slice size_of)),
     attempt (option_de (size_of ''Option'') (Socket_v4 size_of)),
     attempt (Vec_u64 size_of),
     attempt (vec_de (size_of ''Vec'') (String size_of)),
     attempt (vec_de (size_of ''Vec'') (Vec_u8 size_of)),
     attempt (vec_de (size_of ''Vec'') (Vec_u64 size_of)),
     attempt (vec_de (size_of ''Vec'') (Box_slice size_of)),
     attempt (vec_de (size_of ''Vec'') (Socket_v4 size_of)),
     attempt (HashSet strict size_of (integer_de :: (bytes, u64) BorshDeserialize)),
     attempt (HashSet strict size_of (String size_of)),
     attempt (HashSet strict size_of (Vec_u8 size_of)),
     attempt (HashSet strict size_of (Vec_u64 size_of)),
     attempt (HashSet strict size_of (Box_slice size_of)),
     attempt (HashSet strict size_of (Socket_v4 size_of)),
     attempt (HashMap strict size_of ''(u64, u64)''
       (integer_de :: (bytes, u64) BorshDeserialize) (integer_de :: (bytes, u64) BorshDeserialize)),
     attempt (HashMap strict size_of ''(String, String)'' (String size_of) (String size_of)),
     attempt (HashMap strict size_of ''(SocketAddrV4, String)'' (Socket_v4 size_of) (String size_of)),
     attempt (HashMap strict size_of ''(Vec<u8>, Vec<u8>)'' (Vec_u8 size_of) (Vec_u8 size_of)),
     attempt (HashMap strict size_of ''(Box<[u8]>, HashMap)'' (Box_slice size_of)
       (HashMap strict size_of ''(String, String)'' (String size_of) (String size_of))),
     attempt (BTreeMap strict size_of ''(u64, u64)''
       (integer_de :: (bytes, u64) BorshDeserialize) (integer_de :: (bytes, u64) BorshDeserialize)),
     attempt (BTreeMap strict size_of ''(String, String)'' (String size_of) (String size_of)),
     attempt (BTreeMap strict size_of ''(Vec<u8>, Vec<u8>)'' (Vec_u8 size_of) (Vec_u8 size_of)),
     attempt (BTreeMap strict size_of ''(Box<[u8]>, BTreeMap)'' (Box_slice size_of)
       (BTreeMap strict size_of ''(String, String)'' (String size_of) (String size_of)))]"

subsection \<open>No input crashes it\<close>

lemma attempt_returns: "total_impl T \<Longrightarrow> attempt T data = Some (Ok ())"
  using total_impl.deserialize_returns [of T data]
  by (auto simp: attempt_def split: outcome.splits)

lemma in_turn_returns: "list_all (\<lambda>f. f data = Some (Ok ())) fs \<Longrightarrow> in_turn fs data = Some (Ok ())"
  by (induction fs) simp_all

text \<open>The sizes that the compiler gives to types are not multiples of \<open>2 ^ 32\<close>.\<close>

definition layout_ok :: "layout \<Rightarrow> bool" where
  "layout_ok size_of \<longleftrightarrow> (\<forall>t. elem_size_ok (size_of t))"

lemma layout_sizes:
  assumes "layout_ok size_of"
  shows "elem_size_ok (size_of t)" "elem_size_ok (de_size_of (Vec_u8 size_of))"
    "elem_size_ok (de_size_of (Vec_u64 size_of))" "elem_size_ok (de_size_of (String size_of))"
    "elem_size_ok (de_size_of (Box_slice size_of))" "elem_size_ok (de_size_of (Socket_v4 size_of))"
  using assms
  by (simp_all add: layout_ok_def Vec_u8_def vec_de_def Vec_u64_def String_def string_de_def Box_slice_def Socket_v4_def)

lemma u64_size: "elem_size_ok (de_size_of (integer_de :: (bytes, u64) BorshDeserialize))"
  by (simp add: integer_de_def elem_size_okI)

lemma fuzz_parts:
  assumes "layout_ok size_of"
  shows "total_impl (Vec_u8 size_of)" "total_impl (Vec_u64 size_of)" "total_impl (String size_of)"
    "total_impl (Box_slice size_of)" "total_impl (Socket_v4 size_of)"
proof -
  show vec: "total_impl (Vec_u8 size_of)"
    unfolding Vec_u8_def by (rule vec_total [OF u8_T.total_impl_axioms]) simp
  show "total_impl (Vec_u64 size_of)"
    unfolding Vec_u64_def by (rule vec_total [OF integer_T.total_impl_axioms]) (rule u64_size)
  show "total_impl (String size_of)"
    unfolding String_def by (rule string_T.total_impl_axioms)
  show "total_impl (Box_slice size_of)"
    unfolding Box_slice_def by (rule box_total) (rule vec)
  show "total_impl (Socket_v4 size_of)"
    unfolding Socket_v4_def by (rule address_total)
qed

lemma HashSet_total: "total_impl T \<Longrightarrow> elem_size_ok (de_size_of T) \<Longrightarrow> total_impl (HashSet strict size_of T)"
  unfolding HashSet_def by (rule hash_set_total)

lemma HashMap_total:
  "layout_ok size_of \<Longrightarrow> total_impl K \<Longrightarrow> total_impl V \<Longrightarrow> total_impl (HashMap strict size_of pair K V)"
  unfolding HashMap_def by (rule hash_map_total) (simp_all add: layout_ok_def)

lemma BTreeMap_total:
  "layout_ok size_of \<Longrightarrow> total_impl K \<Longrightarrow> total_impl V \<Longrightarrow> total_impl (BTreeMap strict size_of pair K V)"
  unfolding BTreeMap_def by (rule btree_map_total) (simp_all add: layout_ok_def)

lemma Tuple7_total: "layout_ok size_of \<Longrightarrow> total_impl (Tuple7 size_of)"
  unfolding Tuple7_def
  by (intro tuple2_total integer_T.total_impl_axioms f32_T.total_impl_axioms f64_T.total_impl_axioms fuzz_parts)

lemmas fuzz_totals = integer_T.total_impl_axioms f32_T.total_impl_axioms f64_T.total_impl_axioms Tuple7_total
  address_total option_total vec_total HashSet_total HashMap_total BTreeMap_total fuzz_parts layout_sizes(2-6) u64_size

text \<open>
  C9. The fuzzing program finds nothing: on every input, the deserialization of each of its
  types returns without a panic.
\<close>

theorem fuzz_types_return:
  assumes "layout_ok size_of"
  shows "fuzz_types strict size_of data = Some (Ok ())"
  unfolding fuzz_types_def
  by (rule in_turn_returns) (simp only: list.pred_inject, intro conjI TrueI attempt_returns fuzz_totals assms)

text \<open>With every size 24, and an announced length of almost \<open>2 ^ 32\<close>.\<close>

theorem fuzz_types_return_witness: "fuzz_types True (\<lambda>_. 24) [255, 255, 255, 255, 7] = Some (Ok ())"
  by (rule fuzz_types_return) (simp add: layout_ok_def elem_size_okI)

end
