(* ===== verification/Json_Example.thy ===== *)
theory Json_Example
  imports Derive_Instances Borsh_Totality
begin

section \<open>The codec of JSON values\<close>

text \<open>
  Models \<open>borsh/examples/serde_json_value.rs\<close>: a hand-written codec for a recursive type of
  another crate, used by derived code through \<open>serialize_with\<close> and \<open>deserialize_with\<close>. What
  the example uses of \<open>serde_json\<close> is a parameter: the conversions of numbers, and
  \<open>collect\<close> into a \<open>Map\<close>, which is represented by its entries in the order of iteration.
  Integers of 64 bits are words; a number is negative if its word is, read as signed.
\<close>

datatype 'n Value =
    Null
  | Bool bool
  | Number 'n
  | String string
  | Array "'n Value list"
  | Object "(string \<times> 'n Value) list"

record 'n serde_json =
  as_u64 :: "'n \<Rightarrow> u64 option"
  as_i64 :: "'n \<Rightarrow> u64 option"
  as_f64 :: "'n \<Rightarrow> u64 option"
  number_from_u64 :: "u64 \<Rightarrow> 'n"
  number_from_i64 :: "u64 \<Rightarrow> 'n"
  number_from_f64 :: "u64 \<Rightarrow> 'n option"
  display_f64 :: "u64 \<Rightarrow> string"
  map_collect :: "(string \<times> 'n Value) list \<Rightarrow> (string \<times> 'n Value) list"

subsection \<open>Serialization\<close>

definition serialize_number :: "'n serde_json \<Rightarrow> 'w Write \<Rightarrow> 'n \<Rightarrow> ('w, unit) io" where
  "serialize_number J writer number =
     (case as_u64 J number of
         Some u \<Rightarrow> and_then (u8_serialize writer 0) (\<lambda>_. integer_serialize writer u)
       | None \<Rightarrow> (case as_i64 J number of
         Some i \<Rightarrow> and_then (u8_serialize writer 1) (\<lambda>_. integer_serialize writer i)
       | None \<Rightarrow> (case as_f64 J number of
         Some f \<Rightarrow> and_then (u8_serialize writer 2) (\<lambda>_. float_serialize f64_is_nan writer f)
       | None \<Rightarrow> panic)))"

text \<open>The recursive function is the first argument of the other two.\<close>

definition serialize_array :: "('v \<Rightarrow> ('w, unit) io) \<Rightarrow> 'w Write \<Rightarrow> 'v list \<Rightarrow> ('w, unit) io" where
  "serialize_array serialize_value writer array =
     and_then (lift (u32_try_from (length array))) (\<lambda>n.
     and_then (write_all writer (to_le_bytes n)) (\<lambda>_.
     for_each serialize_value array))"

definition serialize_map :: "('v \<Rightarrow> ('w, unit) io) \<Rightarrow> 'w Write \<Rightarrow> (string \<times> 'v) list \<Rightarrow> ('w, unit) io" where
  "serialize_map serialize_value writer m =
     and_then (lift (u32_try_from (length m))) (\<lambda>n.
     and_then (integer_serialize writer n) (\<lambda>_.
     for_each (\<lambda>kv. and_then (string_serialize writer (fst kv)) (\<lambda>_. serialize_value (snd kv))) m))"

lemma for_each_cong: "xs = ys \<Longrightarrow> (\<And>x. x \<in> set ys \<Longrightarrow> f x = g x) \<Longrightarrow> for_each f xs = for_each g ys"
  by (induction ys arbitrary: xs) simp_all

lemma serialize_array_cong [fundef_cong]:
  "xs = ys \<Longrightarrow> W = W' \<Longrightarrow> (\<And>x. x \<in> set ys \<Longrightarrow> f x = g x) \<Longrightarrow> serialize_array f W xs = serialize_array g W' ys"
  using for_each_cong [of xs ys f g] by (simp add: serialize_array_def)

lemma serialize_map_cong [fundef_cong]:
  assumes "xs = ys" and "W = W'" and "\<And>kv. kv \<in> set ys \<Longrightarrow> f (snd kv) = g (snd kv)"
  shows "serialize_map f W xs = serialize_map g W' ys"
proof -
  have "for_each (\<lambda>kv. and_then (string_serialize W (fst kv)) (\<lambda>_. f (snd kv))) xs =
      for_each (\<lambda>kv. and_then (string_serialize W (fst kv)) (\<lambda>_. g (snd kv))) ys"
    by (rule for_each_cong) (simp_all add: assms)
  with assms(1,2) show ?thesis by (simp add: serialize_map_def)
qed

fun serialize_value :: "'n serde_json \<Rightarrow> 'w Write \<Rightarrow> 'n Value \<Rightarrow> ('w, unit) io" where
  "serialize_value J writer Null = u8_serialize writer 0"
| "serialize_value J writer (Bool b) =
     and_then (u8_serialize writer 1) (\<lambda>_. bool_serialize writer b)"
| "serialize_value J writer (Number n) =
     and_then (u8_serialize writer 2) (\<lambda>_. serialize_number J writer n)"
| "serialize_value J writer (String s) =
     and_then (u8_serialize writer 3) (\<lambda>_. string_serialize writer s)"
| "serialize_value J writer (Array a) =
     and_then (u8_serialize writer 4) (\<lambda>_. serialize_array (\<lambda>v. serialize_value J writer v) writer a)"
| "serialize_value J writer (Object o') =
     and_then (u8_serialize writer 5) (\<lambda>_. serialize_map (\<lambda>v. serialize_value J writer v) writer o')"

subsection \<open>Deserialization\<close>

text \<open>A copy of \<open>hint::cautious\<close>.\<close>

definition hint_cautious :: "nat \<Rightarrow> u32 \<Rightarrow> ('e, nat) outcome" where
  "hint_cautious size_of_T hint =
     (let el_size = (word_of_nat size_of_T :: u32)
      in if el_size = 0 then Panic
         else Ok (max (min (unat hint) (4096 div unat el_size)) 1))"

definition deserialize_number :: "'n serde_json \<Rightarrow> 'r Read \<Rightarrow> ('r, 'n) io" where
  "deserialize_number J reader =
     and_then (u8_deserialize_reader reader) (\<lambda>flag.
       if flag = 0 then and_then (integer_deserialize_reader reader) (\<lambda>u. ret (number_from_u64 J u))
       else if flag = 1 then and_then (integer_deserialize_reader reader) (\<lambda>i. ret (number_from_i64 J i))
       else if flag = 2 then and_then (float_deserialize_reader f64_is_nan reader) (\<lambda>f.
         case number_from_f64 J f of
             Some n \<Rightarrow> ret n
           | None \<Rightarrow> fail (error_new InvalidData (''Invalid JSON number: '' @ display_f64 J f)))
       else fail (error_new InvalidData (''Invalid JSON number representation: '' @ show_nat (unat flag)
              @ ''. The first byte must be 0-2'')))"

definition deserialize_array :: "nat \<Rightarrow> ('r, 'v) io \<Rightarrow> 'r Read \<Rightarrow> ('r, 'v list) io" where
  "deserialize_array pair_size deserialize_value reader =
     and_then (integer_deserialize_reader reader) (\<lambda>len :: u32.
     and_then (lift (hint_cautious pair_size len)) (\<lambda>capacity.
     push_times (unat len) deserialize_value []))"

definition deserialize_map ::
  "((string \<times> 'v) list \<Rightarrow> (string \<times> 'v) list) \<Rightarrow> nat \<Rightarrow> ('r, 'v) io \<Rightarrow> 'r Read \<Rightarrow> ('r, (string \<times> 'v) list) io" where
  "deserialize_map collect pair_size deserialize_value reader =
     and_then (integer_deserialize_reader reader) (\<lambda>len :: u32.
     and_then (lift (hint_cautious pair_size len)) (\<lambda>capacity.
     and_then (push_times (unat len)
         (and_then (string_deserialize_reader reader) (\<lambda>key.
          and_then deserialize_value (\<lambda>val. ret (key, val)))) [])
       (\<lambda>vec. ret (collect vec))))"

text \<open>The recursion follows the input, so the function is partial until it is shown to return.\<close>

lemma and_then_mono [partial_function_mono]:
  fixes m :: "('p \<Rightarrow> 'q option) \<Rightarrow> ('s, 'e, 'a) eff"
  assumes "\<And>s. mono_option (\<lambda>f. m f s)" and "\<And>a s. mono_option (\<lambda>f. g a f s)"
  shows "mono_option (\<lambda>f. and_then (m f) (\<lambda>a. g a f) s)"
proof (rule monotoneI)
  fix x y :: "'p \<Rightarrow> 'q option"
  assume xy: "option.le_fun x y"
  have m: "m x s = None \<or> m x s = m y s"
    using assms(1) [of s, THEN monotoneD, OF xy] by (simp add: flat_ord_def)
  have g: "g a x s = None \<or> g a x s = g a y s" for a s
    using assms(2) [of a s, THEN monotoneD, OF xy] by (simp add: flat_ord_def)
  show "option_ord (and_then (m x) (\<lambda>a. g a x) s) (and_then (m y) (\<lambda>a. g a y) s)"
  proof (cases "m x s")
    case None
    then show ?thesis by (simp add: flat_ord_def and_then_def)
  next
    case (Some p)
    obtain r t where p: "p = (r, t)" by (cases p)
    from Some m have "m y s = Some p" by simp
    with Some p g show ?thesis by (cases r) (simp_all add: flat_ord_def and_then_def)
  qed
qed

lemma push_times_mono [partial_function_mono]:
  assumes "\<And>s. mono_option (\<lambda>f. m f s)"
  shows "mono_option (\<lambda>f. push_times n (m f) acc s)"
proof (induction n arbitrary: acc s)
  case 0
  show ?case by (simp add: option.const_mono)
next
  case (Suc n)
  show ?case unfolding push_times.simps by (rule and_then_mono [OF assms Suc.IH])
qed

lemma deserialize_array_mono [partial_function_mono]:
  "(\<And>s. mono_option (\<lambda>f. m f s)) \<Longrightarrow> mono_option (\<lambda>f. deserialize_array ps (m f) R s)"
  unfolding deserialize_array_def
  by (rule and_then_mono, rule option.const_mono, rule and_then_mono, rule option.const_mono, rule push_times_mono)

lemma deserialize_map_mono [partial_function_mono]:
  "(\<And>s. mono_option (\<lambda>f. m f s)) \<Longrightarrow> mono_option (\<lambda>f. deserialize_map c ps (m f) R s)"
  unfolding deserialize_map_def
  by (rule and_then_mono, rule option.const_mono, rule and_then_mono, rule option.const_mono,
      rule and_then_mono, rule push_times_mono, rule and_then_mono, rule option.const_mono,
      rule and_then_mono, assumption, rule option.const_mono, rule option.const_mono)

partial_function (option) deserialize_value ::
  "'n serde_json \<Rightarrow> nat \<Rightarrow> 'r Read \<Rightarrow> 'r \<Rightarrow> ((io_error, 'n Value) outcome \<times> 'r) option" where
  "deserialize_value J pair_size reader r =
     and_then (u8_deserialize_reader reader) (\<lambda>flag s.
       if flag = 0 then ret Null s
       else if flag = 1 then and_then (bool_deserialize_reader reader) (\<lambda>b. ret (Bool b)) s
       else if flag = 2 then and_then (deserialize_number J reader) (\<lambda>n. ret (Number n)) s
       else if flag = 3 then and_then (string_deserialize_reader reader) (\<lambda>str. ret (String str)) s
       else if flag = 4 then
         and_then (deserialize_array pair_size (\<lambda>t. deserialize_value J pair_size reader t) reader) (\<lambda>a. ret (Array a)) s
       else if flag = 5 then
         and_then (deserialize_map (map_collect J) pair_size (\<lambda>t. deserialize_value J pair_size reader t) reader)
           (\<lambda>m. ret (Object m)) s
       else fail (error_new InvalidData (''Invalid JSON value representation: '' @ show_nat (unat flag)
              @ ''. The first byte must be 0-5'')) s) r"

definition value_ser :: "'n serde_json \<Rightarrow> nat \<Rightarrow> ('w, 'n Value) BorshSerialize" where
  "value_ser J n = plain_ser n (serialize_value J)"

definition value_de :: "'n serde_json \<Rightarrow> nat \<Rightarrow> nat \<Rightarrow> ('r, 'n Value) BorshDeserialize" where
  "value_de J pair_size n = plain_de n (deserialize_value J pair_size)"

subsection \<open>Encodings\<close>

text \<open>
  The documented behaviour of \<open>serde_json::Number\<close>: an unsigned number is an unsigned
  number whatever it was made from, a negative one is only an \<open>i64\<close>, and \<open>from_f64\<close> refuses what
  is not finite and otherwise yields a number that is only an \<open>f64\<close>.
\<close>

definition number_laws :: "'n serde_json \<Rightarrow> bool" where
  "number_laws J \<longleftrightarrow>
     (\<forall>u. as_u64 J (number_from_u64 J u) = Some u) \<and>
     (\<forall>i. 0 \<le> sint i \<longrightarrow> number_from_i64 J i = number_from_u64 J i) \<and>
     (\<forall>i. sint i < 0 \<longrightarrow> as_u64 J (number_from_i64 J i) = None \<and> as_i64 J (number_from_i64 J i) = Some i) \<and>
     (\<forall>f n. number_from_f64 J f = Some n \<longrightarrow>
        \<not> f64_is_nan f \<and> as_u64 J n = None \<and> as_i64 J n = None \<and> as_f64 J n = Some f)"

definition number_ok :: "'n serde_json \<Rightarrow> 'n \<Rightarrow> bool" where
  "number_ok J n \<longleftrightarrow> (\<exists>u. n = number_from_u64 J u) \<or> (\<exists>i. sint i < 0 \<and> n = number_from_i64 J i) \<or>
     (\<exists>f. number_from_f64 J f = Some n)"

definition number_enc :: "'n serde_json \<Rightarrow> 'n \<Rightarrow> bytes" where
  "number_enc J n =
     (case as_u64 J n of Some u \<Rightarrow> 0 # to_le_bytes u
       | None \<Rightarrow> (case as_i64 J n of Some i \<Rightarrow> 1 # to_le_bytes i
       | None \<Rightarrow> 2 # to_le_bytes (the (as_f64 J n))))"

definition len_enc :: "nat \<Rightarrow> bytes" where
  "len_enc n = to_le_bytes (word_of_nat n :: u32)"

fun value_enc :: "'n serde_json \<Rightarrow> 'n Value \<Rightarrow> bytes" where
  "value_enc J Null = [0]"
| "value_enc J (Bool b) = 1 # bool_enc b"
| "value_enc J (Number n) = 2 # number_enc J n"
| "value_enc J (String s) = 3 # string_enc s"
| "value_enc J (Array a) = 4 # len_enc (length a) @ concat (List.map (value_enc J) a)"
| "value_enc J (Object m) =
     5 # len_enc (length m) @ concat (List.map (\<lambda>kv. string_enc (fst kv) @ value_enc J (snd kv)) m)"

text \<open>The values of \<open>serde_json::Value\<close>; a \<open>Map\<close> is what its own entries are collected into.\<close>

fun value_ok :: "'n serde_json \<Rightarrow> 'n Value \<Rightarrow> bool" where
  "value_ok J Null \<longleftrightarrow> True"
| "value_ok J (Bool b) \<longleftrightarrow> True"
| "value_ok J (Number n) \<longleftrightarrow> number_ok J n"
| "value_ok J (String s) \<longleftrightarrow> string_ok s"
| "value_ok J (Array a) \<longleftrightarrow> length a < 2 ^ 32 \<and> (\<forall>v\<in>set a. value_ok J v)"
| "value_ok J (Object m) \<longleftrightarrow> length m < 2 ^ 32 \<and> map_collect J m = m \<and>
     (\<forall>kv\<in>set m. string_ok (fst kv) \<and> value_ok J (snd kv))"

text \<open>The three kinds of numbers.\<close>

lemma number_cases:
  assumes "number_laws J" and "number_ok J n"
  obtains u where "n = number_from_u64 J u" "as_u64 J n = Some u"
    | i where "n = number_from_i64 J i" "as_u64 J n = None" "as_i64 J n = Some i"
    | f where "number_from_f64 J f = Some n" "as_u64 J n = None" "as_i64 J n = None" "as_f64 J n = Some f" "\<not> f64_is_nan f"
  using assms unfolding number_laws_def number_ok_def by metis

lemma emits_u8_then: "emits k bs \<Longrightarrow> emits (\<lambda>W. and_then (u8_serialize W b) (\<lambda>_. k W)) (b # bs)"
  using emits_and_then [OF emits_u8] by simp

lemma emits_number:
  assumes "number_laws J" and "number_ok J n"
  shows "emits (\<lambda>W. serialize_number J W n) (number_enc J n)"
proof -
  have f64: "emits (\<lambda>W. float_serialize f64_is_nan W f) (to_le_bytes f)" if "\<not> f64_is_nan f" for f
    using f64_S.ser_emits [OF that] by (simp add: f64_ser_def)
  from assms show ?thesis
    by (cases rule: number_cases)
      (auto simp: serialize_number_def number_enc_def intro!: emits_u8_then emits_integer f64)
qed

lemma emits_string: "string_ok s \<Longrightarrow> emits (\<lambda>W. string_serialize W s) (string_enc s)"
  using serialize_impl.ser_emits [OF string_serialize_impl] by (simp add: string_ser_def)

lemma emits_value:
  assumes "number_laws J"
  shows "value_ok J v \<Longrightarrow> emits (\<lambda>W :: 'w Write. serialize_value J W v) (value_enc J v)"
proof (induction v)
  case Null
  show ?case using emits_u8 [of 0] by simp
next
  case (Bool b)
  show ?case using emits_u8_then [OF bool_S.ser_emits [of b]] by (simp add: bool_ser_def)
next
  case (Number n)
  then show ?case using emits_u8_then [OF emits_number [OF assms, of n]] by simp
next
  case (String s)
  then show ?case using emits_u8_then [OF emits_string [of s]] by simp
next
  case (Array a)
  then have "emits (\<lambda>W :: 'w Write. for_each (serialize_value J W) a) (concat (List.map (value_enc J) a))"
    by (intro emits_for_each) simp
  with emits_and_then [OF emits_write_all] Array.prems
  have "emits (\<lambda>W :: 'w Write. serialize_array (serialize_value J W) W a) (len_enc (length a) @ concat (List.map (value_enc J) a))"
    by (simp add: serialize_array_def len_enc_def)
  then show ?case by (simp add: emits_u8_then)
next
  case (Object m)
  have "emits (\<lambda>W :: 'w Write. and_then (string_serialize W (fst kv)) (\<lambda>_. serialize_value J W (snd kv)))
      (string_enc (fst kv) @ value_enc J (snd kv))" if "kv \<in> set m" for kv
    using Object that by (intro emits_and_then emits_string) (auto simp: snds.simps)
  then have "emits (\<lambda>W :: 'w Write. for_each (\<lambda>kv. and_then (string_serialize W (fst kv)) (\<lambda>_. serialize_value J W (snd kv))) m)
      (concat (List.map (\<lambda>kv. string_enc (fst kv) @ value_enc J (snd kv)) m))"
    by (rule emits_for_each)
  with emits_and_then [OF emits_integer] Object.prems
  have "emits (\<lambda>W :: 'w Write. serialize_map (serialize_value J W) W m)
      (len_enc (length m) @ concat (List.map (\<lambda>kv. string_enc (fst kv) @ value_enc J (snd kv)) m))"
    by (simp add: serialize_map_def len_enc_def)
  then show ?case by (simp add: emits_u8_then)
qed

lemma value_serialize_impl: "number_laws J \<Longrightarrow> serialize_impl (value_ser J n) (value_enc J) (value_ok J)"
  unfolding value_ser_def by (rule plain_serialize_impl) (rule emits_value)

subsection \<open>Decoding\<close>

lemma deserialize_value_flag:
  "deserialize_value J ps slice_reader (flag # s) =
     (if flag = 0 then ret Null s
      else if flag = 1 then and_then (bool_deserialize_reader slice_reader) (\<lambda>b. ret (Bool b)) s
      else if flag = 2 then and_then (deserialize_number J slice_reader) (\<lambda>n. ret (Number n)) s
      else if flag = 3 then and_then (string_deserialize_reader slice_reader) (\<lambda>str. ret (String str)) s
      else if flag = 4 then
        and_then (deserialize_array ps (deserialize_value J ps slice_reader) slice_reader) (\<lambda>a. ret (Array a)) s
      else if flag = 5 then
        and_then (deserialize_map (map_collect J) ps (deserialize_value J ps slice_reader) slice_reader)
          (\<lambda>m. ret (Object m)) s
      else fail (error_new InvalidData (''Invalid JSON value representation: '' @ show_nat (unat flag)
             @ ''. The first byte must be 0-5'')) s)"
  by (subst deserialize_value.simps) (simp add: u8_read_cons)

lemmas value_flags = deserialize_value_flag [where flag = 0, simplified] deserialize_value_flag [where flag = 1, simplified]
  deserialize_value_flag [where flag = 2, simplified] deserialize_value_flag [where flag = 3, simplified]
  deserialize_value_flag [where flag = 4, simplified] deserialize_value_flag [where flag = 5, simplified]

lemma flagged_decodes:
  assumes "decodes k v bs" and "\<And>s. deserialize_value J ps slice_reader (b # s) = k s"
  shows "decodes (deserialize_value J ps slice_reader) v (b # bs)"
  using assms by (simp add: decodes_def)

lemma decodes_then_ret: "decodes m v bs \<Longrightarrow> decodes (and_then m (\<lambda>x. ret (g x))) (g v) bs"
  using decodes_and_then [where f = "\<lambda>x. ret (g x)", OF _ decodes_ret] by fastforce

lemma decodes_number:
  assumes "number_laws J" and "number_ok J n"
  shows "decodes (deserialize_number J slice_reader) n (number_enc J n)"
proof -
  have u8: "decodes k v bs \<Longrightarrow> (\<And>s. f b s = k s) \<Longrightarrow>
      decodes (and_then (u8_deserialize_reader slice_reader) f) v (b # bs)" for k v bs f b
    by (simp add: decodes_def u8_read_cons)
  from assms show ?thesis
  proof (cases rule: number_cases)
    case (1 u)
    then show ?thesis unfolding deserialize_number_def number_enc_def
      using u8 [OF decodes_then_ret [OF decodes_u64 [of u], of "number_from_u64 J"]] by simp
  next
    case (2 i)
    then show ?thesis unfolding deserialize_number_def number_enc_def
      using u8 [OF decodes_then_ret [OF decodes_u64 [of i], of "number_from_i64 J"]] by simp
  next
    case (3 f)
    have "decodes (float_deserialize_reader f64_is_nan slice_reader) f (to_le_bytes f)"
      using f64_D.de_decodes [OF 3(5)] by (simp add: f64_de_def)
    from decodes_and_then [OF this, where f = "\<lambda>f. case number_from_f64 J f of Some n \<Rightarrow> ret n
           | None \<Rightarrow> fail (error_new InvalidData (''Invalid JSON number: '' @ display_f64 J f))" and b = n and bs = "[]"] 3(1)
    have "decodes (and_then (float_deserialize_reader f64_is_nan slice_reader) (\<lambda>f.
        case number_from_f64 J f of Some n \<Rightarrow> ret n
           | None \<Rightarrow> fail (error_new InvalidData (''Invalid JSON number: '' @ display_f64 J f)))) n (to_le_bytes f)"
      by (simp add: decodes_ret)
    from u8 [OF this] 3 show ?thesis unfolding deserialize_number_def number_enc_def by simp
  qed
qed

lemma decodes_string: "string_ok s \<Longrightarrow> decodes (string_deserialize_reader slice_reader) s (string_enc s)"
  using deserialize_impl.de_decodes [OF canonical_impl.axioms(1) [OF string_canonical_impl]] by (simp add: string_de_def)

lemma hint_is_cautious: "hint_cautious = cautious"
  by (intro ext) (simp add: hint_cautious_def cautious_def)

text \<open>The loop behind an announced length.\<close>

lemma decodes_counted:
  assumes "elem_size_ok ps" and "length xs < 2 ^ 32" and "\<And>x. x \<in> set xs \<Longrightarrow> decodes m x (enc x)"
  shows "decodes (and_then (integer_deserialize_reader slice_reader) (\<lambda>len :: u32.
      and_then (lift (hint_cautious ps len)) (\<lambda>capacity. push_times (unat len) m [])))
    xs (len_enc (length xs) @ concat (List.map enc xs))"
proof -
  let ?n = "word_of_nat (length xs) :: u32"
  obtain cap where "(hint_cautious ps ?n :: (io_error, nat) outcome) = Ok cap"
    using cautious_ok [OF assms(1)] unfolding hint_is_cautious by blast
  with decodes_push_times [of xs m enc "length xs" "[]"] assms(2,3)
  have "decodes (and_then (lift (hint_cautious ps ?n)) (\<lambda>capacity. push_times (unat ?n) m [])) xs (concat (List.map enc xs))"
    by (simp add: unat_len32)
  with decodes_u32 show ?thesis unfolding len_enc_def by (rule decodes_and_then)
qed

lemma decodes_value:
  assumes J: "number_laws J" and ps: "elem_size_ok ps"
  shows "value_ok J v \<Longrightarrow> decodes (deserialize_value J ps slice_reader) v (value_enc J v)"
proof (induction v)
  case Null
  show ?case using flagged_decodes [OF decodes_ret value_flags(1)] by simp
next
  case (Bool b)
  have "decodes (bool_deserialize_reader slice_reader) b (bool_enc b)"
    using bool_D.de_decodes [of b] by (simp add: bool_de_def)
  from flagged_decodes [OF decodes_then_ret [OF this] value_flags(2)] show ?case by simp
next
  case (Number n)
  with decodes_number [OF J, of n] have "decodes (deserialize_number J slice_reader) n (number_enc J n)" by simp
  from flagged_decodes [OF decodes_then_ret [OF this] value_flags(3)] show ?case by simp
next
  case (String s)
  with decodes_string [of s] have "decodes (string_deserialize_reader slice_reader) s (string_enc s)" by simp
  from flagged_decodes [OF decodes_then_ret [OF this] value_flags(4)] show ?case by simp
next
  case (Array a)
  then have "decodes (deserialize_array ps (deserialize_value J ps slice_reader) slice_reader) a
      (len_enc (length a) @ concat (List.map (value_enc J) a))"
    unfolding deserialize_array_def by (intro decodes_counted [OF ps]) simp_all
  from flagged_decodes [OF decodes_then_ret [OF this] value_flags(5)] show ?case by simp
next
  case (Object m)
  have entry: "decodes (and_then (string_deserialize_reader slice_reader) (\<lambda>key.
      and_then (deserialize_value J ps slice_reader) (\<lambda>val. ret (key, val)))) kv (string_enc (fst kv) @ value_enc J (snd kv))"
    if "kv \<in> set m" for kv
  proof -
    have v: "decodes (deserialize_value J ps slice_reader) (snd kv) (value_enc J (snd kv))" and k: "string_ok (fst kv)"
      using Object that by (auto simp: snds.simps)
    from decodes_and_then [OF decodes_string [OF k], where f = "\<lambda>key. and_then (deserialize_value J ps slice_reader) (\<lambda>val. ret (key, val))",
        OF decodes_then_ret [OF v]] show ?thesis by simp
  qed
  let ?loop = "and_then (integer_deserialize_reader slice_reader) (\<lambda>len :: u32.
      and_then (lift (hint_cautious ps len)) (\<lambda>capacity. push_times (unat len) (and_then (string_deserialize_reader slice_reader) (\<lambda>key.
        and_then (deserialize_value J ps slice_reader) (\<lambda>val. ret (key, val)))) []))"
  from decodes_counted [OF ps _ entry] Object.prems
  have "decodes ?loop m (len_enc (length m) @ concat (List.map (\<lambda>kv. string_enc (fst kv) @ value_enc J (snd kv)) m))" by simp
  from decodes_then_ret [OF this, of "map_collect J"] Object.prems
  have "decodes (deserialize_map (map_collect J) ps (deserialize_value J ps slice_reader) slice_reader) m
      (len_enc (length m) @ concat (List.map (\<lambda>kv. string_enc (fst kv) @ value_enc J (snd kv)) m))"
    by (simp add: deserialize_map_def)
  from flagged_decodes [OF decodes_then_ret [OF this] value_flags(6)] show ?case by simp
qed

lemma value_deserialize_impl:
  "number_laws J \<Longrightarrow> elem_size_ok ps \<Longrightarrow> deserialize_impl (value_de J ps n) (value_enc J) (value_ok J)"
  unfolding value_de_def by (rule plain_deserialize_impl) (rule decodes_value)

subsection \<open>The recursion ends\<close>

lemma safe_bool: "safe (bool_deserialize_reader slice_reader)"
  using bool_T.safe_de by (simp add: bool_de_def)

lemma safe_string: "safe (string_deserialize_reader slice_reader)"
  using string_T.safe_de by (simp add: string_de_def)

lemma safe_number: "safe (deserialize_number J slice_reader)"
  unfolding deserialize_number_def
  by (intro safe_and_then safe_u8 safe_if safe_integer safe_float safe_ret safe_fail) (auto intro: safe_intros split: option.split)

lemma safe_at_counted:
  assumes "elem_size_ok ps" and "\<And>used t. s = used @ t \<Longrightarrow> safe_at m t"
  shows "safe_at (and_then (integer_deserialize_reader slice_reader) (\<lambda>len :: u32.
      and_then (lift (hint_cautious ps len)) (\<lambda>capacity. push_times (unat len) m []))) s"
proof (rule safe_at_and_then [OF safeD [OF safe_integer]])
  fix len :: u32 and used t assume "s = used @ t"
  then show "safe_at (and_then (lift (hint_cautious ps len)) (\<lambda>capacity. push_times (unat len) m [])) t"
    unfolding hint_is_cautious
    by (intro safe_at_and_then safeD [OF safe_cautious [OF assms(1)]] safe_at_push_times)
      (metis assms(2) append_assoc)
qed

lemma safe_at_shift: "(\<And>s. m (b # s) = k s) \<Longrightarrow> safe_at k r \<Longrightarrow> safe_at m (b # r)"
  unfolding safe_at_def by (metis append_Cons)

lemma safe_at_if: "(c \<Longrightarrow> safe_at m r) \<Longrightarrow> (\<not> c \<Longrightarrow> safe_at m' r) \<Longrightarrow> safe_at (\<lambda>s. if c then m s else m' s) r"
  by (cases c) simp_all

lemma safe_value:
  assumes "elem_size_ok ps"
  shows "safe (deserialize_value J ps slice_reader)"
proof (rule safeI)
  fix s
  show "safe_at (deserialize_value J ps slice_reader) s"
  proof (induction s rule: length_induct)
    case (1 s)
    show ?case
    proof (cases s)
      case Nil
      then show ?thesis
        by (subst safe_at_def, subst deserialize_value.simps) (simp add: and_then_def u8_read_eof)
    next
      case (Cons flag r)
      have rec: "safe_at (deserialize_value J ps slice_reader) t" if "r = used @ t" for used t
        using 1 Cons that by simp
      have entry: "safe_at (and_then (string_deserialize_reader slice_reader) (\<lambda>key.
          and_then (deserialize_value J ps slice_reader) (\<lambda>val. ret (key, val)))) t" if "r = used @ t" for used t
        by (intro safe_at_and_then safeD [OF safe_string] rec safeD [OF safe_ret]) (simp add: that)
      show ?thesis
        unfolding Cons
      proof (rule safe_at_shift, rule deserialize_value_flag, intro safe_at_if)
        show "safe_at (and_then (deserialize_array ps (deserialize_value J ps slice_reader) slice_reader) (\<lambda>a. ret (Array a))) r"
          unfolding deserialize_array_def
          by (rule safe_at_and_then [OF safe_at_counted [OF assms rec] safeD [OF safe_ret]])
        show "safe_at (and_then (deserialize_map (map_collect J) ps (deserialize_value J ps slice_reader) slice_reader)
            (\<lambda>m. ret (Object m))) r"
          using safe_at_and_then [OF safe_at_counted [OF assms entry] safeD [OF safe_ret]]
          by (simp add: deserialize_map_def)
      qed (rule safeD, intro safe_intros safe_bool safe_number safe_string)+
    qed
  qed
qed

lemma value_total: "elem_size_ok ps \<Longrightarrow> total_impl (value_de J ps n)"
  unfolding value_de_def by (rule plain_total) (rule safe_value)

subsection \<open>Numbers have two encodings\<close>

text \<open>
  An integer that fits both representations is written as an unsigned one, and read in both:
  the codec of the example is not canonical, unlike the format.
\<close>

lemma number_not_canonical:
  assumes "number_laws J" and "0 \<le> sint w"
  shows "from_slice (value_de J ps n) (2 # 0 # to_le_bytes w) = Some (Ok (Number (number_from_u64 J w)))"
    and "from_slice (value_de J ps n) (2 # 1 # to_le_bytes w) = Some (Ok (Number (number_from_u64 J w)))"
    and "to_vec (value_ser J n) (Number (number_from_u64 J w)) = Some (Ok (2 # 0 # to_le_bytes w))"
proof -
  have w: "integer_deserialize_reader slice_reader (to_le_bytes w) = Some (Ok w, [])"
    using decodes_u64 [of w] by (auto simp: decodes_def dest: spec [of _ "[]"])
  have J: "number_from_i64 J w = number_from_u64 J w" "as_u64 J (number_from_u64 J w) = Some w"
    using assms by (auto simp: number_laws_def)
  show "from_slice (value_de J ps n) (2 # 0 # to_le_bytes w) = Some (Ok (Number (number_from_u64 J w)))"
    and "from_slice (value_de J ps n) (2 # 1 # to_le_bytes w) = Some (Ok (Number (number_from_u64 J w)))"
    using J(1) by (simp_all add: from_slice_def deserialize_def value_de_def value_flags deserialize_number_def
        and_then_def u8_read_Ok w ret_def)
  have "value_ok J (Number (number_from_u64 J w))" by (auto simp: number_ok_def)
  from serialize_impl.ser_emits [OF value_serialize_impl [OF assms(1)] this]
  show "to_vec (value_ser J n) (Number (number_from_u64 J w)) = Some (Ok (2 # 0 # to_le_bytes w))"
    using to_vec_enc [OF value_serialize_impl [OF assms(1)] \<open>value_ok J _\<close>] by (simp add: number_enc_def J(2))
qed

end
