(* ===== verification/Json_Properties.thy ===== *)
theory Json_Properties
  imports Json_Example
begin

section \<open>JSON values in derived types\<close>

text \<open>
  The derived types of \<open>borsh/examples/serde_json_value.rs\<close>: the wrapper, whose field names
  the functions of \<open>Json_Example\<close> in its attributes, and the struct with a map of wrappers.
  The implementations that the macros generate for them are run on the codec of JSON values.
\<close>

definition path_of :: "string list \<Rightarrow> ty" where
  "path_of names = TypePath None (Path False (List.map (\<lambda>i. Segment i NoArguments) names))"

definition SER_FUNC :: string where
  "SER_FUNC = ''super::serde_json_value::serialize_value''"

definition DE_FUNC :: string where
  "DE_FUNC = ''super::serde_json_value::deserialize_value''"

definition wrapped_field :: syn_field where
  "wrapped_field = \<lparr>fld_ident = None, fld_ty = path_of [''serde_json'', ''Value''],
     fld_attrs = [\<lparr>attr_path = ''borsh'', attr_args = Some
       [Meta ''serialize_with'' (Assigned (LitStr SER_FUNC)),
        Meta ''deserialize_with'' (Assigned (LitStr DE_FUNC))]\<rparr>]\<rparr>"

definition SerdeJsonBorshWrapper :: item_struct where
  "SerdeJsonBorshWrapper = \<lparr>st_ident = ''SerdeJsonBorshWrapper'', st_generics = \<lparr>gen_params = [], gen_where = None\<rparr>,
     st_fields = FieldsUnnamed [wrapped_field], st_attrs = []\<rparr>"

definition examples_field :: syn_field where
  "examples_field = \<lparr>fld_ident = Some ''examples'',
     fld_ty = TypePath None (Path False [Segment ''HashMap'' (AngleBracketed
       [ArgType (path_of [''String'']), ArgType (path_of [''SerdeJsonBorshWrapper''])])]),
     fld_attrs = []\<rparr>"

definition SerdeJsonAsField :: item_struct where
  "SerdeJsonAsField = \<lparr>st_ident = ''SerdeJsonAsField'', st_generics = \<lparr>gen_params = [], gen_where = None\<rparr>,
     st_fields = FieldsNamed [examples_field], st_attrs = []\<rparr>"

text \<open>
  What the names in the generated code stand for. The type \<open>serde_json::Value\<close> has no
  implementation of the traits, and no other function is named.
\<close>

definition wrapper_sers :: "'n serde_json \<Rightarrow> ('w, 'n Value) ser_impls" where
  "wrapper_sers J = \<lparr>ser_impl = (\<lambda>_. plain_ser 0 (\<lambda>_ _. refused)),
     ser_with = (\<lambda>func W v. if func = SER_FUNC then serialize_value J W v else refused)\<rparr>"

definition wrapper_des :: "'n serde_json \<Rightarrow> nat \<Rightarrow> ('r, 'n Value) de_impls" where
  "wrapper_des J ps = \<lparr>de_impl = (\<lambda>_. plain_de 0 (\<lambda>_. refused)),
     de_with = (\<lambda>func R. if func = DE_FUNC then deserialize_value J ps R else refused), default_of = (\<lambda>_. Null)\<rparr>"

text \<open>The wrapper as an implementation, and the map of wrappers as the only field type.\<close>

definition wrapper_ser :: "'n serde_json \<Rightarrow> nat \<Rightarrow> ser_struct_code \<Rightarrow> ('w, 'n Value list) BorshSerialize" where
  "wrapper_ser J n code = derived_struct_ser n (wrapper_sers J) (st_fields SerdeJsonBorshWrapper) code"

definition wrapper_de :: "'n serde_json \<Rightarrow> nat \<Rightarrow> nat \<Rightarrow> de_struct_code \<Rightarrow> ('r, 'n Value list) BorshDeserialize" where
  "wrapper_de J ps n code = derived_struct_de n (wrapper_des J ps) (\<lambda>_ v. v) (st_fields SerdeJsonBorshWrapper) code"

type_synonym 'n examples = "(string \<times> 'n Value list) list"

definition field_sers :: "'n serde_json \<Rightarrow> nat \<Rightarrow> ser_struct_code \<Rightarrow> ('w, 'n examples) ser_impls" where
  "field_sers J n code = \<lparr>ser_impl = (\<lambda>_. plain_ser 48 (hash_map_serialize n (string_ser 24) (wrapper_ser J n code))),
     ser_with = (\<lambda>_ _ _. refused)\<rparr>"

definition field_des ::
  "bool \<Rightarrow> ('n examples \<Rightarrow> 'n examples) \<Rightarrow> 'n serde_json \<Rightarrow> nat \<Rightarrow> nat \<Rightarrow> de_struct_code \<Rightarrow> ('r, 'n examples) de_impls" where
  "field_des strict iter_order J ps n code = \<lparr>de_impl = (\<lambda>_. plain_de 48
       (hash_map_deserialize_reader strict iter_order n (string_de 24) (wrapper_de J ps n code))),
     de_with = (\<lambda>_ _. refused), default_of = (\<lambda>_. [])\<rparr>"

subsection \<open>The wrapper\<close>

definition reads_paths :: "literal_parsers \<Rightarrow> bool" where
  "reads_paths P \<longleftrightarrow> parse_expr_path P SER_FUNC = Ok SER_FUNC \<and> parse_expr_path P DE_FUNC = Ok DE_FUNC"

lemma wrapped_attrs:
  assumes "reads_paths P"
  shows "parse_attributes P (fld_attrs wrapped_field) =
    Ok \<lparr>at_bounds = None, at_serialize_with = Some SER_FUNC, at_deserialize_with = Some DE_FUNC, at_skip = False, at_schema = None\<rparr>"
  using assms
  by (simp add: reads_paths_def parse_attributes_def get_one_attribute_def wrapped_field_def attr_get_by_symbol_keys_def
      attr_nested_meta_def parse_nested_meta_def get_nested_meta_logic_def BORSH_FIELD_PARSE_MAP_def path_is_def symbol_defs
      leftover_def parse_lit_into_def get_lit_str2_def map_outcome_def attributes_from_def take_variant_def check_field_def
      check_schema_def)

lemma plain_attrs: "attrs_of P examples_field =
    \<lparr>at_bounds = None, at_serialize_with = None, at_deserialize_with = None, at_skip = False, at_schema = None\<rparr>"
  by (simp add: attrs_of_def parse_attributes_def get_one_attribute_def examples_field_def attributes_from_def take_variant_def)

lemma wrapped_contracts:
  assumes "reads_paths P" and "number_laws J" and "elem_size_ok ps"
  shows "ser_contract P (wrapper_sers J) (\<lambda>_. value_enc J) (\<lambda>_. value_ok J) wrapped_field"
    and "de_contract P (wrapper_des J ps) (\<lambda>_. value_enc J) (\<lambda>_. value_ok J) wrapped_field"
  by (auto simp: ser_contract_def de_contract_def attrs_of_def wrapped_attrs [OF assms(1)] wrapper_sers_def wrapper_des_def
      intro!: emits_value [OF assms(2)] decodes_value [OF assms(2,3)])

definition wrapper_enc :: "'n serde_json \<Rightarrow> 'n Value list \<Rightarrow> bytes" where
  "wrapper_enc J vals = (case vals of [] \<Rightarrow> [] | v # _ \<Rightarrow> value_enc J v)"

definition wrapper_ok :: "'n serde_json \<Rightarrow> 'n Value list \<Rightarrow> bool" where
  "wrapper_ok J vals \<longleftrightarrow> (\<exists>v. vals = [v] \<and> value_ok J v)"

lemma wrapper_fields: "fields_list (st_fields SerdeJsonBorshWrapper) = [wrapped_field]" "fields_wf (st_fields SerdeJsonBorshWrapper)"
  by (simp_all add: SerdeJsonBorshWrapper_def wrapped_field_def)

lemma wrapper_meaning:
  assumes "reads_paths P"
  shows "fields_enc P (\<lambda>_. value_enc J) [wrapped_field] = wrapper_enc J"
    and "fields_ok P (\<lambda>_. value_ok J) [wrapped_field] = wrapper_ok J"
    and "struct_ok P D (\<lambda>_. value_ok J) [wrapped_field] = wrapper_ok J"
  using wrapped_attrs [OF assms]
  by (auto simp: fun_eq_iff fields_enc_def fields_ok_def wrapper_enc_def wrapper_ok_def struct_ok_def fields_reset_def
      attrs_of_def length_Suc_conv split: list.splits)

lemma wrapper_serialize_impl:
  assumes "reads_paths P" and "number_laws J"
    and "ser_struct_process P tokens cr SerdeJsonBorshWrapper = Ok code"
  shows "serialize_impl (wrapper_ser J n code) (wrapper_enc J) (wrapper_ok J)"
  unfolding wrapper_ser_def wrapper_meaning(1,2) [OF assms(1), symmetric] wrapper_fields(1) [symmetric]
  by (rule derived_struct_serialize_impl [OF assms(3) wrapper_fields(2)])
    (simp add: wrapper_fields(1) wrapped_contracts(1) [OF assms(1,2) elem_size_okI [of 1]])

lemma wrapper_deserialize_impl:
  assumes "reads_paths P" and "number_laws J" and "elem_size_ok ps"
    and "de_struct_process P parse_path tokens cr SerdeJsonBorshWrapper = Ok code" and "ds_init code = None"
  shows "deserialize_impl (wrapper_de J ps n code) (wrapper_enc J) (wrapper_ok J)"
proof -
  have "\<forall>f\<in>set (fields_list (st_fields SerdeJsonBorshWrapper)).
      de_contract P (wrapper_des J ps) (\<lambda>_. value_enc J) (\<lambda>_. value_ok J) f"
    using wrapped_contracts(2) [OF assms(1-3)] by (simp add: wrapper_fields)
  from derived_struct_deserialize_impl [OF assms(4,5) this]
  show ?thesis by (simp add: wrapper_de_def wrapper_fields(1) wrapper_meaning [OF assms(1)])
qed

text \<open>Neither struct has an \<open>init\<close> method.\<close>

lemma no_init:
  "de_struct_process P parse_path tokens cr SerdeJsonBorshWrapper = Ok code \<Longrightarrow> ds_init code = None"
  "de_struct_process P parse_path tokens cr SerdeJsonAsField = Ok code' \<Longrightarrow> ds_init code' = None"
  by (auto simp: de_struct_process_def Let_def and_ok_Ok_iff SerdeJsonBorshWrapper_def SerdeJsonAsField_def
      contains_initialize_with_def find_borsh_def)

subsection \<open>The struct with a map\<close>

lemma examples_struct_fields: "fields_list (st_fields SerdeJsonAsField) = [examples_field]" "fields_wf (st_fields SerdeJsonAsField)"
  by (simp_all add: SerdeJsonAsField_def examples_field_def)

lemma example_meaning:
  "fields_enc P (\<lambda>_. enc) [examples_field] [m] = enc m"
  "fields_ok P (\<lambda>_. ok) [examples_field] [m] \<longleftrightarrow> ok m"
  "struct_ok P D (\<lambda>_. ok) [examples_field] [m] \<longleftrightarrow> ok m"
  by (auto simp: fields_enc_def fields_ok_def struct_ok_def fields_reset_def plain_attrs)

abbreviation examples_ok :: "'n serde_json \<Rightarrow> 'n examples \<Rightarrow> bool" where
  "examples_ok J \<equiv> hash_map_ok string_ok (wrapper_ok J)"

text \<open>The map of wrapped values, in whatever order it is iterated.\<close>

lemma examples_round_trip:
  fixes J :: "'n serde_json"
  assumes "reads_paths P" and "number_laws J" and "elem_size_ok ps" and "elem_size_ok n"
    and "ser_struct_process P tokens cr SerdeJsonBorshWrapper = Ok wrapper_s"
    and "de_struct_process P parse_path tokens cr SerdeJsonBorshWrapper = Ok wrapper_d"
    and "ser_struct_process P tokens cr SerdeJsonAsField = Ok field_s"
    and "de_struct_process P parse_path tokens cr SerdeJsonAsField = Ok field_d"
    and "examples_ok J m" and perm: "\<And>xs. mset (iter_order xs) = mset xs"
  shows "\<exists>bs m'. to_vec (derived_struct_ser k (field_sers J n wrapper_s) (st_fields SerdeJsonAsField) field_s) [m] = Some (Ok bs) \<and>
    from_slice (derived_struct_de k (field_des strict iter_order J ps n wrapper_d) (\<lambda>_ v. v) (st_fields SerdeJsonAsField) field_d) bs =
      Some (Ok [m']) \<and>
    distinct (List.map fst m') \<and> map_of m' = map_of m"
proof -
  let ?enc = "hash_map_enc string_enc (wrapper_enc J)" and ?m = "hash_map_iterated iter_order m"
  let ?ok = "\<lambda>m. examples_ok J m \<and> hash_map_iterated iter_order m = m"
  note same = hash_map_iterated_same [OF assms(9) perm]
  have "serialize_impl (plain_ser 48 (hash_map_serialize n (string_ser 24) (wrapper_ser J n wrapper_s)) ::
      (bytes, 'n examples) BorshSerialize) ?enc (examples_ok J)"
    by (rule hash_map_serialize_impl [OF string_serialize_impl _ wrapper_serialize_impl [OF assms(1,2,5)]]) (simp add: string_ser_def)
  then have "\<forall>f\<in>set (fields_list (st_fields SerdeJsonAsField)).
      ser_contract P (field_sers J n wrapper_s :: (bytes, 'n examples) ser_impls) (\<lambda>_. ?enc) (\<lambda>_. examples_ok J) f"
    using field_contracts(1) [of P examples_field "field_sers J n wrapper_s :: (bytes, 'n examples) ser_impls" "\<lambda>_. ?enc" "\<lambda>_. examples_ok J"]
    by (simp add: examples_struct_fields plain_attrs field_sers_def)
  note ser = derived_struct_serialize_impl [OF assms(7) examples_struct_fields(2) this, unfolded examples_struct_fields(1), where n = k]
  have "deserialize_impl (plain_de 48 (hash_map_deserialize_reader strict iter_order n (string_de 24) (wrapper_de J ps n wrapper_d))) ?enc ?ok"
    by (rule hash_map_deserialize_impl [OF string_D.deserialize_impl_axioms wrapper_deserialize_impl [OF assms(1-3,6) no_init(1) [OF assms(6)]]])
      (simp add: map_sizes_ok_def string_de_def assms(4))
  then have "\<forall>f\<in>set (fields_list (st_fields SerdeJsonAsField)).
      de_contract P (field_des strict iter_order J ps n wrapper_d) (\<lambda>_. ?enc) (\<lambda>_. ?ok) f"
    using field_contracts(2) [of P examples_field "field_des strict iter_order J ps n wrapper_d" "\<lambda>_. ?enc" "\<lambda>_. ?ok"]
    by (simp add: examples_struct_fields plain_attrs field_des_def)
  note de = derived_struct_deserialize_impl [OF assms(8) no_init(2) [OF assms(8)] this, unfolded examples_struct_fields(1),
      where n = k and init_method = "\<lambda>_ v. v"]
  have "to_vec (derived_struct_ser k (field_sers J n wrapper_s) (st_fields SerdeJsonAsField) field_s) [m] = Some (Ok (?enc m))"
    using to_vec_enc [OF ser, of "[m]"] assms(9) by (simp add: example_meaning)
  moreover have "from_slice (derived_struct_de k (field_des strict iter_order J ps n wrapper_d) (\<lambda>_ v. v)
      (st_fields SerdeJsonAsField) field_d) (?enc ?m) = Some (Ok [?m])"
    using deserialize_impl.from_slice_enc [OF de, of "[?m]"] same(1,3) by (simp add: example_meaning)
  moreover have "distinct (List.map fst ?m)" using same(1) by (simp add: hash_map_ok_def)
  ultimately show ?thesis unfolding same(2) using same(4) by blast
qed

text \<open>
  C10. The round trip of the example: a map of JSON values in a derived struct, each wrapped
  by a derived struct that delegates to the hand-written recursive codec, is read back with
  the same entries, whatever the iteration order of the map is.
\<close>

theorem json_examples_round_trip:
  fixes J :: "'n serde_json"
  assumes "reads_paths P" and "number_laws J" and "elem_size_ok ps" and "elem_size_ok n"
    and "ser_struct_process P tokens cr SerdeJsonBorshWrapper = Ok wrapper_s"
    and "de_struct_process P parse_path tokens cr SerdeJsonBorshWrapper = Ok wrapper_d"
    and "ser_struct_process P tokens cr SerdeJsonAsField = Ok field_s"
    and "de_struct_process P parse_path tokens cr SerdeJsonAsField = Ok field_d"
    and "examples_ok J m" and perm: "\<And>xs. mset (iter_order xs) = mset xs"
  shows "\<exists>bs m'. to_vec (derived_struct_ser k (field_sers J n wrapper_s) (st_fields SerdeJsonAsField) field_s) [m] = Some (Ok bs) \<and>
    from_slice (derived_struct_de k (field_des strict iter_order J ps n wrapper_d) (\<lambda>_ v. v) (st_fields SerdeJsonAsField) field_d) bs =
      Some (Ok [m']) \<and>
    distinct (List.map fst m') \<and> map_of m' = map_of m"
  using assms by (rule examples_round_trip)

text \<open>
  A library that keeps the laws: a number is its kind and its bits, an ordered map is the
  list of its entries.
\<close>

definition f64_is_finite :: "u64 \<Rightarrow> bool" where
  "f64_is_finite f \<longleftrightarrow> f AND 0x7FF0000000000000 \<noteq> 0x7FF0000000000000"

definition sample_json :: "(nat \<times> u64) serde_json" where
  "sample_json = \<lparr>as_u64 = (\<lambda>n. if fst n = 0 then Some (snd n) else None),
     as_i64 = (\<lambda>n. if fst n = 1 \<or> fst n = 0 \<and> 0 \<le> sint (snd n) then Some (snd n) else None),
     as_f64 = (\<lambda>n. if fst n = 2 then Some (snd n) else None),
     number_from_u64 = Pair 0,
     number_from_i64 = (\<lambda>i. if sint i < 0 then (1, i) else (0, i)),
     number_from_f64 = (\<lambda>f. if f64_is_finite f then Some (2, f) else None),
     display_f64 = (\<lambda>_. ''inf''), map_collect = btree_map_collect\<rparr>"

definition json_literals :: literal_parsers where
  "json_literals = \<lparr>parse_expr_path = Ok, parse_predicates = (\<lambda>_. Err []), parse_overrides = (\<lambda>_. Err []),
     is_identifier = ascii_identifier\<rparr>"

lemma sample_laws: "number_laws sample_json"
  by (auto simp: number_laws_def sample_json_def f64_is_finite_def f64_is_nan_def split: if_splits)

lemma json_literals_read: "reads_paths json_literals"
  by (simp add: reads_paths_def json_literals_def)

lemmas json_process_eval = wrapped_attrs [OF json_literals_read] Let_def without_defaults_def default_where_def
  ser_struct_process_def ser_struct_fields_def ser_process_field_def unwrap_ident_def de_struct_process_def
  de_process_field_def ser_field_bounds_def needs_bounds_derive_def get_bounds_def collect_bounds_def
  new_struct_unnamed_def field_index_def map_outcome_def contains_initialize_with_def find_borsh_def

lemma wrapper_codes:
  "\<exists>code. ser_struct_process json_literals tokens cr SerdeJsonBorshWrapper = Ok code"
  "\<exists>code. de_struct_process json_literals parse_path tokens cr SerdeJsonBorshWrapper = Ok code"
  by (simp_all add: SerdeJsonBorshWrapper_def json_process_eval)

lemma examples_parsed: "parse_attributes P (fld_attrs examples_field) =
    Ok \<lparr>at_bounds = None, at_serialize_with = None, at_deserialize_with = None, at_skip = False, at_schema = None\<rparr>"
  by (simp add: parse_attributes_def get_one_attribute_def examples_field_def attributes_from_def take_variant_def)

lemma field_codes:
  "\<exists>code. ser_struct_process json_literals tokens cr SerdeJsonAsField = Ok code"
  "\<exists>code. de_struct_process json_literals parse_path tokens cr SerdeJsonAsField = Ok code"
  by (simp_all add: SerdeJsonAsField_def json_process_eval examples_parsed)
    (simp add: examples_field_def)

theorem json_examples_round_trip_witness:
  "\<exists>ss ds fs fd bs m'.
    to_vec (derived_struct_ser 48 (field_sers sample_json 48 ss) (st_fields SerdeJsonAsField) fs)
      [[(''b'', [Array [Null, Number (0, 7)]]), (''a'', [Object [(''k'', Bool True)]])]] = Some (Ok bs) \<and>
    from_slice (derived_struct_de 48 (field_des True rev sample_json 56 48 ds) (\<lambda>_ v. v) (st_fields SerdeJsonAsField) fd) bs =
      Some (Ok [m']) \<and>
    distinct (List.map fst m') \<and>
    map_of m' = map_of [(''b'', [Array [Null, Number (0, 7)]]), (''a'', [Object [(''k'', Bool True)]])]"
proof -
  obtain ss ds fs fd where codes:
    "ser_struct_process json_literals (\<lambda>_. []) ''borsh'' SerdeJsonBorshWrapper = Ok ss"
    "de_struct_process json_literals Ok (\<lambda>_. []) ''borsh'' SerdeJsonBorshWrapper = Ok ds"
    "ser_struct_process json_literals (\<lambda>_. []) ''borsh'' SerdeJsonAsField = Ok fs"
    "de_struct_process json_literals Ok (\<lambda>_. []) ''borsh'' SerdeJsonAsField = Ok fd"
    using wrapper_codes field_codes by metis
  have ok: "examples_ok sample_json [(''b'', [Array [Null, Number (0, 7)]]), (''a'', [Object [(''k'', Bool True)]])]"
    by (simp add: hash_map_ok_def vec_ok_def pair_ok_def wrapper_ok_def string_ok_def valid_utf8_def number_ok_def
        sample_json_def btree_map_collect_def)
  have sizes: "elem_size_ok 56" "elem_size_ok 48" by (simp_all add: elem_size_okI)
  from json_examples_round_trip [OF json_literals_read sample_laws sizes codes ok mset_rev, where k = 48 and strict = True]
  show ?thesis by blast
qed

text \<open>
  C11. The recursion of the hand-written decoder is driven by untrusted input, and it ends:
  on every slice, whatever the library does with numbers and maps, \<open>from_slice\<close> returns a
  value or an error.
\<close>

theorem json_from_slice_returns:
  assumes "elem_size_ok ps"
  shows "\<exists>x. from_slice (value_de J ps n) bs = Some x \<and> x \<noteq> Panic"
  by (rule total_impl.from_slice_returns [OF value_total [OF assms]])

text \<open>Arrays nested in arrays, each announcing \<open>2 ^ 32 - 1\<close> elements.\<close>

theorem json_from_slice_returns_witness:
  "\<exists>x. from_slice (value_de sample_json 56 72) [4, 255, 255, 255, 255, 4, 255, 255, 255, 255, 4] = Some x \<and> x \<noteq> Panic"
  by (rule json_from_slice_returns) (simp add: elem_size_okI)

end
