(* ===== verification/Json_Main.thy ===== *)
theory Json_Main
  imports Json_Properties
begin

section \<open>The example's main function\<close>

text \<open>
  \<open>main\<close> of \<open>borsh/examples/serde_json_value.rs\<close>: the JSON value that it writes, the round trip
  through the derived struct, and its assertions.
\<close>

subsection \<open>The value\<close>

text \<open>
  What the macro \<open>json!\<close> makes of the literals: an integer is a number of \<open>serde_json\<close>, a float
  is given by its bits, and an object is collected from its entries. A finite float is a
  number, so \<open>json!\<close> does not fall back to \<open>Null\<close> here.
\<close>

definition json_int :: "'n serde_json \<Rightarrow> int \<Rightarrow> 'n Value" where
  "json_int J i = Number (if i < 0 then number_from_i64 J (word_of_int i) else number_from_u64 J (word_of_int i))"

definition json_float :: "'n serde_json \<Rightarrow> u64 \<Rightarrow> 'n Value" where
  "json_float J bits = (case number_from_f64 J bits of Some n \<Rightarrow> Number n | None \<Rightarrow> Null)"

definition json_object :: "'n serde_json \<Rightarrow> (string \<times> 'n Value) list \<Rightarrow> 'n Value" where
  "json_object J entries = Object (map_collect J entries)"

definition pet :: "'n serde_json \<Rightarrow> string \<Rightarrow> int \<Rightarrow> 'n Value" where
  "pet J name age = json_object J [(''name'', String name), (''age'', json_int J age)]"

definition original :: "'n serde_json \<Rightarrow> 'n Value" where
  "original J = json_object J
     [(''null'', Null),
      (''true'', Bool True),
      (''false'', Bool False),
      (''zero'', json_int J 0),
      (''positive_integer'', json_int J 12345),
      (''negative_integer'', json_int J (- 88888)),
      (''positive_float'', json_float J 0x405EDCCCCCCCCCCD),
      (''negative_float'', json_float J 0xC08BC70A3D70A3D7),
      (''positive_max'', json_float J 0x7FEFFFFFFFFFFFFF),
      (''negative_max'', json_float J 0xFFEFFFFFFFFFFFFF),
      (''string'', String ''Larry''),
      (''array_of_nulls'', Array [Null, Null, Null]),
      (''array_of_numbers'', Array [json_int J 0, json_int J (- 1), json_int J 1,
         json_float J 0x3FF199999999999A, json_float J 0xBFF199999999999A, json_int J 34798324]),
      (''array_of_strings'', Array [String ''Larry'', String ''Jake'', String ''Pumpkin'']),
      (''array_of_arrays'', Array [Array [json_int J 1, json_int J 2, json_int J 3],
         Array [json_int J 4, json_int J 5, json_int J 6], Array [json_int J 7, json_int J 8, json_int J 9]]),
      (''array_of_objects'', Array [pet J ''Larry'' 30, pet J ''Jake'' 7, pet J ''Pumpkin'' 8]),
      (''object'', json_object J [(''name'', String ''Larry''), (''age'', json_int J 30),
         (''pets'', Array [pet J ''Jake'' 7, pet J ''Pumpkin'' 8])])]"

subsection \<open>The function\<close>

text \<open>\<open>expect\<close> on an option, and the accessors of \<open>Value\<close>.\<close>

definition expect :: "'a option \<Rightarrow> (unit, 'a) outcome" where
  "expect x = (case x of Some a \<Rightarrow> Ok a | None \<Rightarrow> Panic)"

definition assert_that :: "bool \<Rightarrow> (unit, unit) outcome" where
  "assert_that b = (if b then Ok () else Panic)"

fun get_key :: "string \<Rightarrow> 'n Value \<Rightarrow> 'n Value option" where
  "get_key k (Object m) = map_of m k"
| "get_key k _ = None"

fun as_array :: "'n Value \<Rightarrow> 'n Value list option" where
  "as_array (Array a) = Some a"
| "as_array _ = None"

definition get_index :: "nat \<Rightarrow> 'n Value list \<Rightarrow> 'n Value option" where
  "get_index i a = (if i < length a then Some (a ! i) else None)"

fun value_as_i64 :: "'n serde_json \<Rightarrow> 'n Value \<Rightarrow> u64 option" where
  "value_as_i64 J (Number n) = as_i64 J n"
| "value_as_i64 J _ = None"

text \<open>\<open>unwrap\<close> of what an entry point returns.\<close>

definition unwrapped :: "('e, 'a) outcome option \<Rightarrow> (unit, 'a) outcome option" where
  "unwrapped x = map_option (\<lambda>r. case r of Ok a \<Rightarrow> Ok a | _ \<Rightarrow> Panic) x"

text \<open>What \<open>main\<close> checks of the deserialized struct. Two hashed maps are equal if they have the same entries.\<close>

definition main_asserts :: "'n serde_json \<Rightarrow> 'n examples \<Rightarrow> 'n examples \<Rightarrow> (unit, unit) outcome" where
  "main_asserts J examples deserialized =
     and_ok (assert_that (map_of examples = map_of deserialized)) (\<lambda>_.
     and_ok (expect (map_of deserialized ''Larry Jake Pumpkin'')) (\<lambda>wrapper.
     and_ok (assert_that (wrapper = [original J])) (\<lambda>_.
     and_ok (expect (get_key ''array_of_numbers'' (hd wrapper))) (\<lambda>v.
     and_ok (expect (as_array v)) (\<lambda>a.
     and_ok (expect (get_index 5 a)) (\<lambda>v.
     and_ok (expect (value_as_i64 J v)) (\<lambda>number.
     assert_that (number = 34798324))))))))"

definition example_main ::
  "'n serde_json \<Rightarrow> (bytes, 'n examples list) BorshSerialize \<Rightarrow> (bytes, 'n examples list) BorshDeserialize \<Rightarrow>
   (unit, unit) outcome option" where
  "example_main J ser de =
     (let examples = [(''Larry Jake Pumpkin'', [original J])]
      in case unwrapped (to_vec ser [examples]) of
           Some (Ok serialized) \<Rightarrow>
             (case unwrapped (from_slice de serialized) of
                 Some (Ok deserialized) \<Rightarrow> Some (main_asserts J examples (hd deserialized))
               | Some _ \<Rightarrow> Some Panic
               | None \<Rightarrow> None)
         | Some _ \<Rightarrow> Some Panic
         | None \<Rightarrow> None)"


subsection \<open>It succeeds\<close>

lemma collected:
  fixes entries :: "('k::linorder \<times> 'v) list"
  shows "set (btree_map_collect entries) \<subseteq> set entries" "length (btree_map_collect entries) \<le> length entries"
    and "btree_map_collect (btree_map_collect entries) = btree_map_collect entries"
proof -
  have sorted: "sorted_wrt (<) (List.map fst (btree_map_collect entries))" by (rule btree_map_collect(1))
  then have d: "distinct (List.map fst (btree_map_collect entries))" by (simp add: strict_sorted_iff)
  show sub: "set (btree_map_collect entries) \<subseteq> set entries"
  proof
    fix x assume "x \<in> set (btree_map_collect entries)"
    then have "map_of (btree_map_collect entries) (fst x) = Some (snd x)" using d by simp
    then show "x \<in> set entries" using map_of_SomeD [of "rev entries" "fst x" "snd x"] by (simp add: btree_map_collect(2))
  qed
  have "length (btree_map_collect entries) = card (set (List.map fst (btree_map_collect entries)))"
    using distinct_card [OF d] by simp
  also have "\<dots> \<le> card (set (List.map fst entries))" using sub by (intro card_mono) auto
  also have "\<dots> \<le> length entries" using card_length [of "List.map fst entries"] by simp
  finally show "length (btree_map_collect entries) \<le> length entries" .
  show "btree_map_collect (btree_map_collect entries) = btree_map_collect entries" using sorted by (rule collect_sorted)
qed

lemma json_object_ok:
  assumes "map_collect J = btree_map_collect" and "length entries < 2 ^ 32"
    and "\<forall>kv\<in>set entries. string_ok (fst kv) \<and> value_ok J (snd kv)"
  shows "value_ok J (json_object J entries)"
  using assms(2,3) collected [of entries] by (auto simp: json_object_def assms(1))

lemma json_int_ok: "- (2 ^ 63) \<le> i \<Longrightarrow> value_ok J (json_int J i)"
proof (cases "i < 0")
  case True
  assume "- (2 ^ 63) \<le> i"
  with True have "sint (word_of_int i :: u64) = i" by (simp add: sint_sbintrunc' signed_take_bit_int_eq_self)
  with True have "\<exists>k. sint k < 0 \<and> number_from_i64 J (word_of_int i) = number_from_i64 J k" by metis
  with True show ?thesis by (simp add: json_int_def number_ok_def)
qed (auto simp: json_int_def number_ok_def)

lemma json_float_ok: "value_ok J (json_float J f)"
  by (auto simp: json_float_def number_ok_def split: option.split)

lemma ascii_literal: "list_all (\<lambda>c. \<not> digit7 c) s \<Longrightarrow> length s < 2 ^ 32 \<Longrightarrow> string_ok s"
  by (rule ascii_ok) (simp_all add: list_all_iff)

lemma original_ok:
  assumes "map_collect J = btree_map_collect"
  shows "value_ok J (original J)"
proof -
  have pet: "value_ok J (pet J name age)" if "string_ok name" "0 \<le> age" for name age
    unfolding pet_def by (rule json_object_ok [OF assms]) (use that in \<open>auto simp: json_int_ok ascii_literal\<close>)
  have "value_ok J (json_object J [(''name'', String ''Larry''), (''age'', json_int J 30),
       (''pets'', Array [pet J ''Jake'' 7, pet J ''Pumpkin'' 8])])"
    by (rule json_object_ok [OF assms]) (auto simp: json_int_ok ascii_literal pet)
  then show ?thesis
    unfolding original_def by (intro json_object_ok [OF assms]) (simp_all add: json_int_ok json_float_ok ascii_literal pet)
qed

text \<open>
  C30. \<open>main\<close> of the JSON example succeeds: its \<open>unwrap\<close>s and \<open>expect\<close>s find values and its assertions hold, whatever the
  iteration order of the hashed map. Of \<open>serde_json\<close> it uses that a \<open>Map\<close> is ordered and that
  an integer within \<open>i64\<close> is seen by \<open>as_i64\<close>.
\<close>

theorem example_main_succeeds:
  fixes J :: "'n serde_json"
  assumes "reads_paths P" and "number_laws J" and "elem_size_ok ps" and "elem_size_ok n"
    and "ser_struct_process P tokens cr SerdeJsonBorshWrapper = Ok wrapper_s"
    and "de_struct_process P parse_path tokens cr SerdeJsonBorshWrapper = Ok wrapper_d"
    and "ser_struct_process P tokens cr SerdeJsonAsField = Ok field_s"
    and "de_struct_process P parse_path tokens cr SerdeJsonAsField = Ok field_d"
    and perm: "\<And>xs. mset (iter_order xs) = mset xs"
    and "map_collect J = btree_map_collect" and "as_i64 J (number_from_u64 J 34798324) = Some 34798324"
  shows "example_main J (derived_struct_ser k (field_sers J n wrapper_s) (st_fields SerdeJsonAsField) field_s)
     (derived_struct_de k (field_des strict iter_order J ps n wrapper_d) (\<lambda>_ v. v) (st_fields SerdeJsonAsField) field_d) =
     Some (Ok ())"
proof -
  let ?m = "[(''Larry Jake Pumpkin'', [original J])]"
  have "examples_ok J ?m"
    using original_ok [OF assms(10)] by (simp add: hash_map_ok_def vec_ok_def pair_ok_def wrapper_ok_def ascii_literal)
  from examples_round_trip [OF assms(1-8) this perm] obtain bs m' where
    bs: "to_vec (derived_struct_ser k (field_sers J n wrapper_s) (st_fields SerdeJsonAsField) field_s) [?m] = Some (Ok bs)"
    and m': "from_slice (derived_struct_de k (field_des strict iter_order J ps n wrapper_d) (\<lambda>_ v. v)
      (st_fields SerdeJsonAsField) field_d) bs = Some (Ok [m'])" and same: "map_of m' = map_of ?m" by blast
  obtain v where v: "get_key ''array_of_numbers'' (original J) = Some (Array v)" "get_index 5 v = Some (json_int J 34798324)"
    by (simp add: original_def json_object_def assms(10) btree_map_collect(2) get_index_def)
  have "main_asserts J ?m m' = Ok ()"
    using same v assms(11) by (simp add: main_asserts_def expect_def assert_that_def json_int_def)
  then show ?thesis by (simp add: example_main_def unwrapped_def bs m')
qed

theorem example_main_succeeds_witness:
  "\<exists>ss ds fs fd. example_main sample_json (derived_struct_ser 48 (field_sers sample_json 48 ss) (st_fields SerdeJsonAsField) fs)
     (derived_struct_de 48 (field_des True rev sample_json 56 48 ds) (\<lambda>_ v. v) (st_fields SerdeJsonAsField) fd) = Some (Ok ())"
proof -
  obtain ss ds fs fd where codes:
    "ser_struct_process json_literals (\<lambda>_. []) ''borsh'' SerdeJsonBorshWrapper = Ok ss"
    "de_struct_process json_literals Ok (\<lambda>_. []) ''borsh'' SerdeJsonBorshWrapper = Ok ds"
    "ser_struct_process json_literals (\<lambda>_. []) ''borsh'' SerdeJsonAsField = Ok fs"
    "de_struct_process json_literals Ok (\<lambda>_. []) ''borsh'' SerdeJsonAsField = Ok fd"
    using wrapper_codes field_codes by metis
  have "elem_size_ok 56" "elem_size_ok 48" by (simp_all add: elem_size_okI)
  moreover have "map_collect sample_json = btree_map_collect"
    "as_i64 sample_json (number_from_u64 sample_json 34798324) = Some 34798324" by (simp_all add: sample_json_def)
  ultimately show ?thesis using example_main_succeeds [OF json_literals_read sample_laws _ _ codes mset_rev] by blast
qed

end
