(* ===== verification/Schema_Schema.thy ===== *)
theory Schema_Schema
  imports Schema_Properties Schema_Helpers
begin

section \<open>The schema of schemas\<close>

text \<open>
  Models \<open>borsh/src/generate_schema_schema.rs\<close>, the program that writes the schema of
  \<open>BorshSchemaContainer\<close> to a file, and shows what that file is good for: it describes the
  bytes of every container, those of the file included.
\<close>

subsection \<open>The program\<close>

text \<open>\<open>BorshSchemaContainer\<close> as a type that implements \<open>BorshSchema\<close>.\<close>

definition own_schema :: BorshSchema where
  "own_schema = container_schema (btree_map_schema str_schema definition_schema)"

text \<open>
  \<open>main\<close>, with \<open>File::create\<close> and the writer of the file as parameters; what is returned is
  the state of the file, and each \<open>expect\<close> is a panic. The printed copy is left out.
\<close>

definition generate_schema_schema ::
  "(string \<Rightarrow> (io_error, 'f) outcome) \<Rightarrow> 'f Write \<Rightarrow> (unit, 'f) outcome option" where
  "generate_schema_schema create W =
     (case schema_container_of own_schema of
         Some (Ok container) \<Rightarrow>
           (case to_vec container_ser container of
               Some (Ok data) \<Rightarrow>
                 (case create ''schema_schema.dat'' of
                     Ok file \<Rightarrow>
                       (case write_all W data file of
                           Some (Ok _, file) \<Rightarrow> Some (Ok file)
                         | None \<Rightarrow> None
                         | _ \<Rightarrow> Some Panic)
                   | _ \<Rightarrow> Some Panic)
             | None \<Rightarrow> None
             | _ \<Rightarrow> Some Panic)
       | None \<Rightarrow> None
       | _ \<Rightarrow> Some Panic)"

subsection \<open>The container it writes\<close>

definition own_entries :: "(Declaration \<times> Definition) list" where
  "own_entries =
     [(''(String, Definition)'', Tuple [''String'', ''Definition'']),
      (''(String, String)'', Tuple [''String'', ''String'']),
      (''(i64, String, String)'', Tuple [''i64'', ''String'', ''String'']),
      (''BTreeMap<String, Definition>'', tagged_sequence ''(String, Definition)''),
      (''BorshSchemaContainer'', Struct (NamedFields
         [(''declaration'', ''String''), (''definitions'', ''BTreeMap<String, Definition>'')])),
      (''Definition'', Enum 1 [(0, ''Primitive'', ''DefinitionPrimitive''), (1, ''Sequence'', ''DefinitionSequence''),
         (2, ''Tuple'', ''DefinitionTuple''), (3, ''Enum'', ''DefinitionEnum''), (4, ''Struct'', ''DefinitionStruct'')]),
      (''DefinitionEnum'', Struct (NamedFields
         [(''tag_width'', ''u8''), (''variants'', ''Vec<(i64, String, String)>'')])),
      (''DefinitionPrimitive'', Struct (UnnamedFields [''u8''])),
      (''DefinitionSequence'', Struct (NamedFields
         [(''length_width'', ''u8''), (''length_range'', ''RangeInclusive<u64>''), (''elements'', ''String'')])),
      (''DefinitionStruct'', Struct (NamedFields [(''fields'', ''Fields'')])),
      (''DefinitionTuple'', Struct (NamedFields [(''elements'', ''Vec<String>'')])),
      (''Fields'', Enum 1 [(0, ''NamedFields'', ''FieldsNamedFields''), (1, ''UnnamedFields'', ''FieldsUnnamedFields''),
         (2, ''Empty'', ''FieldsEmpty'')]),
      (''FieldsEmpty'', Struct Empty),
      (''FieldsNamedFields'', Struct (UnnamedFields [''Vec<(String, String)>''])),
      (''FieldsUnnamedFields'', Struct (UnnamedFields [''Vec<String>''])),
      (''RangeInclusive<u64>'', Struct (NamedFields [(''start'', ''u64''), (''end'', ''u64'')])),
      (''String'', tagged_sequence ''u8''),
      (''Vec<(String, String)>'', tagged_sequence ''(String, String)''),
      (''Vec<(i64, String, String)>'', tagged_sequence ''(i64, String, String)''),
      (''Vec<String>'', tagged_sequence ''String''),
      (''i64'', Primitive 8), (''u64'', Primitive 8), (''u8'', Primitive 1)]"

definition own_container :: BorshSchemaContainer where
  "own_container = container_new ''BorshSchemaContainer'' own_entries"

lemma own_for_type: "for_type own_schema = Some (Ok own_container)"
  by code_simp

abbreviation own_table :: "Declaration \<rightharpoonup> Definition" where "own_table \<equiv> get_definition own_container"

lemma own_declaration: "container_declaration own_container = ''BorshSchemaContainer''"
  by (simp add: own_container_def container_new_def)

lemma own_lookups [simp]:
  "own_table ''(String, Definition)'' = Some (Tuple [''String'', ''Definition''])"
  "own_table ''(String, String)'' = Some (Tuple [''String'', ''String''])"
  "own_table ''(i64, String, String)'' = Some (Tuple [''i64'', ''String'', ''String''])"
  "own_table ''BTreeMap<String, Definition>'' = Some (tagged_sequence ''(String, Definition)'')"
  "own_table ''BorshSchemaContainer'' = Some (Struct (NamedFields
     [(''declaration'', ''String''), (''definitions'', ''BTreeMap<String, Definition>'')]))"
  "own_table ''Definition'' = Some (Enum 1 [(0, ''Primitive'', ''DefinitionPrimitive''), (1, ''Sequence'', ''DefinitionSequence''),
     (2, ''Tuple'', ''DefinitionTuple''), (3, ''Enum'', ''DefinitionEnum''), (4, ''Struct'', ''DefinitionStruct'')])"
  "own_table ''DefinitionEnum'' = Some (Struct (NamedFields [(''tag_width'', ''u8''), (''variants'', ''Vec<(i64, String, String)>'')]))"
  "own_table ''DefinitionPrimitive'' = Some (Struct (UnnamedFields [''u8'']))"
  "own_table ''DefinitionSequence'' = Some (Struct (NamedFields
     [(''length_width'', ''u8''), (''length_range'', ''RangeInclusive<u64>''), (''elements'', ''String'')]))"
  "own_table ''DefinitionStruct'' = Some (Struct (NamedFields [(''fields'', ''Fields'')]))"
  "own_table ''DefinitionTuple'' = Some (Struct (NamedFields [(''elements'', ''Vec<String>'')]))"
  "own_table ''Fields'' = Some (Enum 1 [(0, ''NamedFields'', ''FieldsNamedFields''),
     (1, ''UnnamedFields'', ''FieldsUnnamedFields''), (2, ''Empty'', ''FieldsEmpty'')])"
  by (simp_all add: own_container_def own_entries_def container_new_def get_definition_def)

lemma own_lookups' [simp]:
  "own_table ''FieldsEmpty'' = Some (Struct Empty)"
  "own_table ''FieldsNamedFields'' = Some (Struct (UnnamedFields [''Vec<(String, String)>'']))"
  "own_table ''FieldsUnnamedFields'' = Some (Struct (UnnamedFields [''Vec<String>'']))"
  "own_table ''RangeInclusive<u64>'' = Some (Struct (NamedFields [(''start'', ''u64''), (''end'', ''u64'')]))"
  "own_table ''String'' = Some (tagged_sequence ''u8'')"
  "own_table ''Vec<(String, String)>'' = Some (tagged_sequence ''(String, String)'')"
  "own_table ''Vec<(i64, String, String)>'' = Some (tagged_sequence ''(i64, String, String)'')"
  "own_table ''Vec<String>'' = Some (tagged_sequence ''String'')"
  "own_table ''i64'' = Some (Primitive 8)" "own_table ''u64'' = Some (Primitive 8)" "own_table ''u8'' = Some (Primitive 1)"
  by (simp_all add: own_container_def own_entries_def container_new_def get_definition_def)

subsection \<open>It describes every container\<close>

text \<open>Encodings of the parts, one after the other.\<close>

lemma all_one: "encodes D a x \<Longrightarrow> encodes_all D [a] x"
  using more [OF _ none, of D a x] by simp

lemma all_two: "encodes D a x \<Longrightarrow> encodes D b y \<Longrightarrow> encodes_all D [a, b] (x @ y)"
  by (intro more all_one)

lemma all_three: "encodes D a x \<Longrightarrow> encodes D b y \<Longrightarrow> encodes D c z \<Longrightarrow> encodes_all D [a, b, c] (x @ y @ z)"
  by (intro more all_two) 

lemma struct_encodes:
  assumes "D decl = Some (Struct flds)" and "refs (Struct flds) = ds" and "encodes_all D ds bs"
  shows "encodes D decl bs"
  by (rule encodes_encodes_all.struct [where D = D, OF assms(1)]) (simp only: assms(2,3))

lemma variant_encodes:
  assumes "D decl = Some (Enum 1 vs)" and "(tag, name, v) \<in> set vs" and "unat tag < 256" and "encodes D v bs"
  shows "encodes D decl (word_of_nat (unat tag) # bs)"
  using encodes_encodes_all.enum [where D = D, OF assms(1,2,4)] assms(3) by simp

lemma own_primitives: "encodes own_table ''u8'' [b]" "encodes own_table ''u64'' (to_le_bytes (w :: u64))"
  "encodes own_table ''i64'' (to_le_bytes (w :: u64))"
  by (rule encodes_encodes_all.primitive [where D = own_table], simp, simp add: length_to_le_bytes)+

lemma own_string: "string_ok s \<Longrightarrow> encodes own_table ''String'' (string_enc s)"
  unfolding string_enc_def
  by (rule tagged_encodes [where D = own_table and el = "''u8''"]) (simp_all add: string_ok_def own_primitives)

lemma own_vec:
  assumes "own_table decl = Some (tagged_sequence el)" and "vec_ok ok vs" and "\<And>v. ok v \<Longrightarrow> encodes own_table el (enc v)"
  shows "encodes own_table decl (vec_enc enc vs)"
  by (rule tagged_encodes [where D = own_table, OF assms(1)]) (use assms(2,3) in \<open>auto simp: vec_ok_def\<close>)

lemma own_pair:
  assumes "own_table decl = Some (Tuple [a, b])" and "pair_ok ok_a ok_b x"
    and "\<And>v. ok_a v \<Longrightarrow> encodes own_table a (enc_a v)" and "\<And>v. ok_b v \<Longrightarrow> encodes own_table b (enc_b v)"
  shows "encodes own_table decl (pair_enc enc_a enc_b x)"
  unfolding pair_enc_def
  by (rule encodes_encodes_all.tuple [where D = own_table, OF assms(1)], rule all_two)
    (use assms(2-4) in \<open>auto simp: pair_ok_def\<close>)

lemma own_strings: "vec_ok string_ok es \<Longrightarrow> encodes own_table ''Vec<String>'' (vec_enc string_enc es)"
  by (rule own_vec [where el = "''String''" and ok = string_ok]) (simp_all add: own_string)

lemma own_names: "vec_ok (pair_ok string_ok string_ok) fs \<Longrightarrow>
    encodes own_table ''Vec<(String, String)>'' (vec_enc (pair_enc string_enc string_enc) fs)"
  by (rule own_vec [where el = "''(String, String)''"], simp, assumption,
      rule own_pair [where ok_a = string_ok and ok_b = string_ok], simp) (simp_all add: own_string)

lemma own_fields: "schema_fields_ok f \<Longrightarrow> encodes own_table ''Fields'' (schema_fields_enc f)"
proof (cases f)
  case (NamedFields fs)
  moreover assume "schema_fields_ok f"
  ultimately have "encodes own_table ''FieldsNamedFields'' (vec_enc (pair_enc string_enc string_enc) fs)"
    by (intro struct_encodes [where D = own_table, OF _ _ all_one [OF own_names]], simp) simp_all
  from variant_encodes [where D = own_table, OF _ _ _ this, of "''Fields''" _ 0 "''NamedFields''"] NamedFields show ?thesis by simp
next
  case (UnnamedFields es)
  moreover assume "schema_fields_ok f"
  ultimately have "encodes own_table ''FieldsUnnamedFields'' (vec_enc string_enc es)"
    by (intro struct_encodes [where D = own_table, OF _ _ all_one [OF own_strings]], simp) simp_all
  from variant_encodes [where D = own_table, OF _ _ _ this, of "''Fields''" _ 1 "''UnnamedFields''"] UnnamedFields show ?thesis by simp
next
  case Empty
  have "encodes own_table ''FieldsEmpty'' []" by (rule struct_encodes [where D = own_table, OF _ _ none], simp) simp
  from variant_encodes [where D = own_table, OF _ _ _ this, of "''Fields''" _ 2 "''Empty''"] Empty show ?thesis by simp
qed

lemma own_range: "encodes own_table ''RangeInclusive<u64>'' (pair_enc to_le_bytes to_le_bytes (r :: u64 \<times> u64))"
  unfolding pair_enc_def
  by (rule struct_encodes [where D = own_table, OF _ _ all_two [OF own_primitives(2) own_primitives(2)]], simp) simp

lemma own_variants:
  assumes "vec_ok (pair_ok (\<lambda>_. True) (pair_ok string_ok string_ok)) (vs :: (DiscriminantValue \<times> string \<times> string) list)"
  shows "encodes own_table ''Vec<(i64, String, String)>'' (vec_enc (pair_enc to_le_bytes (pair_enc string_enc string_enc)) vs)"
proof (rule own_vec [OF _ assms])
  show "own_table ''Vec<(i64, String, String)>'' = Some (tagged_sequence ''(i64, String, String)'')" by simp
  fix v :: "DiscriminantValue \<times> string \<times> string" assume "pair_ok (\<lambda>_. True) (pair_ok string_ok string_ok) v"
  then have "encodes_all own_table [''i64'', ''String'', ''String'']
      (to_le_bytes (fst v) @ string_enc (fst (snd v)) @ string_enc (snd (snd v)))"
    by (intro all_three own_primitives own_string) (auto simp: pair_ok_def)
  then show "encodes own_table ''(i64, String, String)'' (pair_enc to_le_bytes (pair_enc string_enc string_enc) v)"
    unfolding pair_enc_def by (rule encodes_encodes_all.tuple [where D = own_table, rotated]) simp
qed

lemma own_variant:
  fixes tag :: DiscriminantValue
  assumes "encodes_all own_table ds bs" and "own_table v = Some (Struct flds)" and "refs (Struct flds) = ds"
    and "(tag, name, v) \<in> set [(0, ''Primitive'', ''DefinitionPrimitive''), (1, ''Sequence'', ''DefinitionSequence''),
      (2, ''Tuple'', ''DefinitionTuple''), (3, ''Enum'', ''DefinitionEnum''), (4, ''Struct'', ''DefinitionStruct'')]"
  shows "encodes own_table ''Definition'' (word_of_nat (unat tag) # bs)"
proof (rule variant_encodes [where D = own_table, OF own_lookups(6) assms(4)])
  show "encodes own_table v bs" by (rule struct_encodes [where D = own_table, OF assms(2,3,1)])
  show "unat tag < 256" using assms(4) by auto
qed

lemma own_definition: "definition_ok d \<Longrightarrow> encodes own_table ''Definition'' (definition_enc d)"
proof (cases d)
  case (Primitive n)
  with own_variant [OF all_one [OF own_primitives(1) [of n]], of "''DefinitionPrimitive''" _ 0] show ?thesis by simp
next
  case (Sequence w r e)
  moreover assume "definition_ok d"
  ultimately have "encodes own_table ''String'' (string_enc e)" by (simp add: own_string)
  from own_variant [OF all_three [OF own_primitives(1) [of w] own_range [of "range_pair r"] this], of "''DefinitionSequence''" _ 1] Sequence
  show ?thesis by simp
next
  case (Tuple es)
  moreover assume "definition_ok d"
  ultimately have "encodes own_table ''Vec<String>'' (vec_enc string_enc es)" by (simp add: own_strings)
  from own_variant [OF all_one [OF this], of "''DefinitionTuple''" _ 2] Tuple show ?thesis by simp
next
  case (Enum w vs)
  moreover assume "definition_ok d"
  ultimately have "encodes own_table ''Vec<(i64, String, String)>'' (vec_enc (pair_enc to_le_bytes (pair_enc string_enc string_enc)) vs)"
    by (simp add: own_variants)
  from own_variant [OF all_two [OF own_primitives(1) [of w] this], of "''DefinitionEnum''" _ 3] Enum show ?thesis by simp
next
  case (Struct f)
  moreover assume "definition_ok d"
  ultimately have "encodes own_table ''Fields'' (schema_fields_enc f)" by (simp add: own_fields)
  from own_variant [OF all_one [OF this], of "''DefinitionStruct''" _ 4] Struct show ?thesis by simp
qed

lemma own_definitions: "btree_map_ok string_ok definition_ok m \<Longrightarrow>
    encodes own_table ''BTreeMap<String, Definition>'' (vec_enc (pair_enc string_enc definition_enc) m)"
  by (rule own_vec [where el = "''(String, Definition)''" and ok = "pair_ok string_ok definition_ok"], simp,
      simp add: btree_map_ok_def, rule own_pair [where ok_a = string_ok and ok_b = definition_ok], simp)
    (simp_all add: own_string own_definition)

lemma own_describes: "container_ok c \<Longrightarrow> encodes own_table ''BorshSchemaContainer'' (container_enc c)"
  unfolding container_enc_def container_ok_def
  by (rule struct_encodes [where D = own_table, OF _ _ all_two [OF own_string own_definitions]], simp) simp_all

lemma own_definitions_are: "container_definitions own_container = own_entries"
  by (simp add: own_container_def container_new_def)

lemma own_container_ok: "container_ok own_container"
proof -
  have "\<forall>x\<in>set own_entries. pair_ok string_ok definition_ok x"
    by (simp add: own_entries_def pair_ok_def vec_ok_def tagged_sequence_def DEFAULT_LENGTH_RANGE_def range_inclusive_def ascii_ok)
  moreover have "sorted_wrt (<) (List.map fst own_entries)" by code_simp
  moreover have "length own_entries < 2 ^ 32" by (simp add: own_entries_def)
  ultimately show ?thesis
    by (simp add: container_ok_def own_declaration own_definitions_are btree_map_ok_def vec_ok_def ascii_ok)
qed

lemma own_not_zero: "e \<in> {''u8'', ''String'', ''(String, String)'', ''(i64, String, String)'', ''(String, Definition)''} \<Longrightarrow>
    is_zero_size 64 e own_container = Some (Ok False)"
proof -
  obtain k where fuel: "size_fuel own_container = Suc (Suc (Suc (Suc k)))"
    by (rule that [of 20]) (simp add: size_fuel_def own_definitions_are own_entries_def)
  show "e \<in> {''u8'', ''String'', ''(String, String)'', ''(i64, String, String)'', ''(String, Definition)''} \<Longrightarrow>
      is_zero_size 64 e own_container = Some (Ok False)"
    unfolding is_zero_size_def fuel
    by (elim insertE emptyE) (simp_all add: push_def pop_return_def zero_of_definition_def and_then_def ret_def
        tagged_sequence_def DEFAULT_LENGTH_WIDTH_def)
qed

lemma own_tagged_valid: "is_zero_size 64 el own_container = Some (Ok False) \<Longrightarrow>
    locally_valid 64 own_container (tagged_sequence el)"
  by (simp add: tagged_sequence_def locally_valid_def DEFAULT_LENGTH_WIDTH_def DEFAULT_LENGTH_RANGE_def
      range_inclusive_def range_is_empty_def)

lemma own_entries_valid:
  "\<forall>(d, def)\<in>set own_entries. locally_valid 64 own_container def \<and> (\<forall>e\<in>set (refs def). own_table e \<noteq> None)"
  by (simp add: own_entries_def own_tagged_valid own_not_zero) (simp add: locally_valid_def U64_LEN_def)

lemma own_validates: "validate 64 own_container = Some (Ok ())"
  unfolding validate_iff
proof (intro allI impI)
  have entry: "locally_valid 64 own_container def \<and> (\<forall>e\<in>set (refs def). own_table e \<noteq> None)"
    if "own_table d = Some def" for d def
    using own_entries_valid map_of_SomeD [of own_entries d def] that
    by (fastforce simp: get_definition_def own_definitions_are)
  fix d assume "(refers own_container)\<^sup>*\<^sup>* (container_declaration own_container) d"
  then have "own_table d \<noteq> None"
  proof (induction rule: rtranclp_induct)
    case (step d e)
    then show ?case using entry by (auto simp: refers_def)
  qed (simp add: own_declaration)
  then show "validly_declared 64 own_container d" using entry by (auto simp: validly_declared_def)
qed

subsection \<open>The file\<close>

text \<open>
  C39. The schema of schemas. The container of \<open>BorshSchemaContainer\<close>, which the derived
  implementations for \<open>Definition\<close> and \<open>Fields\<close> and the written one for the container itself
  generate, describes what the codec of containers writes: the bytes of every container are
  an encoding by its definitions.
\<close>

theorem schema_of_schemas_describes:
  assumes "for_type own_schema = Some (Ok c)" and "container_ok x"
  shows "\<exists>bs. to_vec container_ser x = Some (Ok bs) \<and>
    encodes (get_definition c) (container_declaration c) bs \<and>
    (\<forall>strict. from_slice (container_de strict) bs = Some (Ok x))"
proof -
  have "to_vec container_ser x = Some (Ok (container_enc x))" by (rule to_vec_enc [OF container_serialize_impl assms(2)])
  moreover have "from_slice (container_de strict) (container_enc x) = Some (Ok x)" for strict
    by (rule deserialize_impl.from_slice_enc [OF container_deserialize_impl assms(2)])
  moreover have "c = own_container" using assms(1) own_for_type by simp
  ultimately show ?thesis using own_describes [OF assms(2)] by (auto simp: own_declaration)
qed

theorem schema_of_schemas_describes_witness:
  "\<exists>bs. to_vec container_ser small_container = Some (Ok bs) \<and>
    encodes (get_definition own_container) ''BorshSchemaContainer'' bs"
proof -
  have "container_ok small_container"
    by (simp add: container_ok_def small_container_def container_new_def btree_map_ok_def vec_ok_def pair_ok_def
        ascii_ok range_inclusive_def)
  from schema_of_schemas_describes [OF own_for_type this] show ?thesis by (auto simp: own_declaration)
qed

text \<open>
  The file that the program writes. \<open>main\<close> does not panic when the file can be created;
  what it writes is read back as the schema of schemas, which \<open>validate\<close> accepts, and that
  schema describes the bytes of the file.
\<close>

lemma schema_file_describes_itself:
  "\<exists>bs c. generate_schema_schema (\<lambda>_. Ok []) vec_writer = Some (Ok bs) \<and>
    (\<forall>strict. from_slice (container_de strict) bs = Some (Ok c)) \<and>
    for_type own_schema = Some (Ok c) \<and> validate 64 c = Some (Ok ()) \<and>
    encodes (get_definition c) (container_declaration c) bs"
proof -
  have data: "to_vec container_ser own_container = Some (Ok (container_enc own_container))"
    by (rule to_vec_enc [OF container_serialize_impl own_container_ok])
  then have "generate_schema_schema (\<lambda>_. Ok []) vec_writer = Some (Ok (container_enc own_container))"
    using emits_vec [OF emits_write_all, of "container_enc own_container" "[]"]
    by (simp add: generate_schema_schema_def schema_container_of_def own_for_type)
  moreover have "from_slice (container_de strict) (container_enc own_container) = Some (Ok own_container)" for strict
    by (rule deserialize_impl.from_slice_enc [OF container_deserialize_impl own_container_ok])
  ultimately show ?thesis using own_validates own_describes [OF own_container_ok] own_for_type by (auto simp: own_declaration)
qed

text \<open>A file that cannot be created or written is a panic of \<open>main\<close>.\<close>

lemma schema_file_refused: "generate_schema_schema (\<lambda>_. Err e) W = Some Panic"
  using to_vec_enc [OF container_serialize_impl own_container_ok]
  by (simp add: generate_schema_schema_def schema_container_of_def own_for_type)

end
