(* ===== verification/Rust_Types.thy ===== *)
theory Rust_Types
  imports Derive_Instances Borsh_Composite_Laws
begin

section \<open>Programs with derived types\<close>

text \<open>
  The derive macros, the implementations of the library, and the types of a program that uses
  both. Derived types may mention each other and themselves, in any nesting, so their
  implementations are recursive functions. They are built here level by level: the
  implementation of level \<open>n\<close> calls those of the levels below for the derived types of its
  fields and is refused (\<open>None\<close>) below level 0. A value is read and written at every level
  above its nesting depth. What the macros generate and what the library implements is
  that of the other theories; this one only connects them.
\<close>

subsection \<open>Implementations for another representation of the values\<close>

definition ser_as :: "('b \<Rightarrow> 'a) \<Rightarrow> ('w, 'a) BorshSerialize \<Rightarrow> ('w, 'b) BorshSerialize" where
  "ser_as un S = \<lparr>serialize = (\<lambda>W v. serialize S W (un v)), u8_slice = (\<lambda>vs. u8_slice S (List.map un vs)),
     ser_size_of = ser_size_of S\<rparr>"

definition de_as :: "('a \<Rightarrow> 'b) \<Rightarrow> ('r, 'a) BorshDeserialize \<Rightarrow> ('r, 'b) BorshDeserialize" where
  "de_as con D = \<lparr>deserialize_reader = (\<lambda>R. map_ok con (deserialize_reader D R)),
     vec_from_reader = (\<lambda>R n. map_ok (map_option (List.map con)) (vec_from_reader D R n)),
     array_from_reader = (\<lambda>R n. map_ok (map_option (List.map con)) (array_from_reader D R n)),
     de_size_of = de_size_of D\<rparr>"

lemma as_sizes [simp]: "ser_size_of (ser_as un S) = ser_size_of S" "de_size_of (de_as con D) = de_size_of D"
  by (simp_all add: ser_as_def de_as_def)

lemma ser_as_impl:
  assumes "serialize_impl S enc ok"
  shows "serialize_impl (ser_as un S) (\<lambda>v. enc (un v)) (\<lambda>v. is v \<and> ok (un v))"
proof
  show "emits (\<lambda>W. serialize (ser_as un S) W v) (enc (un v))" if "is v \<and> ok (un v)" for v
    using that serialize_impl.ser_emits [OF assms] by (simp add: ser_as_def)
  show "bs = concat (List.map (\<lambda>v. enc (un v)) vs)" if "u8_slice (ser_as un S) vs = Some bs" for vs bs
    using that serialize_impl.ser_slice [OF assms, of "List.map un vs" bs] by (simp add: ser_as_def comp_def)
qed

text \<open>\<open>is\<close> recognizes the values that \<open>con\<close> makes, and \<open>un\<close> takes them apart.\<close>

lemma de_as_deserialize_impl:
  assumes D: "deserialize_impl D enc ok" and con: "\<And>v. is v \<Longrightarrow> con (un v) = v"
  shows "deserialize_impl (de_as con D) (\<lambda>v. enc (un v)) (\<lambda>v. is v \<and> ok (un v))"
proof
  have list: "decodes (map_ok (map_option (List.map con)) m) (Some vs) (concat (List.map (\<lambda>v. enc (un v)) vs))"
    if m: "decodes m (Some (List.map un vs)) (concat (List.map enc (List.map un vs)))" and vs: "\<forall>v\<in>set vs. is v \<and> ok (un v)" for m :: "(bytes, 'a list option) io" and vs
  proof -
    have "List.map con (List.map un vs) = vs" using vs con by (simp add: map_idI)
    with decodes_map_ok [OF m, of "map_option (List.map con)"] show ?thesis by (simp add: comp_def)
  qed
  show "decodes (deserialize_reader (de_as con D) slice_reader) v (enc (un v))" if "is v \<and> ok (un v)" for v
    using decodes_map_ok [OF deserialize_impl.de_decodes [OF D], of "un v" con] that con by (simp add: de_as_def)
  show "(\<forall>s. vec_from_reader (de_as con D) slice_reader n s = Some (Ok None, s)) \<or>
      (\<forall>vs. length vs = unat n \<longrightarrow> (\<forall>v\<in>set vs. is v \<and> ok (un v)) \<longrightarrow>
        decodes (vec_from_reader (de_as con D) slice_reader n) (Some vs) (concat (List.map (\<lambda>v. enc (un v)) vs)))" for n
    using deserialize_impl.de_vec [OF D, of n]
  proof
    assume h: "\<forall>vs. length vs = unat n \<longrightarrow> (\<forall>v\<in>set vs. ok v) \<longrightarrow>
        decodes (vec_from_reader D slice_reader n) (Some vs) (concat (List.map enc vs))"
    have "decodes (vec_from_reader D slice_reader n) (Some (List.map un vs)) (concat (List.map enc (List.map un vs)))"
      if "length vs = unat n" "\<forall>v\<in>set vs. is v \<and> ok (un v)" for vs
      using h [rule_format, of "List.map un vs"] that by auto
    then show ?thesis using list by (simp add: de_as_def)
  qed (simp add: de_as_def map_ok_def and_then_eval ret_def)
  show "(\<forall>s. array_from_reader (de_as con D) slice_reader k s = Some (Ok None, s)) \<or>
      (\<forall>vs. length vs = k \<longrightarrow> (\<forall>v\<in>set vs. is v \<and> ok (un v)) \<longrightarrow>
        decodes (array_from_reader (de_as con D) slice_reader k) (Some vs) (concat (List.map (\<lambda>v. enc (un v)) vs)))" for k
    using deserialize_impl.de_array [OF D, of k]
  proof
    assume h: "\<forall>vs. length vs = k \<longrightarrow> (\<forall>v\<in>set vs. ok v) \<longrightarrow>
        decodes (array_from_reader D slice_reader k) (Some vs) (concat (List.map enc vs))"
    have "decodes (array_from_reader D slice_reader k) (Some (List.map un vs)) (concat (List.map enc (List.map un vs)))"
      if "length vs = k" "\<forall>v\<in>set vs. is v \<and> ok (un v)" for vs
      using h [rule_format, of "List.map un vs"] that by auto
    then show ?thesis using list by (simp add: de_as_def)
  qed (simp add: de_as_def map_ok_def and_then_eval ret_def)
qed

lemma de_as_canonical_impl:
  assumes D: "canonical_impl D enc ok" and con: "\<And>v. is v \<Longrightarrow> con (un v) = v"
    and un: "\<And>x. is (con x) \<and> un (con x) = x"
  shows "canonical_impl (de_as con D) (\<lambda>v. enc (un v)) (\<lambda>v. is v \<and> ok (un v))"
proof (intro canonical_impl.intro canonical_impl_axioms.intro)
  show "deserialize_impl (de_as con D) (\<lambda>v. enc (un v)) (\<lambda>v. is v \<and> ok (un v))"
    using canonical_impl.axioms(1) [OF D] con by (rule de_as_deserialize_impl)
  have undo: "un (con x) = x" "is (con x)" for x using un by simp_all
  have comp: "List.map ((\<lambda>v. enc (un v)) \<circ> con) vs = List.map enc vs" for vs by (simp add: undo)
  show "(is v \<and> ok (un v)) \<and> s = enc (un v) @ t"
    if "deserialize_reader (de_as con D) slice_reader s = Some (Ok v, t)" for s v t
    using that canonical_impl.canon [OF D] by (auto simp: de_as_def map_ok_Ok_iff undo)
  show "case r of None \<Rightarrow> t = s | Some vs \<Rightarrow> length vs = unat n \<and> (\<forall>v\<in>set vs. is v \<and> ok (un v)) \<and>
      s = concat (List.map (\<lambda>v. enc (un v)) vs) @ t"
    if "vec_from_reader (de_as con D) slice_reader n s = Some (Ok r, t)" for n s r t
  proof -
    from that obtain r' where "vec_from_reader D slice_reader n s = Some (Ok r', t)" "r = map_option (List.map con) r'"
      by (auto simp: de_as_def map_ok_Ok_iff)
    with canonical_impl.canon_vec [OF D this(1)] show ?thesis by (cases r') (auto simp: undo comp)
  qed
  show "case r of None \<Rightarrow> t = s | Some vs \<Rightarrow> length vs = k \<and> (\<forall>v\<in>set vs. is v \<and> ok (un v)) \<and>
      s = concat (List.map (\<lambda>v. enc (un v)) vs) @ t"
    if "array_from_reader (de_as con D) slice_reader k s = Some (Ok r, t)" for k s r t
  proof -
    from that obtain r' where "array_from_reader D slice_reader k s = Some (Ok r', t)" "r = map_option (List.map con) r'"
      by (auto simp: de_as_def map_ok_Ok_iff)
    with canonical_impl.canon_array [OF D this(1)] show ?thesis by (cases r') (auto simp: undo comp)
  qed
qed

subsection \<open>Types and values\<close>

text \<open>
  The types that the fields of derived types may have: some primitive types, the collections
  and the pointers of the library, and derived types by name. A name stands for one
  instance of an item, so an item with type parameters has a name for each of its instances.
\<close>

datatype rust_type =
    RBool | RU8 | RI32 | RU32 | RU64 | RString
  | ROption rust_type
  | RResult rust_type rust_type
  | RBox rust_type
  | RVec rust_type
  | RArray nat rust_type
  | RPair rust_type rust_type
  | RStringMap rust_type
  | RUser string

datatype rust_value =
    VBool bool | VU8 u8 | VI32 u32 | VU32 u32 | VU64 u64 | VString string
  | VOption "rust_value option"
  | VResult "rust_value + rust_value"
  | VList "rust_value list"
  | VPair "rust_value \<times> rust_value"
  | VMap "(string \<times> rust_value) list"
  | VStruct "rust_value list"
  | VEnum "ident \<times> rust_value list"

text \<open>Values of other types have no meaning at a type; the typing of Rust excludes them.\<close>

fun un_bool where "un_bool (VBool b) = b" | "un_bool _ = False"
fun un_u8 where "un_u8 (VU8 n) = n" | "un_u8 _ = 0"
fun un_i32 where "un_i32 (VI32 n) = n" | "un_i32 _ = 0"
fun un_u32 where "un_u32 (VU32 n) = n" | "un_u32 _ = 0"
fun un_u64 where "un_u64 (VU64 n) = n" | "un_u64 _ = 0"
fun un_string where "un_string (VString s) = s" | "un_string _ = []"
fun un_option where "un_option (VOption v) = v" | "un_option _ = None"
fun un_result where "un_result (VResult v) = v" | "un_result v = Inl v"
fun un_list where "un_list (VList vs) = vs" | "un_list _ = []"
fun un_pair where "un_pair (VPair v) = v" | "un_pair v = (v, v)"
fun un_map where "un_map (VMap m) = m" | "un_map _ = []"
fun un_struct where "un_struct (VStruct vs) = vs" | "un_struct _ = []"
fun un_enum where "un_enum (VEnum v) = v" | "un_enum _ = ([], [])"

subsection \<open>A program\<close>

datatype derived_item = DerivedStruct item_struct | DerivedEnum item_enum

text \<open>
  The items that derive the traits, by the name of their instance; the type that the syntax
  of a type denotes inside an item, the sizes of the types in memory and their defaults, which
  the compiler and the program provide; and what the macros take as parameters.
\<close>

record rust_program =
  pg_items :: "string \<Rightarrow> derived_item option"
  pg_resolve :: "string \<Rightarrow> ty \<Rightarrow> rust_type"
  pg_layout :: "rust_type \<Rightarrow> nat"
  pg_default :: "string \<Rightarrow> ty \<Rightarrow> rust_value"
  pg_init :: "string \<Rightarrow> rust_value \<Rightarrow> rust_value"
  pg_literals :: literal_parsers
  pg_parse_path :: "string \<Rightarrow> (derive_error, string) outcome"
  pg_tokens :: "ty \<Rightarrow> string"
  pg_cratename :: string

text \<open>The size of a type in memory, as \<open>size_of\<close> has it.\<close>

fun type_size :: "rust_program \<Rightarrow> rust_type \<Rightarrow> nat" where
  "type_size P RBool = 1"
| "type_size P RU8 = 1"
| "type_size P RI32 = 4"
| "type_size P RU32 = 4"
| "type_size P RU64 = 8"
| "type_size P (RArray N t) = N * type_size P t"
| "type_size P t = pg_layout P t"

text \<open>The implementations for a type, given those for the derived types.\<close>

fun type_ser :: "rust_program \<Rightarrow> (string \<Rightarrow> ('w, rust_value) BorshSerialize) \<Rightarrow> rust_type \<Rightarrow> ('w, rust_value) BorshSerialize" where
  "type_ser P U RBool = ser_as un_bool bool_ser"
| "type_ser P U RU8 = ser_as un_u8 u8_ser"
| "type_ser P U RI32 = ser_as un_i32 integer_ser"
| "type_ser P U RU32 = ser_as un_u32 integer_ser"
| "type_ser P U RU64 = ser_as un_u64 integer_ser"
| "type_ser P U RString = ser_as un_string (string_ser (pg_layout P RString))"
| "type_ser P U (ROption t) = ser_as un_option (option_ser (pg_layout P (ROption t)) (type_ser P U t))"
| "type_ser P U (RResult t e) =
     ser_as un_result (result_ser (pg_layout P (RResult t e)) (type_ser P U t) (type_ser P U e))"
| "type_ser P U (RBox t) = plain_ser (pg_layout P (RBox t)) (box_serialize (\<lambda>v. v) (type_ser P U t))"
| "type_ser P U (RVec t) = ser_as un_list (vec_ser (pg_layout P (RVec t)) (type_ser P U t))"
| "type_ser P U (RArray N t) = ser_as un_list (array_ser N (type_ser P U t))"
| "type_ser P U (RPair t t') =
     ser_as un_pair (tuple2_ser (pg_layout P (RPair t t')) (type_ser P U t) (type_ser P U t'))"
| "type_ser P U (RStringMap t) =
     ser_as un_map (btree_map_ser (pg_layout P (RStringMap t)) (string_ser (pg_layout P RString)) (type_ser P U t))"
| "type_ser P U (RUser name) = U name"

fun type_de :: "rust_program \<Rightarrow> bool \<Rightarrow> (string \<Rightarrow> ('r, rust_value) BorshDeserialize) \<Rightarrow> rust_type \<Rightarrow>
    ('r, rust_value) BorshDeserialize" where
  "type_de P strict U RBool = de_as VBool bool_de"
| "type_de P strict U RU8 = de_as VU8 u8_de"
| "type_de P strict U RI32 = de_as VI32 integer_de"
| "type_de P strict U RU32 = de_as VU32 integer_de"
| "type_de P strict U RU64 = de_as VU64 integer_de"
| "type_de P strict U RString = de_as VString (string_de (pg_layout P RString))"
| "type_de P strict U (ROption t) = de_as VOption (option_de (pg_layout P (ROption t)) (type_de P strict U t))"
| "type_de P strict U (RResult t e) =
     de_as VResult (result_de (pg_layout P (RResult t e)) (type_de P strict U t) (type_de P strict U e))"
| "type_de P strict U (RBox t) = plain_de (pg_layout P (RBox t)) (box_deserialize_reader (\<lambda>v. v) (type_de P strict U t))"
| "type_de P strict U (RVec t) = de_as VList (vec_de (pg_layout P (RVec t)) (type_de P strict U t))"
| "type_de P strict U (RArray N t) = de_as VList (array_de N (type_de P strict U t))"
| "type_de P strict U (RPair t t') =
     de_as VPair (tuple2_de (pg_layout P (RPair t t')) (type_de P strict U t) (type_de P strict U t'))"
| "type_de P strict U (RStringMap t) =
     de_as VMap (btree_map_de strict (pg_layout P (RStringMap t)) (pg_layout P (RPair RString t))
       (string_de (pg_layout P RString)) (type_de P strict U t))"
| "type_de P strict U (RUser name) = U name"

text \<open>The implementations that the code of an item finds for its fields.\<close>

definition field_ser ::
  "rust_program \<Rightarrow> (string \<Rightarrow> ('w, rust_value) BorshSerialize) \<Rightarrow> string \<Rightarrow> ('w, rust_value) ser_impls" where
  "field_ser P U name = \<lparr>ser_impl = (\<lambda>t. type_ser P U (pg_resolve P name t)), ser_with = (\<lambda>_ _ _. refused)\<rparr>"

definition field_de ::
  "rust_program \<Rightarrow> bool \<Rightarrow> (string \<Rightarrow> ('r, rust_value) BorshDeserialize) \<Rightarrow> string \<Rightarrow> ('r, rust_value) de_impls" where
  "field_de P strict U name = \<lparr>de_impl = (\<lambda>t. type_de P strict U (pg_resolve P name t)),
     de_with = (\<lambda>_ _. refused), default_of = pg_default P name\<rparr>"

text \<open>
  The implementation of a derived type, from those for the derived types of its fields: the
  code that the macro generates for the item. An item that the macro refuses, and a name
  without an item, has no implementation.
\<close>

definition item_ser ::
  "rust_program \<Rightarrow> (string \<Rightarrow> ('w, rust_value) BorshSerialize) \<Rightarrow> string \<Rightarrow> ('w, rust_value) BorshSerialize" where
  "item_ser P U name =
     (case pg_items P name of
         Some (DerivedStruct s) \<Rightarrow>
           (case ser_struct_process (pg_literals P) (pg_tokens P) (pg_cratename P) s of
               Ok code \<Rightarrow> ser_as un_struct (derived_struct_ser (pg_layout P (RUser name)) (field_ser P U name) (st_fields s) code)
             | _ \<Rightarrow> plain_ser (pg_layout P (RUser name)) (\<lambda>_ _. refused))
       | Some (DerivedEnum e) \<Rightarrow>
           (case ser_enum_process (pg_literals P) (pg_tokens P) (pg_cratename P) e of
               Ok code \<Rightarrow> ser_as un_enum (derived_enum_ser (pg_layout P (RUser name)) (field_ser P U name) (en_variants e) code)
             | _ \<Rightarrow> plain_ser (pg_layout P (RUser name)) (\<lambda>_ _. refused))
       | None \<Rightarrow> plain_ser (pg_layout P (RUser name)) (\<lambda>_ _. refused))"

definition item_de ::
  "rust_program \<Rightarrow> bool \<Rightarrow> (string \<Rightarrow> ('r, rust_value) BorshDeserialize) \<Rightarrow> string \<Rightarrow> ('r, rust_value) BorshDeserialize" where
  "item_de P strict U name =
     (case pg_items P name of
         Some (DerivedStruct s) \<Rightarrow>
           (case de_struct_process (pg_literals P) (pg_parse_path P) (pg_tokens P) (pg_cratename P) s of
               Ok code \<Rightarrow> de_as VStruct (derived_struct_de (pg_layout P (RUser name)) (field_de P strict U name)
                 (\<lambda>m vals. un_struct (pg_init P m (VStruct vals))) (st_fields s) code)
             | _ \<Rightarrow> plain_de (pg_layout P (RUser name)) (\<lambda>_. refused))
       | Some (DerivedEnum e) \<Rightarrow>
           (case de_enum_process (pg_literals P) (pg_parse_path P) (pg_tokens P) (pg_cratename P) e of
               Ok code \<Rightarrow> de_as VEnum (derived_enum_de (pg_layout P (RUser name)) (field_de P strict U name)
                 (\<lambda>m x. un_enum (pg_init P m (VEnum x))) (en_variants e) code)
             | _ \<Rightarrow> plain_de (pg_layout P (RUser name)) (\<lambda>_. refused))
       | None \<Rightarrow> plain_de (pg_layout P (RUser name)) (\<lambda>_. refused))"

text \<open>The levels.\<close>

primrec user_ser :: "rust_program \<Rightarrow> nat \<Rightarrow> string \<Rightarrow> ('w, rust_value) BorshSerialize" where
  "user_ser P 0 = (\<lambda>name. plain_ser (pg_layout P (RUser name)) (\<lambda>_ _. refused))"
| "user_ser P (Suc n) = item_ser P (user_ser P n)"

primrec user_de :: "rust_program \<Rightarrow> bool \<Rightarrow> nat \<Rightarrow> string \<Rightarrow> ('r, rust_value) BorshDeserialize" where
  "user_de P strict 0 = (\<lambda>name. plain_de (pg_layout P (RUser name)) (\<lambda>_. refused))"
| "user_de P strict (Suc n) = item_de P strict (user_de P strict n)"

subsection \<open>The encoding and the values of a type\<close>

fun type_enc :: "rust_program \<Rightarrow> (string \<Rightarrow> rust_value \<Rightarrow> bytes) \<Rightarrow> rust_type \<Rightarrow> rust_value \<Rightarrow> bytes" where
  "type_enc P E RBool v = bool_enc (un_bool v)"
| "type_enc P E RU8 v = [un_u8 v]"
| "type_enc P E RI32 v = to_le_bytes (un_i32 v)"
| "type_enc P E RU32 v = to_le_bytes (un_u32 v)"
| "type_enc P E RU64 v = to_le_bytes (un_u64 v)"
| "type_enc P E RString v = string_enc (un_string v)"
| "type_enc P E (ROption t) v = option_enc (type_enc P E t) (un_option v)"
| "type_enc P E (RResult t e) v = result_enc (type_enc P E t) (type_enc P E e) (un_result v)"
| "type_enc P E (RBox t) v = type_enc P E t v"
| "type_enc P E (RVec t) v = vec_enc (type_enc P E t) (un_list v)"
| "type_enc P E (RArray N t) v = array_enc (type_enc P E t) (un_list v)"
| "type_enc P E (RPair t t') v = pair_enc (type_enc P E t) (type_enc P E t') (un_pair v)"
| "type_enc P E (RStringMap t) v = vec_enc (pair_enc string_enc (type_enc P E t)) (un_map v)"
| "type_enc P E (RUser name) v = E name v"

fun type_ok :: "rust_program \<Rightarrow> (string \<Rightarrow> rust_value \<Rightarrow> bool) \<Rightarrow> rust_type \<Rightarrow> rust_value \<Rightarrow> bool" where
  "type_ok P K RBool v \<longleftrightarrow> (\<exists>b. v = VBool b)"
| "type_ok P K RU8 v \<longleftrightarrow> (\<exists>n. v = VU8 n)"
| "type_ok P K RI32 v \<longleftrightarrow> (\<exists>n. v = VI32 n)"
| "type_ok P K RU32 v \<longleftrightarrow> (\<exists>n. v = VU32 n)"
| "type_ok P K RU64 v \<longleftrightarrow> (\<exists>n. v = VU64 n)"
| "type_ok P K RString v \<longleftrightarrow> (\<exists>s. v = VString s \<and> string_ok s)"
| "type_ok P K (ROption t) v \<longleftrightarrow> (\<exists>x. v = VOption x \<and> option_ok (type_ok P K t) x)"
| "type_ok P K (RResult t e) v \<longleftrightarrow> (\<exists>x. v = VResult x \<and> result_ok (type_ok P K t) (type_ok P K e) x)"
| "type_ok P K (RBox t) v \<longleftrightarrow> type_ok P K t v"
| "type_ok P K (RVec t) v \<longleftrightarrow> (\<exists>vs. v = VList vs \<and> vec_ok (type_ok P K t) vs)"
| "type_ok P K (RArray N t) v \<longleftrightarrow> (\<exists>vs. v = VList vs \<and> array_ok N (type_ok P K t) vs)"
| "type_ok P K (RPair t t') v \<longleftrightarrow> (\<exists>x. v = VPair x \<and> pair_ok (type_ok P K t) (type_ok P K t') x)"
| "type_ok P K (RStringMap t) v \<longleftrightarrow> (\<exists>m. v = VMap m \<and> btree_map_ok string_ok (type_ok P K t) m)"
| "type_ok P K (RUser name) v \<longleftrightarrow> K name v"

definition uses_discriminant :: "item_enum \<Rightarrow> bool" where
  "uses_discriminant e \<longleftrightarrow> contains_use_discriminant e = Ok True"

definition item_enc :: "rust_program \<Rightarrow> (string \<Rightarrow> rust_value \<Rightarrow> bytes) \<Rightarrow> string \<Rightarrow> rust_value \<Rightarrow> bytes" where
  "item_enc P E name v =
     (let enc = (\<lambda>f. type_enc P E (pg_resolve P name (fld_ty f)))
      in case pg_items P name of
          Some (DerivedStruct s) \<Rightarrow> fields_enc (pg_literals P) enc (fields_list (st_fields s)) (un_struct v)
        | Some (DerivedEnum e) \<Rightarrow> enum_enc (pg_literals P) enc (en_variants e) (uses_discriminant e) (un_enum v)
        | None \<Rightarrow> [])"

text \<open>Fields of their types; a skipped field has its default.\<close>

definition members_ok :: "rust_program \<Rightarrow> (string \<Rightarrow> rust_value \<Rightarrow> bool) \<Rightarrow> string \<Rightarrow> syn_field list \<Rightarrow> rust_value list \<Rightarrow> bool" where
  "members_ok P K name fs vals \<longleftrightarrow> length vals = length fs \<and> (\<forall>(f, v)\<in>set (zip fs vals).
     if at_skip (attrs_of (pg_literals P) f) then v = pg_default P name (fld_ty f)
     else type_ok P K (pg_resolve P name (fld_ty f)) v)"

definition item_ok :: "rust_program \<Rightarrow> (string \<Rightarrow> rust_value \<Rightarrow> bool) \<Rightarrow> string \<Rightarrow> rust_value \<Rightarrow> bool" where
  "item_ok P K name v =
     (case pg_items P name of
         Some (DerivedStruct s) \<Rightarrow> (\<exists>vals. v = VStruct vals \<and> members_ok P K name (fields_list (st_fields s)) vals)
       | Some (DerivedEnum e) \<Rightarrow> (\<exists>x. v = VEnum x \<and> enum_ok (members_ok P K name) (en_variants e) x)
       | None \<Rightarrow> False)"

primrec user_enc :: "rust_program \<Rightarrow> nat \<Rightarrow> string \<Rightarrow> rust_value \<Rightarrow> bytes" where
  "user_enc P 0 = (\<lambda>_ _. [])"
| "user_enc P (Suc n) = item_enc P (user_enc P n)"

primrec user_ok :: "rust_program \<Rightarrow> nat \<Rightarrow> string \<Rightarrow> rust_value \<Rightarrow> bool" where
  "user_ok P 0 = (\<lambda>_ _. False)"
| "user_ok P (Suc n) = item_ok P (user_ok P n)"

subsection \<open>Programs that compile\<close>

text \<open>
  The elements of vectors and the keys of maps have a size, as the library demands at run
  time. The macros accept the items of a program; its fields have no functions in place of
  the traits, and its types no \<open>init\<close> method.
\<close>

fun sized :: "rust_program \<Rightarrow> rust_type \<Rightarrow> bool" where
  "sized P (ROption t) = sized P t"
| "sized P (RResult t e) \<longleftrightarrow> sized P t \<and> sized P e"
| "sized P (RBox t) = sized P t"
| "sized P (RVec t) \<longleftrightarrow> elem_size_ok (type_size P t) \<and> sized P t"
| "sized P (RArray N t) = sized P t"
| "sized P (RPair t t') \<longleftrightarrow> sized P t \<and> sized P t'"
| "sized P (RStringMap t) \<longleftrightarrow> map_sizes_ok (pg_layout P RString) (pg_layout P (RPair RString t)) \<and> sized P t"
| "sized P _ = True"

definition fields_accepted :: "rust_program \<Rightarrow> string \<Rightarrow> syn_fields \<Rightarrow> bool" where
  "fields_accepted P name flds \<longleftrightarrow> fields_wf flds \<and> (\<forall>f\<in>set (fields_list flds).
     at_serialize_with (attrs_of (pg_literals P) f) = None \<and> at_deserialize_with (attrs_of (pg_literals P) f) = None \<and>
     (at_skip (attrs_of (pg_literals P) f) \<or> sized P (pg_resolve P name (fld_ty f))))"

definition struct_accepted :: "rust_program \<Rightarrow> string \<Rightarrow> item_struct \<Rightarrow> bool" where
  "struct_accepted P name s \<longleftrightarrow> fields_accepted P name (st_fields s) \<and>
     (\<exists>code. ser_struct_process (pg_literals P) (pg_tokens P) (pg_cratename P) s = Ok code) \<and>
     (\<exists>code. de_struct_process (pg_literals P) (pg_parse_path P) (pg_tokens P) (pg_cratename P) s = Ok code \<and> ds_init code = None)"

definition enum_item_accepted :: "rust_program \<Rightarrow> string \<Rightarrow> item_enum \<Rightarrow> bool" where
  "enum_item_accepted P name e \<longleftrightarrow> (\<forall>v\<in>set (en_variants e). fields_accepted P name (var_fields v)) \<and>
     enum_accepted (pg_literals P) (en_variants e) \<and> contains_use_discriminant e = Ok (uses_discriminant e) \<and>
     (uses_discriminant e \<longrightarrow> discriminants_accepted (en_variants e)) \<and>
     (\<exists>code. ser_enum_process (pg_literals P) (pg_tokens P) (pg_cratename P) e = Ok code) \<and>
     (\<exists>code. de_enum_process (pg_literals P) (pg_parse_path P) (pg_tokens P) (pg_cratename P) e = Ok code \<and> de_init code = None)"

definition program_accepted :: "rust_program \<Rightarrow> bool" where
  "program_accepted P \<longleftrightarrow> (\<forall>name. case pg_items P name of
      Some (DerivedStruct s) \<Rightarrow> struct_accepted P name s
    | Some (DerivedEnum e) \<Rightarrow> enum_item_accepted P name e
    | None \<Rightarrow> True)"

end
