(* ===== verification/Rust_Type_Laws.thy ===== *)
theory Rust_Type_Laws
  imports Rust_Types
begin

section \<open>Laws of programs with derived types\<close>

text \<open>
  The implementations of every type of a program keep the contracts of the traits, at every
  level. The step from one level to the next is that of the derived implementations
  (\<open>Derive_Instances\<close>); it is an induction over the type for the types of the fields, and an
  induction over the levels for the derived types.
\<close>

subsection \<open>Representations\<close>

lemma ser_as_contract:
  assumes "serialize_impl S enc ok" and "\<And>v. enc' v = enc (un v)" and "\<And>v. ok' v \<Longrightarrow> ok (un v)"
  shows "serialize_impl (ser_as un S) enc' ok'"
proof -
  have "serialize_impl (ser_as un S) (\<lambda>v. enc (un v)) (\<lambda>v. ok' v \<and> ok (un v))" by (rule ser_as_impl [OF assms(1)])
  moreover have "(\<lambda>v. enc (un v)) = enc'" "(\<lambda>v. ok' v \<and> ok (un v)) = ok'" using assms(2,3) by (auto intro!: ext)
  ultimately show ?thesis by simp
qed

lemma de_as_contracts:
  assumes un: "\<And>x. un (con x) = x" and enc: "\<And>v. enc' v = enc (un v)" and ok: "\<And>v. ok' v \<longleftrightarrow> (\<exists>x. v = con x \<and> ok x)"
  shows "deserialize_impl D enc ok \<Longrightarrow> deserialize_impl (de_as con D) enc' ok'"
    and "canonical_impl D enc ok \<Longrightarrow> canonical_impl (de_as con D) enc' ok'"
proof -
  have con: "\<exists>x. v = con x \<Longrightarrow> con (un v) = v" and is_con: "(\<exists>y. con x = con y) \<and> un (con x) = x" for v x
    by (auto simp: un)
  have "(\<lambda>v. enc (un v)) = enc'" "(\<lambda>v. (\<exists>x. v = con x) \<and> ok (un v)) = ok'" using enc ok un by (auto intro!: ext)
  then show "deserialize_impl D enc ok \<Longrightarrow> deserialize_impl (de_as con D) enc' ok'"
    "canonical_impl D enc ok \<Longrightarrow> canonical_impl (de_as con D) enc' ok'"
    using de_as_deserialize_impl [of D enc ok "\<lambda>v. \<exists>x. v = con x" con un] con
      de_as_canonical_impl [of D enc ok "\<lambda>v. \<exists>x. v = con x" con un] is_con by simp_all
qed

lemmas de_as_deserialize = de_as_contracts(1) [rotated 3]
lemmas de_as_canonical = de_as_contracts(2) [rotated 3]

text \<open>For the constructors of the values.\<close>

lemmas value_deserialize =
  de_as_deserialize [where con = VBool and un = un_bool]
  de_as_deserialize [where con = VU8 and un = un_u8]
  de_as_deserialize [where con = VI32 and un = un_i32]
  de_as_deserialize [where con = VU32 and un = un_u32]
  de_as_deserialize [where con = VU64 and un = un_u64]
  de_as_deserialize [where con = VString and un = un_string]
  de_as_deserialize [where con = VOption and un = un_option]
  de_as_deserialize [where con = VResult and un = un_result]
  de_as_deserialize [where con = VList and un = un_list]
  de_as_deserialize [where con = VPair and un = un_pair]
  de_as_deserialize [where con = VMap and un = un_map]

lemmas value_canonical =
  de_as_canonical [where con = VBool and un = un_bool]
  de_as_canonical [where con = VU8 and un = un_u8]
  de_as_canonical [where con = VI32 and un = un_i32]
  de_as_canonical [where con = VU32 and un = un_u32]
  de_as_canonical [where con = VU64 and un = un_u64]
  de_as_canonical [where con = VString and un = un_string]
  de_as_canonical [where con = VOption and un = un_option]
  de_as_canonical [where con = VResult and un = un_result]
  de_as_canonical [where con = VList and un = un_list]
  de_as_canonical [where con = VPair and un = un_pair]
  de_as_canonical [where con = VMap and un = un_map]

lemma refused_contracts:
  "serialize_impl (plain_ser k (\<lambda>_ _. refused)) enc (\<lambda>_. False)"
  "deserialize_impl (plain_de k (\<lambda>_. refused)) enc (\<lambda>_. False)"
  "canonical_impl (plain_de k (\<lambda>_. refused)) enc (\<lambda>_. False)"
  by (rule plain_serialize_impl, simp) (rule plain_deserialize_impl, simp,
    rule plain_canonical_impl, simp_all add: refused_def)

subsection \<open>Sizes\<close>

lemma type_sizes:
  "(\<And>name. ser_size_of (U name) = pg_layout P (RUser name)) \<Longrightarrow> ser_size_of (type_ser P U t) = type_size P t"
  "(\<And>name. de_size_of (V name) = pg_layout P (RUser name)) \<Longrightarrow> de_size_of (type_de P strict V t) = type_size P t"
  by (induction t) (simp_all add: bool_ser_def bool_de_def u8_ser_def u8_de_def integer_ser_def integer_de_def string_ser_def
    string_de_def option_ser_def option_de_def result_ser_def result_de_def vec_ser_def vec_de_def array_ser_def array_de_def
    tuple2_ser_def tuple2_de_def btree_map_ser_def btree_map_de_def)

lemma item_sizes:
  "ser_size_of (item_ser P U name) = pg_layout P (RUser name)"
  "de_size_of (item_de P strict V name) = pg_layout P (RUser name)"
  by (auto simp: item_ser_def item_de_def derived_struct_ser_def derived_enum_ser_def derived_struct_de_def derived_enum_de_def
    split: option.split derived_item.split outcome.split)

lemma user_sizes:
  "ser_size_of (user_ser P n name) = pg_layout P (RUser name)"
  "de_size_of (user_de P strict n name) = pg_layout P (RUser name)"
  by (cases n; simp add: item_sizes)+

subsection \<open>The types of fields\<close>

text \<open>\<open>ser_laws P U E K\<close>: the derived types are serialized by \<open>U\<close> as \<open>E\<close> on the values \<open>K\<close>.\<close>

definition ser_laws where
  "ser_laws P U E K \<longleftrightarrow> (\<forall>name. serialize_impl (U name) (E name) (K name) \<and> ser_size_of (U name) = pg_layout P (RUser name))"

definition de_laws where
  "de_laws P V E K \<longleftrightarrow> (\<forall>name. deserialize_impl (V name) (E name) (K name) \<and> de_size_of (V name) = pg_layout P (RUser name))"

definition canonical_laws where
  "canonical_laws P V E K \<longleftrightarrow> (\<forall>name. canonical_impl (V name) (E name) (K name) \<and> de_size_of (V name) = pg_layout P (RUser name))"

lemma string_sizes [simp]: "ser_size_of (string_ser k) = k" "de_size_of (string_de k) = k"
  by (simp_all add: string_ser_def string_de_def)

lemma type_serialize_impl:
  assumes "ser_laws P U E K" and "sized P t"
  shows "serialize_impl (type_ser P U t) (type_enc P E t) (type_ok P K t)"
proof -
  have size: "ser_size_of (type_ser P U t) = type_size P t" for t
    by (rule type_sizes(1)) (use assms(1) in \<open>simp add: ser_laws_def\<close>)
  show ?thesis
    using assms(2)
  proof (induction t)
    case (RVec t)
    then have "0 < ser_size_of (type_ser P U t)" and "sized P t" by (auto simp: size dest: elem_size_ok_pos)
    with RVec.IH show ?case by (auto intro!: ser_as_contract vec_serialize_impl)
  next
    case (RStringMap t)
    then have "0 < ser_size_of (string_ser (pg_layout P RString) :: ('a, string) BorshSerialize)" and "sized P t"
      by (auto simp: map_sizes_ok_def)
    with RStringMap.IH show ?case by (auto intro!: ser_as_contract btree_map_serialize_impl string_serialize_impl)
  next
    case (RBox t)
    then have "serialize_impl (type_ser P U t) (type_enc P E t) (type_ok P K t)" by simp
    then show ?case
      using converted_serialize_impl [of "type_ser P U t" "type_enc P E t" "type_ok P K t" "box_serialize (\<lambda>v. v) (type_ser P U t)" "\<lambda>v. v"]
      by (simp add: box_serialize_def)
  next
    case (RUser name)
    then show ?case using assms(1) by (simp add: ser_laws_def)
  qed (auto intro!: ser_as_contract bool_S.serialize_impl_axioms u8_S.serialize_impl_axioms integer_serialize_impl
      string_serialize_impl option_serialize_impl result_serialize_impl array_serialize_impl tuple2_serialize_impl)
qed

lemma type_deserialize_impl:
  assumes "de_laws P V E K" and "sized P t"
  shows "deserialize_impl (type_de P strict V t) (type_enc P E t) (type_ok P K t)"
proof -
  have size: "de_size_of (type_de P strict V t) = type_size P t" for t
    by (rule type_sizes(2)) (use assms(1) in \<open>simp add: de_laws_def\<close>)
  show ?thesis
    using assms(2)
  proof (induction t)
    case (RVec t)
    then show ?case by (auto simp: size intro!: value_deserialize vec_deserialize_impl)
  next
    case (RStringMap t)
    then show ?case
      by (auto intro!: value_deserialize btree_map_deserialize_impl
          canonical_impl.axioms(1) [OF string_canonical_impl])
  next
    case (RBox t)
    then have "deserialize_impl (type_de P strict V t) (type_enc P E t) (type_ok P K t)" by simp
    then show ?case
      using converted_deserialize_impl [of "type_de P strict V t" "type_enc P E t" "type_ok P K t"
          "box_deserialize_reader (\<lambda>v. v) (type_de P strict V t)" "\<lambda>v. v" "\<lambda>v. v"]
      by (simp add: box_deserialize_reader_def)
  next
    case (RUser name)
    then show ?case using assms(1) by (simp add: de_laws_def)
  qed (auto intro!: value_deserialize canonical_impl.axioms(1) [OF bool_D.canonical_impl_axioms]
      canonical_impl.axioms(1) [OF u8_D.canonical_impl_axioms] canonical_impl.axioms(1) [OF u32_D.canonical_impl_axioms]
      canonical_impl.axioms(1) [OF u64_D.canonical_impl_axioms] canonical_impl.axioms(1) [OF string_canonical_impl]
      option_deserialize_impl result_deserialize_impl array_deserialize_impl tuple2_deserialize_impl)
qed

lemma type_canonical_impl:
  assumes "canonical_laws P V E K" and "sized P t"
  shows "canonical_impl (type_de P True V t) (type_enc P E t) (type_ok P K t)"
proof -
  have size: "de_size_of (type_de P True V t) = type_size P t" for t
    by (rule type_sizes(2)) (use assms(1) in \<open>simp add: canonical_laws_def\<close>)
  show ?thesis
    using assms(2)
  proof (induction t)
    case (RVec t)
    then show ?case by (auto simp: size intro!: value_canonical vec_canonical_impl)
  next
    case (RStringMap t)
    then show ?case
      by (auto intro!: value_canonical btree_map_canonical_impl string_canonical_impl)
  next
    case (RBox t)
    then have "canonical_impl (type_de P True V t) (type_enc P E t) (type_ok P K t)" by simp
    then show ?case
      using converted_canonical_impl [of "type_de P True V t" "type_enc P E t" "type_ok P K t"
          "box_deserialize_reader (\<lambda>v. v) (type_de P True V t)" "\<lambda>v. v" "\<lambda>v. v"]
      by (simp add: box_deserialize_reader_def)
  next
    case (RUser name)
    then show ?case using assms(1) by (simp add: canonical_laws_def)
  qed (auto intro!: value_canonical bool_D.canonical_impl_axioms u8_D.canonical_impl_axioms u32_D.canonical_impl_axioms
      u64_D.canonical_impl_axioms string_canonical_impl option_canonical_impl result_canonical_impl array_canonical_impl
      tuple2_canonical_impl)
qed

subsection \<open>Derived types\<close>

lemma members_are:
  "members_ok P K name fs vals \<longleftrightarrow>
   struct_ok (pg_literals P) (field_de P strict V name) (\<lambda>f. type_ok P K (pg_resolve P name (fld_ty f))) fs vals"
proof (cases "length vals = length fs")
  case True
  then have "length fs = length vals" by simp
  then show ?thesis
    by (induction fs vals rule: list_induct2)
      (auto simp: members_ok_def struct_ok_def fields_ok_def fields_reset_def field_de_def split: if_splits)
qed (simp add: members_ok_def struct_ok_def fields_ok_def)

lemma members_fields_ok:
  assumes "members_ok P K name fs vals"
  shows "fields_ok (pg_literals P) (\<lambda>f. type_ok P K (pg_resolve P name (fld_ty f))) fs vals"
  using assms by (auto simp: members_ok_def fields_ok_def split: if_splits)

lemma field_impls [simp]:
  "ser_impl (field_ser P U name) t = type_ser P U (pg_resolve P name t)"
  "de_impl (field_de P strict V name) t = type_de P strict V (pg_resolve P name t)"
  by (simp_all add: field_ser_def field_de_def)

lemma field_laws:
  assumes "fields_accepted P name flds" and "f \<in> set (fields_list flds)"
  defines "enc \<equiv> \<lambda>E f. type_enc P E (pg_resolve P name (fld_ty f))" and "ok \<equiv> \<lambda>K f. type_ok P K (pg_resolve P name (fld_ty f))"
  shows "ser_laws P U E K \<Longrightarrow> ser_contract (pg_literals P) (field_ser P U name) (enc E) (ok K) f"
    and "de_laws P V E K \<Longrightarrow> de_contract (pg_literals P) (field_de P strict V name) (enc E) (ok K) f"
    and "canonical_laws P V' E K \<Longrightarrow> de_canonical (pg_literals P) (field_de P True V' name) (enc E) (ok K) f"
proof -
  let ?L = "pg_literals P" and ?t = "pg_resolve P name (fld_ty f)"
  from assms(1,2) have attrs: "at_serialize_with (attrs_of ?L f) = None" "at_deserialize_with (attrs_of ?L f) = None"
    and sized: "\<not> at_skip (attrs_of ?L f) \<Longrightarrow> sized P ?t" by (auto simp: fields_accepted_def)
  note contracts = field_contracts [OF attrs]
  show "ser_contract ?L (field_ser P U name) (enc E) (ok K) f" if l: "ser_laws P U E K"
  proof (cases "at_skip (attrs_of ?L f)")
    case False
    show ?thesis by (rule contracts(1)) (simp add: enc_def ok_def type_serialize_impl [OF l sized [OF False]])
  qed (simp add: ser_contract_def)
  show "de_contract ?L (field_de P strict V name) (enc E) (ok K) f" if l: "de_laws P V E K"
  proof (cases "at_skip (attrs_of ?L f)")
    case False
    show ?thesis by (rule contracts(2)) (simp add: enc_def ok_def type_deserialize_impl [OF l sized [OF False]])
  qed (simp add: de_contract_def)
  show "de_canonical ?L (field_de P True V' name) (enc E) (ok K) f" if l: "canonical_laws P V' E K"
  proof (cases "at_skip (attrs_of ?L f)")
    case False
    show ?thesis by (rule contracts(3)) (simp add: enc_def ok_def type_canonical_impl [OF l sized [OF False]])
  qed (simp add: de_canonical_def)
qed

lemma struct_contracts:
  assumes "pg_items P name = Some (DerivedStruct s)" and "struct_accepted P name s"
  shows "ser_laws P U E K \<Longrightarrow> serialize_impl (item_ser P U name) (item_enc P E name) (item_ok P K name)"
    and "de_laws P V E K \<Longrightarrow> deserialize_impl (item_de P strict V name) (item_enc P E name) (item_ok P K name)"
    and "canonical_laws P V E K \<Longrightarrow> canonical_impl (item_de P True V name) (item_enc P E name) (item_ok P K name)"
proof -
  let ?L = "pg_literals P" and ?fs = "fields_list (st_fields s)" and ?n = "pg_layout P (RUser name)"
  let ?enc = "\<lambda>f. type_enc P E (pg_resolve P name (fld_ty f))" and ?ok = "\<lambda>f. type_ok P K (pg_resolve P name (fld_ty f))"
  let ?init = "\<lambda>m vals. un_struct (pg_init P m (VStruct vals))"
  from assms(2) have flds: "fields_accepted P name (st_fields s)" "fields_wf (st_fields s)"
    by (auto simp: struct_accepted_def fields_accepted_def)
  from assms(2) obtain sc where sc: "ser_struct_process ?L (pg_tokens P) (pg_cratename P) s = Ok sc" by (auto simp: struct_accepted_def)
  from assms(2) obtain dc where dc: "de_struct_process ?L (pg_parse_path P) (pg_tokens P) (pg_cratename P) s = Ok dc" "ds_init dc = None"
    by (auto simp: struct_accepted_def)
  note laws = field_laws [OF flds(1)]
  have enc: "item_enc P E name v = fields_enc ?L ?enc ?fs (un_struct v)" for v by (simp add: item_enc_def assms(1))
  have ok: "item_ok P K name v \<longleftrightarrow> (\<exists>vals. v = VStruct vals \<and> struct_ok ?L (field_de P strict V name) ?ok ?fs vals)" for v strict V
    by (simp add: item_ok_def assms(1) members_are [symmetric])
  show "serialize_impl (item_ser P U name) (item_enc P E name) (item_ok P K name)" if l: "ser_laws P U E K"
  proof -
    have "serialize_impl (derived_struct_ser ?n (field_ser P U name) (st_fields s) sc) (fields_enc ?L ?enc ?fs) (fields_ok ?L ?ok ?fs)"
      by (rule derived_struct_serialize_impl [OF sc flds(2)]) (use laws(1) [OF _ l] in blast)
    moreover have "item_ok P K name v \<Longrightarrow> fields_ok ?L ?ok ?fs (un_struct v)" for v
      by (auto simp: item_ok_def assms(1) intro: members_fields_ok)
    ultimately show ?thesis by (simp add: item_ser_def assms(1) sc ser_as_contract enc)
  qed
  show "deserialize_impl (item_de P strict V name) (item_enc P E name) (item_ok P K name)" if l: "de_laws P V E K"
  proof -
    have "deserialize_impl (derived_struct_de ?n (field_de P strict V name) ?init (st_fields s) dc) (fields_enc ?L ?enc ?fs)
        (struct_ok ?L (field_de P strict V name) ?ok ?fs)"
      by (rule derived_struct_deserialize_impl [OF dc]) (use laws(2) [OF _ l] in blast)
    from de_as_deserialize [where con = VStruct and un = un_struct, OF this _ enc ok] show ?thesis by (simp add: item_de_def assms(1) dc(1))
  qed
  show "canonical_impl (item_de P True V name) (item_enc P E name) (item_ok P K name)" if l: "canonical_laws P V E K"
  proof -
    have "de_laws P V E K" using l by (auto simp: canonical_laws_def de_laws_def intro: canonical_impl.axioms(1))
    then have "canonical_impl (derived_struct_de ?n (field_de P True V name) ?init (st_fields s) dc) (fields_enc ?L ?enc ?fs)
        (struct_ok ?L (field_de P True V name) ?ok ?fs)"
      by (intro derived_struct_canonical_impl [OF dc]) (use laws(2) [where V = V] laws(3) [OF _ l] in blast)
    from de_as_canonical [where con = VStruct and un = un_struct, OF this _ enc ok] show ?thesis by (simp add: item_de_def assms(1) dc(1))
  qed
qed

lemma enum_contracts:
  assumes "pg_items P name = Some (DerivedEnum e)" and "enum_item_accepted P name e"
  shows "ser_laws P U E K \<Longrightarrow> serialize_impl (item_ser P U name) (item_enc P E name) (item_ok P K name)"
    and "de_laws P V E K \<Longrightarrow> deserialize_impl (item_de P strict V name) (item_enc P E name) (item_ok P K name)"
    and "canonical_laws P V E K \<Longrightarrow> canonical_impl (item_de P True V name) (item_enc P E name) (item_ok P K name)"
proof -
  let ?L = "pg_literals P" and ?vs = "en_variants e" and ?u = "uses_discriminant e" and ?n = "pg_layout P (RUser name)"
  let ?enc = "\<lambda>f. type_enc P E (pg_resolve P name (fld_ty f))" and ?ok = "\<lambda>f. type_ok P K (pg_resolve P name (fld_ty f))"
  let ?init = "\<lambda>m x. un_enum (pg_init P m (VEnum x))"
  from assms(2) have flds: "\<forall>v\<in>set ?vs. fields_accepted P name (var_fields v)" and acc: "enum_accepted ?L ?vs"
    and u: "contains_use_discriminant e = Ok ?u" and disc: "?u \<longrightarrow> discriminants_accepted ?vs" by (auto simp: enum_item_accepted_def)
  from assms(2) obtain sc where sc: "ser_enum_process ?L (pg_tokens P) (pg_cratename P) e = Ok sc" by (auto simp: enum_item_accepted_def)
  from assms(2) obtain dc where dc: "de_enum_process ?L (pg_parse_path P) (pg_tokens P) (pg_cratename P) e = Ok dc" "de_init dc = None"
    by (auto simp: enum_item_accepted_def)
  have enc: "item_enc P E name v = enum_enc ?L ?enc ?vs ?u (un_enum v)" for v by (simp add: item_enc_def assms(1))
  have members: "members_ok P K name = struct_ok ?L (field_de P strict V name) ?ok" for strict V
    by (intro ext) (rule members_are)
  have ok: "item_ok P K name v \<longleftrightarrow> (\<exists>x. v = VEnum x \<and> enum_ok (struct_ok ?L (field_de P strict V name) ?ok) ?vs x)" for v strict V
    by (simp add: item_ok_def assms(1) members [symmetric])
  show "serialize_impl (item_ser P U name) (item_enc P E name) (item_ok P K name)" if l: "ser_laws P U E K"
  proof -
    have "field_contracts_of ?vs (ser_contract ?L (field_ser P U name) ?enc ?ok)"
      using flds field_laws(1) [OF _ _ l] by (auto simp: field_contracts_of_def)
    note impl = derived_enum_serialize_impl [OF sc acc u disc this, of ?n]
    have "item_ok P K name v \<Longrightarrow> enum_ok (fields_ok ?L ?ok) ?vs (un_enum v)" for v
      by (auto simp: item_ok_def assms(1) enum_ok_def intro: members_fields_ok split: option.splits)
    with impl show ?thesis by (simp add: item_ser_def assms(1) sc ser_as_contract enc)
  qed
  show "deserialize_impl (item_de P strict V name) (item_enc P E name) (item_ok P K name)" if l: "de_laws P V E K"
  proof -
    have "field_contracts_of ?vs (de_contract ?L (field_de P strict V name) ?enc ?ok)"
      using flds field_laws(2) [OF _ _ l] by (auto simp: field_contracts_of_def)
    from de_as_deserialize [where con = VEnum and un = un_enum,
        OF derived_enum_deserialize_impl [OF dc(1) acc u disc dc(2) this, of ?n ?init] _ enc ok] show ?thesis by (simp add: item_de_def assms(1) dc(1))
  qed
  show "canonical_impl (item_de P True V name) (item_enc P E name) (item_ok P K name)" if l: "canonical_laws P V E K"
  proof -
    have "de_laws P V E K" using l by (auto simp: canonical_laws_def de_laws_def intro: canonical_impl.axioms(1))
    then have "field_contracts_of ?vs (\<lambda>f. de_contract ?L (field_de P True V name) ?enc ?ok f \<and>
        de_canonical ?L (field_de P True V name) ?enc ?ok f)"
      using flds field_laws(2) [where V = V] field_laws(3) [OF _ _ l] by (auto simp: field_contracts_of_def)
    from de_as_canonical [where con = VEnum and un = un_enum,
        OF derived_enum_canonical_impl [OF dc(1) acc u disc dc(2) this, of ?n ?init] _ enc ok] show ?thesis by (simp add: item_de_def assms(1) dc(1))
  qed
qed

subsection \<open>Every level\<close>

text \<open>A name without an item has no values.\<close>

lemma no_item_contracts:
  assumes "pg_items P name = None"
  shows "serialize_impl (item_ser P U name) (item_enc P E name) (item_ok P K name)"
    and "deserialize_impl (item_de P strict V name) (item_enc P E name) (item_ok P K name)"
    and "canonical_impl (item_de P True V name) (item_enc P E name) (item_ok P K name)"
proof -
  have "item_ok P K name = (\<lambda>_. False)" by (rule ext) (simp add: item_ok_def assms)
  then show "serialize_impl (item_ser P U name) (item_enc P E name) (item_ok P K name)"
    "deserialize_impl (item_de P strict V name) (item_enc P E name) (item_ok P K name)"
    "canonical_impl (item_de P True V name) (item_enc P E name) (item_ok P K name)"
    by (simp_all add: item_ser_def item_de_def assms refused_contracts)
qed

lemma accepted_cases:
  assumes "program_accepted P"
  obtains "pg_items P name = None"
    | s where "pg_items P name = Some (DerivedStruct s)" and "struct_accepted P name s"
    | e where "pg_items P name = Some (DerivedEnum e)" and "enum_item_accepted P name e"
  using assms unfolding program_accepted_def by (cases "pg_items P name") (auto split: derived_item.splits dest: spec [of _ name])

lemma program_item_contracts:
  assumes "program_accepted P"
  shows "ser_laws P U E K \<Longrightarrow> serialize_impl (item_ser P U name) (item_enc P E name) (item_ok P K name)"
    and "de_laws P V E K \<Longrightarrow> deserialize_impl (item_de P strict V name) (item_enc P E name) (item_ok P K name)"
    and "canonical_laws P V E K \<Longrightarrow> canonical_impl (item_de P True V name) (item_enc P E name) (item_ok P K name)"
  by (rule accepted_cases [OF assms, of name]; rule no_item_contracts struct_contracts enum_contracts; assumption)+

lemma user_laws:
  assumes "program_accepted P"
  shows "ser_laws P (user_ser P n) (user_enc P n) (user_ok P n)"
    and "de_laws P (user_de P strict n) (user_enc P n) (user_ok P n)"
    and "canonical_laws P (user_de P True n) (user_enc P n) (user_ok P n)"
proof -
  note laws_def = ser_laws_def de_laws_def canonical_laws_def
  note contracts = program_item_contracts [OF assms]
  show "ser_laws P (user_ser P n) (user_enc P n) (user_ok P n)"
  proof (induction n)
    case (Suc n)
    from contracts(1) [OF this] show ?case by (simp add: laws_def item_sizes)
  qed (simp add: laws_def refused_contracts)
  show "de_laws P (user_de P strict n) (user_enc P n) (user_ok P n)"
  proof (induction n)
    case (Suc n)
    from contracts(2) [OF this] show ?case by (simp add: laws_def item_sizes)
  qed (simp add: laws_def refused_contracts)
  show "canonical_laws P (user_de P True n) (user_enc P n) (user_ok P n)"
  proof (induction n)
    case (Suc n)
    from contracts(3) [OF this] show ?case by (simp add: laws_def item_sizes)
  qed (simp add: laws_def refused_contracts)
qed

subsection \<open>Higher levels\<close>

text \<open>A value of a level is one of every higher level, and its encoding does not change.\<close>

lemma type_level:
  assumes "\<And>name v. K name v \<Longrightarrow> K' name v \<and> E name v = E' name v"
  shows "type_ok P K t v \<Longrightarrow> type_ok P K' t v \<and> type_enc P E t v = type_enc P E' t v"
proof (induction t arbitrary: v)
  case (ROption t)
  then obtain x where x: "v = VOption x" "option_ok (type_ok P K t) x" by auto
  with ROption.IH show ?case by (cases x) auto
next
  case (RResult t e)
  then obtain x where x: "v = VResult x" "result_ok (type_ok P K t) (type_ok P K e) x" by auto
  with RResult.IH show ?case by (cases x) auto
next
  case (RVec t)
  then obtain vs where v: "v = VList vs" and "length vs < 2 ^ 32" and vs: "\<forall>x\<in>set vs. type_ok P K t x" by (auto simp: vec_ok_def)
  with RVec.IH have "\<forall>x\<in>set vs. type_ok P K' t x \<and> type_enc P E t x = type_enc P E' t x" by blast
  with v RVec.prems show ?case by (auto simp: vec_ok_def vec_enc_def intro!: arg_cong [where f = concat])
next
  case (RArray N t)
  then obtain vs where v: "v = VList vs" and vs: "\<forall>x\<in>set vs. type_ok P K t x" by (auto simp: array_ok_def)
  with RArray.IH have "\<forall>x\<in>set vs. type_ok P K' t x \<and> type_enc P E t x = type_enc P E' t x" by blast
  with v RArray.prems show ?case by (auto simp: array_ok_def array_enc_def intro!: arg_cong [where f = concat])
next
  case (RPair t t')
  then show ?case by (auto simp: pair_ok_def pair_enc_def)
next
  case (RStringMap t)
  then obtain m where v: "v = VMap m" and m: "\<forall>x\<in>set m. string_ok (fst x) \<and> type_ok P K t (snd x)"
    by (auto simp: btree_map_ok_def vec_ok_def pair_ok_def)
  with RStringMap.IH have "\<forall>x\<in>set m. type_ok P K' t (snd x) \<and> type_enc P E t (snd x) = type_enc P E' t (snd x)" by blast
  with v RStringMap.prems m show ?case
    by (auto simp: btree_map_ok_def vec_ok_def pair_ok_def pair_enc_def vec_enc_def intro!: arg_cong [where f = concat])
next
  case (RUser name)
  with assms show ?case by simp
qed simp_all

lemma fields_level:
  assumes "\<And>name v. K name v \<Longrightarrow> K' name v \<and> E name v = E' name v" and "members_ok P K name fs vals"
  shows "members_ok P K' name fs vals \<and>
    fields_enc (pg_literals P) (\<lambda>f. type_enc P E (pg_resolve P name (fld_ty f))) fs vals =
    fields_enc (pg_literals P) (\<lambda>f. type_enc P E' (pg_resolve P name (fld_ty f))) fs vals"
proof -
  have level: "type_ok P K' t v" "type_enc P E t v = type_enc P E' t v" if "type_ok P K t v" for t v
    using type_level [of K K' E E', OF assms(1) that] by blast+
  have "length fs = length vals" using assms(2) by (simp add: members_ok_def)
  then show ?thesis
    using assms(2)
    by (induction fs vals rule: list_induct2) (auto simp: members_ok_def fields_enc_def level)
qed

lemma item_level:
  assumes "\<And>name v. K name v \<Longrightarrow> K' name v \<and> E name v = E' name v" and "item_ok P K name v"
  shows "item_ok P K' name v \<and> item_enc P E name v = item_enc P E' name v"
proof (cases "pg_items P name")
  case None
  with assms(2) show ?thesis by (simp add: item_ok_def)
next
  case (Some i)
  show ?thesis
  proof (cases i)
    case (DerivedStruct s)
    with Some assms(2) fields_level [OF assms(1)] show ?thesis by (auto simp: item_ok_def item_enc_def Let_def)
  next
    case (DerivedEnum e)
    with Some assms(2) obtain x where v: "v = VEnum x" and x: "enum_ok (members_ok P K name) (en_variants e) x"
      by (auto simp: item_ok_def)
    then obtain i va where named: "variant_named (en_variants e) (fst x) = Some (i, va)"
      and m: "members_ok P K name (fields_list (var_fields va)) (snd x)"
      by (auto simp: enum_ok_def split: option.splits prod.splits)
    from fields_level [OF assms(1) m] show ?thesis
      using Some DerivedEnum v named by (auto simp: item_ok_def item_enc_def enum_ok_def enum_enc_def Let_def split: prod.splits)
  qed
qed

lemma user_level: "user_ok P n name v \<Longrightarrow> user_ok P (n + k) name v \<and> user_enc P n name v = user_enc P (n + k) name v"
proof (induction n arbitrary: name v)
  case (Suc n)
  from item_level [of "user_ok P n" "user_ok P (n + k)" "user_enc P n" "user_enc P (n + k)", OF Suc.IH] Suc.prems
  show ?case by simp
qed simp

subsection \<open>The bytes of a value\<close>

lemma type_level_user:
  assumes "type_ok P (user_ok P n) t v" and "n \<le> m"
  shows "type_ok P (user_ok P m) t v" and "type_enc P (user_enc P n) t v = type_enc P (user_enc P m) t v"
proof -
  obtain k where m: "m = n + k" using assms(2) le_Suc_ex by blast
  from type_level [of "user_ok P n" "user_ok P (n + k)" "user_enc P n" "user_enc P (n + k)", OF user_level assms(1)] show "type_ok P (user_ok P m) t v"
    and "type_enc P (user_enc P n) t v = type_enc P (user_enc P m) t v" by (simp_all add: m)
qed

lemma program_round_trip:
  assumes "program_accepted P" and "sized P t" and "type_ok P (user_ok P n) t v" and "n \<le> m"
  shows "to_vec (type_ser P (user_ser P m) t) v = Some (Ok (type_enc P (user_enc P n) t v))"
    and "from_slice (type_de P strict (user_de P strict m) t) (type_enc P (user_enc P n) t v) = Some (Ok v)"
proof -
  note level = type_level_user [OF assms(3,4)]
  show "to_vec (type_ser P (user_ser P m) t) v = Some (Ok (type_enc P (user_enc P n) t v))"
    unfolding level(2) by (rule to_vec_enc [OF type_serialize_impl [OF user_laws(1) [OF assms(1)] assms(2)] level(1)])
  show "from_slice (type_de P strict (user_de P strict m) t) (type_enc P (user_enc P n) t v) = Some (Ok v)"
    unfolding level(2)
    by (rule deserialize_impl.from_slice_enc [OF type_deserialize_impl [OF user_laws(2) [OF assms(1)] assms(2)] level(1)])
qed

lemma program_canonical:
  assumes "program_accepted P" and "sized P t"
  shows "from_slice (type_de P True (user_de P True n) t) bs = Some (Ok v) \<longleftrightarrow>
    type_ok P (user_ok P n) t v \<and> bs = type_enc P (user_enc P n) t v"
  by (rule canonical_impl.from_slice_Ok_iff [OF type_canonical_impl [OF user_laws(3) [OF assms(1)] assms(2)]])

end
