(* ===== verification/Rust_Termination.thy ===== *)
theory Rust_Termination
  imports Rust_Type_Laws Derive_Totality
begin

section \<open>Recursive decoders return\<close>

text \<open>
  A derived decoder of a recursive type calls itself. Each variant of an enum, each option
  and each collection reads a byte before the values inside it, so if no derived type
  contains itself without one of these in between, every call chain ends: a slice of
  \<open>k\<close> bytes is decoded within \<open>(k + 1) * R\<close> levels when \<open>R\<close> bounds the chains of derived types
  that contain each other directly. From that level on, the levels agree.
\<close>

subsection \<open>Decoders that agree on short slices\<close>

definition settled :: "nat \<Rightarrow> (bytes, 'a) io \<Rightarrow> (bytes, 'a) io \<Rightarrow> bool" where
  "settled k m m' \<longleftrightarrow> (\<forall>s. length s \<le> k \<longrightarrow> m s = m' s \<and> safe_at m s)"

named_theorems settled_intros \<open>composition of decoders that agree on short slices\<close>

lemma settledD: "settled k m m' \<Longrightarrow> length s \<le> k \<Longrightarrow> m s = m' s \<and> safe_at m s"
  by (simp add: settled_def)

lemma settled_less: "settled k m m' \<Longrightarrow> j \<le> k \<Longrightarrow> settled j m m'"
  by (simp add: settled_def)

lemma settled_same: "safe m \<Longrightarrow> settled k m m"
  by (simp add: settled_def safe_def)

lemma settled_ret [settled_intros]: "settled k (ret v) (ret v)"
  by (rule settled_same) (rule safe_ret)

lemma settled_fail [settled_intros]: "settled k (fail e) (fail e)"
  by (rule settled_same) (rule safe_fail)

lemma settled_if [settled_intros]:
  "(b \<Longrightarrow> settled k m m') \<Longrightarrow> (\<not> b \<Longrightarrow> settled k n n') \<Longrightarrow> settled k (if b then m else n) (if b then m' else n')"
  by simp

text \<open>What follows runs on what is left of the slice; \<open>d\<close> bytes have been read at least.\<close>

lemma settled_sequence:
  assumes m: "settled k m m'" and d: "\<And>s v t. m s = Some (Ok v, t) \<Longrightarrow> length t + d \<le> length s"
    and f: "\<And>v. d \<le> k \<Longrightarrow> settled (k - d) (f v) (f' v)"
  shows "settled k (and_then m f) (and_then m' f')"
  unfolding settled_def
proof (intro allI impI)
  fix s :: bytes assume s: "length s \<le> k"
  from settledD [OF m s] have eq: "m s = m' s" and safe: "safe_at m s" by blast+
  have tail: "f v t = f' v t \<and> safe_at (f v) t" if "m s = Some (Ok v, t)" for v t
    using settledD [OF f] d [OF that] s by simp
  have "safe_at (and_then m f) s" by (rule safe_at_and_then [OF safe]) (use tail in blast)
  moreover have "and_then m f s = and_then m' f' s"
    using eq tail by (auto simp: and_then_def split: option.split prod.split outcome.split)
  ultimately show "and_then m f s = and_then m' f' s \<and> safe_at (and_then m f) s" by blast
qed

lemma settled_shrinks:
  assumes "settled k m m'" and "length s \<le> k" and "m s = Some (Ok v, t)"
  shows "length t \<le> length s"
  using settledD [OF assms(1,2)] assms(3) by (auto simp: safe_at_def)

lemma settled_and_then [settled_intros]:
  assumes m: "settled k m m'" and f: "\<And>v. settled k (f v) (f' v)"
  shows "settled k (and_then m f) (and_then m' f')"
  unfolding settled_def
proof (intro allI impI)
  fix s :: bytes assume s: "length s \<le> k"
  from settledD [OF m s] have eq: "m s = m' s" and safe: "safe_at m s" by blast+
  have tail: "f v t = f' v t \<and> safe_at (f v) t" if "m s = Some (Ok v, t)" for v t
    using settledD [OF f] settled_shrinks [OF m s that] s by simp
  have "safe_at (and_then m f) s" by (rule safe_at_and_then [OF safe]) (use tail in blast)
  moreover have "and_then m f s = and_then m' f' s"
    using eq tail by (auto simp: and_then_def split: option.split prod.split outcome.split)
  ultimately show "and_then m f s = and_then m' f' s \<and> safe_at (and_then m f) s" by blast
qed

lemma settled_map_ok [settled_intros]: "settled k m m' \<Longrightarrow> settled k (map_ok g m) (map_ok g m')"
  unfolding map_ok_def by (intro settled_intros)

lemma settled_push_times [settled_intros]: "settled k m m' \<Longrightarrow> settled k (push_times n m acc) (push_times n m' acc)"
  by (induction n arbitrary: acc) (auto intro: settled_intros)

text \<open>A tag or a length is read first, so what follows has a shorter slice.\<close>

lemma settled_after:
  assumes "safe m" and "\<And>s v t. m s = Some (Ok v, t) \<Longrightarrow> length t < length s" and "\<And>v j. j < k \<Longrightarrow> settled j (f v) (f' v)"
  shows "settled k (and_then m f) (and_then m f')"
proof (rule settled_sequence [where d = 1])
  show "settled k m m" by (rule settled_same [OF assms(1)])
  show "length t + 1 \<le> length s" if "m s = Some (Ok v, t)" for s v t using assms(2) [OF that] by simp
  show "settled (k - 1) (f v) (f' v)" if "1 \<le> k" for v using assms(3) [of "k - 1"] that by simp
qed

lemma u8_shrinks: "u8_deserialize_reader slice_reader s = Some (Ok v, t) \<Longrightarrow> length t < length s"
  by (auto simp: u8_read_iff)

lemma u32_shrinks: "integer_deserialize_reader slice_reader s = Some (Ok (v :: u32), t) \<Longrightarrow> length t < length s"
  using arg_cong [of s "to_le_bytes v @ t" length] by (simp add: u32_read_iff length_to_le_bytes)

lemmas settled_after_u8 = settled_after [OF safe_u8 u8_shrinks]
lemmas settled_after_u32 = settled_after [OF safe_integer u32_shrinks]

subsection \<open>Implementations\<close>

definition settled_impl :: "nat \<Rightarrow> (bytes, 'a) BorshDeserialize \<Rightarrow> (bytes, 'a) BorshDeserialize \<Rightarrow> bool" where
  "settled_impl k D D' \<longleftrightarrow> settled k (deserialize_reader D slice_reader) (deserialize_reader D' slice_reader) \<and>
     (\<forall>n. settled k (vec_from_reader D slice_reader n) (vec_from_reader D' slice_reader n)) \<and>
     (\<forall>n. settled k (array_from_reader D slice_reader n) (array_from_reader D' slice_reader n)) \<and>
     de_size_of D = de_size_of D'"

lemma settled_impl_less: "settled_impl k D D' \<Longrightarrow> j \<le> k \<Longrightarrow> settled_impl j D D'"
  by (auto simp: settled_impl_def intro: settled_less)

lemma settled_plain: "settled k (f slice_reader) (f' slice_reader) \<Longrightarrow> settled_impl k (plain_de n f) (plain_de n f')"
  by (simp add: settled_impl_def default_vec_from_reader_def default_array_from_reader_def settled_ret)

lemma settled_total: "total_impl D \<Longrightarrow> settled_impl k D D"
  by (simp add: settled_impl_def settled_same total_impl.safe_de total_impl.safe_vec total_impl.safe_array)

lemma settled_as: "settled_impl k D D' \<Longrightarrow> settled_impl k (de_as con D) (de_as con D')"
  by (simp add: settled_impl_def de_as_def settled_map_ok)

lemma total_as: "total_impl D \<Longrightarrow> total_impl (de_as con D)"
  by unfold_locales
    (simp_all add: de_as_def safe_map_ok total_impl.safe_de total_impl.safe_vec total_impl.safe_array)

lemma settled_de: "settled_impl k D D' \<Longrightarrow> settled k (deserialize_reader D slice_reader) (deserialize_reader D' slice_reader)"
  by (simp add: settled_impl_def)

lemma settled_option: "(\<And>j. j < k \<Longrightarrow> settled_impl j D D') \<Longrightarrow> settled_impl k (option_de n D) (option_de n D')"
  unfolding option_de_def option_deserialize_reader_def
  by (intro settled_plain settled_after_u8 settled_intros settled_de)

lemma settled_result:
  "(\<And>j. j < k \<Longrightarrow> settled_impl j D D') \<Longrightarrow> (\<And>j. j < k \<Longrightarrow> settled_impl j E E') \<Longrightarrow>
   settled_impl k (result_de n D E) (result_de n D' E')"
  unfolding result_de_def result_deserialize_reader_def
  by (intro settled_plain settled_after_u8 settled_intros settled_de)

lemma settled_vec_reader:
  assumes "\<And>j. j < k \<Longrightarrow> settled_impl j D D'" and "elem_size_ok (de_size_of D)" and "de_size_of D = de_size_of D'"
  shows "settled k (vec_deserialize_reader D slice_reader) (vec_deserialize_reader D' slice_reader)"
proof -
  have "settled j (vec_from_reader D slice_reader n) (vec_from_reader D' slice_reader n)" if "j < k" for j n
    using assms(1) [OF that] by (simp add: settled_impl_def)
  then show ?thesis
    using assms
    unfolding vec_deserialize_reader_def assms(3)
    by (intro settled_and_then settled_after_u32 settled_intros settled_de)
      (auto split: option.split intro!: settled_same safe_intros settled_intros settled_de)
qed

lemma settled_tuple2:
  "settled_impl k A A' \<Longrightarrow> settled_impl k B B' \<Longrightarrow> settled_impl k (tuple2_de n A B) (tuple2_de n A' B')"
  unfolding tuple2_de_def tuple2_deserialize_reader_def
  by (intro settled_plain settled_intros settled_de)

lemma settled_array: "settled_impl k D D' \<Longrightarrow> settled_impl k (array_de N D) (array_de N D')"
proof -
  assume D: "settled_impl k D D'"
  then have "settled k (array_from_reader D slice_reader N) (array_from_reader D' slice_reader N)" and "de_size_of D = de_size_of D'"
    by (simp_all add: settled_impl_def)
  with D show ?thesis
    unfolding array_de_def by (auto simp: array_reader_eq split: option.split intro!: settled_plain settled_intros settled_de)
qed

lemma settled_box: "settled_impl k D D' \<Longrightarrow> settled_impl k (plain_de n (box_deserialize_reader into D)) (plain_de n (box_deserialize_reader into D'))"
  unfolding box_deserialize_reader_def by (intro settled_plain settled_intros settled_de)

lemma settled_btree_map:
  assumes K: "settled_impl k K K'" and V: "\<And>j. j < k \<Longrightarrow> settled_impl j V V'" and "elem_size_ok ps"
  shows "settled_impl k (btree_map_de strict n ps K V) (btree_map_de strict n ps K' V')"
proof -
  have size: "de_size_of K = de_size_of K'" using K by (simp add: settled_impl_def)
  have "settled k (vec_deserialize_reader (tuple2_de ps K V) slice_reader) (vec_deserialize_reader (tuple2_de ps K' V') slice_reader)"
  proof (rule settled_vec_reader)
    show "settled_impl j (tuple2_de ps K V) (tuple2_de ps K' V')" if "j < k" for j
      using that K V by (intro settled_tuple2 settled_impl_less [OF K]) auto
  qed (simp_all add: tuple2_de_def assms(3))
  then show ?thesis
    unfolding btree_map_de_def btree_map_deserialize_reader_def size
    by (intro settled_plain settled_and_then settled_same safe_check_zst safe_check_ascending safe_ret)
qed

subsection \<open>Types\<close>

text \<open>The derived types that a type mentions, and those that a value contains without a byte in front.\<close>

fun mentions :: "rust_type \<Rightarrow> string set" where
  "mentions (ROption t) = mentions t"
| "mentions (RResult t e) = mentions t \<union> mentions e"
| "mentions (RBox t) = mentions t"
| "mentions (RVec t) = mentions t"
| "mentions (RArray N t) = mentions t"
| "mentions (RPair t t') = mentions t \<union> mentions t'"
| "mentions (RStringMap t) = mentions t"
| "mentions (RUser name) = {name}"
| "mentions _ = {}"

fun bare :: "rust_type \<Rightarrow> string set" where
  "bare (RBox t) = bare t"
| "bare (RArray N t) = bare t"
| "bare (RPair t t') = bare t \<union> bare t'"
| "bare (RUser name) = {name}"
| "bare _ = {}"

lemma bare_mentions: "bare t \<subseteq> mentions t"
  by (induction t) auto

lemma settled_type:
  assumes "sized P t" and "\<And>name. name \<in> bare t \<Longrightarrow> settled_impl k (V name) (V' name)"
    and "\<And>name j. name \<in> mentions t \<Longrightarrow> j < k \<Longrightarrow> settled_impl j (V name) (V' name)"
    and "\<And>name. de_size_of (V name) = pg_layout P (RUser name)" and "\<And>name. de_size_of (V' name) = pg_layout P (RUser name)"
  shows "settled_impl k (type_de P strict V t) (type_de P strict V' t)"
  using assms(1-3)
proof (induction t arbitrary: k)
  case (ROption t)
  have "settled_impl j (type_de P strict V t) (type_de P strict V' t)" if "j < k" for j
    by (rule ROption.IH) (use ROption.prems that bare_mentions in auto)
  then show ?case by (auto intro!: settled_as settled_option)
next
  case (RResult t e)
  have "settled_impl j (type_de P strict V t) (type_de P strict V' t)" "settled_impl j (type_de P strict V e) (type_de P strict V' e)"
    if "j < k" for j
    by (rule RResult.IH, use RResult.prems that bare_mentions in auto)+
  then show ?case by (auto intro!: settled_as settled_result)
next
  case (RBox t)
  then show ?case by (auto intro!: settled_box)
next
  case (RVec t)
  have "settled_impl j (type_de P strict V t) (type_de P strict V' t)" if "j < k" for j
    by (rule RVec.IH) (use RVec.prems that bare_mentions in auto)
  then have "settled k (vec_deserialize_reader (type_de P strict V t) slice_reader) (vec_deserialize_reader (type_de P strict V' t) slice_reader)"
    by (rule settled_vec_reader)
      (use RVec.prems(1) type_sizes(2) [where V = V, OF assms(4)] type_sizes(2) [where V = V', OF assms(5)] in simp_all)
  then show ?case by (auto simp: vec_de_def intro!: settled_as settled_plain)
next
  case (RArray N t)
  then show ?case by (auto intro!: settled_as settled_array)
next
  case (RPair t t')
  then show ?case by (auto intro!: settled_as settled_tuple2)
next
  case (RStringMap t)
  have "settled_impl j (type_de P strict V t) (type_de P strict V' t)" if "j < k" for j
    by (rule RStringMap.IH) (use RStringMap.prems that bare_mentions in auto)
  then show ?case
    using RStringMap.prems(1) by (auto simp: map_sizes_ok_def intro!: settled_as settled_btree_map settled_total string_T.total_impl_axioms)
next
  case (RUser name)
  then show ?case by simp
qed (auto intro!: settled_total total_as bool_T.total_impl_axioms u8_T.total_impl_axioms integer_T.total_impl_axioms
  string_T.total_impl_axioms)

subsection \<open>Items\<close>

definition live_fields :: "literal_parsers \<Rightarrow> syn_field list \<Rightarrow> syn_field list" where
  "live_fields L fs = filter (\<lambda>f. \<not> at_skip (attrs_of L f)) fs"

lemma settled_exprs:
  assumes "\<And>f. f \<in> set (live_fields L fs) \<Longrightarrow> settled k (field_reader L I slice_reader f) (field_reader L I' slice_reader f)"
    and "default_of I = default_of I'"
  shows "settled k (exec_exprs I slice_reader (zip fs (List.map (field_entry L) fs)))
    (exec_exprs I' slice_reader (zip fs (List.map (field_entry L) fs)))"
  using assms(1)
proof (induction fs)
  case Nil
  show ?case by (simp add: settled_ret)
next
  case (Cons f fs)
  then have "settled k (exec_exprs I slice_reader (zip fs (List.map (field_entry L) fs)))
      (exec_exprs I' slice_reader (zip fs (List.map (field_entry L) fs)))" by (simp add: live_fields_def split: if_splits)
  moreover have "\<not> at_skip (attrs_of L f) \<Longrightarrow> settled k (field_reader L I slice_reader f) (field_reader L I' slice_reader f)"
    using Cons.prems by (simp add: live_fields_def)
  ultimately show ?case unfolding exec_field_entry assms(2) by (intro settled_and_then settled_if settled_ret)
qed

lemma settled_arms:
  assumes code: "de_enum_process L parse_path tokens cr input = Ok code" and acc: "enum_accepted L (en_variants input)"
    and u: "contains_use_discriminant input = Ok u" and disc: "u \<longrightarrow> discriminants_accepted (en_variants input)"
    and fields: "\<And>v f. v \<in> set (en_variants input) \<Longrightarrow> f \<in> set (live_fields L (fields_list (var_fields v))) \<Longrightarrow>
      settled k (field_reader L I slice_reader f) (field_reader L I' slice_reader f)"
    and default: "default_of I = default_of I'"
  shows "settled k (exec_arms I (en_variants input) slice_reader tag (de_arms code))
    (exec_arms I' (en_variants input) slice_reader tag (de_arms code))"
proof (cases "find (\<lambda>x. declared_tag (en_variants input) u x = Some (uint tag)) (List.enumerate 0 (en_variants input))")
  case None
  then show ?thesis by (simp add: arms_meaning [OF code acc u disc] settled_fail)
next
  case (Some x)
  obtain i v where x: "x = (i, v)" by (cases x)
  with find_SomeD [OF Some] enumerated [of x "en_variants input"] have "v \<in> set (en_variants input)" by simp
  from settled_exprs [OF fields [OF this] default] Some show ?thesis
    by (simp add: arms_meaning [OF code acc u disc] x literal_entries settled_map_ok)
qed

text \<open>The types of the fields of an item, and the condition on them: they exist, and a struct
  contains only types of lower rank without a byte in front of them.\<close>

definition item_types :: "rust_program \<Rightarrow> string \<Rightarrow> rust_type list" where
  "item_types P name =
     (case pg_items P name of
         Some (DerivedStruct s) \<Rightarrow>
           List.map (\<lambda>f. pg_resolve P name (fld_ty f)) (live_fields (pg_literals P) (fields_list (st_fields s)))
       | Some (DerivedEnum e) \<Rightarrow>
           concat (List.map (\<lambda>v. List.map (\<lambda>f. pg_resolve P name (fld_ty f))
             (live_fields (pg_literals P) (fields_list (var_fields v)))) (en_variants e))
       | None \<Rightarrow> [])"

definition is_struct_item :: "rust_program \<Rightarrow> string \<Rightarrow> bool" where
  "is_struct_item P name \<longleftrightarrow> (case pg_items P name of Some (DerivedStruct _) \<Rightarrow> True | _ \<Rightarrow> False)"

definition program_closed :: "rust_program \<Rightarrow> bool" where
  "program_closed P \<longleftrightarrow> (\<forall>name. \<forall>t\<in>set (item_types P name). \<forall>n\<in>mentions t. pg_items P n \<noteq> None)"

definition guarded :: "rust_program \<Rightarrow> (string \<Rightarrow> nat) \<Rightarrow> nat \<Rightarrow> bool" where
  "guarded P rank R \<longleftrightarrow> (\<forall>name. rank name < R) \<and>
     (\<forall>name. is_struct_item P name \<longrightarrow> (\<forall>t\<in>set (item_types P name). \<forall>n\<in>bare t. rank n < rank name))"

lemma field_reader_is:
  assumes "fields_accepted P name flds" and "f \<in> set (fields_list flds)"
  shows "field_reader (pg_literals P) (field_de P strict V name) slice_reader f =
    deserialize_reader (type_de P strict V (pg_resolve P name (fld_ty f))) slice_reader"
  using assms by (simp add: fields_accepted_def field_reader_def)

lemma settled_field:
  assumes "fields_accepted P name flds" and "f \<in> set (live_fields (pg_literals P) (fields_list flds))"
    and "settled_impl k (type_de P strict V (pg_resolve P name (fld_ty f))) (type_de P strict V' (pg_resolve P name (fld_ty f)))"
  shows "settled k (field_reader (pg_literals P) (field_de P strict V name) slice_reader f)
    (field_reader (pg_literals P) (field_de P strict V' name) slice_reader f)"
proof -
  have "f \<in> set (fields_list flds)" using assms(2) by (simp add: live_fields_def)
  from field_reader_is [OF assms(1) this] show ?thesis by (simp add: settled_de [OF assms(3)])
qed

lemma live_sized:
  assumes "fields_accepted P name flds" and "f \<in> set (live_fields (pg_literals P) (fields_list flds))"
  shows "sized P (pg_resolve P name (fld_ty f))"
  using assms by (auto simp: fields_accepted_def live_fields_def)

lemma field_de_default [simp]: "default_of (field_de P strict V name) = pg_default P name"
  by (simp add: field_de_def)

lemma settled_item:
  assumes "program_accepted P" and "pg_items P name \<noteq> None"
    and bare: "\<And>t n. is_struct_item P name \<Longrightarrow> t \<in> set (item_types P name) \<Longrightarrow> n \<in> bare t \<Longrightarrow> settled_impl k (V n) (V' n)"
    and inner: "\<And>t n j. t \<in> set (item_types P name) \<Longrightarrow> n \<in> mentions t \<Longrightarrow> j < k \<Longrightarrow> settled_impl j (V n) (V' n)"
    and sizes: "\<And>n. de_size_of (V n) = pg_layout P (RUser n)" "\<And>n. de_size_of (V' n) = pg_layout P (RUser n)"
  shows "settled_impl k (item_de P strict V name) (item_de P strict V' name)"
proof (rule accepted_cases [OF assms(1), of name])
  let ?L = "pg_literals P"
  assume "pg_items P name = None"
  with assms(2) show ?thesis by simp
next
  let ?L = "pg_literals P"
  fix s assume item: "pg_items P name = Some (DerivedStruct s)" and acc: "struct_accepted P name s"
  then obtain dc where dc: "de_struct_process ?L (pg_parse_path P) (pg_tokens P) (pg_cratename P) s = Ok dc"
    and flds: "fields_accepted P name (st_fields s)" by (auto simp: struct_accepted_def)
  have field: "settled k (field_reader ?L (field_de P strict V name) slice_reader f) (field_reader ?L (field_de P strict V' name) slice_reader f)"
    if f: "f \<in> set (live_fields ?L (fields_list (st_fields s)))" for f
  proof (rule settled_field [OF flds f], rule settled_type [OF live_sized [OF flds f]])
    have "is_struct_item P name" and t: "pg_resolve P name (fld_ty f) \<in> set (item_types P name)"
      using f by (simp_all add: is_struct_item_def item_types_def item)
    with bare show "\<And>n. n \<in> bare (pg_resolve P name (fld_ty f)) \<Longrightarrow> settled_impl k (V n) (V' n)" by blast
    from inner [OF t] show "\<And>n j. n \<in> mentions (pg_resolve P name (fld_ty f)) \<Longrightarrow> j < k \<Longrightarrow> settled_impl j (V n) (V' n)" .
  qed (rule sizes)+
  have "settled k (exec_exprs (field_de P strict V name) slice_reader (zip (fields_list (st_fields s)) (List.map (field_entry ?L) (fields_list (st_fields s)))))
      (exec_exprs (field_de P strict V' name) slice_reader (zip (fields_list (st_fields s)) (List.map (field_entry ?L) (fields_list (st_fields s)))))"
    by (rule settled_exprs [OF field]) simp_all
  then show ?thesis
    by (simp add: item_de_def item dc derived_struct_de_def struct_body [OF dc] settled_as settled_plain settled_and_then settled_ret)
next
  let ?L = "pg_literals P"
  fix e assume item: "pg_items P name = Some (DerivedEnum e)" and acc: "enum_item_accepted P name e"
  then obtain dc where dc: "de_enum_process ?L (pg_parse_path P) (pg_tokens P) (pg_cratename P) e = Ok dc"
    and flds: "\<And>v. v \<in> set (en_variants e) \<Longrightarrow> fields_accepted P name (var_fields v)"
    and en: "enum_accepted ?L (en_variants e)" "contains_use_discriminant e = Ok (uses_discriminant e)"
      "uses_discriminant e \<longrightarrow> discriminants_accepted (en_variants e)" by (auto simp: enum_item_accepted_def)
  have field: "settled j (field_reader ?L (field_de P strict V name) slice_reader f) (field_reader ?L (field_de P strict V' name) slice_reader f)"
    if v: "v \<in> set (en_variants e)" and f: "f \<in> set (live_fields ?L (fields_list (var_fields v)))" and j: "j < k" for v f j
  proof (rule settled_field [OF flds [OF v] f], rule settled_type [OF live_sized [OF flds [OF v] f]])
    have t: "pg_resolve P name (fld_ty f) \<in> set (item_types P name)"
      using v f by (auto simp: item_types_def item)
    show "settled_impl j (V n) (V' n)" if "n \<in> bare (pg_resolve P name (fld_ty f))" for n
      using inner [OF t _ j] that bare_mentions by blast
    show "settled_impl i (V n) (V' n)" if "n \<in> mentions (pg_resolve P name (fld_ty f))" "i < j" for n i
      using inner [OF t that(1), of i] that(2) j by simp
  qed (rule sizes)+
  have arms: "settled j (exec_arms (field_de P strict V name) (en_variants e) slice_reader tag (de_arms dc))
      (exec_arms (field_de P strict V' name) (en_variants e) slice_reader tag (de_arms dc))" if "j < k" for j tag
    by (rule settled_arms [OF dc en field [OF _ _ that]]) simp_all
  have "settled k (de_enum_exec (field_de P strict V name) init (en_variants e) dc slice_reader)
      (de_enum_exec (field_de P strict V' name) init (en_variants e) dc slice_reader)" for init
    unfolding de_enum_exec_def deserialize_variant_def
    by (intro settled_after_u8 settled_and_then arms settled_ret)
  then show ?thesis by (simp add: item_de_def item dc derived_enum_de_def settled_as settled_plain)
qed

subsection \<open>Enough levels\<close>

lemma item_type_mentions:
  "program_closed P \<Longrightarrow> t \<in> set (item_types P name) \<Longrightarrow> n \<in> mentions t \<Longrightarrow> pg_items P n \<noteq> None"
  by (auto simp: program_closed_def)

lemma settled_levels:
  assumes "program_accepted P" and "program_closed P" and "guarded P rank R"
  shows "pg_items P name \<noteq> None \<Longrightarrow> k * R + rank name < n \<Longrightarrow> k * R + rank name < n' \<Longrightarrow>
    settled_impl k (user_de P strict n name) (user_de P strict n' name)"
proof (induction n arbitrary: n' k name)
  case (Suc n)
  from Suc.prems(3) obtain m where n': "n' = Suc m" by (cases n') simp_all
  have ranks: "rank name < R" for name using assms(3) by (simp add: guarded_def)
  have "settled_impl k (item_de P strict (user_de P strict n) name) (item_de P strict (user_de P strict m) name)"
  proof (rule settled_item [OF assms(1) Suc.prems(1)])
    fix t u assume s: "is_struct_item P name" and t: "t \<in> set (item_types P name)" and u: "u \<in> bare t"
    then have "rank u < rank name" using assms(3) by (auto simp: guarded_def)
    moreover have "pg_items P u \<noteq> None" using item_type_mentions [OF assms(2) t] u bare_mentions by blast
    ultimately show "settled_impl k (user_de P strict n u) (user_de P strict m u)"
      using Suc.prems(2,3) n' by (intro Suc.IH) simp_all
  next
    fix t u j assume t: "t \<in> set (item_types P name)" and u: "u \<in> mentions t" and j: "j < k"
    have "j * R + rank u < Suc j * R" using ranks [of u] by simp
    also have "\<dots> \<le> k * R" using j by (intro mult_le_mono1) simp
    finally have "j * R + rank u < n" "j * R + rank u < m" using Suc.prems(2,3) n' by simp_all
    then show "settled_impl j (user_de P strict n u) (user_de P strict m u)"
      using item_type_mentions [OF assms(2) t u] by (intro Suc.IH)
  qed (rule user_sizes)+
  then show ?case by (simp add: n')
qed simp

lemma program_decodes:
  assumes "program_accepted P" and "program_closed P" and "guarded P rank R" and "sized P t"
    and "\<forall>n\<in>mentions t. pg_items P n \<noteq> None" and "(length bs + 1) * R \<le> n" and "(length bs + 1) * R \<le> n'"
  shows "\<exists>x. from_slice (type_de P strict (user_de P strict n) t) bs = Some x \<and> x \<noteq> Panic \<and>
    from_slice (type_de P strict (user_de P strict n') t) bs = Some x"
proof -
  have user: "settled_impl j (user_de P strict n u) (user_de P strict n' u)" if "u \<in> mentions t" "j \<le> length bs" for u j
  proof (rule settled_levels [OF assms(1-3)])
    have "rank u < R" using assms(3) by (simp add: guarded_def)
    then have "j * R + rank u < Suc j * R" by simp
    also have "\<dots> \<le> (length bs + 1) * R" using that(2) by (intro mult_le_mono1) simp
    finally show "j * R + rank u < n" "j * R + rank u < n'" using assms(6,7) by simp_all
  qed (use assms(5) that in blast)
  have "settled_impl (length bs) (type_de P strict (user_de P strict n) t) (type_de P strict (user_de P strict n') t)"
    by (rule settled_type [OF assms(4)]) (use user bare_mentions in \<open>auto simp: user_sizes\<close>)
  from settledD [OF settled_de [OF this], of bs] have same:
    "deserialize_reader (type_de P strict (user_de P strict n) t) slice_reader bs =
       deserialize_reader (type_de P strict (user_de P strict n') t) slice_reader bs"
    and "safe_at (deserialize_reader (type_de P strict (user_de P strict n) t) slice_reader) bs" by simp_all
  then obtain x r where "deserialize_reader (type_de P strict (user_de P strict n) t) slice_reader bs = Some (x, r)" and "x \<noteq> Panic"
    unfolding safe_at_def by blast
  then show ?thesis unfolding from_slice_def deserialize_def same [symmetric] by (cases x) auto
qed

end
