(* ===== verification/Rust_Readers.thy ===== *)
theory Rust_Readers
  imports Rust_Type_Laws Derive_Totality
begin

section \<open>Programs on any reader\<close>

text \<open>
  The decoders of every type of a program, derived types of every level included, take the
  same steps on a lawful reader as on the slice of the bytes that it still has.
\<close>

lemma de_as_simulated:
  assumes "simulated_impl R invar rest Ds Dr"
  shows "simulated_impl R invar rest (de_as con Ds) (de_as con Dr)"
proof (intro simulated_impl.intro simulated_impl_axioms.intro)
  show "lawful_reader R invar rest" by (rule simulated_impl.axioms(1) [OF assms])
qed (simp_all add: de_as_def simulates_map_ok simulated_impl.sim_size [OF assms] simulated_impl.sim_de [OF assms]
    simulated_impl.sim_vec [OF assms] simulated_impl.sim_array [OF assms])

lemma simulated_bool:
  assumes "lawful_reader R invar rest"
  shows "simulated_impl R invar rest bool_de bool_de"
  unfolding bool_de_def
  by (rule plain_simulated_impl [OF assms])
    (unfold bool_deserialize_reader_def, intro sim_intros lawful_reader.sim_u8 [OF assms])

lemma refused_simulated:
  assumes "lawful_reader R invar rest"
  shows "simulated_impl R invar rest (plain_de n (\<lambda>_. refused)) (plain_de n (\<lambda>_. refused))"
  by (rule plain_simulated_impl [OF assms]) (simp add: simulates_def refused_def)

definition readers_agree ::
  "('r \<Rightarrow> bool) \<Rightarrow> ('r \<Rightarrow> bytes) \<Rightarrow> 'r Read \<Rightarrow> (string \<Rightarrow> (bytes, 'a) BorshDeserialize) \<Rightarrow>
   (string \<Rightarrow> ('r, 'a) BorshDeserialize) \<Rightarrow> bool" where
  "readers_agree invar rest R Us Ur \<longleftrightarrow> (\<forall>name. simulated_impl R invar rest (Us name) (Ur name))"

lemma type_simulated_impl:
  assumes R: "lawful_reader R invar rest" and U: "readers_agree invar rest R Us Ur"
  shows "simulated_impl R invar rest (type_de P strict Us t) (type_de P strict Ur t)"
proof (induction t)
  case (RUser name)
  then show ?case using U by (simp add: readers_agree_def)
next
  case (RBox t)
  have "simulated_impl R invar rest (plain_de n (box_deserialize_reader (\<lambda>v. v) (type_de P strict Us t)))
      (plain_de n (box_deserialize_reader (\<lambda>v. v) (type_de P strict Ur t)))" for n
    by (rule converted_simulated_impl [OF RBox, where h = "\<lambda>v. v"]) (simp_all add: box_deserialize_reader_def)
  then show ?case by simp
next
  case RBool
  then show ?case by (simp add: de_as_simulated simulated_bool [OF R])
qed (simp_all add: de_as_simulated lawful_reader.simulated_u8 [OF R] lawful_reader.simulated_integer [OF R]
    string_simulated_impl [OF R] option_simulated_impl result_simulated_impl vec_simulated_impl array_simulated_impl
    tuple2_simulated_impl btree_map_simulated_impl [OF string_simulated_impl [OF R]])

lemma program_field_simulated:
  assumes "fields_accepted P name flds" and "f \<in> set (fields_list flds)" and R: "lawful_reader R invar rest"
    and U: "readers_agree invar rest R Us Ur"
  shows "de_simulated (pg_literals P) invar rest R (field_de P strict Us name) (field_de P strict Ur name) f"
proof (cases "at_skip (attrs_of (pg_literals P) f)")
  case True
  then show ?thesis by (simp add: de_simulated_def field_de_def)
next
  case False
  have "at_deserialize_with (attrs_of (pg_literals P) f) = None" using assms(1,2) by (auto simp: fields_accepted_def)
  then show ?thesis using False by (rule field_simulated) (simp add: type_simulated_impl [OF R U])
qed

lemma item_simulated:
  assumes acc: "program_accepted P" and R: "lawful_reader R invar rest" and U: "readers_agree invar rest R Us Ur"
  shows "simulated_impl R invar rest (item_de P strict Us name) (item_de P strict Ur name)"
proof (rule accepted_cases [OF acc, of name])
  assume "pg_items P name = None"
  then show ?thesis by (simp add: item_de_def refused_simulated [OF R])
next
  fix s assume s: "pg_items P name = Some (DerivedStruct s)" and ok: "struct_accepted P name s"
  then obtain dc where dc: "de_struct_process (pg_literals P) (pg_parse_path P) (pg_tokens P) (pg_cratename P) s = Ok dc"
    by (auto simp: struct_accepted_def)
  have "\<forall>f\<in>set (fields_list (st_fields s)).
      de_simulated (pg_literals P) invar rest R (field_de P strict Us name) (field_de P strict Ur name) f"
    using ok program_field_simulated [OF _ _ R U] by (auto simp: struct_accepted_def)
  from de_as_simulated [OF derived_struct_simulated [OF R dc this]] show ?thesis by (simp add: item_de_def s dc)
next
  fix e assume e: "pg_items P name = Some (DerivedEnum e)" and ok: "enum_item_accepted P name e"
  then obtain dc where dc: "de_enum_process (pg_literals P) (pg_parse_path P) (pg_tokens P) (pg_cratename P) e = Ok dc"
    by (auto simp: enum_item_accepted_def)
  have "field_contracts_of (en_variants e)
      (de_simulated (pg_literals P) invar rest R (field_de P strict Us name) (field_de P strict Ur name))"
    using ok program_field_simulated [OF _ _ R U] by (auto simp: enum_item_accepted_def field_contracts_of_def)
  moreover have "enum_accepted (pg_literals P) (en_variants e)" "contains_use_discriminant e = Ok (uses_discriminant e)"
    "uses_discriminant e \<longrightarrow> discriminants_accepted (en_variants e)" using ok by (auto simp: enum_item_accepted_def)
  ultimately have "simulated_impl R invar rest (derived_enum_de n (field_de P strict Us name) init_method (en_variants e) dc)
      (derived_enum_de n (field_de P strict Ur name) init_method (en_variants e) dc)" for n init_method
    by (intro derived_enum_simulated [OF R dc])
  then show ?thesis by (simp add: item_de_def e dc de_as_simulated)
qed

lemma user_simulated:
  assumes "program_accepted P" and R: "lawful_reader R invar rest"
  shows "readers_agree invar rest R (user_de P strict n) (user_de P strict n)"
proof (induction n)
  case 0
  then show ?case by (simp add: readers_agree_def refused_simulated [OF R])
next
  case (Suc n)
  then show ?case using item_simulated [OF assms Suc] by (simp add: readers_agree_def)
qed

lemma program_from_reader:
  assumes "program_accepted P" and "lawful_reader R invar rest" and "invar r"
  shows "map_option fst (from_reader R (type_de P strict (user_de P strict n) t) r) =
    from_slice (type_de P strict (user_de P strict n) t) (rest r)"
  by (rule simulated_impl.from_reader_eq_from_slice [OF type_simulated_impl [OF assms(2) user_simulated [OF assms(1,2)]] assms(3)])

end
