(* ===== verification/Derive_Test_Syntax.thy ===== *)
theory Derive_Test_Syntax
  imports Derive_Entry
begin

section \<open>Items as the tests of the derive macros write them\<close>

text \<open>
  Short names for the types, fields and attributes of the items in the tests of
  \<open>borsh-derive/src/internals\<close>, the tokens of a type, and what the parsers of \<open>syn\<close> return for
  the string literals of the tests. White space in a literal is one blank.
\<close>

definition applied_type :: "ident \<Rightarrow> ty list \<Rightarrow> ty" where
  "applied_type i ts = TypePath None (Path False [Segment i (AngleBracketed (List.map ArgType ts))])"

definition qualified_type :: "ident list \<Rightarrow> ty" where
  "qualified_type is = TypePath None (Path False (List.map (\<lambda>i. Segment i NoArguments) is))"

text \<open>\<open><T as Trait>::Name\<close>\<close>

definition associated_type :: "ty \<Rightarrow> ident list \<Rightarrow> ty" where
  "associated_type t is = TypePath (Some t) (Path False (List.map (\<lambda>i. Segment i NoArguments) is))"

definition test_field :: "attribute list \<Rightarrow> ident option \<Rightarrow> ty \<Rightarrow> syn_field" where
  "test_field attrs name t = \<lparr>fld_ident = name, fld_ty = t, fld_attrs = attrs\<rparr>"

definition borsh_attr :: "meta list \<Rightarrow> attribute" where
  "borsh_attr metas = \<lparr>attr_path = ''borsh'', attr_args = Some metas\<rparr>"

subsection \<open>The tokens of a type\<close>

fun ty_tokens :: "ty \<Rightarrow> string"
  and path_tokens :: "path \<Rightarrow> string"
  and segment_tokens :: "segment \<Rightarrow> string"
  and arguments_tokens :: "path_arguments \<Rightarrow> string"
  and argument_tokens :: "generic_argument \<Rightarrow> string"
  and bound_tokens :: "bound \<Rightarrow> string"
where
  "ty_tokens (TypeArray t) = ''['' @ ty_tokens t @ '']''"
| "ty_tokens (TypeBareFn inputs out) =
     ''fn ('' @ join '', '' (List.map ty_tokens inputs) @ '')'' @ (case out of None \<Rightarrow> [] | Some t \<Rightarrow> '' -> '' @ ty_tokens t)"
| "ty_tokens (TypeGroup t) = ty_tokens t"
| "ty_tokens (TypeImplTrait bs) = ''impl '' @ join '' + '' (List.map bound_tokens bs)"
| "ty_tokens (TypeMacro m) = m"
| "ty_tokens (TypeParen t) = ''('' @ ty_tokens t @ '')''"
| "ty_tokens (TypePath s p) = (case s of None \<Rightarrow> path_tokens p | Some t \<Rightarrow> ''<'' @ ty_tokens t @ ''> '' @ path_tokens p)"
| "ty_tokens (TypePtr t) = ''* '' @ ty_tokens t"
| "ty_tokens (TypeReference t) = ''& '' @ ty_tokens t"
| "ty_tokens (TypeSlice t) = ''['' @ ty_tokens t @ '' ]''"
| "ty_tokens (TypeTraitObject bs) = ''dyn '' @ join '' + '' (List.map bound_tokens bs)"
| "ty_tokens (TypeTuple ts) = ''('' @ join '', '' (List.map ty_tokens ts) @ '',)''"
| "ty_tokens (TypeOther s) = s"
| "path_tokens (Path leading_colon segs) = (if leading_colon then ''::'' else []) @ join ''::'' (List.map segment_tokens segs)"
| "segment_tokens (Segment i a) = i @ arguments_tokens a"
| "arguments_tokens NoArguments = []"
| "arguments_tokens (AngleBracketed gs) = ''<'' @ join '', '' (List.map argument_tokens gs) @ ''>''"
| "arguments_tokens (Parenthesized inputs out) =
     ''('' @ join '', '' (List.map ty_tokens inputs) @ '')'' @ (case out of None \<Rightarrow> [] | Some t \<Rightarrow> '' -> '' @ ty_tokens t)"
| "argument_tokens (ArgType t) = ty_tokens t"
| "argument_tokens (ArgAssocType i t) = i @ '' = '' @ ty_tokens t"
| "argument_tokens (ArgOther s) = s"
| "bound_tokens (BoundTrait p) = path_tokens p"
| "bound_tokens (BoundOther s) = s"

subsection \<open>The literals of the tests\<close>

definition predicate_literals :: "(string \<times> where_predicate list) list" where
  "predicate_literals =
    [('''', []),
     (''<T as TraitName>::Associated: borsh::ser::BorshSerialize'',
       [PredicateType (associated_type (ident_type ''T'') [''TraitName'',
       ''Associated'']) ''borsh::ser::BorshSerialize'']),
     (''K: Hash'', [PredicateType (ident_type ''K'') ''Hash'']),
     (''K: Hash + Eq + Ord, V: Ord'', [PredicateType (ident_type ''K'') ''Hash + Eq + Ord'',
       PredicateType (ident_type ''V'') ''Ord'']),
     (''K: Hash + Eq + borsh::de::BorshDeserialize, V: borsh::de::BorshDeserialize'',
       [PredicateType (ident_type ''K'') ''Hash + Eq + borsh::de::BorshDeserialize'',
       PredicateType (ident_type ''V'') ''borsh::de::BorshDeserialize'']),
     (''K: Hash + Eq + borsh::ser::BorshSerialize, V: borsh::ser::BorshSerialize'',
       [PredicateType (ident_type ''K'') ''Hash + Eq + borsh::ser::BorshSerialize'',
       PredicateType (ident_type ''V'') ''borsh::ser::BorshSerialize'']),
     (''K: Hash + Ord, V: Eq + Ord'', [PredicateType (ident_type ''K'') ''Hash + Ord'',
       PredicateType (ident_type ''V'') ''Eq + Ord'']),
     (''T: PartialOrd + Hash + Eq + borsh::de::BorshDeserialize, U: borsh::de::BorshDeserialize'',
       [PredicateType (ident_type ''T'') ''PartialOrd + Hash + Eq + borsh::de::BorshDeserialize'',
       PredicateType (ident_type ''U'') ''borsh::de::BorshDeserialize'']),
     (''T: borsh::ser::BorshSerialize + PartialOrd, U: borsh::ser::BorshSerialize'',
       [PredicateType (ident_type ''T'') ''borsh::ser::BorshSerialize + PartialOrd'',
       PredicateType (ident_type ''U'') ''borsh::ser::BorshSerialize''])]"

definition override_literals :: "(string \<times> parameter_override list) list" where
  "override_literals =
    [('''', []),
     (''K => <K as TraitName>::Associated'', [\<lparr>order_param = ''K'',
       override_type = associated_type (ident_type ''K'') [''TraitName'', ''Associated'']\<rparr>]),
     (''T => <T as TraitName>::Associated'', [\<lparr>order_param = ''T'',
       override_type = associated_type (ident_type ''T'') [''TraitName'', ''Associated'']\<rparr>]),
     (''T => <T as TraitName>::Associated, V => Vec<V>'', [\<lparr>order_param = ''T'',
       override_type = associated_type (ident_type ''T'') [''TraitName'', ''Associated'']\<rparr>,
       \<lparr>order_param = ''V'', override_type = applied_type ''Vec'' [ident_type ''V'']\<rparr>]),
     (''T => T, T => <T as TraitName>::Associated'', [\<lparr>order_param = ''T'',
       override_type = ident_type ''T''\<rparr>, \<lparr>order_param = ''T'',
       override_type = associated_type (ident_type ''T'') [''TraitName'', ''Associated'']\<rparr>]),
     (''V => V'', [\<lparr>order_param = ''V'', override_type = ident_type ''V''\<rparr>])]"

definition test_literals :: literal_parsers where
  "test_literals =
     \<lparr>parse_expr_path = Ok,
      parse_predicates = (\<lambda>s. case map_of predicate_literals s of Some ps \<Rightarrow> Ok ps | None \<Rightarrow> Err ''expected `:`''),
      parse_overrides = (\<lambda>s. case map_of override_literals s of Some ps \<Rightarrow> Ok ps | None \<Rightarrow> Err ''expected `>`''),
      is_identifier = ascii_identifier\<rparr>"

text \<open>A path is not a block.\<close>

definition test_path :: "string \<Rightarrow> (derive_error, string) outcome" where
  "test_path s = (if s = [] \<or> hd s = CHR ''{'' then Err ''expected identifier'' else Ok s)"

subsection \<open>Running the macros\<close>

lemma show_digits: "show_nat 0 = ''0''" "show_nat (Suc 0) = ''1''" "show_nat 2 = ''2''" "show_nat 3 = ''3''"
  by code_simp+

lemmas derive_eval =
  ident_type_def leftover_def parse_nested_meta_def attr_nested_meta_def type_params_def BORSH_def BOUND_def
  USE_DISCRIMINANT_def SERIALIZE_def DESERIALIZE_def SKIP_def INIT_def SERIALIZE_WITH_def DESERIALIZE_WITH_def
  CRATE_def SCHEMA_def PARAMS_def WITH_FUNCS_def DECLARATION_def DEFINITIONS_def path_is_def
  get_one_attribute_def get_lit_str2_def parse_lit_into_def get_nested_meta_logic_def
  meta_get_by_symbol_keys_def attr_get_by_symbol_keys_def take_variant_def map_outcome_def
  BOUNDS_FIELD_PARSE_MAP_def bounds_from_def WITH_FUNCS_FIELD_PARSE_MAP_def with_funcs_from_def
  f_with_funcs_def SCHEMA_FIELD_PARSE_MAP_def schema_attributes_from_def BORSH_FIELD_PARSE_MAP_def
  attributes_from_def check_schema_def check_field_def parse_attributes_def filter_attrs_def get_bounds_def
  needs_bounds_derive_def collect_bounds_def needs_schema_params_derive_def schema_declaration_def
  schema_definitions_def find_borsh_def check_attributes_def contains_use_discriminant_def
  contains_initialize_with_def get_crate_def default_where_def compute_predicates_def without_defaults_def
  find_new_def from_params_def param_associated_type_insert_def visit_type_top_level_def visit_field_def
  add_predicate_def process_for_bounds_def add_param_def process_for_params_def at_least_one_hit_def
  type_contains_some_param_def field_index_def new_struct_unnamed_def new_enum_unnamed_def
  serialize_output_def ser_generics_new_def ser_generics_extend_def ser_field_bounds_def ser_process_field_def
  unwrap_ident_def ser_struct_fields_def ser_struct_process_def ser_enum_process_field_def
  ser_process_variant_def optimize_fields_body_def ser_enum_variant_def ser_enum_process_def
  de_generics_new_def de_generics_extend_def field_output_def field_default_output_def de_process_field_def
  de_struct_process_def de_process_variant_def de_enum_variant_def de_enum_process_def schema_visit_field_def
  visit_struct_fields_def visit_struct_fields_unconditional_def keeps_param_def keeps_predicate_def
  filter_used_params_def generics_result_def field_declaration_output_def field_definitions_output_def
  schema_process_field_def schema_process_fields_def schema_struct_process_def filtered_field_def
  inner_struct_definition_def schema_process_variant_def Ident_new_def ascii_identifier_def ident_char_def schema_enum_process_def discriminants_new_def
  discriminants_get_def applied_type_def qualified_type_def associated_type_def test_field_def borsh_attr_def
  test_literals_def test_path_def predicate_literals_def override_literals_def Let_def List.map_filter_simps
  fold_ok.simps enumerate_simps show_digits

text \<open>What is unfolded in a second step where one step is slow.\<close>

lemmas late_eval = process_for_bounds_def add_predicate_def generics_result_def parse_attributes_def process_for_params_def
  type_contains_some_param_def keeps_predicate_def keeps_param_def filter_used_params_def inner_struct_definition_def

end
