(* ===== verification/Rust_Program_Properties.thy ===== *)
theory Rust_Program_Properties
  imports Rust_Termination Rust_Readers Derive_Properties Codec_Properties Derive_Test_Syntax
begin

section \<open>Properties of programs with recursive types\<close>

text \<open>
  The claims about recursive derived types, with the types of the repository's own tests of
  recursion (\<open>borsh/tests/roundtrip/requires_derive_category\<close>) as the program.
\<close>

subsection \<open>The types of the tests\<close>

text \<open>The types that the paths of the tests denote.\<close>

fun std_type :: "ty \<Rightarrow> rust_type" where
  "std_type (TypePath None (Path False [Segment i NoArguments])) =
     (if i = ''bool'' then RBool else if i = ''u8'' then RU8 else if i = ''i32'' then RI32
      else if i = ''u32'' then RU32 else if i = ''u64'' then RU64 else if i = ''String'' then RString else RUser i)"
| "std_type (TypePath None (Path False [Segment i (AngleBracketed [ArgType t])])) =
     (if i = ''Vec'' then RVec (std_type t) else if i = ''Box'' then RBox (std_type t)
      else if i = ''Option'' then ROption (std_type t) else RUser i)"
| "std_type (TypePath None (Path False [Segment i (AngleBracketed [ArgType k, ArgType t])])) =
     (if i = ''BTreeMap'' then RStringMap (std_type t) else RUser i)"
| "std_type _ = RUser []"

text \<open>\<open>struct CRecB { a: String, b: Vec<CRecB> }\<close>\<close>

definition crecb_struct :: item_struct where
  "crecb_struct = \<lparr>st_ident = ''CRecB'', st_generics = \<lparr>gen_params = [], gen_where = None\<rparr>,
     st_fields = FieldsNamed
       [plain (Some ''a'') (ident_type ''String''), plain (Some ''b'') (applied_type ''Vec'' [ident_type ''CRecB''])],
     st_attrs = []\<rparr>"

text \<open>\<open>enum ERecD { B { x: String, y: i32 }, C(u8, Vec<ERecD>) }\<close>\<close>

definition erecd_enum :: item_enum where
  "erecd_enum = \<lparr>en_ident = ''ERecD'', en_generics = \<lparr>gen_params = [], gen_where = None\<rparr>,
     en_variants =
       [\<lparr>var_ident = ''B'', var_fields = FieldsNamed
          [plain (Some ''x'') (ident_type ''String''), plain (Some ''y'') (ident_type ''i32'')], var_discriminant = None\<rparr>,
        \<lparr>var_ident = ''C'', var_fields = FieldsUnnamed
          [plain None (ident_type ''u8''), plain None (applied_type ''Vec'' [ident_type ''ERecD''])], var_discriminant = None\<rparr>],
     en_attrs = []\<rparr>"

text \<open>\<open>struct CRecC { a: String, b: BTreeMap<String, CRecC> }\<close>\<close>

definition crecc_struct :: item_struct where
  "crecc_struct = \<lparr>st_ident = ''CRecC'', st_generics = \<lparr>gen_params = [], gen_where = None\<rparr>,
     st_fields = FieldsNamed
       [plain (Some ''a'') (ident_type ''String''),
        plain (Some ''b'') (applied_type ''BTreeMap'' [ident_type ''String'', ident_type ''CRecC''])],
     st_attrs = []\<rparr>"

definition test_program :: rust_program where
  "test_program =
     \<lparr>pg_items = [''CRecB'' \<mapsto> DerivedStruct crecb_struct, ''ERecD'' \<mapsto> DerivedEnum erecd_enum, ''CRecC'' \<mapsto> DerivedStruct crecc_struct],
      pg_resolve = (\<lambda>_. std_type), pg_layout = (\<lambda>_. 24), pg_default = (\<lambda>_ _. VBool False), pg_init = (\<lambda>_ v. v),
      pg_literals = no_literals, pg_parse_path = Ok, pg_tokens = type_tokens, pg_cratename = ''borsh''\<rparr>"

lemma test_program_simps [simp]:
  "pg_resolve test_program name = std_type" "pg_layout test_program t = 24" "pg_literals test_program = no_literals"
  "pg_default test_program name ty = VBool False" "pg_tokens test_program = type_tokens" "pg_cratename test_program = ''borsh''"
  "pg_parse_path test_program = Ok"
  by (simp_all add: test_program_def)

lemma test_types [simp]:
  "std_type (ident_type ''String'') = RString" "std_type (ident_type ''u8'') = RU8" "std_type (ident_type ''i32'') = RI32"
  "std_type (applied_type ''Vec'' [ident_type name]) = RVec (std_type (ident_type name))"
  "std_type (applied_type ''BTreeMap'' [ident_type ''String'', ident_type name]) = RStringMap (std_type (ident_type name))"
  "std_type (ident_type ''CRecB'') = RUser ''CRecB''" "std_type (ident_type ''ERecD'') = RUser ''ERecD''"
  "std_type (ident_type ''CRecC'') = RUser ''CRecC''"
  by (simp_all add: ident_type_def applied_type_def)

lemma size_24: "elem_size_ok 24" "map_sizes_ok 24 24"
  by (simp_all add: map_sizes_ok_def elem_size_okI)

lemmas item_eval = crecb_struct_def crecc_struct_def erecd_enum_def applied_type_def process_eval

lemma test_structs:
  "\<exists>code. ser_struct_process no_literals type_tokens ''borsh'' crecb_struct = Ok code"
  "\<exists>code. de_struct_process no_literals Ok type_tokens ''borsh'' crecb_struct = Ok code \<and> ds_init code = None"
  "\<exists>code. ser_struct_process no_literals type_tokens ''borsh'' crecc_struct = Ok code"
  "\<exists>code. de_struct_process no_literals Ok type_tokens ''borsh'' crecc_struct = Ok code \<and> ds_init code = None"
  by (simp_all add: ser_struct_process_def ser_struct_fields_def ser_process_field_def unwrap_ident_def
      de_struct_process_def de_process_field_def item_eval)

lemma erecd_use: "contains_use_discriminant erecd_enum = Ok False"
  by (simp add: erecd_enum_def process_eval)

lemma test_enum:
  "\<exists>code. ser_enum_process no_literals type_tokens ''borsh'' erecd_enum = Ok code"
  "\<exists>code. de_enum_process no_literals Ok type_tokens ''borsh'' erecd_enum = Ok code \<and> de_init code = None"
  "enum_accepted no_literals (en_variants erecd_enum)"
proof -
  show "\<exists>code. ser_enum_process no_literals type_tokens ''borsh'' erecd_enum = Ok code"
    by (simp add: ser_enum_process_def erecd_use)
      (simp add: ser_enum_variant_def ser_process_variant_def discriminants_get_def ser_enum_process_field_def
        new_enum_unnamed_def field_index_def map_outcome_def unwrap_ident_def item_eval)
  show "\<exists>code. de_enum_process no_literals Ok type_tokens ''borsh'' erecd_enum = Ok code \<and> de_init code = None"
    by (simp add: de_enum_process_def erecd_use)
      (simp add: de_enum_variant_def de_process_variant_def discriminants_get_def de_process_field_def item_eval)
  show "enum_accepted no_literals (en_variants erecd_enum)" by (simp add: enum_accepted_def erecd_enum_def)
qed

lemma test_program_accepted: "program_accepted test_program"
proof -
  have "struct_accepted test_program name crecb_struct" "struct_accepted test_program name crecc_struct" for name
    using test_structs by (simp_all add: struct_accepted_def fields_accepted_def crecb_struct_def crecc_struct_def size_24)
  moreover have "enum_item_accepted test_program name erecd_enum" for name
    using test_enum erecd_use
    by (simp add: enum_item_accepted_def fields_accepted_def uses_discriminant_def) (simp add: erecd_enum_def size_24)
  ultimately show ?thesis by (simp add: program_accepted_def test_program_def)
qed

subsection \<open>Round trips\<close>

text \<open>
  C34. Recursive derived types. Whatever derived types a program has, and however they contain
  each other and themselves, what \<open>to_vec\<close> writes for a value is read back by \<open>from_slice\<close>:
  the derived \<open>serialize\<close> and \<open>deserialize_reader\<close> call each other to the depth of the
  value, and more levels than that change neither the bytes nor the result.
\<close>

theorem recursive_types_round_trip:
  assumes "program_accepted P" and "sized P t" and "type_ok P (user_ok P n) t v"
  shows "\<exists>bs. \<forall>m\<ge>n. to_vec (type_ser P (user_ser P m) t) v = Some (Ok bs) \<and>
    (\<forall>strict. from_slice (type_de P strict (user_de P strict m) t) bs = Some (Ok v))"
  using program_round_trip [OF assms] by blast

definition crecb_three :: rust_value where
  "crecb_three = VStruct [VString ''three'',
     VList [VStruct [VString ''one'', VList []], VStruct [VString ''two'', VList []]]]"

lemma test_program_items [simp]:
  "pg_items test_program ''CRecB'' = Some (DerivedStruct crecb_struct)"
  "pg_items test_program ''ERecD'' = Some (DerivedEnum erecd_enum)"
  "pg_items test_program ''CRecC'' = Some (DerivedStruct crecc_struct)"
  by (simp_all add: test_program_def)

text \<open>The values of the types and their bytes, one level at a time.\<close>

lemma two_levels: "user_ok P 2 = item_ok P (item_ok P (\<lambda>_ _. False))" "user_enc P 2 = item_enc P (item_enc P (\<lambda>_ _. []))"
  by (simp_all add: numeral_2_eq_2)

lemma crecb_level:
  "item_ok test_program K ''CRecB'' (VStruct [a, b]) \<longleftrightarrow> type_ok test_program K RString a \<and> type_ok test_program K (RVec (RUser ''CRecB'')) b"
  "item_enc test_program E ''CRecB'' (VStruct [a, b]) = type_enc test_program E RString a @ type_enc test_program E (RVec (RUser ''CRecB'')) b"
  by (simp_all add: item_ok_def item_enc_def members_ok_def fields_enc_def crecb_struct_def del: type_ok.simps type_enc.simps)

lemma erecd_variants:
  "variant_named (en_variants erecd_enum) ''B'' = Some (0, en_variants erecd_enum ! 0)"
  "variant_named (en_variants erecd_enum) ''C'' = Some (1, en_variants erecd_enum ! 1)"
  by (simp_all add: variant_named_def erecd_enum_def)

lemma erecd_level:
  "item_ok test_program K ''ERecD'' (VEnum (''B'', [a, b])) \<longleftrightarrow> type_ok test_program K RString a \<and> type_ok test_program K RI32 b"
  "item_ok test_program K ''ERecD'' (VEnum (''C'', [a, b])) \<longleftrightarrow>
     type_ok test_program K RU8 a \<and> type_ok test_program K (RVec (RUser ''ERecD'')) b"
  "item_enc test_program E ''ERecD'' (VEnum (''B'', [a, b])) = 0 # type_enc test_program E RString a @ type_enc test_program E RI32 b"
  "item_enc test_program E ''ERecD'' (VEnum (''C'', [a, b])) =
     1 # type_enc test_program E RU8 a @ type_enc test_program E (RVec (RUser ''ERecD'')) b"
  by (simp_all add: item_ok_def item_enc_def enum_ok_def enum_enc_def erecd_variants uses_discriminant_def erecd_use
      declared_tag_def del: type_ok.simps type_enc.simps)
    (simp_all add: members_ok_def fields_enc_def erecd_enum_def del: type_ok.simps type_enc.simps)

lemma crecb_three_ok: "type_ok test_program (user_ok test_program 2) (RUser ''CRecB'') crecb_three"
  by (simp add: two_levels crecb_three_def crecb_level ascii_ok vec_ok_def)

lemma crecb_three_enc: "type_enc test_program (user_enc test_program 2) (RUser ''CRecB'') crecb_three =
    [5, 0, 0, 0, 116, 104, 114, 101, 101, 2, 0, 0, 0, 3, 0, 0, 0, 111, 110, 101, 0, 0, 0, 0, 3, 0, 0, 0, 116, 119, 111, 0, 0, 0, 0]"
  by (simp add: two_levels crecb_three_def crecb_level string_enc_def as_bytes_def concrete to_le_bytes_def)

text \<open>The bytes are those of the recorded snapshot of \<open>test_recursive_struct\<close>.\<close>

definition crecb_three_bytes :: bytes where
  "crecb_three_bytes = [5, 0, 0, 0, 116, 104, 114, 101, 101, 2, 0, 0, 0, 3, 0, 0, 0, 111, 110, 101, 0, 0, 0, 0,
     3, 0, 0, 0, 116, 119, 111, 0, 0, 0, 0]"

theorem recursive_types_round_trip_witness:
  "to_vec (type_ser test_program (user_ser test_program 7) (RUser ''CRecB'')) crecb_three = Some (Ok crecb_three_bytes) \<and>
   from_slice (type_de test_program False (user_de test_program False 7) (RUser ''CRecB'')) crecb_three_bytes =
     Some (Ok crecb_three)"
proof -
  from recursive_types_round_trip [OF test_program_accepted _ crecb_three_ok] obtain bs where
    bs: "\<forall>m\<ge>2. to_vec (type_ser test_program (user_ser test_program m) (RUser ''CRecB'')) crecb_three = Some (Ok bs) \<and>
      (\<forall>strict. from_slice (type_de test_program strict (user_de test_program strict m) (RUser ''CRecB'')) bs =
        Some (Ok crecb_three))" by auto
  have "to_vec (type_ser test_program (user_ser test_program 2) (RUser ''CRecB'')) crecb_three =
      Some (Ok (type_enc test_program (user_enc test_program 2) (RUser ''CRecB'') crecb_three))"
    by (rule program_round_trip(1) [OF test_program_accepted _ crecb_three_ok]) simp_all
  with bs [rule_format, of 2] have "bs = crecb_three_bytes" by (simp add: crecb_three_enc crecb_three_bytes_def del: type_enc.simps)
  moreover have "(2::nat) \<le> 7" by simp
  ultimately show ?thesis using bs by blast
qed

text \<open>
  C35. Under \<open>de_strict_order\<close> recursive derived types are canonical: \<open>from_slice\<close> of a
  recursive type accepts exactly the bytes that \<open>to_vec\<close> writes for its values, at some
  level, and the value it returns is the one they were written for. Without the feature,
  which is off by default, a type with an ordered map also accepts its entries in another order.
\<close>

theorem recursive_types_canonical:
  assumes "program_accepted P" and "sized P t"
  shows "(\<exists>n. from_slice (type_de P True (user_de P True n) t) bs = Some (Ok v)) \<longleftrightarrow>
    (\<exists>n. type_ok P (user_ok P n) t v \<and> to_vec (type_ser P (user_ser P n) t) v = Some (Ok bs))"
proof -
  have "to_vec (type_ser P (user_ser P n) t) v = Some (Ok bs) \<longleftrightarrow> bs = type_enc P (user_enc P n) t v"
    if "type_ok P (user_ok P n) t v" for n
    using program_round_trip(1) [OF assms that order_refl] by auto
  then show ?thesis unfolding program_canonical [OF assms] by blast
qed

definition erecd_three :: rust_value where
  "erecd_three = VEnum (''C'', [VU8 11, VList [VEnum (''B'', [VString ''one'', VI32 3213123]), VEnum (''C'', [VU8 10, VList []])]])"

lemma erecd_three_ok: "type_ok test_program (user_ok test_program 2) (RUser ''ERecD'') erecd_three"
  by (simp add: two_levels erecd_three_def erecd_level ascii_ok vec_ok_def)

lemma erecd_three_enc: "type_enc test_program (user_enc test_program 2) (RUser ''ERecD'') erecd_three =
    [1, 11, 2, 0, 0, 0, 0, 3, 0, 0, 0, 111, 110, 101, 67, 7, 49, 0, 1, 10, 0, 0, 0, 0]"
  by (simp add: two_levels erecd_three_def erecd_level string_enc_def as_bytes_def concrete to_le_bytes_def)

text \<open>The bytes are those of the recorded snapshot of \<open>test_recursive_enum\<close>.\<close>

theorem recursive_types_canonical_witness:
  "\<exists>n. from_slice (type_de test_program True (user_de test_program True n) (RUser ''ERecD''))
     [1, 11, 2, 0, 0, 0, 0, 3, 0, 0, 0, 111, 110, 101, 67, 7, 49, 0, 1, 10, 0, 0, 0, 0] = Some (Ok erecd_three)"
proof -
  have "to_vec (type_ser test_program (user_ser test_program 2) (RUser ''ERecD'')) erecd_three =
      Some (Ok (type_enc test_program (user_enc test_program 2) (RUser ''ERecD'') erecd_three))"
    by (rule program_round_trip(1) [OF test_program_accepted _ erecd_three_ok]) simp_all
  with erecd_three_ok recursive_types_canonical [OF test_program_accepted, of "RUser ''ERecD''" _ erecd_three]
  show ?thesis unfolding erecd_three_enc by fastforce
qed

text \<open>
  C36. Decoding recursive types ends. When no struct contains itself without a tag, an option
  or a length in front, \<open>from_slice\<close> of every slice returns and does not panic, its calls of
  derived decoders are nested no deeper than the length of the slice allows, and the result
  does not depend on how many levels there are beyond that.
\<close>

theorem recursive_types_return:
  assumes "program_accepted P" and "program_closed P" and "guarded P rank R" and "sized P t"
    and "\<forall>name\<in>mentions t. pg_items P name \<noteq> None"
  shows "\<exists>x. x \<noteq> Panic \<and> (\<forall>n\<ge>(length bs + 1) * R. from_slice (type_de P strict (user_de P strict n) t) bs = Some x)"
proof -
  from program_decodes [OF assms order_refl order_refl, where strict = strict] obtain x where
    x: "from_slice (type_de P strict (user_de P strict ((length bs + 1) * R)) t) bs = Some x" "x \<noteq> Panic" by blast
  have "from_slice (type_de P strict (user_de P strict n) t) bs = Some x" if "(length bs + 1) * R \<le> n" for n
    using program_decodes [OF assms order_refl that, where strict = strict] x(1) by auto
  with x(2) show ?thesis by blast
qed

lemma test_items:
  "item_types test_program ''CRecB'' = [RString, RVec (RUser ''CRecB'')]"
  "item_types test_program ''CRecC'' = [RString, RStringMap (RUser ''CRecC'')]"
  "item_types test_program ''ERecD'' = [RString, RI32, RU8, RVec (RUser ''ERecD'')]"
  by (simp_all add: item_types_def test_program_def live_fields_def crecb_struct_def crecc_struct_def erecd_enum_def)

lemma test_item_names: "item_types test_program name = [] \<or> name \<in> {''CRecB'', ''CRecC'', ''ERecD''}"
  by (auto simp: item_types_def test_program_def)

lemma test_program_closed: "program_closed test_program"
proof -
  have "pg_items test_program n \<noteq> None" if "t \<in> set (item_types test_program name)" "n \<in> mentions t" for name t n
    using test_item_names [of name] that by (auto simp: test_items)
  then show ?thesis by (simp add: program_closed_def)
qed

lemma test_program_guarded: "guarded test_program (\<lambda>_. 0) 1"
proof -
  have "bare t = {}" if "t \<in> set (item_types test_program name)" for name t
    using test_item_names [of name] that by (auto simp: test_items)
  then show ?thesis by (auto simp: guarded_def)
qed

theorem recursive_types_return_witness:
  "\<exists>x. x \<noteq> Panic \<and> from_slice (type_de test_program False (user_de test_program False 7) (RUser ''ERecD''))
     [1, 11, 255, 255, 255, 127] = Some x"
  using recursive_types_return [OF test_program_accepted test_program_closed test_program_guarded,
      of "RUser ''ERecD''" "[1, 11, 255, 255, 255, 127]" False] by auto

subsection \<open>Any reader\<close>

text \<open>
  C3. Every type of a program is read the same from every lawful reader: \<open>from_reader\<close> gives
  what \<open>from_slice\<close> gives on the bytes that the reader still has, errors included, however
  small the pieces are that it delivers. The types are those of \<open>rust_type\<close>: \<open>bool\<close>, integers,
  \<open>String\<close>, \<open>Option\<close>, \<open>Result\<close>, \<open>Box\<close>, \<open>Vec\<close>, arrays, pairs, \<open>BTreeMap\<close> with strings as keys,
  and derived structs and enums, nested in any way.
\<close>

theorem types_from_any_reader:
  assumes "program_accepted P" and "lawful_reader R invar rest" and "invar r"
  shows "map_option fst (from_reader R (type_de P strict (user_de P strict n) t) r) =
    from_slice (type_de P strict (user_de P strict n) t) (rest r)"
  using assms by (rule program_from_reader)

text \<open>\<open>CRecB\<close> from a reader that delivers half of what is asked for, and starts after the first byte.\<close>

theorem types_from_any_reader_witness:
  "map_option fst (from_reader (provided_reader half_read)
      (type_de test_program False (user_de test_program False 7) (RUser ''CRecB''))
      \<lparr>data = 9 # crecb_three_bytes, read_index = 1\<rparr>) = Some (Ok crecb_three)"
proof -
  have "reader_invar \<lparr>data = 9 # crecb_three_bytes, read_index = 1\<rparr>" by (simp add: reader_invar_def)
  moreover have "remaining \<lparr>data = 9 # crecb_three_bytes, read_index = 1\<rparr> = crecb_three_bytes" by (simp add: remaining_def)
  moreover have "from_slice (type_de test_program False (user_de test_program False 7) (RUser ''CRecB'')) crecb_three_bytes =
      Some (Ok crecb_three)"
    using program_round_trip(2) [OF test_program_accepted _ crecb_three_ok, of 7 False]
    by (simp add: crecb_three_enc crecb_three_bytes_def del: type_enc.simps)
  ultimately show ?thesis using types_from_any_reader [OF test_program_accepted half_R.lawful_reader_axioms] by metis
qed

end
