(* ===== verification/Rust_Schemas.thy ===== *)
theory Rust_Schemas
  imports Rust_Termination Derive_Composition
begin

section \<open>Schemas of recursive types\<close>

text \<open>
  The schemas of a program with derived types. A derived schema adds its definition before
  those of its fields, and skips the fields when its name is in the table already
  (\<open>no_recursion_flag\<close>), so the schema of a recursive type is finite. As for the codec, the
  implementation of a derived type is built level by level, from an arbitrary one below
  level 0; with more levels than there are names of derived structs, what is below is never
  reached.
\<close>

subsection \<open>The schemas of the types of a program\<close>

fun type_schema :: "(string \<Rightarrow> BorshSchema) \<Rightarrow> rust_type \<Rightarrow> BorshSchema" where
  "type_schema S RBool = bool_schema"
| "type_schema S RU8 = u8_schema"
| "type_schema S RI32 = primitive_schema ''i32'' 4"
| "type_schema S RU32 = u32_schema"
| "type_schema S RU64 = u64_schema"
| "type_schema S RString = transparent_schema str_schema"
| "type_schema S (ROption t) = option_schema (type_schema S t)"
| "type_schema S (RResult t e) = result_schema (type_schema S t) (type_schema S e)"
| "type_schema S (RBox t) = transparent_schema (type_schema S t)"
| "type_schema S (RVec t) = collection_schema ''Vec'' (type_schema S t)"
| "type_schema S (RArray N t) = array_schema N (type_schema S t)"
| "type_schema S (RPair t t') = tuple_schema [type_schema S t, type_schema S t']"
| "type_schema S (RStringMap t) = btree_map_schema (transparent_schema str_schema) (type_schema S t)"
| "type_schema S (RUser name) = S name"

text \<open>An implementation that is not there: no code, so no behaviour.\<close>

definition no_schema :: "(string \<Rightarrow> Declaration) \<Rightarrow> string \<Rightarrow> BorshSchema" where
  "no_schema N name = \<lparr>declaration_of = N name, add_definitions_recursively = refused\<rparr>"

definition type_declaration :: "(string \<Rightarrow> Declaration) \<Rightarrow> rust_type \<Rightarrow> Declaration" where
  "type_declaration N t = declaration_of (type_schema (no_schema N) t)"

text \<open>What the schema code of an item finds for its fields, and the implementation of the item.\<close>

definition item_env :: "rust_program \<Rightarrow> (string \<Rightarrow> BorshSchema) \<Rightarrow> string \<Rightarrow> schema_env" where
  "item_env P S name = \<lparr>env_type = (\<lambda>t. type_schema S (pg_resolve P name t)),
     env_declaration = (\<lambda>_. []), env_definitions = (\<lambda>_. refused)\<rparr>"

definition item_schema :: "rust_program \<Rightarrow> (string \<Rightarrow> Declaration) \<Rightarrow> (string \<Rightarrow> BorshSchema) \<Rightarrow> string \<Rightarrow> BorshSchema" where
  "item_schema P N S name =
     (case (case pg_items P name of
         Some (DerivedStruct s) \<Rightarrow>
           (case schema_struct_process (pg_literals P) (pg_tokens P) (pg_cratename P) s of
               Ok code \<Rightarrow> schema_struct_exec (item_env P S name) code
             | _ \<Rightarrow> None)
       | Some (DerivedEnum e) \<Rightarrow>
           (case schema_enum_process (pg_literals P) (pg_tokens P) (pg_cratename P) e of
               Ok code \<Rightarrow> schema_enum_exec (pg_literals P) (pg_tokens P) (pg_cratename P) (item_env P S name)
                 (type_params (en_generics e)) code
             | _ \<Rightarrow> None)
       | None \<Rightarrow> None) of
       Some B \<Rightarrow> B
     | None \<Rightarrow> no_schema N name)"

primrec user_schema ::
  "rust_program \<Rightarrow> (string \<Rightarrow> Declaration) \<Rightarrow> (string \<Rightarrow> BorshSchema) \<Rightarrow> nat \<Rightarrow> string \<Rightarrow> BorshSchema" where
  "user_schema P N base 0 = base"
| "user_schema P N base (Suc n) = item_schema P N (user_schema P N base n)"

subsection \<open>Programs that derive schemas\<close>

text \<open>
  \<open>N\<close> has the declarations of the derived types and \<open>X\<close> the names of the structs of the
  schema: those of the derived structs and those of the variants of derived enums. The
  macros accept the items, and the fields have no schema functions of their own.
\<close>

definition plain_schema_fields :: "rust_program \<Rightarrow> syn_fields \<Rightarrow> bool" where
  "plain_schema_fields P flds \<longleftrightarrow> fields_wf flds \<and> (\<forall>f\<in>set (kept_fields (pg_literals P) (fields_list flds)).
     schema_declaration (attrs_of (pg_literals P) f) = None \<and> schema_definitions (attrs_of (pg_literals P) f) = None)"

definition declared_as :: "rust_program \<Rightarrow> (string \<Rightarrow> Declaration) \<Rightarrow> string \<Rightarrow> string \<Rightarrow> ty list \<Rightarrow> Declaration" where
  "declared_as P N name ident params = derived_declaration ident (List.map (\<lambda>t. type_declaration N (pg_resolve P name t)) params)"

definition struct_schema_accepted :: "rust_program \<Rightarrow> (string \<Rightarrow> Declaration) \<Rightarrow> Declaration set \<Rightarrow> string \<Rightarrow> item_struct \<Rightarrow> bool" where
  "struct_schema_accepted P N X name s \<longleftrightarrow> plain_schema_fields P (st_fields s) \<and> N name \<in> X \<and>
     (\<exists>code. schema_struct_process (pg_literals P) (pg_tokens P) (pg_cratename P) s = Ok code \<and>
        declared_as P N name (st_ident s) (snd (sc_declaration code)) = N name)"

definition variant_struct_names :: "rust_program \<Rightarrow> (string \<Rightarrow> Declaration) \<Rightarrow> string \<Rightarrow> item_enum \<Rightarrow> Declaration list" where
  "variant_struct_names P N name e = List.map (\<lambda>x.
     declaration_of (variant_schema (en_ident e)
       (variant_of (pg_literals P) (pg_tokens P) (pg_cratename P) (item_env P (no_schema N) name) e (uses_discriminant e) x)))
     (List.enumerate 0 (en_variants e))"

definition enum_schema_accepted :: "rust_program \<Rightarrow> (string \<Rightarrow> Declaration) \<Rightarrow> Declaration set \<Rightarrow> string \<Rightarrow> item_enum \<Rightarrow> bool" where
  "enum_schema_accepted P N X name e \<longleftrightarrow> (\<forall>v\<in>set (en_variants e). plain_schema_fields P (var_fields v)) \<and>
     set (variant_struct_names P N name e) \<subseteq> X \<and> variants_scoped e \<and>
     contains_use_discriminant e = Ok (uses_discriminant e) \<and>
     (uses_discriminant e \<longrightarrow> discriminants_accepted (en_variants e)) \<and>
     (\<exists>code. schema_enum_process (pg_literals P) (pg_tokens P) (pg_cratename P) e = Ok code \<and>
        declared_as P N name (en_ident e) (snd (sec_declaration code)) = N name)"

definition schemas_accepted :: "rust_program \<Rightarrow> (string \<Rightarrow> Declaration) \<Rightarrow> Declaration set \<Rightarrow> bool" where
  "schemas_accepted P N X \<longleftrightarrow> finite X \<and> (\<forall>name. case pg_items P name of
      Some (DerivedStruct s) \<Rightarrow> struct_schema_accepted P N X name s
    | Some (DerivedEnum e) \<Rightarrow> enum_schema_accepted P N X name e
    | None \<Rightarrow> True)"

subsection \<open>Declarations\<close>

lemma type_schema_declaration:
  "(\<And>name. declaration_of (S name) = N name) \<Longrightarrow> declaration_of (type_schema S t) = type_declaration N t"
  unfolding type_declaration_def
  by (induction t) (simp_all add: option_schema_def result_schema_def transparent_schema_def collection_schema_def
      array_schema_def tuple_schema_def btree_map_schema_def map_schema_def no_schema_def Let_def)

lemma env_declarations:
  "(\<And>n. declaration_of (S n) = N n) \<Longrightarrow> declaration_of (env_type (item_env P S name) t) = type_declaration N (pg_resolve P name t)"
  by (simp add: item_env_def type_schema_declaration)

lemma schema_accepted_cases:
  assumes "schemas_accepted P N X"
  obtains "pg_items P name = None"
    | s where "pg_items P name = Some (DerivedStruct s)" and "struct_schema_accepted P N X name s"
    | e where "pg_items P name = Some (DerivedEnum e)" and "enum_schema_accepted P N X name e"
  using assms unfolding schemas_accepted_def by (cases "pg_items P name") (auto split: derived_item.splits dest: spec [of _ name])

lemma struct_schema_is:
  assumes "pg_items P name = Some (DerivedStruct s)" and "struct_schema_accepted P N X name s"
    and "\<And>n. declaration_of (S n) = N n"
  shows "\<exists>params. item_schema P N S name = derived_struct_schema (st_ident s) params (item_of (pg_literals P) (item_env P S name) (st_fields s)) \<and>
    derived_declaration (st_ident s) params = N name"
proof -
  from assms(2) obtain code where code: "schema_struct_process (pg_literals P) (pg_tokens P) (pg_cratename P) s = Ok code"
    and name: "declared_as P N name (st_ident s) (snd (sc_declaration code)) = N name" and wf: "fields_wf (st_fields s)"
    by (auto simp: struct_schema_accepted_def plain_schema_fields_def)
  from struct_code_is [OF code wf, of "item_env P S name"] name show ?thesis
    by (auto simp: item_schema_def assms(1) code declared_as_def env_declarations [OF assms(3)])
qed

lemma enum_schema_is:
  assumes "pg_items P name = Some (DerivedEnum e)" and "enum_schema_accepted P N X name e"
    and "\<And>n. declaration_of (S n) = N n"
  shows "\<exists>params. item_schema P N S name = derived_enum_schema (en_ident e) params (List.map
      (variant_of (pg_literals P) (pg_tokens P) (pg_cratename P) (item_env P S name) e (uses_discriminant e)) (List.enumerate 0 (en_variants e))) \<and>
    derived_declaration (en_ident e) params = N name"
proof -
  from assms(2) obtain code where code: "schema_enum_process (pg_literals P) (pg_tokens P) (pg_cratename P) e = Ok code"
    and name: "declared_as P N name (en_ident e) (snd (sec_declaration code)) = N name"
    and u: "contains_use_discriminant e = Ok (uses_discriminant e)" "uses_discriminant e \<longrightarrow> discriminants_accepted (en_variants e)"
    and v: "\<forall>v\<in>set (en_variants e). fields_wf (var_fields v)" "variants_scoped e"
    by (auto simp: enum_schema_accepted_def plain_schema_fields_def)
  from enum_code_is [OF code u v, of "item_env P S name"] name show ?thesis
    by (auto simp: item_schema_def assms(1) code declared_as_def env_declarations [OF assms(3)])
qed

lemma item_schema_declaration:
  assumes "schemas_accepted P N X" and "\<And>n. declaration_of (S n) = N n"
  shows "declaration_of (item_schema P N S name) = N name"
proof (rule schema_accepted_cases [OF assms(1), of name])
  assume "pg_items P name = None"
  then show ?thesis by (simp add: item_schema_def no_schema_def)
next
  fix s assume "pg_items P name = Some (DerivedStruct s)" "struct_schema_accepted P N X name s"
  from struct_schema_is [OF this assms(2)] show ?thesis by (auto simp: derived_struct_schema_def Let_def)
next
  fix e assume "pg_items P name = Some (DerivedEnum e)" "enum_schema_accepted P N X name e"
  from enum_schema_is [OF this assms(2)] show ?thesis by (auto simp: derived_enum_schema_def Let_def)
qed

lemma user_schema_declaration:
  assumes "schemas_accepted P N X" and "\<And>n. declaration_of (base n) = N n"
  shows "declaration_of (user_schema P N base n name) = N name"
proof (induction n arbitrary: name)
  case (Suc n)
  then show ?case by (simp add: item_schema_declaration [OF assms(1)])
qed (simp add: assms(2))

subsection \<open>Laws of every level\<close>

lemma closed_field:
  assumes "program_closed P"
  shows "pg_items P name = Some (DerivedStruct s) \<Longrightarrow> f \<in> set (kept_fields (pg_literals P) (fields_list (st_fields s))) \<Longrightarrow>
      n \<in> mentions (pg_resolve P name (fld_ty f)) \<Longrightarrow> pg_items P n \<noteq> None"
    and "pg_items P name = Some (DerivedEnum e) \<Longrightarrow> v \<in> set (en_variants e) \<Longrightarrow>
      f \<in> set (kept_fields (pg_literals P) (fields_list (var_fields v))) \<Longrightarrow>
      n \<in> mentions (pg_resolve P name (fld_ty f)) \<Longrightarrow> pg_items P n \<noteq> None"
  using assms unfolding program_closed_def item_types_def kept_fields_def live_fields_def
  by (fastforce dest!: spec [of _ name])+

lemma type_schema_impl: "(\<And>name. name \<in> mentions t \<Longrightarrow> schema_impl (S name)) \<Longrightarrow> schema_impl (type_schema S t)"
proof (induction t)
  case (RPair t t')
  then show ?case by (simp add: tuple_schema_impl)
next
  case (RStringMap t)
  then show ?case by (simp add: btree_map_schema_def map_schema_impl transparent_schema_impl str_schema_impl)
qed (simp_all add: known_schema_impls primitive_schema_impl transparent_schema_impl str_schema_impl option_schema_impl
    result_schema_impl collection_schema_impl array_schema_impl)

lemma plain_field_schema:
  assumes "plain_schema_fields P flds" and "f \<in> set (kept_fields (pg_literals P) (fields_list flds))"
  shows "field_declaration (schema_field_of (pg_literals P) E f) = declaration_of (env_type E (fld_ty f))"
    and "field_definitions (schema_field_of (pg_literals P) E f) = add_definitions_recursively (env_type E (fld_ty f))"
  using assms by (simp_all add: plain_schema_fields_def field_declaration_def field_definitions_def schema_field_of_def)

lemma item_struct_impl:
  assumes "plain_schema_fields P flds"
    and "\<And>f. f \<in> set (kept_fields (pg_literals P) (fields_list flds)) \<Longrightarrow> schema_impl (env_type E (fld_ty f))"
  shows "schema_impl (derived_struct_schema ident params (item_of (pg_literals P) E flds))"
proof (rule derived_struct_schema_impl)
  have "field_lawful (schema_field_of (pg_literals P) E f)" if "f \<in> set (kept_fields (pg_literals P) (fields_list flds))" for f
    unfolding field_lawful_def plain_field_schema [OF assms(1) that]
    using schema_impl.adds_impl [OF assms(2) [OF that]] schema_impl.stable_impl [OF assms(2) [OF that]] by blast
  then show "\<forall>f\<in>set (snd (process_fields (item_of (pg_literals P) E flds))). field_lawful f" by (simp add: item_refs(2))
qed

lemma env_impl:
  "(\<And>n. n \<in> mentions (pg_resolve P name t) \<Longrightarrow> schema_impl (S n)) \<Longrightarrow> schema_impl (env_type (item_env P S name) t)"
  by (simp add: item_env_def type_schema_impl)

text \<open>The implementations of the variants of an enum.\<close>

definition item_variants :: "rust_program \<Rightarrow> (string \<Rightarrow> BorshSchema) \<Rightarrow> string \<Rightarrow> item_enum \<Rightarrow> schema_variant list" where
  "item_variants P S name e = List.map
     (variant_of (pg_literals P) (pg_tokens P) (pg_cratename P) (item_env P S name) e (uses_discriminant e))
     (List.enumerate 0 (en_variants e))"

lemma item_variant:
  assumes "v \<in> set (item_variants P S name e)"
  obtains w where "w \<in> set (en_variants e)"
    and "variant_fields v = item_of (pg_literals P) (item_env P S name) (var_fields w)"
proof -
  from assms obtain x where x: "x \<in> set (List.enumerate 0 (en_variants e))"
    and v: "v = variant_of (pg_literals P) (pg_tokens P) (pg_cratename P) (item_env P S name) e (uses_discriminant e) x"
    unfolding item_variants_def by (auto simp del: split_paired_All)
  from that [of "snd x"] enumerated [OF x] show thesis by (simp add: v variant_of_def)
qed

lemma item_schema_impl:
  assumes acc: "schemas_accepted P N X" and closed: "program_closed P"
    and S: "\<And>n. pg_items P n \<noteq> None \<Longrightarrow> schema_impl (S n)" "\<And>n. declaration_of (S n) = N n" and item: "pg_items P name \<noteq> None"
  shows "schema_impl (item_schema P N S name)"
proof (rule schema_accepted_cases [OF acc, of name])
  fix s assume i: "pg_items P name = Some (DerivedStruct s)" "struct_schema_accepted P N X name s"
  then have p: "plain_schema_fields P (st_fields s)" by (simp add: struct_schema_accepted_def)
  from struct_schema_is [OF i S(2)] obtain params where
    r: "item_schema P N S name = derived_struct_schema (st_ident s) params (item_of (pg_literals P) (item_env P S name) (st_fields s))"
    by blast
  show ?thesis unfolding r
    by (rule item_struct_impl [OF p env_impl [OF S(1)]]) (rule closed_field(1) [OF closed i(1)])
next
  fix e assume i: "pg_items P name = Some (DerivedEnum e)" "enum_schema_accepted P N X name e"
  have "schema_impl (variant_schema (en_ident e) v)" if v: "v \<in> set (item_variants P S name e)" for v
  proof -
    from item_variant [OF v] obtain w where x: "w \<in> set (en_variants e)"
      and flds: "variant_fields v = item_of (pg_literals P) (item_env P S name) (var_fields w)" .
    have p: "plain_schema_fields P (var_fields w)" using i(2) x by (simp add: enum_schema_accepted_def)
    show ?thesis unfolding variant_schema_def flds
      by (rule item_struct_impl [OF p env_impl [OF S(1)]]) (rule closed_field(2) [OF closed i(1) x])
  qed
  moreover from enum_schema_is [OF i S(2)] obtain params where
    "item_schema P N S name = derived_enum_schema (en_ident e) params (item_variants P S name e)"
    unfolding item_variants_def by blast
  ultimately show ?thesis by (simp add: derived_enum_schema_impl)
qed (use item in simp)

lemma user_schema_impl:
  assumes "schemas_accepted P N X" and "program_closed P" and "\<And>n. schema_impl (base n)" and "\<And>n. declaration_of (base n) = N n"
  shows "pg_items P name \<noteq> None \<Longrightarrow> schema_impl (user_schema P N base n name)"
proof (induction n arbitrary: name)
  case (Suc n)
  then show ?case
    using item_schema_impl [OF assms(1,2), of "user_schema P N base n"] user_schema_declaration [OF assms(1) assms(4)] by simp
qed (simp add: assms(3))

subsection \<open>Implementations that agree on full tables\<close>

text \<open>\<open>l\<close> and \<open>m\<close> do the same to every table in which fewer than \<open>n\<close> of the names \<open>X\<close> are missing.\<close>

definition missing :: "Declaration set \<Rightarrow> definitions \<Rightarrow> nat" where
  "missing X d = card (X - dom (map_of d))"

definition agrees :: "Declaration set \<Rightarrow> nat \<Rightarrow> add_effect \<Rightarrow> add_effect \<Rightarrow> bool" where
  "agrees X n l m \<longleftrightarrow> (\<forall>d. ordered d \<longrightarrow> missing X d < n \<longrightarrow> m d = l d)"

definition schemas_agree :: "Declaration set \<Rightarrow> nat \<Rightarrow> BorshSchema \<Rightarrow> BorshSchema \<Rightarrow> bool" where
  "schemas_agree X n L M \<longleftrightarrow> schema_impl L \<and> declaration_of M = declaration_of L \<and>
     agrees X n (add_definitions_recursively L) (add_definitions_recursively M)"

lemma missing_grows: "finite X \<Longrightarrow> grows d d' \<Longrightarrow> missing X d' \<le> missing X d"
  unfolding missing_def by (intro card_mono) (auto dest: grows_dom)

text \<open>A new name makes the table fuller.\<close>

lemma missing_new:
  assumes "finite X" and "grows d d'" and "k \<in> X" and "k \<in> dom (map_of d')" and "map_of d k = None"
  shows "missing X d' < missing X d"
  unfolding missing_def using assms grows_dom [OF assms(2)] by (intro psubset_card_mono) auto

lemma agrees_refl: "agrees X n l l"
  by (simp add: agrees_def)

lemma agrees_then:
  assumes "finite X" and "adds l R Q" and "agrees X n l m" and "agrees X n l' m'"
  shows "agrees X n (and_then l (\<lambda>_. l')) (and_then m (\<lambda>_. m'))"
  unfolding agrees_def
proof (intro allI impI)
  fix d assume d: "ordered d" "missing X d < n"
  with assms(3) have "m d = l d" by (simp add: agrees_def)
  moreover have "m' d1 = l' d1" if "l d = Some (Ok (), d1)" for d1
  proof -
    have "grows d d1" using adds_Ok [OF assms(2) d(1) that] by blast
    then have "ordered d1" and "missing X d1 < n" using missing_grows [OF assms(1)] d(2) by (fastforce simp: grows_def)+
    with assms(4) show ?thesis by (simp add: agrees_def)
  qed
  ultimately show "and_then m (\<lambda>_. m') d = and_then l (\<lambda>_. l') d"
    by (auto simp: and_then_def split: option.split prod.split outcome.split)
qed

lemma agrees_each:
  assumes "finite X" and "\<And>x. x \<in> set xs \<Longrightarrow> adds (f x) (R x) {}" and "\<And>x. x \<in> set xs \<Longrightarrow> agrees X n (f x) (g x)"
  shows "agrees X n (for_each f xs) (for_each g xs)"
  using assms(2,3)
proof (induction xs)
  case (Cons x xs)
  then have "agrees X n (for_each f xs) (for_each g xs)" by simp
  with Cons.prems show ?case by (auto intro!: agrees_then [OF assms(1), where R = "R x"])
qed (simp add: agrees_refl)

lemma agrees_entry:
  "finite X \<Longrightarrow> agrees X n k k' \<Longrightarrow>
   agrees X n (and_then (add_definition self def) (\<lambda>_. k)) (and_then (add_definition self def) (\<lambda>_. k'))"
  by (rule agrees_then [OF _ adds_definition agrees_refl])

lemma schemas_agree_refl: "schema_impl L \<Longrightarrow> schemas_agree X n L L"
  by (simp add: schemas_agree_def agrees_refl)

lemma schemas_agreeD:
  assumes "schemas_agree X n L M"
  shows "schema_impl L" "declaration_of M = declaration_of L"
    "agrees X n (add_definitions_recursively L) (add_definitions_recursively M)"
    "adds (add_definitions_recursively L) {declaration_of L} {}"
  using assms by (simp_all add: schemas_agree_def schema_impl.adds_impl)

text \<open>The implementations of the library agree when those of their arguments do.\<close>

lemma agree_transparent: "schemas_agree X n A A' \<Longrightarrow> schemas_agree X n (transparent_schema A) (transparent_schema A')"
  by (simp add: schemas_agree_def transparent_schema_impl) (simp add: transparent_schema_def)

lemma agree_option:
  assumes "finite X" and "schemas_agree X n A A'"
  shows "schemas_agree X n (option_schema A) (option_schema A')"
  unfolding schemas_agree_def using schemas_agreeD [OF assms(2)]
  by (simp add: option_schema_impl)
    (simp add: option_schema_def Let_def agrees_entry [OF assms(1)] agrees_then [OF assms(1)] agrees_refl)

lemma agree_result:
  assumes "finite X" and "schemas_agree X n A A'" and "schemas_agree X n B B'"
  shows "schemas_agree X n (result_schema A B) (result_schema A' B')"
  unfolding schemas_agree_def using schemas_agreeD [OF assms(2)] schemas_agreeD [OF assms(3)]
  by (simp add: result_schema_impl)
    (simp add: result_schema_def Let_def agrees_entry [OF assms(1)] agrees_then [OF assms(1)])

lemma agree_collection:
  assumes "finite X" and "schemas_agree X n A A'"
  shows "schemas_agree X n (collection_schema c A) (collection_schema c A')"
  unfolding schemas_agree_def using schemas_agreeD [OF assms(2)]
  by (simp add: collection_schema_impl) (simp add: collection_schema_def Let_def agrees_entry [OF assms(1)])

lemma agree_array:
  assumes "finite X" and "schemas_agree X n A A'"
  shows "schemas_agree X n (array_schema N A) (array_schema N A')"
proof -
  have g: "adds (if N < 2 ^ 64 then ret () else panic) {} {}" by (simp add: adds_ret adds_panic)
  show ?thesis
    unfolding schemas_agree_def using schemas_agreeD [OF assms(2)]
    by (simp add: array_schema_impl)
      (simp add: array_schema_def Let_def agrees_then [OF assms(1) g] agrees_refl agrees_entry [OF assms(1)])
qed

lemma agree_pair:
  assumes "finite X" and "schemas_agree X n A A'" and "schemas_agree X n B B'"
  shows "schemas_agree X n (tuple_schema [A, B]) (tuple_schema [A', B'])"
  unfolding schemas_agree_def using schemas_agreeD [OF assms(2)] schemas_agreeD [OF assms(3)]
  by (simp add: tuple_schema_impl)
    (simp add: tuple_schema_def Let_def add_all_def agrees_entry [OF assms(1)] agrees_then [OF assms(1)] agrees_refl)

lemma agree_map:
  assumes "finite X" and "schemas_agree X n A A'" and "schemas_agree X n B B'"
  shows "schemas_agree X n (btree_map_schema A B) (btree_map_schema A' B')"
  unfolding schemas_agree_def btree_map_schema_def
  using schemas_agreeD [OF agree_pair [OF assms]] schemas_agreeD [OF assms(2)] schemas_agreeD [OF assms(3)]
  by (simp add: map_schema_impl) (simp add: map_schema_def Let_def agrees_entry [OF assms(1)])

lemma agree_type:
  assumes "finite X" and "\<And>name. name \<in> mentions t \<Longrightarrow> schemas_agree X n (S name) (S' name)"
  shows "schemas_agree X n (type_schema S t) (type_schema S' t)"
  using assms(2)
proof (induction t)
  case (RStringMap t)
  then show ?case
    by (simp add: agree_map [OF assms(1)] agree_transparent schemas_agree_refl str_schema_impl)
qed (simp_all add: schemas_agree_refl known_schema_impls primitive_schema_impl transparent_schema_impl str_schema_impl
    agree_transparent agree_option [OF assms(1)] agree_result [OF assms(1)] agree_collection [OF assms(1)]
    agree_array [OF assms(1)] agree_pair [OF assms(1)])

lemma for_each_map: "for_each f (List.map g xs) = for_each (\<lambda>x. f (g x)) xs"
  by (induction xs) simp_all

text \<open>
  A derived struct whose name is new fills the table by one name before its fields are
  visited, and one whose name is there does not visit them.
\<close>

lemma struct_definition_same:
  assumes "\<And>f. f \<in> set (kept_fields L (fields_list flds)) \<Longrightarrow>
    field_declaration (schema_field_of L E' f) = field_declaration (schema_field_of L E f)"
  shows "fst (process_fields (item_of L E' flds)) = fst (process_fields (item_of L E flds))"
  using assms by (cases flds) (simp_all add: Let_def kept_filter comp_def schema_field_of_def)

lemma agree_struct:
  assumes X: "finite X" "derived_declaration ident params \<in> X" and p: "plain_schema_fields P flds"
    and a: "\<And>f. f \<in> set (kept_fields (pg_literals P) (fields_list flds)) \<Longrightarrow>
      schemas_agree X n (env_type E (fld_ty f)) (env_type E' (fld_ty f))"
  shows "schemas_agree X (Suc n) (derived_struct_schema ident params (item_of (pg_literals P) E flds))
    (derived_struct_schema ident params (item_of (pg_literals P) E' flds))"
proof -
  let ?L = "pg_literals P" and ?self = "derived_declaration ident params"
  let ?fs = "kept_fields ?L (fields_list flds)" and ?def = "Struct (fst (process_fields (item_of ?L E flds)))"
  let ?k = "for_each field_definitions (List.map (schema_field_of ?L E) ?fs)"
  let ?k' = "for_each field_definitions (List.map (schema_field_of ?L E') ?fs)"
  note f = plain_field_schema [OF p]
  have def: "fst (process_fields (item_of ?L E' flds)) = fst (process_fields (item_of ?L E flds))"
    by (rule struct_definition_same) (simp add: f schemas_agreeD(2) [OF a])
  have k: "agrees X n ?k ?k'"
    unfolding for_each_map
  proof (rule agrees_each [OF X(1)])
    fix g assume g: "g \<in> set ?fs"
    show "adds (field_definitions (schema_field_of ?L E g)) {declaration_of (env_type E (fld_ty g))} {}"
      unfolding f(2) [OF g] by (rule schemas_agreeD(4) [OF a [OF g]])
    show "agrees X n (field_definitions (schema_field_of ?L E g)) (field_definitions (schema_field_of ?L E' g))"
      unfolding f(2) [OF g] by (rule schemas_agreeD(3) [OF a [OF g]])
  qed
  have impl: "schema_impl (derived_struct_schema ident params (item_of ?L E flds))"
    by (rule item_struct_impl [OF p]) (rule schemas_agreeD(1) [OF a])
  have "agrees X (Suc n) (add_definitions_recursively (derived_struct_schema ident params (item_of ?L E flds)))
      (add_definitions_recursively (derived_struct_schema ident params (item_of ?L E' flds)))"
    unfolding agrees_def
  proof (intro allI impI)
    fix d assume d: "ordered d" "missing X d < Suc n"
    have "?k' d1 = ?k d1" if "map_of d ?self = None" and "add_definition ?self ?def d = Some (Ok (), d1)" for d1
    proof -
      from adds_Ok [OF adds_definition d(1) that(2)] have "grows d d1" and "?self \<in> dom (map_of d1)" by auto
      with missing_new [OF X(1) this(1) X(2) this(2) that(1)] d(2) have "ordered d1" and "missing X d1 < n" by (auto simp: grows_def)
      with k show ?thesis by (simp add: agrees_def)
    qed
    then show "add_definitions_recursively (derived_struct_schema ident params (item_of ?L E' flds)) d =
        add_definitions_recursively (derived_struct_schema ident params (item_of ?L E flds)) d"
      by (auto simp: derived_struct_schema_def Let_def def item_refs(2) and_then_def split: option.split prod.split outcome.split)
  qed
  with impl show ?thesis by (simp add: schemas_agree_def) (simp add: derived_struct_schema_def Let_def)
qed

text \<open>A derived enum visits the structs of its variants and adds its definition.\<close>

lemma variant_schema_of:
  "variant_schema ident (variant_of L tokens cr E e u x) =
     derived_struct_schema (ident @ var_ident (snd x)) (variant_params (variant_of L tokens cr E e u x)) (item_of L E (var_fields (snd x)))"
  by (simp add: variant_schema_def variant_of_def)

lemma variant_of_params:
  assumes "\<And>n. declaration_of (S n) = N n" and "\<And>n. declaration_of (S' n) = N n"
  shows "variant_params (variant_of L tokens cr (item_env P S' name) e u x) = variant_params (variant_of L tokens cr (item_env P S name) e u x)"
  using env_declarations [of S N] env_declarations [of S' N] assms by (simp add: variant_of_def split: outcome.split)

lemma no_schema_declaration: "declaration_of (no_schema N n) = N n"
  by (simp add: no_schema_def)

lemma variant_struct_name:
  assumes "enum_schema_accepted P N X name e" and "\<And>n. declaration_of (S n) = N n" and "x \<in> set (List.enumerate 0 (en_variants e))"
  shows "derived_declaration (en_ident e @ var_ident (snd x))
    (variant_params (variant_of (pg_literals P) (pg_tokens P) (pg_cratename P) (item_env P S name) e (uses_discriminant e) x)) \<in> X"
proof -
  have "declaration_of (variant_schema (en_ident e) (variant_of (pg_literals P) (pg_tokens P) (pg_cratename P)
      (item_env P (no_schema N) name) e (uses_discriminant e) x)) \<in> X"
    using assms(1,3) unfolding enum_schema_accepted_def variant_struct_names_def by (simp add: subset_iff image_iff) blast
  then show ?thesis
    unfolding variant_schema_of variant_of_params [of S N "no_schema N", OF assms(2) no_schema_declaration]
    by (simp add: derived_struct_schema_def Let_def)
qed

lemma agree_enum:
  assumes X: "finite X" and each: "\<And>x. x \<in> set xs \<Longrightarrow> schemas_agree X n (variant_schema ident (w x)) (variant_schema ident (w' x))"
    and same: "\<And>x. variant_name (w' x) = variant_name (w x)" "\<And>x. variant_discriminant (w' x) = variant_discriminant (w x)"
  shows "schemas_agree X n (derived_enum_schema ident params (List.map w xs)) (derived_enum_schema ident params (List.map w' xs))"
proof -
  let ?self = "derived_declaration ident params"
  let ?def = "\<lambda>w. Enum 1 (List.map (\<lambda>v. (ucast (variant_discriminant v), variant_name v, declaration_of (variant_schema ident v))) (List.map w xs))"
  have impls: "\<forall>v\<in>set (List.map w xs). schema_impl (variant_schema ident v)" using schemas_agreeD(1) [OF each] by auto
  have "agrees X n (for_each (\<lambda>x. add_definitions_recursively (variant_schema ident (w x))) xs)
      (for_each (\<lambda>x. add_definitions_recursively (variant_schema ident (w' x))) xs)"
    by (rule agrees_each [OF X]) (erule schemas_agreeD [OF each])+
  then have all: "agrees X n (add_all (List.map (variant_schema ident) (List.map w xs))) (add_all (List.map (variant_schema ident) (List.map w' xs)))"
    by (simp add: add_all_def for_each_map)
  have def: "?def w' = ?def w" using same schemas_agreeD(2) [OF each] by simp
  have "agrees X n (and_then (add_all (List.map (variant_schema ident) (List.map w xs))) (\<lambda>_. add_definition ?self (?def w)))
      (and_then (add_all (List.map (variant_schema ident) (List.map w' xs))) (\<lambda>_. add_definition ?self (?def w')))"
    unfolding def by (rule agrees_then [OF X add_all_impl(1) all agrees_refl]) (use impls in simp)
  with derived_enum_schema_impl [OF impls] show ?thesis
    unfolding schemas_agree_def derived_enum_schema_def Let_def by simp
qed

lemma agree_item:
  assumes acc: "schemas_accepted P N X" and closed: "program_closed P"
    and S: "\<And>n. declaration_of (S n) = N n" "\<And>n. declaration_of (S' n) = N n"
    and a: "\<And>n. pg_items P n \<noteq> None \<Longrightarrow> schemas_agree X k (S n) (S' n)" and item: "pg_items P name \<noteq> None"
  shows "schemas_agree X (Suc k) (item_schema P N S name) (item_schema P N S' name)"
proof -
  have X: "finite X" using acc by (simp add: schemas_accepted_def)
  have env: "schemas_agree X k (env_type (item_env P S name) t) (env_type (item_env P S' name) t)"
    if "\<And>n. n \<in> mentions (pg_resolve P name t) \<Longrightarrow> pg_items P n \<noteq> None" for t
    unfolding item_env_def using agree_type [OF X a [OF that]] by simp
  show ?thesis
  proof (rule schema_accepted_cases [OF acc, of name])
    fix s assume i: "pg_items P name = Some (DerivedStruct s)" "struct_schema_accepted P N X name s"
    then have p: "plain_schema_fields P (st_fields s)" "N name \<in> X" by (simp_all add: struct_schema_accepted_def)
    from i(2) obtain code where code: "schema_struct_process (pg_literals P) (pg_tokens P) (pg_cratename P) s = Ok code"
      and name: "declared_as P N name (st_ident s) (snd (sc_declaration code)) = N name"
      by (auto simp: struct_schema_accepted_def)
    have wf: "fields_wf (st_fields s)" using p(1) by (simp add: plain_schema_fields_def)
    let ?params = "List.map (\<lambda>t. type_declaration N (pg_resolve P name t)) (snd (sc_declaration code))"
    have r: "item_schema P N T name = derived_struct_schema (st_ident s) ?params (item_of (pg_literals P) (item_env P T name) (st_fields s))"
      if "\<And>n. declaration_of (T n) = N n" for T
      using struct_code_is [OF code wf, of "item_env P T name"]
      by (simp add: item_schema_def i(1) code env_declarations [OF that])
    show ?thesis
      unfolding r [OF S(1)] r [OF S(2)]
      by (rule agree_struct [OF X _ p(1) env]) (use name p(2) closed_field(1) [OF closed i(1)] in \<open>simp_all add: declared_as_def\<close>)
  next
    fix e assume i: "pg_items P name = Some (DerivedEnum e)" "enum_schema_accepted P N X name e"
    let ?w = "\<lambda>T. variant_of (pg_literals P) (pg_tokens P) (pg_cratename P) (item_env P T name) e (uses_discriminant e)"
    let ?xs = "List.enumerate 0 (en_variants e)"
    from i(2) obtain code where code: "schema_enum_process (pg_literals P) (pg_tokens P) (pg_cratename P) e = Ok code"
      and u: "contains_use_discriminant e = Ok (uses_discriminant e)" "uses_discriminant e \<longrightarrow> discriminants_accepted (en_variants e)"
      and v: "\<forall>v\<in>set (en_variants e). fields_wf (var_fields v)" "variants_scoped e"
      by (auto simp: enum_schema_accepted_def plain_schema_fields_def)
    let ?params = "List.map (\<lambda>t. type_declaration N (pg_resolve P name t)) (snd (sec_declaration code))"
    have r: "item_schema P N T name = derived_enum_schema (en_ident e) ?params (List.map (?w T) ?xs)"
      if "\<And>n. declaration_of (T n) = N n" for T
      using enum_code_is [OF code u v, of "item_env P T name"]
      by (simp add: item_schema_def i(1) code env_declarations [OF that])
    have each: "schemas_agree X (Suc k) (variant_schema (en_ident e) (?w S x)) (variant_schema (en_ident e) (?w S' x))"
      if x: "x \<in> set ?xs" for x
    proof -
      have w: "snd x \<in> set (en_variants e)" using enumerated [OF x] by blast
      then have p: "plain_schema_fields P (var_fields (snd x))" using i(2) by (simp add: enum_schema_accepted_def)
      show ?thesis
        unfolding variant_schema_of variant_of_params [of S N S', OF S]
        by (rule agree_struct [OF X variant_struct_name [OF i(2) S(1) x] p env]) (rule closed_field(2) [OF closed i(1) w])
    qed
    show ?thesis
      unfolding r [OF S(1)] r [OF S(2)] by (rule agree_enum [OF X each]) (simp_all add: variant_of_def)
  qed (use item in simp)
qed

subsection \<open>The schema of a recursive type\<close>

lemma agree_levels:
  assumes "schemas_accepted P N X" and "program_closed P"
    and "\<And>n. schema_impl (base n)" and "\<And>n. declaration_of (base n) = N n" and "\<And>n. declaration_of (base' n) = N n"
  shows "pg_items P name \<noteq> None \<Longrightarrow> schemas_agree X k (user_schema P N base k name) (user_schema P N base' k name)"
proof (induction k arbitrary: name)
  case 0
  then show ?case using assms(3-5) by (simp add: schemas_agree_def agrees_def)
next
  case (Suc k)
  then show ?case
    using agree_item [OF assms(1,2) user_schema_declaration [OF assms(1,4)] user_schema_declaration [OF assms(1,5)]] by simp
qed

lemma user_schema_add: "user_schema P N base (n + k) = user_schema P N (user_schema P N base n) k"
  by (induction k) simp_all

definition panicking :: "(string \<Rightarrow> Declaration) \<Rightarrow> string \<Rightarrow> BorshSchema" where
  "panicking N name = \<lparr>declaration_of = N name, add_definitions_recursively = panic\<rparr>"

lemma panicking_impl: "schema_impl (panicking N n)" "declaration_of (panicking N n) = N n"
  by (simp_all add: panicking_def schema_impl_def adds_panic stable_panic)

text \<open>One level more than there are names is enough, whatever is below.\<close>

lemma enough_levels:
  assumes acc: "schemas_accepted P N X" and closed: "program_closed P" and t: "\<forall>name\<in>mentions t. pg_items P name \<noteq> None"
    and base: "\<forall>m. declaration_of (base m) = N m" and n: "card X < n"
  shows "for_type (type_schema (user_schema P N base n) t) =
    for_type (type_schema (user_schema P N (panicking N) (Suc (card X))) t)"
proof -
  let ?L = "type_schema (user_schema P N (panicking N) (Suc (card X))) t"
  have X: "finite X" using acc by (simp add: schemas_accepted_def)
  from n obtain j where j: "n = j + Suc (card X)" by (metis Suc_leI le_add_diff_inverse2)
  have d: "declaration_of (user_schema P N base j m) = N m" for m
    by (rule user_schema_declaration [OF acc]) (simp add: base)
  have "schemas_agree X (Suc (card X)) ?L (type_schema (user_schema P N base n) t)"
    unfolding j user_schema_add by (rule agree_type [OF X agree_levels [where base = "panicking N", OF acc closed panicking_impl d]]) (use t in blast)
  from schemas_agreeD(2,3) [OF this] have "declaration_of (type_schema (user_schema P N base n) t) = declaration_of ?L"
    and "add_definitions_recursively (type_schema (user_schema P N base n) t) [] = add_definitions_recursively ?L []"
    by (simp_all add: agrees_def ordered_def missing_def del: user_schema.simps)
  then show ?thesis unfolding for_type_def by (simp only:)
qed

lemma top_level_impl:
  assumes acc: "schemas_accepted P N X" and closed: "program_closed P" and t: "\<forall>name\<in>mentions t. pg_items P name \<noteq> None"
  shows "schema_impl (type_schema (user_schema P N (panicking N) n) t)"
    and "declaration_of (type_schema (user_schema P N (panicking N) n) t) = type_declaration N t"
proof -
  show "schema_impl (type_schema (user_schema P N (panicking N) n) t)"
    by (rule type_schema_impl) (rule user_schema_impl [where base = "panicking N", OF acc closed panicking_impl], use t in blast)
  show "declaration_of (type_schema (user_schema P N (panicking N) n) t) = type_declaration N t"
    by (rule type_schema_declaration) (rule user_schema_declaration [where base = "panicking N", OF acc panicking_impl(2)])
qed

end
