(* ===== verification/Rust_Schema_Meaning.thy ===== *)
theory Rust_Schema_Meaning
  imports Rust_Schemas
begin

section \<open>What the schema of a recursive type says of its bytes\<close>

text \<open>
  The fields of a derived struct are visited when its name is put into the table, not later.
  So a table that was built from the empty one has visited the fields of every struct whose
  name it has: visiting them again changes nothing. In such a table the schema of a recursive
  type describes the bytes of its values, by induction on the depth of the value.
\<close>

subsection \<open>Tables at rest\<close>

definition at_rest :: "BorshSchema \<Rightarrow> definitions \<Rightarrow> bool" where
  "at_rest B d \<longleftrightarrow> add_definitions_recursively B d = Some (Ok (), d)"

lemma at_rest_after:
  assumes "schema_impl B" and "ordered d" and "add_definitions_recursively B d = Some (Ok (), d')" and "grows d' e"
  shows "at_rest B e"
  using schema_impl.stable_impl [OF assms(1)] assms(2-4) unfolding stable_def at_rest_def by blast

lemma at_rest_grows: "schema_impl B \<Longrightarrow> ordered d \<Longrightarrow> at_rest B d \<Longrightarrow> grows d e \<Longrightarrow> at_rest B e"
  by (rule at_rest_after) (simp_all add: at_rest_def)

text \<open>Two effects in a row change nothing: neither does either.\<close>

lemma then_at_rest:
  assumes "and_then l (\<lambda>_. m) d = Some (Ok (), d)" and "ordered d"
    and "adds l R Q" and "stable l" and "adds m R' Q'"
  shows "l d = Some (Ok (), d) \<and> m d = Some (Ok (), d)"
proof -
  from assms(1) obtain d1 where d1: "l d = Some (Ok (), d1)" "m d1 = Some (Ok (), d)" by (auto simp: and_then_Ok_iff)
  have "grows d d1" using adds_Ok [OF assms(3,2) d1(1)] by blast
  then have "grows d1 d" using adds_Ok [OF assms(5) _ d1(2)] by (simp add: grows_def)
  with assms(2,4) d1 have "l d = Some (Ok (), d)" unfolding stable_def by blast
  with d1 show ?thesis by simp
qed

lemma entry_at_rest:
  assumes "and_then (add_definition self def) (\<lambda>_. k) d = Some (Ok (), d)" and "ordered d" and "adds k R Q"
  shows "map_of d self = Some def \<and> k d = Some (Ok (), d)"
  using then_at_rest [OF assms(1,2) adds_definition stable_definition assms(3)] definition_entry [OF _ assms(2)] by blast

text \<open>Every step of a loop is at rest in the table after the loop.\<close>

lemma each_at_rest:
  assumes "\<And>B. B \<in> set Bs \<Longrightarrow> schema_impl B"
  shows "ordered d \<Longrightarrow> add_all Bs d = Some (Ok (), d') \<Longrightarrow> B \<in> set Bs \<Longrightarrow> at_rest B d'"
  using assms
proof (induction Bs arbitrary: d)
  case (Cons C Bs)
  then obtain d1 where d1: "add_definitions_recursively C d = Some (Ok (), d1)" "add_all Bs d1 = Some (Ok (), d')"
    by (auto simp: add_all_def and_then_Ok_iff)
  have "grows d d1" using adds_Ok [OF schema_impl.adds_impl Cons.prems(1) d1(1)] Cons.prems(4) by simp
  then have o: "ordered d1" by (simp add: grows_def)
  then have "grows d1 d'" using adds_Ok [OF add_all_impl(1) o d1(2)] Cons.prems(4) by simp
  with Cons.IH [OF o d1(2)] Cons.prems at_rest_after [OF _ Cons.prems(1) d1(1)] show ?case by auto
qed simp

subsection \<open>The fields of the structs of a table\<close>

text \<open>
  \<open>G\<close> has the implementations of the fields of each derived struct. A step fills the table if
  it has visited the fields of every struct that it adds.
\<close>

type_synonym struct_fields = "Declaration \<rightharpoonup> BorshSchema list"

definition visited :: "struct_fields \<Rightarrow> definitions \<Rightarrow> definitions \<Rightarrow> bool" where
  "visited G d d' \<longleftrightarrow> (\<forall>k Bs. G k = Some Bs \<longrightarrow> map_of d k = None \<longrightarrow> map_of d' k \<noteq> None \<longrightarrow> (\<forall>B\<in>set Bs. at_rest B d'))"

definition fills :: "struct_fields \<Rightarrow> nat \<Rightarrow> add_effect \<Rightarrow> bool" where
  "fills G n l \<longleftrightarrow> (\<forall>d d'. ordered d \<longrightarrow> missing (dom G) d < n \<longrightarrow> l d = Some (Ok (), d') \<longrightarrow> visited G d d')"

definition lawful_fields :: "struct_fields \<Rightarrow> bool" where
  "lawful_fields G \<longleftrightarrow> finite (dom G) \<and> (\<forall>k Bs. G k = Some Bs \<longrightarrow> (\<forall>B\<in>set Bs. schema_impl B))"

lemma visited_grows:
  assumes "lawful_fields G" and "visited G d d'" and "ordered d'" and "grows d' e" and "visited G d' e"
  shows "visited G d e"
  unfolding visited_def
proof (intro allI impI ballI)
  fix k Bs B assume k: "G k = Some Bs" "map_of d k = None" "map_of e k \<noteq> None" and B: "B \<in> set Bs"
  show "at_rest B e"
  proof (cases "map_of d' k")
    case None
    with assms(5) k B show ?thesis by (simp add: visited_def)
  next
    case (Some def)
    then have "at_rest B d'" using assms(2) k B by (simp add: visited_def)
    moreover have "schema_impl B" using assms(1) k B by (auto simp: lawful_fields_def)
    ultimately show ?thesis using assms(3,4) by (blast intro: at_rest_grows)
  qed
qed

lemma fills_then:
  assumes G: "lawful_fields G" and "adds l R Q" and "adds m R' Q'" and "fills G n l" and "fills G n m"
  shows "fills G n (and_then l (\<lambda>_. m))"
  unfolding fills_def
proof (intro allI impI)
  fix d d' assume d: "ordered d" "missing (dom G) d < n" and "and_then l (\<lambda>_. m) d = Some (Ok (), d')"
  then obtain d1 where d1: "l d = Some (Ok (), d1)" "m d1 = Some (Ok (), d')" by (auto simp: and_then_Ok_iff)
  have g: "grows d d1" using adds_Ok [OF assms(2) d(1) d1(1)] by blast
  then have o: "ordered d1" by (simp add: grows_def)
  have "missing (dom G) d1 < n" using missing_grows [OF _ g] G d(2) by (fastforce simp: lawful_fields_def)
  with assms(4,5) d d1 o have "visited G d d1" "visited G d1 d'" by (simp_all add: fills_def)
  moreover have "grows d1 d'" using adds_Ok [OF assms(3) o d1(2)] by blast
  ultimately show "visited G d d'" using visited_grows [OF G _ o] by blast
qed

lemma fills_ret [simp]: "fills G n (ret ())"
  by (simp add: fills_def visited_def ret_def)

lemma fills_panic [simp]: "fills G n panic"
  by (simp add: fills_def panic_def)

lemma fills_definition: "self \<notin> dom G \<Longrightarrow> fills G n (add_definition self def)"
  unfolding fills_def
proof (intro allI impI)
  fix d d' assume self: "self \<notin> dom G" and d: "ordered d" and r: "add_definition self def d = Some (Ok (), d')"
  have "map_of d' k = map_of d k" if "k \<noteq> self" for k
  proof (cases "map_of d self")
    case None
    with r that add_new(1) [OF d None, of def] show ?thesis by (auto simp: add_definition_def)
  qed (use r in \<open>auto simp: add_definition_def split: if_splits\<close>)
  then have "k \<noteq> self \<Longrightarrow> map_of d k = None \<Longrightarrow> map_of d' k = None" for k by simp
  with self show "visited G d d'" unfolding visited_def by (metis domI)
qed

lemma fills_entry:
  "lawful_fields G \<Longrightarrow> self \<notin> dom G \<Longrightarrow> adds k R Q \<Longrightarrow> fills G n k \<Longrightarrow> fills G n (and_then (add_definition self def) (\<lambda>_. k))"
  by (rule fills_then [OF _ adds_definition _ fills_definition])

lemma fills_all:
  assumes "lawful_fields G" and "\<And>B. B \<in> set Bs \<Longrightarrow> schema_impl B" and "\<And>B. B \<in> set Bs \<Longrightarrow> fills G n (add_definitions_recursively B)"
  shows "fills G n (add_all Bs)"
  using assms(2,3)
proof (induction Bs)
  case (Cons B Bs)
  then have "fills G n (add_all Bs)" and "adds (add_all Bs) (declaration_of ` set Bs) {}" by (auto intro: add_all_impl)
  with Cons.prems fills_then [OF assms(1) schema_impl.adds_impl [of B]] show ?case by (simp add: add_all_def)
qed (simp add: add_all_def)

text \<open>A derived struct visits its fields when its name is new; \<open>G\<close> has these fields.\<close>

lemma fills_struct:
  assumes G: "lawful_fields G" and self: "G (derived_declaration ident params) = Some Bs"
    and p: "plain_schema_fields P flds"
    and Bs: "Bs = List.map (\<lambda>f. env_type E (fld_ty f)) (kept_fields (pg_literals P) (fields_list flds))"
    and fill: "\<And>B. B \<in> set Bs \<Longrightarrow> fills G n (add_definitions_recursively B)"
  shows "fills G (Suc n) (add_definitions_recursively (derived_struct_schema ident params (item_of (pg_literals P) E flds)))"
  unfolding fills_def
proof (intro allI impI)
  let ?self = "derived_declaration ident params" and ?def = "Struct (fst (process_fields (item_of (pg_literals P) E flds)))"
  have impls: "schema_impl B" if "B \<in> set Bs" for B using G self that by (auto simp: lawful_fields_def)
  have X: "finite (dom G)" "?self \<in> dom G" using G self by (auto simp: lawful_fields_def)
  have calls: "for_each field_definitions (snd (process_fields (item_of (pg_literals P) E flds))) = add_all Bs"
  proof -
    have "for_each field_definitions (List.map (schema_field_of (pg_literals P) E) fs) =
        for_each add_definitions_recursively (List.map (\<lambda>f. env_type E (fld_ty f)) fs)"
      if "set fs \<subseteq> set (kept_fields (pg_literals P) (fields_list flds))" for fs
      using that by (induction fs) (simp_all add: plain_field_schema(2) [OF p])
    then show ?thesis by (simp add: item_refs(2) add_all_def Bs)
  qed
  fix d d' assume d: "ordered d" "missing (dom G) d < Suc n"
    and "add_definitions_recursively (derived_struct_schema ident params (item_of (pg_literals P) E flds)) d = Some (Ok (), d')"
  then have r: "and_then (add_definition ?self ?def) (\<lambda>_. if map_of d ?self = None then add_all Bs else ret ()) d = Some (Ok (), d')"
    by (simp add: derived_struct_schema_def Let_def calls cong: if_cong)
  show "visited G d d'"
  proof (cases "map_of d ?self")
    case None
    with r obtain d1 where d1: "add_definition ?self ?def d = Some (Ok (), d1)" "add_all Bs d1 = Some (Ok (), d')"
      by (auto simp: and_then_Ok_iff)
    from adds_Ok [OF adds_definition d(1) d1(1)] have g: "grows d d1" and k: "?self \<in> dom (map_of d1)" by auto
    then have o: "ordered d1" by (simp add: grows_def)
    have "missing (dom G) d1 < n" using missing_new [OF X(1) g X(2) k None] d(2) by simp
    with fills_all [OF G impls fill] d1(2) o have v: "visited G d1 d'" by (simp add: fills_def)
    have "at_rest B d'" if "B \<in> set Bs" for B by (rule each_at_rest [OF impls o d1(2) that])
    moreover have "map_of d1 k = map_of d k" if "k \<noteq> ?self" for k
      using d1(1) add_new(1) [OF d(1) None, of ?def] that None by (auto simp: add_definition_def)
    ultimately show ?thesis using v self unfolding visited_def by (metis option.inject)
  next
    case (Some def)
    with r have "d' = d" by (auto simp: and_then_Ok_iff add_definition_def ret_def split: if_splits)
    then show ?thesis by (simp add: visited_def)
  qed
qed

text \<open>The library's implementations fill the table when their arguments do and their own names are none of \<open>G\<close>.\<close>

fun library_type :: "rust_type \<Rightarrow> bool" where
  "library_type (RBox _) = False"
| "library_type (RUser _) = False"
| "library_type _ = True"

definition names_apart :: "(string \<Rightarrow> Declaration) \<Rightarrow> Declaration set \<Rightarrow> bool" where
  "names_apart N X \<longleftrightarrow> ''()'' \<notin> X \<and> (\<forall>t. library_type t \<longrightarrow> type_declaration N t \<notin> X)"

lemma fills_type:
  assumes G: "lawful_fields G" and apart: "names_apart N (dom G)" and S: "\<And>name. declaration_of (S name) = N name"
    and users: "\<And>name. name \<in> mentions t \<Longrightarrow> schema_impl (S name) \<and> fills G n (add_definitions_recursively (S name))"
  shows "fills G n (add_definitions_recursively (type_schema S t))"
proof -
  have own: "library_type t \<Longrightarrow> declaration_of (type_schema S t) \<notin> dom G" for t
    using apart type_schema_declaration [of S N t, OF S] by (simp add: names_apart_def)
  have unit: "fills G n (add_definitions_recursively unit_schema)"
    using apart by (simp add: unit_schema_def primitive_schema_def names_apart_def fills_definition)
  have u8: "fills G n (add_definitions_recursively u8_schema)"
    using own [of RU8] by (simp add: u8_schema_def primitive_schema_def fills_definition)
  have str: "fills G n (add_definitions_recursively str_schema)"
    using own [of RString] by (simp add: str_schema_def transparent_schema_def fills_entry [OF G _ u8_B.adds_impl u8])
  show ?thesis
    using users
  proof (induction t)
    case (ROption t)
    have T: "schema_impl (type_schema S t)" using ROption.prems by (intro type_schema_impl) simp
    show ?case
      using ROption own [of "ROption t"] unit fills_then [OF G schema_impl.adds_impl [OF T] unit_B.adds_impl]
        fills_entry [OF G _ adds_then [OF schema_impl.adds_impl [OF T] unit_B.adds_impl empty_subsetI empty_subsetI]]
      by (simp add: option_schema_def Let_def)
  next
    case (RResult t e)
    have T: "schema_impl (type_schema S t)" "schema_impl (type_schema S e)"
      using RResult.prems by (auto intro!: type_schema_impl)
    note a = schema_impl.adds_impl [OF T(1)] schema_impl.adds_impl [OF T(2)]
    show ?case
      using RResult own [of "RResult t e"] fills_then [OF G a] fills_entry [OF G _ adds_then [OF a empty_subsetI empty_subsetI]]
      by (simp add: result_schema_def Let_def)
  next
    case (RVec t)
    have T: "schema_impl (type_schema S t)" using RVec.prems by (intro type_schema_impl) simp
    show ?case
      using RVec own [of "RVec t"] fills_entry [OF G _ schema_impl.adds_impl [OF T]] by (simp add: collection_schema_def Let_def)
  next
    case (RArray m t)
    have T: "schema_impl (type_schema S t)" using RArray.prems by (intro type_schema_impl) simp
    have g: "adds (if m < 2 ^ 64 then ret () else panic) {} {}" by (simp add: adds_ret adds_panic)
    let ?len = "word_of_nat m :: u64" and ?self = "declaration_of (type_schema S (RArray m t))"
    let ?def = "Sequence ARRAY_LENGTH_WIDTH (range_inclusive ?len ?len) (declaration_of (type_schema S t))"
    have "adds (and_then (add_definition ?self ?def) (\<lambda>_. add_definitions_recursively (type_schema S t))) {?self} {}"
      by (rule entry_impl(1) [OF schema_impl.adds_impl [OF T] schema_impl.stable_impl [OF T]])
        (simp add: refs.simps)
    moreover have "fills G n (and_then (add_definition ?self ?def) (\<lambda>_. add_definitions_recursively (type_schema S t)))"
      using RArray own [of "RArray m t"] by (intro fills_entry [OF G _ schema_impl.adds_impl [OF T]]) simp_all
    ultimately show ?case
      using fills_then [OF G g, of _ _ _ n] by (simp add: array_schema_def Let_def)
  next
    case (RPair t t')
    have T: "schema_impl (type_schema S t)" "schema_impl (type_schema S t')"
      using RPair.prems by (auto intro!: type_schema_impl)
    then have Ts: "\<forall>B\<in>set [type_schema S t, type_schema S t']. schema_impl B" by simp
    have "fills G n (add_all [type_schema S t, type_schema S t'])"
      by (rule fills_all [OF G]) (use T RPair in auto)
    then show ?case
      using own [of "RPair t t'"] fills_entry [OF G _ add_all_impl(1) [OF Ts]] by (simp add: tuple_schema_def Let_def)
  next
    case (RStringMap t)
    let ?K = "transparent_schema str_schema" and ?V = "type_schema S t"
    have T: "schema_impl ?K" "schema_impl ?V"
      using RStringMap.prems by (auto intro!: type_schema_impl transparent_schema_impl str_schema_impl)
    then have Ts: "\<forall>B\<in>set [?K, ?V]. schema_impl B" by simp
    have "fills G n (add_all [?K, ?V])"
      by (rule fills_all [OF G]) (use T RStringMap str in \<open>auto simp: transparent_schema_def\<close>)
    then have "fills G n (add_definitions_recursively (tuple_schema [?K, ?V]))"
      using own [of "RPair RString t"] fills_entry [OF G _ add_all_impl(1) [OF Ts]] by (simp add: tuple_schema_def Let_def)
    then show ?case
      using own [of "RStringMap t"] fills_entry [OF G _ schema_impl.adds_impl [OF tuple_schema_impl [OF Ts]]]
      by (simp add: btree_map_schema_def map_schema_def Let_def)
  qed (use own [of RBool] own [of RU8] own [of RI32] own [of RU32] own [of RU64] str in
    \<open>simp_all add: bool_schema_def u8_schema_def u32_schema_def u64_schema_def primitive_schema_def transparent_schema_def fills_definition\<close>)
qed

subsection \<open>The schemas of a program\<close>

text \<open>
  \<open>F\<close> has the types of the fields of each struct of the schemas, those of the variants of
  enums included. No two structs have the same name, and no other type has the name of one.
\<close>

definition field_types :: "rust_program \<Rightarrow> string \<Rightarrow> syn_fields \<Rightarrow> rust_type list" where
  "field_types P name flds = List.map (\<lambda>f. pg_resolve P name (fld_ty f)) (kept_fields (pg_literals P) (fields_list flds))"

definition structs_listed :: "rust_program \<Rightarrow> (string \<Rightarrow> Declaration) \<Rightarrow> (Declaration \<rightharpoonup> rust_type list) \<Rightarrow> bool" where
  "structs_listed P N F \<longleftrightarrow> names_apart N (dom F) \<and>
     (\<forall>k ts. F k = Some ts \<longrightarrow> (\<forall>t\<in>set ts. \<forall>n\<in>mentions t. pg_items P n \<noteq> None)) \<and>
     (\<forall>name. case pg_items P name of
        Some (DerivedStruct s) \<Rightarrow> F (N name) = Some (field_types P name (st_fields s))
      | Some (DerivedEnum e) \<Rightarrow> N name \<notin> dom F \<and>
          List.map F (variant_struct_names P N name e) = List.map (\<lambda>v. Some (field_types P name (var_fields v))) (en_variants e)
      | None \<Rightarrow> True)"

lemma structs_listedD:
  assumes "structs_listed P N F"
  shows "names_apart N (dom F)"
    and "F k = Some ts \<Longrightarrow> u \<in> set ts \<Longrightarrow> n \<in> mentions u \<Longrightarrow> pg_items P n \<noteq> None"
    and "pg_items P name = Some (DerivedStruct s) \<Longrightarrow> F (N name) = Some (field_types P name (st_fields s))"
    and "pg_items P name = Some (DerivedEnum e) \<Longrightarrow> N name \<notin> dom F"
    and "pg_items P name = Some (DerivedEnum e) \<Longrightarrow>
      List.map F (variant_struct_names P N name e) = List.map (\<lambda>v. Some (field_types P name (var_fields v))) (en_variants e)"
proof -
  from assms have all: "\<forall>k ts. F k = Some ts \<longrightarrow> (\<forall>t\<in>set ts. \<forall>n\<in>mentions t. pg_items P n \<noteq> None)"
    and item: "case pg_items P name of
        Some (DerivedStruct s) \<Rightarrow> F (N name) = Some (field_types P name (st_fields s))
      | Some (DerivedEnum e) \<Rightarrow> N name \<notin> dom F \<and>
          List.map F (variant_struct_names P N name e) = List.map (\<lambda>v. Some (field_types P name (var_fields v))) (en_variants e)
      | None \<Rightarrow> True" unfolding structs_listed_def by blast+
  show "names_apart N (dom F)" using assms by (simp add: structs_listed_def)
  show "F k = Some ts \<Longrightarrow> u \<in> set ts \<Longrightarrow> n \<in> mentions u \<Longrightarrow> pg_items P n \<noteq> None" using all by blast
  show "pg_items P name = Some (DerivedStruct s) \<Longrightarrow> F (N name) = Some (field_types P name (st_fields s))" using item by simp
  show "pg_items P name = Some (DerivedEnum e) \<Longrightarrow> N name \<notin> dom F" using item by simp
  show "pg_items P name = Some (DerivedEnum e) \<Longrightarrow>
      List.map F (variant_struct_names P N name e) = List.map (\<lambda>v. Some (field_types P name (var_fields v))) (en_variants e)"
    using item by simp
qed

text \<open>A level that is its own next level, as far as tables are concerned.\<close>

definition fixed_level :: "rust_program \<Rightarrow> (string \<Rightarrow> Declaration) \<Rightarrow> (string \<Rightarrow> BorshSchema) \<Rightarrow> bool" where
  "fixed_level P N S \<longleftrightarrow> (\<forall>n. declaration_of (S n) = N n) \<and> (\<forall>n. pg_items P n \<noteq> None \<longrightarrow> schema_impl (S n)) \<and>
     (\<forall>n d. pg_items P n \<noteq> None \<longrightarrow> ordered d \<longrightarrow>
        add_definitions_recursively (S n) d = add_definitions_recursively (item_schema P N S n) d)"

lemma fixed_levelD:
  assumes "fixed_level P N S"
  shows "declaration_of (S n) = N n" and "pg_items P n \<noteq> None \<Longrightarrow> schema_impl (S n)"
    and "pg_items P n \<noteq> None \<Longrightarrow> ordered d \<Longrightarrow>
      add_definitions_recursively (S n) d = add_definitions_recursively (item_schema P N S n) d"
  using assms by (simp_all add: fixed_level_def)

lemma top_level_fixed:
  assumes acc: "schemas_accepted P N X" and closed: "program_closed P"
    and B: "\<And>n. schema_impl (B n)" "\<And>n. declaration_of (B n) = N n"
  shows "fixed_level P N (user_schema P N B (Suc (card X)))"
proof -
  have X: "finite X" using acc by (simp add: schemas_accepted_def)
  let ?S = "user_schema P N B (Suc (card X))"
  have "add_definitions_recursively (item_schema P N ?S n) d = add_definitions_recursively (?S n) d"
    if n: "pg_items P n \<noteq> None" and d: "ordered d" for n d
  proof -
    have "item_schema P N ?S = user_schema P N (user_schema P N B 1) (Suc (card X))"
      using user_schema_add [of P N B 1 "Suc (card X)"] by simp
    then have "schemas_agree X (Suc (card X)) (?S n) (item_schema P N ?S n)"
      using agree_levels [OF acc closed B user_schema_declaration [OF acc B(2)] n] by (simp del: user_schema.simps)
    moreover have "missing X d < Suc (card X)" unfolding missing_def using card_mono [OF X Diff_subset] by (simp add: less_Suc_eq_le)
    ultimately show ?thesis using d unfolding schemas_agree_def agrees_def by blast
  qed
  then show ?thesis
    unfolding fixed_level_def
    using user_schema_declaration [OF acc B(2)] user_schema_impl [OF acc closed B] by (simp del: user_schema.simps)
qed

definition visits :: "(string \<Rightarrow> BorshSchema) \<Rightarrow> (Declaration \<rightharpoonup> rust_type list) \<Rightarrow> struct_fields" where
  "visits S F k = map_option (List.map (type_schema S)) (F k)"

lemma dom_visits [simp]: "dom (visits S F) = dom F"
  by (auto simp: visits_def)

lemma visits_Some: "F k = Some ts \<Longrightarrow> visits S F k = Some (List.map (type_schema S) ts)"
  by (simp add: visits_def)

lemma lawful_visits:
  assumes "fixed_level P N S" and "structs_listed P N F" and "finite (dom F)"
  shows "lawful_fields (visits S F)"
  using assms(3) unfolding lawful_fields_def
proof (simp, intro allI impI ballI)
  fix k Bs B assume "visits S F k = Some Bs" and B: "B \<in> set Bs"
  then obtain ts t where "F k = Some ts" "t \<in> set ts" and t: "B = type_schema S t" by (auto simp: visits_def)
  then have "\<forall>n\<in>mentions t. pg_items P n \<noteq> None" using assms(2) by (simp add: structs_listed_def)
  with fixed_levelD(2) [OF assms(1)] show "schema_impl B" unfolding t by (intro type_schema_impl) blast
qed

lemma variant_listed:
  assumes listed: "structs_listed P N F" and i: "pg_items P name = Some (DerivedEnum e)" and S: "\<And>n. declaration_of (S n) = N n"
    and x: "x \<in> set (List.enumerate 0 (en_variants e))"
  shows "F (derived_declaration (en_ident e @ var_ident (snd x))
      (variant_params (variant_of (pg_literals P) (pg_tokens P) (pg_cratename P) (item_env P S name) e (uses_discriminant e) x))) =
    Some (field_types P name (var_fields (snd x)))"
proof -
  have "List.map F (variant_struct_names P N name e) = List.map (\<lambda>v. Some (field_types P name (var_fields v))) (en_variants e)"
    by (rule structs_listedD(5) [OF listed i])
  from arg_cong [OF this, of "\<lambda>l. l ! fst x"] enumerated [OF x]
  have "F (variant_struct_names P N name e ! fst x) = Some (field_types P name (var_fields (snd x)))"
    by (simp add: variant_struct_names_def)
  moreover have "variant_struct_names P N name e ! fst x = declaration_of (variant_schema (en_ident e)
      (variant_of (pg_literals P) (pg_tokens P) (pg_cratename P) (item_env P (no_schema N) name) e (uses_discriminant e) x))"
    using enumerated [OF x] by (cases x) (simp add: variant_struct_names_def nth_enumerate_eq)
  ultimately show ?thesis
    unfolding variant_schema_of variant_of_params [of S N "no_schema N", OF S no_schema_declaration]
    by (simp add: derived_struct_schema_def Let_def)
qed

lemma field_items:
  assumes "structs_listed P N F" and "F k = Some (field_types P name flds)"
    and "f \<in> set (kept_fields (pg_literals P) (fields_list flds))" and "n \<in> mentions (pg_resolve P name (fld_ty f))"
  shows "pg_items P n \<noteq> None"
proof -
  have "pg_resolve P name (fld_ty f) \<in> set (field_types P name flds)" using assms(3) by (simp add: field_types_def)
  then show ?thesis using structs_listedD(2) [OF assms(1,2)] assms(4) by blast
qed

lemma fills_user:
  assumes acc: "schemas_accepted P N (dom F)" and listed: "structs_listed P N F" and fixed: "fixed_level P N S"
  shows "pg_items P name \<noteq> None \<Longrightarrow> fills (visits S F) n (add_definitions_recursively (S name))"
proof (induction n arbitrary: name)
  case 0
  then show ?case by (simp add: fills_def)
next
  case (Suc n)
  let ?G = "visits S F" and ?L = "pg_literals P"
  have X: "finite (dom F)" using acc by (simp add: schemas_accepted_def)
  have G: "lawful_fields ?G" by (rule lawful_visits [OF fixed listed X])
  have apart: "names_apart N (dom ?G)" using listed by (simp add: structs_listed_def)
  have fields: "fills ?G n (add_definitions_recursively B)"
    if k: "F k = Some ts" and B: "B \<in> set (List.map (type_schema S) ts)" for k ts B
  proof -
    from B obtain t where t: "t \<in> set ts" "B = type_schema S t" by auto
    with k listed have "\<forall>n\<in>mentions t. pg_items P n \<noteq> None" by (simp add: structs_listed_def)
    with fills_type [OF G apart fixed_levelD(1) [OF fixed]] Suc.IH fixed_levelD(2) [OF fixed] show ?thesis
      unfolding t by blast
  qed
  have struct: "fills ?G (Suc n) (add_definitions_recursively (derived_struct_schema ident params (item_of ?L (item_env P S name) flds)))"
    if "F (derived_declaration ident params) = Some (field_types P name flds)" and "plain_schema_fields P flds" for ident params flds
    by (rule fills_struct [OF G visits_Some [where F = F, OF that(1)] that(2) _ fields [OF that(1)]])
      (simp_all add: field_types_def item_env_def)
  have "fills ?G (Suc n) (add_definitions_recursively (item_schema P N S name))"
  proof (rule schema_accepted_cases [OF acc, of name])
    fix s assume i: "pg_items P name = Some (DerivedStruct s)" "struct_schema_accepted P N (dom F) name s"
    from struct_schema_is [OF i fixed_levelD(1) [OF fixed]] obtain params where
      r: "item_schema P N S name = derived_struct_schema (st_ident s) params (item_of ?L (item_env P S name) (st_fields s))"
      and name: "derived_declaration (st_ident s) params = N name" by blast
    show ?thesis unfolding r
    proof (rule struct)
      show "F (derived_declaration (st_ident s) params) = Some (field_types P name (st_fields s))"
        unfolding name by (rule structs_listedD(3) [OF listed i(1)])
      show "plain_schema_fields P (st_fields s)" using i(2) by (simp add: struct_schema_accepted_def)
    qed
  next
    fix e assume i: "pg_items P name = Some (DerivedEnum e)" "enum_schema_accepted P N (dom F) name e"
    let ?w = "variant_of ?L (pg_tokens P) (pg_cratename P) (item_env P S name) e (uses_discriminant e)"
    let ?vs = "item_variants P S name e"
    from enum_schema_is [OF i fixed_levelD(1) [OF fixed]] obtain params where
      r: "item_schema P N S name = derived_enum_schema (en_ident e) params ?vs"
      and name: "derived_declaration (en_ident e) params = N name" unfolding item_variants_def by blast
    have apart: "N name \<notin> dom ?G" using structs_listedD(4) [OF listed i(1)] by simp
    have variant: "fills ?G (Suc n) (add_definitions_recursively (variant_schema (en_ident e) v)) \<and> schema_impl (variant_schema (en_ident e) v)"
      if v: "v \<in> set ?vs" for v
    proof -
      from v obtain x where x: "x \<in> set (List.enumerate 0 (en_variants e))" and w: "v = ?w x"
        unfolding item_variants_def by (auto simp del: split_paired_All)
      have p: "plain_schema_fields P (var_fields (snd x))" using i(2) enumerated [OF x] by (simp add: enum_schema_accepted_def)
      have F: "F (derived_declaration (en_ident e @ var_ident (snd x)) (variant_params (?w x))) = Some (field_types P name (var_fields (snd x)))"
        by (rule variant_listed [OF listed i(1) fixed_levelD(1) [OF fixed] x])
      have impl: "schema_impl (variant_schema (en_ident e) v)"
        unfolding w variant_schema_of
        by (rule item_struct_impl [OF p env_impl [OF fixed_levelD(2) [OF fixed]]]) (rule field_items [OF listed F])
      show ?thesis using struct [OF F p] impl unfolding w variant_schema_of by blast
    qed
    have "fills ?G (Suc n) (and_then (add_all (List.map (variant_schema (en_ident e)) ?vs)) (\<lambda>_. add_definition (N name) def))" for def
      by (rule fills_then [OF G add_all_impl(1) adds_definition fills_all [OF G] fills_definition [OF apart]]) (use variant in auto)
    then show ?thesis by (simp add: r derived_enum_schema_def Let_def name)
  qed (use Suc.prems in simp)
  then show ?case
    unfolding fills_def using fixed_levelD(3) [OF fixed Suc.prems] by simp
qed

text \<open>
  The table of the schema of a type: it is closed under the fields of structs, and the
  schema of the type is at rest in it.
\<close>

definition full_table :: "(string \<Rightarrow> BorshSchema) \<Rightarrow> (Declaration \<rightharpoonup> rust_type list) \<Rightarrow> definitions \<Rightarrow> bool" where
  "full_table S F d \<longleftrightarrow> ordered d \<and> (\<forall>k ts. F k = Some ts \<longrightarrow> map_of d k \<noteq> None \<longrightarrow> (\<forall>t\<in>set ts. at_rest (type_schema S t) d))"

lemma schema_table_full:
  assumes acc: "schemas_accepted P N (dom F)" and listed: "structs_listed P N F" and fixed: "fixed_level P N S"
    and t: "\<forall>n\<in>mentions t. pg_items P n \<noteq> None" and c: "for_type (type_schema S t) = Some (Ok c)"
  obtains d where "full_table S F d" and "at_rest (type_schema S t) d"
    and "get_definition c = map_of d" and "container_declaration c = type_declaration N t"
proof -
  have X: "finite (dom F)" using acc by (simp add: schemas_accepted_def)
  have G: "lawful_fields (visits S F)" by (rule lawful_visits [OF fixed listed X])
  have impl: "schema_impl (type_schema S t)"
    by (rule type_schema_impl) (rule fixed_levelD(2) [OF fixed], use t in blast)
  from c obtain d where d: "add_definitions_recursively (type_schema S t) [] = Some (Ok (), d)"
    and c: "c = container_new (declaration_of (type_schema S t)) d"
    by (auto simp: for_type_def split: option.splits prod.splits outcome.splits)
  have "grows [] d" using adds_Ok [OF schema_impl.adds_impl [OF impl] _ d] by (simp add: ordered_def)
  then have o: "ordered d" by (simp add: grows_def)
  have "names_apart N (dom (visits S F))" using listed by (simp add: structs_listed_def)
  from fills_type [OF G this fixed_levelD(1) [OF fixed]]
  have "fills (visits S F) (Suc (card (dom F))) (add_definitions_recursively (type_schema S t))"
    using t fills_user [OF acc listed fixed] fixed_levelD(2) [OF fixed] by blast
  then have "visited (visits S F) [] d" using d by (simp add: fills_def missing_def ordered_def)
  then have "at_rest (type_schema S u) d" if "F k = Some ts" "map_of d k \<noteq> None" "u \<in> set ts" for k ts u
    using that unfolding visited_def by (auto dest!: spec [of _ k] simp: visits_Some)
  then have "full_table S F d" using o by (auto simp: full_table_def)
  moreover have "at_rest (type_schema S t) d"
    by (rule at_rest_after [OF impl _ d grows_refl [OF o]]) (simp add: ordered_def)
  moreover have "get_definition c = map_of d" by (rule ext) (simp add: c get_definition_def container_new_def)
  moreover have "container_declaration c = type_declaration N t"
    by (simp add: c container_new_def type_schema_declaration [OF fixed_levelD(1) [OF fixed]])
  ultimately show thesis by (rule that)
qed

subsection \<open>The bytes of a value\<close>

text \<open>A table at rest describes the values of an implementation.\<close>

definition tells :: "definitions \<Rightarrow> BorshSchema \<Rightarrow> ('a \<Rightarrow> bytes) \<Rightarrow> ('a \<Rightarrow> bool) \<Rightarrow> bool" where
  "tells d T enc ok \<longleftrightarrow> schema_impl T \<and>
     (at_rest T d \<longrightarrow> (\<forall>v. ok v \<longrightarrow> encodes (map_of d) (declaration_of T) (enc v)))"

lemma tells_impl: "tells d T enc ok \<Longrightarrow> schema_impl T"
  by (simp add: tells_def)

lemma tells_encodes: "tells d T enc ok \<Longrightarrow> at_rest T d \<Longrightarrow> ok v \<Longrightarrow> encodes (map_of d) (declaration_of T) (enc v)"
  by (simp add: tells_def)

lemma tells_described: "described_impl T enc ok \<Longrightarrow> ordered d \<Longrightarrow> tells d T enc ok"
proof -
  assume T: "described_impl T enc ok" and d: "ordered d"
  have "encodes (map_of d) (declaration_of T) (enc v)" if "at_rest T d" "ok v" for v
    by (rule described_impl.described [OF T that(2) d that(1) [unfolded at_rest_def]])
  with described_impl.axioms(1) [OF T] show ?thesis by (simp add: tells_def)
qed

lemma tells_weaken: "tells d T enc ok \<Longrightarrow> (\<And>v. ok' v \<Longrightarrow> ok (f v)) \<Longrightarrow> tells d T (\<lambda>v. enc (f v)) ok'"
  by (auto simp: tells_def)

lemma tells_entry:
  assumes "T = \<lparr>declaration_of = self, add_definitions_recursively = and_then (add_definition self def) (\<lambda>_. k)\<rparr>"
    and "schema_impl T" and "adds k R Q" and "ordered d"
    and "\<And>v. map_of d self = Some def \<Longrightarrow> k d = Some (Ok (), d) \<Longrightarrow> ok v \<Longrightarrow> encodes (map_of d) self (enc v)"
  shows "tells d T enc ok"
  using assms(2,5) entry_at_rest [OF _ assms(4,3), of self def] by (auto simp: tells_def at_rest_def assms(1))

lemma tells_transparent: "tells d T enc ok \<Longrightarrow> tells d (transparent_schema T) enc ok"
  by (simp add: tells_def transparent_schema_impl) (simp add: at_rest_def transparent_schema_def)

lemma tells_collection:
  assumes "tells d T enc ok" and "ordered d"
  shows "tells d (collection_schema c T) (vec_enc enc) (vec_ok ok)"
proof (rule tells_entry [OF _ collection_schema_impl [OF tells_impl [OF assms(1)]] schema_impl.adds_impl [OF tells_impl [OF assms(1)]] assms(2)])
  fix vs assume "map_of d (c @ ''<'' @ declaration_of T @ ''>'') = Some (tagged_sequence (declaration_of T))"
    and "add_definitions_recursively T d = Some (Ok (), d)" and "vec_ok ok vs"
  then show "encodes (map_of d) (c @ ''<'' @ declaration_of T @ ''>'') (vec_enc enc vs)"
    using tells_encodes [OF assms(1)] by (auto simp: vec_ok_def at_rest_def intro!: tagged_encodes [where D = "map_of d"])
qed (simp add: collection_schema_def Let_def)

lemma tells_option:
  assumes T: "tells d T enc ok" and d: "ordered d"
  shows "tells d (option_schema T) (option_enc enc) (option_ok ok)"
proof -
  note impl = tells_impl [OF T]
  show ?thesis
  proof (rule tells_entry [OF _ option_schema_impl [OF impl]
        adds_then [OF schema_impl.adds_impl [OF impl] unit_B.adds_impl empty_subsetI empty_subsetI] d])
    fix v
    assume t: "map_of d (''Option<'' @ declaration_of T @ ''>'') =
        Some (Enum 1 [(0, ''None'', declaration_of unit_schema), (1, ''Some'', declaration_of T)])"
      and k: "and_then (add_definitions_recursively T) (\<lambda>_. add_definitions_recursively unit_schema) d = Some (Ok (), d)"
      and v: "option_ok ok v"
    from then_at_rest [OF k d schema_impl.adds_impl [OF impl] schema_impl.stable_impl [OF impl] unit_B.adds_impl]
    have r: "at_rest T d" "at_rest unit_schema d" by (simp_all add: at_rest_def)
    show "encodes (map_of d) (''Option<'' @ declaration_of T @ ''>'') (option_enc enc v)"
    proof (cases v)
      case None
      from encodes_encodes_all.enum [where D = "map_of d", OF t _ tells_encodes [OF tells_described [OF unit_described d] r(2)], of 0 "''None''"]
      show ?thesis using None by simp
    next
      case (Some x)
      with v encodes_encodes_all.enum [where D = "map_of d", OF t _ tells_encodes [OF T r(1)], of 1 "''Some''"]
      show ?thesis by simp
    qed
  qed (simp add: option_schema_def Let_def)
qed

lemma tells_result:
  assumes T: "tells d T enc_t ok_t" and E: "tells d E enc_e ok_e" and d: "ordered d"
  shows "tells d (result_schema T E) (result_enc enc_t enc_e) (result_ok ok_t ok_e)"
proof -
  note T' = tells_impl [OF T] and E' = tells_impl [OF E]
  show ?thesis
  proof (rule tells_entry [OF _ result_schema_impl [OF T' E']
        adds_then [OF schema_impl.adds_impl [OF T'] schema_impl.adds_impl [OF E'] empty_subsetI empty_subsetI] d])
    fix v
    assume t: "map_of d (''Result<'' @ declaration_of T @ '', '' @ declaration_of E @ ''>'') =
        Some (Enum 1 [(1, ''Ok'', declaration_of T), (0, ''Err'', declaration_of E)])"
      and k: "and_then (add_definitions_recursively T) (\<lambda>_. add_definitions_recursively E) d = Some (Ok (), d)"
      and v: "result_ok ok_t ok_e v"
    from then_at_rest [OF k d schema_impl.adds_impl [OF T'] schema_impl.stable_impl [OF T'] schema_impl.adds_impl [OF E']]
    have r: "at_rest T d" "at_rest E d" by (simp_all add: at_rest_def)
    show "encodes (map_of d) (''Result<'' @ declaration_of T @ '', '' @ declaration_of E @ ''>'') (result_enc enc_t enc_e v)"
      using v encodes_encodes_all.enum [where D = "map_of d", OF t _ tells_encodes [OF T r(1)], of 1 "''Ok''"]
        encodes_encodes_all.enum [where D = "map_of d", OF t _ tells_encodes [OF E r(2)], of 0 "''Err''"]
      by (cases v) simp_all
  qed (simp add: result_schema_def Let_def)
qed

lemma tells_array:
  assumes T: "tells d T enc ok" and d: "ordered d"
  shows "tells d (array_schema N T) (array_enc enc) (array_ok N ok)"
proof (cases "N < 2 ^ 64")
  case True
  note impl = tells_impl [OF T]
  let ?len = "word_of_nat N :: u64"
  have len: "unat ?len = N" using True by (simp add: unat_of_nat)
  show ?thesis
  proof (rule tells_entry [OF _ array_schema_impl [OF impl] schema_impl.adds_impl [OF impl] d])
    fix vs
    assume vs: "array_ok N ok vs" and k: "add_definitions_recursively T d = Some (Ok (), d)"
      and t: "map_of d (''['' @ declaration_of T @ ''; '' @ show_nat N @ '']'') =
        Some (Sequence ARRAY_LENGTH_WIDTH (range_inclusive ?len ?len) (declaration_of T))"
    have "\<forall>v\<in>set vs. encodes (map_of d) (declaration_of T) (enc v)"
      using vs tells_encodes [OF T] k by (simp add: array_ok_def at_rest_def)
    then have "encodes_all (map_of d) (replicate N (declaration_of T)) (concat (List.map enc vs))"
      using encodes_replicate vs by (fastforce simp: array_ok_def)
    from encodes_encodes_all.sequence [where D = "map_of d", OF t _ _ _ this] len
    show "encodes (map_of d) (''['' @ declaration_of T @ ''; '' @ show_nat N @ '']'') (array_enc enc vs)"
      by (simp add: array_enc_def ARRAY_LENGTH_WIDTH_def range_inclusive_def)
  qed (use True in \<open>simp add: array_schema_def Let_def\<close>)
next
  case False
  with array_schema_impl [OF tells_impl [OF T]] show ?thesis
    by (simp add: tells_def) (simp add: at_rest_def array_schema_def Let_def panic_Ok_iff)
qed

lemma tells_pair:
  assumes A: "tells d A enc_a ok_a" and B: "tells d B enc_b ok_b" and d: "ordered d"
  shows "tells d (tuple_schema [A, B]) (pair_enc enc_a enc_b) (pair_ok ok_a ok_b)"
proof -
  have all: "\<forall>T\<in>set [A, B]. schema_impl T" using tells_impl [OF A] tells_impl [OF B] by simp
  show ?thesis
  proof (rule tells_entry [OF _ tuple_schema_impl [OF all] add_all_impl(1) [OF all] d])
    fix x
    assume x: "pair_ok ok_a ok_b x" and k: "add_all [A, B] d = Some (Ok (), d)"
      and t: "map_of d (tuple_declaration (List.map declaration_of [A, B])) = Some (Tuple (List.map declaration_of [A, B]))"
    have r: "at_rest A d" "at_rest B d" using each_at_rest [OF _ d k] all by auto
    note a = tells_encodes [OF A r(1), of "fst x"] and b = tells_encodes [OF B r(2), of "snd x"]
    from encodes_encodes_all.tuple [where D = "map_of d" and bs = "enc_a (fst x) @ enc_b (snd x)", OF t]
      encodes_encodes_all.more [OF a encodes_encodes_all.more [OF b encodes_encodes_all.none]] x
    show "encodes (map_of d) (tuple_declaration (List.map declaration_of [A, B])) (pair_enc enc_a enc_b x)"
      by (simp add: pair_enc_def pair_ok_def)
  qed (simp add: tuple_schema_def Let_def)
qed

lemma tells_map:
  assumes K: "tells d K enc_k ok_k" and V: "tells d V enc_v ok_v" and d: "ordered d"
  shows "tells d (btree_map_schema K V) (vec_enc (pair_enc enc_k enc_v)) (btree_map_ok ok_k ok_v)"
proof -
  note pair = tells_pair [OF K V d] and impls = tells_impl [OF K] tells_impl [OF V]
  have "tells d (map_schema ''BTreeMap'' K V) (vec_enc (pair_enc enc_k enc_v)) (vec_ok (pair_ok ok_k ok_v))"
  proof (rule tells_entry [OF _ map_schema_impl [OF impls] schema_impl.adds_impl [OF tells_impl [OF pair]] d])
    fix vs let ?self = "''BTreeMap'' @ ''<'' @ declaration_of K @ '', '' @ declaration_of V @ ''>''"
    assume "map_of d ?self = Some (tagged_sequence (declaration_of (tuple_schema [K, V])))"
      and "add_definitions_recursively (tuple_schema [K, V]) d = Some (Ok (), d)" and "vec_ok (pair_ok ok_k ok_v) vs"
    then show "encodes (map_of d) ?self (vec_enc (pair_enc enc_k enc_v) vs)"
      using tells_encodes [OF pair] by (auto simp: vec_ok_def at_rest_def intro!: tagged_encodes [where D = "map_of d"])
  qed (simp add: map_schema_def Let_def)
  then show ?thesis
    unfolding btree_map_schema_def by (rule tells_weaken [where f = "\<lambda>m. m"]) (simp add: btree_map_ok_def)
qed

lemma i32_described: "described_impl (primitive_schema ''i32'' 4) to_le_bytes (\<lambda>_ :: 32 word. True)"
  by (rule primitive_described) (simp add: length_to_le_bytes)

lemma type_tells:
  assumes d: "ordered d" and users: "\<And>name. name \<in> mentions t \<Longrightarrow> tells d (S name) (E name) (K name)"
  shows "tells d (type_schema S t) (type_enc P E t) (type_ok P K t)"
  using users
proof (induction t)
  case RBool
  show ?case using tells_weaken [OF tells_described [OF bool_described d], of _ un_bool] by simp
next
  case RU8
  show ?case using tells_weaken [OF tells_described [OF u8_described d], of _ un_u8] by simp
next
  case RI32
  show ?case using tells_weaken [OF tells_described [OF i32_described d], of _ un_i32] by simp
next
  case RU32
  show ?case using tells_weaken [OF tells_described [OF u32_described d], of _ un_u32] by simp
next
  case RU64
  show ?case using tells_weaken [OF tells_described [OF u64_described d], of _ un_u64] by simp
next
  case RString
  have "type_ok P K RString v \<Longrightarrow> string_ok (un_string v)" for v by auto
  from tells_weaken [OF tells_transparent [OF tells_described [OF str_described d]] this] show ?case by simp
next
  case (ROption t)
  have "type_ok P K (ROption t) v \<Longrightarrow> option_ok (type_ok P K t) (un_option v)" for v by auto
  from tells_weaken [OF tells_option [OF ROption.IH d] this] ROption.prems show ?case by simp
next
  case (RResult t e)
  have "type_ok P K (RResult t e) v \<Longrightarrow> result_ok (type_ok P K t) (type_ok P K e) (un_result v)" for v by auto
  from tells_weaken [OF tells_result [OF RResult.IH d] this] RResult.prems show ?case by simp
next
  case (RBox t)
  then show ?case using tells_transparent by simp
next
  case (RVec t)
  have "type_ok P K (RVec t) v \<Longrightarrow> vec_ok (type_ok P K t) (un_list v)" for v by auto
  from tells_weaken [OF tells_collection [OF RVec.IH d] this] RVec.prems show ?case by simp
next
  case (RArray N t)
  have "type_ok P K (RArray N t) v \<Longrightarrow> array_ok N (type_ok P K t) (un_list v)" for v by auto
  from tells_weaken [OF tells_array [OF RArray.IH d] this] RArray.prems show ?case by simp
next
  case (RPair t t')
  have "type_ok P K (RPair t t') v \<Longrightarrow> pair_ok (type_ok P K t) (type_ok P K t') (un_pair v)" for v by auto
  from tells_weaken [OF tells_pair [OF RPair.IH d] this] RPair.prems show ?case by simp
next
  case (RStringMap t)
  have "type_ok P K (RStringMap t) v \<Longrightarrow> btree_map_ok string_ok (type_ok P K t) (un_map v)" for v by auto
  from tells_weaken [OF tells_map [OF tells_transparent [OF tells_described [OF str_described d]] RStringMap.IH d] this] RStringMap.prems
  show ?case by simp
next
  case (RUser name)
  then show ?case by simp
qed

text \<open>The fields of a struct whose name the table has.\<close>

lemma members_tell:
  assumes p: "plain_schema_fields P flds"
    and tell: "\<And>f. f \<in> set (kept_fields (pg_literals P) (fields_list flds)) \<Longrightarrow>
      tells d (env_type E (fld_ty f)) (enc f) (type_ok P K (pg_resolve P name (fld_ty f))) \<and> at_rest (env_type E (fld_ty f)) d"
    and vals: "members_ok P K name (fields_list flds) vals"
  shows "encodes_all (map_of d) (refs (Struct (fst (process_fields (item_of (pg_literals P) E flds)))))
    (fields_enc (pg_literals P) enc (fields_list flds) vals)"
proof -
  let ?L = "pg_literals P"
  have "encodes_all (map_of d) (List.map (\<lambda>f. declaration_of (env_type E (fld_ty f))) (kept_fields ?L fs)) (fields_enc ?L enc fs vals)"
    if "members_ok P K name fs vals" and "set (kept_fields ?L fs) \<subseteq> set (kept_fields ?L (fields_list flds))" for fs
    using that
  proof (induction fs arbitrary: vals)
    case Nil
    then show ?case by (simp add: kept_fields_def fields_enc_def members_ok_def encodes_encodes_all.none)
  next
    case (Cons f fs)
    then obtain v vs where v: "vals = v # vs" and rest: "members_ok P K name fs vs"
      by (cases vals) (auto simp: members_ok_def)
    show ?case
    proof (cases "at_skip (attrs_of ?L f)")
      case True
      with Cons.IH [OF rest] Cons.prems(2) show ?thesis by (simp add: v kept_fields_def fields_enc_def)
    next
      case False
      then have f: "f \<in> set (kept_fields ?L (fields_list flds))" using Cons.prems(2) by (simp add: kept_fields_def)
      have "type_ok P K (pg_resolve P name (fld_ty f)) v" using Cons.prems(1) False by (simp add: v members_ok_def)
      with tell [OF f] have "encodes (map_of d) (declaration_of (env_type E (fld_ty f))) (enc f v)" by (blast intro: tells_encodes)
      from encodes_encodes_all.more [OF this Cons.IH [OF rest]] Cons.prems(2) False
      show ?thesis by (simp add: v kept_fields_def fields_enc_def)
    qed
  qed
  from this [OF vals] have "encodes_all (map_of d) (List.map (\<lambda>f. declaration_of (env_type E (fld_ty f))) (kept_fields ?L (fields_list flds)))
      (fields_enc ?L enc (fields_list flds) vals)" by simp
  then show ?thesis by (simp add: item_refs(1) plain_field_schema(1) [OF p] cong: map_cong)
qed

text \<open>A derived struct that is at rest has its definition in the table.\<close>

lemma struct_at_rest:
  assumes r: "at_rest (derived_struct_schema ident params item) d" and d: "ordered d"
    and impl: "schema_impl (derived_struct_schema ident params item)"
  shows "map_of d (derived_declaration ident params) = Some (Struct (fst (process_fields item)))"
proof -
  let ?self = "derived_declaration ident params"
  have "{?self} \<subseteq> dom (map_of d)"
    using adds_Ok [OF schema_impl.adds_impl [OF impl] d r [unfolded at_rest_def]] by (simp add: derived_struct_schema_def Let_def)
  then have "add_definition ?self (Struct (fst (process_fields item))) d = Some (Ok (), d)"
    using r by (auto simp: at_rest_def derived_struct_schema_def Let_def)
  then show ?thesis by (rule definition_entry [OF _ d])
qed

lemma struct_tells:
  assumes full: "full_table S F d" and p: "plain_schema_fields P flds"
    and F: "F (derived_declaration ident params) = Some (field_types P name flds)"
    and impl: "schema_impl (derived_struct_schema ident params (item_of (pg_literals P) (item_env P S name) flds))"
    and r: "at_rest (derived_struct_schema ident params (item_of (pg_literals P) (item_env P S name) flds)) d"
    and users: "\<And>f n. f \<in> set (kept_fields (pg_literals P) (fields_list flds)) \<Longrightarrow> n \<in> mentions (pg_resolve P name (fld_ty f)) \<Longrightarrow>
      tells d (S n) (E n) (K n)"
    and vals: "members_ok P K name (fields_list flds) vals"
  shows "encodes (map_of d) (derived_declaration ident params)
    (fields_enc (pg_literals P) (\<lambda>f. type_enc P E (pg_resolve P name (fld_ty f))) (fields_list flds) vals)"
proof -
  have d: "ordered d" using full by (simp add: full_table_def)
  note entry = struct_at_rest [OF r d impl]
  have rest: "at_rest (type_schema S t) d" if "t \<in> set (field_types P name flds)" for t
    using full F entry that unfolding full_table_def by fastforce
  have "encodes_all (map_of d) (refs (Struct (fst (process_fields (item_of (pg_literals P) (item_env P S name) flds)))))
      (fields_enc (pg_literals P) (\<lambda>f. type_enc P E (pg_resolve P name (fld_ty f))) (fields_list flds) vals)"
  proof (rule members_tell [OF p _ vals])
    fix f assume f: "f \<in> set (kept_fields (pg_literals P) (fields_list flds))"
    have "at_rest (type_schema S (pg_resolve P name (fld_ty f))) d" by (rule rest) (use f in \<open>simp add: field_types_def\<close>)
    with type_tells [OF d users [OF f]] show "tells d (env_type (item_env P S name) (fld_ty f)) (type_enc P E (pg_resolve P name (fld_ty f)))
        (type_ok P K (pg_resolve P name (fld_ty f))) \<and> at_rest (env_type (item_env P S name) (fld_ty f)) d"
      by (simp add: item_env_def)
  qed
  with entry show ?thesis by (rule encodes_encodes_all.struct [where D = "map_of d"])
qed

text \<open>A derived enum that is at rest has its definition and those of its variants.\<close>

lemma enum_at_rest:
  assumes r: "at_rest (derived_enum_schema ident params vs) d" and d: "ordered d"
    and impls: "\<forall>v\<in>set vs. schema_impl (variant_schema ident v)"
  shows "map_of d (derived_declaration ident params) = Some (Enum 1 (List.map
      (\<lambda>v. (ucast (variant_discriminant v), variant_name v, declaration_of (variant_schema ident v))) vs))"
    and "v \<in> set vs \<Longrightarrow> at_rest (variant_schema ident v) d"
proof -
  let ?Vs = "List.map (variant_schema ident) vs"
  have all: "\<forall>V\<in>set ?Vs. schema_impl V" using impls by simp
  from r have "and_then (add_all ?Vs) (\<lambda>_. add_definition (derived_declaration ident params) (Enum 1 (List.map
      (\<lambda>v. (ucast (variant_discriminant v), variant_name v, declaration_of (variant_schema ident v))) vs))) d = Some (Ok (), d)"
    by (simp add: at_rest_def derived_enum_schema_def Let_def)
  from then_at_rest [OF this d add_all_impl [OF all] adds_definition]
  have two: "add_all ?Vs d = Some (Ok (), d)" "add_definition (derived_declaration ident params) (Enum 1 (List.map
      (\<lambda>v. (ucast (variant_discriminant v), variant_name v, declaration_of (variant_schema ident v))) vs)) d = Some (Ok (), d)"
    by blast+
  show "map_of d (derived_declaration ident params) = Some (Enum 1 (List.map
      (\<lambda>v. (ucast (variant_discriminant v), variant_name v, declaration_of (variant_schema ident v))) vs))"
    by (rule definition_entry [OF two(2) d])
  show "v \<in> set vs \<Longrightarrow> at_rest (variant_schema ident v) d" using each_at_rest [OF _ d two(1)] all by simp
qed

lemma tag_encodes:
  assumes "D decl = Some (Enum 1 es)" and "(ucast (b :: u8), name, v) \<in> set es" and "encodes D v bs"
  shows "encodes D decl (b # bs)"
proof -
  have "unat (ucast b :: DiscriminantValue) = unat b" and "unat b < 256"
    using unsigned_less [of b, where ?'a = nat] by (simp_all add: unsigned_ucast_eq take_bit_nat_eq_self)
  with encodes_encodes_all.enum [where D = D, OF assms] show ?thesis by simp
qed

lemma item_variant_impl:
  assumes acc: "schemas_accepted P N (dom F)" and fixed: "fixed_level P N S" and listed: "structs_listed P N F"
    and i: "pg_items P name = Some (DerivedEnum e)" and v: "v \<in> set (item_variants P S name e)"
  shows "schema_impl (variant_schema (en_ident e) v)"
proof -
  let ?w = "variant_of (pg_literals P) (pg_tokens P) (pg_cratename P) (item_env P S name) e (uses_discriminant e)"
  from v obtain x where x: "x \<in> set (List.enumerate 0 (en_variants e))" and w: "v = ?w x"
    unfolding item_variants_def by (auto simp del: split_paired_All)
  have "enum_schema_accepted P N (dom F) name e"
    using schema_accepted_cases [OF acc, of name] i by fastforce
  then have p: "plain_schema_fields P (var_fields (snd x))" using enumerated [OF x] by (simp add: enum_schema_accepted_def)
  note F = variant_listed [OF listed i fixed_levelD(1) [OF fixed] x]
  show ?thesis
    unfolding w variant_schema_of
    by (rule item_struct_impl [OF p env_impl [OF fixed_levelD(2) [OF fixed]]]) (rule field_items [OF listed F])
qed

lemma item_tag:
  assumes "program_accepted P" and i: "pg_items P name = Some (DerivedEnum e)" and x: "x \<in> set (List.enumerate 0 (en_variants e))"
  shows "\<exists>n. declared_tag (en_variants e) (uses_discriminant e) x = Some n"
proof -
  have "enum_item_accepted P name e" using accepted_cases [OF assms(1), of name] i by fastforce
  then obtain code where u: "contains_use_discriminant e = Ok (uses_discriminant e)" "uses_discriminant e \<longrightarrow> discriminants_accepted (en_variants e)"
    and code: "ser_enum_process (pg_literals P) (pg_tokens P) (pg_cratename P) e = Ok code"
    unfolding enum_item_accepted_def by blast
  from tag_of_tokens [OF u(2) x ser_enum_got [OF code u(1) x]] show ?thesis by blast
qed

lemma user_tells:
  assumes prog: "program_accepted P" and acc: "schemas_accepted P N (dom F)"
    and listed: "structs_listed P N F" and fixed: "fixed_level P N S" and full: "full_table S F d"
  shows "pg_items P name \<noteq> None \<Longrightarrow> tells d (S name) (user_enc P n name) (user_ok P n name)"
proof (induction n arbitrary: name)
  case 0
  then show ?case using fixed_levelD(2) [OF fixed] by (simp add: tells_def)
next
  case (Suc n)
  let ?L = "pg_literals P" and ?E = "user_enc P n" and ?K = "user_ok P n"
  have d: "ordered d" using full by (simp add: full_table_def)
  have struct: "encodes (map_of d) (derived_declaration ident params)
      (fields_enc ?L (\<lambda>f. type_enc P ?E (pg_resolve P name (fld_ty f))) (fields_list flds) vals) "
    if F: "F (derived_declaration ident params) = Some (field_types P name flds)" and p: "plain_schema_fields P flds"
      and r: "at_rest (derived_struct_schema ident params (item_of ?L (item_env P S name) flds)) d"
      and vals: "members_ok P ?K name (fields_list flds) vals" for ident params flds vals
  proof (rule struct_tells [OF full p F _ r _ vals])
    show "schema_impl (derived_struct_schema ident params (item_of ?L (item_env P S name) flds))"
      by (rule item_struct_impl [OF p env_impl [OF fixed_levelD(2) [OF fixed]]]) (rule field_items [OF listed F])
    show "tells d (S m) (?E m) (?K m)"
      if "f \<in> set (kept_fields ?L (fields_list flds))" "m \<in> mentions (pg_resolve P name (fld_ty f))" for f m
      by (rule Suc.IH) (rule field_items [OF listed F that])
  qed
  have "encodes (map_of d) (N name) (user_enc P (Suc n) name v)" if r: "at_rest (S name) d" and v: "user_ok P (Suc n) name v" for v
  proof -
    have r: "at_rest (item_schema P N S name) d"
      using r fixed_levelD(3) [OF fixed Suc.prems d] by (simp add: at_rest_def)
    show ?thesis
    proof (rule schema_accepted_cases [OF acc, of name])
      fix s assume i: "pg_items P name = Some (DerivedStruct s)" "struct_schema_accepted P N (dom F) name s"
      from struct_schema_is [OF i fixed_levelD(1) [OF fixed]] obtain params where
        sc: "item_schema P N S name = derived_struct_schema (st_ident s) params (item_of ?L (item_env P S name) (st_fields s))"
        and nm: "derived_declaration (st_ident s) params = N name" by blast
      from v i(1) obtain vals where vals: "v = VStruct vals" "members_ok P ?K name (fields_list (st_fields s)) vals"
        by (auto simp: item_ok_def)
      have F: "F (derived_declaration (st_ident s) params) = Some (field_types P name (st_fields s))"
        unfolding nm by (rule structs_listedD(3) [OF listed i(1)])
      have p: "plain_schema_fields P (st_fields s)" using i(2) by (simp add: struct_schema_accepted_def)
      from struct [OF F p r [unfolded sc] vals(2)] show ?thesis by (simp add: nm vals(1) item_enc_def i(1) Let_def)
    next
      fix e assume i: "pg_items P name = Some (DerivedEnum e)" "enum_schema_accepted P N (dom F) name e"
      let ?w = "variant_of ?L (pg_tokens P) (pg_cratename P) (item_env P S name) e (uses_discriminant e)"
      let ?vs = "item_variants P S name e"
      from enum_schema_is [OF i fixed_levelD(1) [OF fixed]] obtain params where
        sc: "item_schema P N S name = derived_enum_schema (en_ident e) params ?vs"
        and nm: "derived_declaration (en_ident e) params = N name" unfolding item_variants_def by blast
      have impls: "\<forall>v\<in>set ?vs. schema_impl (variant_schema (en_ident e) v)"
        using item_variant_impl [OF acc fixed listed i(1)] by blast
      note rest = enum_at_rest [OF r [unfolded sc] d impls]
      from v i(1) obtain vn vals k w where v: "v = VEnum (vn, vals)" and w: "variant_named (en_variants e) vn = Some (k, w)"
        and vals: "members_ok P ?K name (fields_list (var_fields w)) vals"
        by (auto simp: item_ok_def enum_ok_def split: option.splits)
      note iw = variant_named_Some [OF w]
      have p: "plain_schema_fields P (var_fields w)" using i(2) iw(5) by (simp add: enum_schema_accepted_def)
      have mem: "?w (k, w) \<in> set ?vs" using iw(1) by (simp add: item_variants_def)
      have F: "F (derived_declaration (en_ident e @ var_ident w) (variant_params (?w (k, w)))) = Some (field_types P name (var_fields w))"
        using variant_listed [OF listed i(1) fixed_levelD(1) [OF fixed] iw(1)] by simp
      have vs: "variant_schema (en_ident e) (?w (k, w)) = derived_struct_schema (en_ident e @ var_ident w)
          (variant_params (?w (k, w))) (item_of ?L (item_env P S name) (var_fields w))"
        using variant_schema_of [of "en_ident e" ?L _ _ _ e _ "(k, w)"] by simp
      have body: "encodes (map_of d) (declaration_of (variant_schema (en_ident e) (?w (k, w))))
          (fields_enc ?L (\<lambda>f. type_enc P ?E (pg_resolve P name (fld_ty f))) (fields_list (var_fields w)) vals)"
        using struct [OF F p rest(2) [OF mem, unfolded vs] vals] by (simp add: vs derived_struct_schema_def Let_def)
      from item_tag [OF prog i(1) iw(1)] have tag:
        "variant_discriminant (?w (k, w)) = word_of_int (the (declared_tag (en_variants e) (uses_discriminant e) (k, w)))"
        by (auto simp: variant_of_def)
      have "(ucast (variant_discriminant (?w (k, w))), variant_name (?w (k, w)), declaration_of (variant_schema (en_ident e) (?w (k, w)))) \<in>
          set (List.map (\<lambda>v. (ucast (variant_discriminant v), variant_name v, declaration_of (variant_schema (en_ident e) v))) ?vs)"
        using mem by auto
      from tag_encodes [where D = "map_of d", OF rest(1) this body] show ?thesis
        by (simp add: nm v item_enc_def i(1) Let_def enum_enc_def w tag)
    qed (use Suc.prems in simp)
  qed
  then show ?case using fixed_levelD [OF fixed] Suc.prems by (simp add: tells_def)
qed

end
