(* ===== verification/Rust_Schema_Properties.thy ===== *)
theory Rust_Schema_Properties
  imports Rust_Program_Properties Rust_Schema_Meaning
begin

section \<open>Properties of the schemas of recursive types\<close>

text \<open>
  The claims about the schemas of recursive derived types, with the types of the repository's
  tests of recursion (\<open>borsh/tests/schema\<close>) as the program.
\<close>

subsection \<open>The schemas of the tests\<close>

abbreviation test_names :: "Declaration set" where
  "test_names \<equiv> {''CRecB'', ''CRecC'', ''ERecDB'', ''ERecDC''}"

definition test_fields :: "Declaration \<rightharpoonup> rust_type list" where
  "test_fields = [''CRecB'' \<mapsto> [RString, RVec (RUser ''CRecB'')], ''CRecC'' \<mapsto> [RString, RStringMap (RUser ''CRecC'')],
     ''ERecDB'' \<mapsto> [RString, RI32], ''ERecDC'' \<mapsto> [RU8, RVec (RUser ''ERecD'')]]"

lemma dom_test_fields: "dom test_fields = test_names"
  by (auto simp: test_fields_def)

lemmas schema_process_eval = schema_struct_process_def schema_process_fields_def visit_struct_fields_def schema_visit_field_def
  needs_schema_params_derive_def generics_result_def filter_used_params_def process_for_params_def parse_filtered
  schema_process_field_def field_declaration_output_def field_definitions_output_def schema_declaration_def schema_definitions_def
  inner_struct_definition_def visit_struct_fields_unconditional_def process_eval

lemma test_schema_structs:
  "\<exists>code. schema_struct_process no_literals type_tokens ''borsh'' crecb_struct = Ok code \<and> snd (sc_declaration code) = []"
  "\<exists>code. schema_struct_process no_literals type_tokens ''borsh'' crecc_struct = Ok code \<and> snd (sc_declaration code) = []"
  by (simp_all add: crecb_struct_def crecc_struct_def applied_type_def schema_process_eval)

lemma test_schema_enum:
  "\<exists>code. schema_enum_process no_literals type_tokens ''borsh'' erecd_enum = Ok code \<and> snd (sec_declaration code) = []"
  by (simp add: schema_enum_process_def erecd_use)
    (simp add: erecd_enum_def applied_type_def schema_process_variant_def identifier_eval discriminants_get_def schema_process_eval)

lemma test_variant_names: "variant_struct_names test_program (\<lambda>n. n) name erecd_enum = [''ERecDB'', ''ERecDC'']"
  by (simp add: variant_struct_names_def uses_discriminant_def erecd_use)
    (simp add: erecd_enum_def applied_type_def variant_schema_def variant_of_def declared_tag_def output_of_def derived_struct_schema_def
      derived_declaration_def schema_process_eval)

lemma test_plain_fields:
  "plain_schema_fields test_program (st_fields crecb_struct)" "plain_schema_fields test_program (st_fields crecc_struct)"
  "\<forall>v\<in>set (en_variants erecd_enum). plain_schema_fields test_program (var_fields v)"
  by (auto simp: plain_schema_fields_def kept_fields_def crecb_struct_def crecc_struct_def erecd_enum_def process_eval
      schema_declaration_def schema_definitions_def)

lemma test_cases:
  obtains "pg_items test_program name = None" | "name = ''CRecB''" | "name = ''CRecC''" | "name = ''ERecD''"
  by (cases "name = ''CRecB'' \<or> name = ''CRecC'' \<or> name = ''ERecD''") (auto simp: test_program_def)

lemma test_idents: "st_ident crecb_struct = ''CRecB''" "st_ident crecc_struct = ''CRecC''" "en_ident erecd_enum = ''ERecD''"
  by (simp_all add: crecb_struct_def crecc_struct_def erecd_enum_def)

lemma test_schemas_accepted: "schemas_accepted test_program (\<lambda>n. n) test_names"
proof -
  obtain b where b: "schema_struct_process no_literals type_tokens ''borsh'' crecb_struct = Ok b" "snd (sc_declaration b) = []"
    using test_schema_structs by blast
  have "struct_schema_accepted test_program (\<lambda>n. n) test_names ''CRecB'' crecb_struct"
    using test_plain_fields b by (simp add: struct_schema_accepted_def declared_as_def derived_declaration_def test_idents)
  moreover obtain c where c: "schema_struct_process no_literals type_tokens ''borsh'' crecc_struct = Ok c" "snd (sc_declaration c) = []"
    using test_schema_structs by blast
  have "struct_schema_accepted test_program (\<lambda>n. n) test_names ''CRecC'' crecc_struct"
    using test_plain_fields c by (simp add: struct_schema_accepted_def declared_as_def derived_declaration_def test_idents)
  moreover obtain d where d: "schema_enum_process no_literals type_tokens ''borsh'' erecd_enum = Ok d" "snd (sec_declaration d) = []"
    using test_schema_enum by blast
  have "variants_scoped erecd_enum" by (simp add: erecd_enum_def variants_scoped_def type_params_def List.map_filter_simps)
  then have "enum_schema_accepted test_program (\<lambda>n. n) test_names ''ERecD'' erecd_enum"
    using test_plain_fields d
    by (simp add: enum_schema_accepted_def declared_as_def derived_declaration_def test_variant_names uses_discriminant_def erecd_use test_idents)
  ultimately have "case pg_items test_program name of
      Some (DerivedStruct s) \<Rightarrow> struct_schema_accepted test_program (\<lambda>n. n) test_names name s
    | Some (DerivedEnum e) \<Rightarrow> enum_schema_accepted test_program (\<lambda>n. n) test_names name e
    | None \<Rightarrow> True" for name by (cases name rule: test_cases) simp_all
  then show ?thesis unfolding schemas_accepted_def by simp
qed

lemma test_names_apart: "names_apart (\<lambda>n. n) test_names"
proof -
  have "library_type t \<Longrightarrow> type_declaration (\<lambda>n. n) t \<notin> test_names" for t
    by (cases t) (simp_all add: type_declaration_def option_schema_def result_schema_def transparent_schema_def collection_schema_def
        array_schema_def tuple_schema_def tuple_declaration_def btree_map_schema_def map_schema_def no_schema_def Let_def
        bool_schema_def u8_schema_def u32_schema_def u64_schema_def primitive_schema_def str_schema_def)
  then show ?thesis by (simp add: names_apart_def)
qed

lemma test_structs_listed: "structs_listed test_program (\<lambda>n. n) test_fields"
proof -
  have "field_types test_program name (st_fields crecb_struct) = [RString, RVec (RUser ''CRecB'')]"
    "field_types test_program name (st_fields crecc_struct) = [RString, RStringMap (RUser ''CRecC'')]"
    "List.map (\<lambda>v. Some (field_types test_program name (var_fields v))) (en_variants erecd_enum) =
       [Some [RString, RI32], Some [RU8, RVec (RUser ''ERecD'')]]" for name
    by (simp_all add: field_types_def kept_fields_def crecb_struct_def crecc_struct_def erecd_enum_def)
  then have "case pg_items test_program name of
        Some (DerivedStruct s) \<Rightarrow> test_fields name = Some (field_types test_program name (st_fields s))
      | Some (DerivedEnum e) \<Rightarrow> name \<notin> test_names \<and>
          List.map test_fields (variant_struct_names test_program (\<lambda>n. n) name e) =
            List.map (\<lambda>v. Some (field_types test_program name (var_fields v))) (en_variants e)
      | None \<Rightarrow> True" for name
    by (cases name rule: test_cases) (simp_all add: test_variant_names, simp_all add: test_fields_def)
  moreover have "test_fields k = Some ts \<Longrightarrow> u \<in> set ts \<Longrightarrow> n \<in> mentions u \<Longrightarrow> pg_items test_program n \<noteq> None" for k ts u n
    by (auto simp: test_fields_def split: if_splits)
  ultimately show ?thesis unfolding structs_listed_def dom_test_fields using test_names_apart by blast
qed

subsection \<open>The properties\<close>

text \<open>
  C37. The schema of a recursive type is finite. Deriving the schema of any type of a program
  returns or panics after at most as many nested calls of derived code as there are structs
  in the program's schemas: what a call nested deeper would do makes no difference. A
  container that is returned has the declaration of the type, with its definition, and the
  definition of everything that a definition refers to.
\<close>

theorem recursive_schema_returns:
  assumes "schemas_accepted P N X" and "program_closed P" and "\<forall>name\<in>mentions t. pg_items P name \<noteq> None"
  shows "\<exists>x. (\<forall>base n. (\<forall>m. declaration_of (base m) = N m) \<longrightarrow> card X < n \<longrightarrow>
      for_type (type_schema (user_schema P N base n) t) = Some x) \<and>
    (x = Panic \<or> (\<exists>c. x = Ok c \<and> container_declaration c = type_declaration N t \<and>
      get_definition c (container_declaration c) \<noteq> None \<and>
      (\<forall>k def r. get_definition c k = Some def \<longrightarrow> r \<in> set (refs def) \<longrightarrow> get_definition c r \<noteq> None)))"
proof -
  let ?L = "type_schema (user_schema P N (panicking N) (Suc (card X))) t"
  note impl = top_level_impl [OF assms, of "Suc (card X)"]
  from schema_impl.returns_or_panics [OF impl(1)] obtain x where x: "for_type ?L = Some x" and "x = Panic \<or> (\<exists>c. x = Ok c)" by blast
  moreover have "container_declaration c = type_declaration N t \<and> get_definition c (container_declaration c) \<noteq> None \<and>
      (\<forall>k def r. get_definition c k = Some def \<longrightarrow> r \<in> set (refs def) \<longrightarrow> get_definition c r \<noteq> None)" if "x = Ok c" for c
    using schema_impl.for_type_closed [OF impl(1) x [unfolded that]] impl(2) by (metis (no_types))
  ultimately have "x = Panic \<or> (\<exists>c. x = Ok c \<and> container_declaration c = type_declaration N t \<and>
      get_definition c (container_declaration c) \<noteq> None \<and>
      (\<forall>k def r. get_definition c k = Some def \<longrightarrow> r \<in> set (refs def) \<longrightarrow> get_definition c r \<noteq> None))" by blast
  with enough_levels [OF assms] x show ?thesis by metis
qed

text \<open>The container of \<open>CRecC\<close>, with the definitions of \<open>recursive_struct_schema\<close>.\<close>

definition crecc_table :: definitions where
  "crecc_table = [(''(String, CRecC)'', Tuple [''String'', ''CRecC'']),
     (''BTreeMap<String, CRecC>'', tagged_sequence ''(String, CRecC)''),
     (''CRecC'', Struct (NamedFields [(''a'', ''String''), (''b'', ''BTreeMap<String, CRecC>'')])),
     (''String'', tagged_sequence ''u8''), (''u8'', Primitive 1)]"

lemma crecc_level:
  assumes "\<And>n. declaration_of (S n) = n"
  shows "item_schema test_program (\<lambda>n. n) S ''CRecC'' = derived_struct_schema ''CRecC'' [] (Named_Fields
    [plain_field ''a'' (transparent_schema str_schema),
     plain_field ''b'' (btree_map_schema (transparent_schema str_schema) (S ''CRecC''))])"
proof -
  have "struct_schema_accepted test_program (\<lambda>n. n) test_names ''CRecC'' crecc_struct"
    by (rule schema_accepted_cases [OF test_schemas_accepted, of "''CRecC''"]) simp_all
  from struct_schema_is [OF _ this assms] obtain params where
    r: "item_schema test_program (\<lambda>n. n) S ''CRecC'' = derived_struct_schema (st_ident crecc_struct) params
      (item_of no_literals (item_env test_program S ''CRecC'') (st_fields crecc_struct))"
    and name: "derived_declaration (st_ident crecc_struct) params = ''CRecC''" by auto
  from name have "params = []" by (cases params) (simp_all add: derived_declaration_def test_idents)
  then show ?thesis
    unfolding r by (simp add: crecc_struct_def schema_field_of_def plain_field_def item_env_def schema_declaration_def schema_definitions_def)
qed

lemma crecc_run:
  assumes "\<And>n. declaration_of (S n) = n"
  shows "for_type (item_schema test_program (\<lambda>n. n) (item_schema test_program (\<lambda>n. n) S) ''CRecC'') =
    Some (Ok (container_new ''CRecC'' crecc_table))"
proof -
  have S: "declaration_of (item_schema test_program (\<lambda>n. n) S n) = n" for n
    by (rule item_schema_declaration [OF test_schemas_accepted assms])
  show ?thesis
    unfolding crecc_level [OF S] crecc_level [OF assms]
    by (simp add: for_type_def derived_struct_schema_def derived_declaration_def plain_field_def field_definitions_def field_declaration_def
        transparent_schema_def str_schema_def btree_map_schema_def map_schema_def tuple_schema_def tuple_declaration_def add_all_def
        u8_schema_def primitive_schema_def add_definition_def and_then_def ret_def less_char_def Let_def crecc_table_def assms)
qed

lemma crecc_container:
  "for_type (user_schema test_program (\<lambda>n. n) (no_schema (\<lambda>n. n)) 5 ''CRecC'') = Some (Ok (container_new ''CRecC'' crecc_table))"
proof -
  have "user_schema test_program (\<lambda>n. n) (no_schema (\<lambda>n. n)) 5 = item_schema test_program (\<lambda>n. n) (item_schema test_program (\<lambda>n. n)
      (user_schema test_program (\<lambda>n. n) (no_schema (\<lambda>n. n)) 3))" by (simp add: eval_nat_numeral)
  moreover have "declaration_of (user_schema test_program (\<lambda>n. n) (no_schema (\<lambda>n. n)) 3 m) = m" for m
    by (rule user_schema_declaration [OF test_schemas_accepted]) (simp add: no_schema_def)
  ultimately show ?thesis by (simp only: crecc_run)
qed

theorem recursive_schema_returns_witness:
  "for_type (user_schema test_program (\<lambda>n. n) (no_schema (\<lambda>n. n)) 7 ''CRecC'') = Some (Ok (container_new ''CRecC'' crecc_table))"
proof -
  from recursive_schema_returns [OF test_schemas_accepted test_program_closed, of "RUser ''CRecC''"] obtain x where
    x: "\<forall>base n. (\<forall>m. declaration_of (base m) = m) \<longrightarrow> card test_names < n \<longrightarrow>
      for_type (user_schema test_program (\<lambda>n. n) base n ''CRecC'') = Some x" by auto
  have "for_type (user_schema test_program (\<lambda>n. n) (no_schema (\<lambda>n. n)) n ''CRecC'') = Some x" if "n = 5 \<or> n = 7" for n
    by (rule x [rule_format]) (use that in \<open>auto simp: no_schema_def\<close>)
  then show ?thesis using crecc_container by metis
qed

text \<open>
  C38. The schema of a recursive type describes its bytes. What \<open>to_vec\<close> writes for a value of a
  type with recursive derived parts, of any depth, is laid out as the container says that was
  derived for the type: the finite table describes values of every depth.
\<close>

theorem recursive_schema_describes_bytes:
  assumes "program_accepted P" and "program_closed P" and "schemas_accepted P N (dom F)" and "structs_listed P N F"
    and "\<forall>name\<in>mentions t. pg_items P name \<noteq> None" and "sized P t" and "type_ok P (user_ok P n) t v"
    and "\<forall>k. declaration_of (base k) = N k" and "card (dom F) < m"
    and "for_type (type_schema (user_schema P N base m) t) = Some (Ok c)"
  shows "\<exists>bs. (\<forall>k\<ge>n. to_vec (type_ser P (user_ser P k) t) v = Some (Ok bs)) \<and>
    encodes (get_definition c) (container_declaration c) bs"
proof -
  let ?S = "user_schema P N (panicking N) (Suc (card (dom F)))"
  note fixed = top_level_fixed [where B = "panicking N", OF assms(3,2) panicking_impl]
  have "for_type (type_schema ?S t) = Some (Ok c)"
    using enough_levels [OF assms(3,2,5,8,9)] assms(10) by simp
  from schema_table_full [OF assms(3,4) fixed assms(5) this] obtain d where full: "full_table ?S F d"
    and r: "at_rest (type_schema ?S t) d" and c: "get_definition c = map_of d" "container_declaration c = type_declaration N t" .
  have "ordered d" using full by (simp add: full_table_def)
  then have "tells d (type_schema ?S t) (type_enc P (user_enc P n) t) (type_ok P (user_ok P n) t)"
    by (rule type_tells) (rule user_tells [OF assms(1,3,4) fixed full], use assms(5) in blast)
  from tells_encodes [OF this r assms(7)] have "encodes (get_definition c) (container_declaration c) (type_enc P (user_enc P n) t v)"
    by (simp add: c type_schema_declaration [OF fixed_levelD(1) [OF fixed]] del: user_schema.simps)
  with program_round_trip(1) [OF assms(1,6,7)] show ?thesis by blast
qed

definition crecc_pair :: rust_value where
  "crecc_pair = VStruct [VString ''root'', VMap [(''x'', VStruct [VString ''leaf'', VMap []])]]"

lemma crecc_level_ok:
  "item_ok test_program K ''CRecC'' (VStruct [a, b]) \<longleftrightarrow> type_ok test_program K RString a \<and> type_ok test_program K (RStringMap (RUser ''CRecC'')) b"
  by (simp add: item_ok_def members_ok_def crecc_struct_def del: type_ok.simps)

lemma crecc_pair_ok: "type_ok test_program (user_ok test_program 2) (RUser ''CRecC'') crecc_pair"
  by (simp add: two_levels crecc_pair_def crecc_level_ok ascii_ok btree_map_ok_def vec_ok_def pair_ok_def)

theorem recursive_schema_describes_bytes_witness:
  "\<exists>bs. to_vec (type_ser test_program (user_ser test_program 2) (RUser ''CRecC'')) crecc_pair = Some (Ok bs) \<and>
     encodes (map_of crecc_table) ''CRecC'' bs"
proof -
  have decl: "declaration_of (no_schema (\<lambda>n. n) m) = m" for m by (simp add: no_schema_def)
  have c: "for_type (type_schema (user_schema test_program (\<lambda>n. n) (no_schema (\<lambda>n. n)) 5) (RUser ''CRecC'')) =
      Some (Ok (container_new ''CRecC'' crecc_table))" by (simp only: crecc_container type_schema.simps)
  have acc: "schemas_accepted test_program (\<lambda>n. n) (dom test_fields)" unfolding dom_test_fields by (rule test_schemas_accepted)
  have "get_definition (container_new ''CRecC'' crecc_table) = map_of crecc_table" "container_declaration (container_new ''CRecC'' crecc_table) = ''CRecC''"
    by (rule ext, simp_all add: get_definition_def container_new_def)
  with recursive_schema_describes_bytes [OF test_program_accepted test_program_closed acc test_structs_listed _ _ crecc_pair_ok _ _ c]
  show ?thesis by (simp add: decl dom_test_fields) blast
qed

end
