(* ===== verification/Serialize_Snapshots.thy ===== *)
theory Serialize_Snapshots
  imports Derive_Test_Syntax
begin

section \<open>Recorded expansions of BorshSerialize\<close>

text \<open>
  The tests that \<open>borsh-derive/src/internals/serialize\<close> has for its macros: each expands an item and
  compares the code with a recorded snapshot. A definition here is the expansion that a test
  performs, and the lemma after it states that it is the code of the snapshot (the file in
  \<open>snapshots\<close> with the name of the test), or its error.
\<close>

subsection \<open>Tests of \<open>serialize/structs\<close>\<close>

definition ser_struct_simple_struct :: "(derive_error, ser_struct_code) outcome" where
  "ser_struct_simple_struct = ser_struct_process test_literals ty_tokens ''borsh''
    \<lparr>st_ident = ''A'', st_generics = \<lparr>gen_params = [], gen_where = None\<rparr>,
     st_fields = FieldsNamed [test_field [] (Some ''x'') (ident_type ''u64''),
       test_field [] (Some ''y'') (ident_type ''String'')],
     st_attrs = []\<rparr>"

lemma ser_struct_simple_struct_snapshot:
  "ser_struct_simple_struct =
    Ok \<lparr>ss_where = [],
     ss_body = [SerTrait (SelfField ''x''), SerTrait (SelfField ''y'')]\<rparr>"
  by (simp add: derive_eval ser_struct_simple_struct_def)

definition ser_struct_simple_struct_with_custom_crate :: "(derive_error, ser_struct_code) outcome" where
  "ser_struct_simple_struct_with_custom_crate = ser_struct_process test_literals ty_tokens ''reexporter::borsh''
    \<lparr>st_ident = ''A'', st_generics = \<lparr>gen_params = [], gen_where = None\<rparr>,
     st_fields = FieldsNamed [test_field [] (Some ''x'') (ident_type ''u64''),
       test_field [] (Some ''y'') (ident_type ''String'')],
     st_attrs = []\<rparr>"

lemma ser_struct_simple_struct_with_custom_crate_snapshot:
  "ser_struct_simple_struct_with_custom_crate =
    Ok \<lparr>ss_where = [],
     ss_body = [SerTrait (SelfField ''x''), SerTrait (SelfField ''y'')]\<rparr>"
  by (simp add: derive_eval ser_struct_simple_struct_with_custom_crate_def)

definition ser_struct_simple_generics :: "(derive_error, ser_struct_code) outcome" where
  "ser_struct_simple_generics = ser_struct_process test_literals ty_tokens ''borsh''
    \<lparr>st_ident = ''A'', st_generics = \<lparr>gen_params = [ParamType ''K'' [] None, ParamType ''V'' [] None],
       gen_where = None\<rparr>,
     st_fields = FieldsNamed [test_field [] (Some ''x'') (applied_type ''HashMap'' [ident_type ''K'',
       ident_type ''V'']), test_field [] (Some ''y'') (ident_type ''String'')],
     st_attrs = []\<rparr>"

lemma ser_struct_simple_generics_snapshot:
  "ser_struct_simple_generics =
    Ok \<lparr>ss_where = [PredicateType (ident_type ''K'') ''borsh::ser::BorshSerialize'',
       PredicateType (ident_type ''V'') ''borsh::ser::BorshSerialize''],
     ss_body = [SerTrait (SelfField ''x''), SerTrait (SelfField ''y'')]\<rparr>"
  by (simp add: derive_eval ser_struct_simple_generics_def)

definition ser_struct_simple_generic_tuple_struct :: "(derive_error, ser_struct_code) outcome" where
  "ser_struct_simple_generic_tuple_struct = ser_struct_process test_literals ty_tokens ''borsh''
    \<lparr>st_ident = ''TupleA'', st_generics = \<lparr>gen_params = [ParamType ''T'' [] None],
       gen_where = None\<rparr>,
     st_fields = FieldsUnnamed [test_field [] None (ident_type ''T''), test_field [] None (ident_type ''u32'')],
     st_attrs = []\<rparr>"

lemma ser_struct_simple_generic_tuple_struct_snapshot:
  "ser_struct_simple_generic_tuple_struct =
    Ok \<lparr>ss_where = [PredicateType (ident_type ''T'') ''borsh::ser::BorshSerialize''],
     ss_body = [SerTrait (SelfIndex 0), SerTrait (SelfIndex 1)]\<rparr>"
  by (simp add: derive_eval ser_struct_simple_generic_tuple_struct_def)

definition ser_struct_bound_generics :: "(derive_error, ser_struct_code) outcome" where
  "ser_struct_bound_generics = ser_struct_process test_literals ty_tokens ''borsh''
    \<lparr>st_ident = ''A'', st_generics = \<lparr>gen_params =
       [ParamType ''K'' [BoundTrait (Path False [Segment ''Key'' NoArguments])] None, ParamType ''V'' [] None],
       gen_where = Some [PredicateType (ident_type ''V'') ''Value'']\<rparr>,
     st_fields = FieldsNamed [test_field [] (Some ''x'') (applied_type ''HashMap'' [ident_type ''K'',
       ident_type ''V'']), test_field [] (Some ''y'') (ident_type ''String'')],
     st_attrs = []\<rparr>"

lemma ser_struct_bound_generics_snapshot:
  "ser_struct_bound_generics =
    Ok \<lparr>ss_where = [PredicateType (ident_type ''V'') ''Value'',
       PredicateType (ident_type ''K'') ''borsh::ser::BorshSerialize'',
       PredicateType (ident_type ''V'') ''borsh::ser::BorshSerialize''],
     ss_body = [SerTrait (SelfField ''x''), SerTrait (SelfField ''y'')]\<rparr>"
  by (simp add: derive_eval ser_struct_bound_generics_def)

definition ser_struct_recursive_struct :: "(derive_error, ser_struct_code) outcome" where
  "ser_struct_recursive_struct = ser_struct_process test_literals ty_tokens ''borsh''
    \<lparr>st_ident = ''CRecC'', st_generics = \<lparr>gen_params = [], gen_where = None\<rparr>,
     st_fields = FieldsNamed [test_field [] (Some ''a'') (ident_type ''String''),
       test_field [] (Some ''b'') (applied_type ''HashMap'' [ident_type ''String'', ident_type ''CRecC''])],
     st_attrs = []\<rparr>"

lemma ser_struct_recursive_struct_snapshot:
  "ser_struct_recursive_struct =
    Ok \<lparr>ss_where = [],
     ss_body = [SerTrait (SelfField ''a''), SerTrait (SelfField ''b'')]\<rparr>"
  by (simp add: derive_eval ser_struct_recursive_struct_def)

definition ser_struct_generic_tuple_struct_borsh_skip1 :: "(derive_error, ser_struct_code) outcome" where
  "ser_struct_generic_tuple_struct_borsh_skip1 = ser_struct_process test_literals ty_tokens ''borsh''
    \<lparr>st_ident = ''G'', st_generics = \<lparr>gen_params = [ParamType ''K'' [] None, ParamType ''V'' [] None,
       ParamType ''U'' [] None], gen_where = None\<rparr>,
     st_fields = FieldsUnnamed [test_field [borsh_attr [Meta ''skip'' NoValue]] None (applied_type ''HashMap''
       [ident_type ''K'', ident_type ''V'']), test_field [] None (ident_type ''U'')],
     st_attrs = []\<rparr>"

lemma ser_struct_generic_tuple_struct_borsh_skip1_snapshot:
  "ser_struct_generic_tuple_struct_borsh_skip1 =
    Ok \<lparr>ss_where = [PredicateType (ident_type ''U'') ''borsh::ser::BorshSerialize''],
     ss_body = [SerTrait (SelfIndex 1)]\<rparr>"
  by (simp add: derive_eval ser_struct_generic_tuple_struct_borsh_skip1_def)

definition ser_struct_generic_tuple_struct_borsh_skip2 :: "(derive_error, ser_struct_code) outcome" where
  "ser_struct_generic_tuple_struct_borsh_skip2 = ser_struct_process test_literals ty_tokens ''borsh''
    \<lparr>st_ident = ''G'', st_generics = \<lparr>gen_params = [ParamType ''K'' [] None, ParamType ''V'' [] None,
       ParamType ''U'' [] None], gen_where = None\<rparr>,
     st_fields = FieldsUnnamed [test_field [] None (applied_type ''HashMap'' [ident_type ''K'', ident_type ''V'']),
       test_field [borsh_attr [Meta ''skip'' NoValue]] None (ident_type ''U'')],
     st_attrs = []\<rparr>"

lemma ser_struct_generic_tuple_struct_borsh_skip2_snapshot:
  "ser_struct_generic_tuple_struct_borsh_skip2 =
    Ok \<lparr>ss_where = [PredicateType (ident_type ''K'') ''borsh::ser::BorshSerialize'',
       PredicateType (ident_type ''V'') ''borsh::ser::BorshSerialize''],
     ss_body = [SerTrait (SelfIndex 0)]\<rparr>"
  by (simp add: derive_eval ser_struct_generic_tuple_struct_borsh_skip2_def)

definition ser_struct_generic_named_fields_struct_borsh_skip :: "(derive_error, ser_struct_code) outcome" where
  "ser_struct_generic_named_fields_struct_borsh_skip = ser_struct_process test_literals ty_tokens ''borsh''
    \<lparr>st_ident = ''G'', st_generics = \<lparr>gen_params = [ParamType ''K'' [] None, ParamType ''V'' [] None,
       ParamType ''U'' [] None], gen_where = None\<rparr>,
     st_fields = FieldsNamed [test_field [borsh_attr [Meta ''skip'' NoValue]] (Some ''x'') (applied_type ''HashMap''
       [ident_type ''K'', ident_type ''V'']), test_field [] (Some ''y'') (ident_type ''U'')],
     st_attrs = []\<rparr>"

lemma ser_struct_generic_named_fields_struct_borsh_skip_snapshot:
  "ser_struct_generic_named_fields_struct_borsh_skip =
    Ok \<lparr>ss_where = [PredicateType (ident_type ''U'') ''borsh::ser::BorshSerialize''],
     ss_body = [SerTrait (SelfField ''y'')]\<rparr>"
  by (simp add: derive_eval ser_struct_generic_named_fields_struct_borsh_skip_def)

definition ser_struct_generic_associated_type :: "(derive_error, ser_struct_code) outcome" where
  "ser_struct_generic_associated_type = ser_struct_process test_literals ty_tokens ''borsh''
    \<lparr>st_ident = ''Parametrized'', st_generics = \<lparr>gen_params = [ParamType ''T'' [] None,
       ParamType ''V'' [] None], gen_where = Some [PredicateType (ident_type ''T'') ''TraitName'']\<rparr>,
     st_fields = FieldsNamed [test_field [] (Some ''field'') (qualified_type [''T'', ''Associated'']),
       test_field [] (Some ''another'') (ident_type ''V'')],
     st_attrs = []\<rparr>"

lemma ser_struct_generic_associated_type_snapshot:
  "ser_struct_generic_associated_type =
    Ok \<lparr>ss_where = [PredicateType (ident_type ''T'') ''TraitName'', PredicateType (qualified_type [''T'',
       ''Associated'']) ''borsh::ser::BorshSerialize'',
       PredicateType (ident_type ''V'') ''borsh::ser::BorshSerialize''],
     ss_body = [SerTrait (SelfField ''field''), SerTrait (SelfField ''another'')]\<rparr>"
  by (simp add: derive_eval ser_struct_generic_associated_type_def)

definition ser_struct_generic_serialize_bound :: "(derive_error, ser_struct_code) outcome" where
  "ser_struct_generic_serialize_bound = ser_struct_process test_literals ty_tokens ''borsh''
    \<lparr>st_ident = ''C'', st_generics = \<lparr>gen_params =
       [ParamType ''T'' [BoundTrait (Path False [Segment ''Debug'' NoArguments])] None, ParamType ''U'' [] None],
       gen_where = None\<rparr>,
     st_fields = FieldsNamed [test_field [] (Some ''a'') (ident_type ''String''),
       test_field [borsh_attr [Meta ''bound'' (Nested [Meta ''serialize'' (Assigned (LitStr
       ''T: borsh::ser::BorshSerialize + PartialOrd, U: borsh::ser::BorshSerialize''))])]] (Some ''b'') (applied_type
       ''HashMap'' [ident_type ''T'', ident_type ''U''])],
     st_attrs = []\<rparr>"

lemma ser_struct_generic_serialize_bound_snapshot:
  "ser_struct_generic_serialize_bound =
    Ok \<lparr>ss_where = [PredicateType (ident_type ''T'') ''borsh::ser::BorshSerialize + PartialOrd'',
       PredicateType (ident_type ''U'') ''borsh::ser::BorshSerialize''],
     ss_body = [SerTrait (SelfField ''a''), SerTrait (SelfField ''b'')]\<rparr>"
  by (simp add: derive_eval ser_struct_generic_serialize_bound_def)

definition ser_struct_override_generic_associated_type_wrong_derive :: "(derive_error, ser_struct_code) outcome" where
  "ser_struct_override_generic_associated_type_wrong_derive = ser_struct_process test_literals ty_tokens ''borsh''
    \<lparr>st_ident = ''Parametrized'', st_generics = \<lparr>gen_params = [ParamType ''T'' [] None,
       ParamType ''V'' [] None], gen_where = Some [PredicateType (ident_type ''T'') ''TraitName'']\<rparr>,
     st_fields = FieldsNamed [test_field [borsh_attr [Meta ''bound'' (Nested [Meta ''serialize'' (Assigned (LitStr
       ''<T as TraitName>::Associated: borsh::ser::BorshSerialize''))])]] (Some ''field'') (associated_type
       (ident_type ''T'') [''TraitName'', ''Associated'']), test_field [] (Some ''another'') (ident_type ''V'')],
     st_attrs = []\<rparr>"

lemma ser_struct_override_generic_associated_type_wrong_derive_snapshot:
  "ser_struct_override_generic_associated_type_wrong_derive =
    Ok \<lparr>ss_where = [PredicateType (ident_type ''T'') ''TraitName'',
       PredicateType (ident_type ''V'') ''borsh::ser::BorshSerialize'',
       PredicateType (associated_type (ident_type ''T'') [''TraitName'',
       ''Associated'']) ''borsh::ser::BorshSerialize''],
     ss_body = [SerTrait (SelfField ''field''), SerTrait (SelfField ''another'')]\<rparr>"
  by (simp add: derive_eval ser_struct_override_generic_associated_type_wrong_derive_def)

definition ser_struct_check_serialize_with_attr :: "(derive_error, ser_struct_code) outcome" where
  "ser_struct_check_serialize_with_attr = ser_struct_process test_literals ty_tokens ''borsh''
    \<lparr>st_ident = ''A'', st_generics = \<lparr>gen_params =
       [ParamType ''K'' [BoundTrait (Path False [Segment ''Ord'' NoArguments])] None, ParamType ''V'' [] None],
       gen_where = None\<rparr>,
     st_fields = FieldsNamed [test_field [borsh_attr [Meta ''serialize_with'' (Assigned (LitStr
       ''third_party_impl::serialize_third_party''))]] (Some ''x'') (applied_type ''ThirdParty'' [ident_type ''K'',
       ident_type ''V'']), test_field [] (Some ''y'') (ident_type ''u64'')],
     st_attrs = []\<rparr>"

lemma ser_struct_check_serialize_with_attr_snapshot:
  "ser_struct_check_serialize_with_attr =
    Ok \<lparr>ss_where = [PredicateType (ident_type ''K'') ''borsh::ser::BorshSerialize'',
       PredicateType (ident_type ''V'') ''borsh::ser::BorshSerialize''],
     ss_body = [SerWith ''third_party_impl::serialize_third_party'' (SelfField ''x''),
       SerTrait (SelfField ''y'')]\<rparr>"
  by (simp add: derive_eval ser_struct_check_serialize_with_attr_def)

definition ser_struct_check_serialize_with_skip_conflict :: "(derive_error, ser_struct_code) outcome" where
  "ser_struct_check_serialize_with_skip_conflict = ser_struct_process test_literals ty_tokens ''borsh''
    \<lparr>st_ident = ''A'', st_generics = \<lparr>gen_params =
       [ParamType ''K'' [BoundTrait (Path False [Segment ''Ord'' NoArguments])] None, ParamType ''V'' [] None],
       gen_where = None\<rparr>,
     st_fields = FieldsNamed [test_field [borsh_attr [Meta ''skip'' NoValue,
       Meta ''serialize_with'' (Assigned (LitStr ''third_party_impl::serialize_third_party''))]] (Some ''x'')
       (applied_type ''ThirdParty'' [ident_type ''K'', ident_type ''V'']),
       test_field [] (Some ''y'') (ident_type ''u64'')],
     st_attrs = []\<rparr>"

lemma ser_struct_check_serialize_with_skip_conflict_snapshot:
  "ser_struct_check_serialize_with_skip_conflict =
    Err ''`skip` cannot be used at the same time as `serialize_with` or `deserialize_with`''"
  by (simp add: derive_eval ser_struct_check_serialize_with_skip_conflict_def)

subsection \<open>Tests of \<open>serialize/enums\<close>\<close>

definition ser_enum_borsh_skip_tuple_variant_field :: "(derive_error, ser_enum_code) outcome" where
  "ser_enum_borsh_skip_tuple_variant_field = ser_enum_process test_literals ty_tokens ''borsh''
    \<lparr>en_ident = ''AATTB'', en_generics = \<lparr>gen_params = [], gen_where = None\<rparr>,
     en_variants = [\<lparr>var_ident = ''B'',
       var_fields = FieldsUnnamed [test_field [borsh_attr [Meta ''skip'' NoValue]] None (ident_type ''i32''),
       test_field [borsh_attr [Meta ''skip'' NoValue]] None (ident_type ''u32'')], var_discriminant = None\<rparr>,
       \<lparr>var_ident = ''NegatedVariant'',
       var_fields = FieldsNamed [test_field [] (Some ''beta'') (ident_type ''u8'')], var_discriminant = None\<rparr>],
     en_attrs = []\<rparr>"

lemma ser_enum_borsh_skip_tuple_variant_field_snapshot:
  "ser_enum_borsh_skip_tuple_variant_field =
    Ok \<lparr>se_where = [],
     se_idx_arms = [(''B'', [TNum 0]), (''NegatedVariant'', [TNum 1])],
     se_match = Some \<lparr>sm_arms = [(''B'', PatUnnamed [''_id0'', ''_id1''], []), (''NegatedVariant'',
       PatNamed [''beta''], [SerTrait (LocalVar ''beta'')])],
       sm_catch_all = False\<rparr>\<rparr>"
  by (simp add: derive_eval ser_enum_borsh_skip_tuple_variant_field_def)

definition ser_enum_struct_variant_field :: "(derive_error, ser_enum_code) outcome" where
  "ser_enum_struct_variant_field = ser_enum_process test_literals ty_tokens ''borsh''
    \<lparr>en_ident = ''AB'', en_generics = \<lparr>gen_params = [], gen_where = None\<rparr>,
     en_variants = [\<lparr>var_ident = ''B'',
       var_fields = FieldsNamed [test_field [] (Some ''c'') (ident_type ''i32''),
       test_field [] (Some ''d'') (ident_type ''u32'')], var_discriminant = None\<rparr>,
       \<lparr>var_ident = ''NegatedVariant'',
       var_fields = FieldsNamed [test_field [] (Some ''beta'') (ident_type ''String'')],
       var_discriminant = None\<rparr>],
     en_attrs = []\<rparr>"

lemma ser_enum_struct_variant_field_snapshot:
  "ser_enum_struct_variant_field =
    Ok \<lparr>se_where = [],
     se_idx_arms = [(''B'', [TNum 0]), (''NegatedVariant'', [TNum 1])],
     se_match = Some \<lparr>sm_arms = [(''B'', PatNamed [''c'', ''d''], [SerTrait (LocalVar ''c''),
       SerTrait (LocalVar ''d'')]), (''NegatedVariant'', PatNamed [''beta''], [SerTrait (LocalVar ''beta'')])],
       sm_catch_all = False\<rparr>\<rparr>"
  by (simp add: derive_eval ser_enum_struct_variant_field_def)

definition ser_enum_simple_enum_with_custom_crate :: "(derive_error, ser_enum_code) outcome" where
  "ser_enum_simple_enum_with_custom_crate = ser_enum_process test_literals ty_tokens ''reexporter::borsh''
    \<lparr>en_ident = ''AB'', en_generics = \<lparr>gen_params = [], gen_where = None\<rparr>,
     en_variants = [\<lparr>var_ident = ''B'',
       var_fields = FieldsNamed [test_field [] (Some ''c'') (ident_type ''i32''),
       test_field [] (Some ''d'') (ident_type ''u32'')], var_discriminant = None\<rparr>,
       \<lparr>var_ident = ''NegatedVariant'',
       var_fields = FieldsNamed [test_field [] (Some ''beta'') (ident_type ''String'')],
       var_discriminant = None\<rparr>],
     en_attrs = []\<rparr>"

lemma ser_enum_simple_enum_with_custom_crate_snapshot:
  "ser_enum_simple_enum_with_custom_crate =
    Ok \<lparr>se_where = [],
     se_idx_arms = [(''B'', [TNum 0]), (''NegatedVariant'', [TNum 1])],
     se_match = Some \<lparr>sm_arms = [(''B'', PatNamed [''c'', ''d''], [SerTrait (LocalVar ''c''),
       SerTrait (LocalVar ''d'')]), (''NegatedVariant'', PatNamed [''beta''], [SerTrait (LocalVar ''beta'')])],
       sm_catch_all = False\<rparr>\<rparr>"
  by (simp add: derive_eval ser_enum_simple_enum_with_custom_crate_def)

definition ser_enum_borsh_skip_struct_variant_field :: "(derive_error, ser_enum_code) outcome" where
  "ser_enum_borsh_skip_struct_variant_field = ser_enum_process test_literals ty_tokens ''borsh''
    \<lparr>en_ident = ''AB'', en_generics = \<lparr>gen_params = [], gen_where = None\<rparr>,
     en_variants = [\<lparr>var_ident = ''B'',
       var_fields = FieldsNamed [test_field [borsh_attr [Meta ''skip'' NoValue]] (Some ''c'') (ident_type ''i32''),
       test_field [] (Some ''d'') (ident_type ''u32'')], var_discriminant = None\<rparr>,
       \<lparr>var_ident = ''NegatedVariant'',
       var_fields = FieldsNamed [test_field [] (Some ''beta'') (ident_type ''String'')],
       var_discriminant = None\<rparr>],
     en_attrs = []\<rparr>"

lemma ser_enum_borsh_skip_struct_variant_field_snapshot:
  "ser_enum_borsh_skip_struct_variant_field =
    Ok \<lparr>se_where = [],
     se_idx_arms = [(''B'', [TNum 0]), (''NegatedVariant'', [TNum 1])],
     se_match = Some \<lparr>sm_arms = [(''B'', PatNamed [''d''], [SerTrait (LocalVar ''d'')]), (''NegatedVariant'',
       PatNamed [''beta''], [SerTrait (LocalVar ''beta'')])],
       sm_catch_all = False\<rparr>\<rparr>"
  by (simp add: derive_eval ser_enum_borsh_skip_struct_variant_field_def)

definition ser_enum_borsh_skip_struct_variant_all_fields :: "(derive_error, ser_enum_code) outcome" where
  "ser_enum_borsh_skip_struct_variant_all_fields = ser_enum_process test_literals ty_tokens ''borsh''
    \<lparr>en_ident = ''AAB'', en_generics = \<lparr>gen_params = [], gen_where = None\<rparr>,
     en_variants = [\<lparr>var_ident = ''B'',
       var_fields = FieldsNamed [test_field [borsh_attr [Meta ''skip'' NoValue]] (Some ''c'') (ident_type ''i32''),
       test_field [borsh_attr [Meta ''skip'' NoValue]] (Some ''d'') (ident_type ''u32'')],
       var_discriminant = None\<rparr>,
       \<lparr>var_ident = ''NegatedVariant'',
       var_fields = FieldsNamed [test_field [] (Some ''beta'') (ident_type ''String'')],
       var_discriminant = None\<rparr>],
     en_attrs = []\<rparr>"

lemma ser_enum_borsh_skip_struct_variant_all_fields_snapshot:
  "ser_enum_borsh_skip_struct_variant_all_fields =
    Ok \<lparr>se_where = [],
     se_idx_arms = [(''B'', [TNum 0]), (''NegatedVariant'', [TNum 1])],
     se_match = Some \<lparr>sm_arms = [(''B'', PatNamed [], []), (''NegatedVariant'', PatNamed [''beta''],
       [SerTrait (LocalVar ''beta'')])],
       sm_catch_all = False\<rparr>\<rparr>"
  by (simp add: derive_eval ser_enum_borsh_skip_struct_variant_all_fields_def)

definition ser_enum_simple_generics :: "(derive_error, ser_enum_code) outcome" where
  "ser_enum_simple_generics = ser_enum_process test_literals ty_tokens ''borsh''
    \<lparr>en_ident = ''A'', en_generics = \<lparr>gen_params = [ParamType ''K'' [] None, ParamType ''V'' [] None,
       ParamType ''U'' [] None], gen_where = None\<rparr>,
     en_variants = [\<lparr>var_ident = ''B'',
       var_fields = FieldsNamed [test_field [] (Some ''x'') (applied_type ''HashMap'' [ident_type ''K'',
       ident_type ''V'']), test_field [] (Some ''y'') (ident_type ''String'')], var_discriminant = None\<rparr>,
       \<lparr>var_ident = ''C'', var_fields = FieldsUnnamed [test_field [] None (ident_type ''K''),
       test_field [] None (applied_type ''Vec'' [ident_type ''U''])], var_discriminant = None\<rparr>],
     en_attrs = []\<rparr>"

lemma ser_enum_simple_generics_snapshot:
  "ser_enum_simple_generics =
    Ok \<lparr>se_where = [PredicateType (ident_type ''K'') ''borsh::ser::BorshSerialize'',
       PredicateType (ident_type ''V'') ''borsh::ser::BorshSerialize'',
       PredicateType (ident_type ''U'') ''borsh::ser::BorshSerialize''],
     se_idx_arms = [(''B'', [TNum 0]), (''C'', [TNum 1])],
     se_match = Some \<lparr>sm_arms = [(''B'', PatNamed [''x'', ''y''], [SerTrait (LocalVar ''x''),
       SerTrait (LocalVar ''y'')]), (''C'', PatUnnamed [''id0'', ''id1''], [SerTrait (LocalVar ''id0''),
       SerTrait (LocalVar ''id1'')])],
       sm_catch_all = False\<rparr>\<rparr>"
  by (simp add: derive_eval ser_enum_simple_generics_def)

definition ser_enum_bound_generics :: "(derive_error, ser_enum_code) outcome" where
  "ser_enum_bound_generics = ser_enum_process test_literals ty_tokens ''borsh''
    \<lparr>en_ident = ''A'', en_generics = \<lparr>gen_params =
       [ParamType ''K'' [BoundTrait (Path False [Segment ''Key'' NoArguments])] None, ParamType ''V'' [] None,
       ParamType ''U'' [] None], gen_where = Some [PredicateType (ident_type ''V'') ''Value'']\<rparr>,
     en_variants = [\<lparr>var_ident = ''B'',
       var_fields = FieldsNamed [test_field [] (Some ''x'') (applied_type ''HashMap'' [ident_type ''K'',
       ident_type ''V'']), test_field [] (Some ''y'') (ident_type ''String'')], var_discriminant = None\<rparr>,
       \<lparr>var_ident = ''C'', var_fields = FieldsUnnamed [test_field [] None (ident_type ''K''),
       test_field [] None (applied_type ''Vec'' [ident_type ''U''])], var_discriminant = None\<rparr>],
     en_attrs = []\<rparr>"

lemma ser_enum_bound_generics_snapshot:
  "ser_enum_bound_generics =
    Ok \<lparr>se_where = [PredicateType (ident_type ''V'') ''Value'',
       PredicateType (ident_type ''K'') ''borsh::ser::BorshSerialize'',
       PredicateType (ident_type ''V'') ''borsh::ser::BorshSerialize'',
       PredicateType (ident_type ''U'') ''borsh::ser::BorshSerialize''],
     se_idx_arms = [(''B'', [TNum 0]), (''C'', [TNum 1])],
     se_match = Some \<lparr>sm_arms = [(''B'', PatNamed [''x'', ''y''], [SerTrait (LocalVar ''x''),
       SerTrait (LocalVar ''y'')]), (''C'', PatUnnamed [''id0'', ''id1''], [SerTrait (LocalVar ''id0''),
       SerTrait (LocalVar ''id1'')])],
       sm_catch_all = False\<rparr>\<rparr>"
  by (simp add: derive_eval ser_enum_bound_generics_def)

definition ser_enum_recursive_enum :: "(derive_error, ser_enum_code) outcome" where
  "ser_enum_recursive_enum = ser_enum_process test_literals ty_tokens ''borsh''
    \<lparr>en_ident = ''A'', en_generics = \<lparr>gen_params =
       [ParamType ''K'' [BoundTrait (Path False [Segment ''Key'' NoArguments])] None, ParamType ''V'' [] None],
       gen_where = Some [PredicateType (ident_type ''V'') ''Value'']\<rparr>,
     en_variants = [\<lparr>var_ident = ''B'',
       var_fields = FieldsNamed [test_field [] (Some ''x'') (applied_type ''HashMap'' [ident_type ''K'',
       ident_type ''V'']), test_field [] (Some ''y'') (ident_type ''String'')], var_discriminant = None\<rparr>,
       \<lparr>var_ident = ''C'', var_fields = FieldsUnnamed [test_field [] None (ident_type ''K''),
       test_field [] None (applied_type ''Vec'' [ident_type ''A''])], var_discriminant = None\<rparr>],
     en_attrs = []\<rparr>"

lemma ser_enum_recursive_enum_snapshot:
  "ser_enum_recursive_enum =
    Ok \<lparr>se_where = [PredicateType (ident_type ''V'') ''Value'',
       PredicateType (ident_type ''K'') ''borsh::ser::BorshSerialize'',
       PredicateType (ident_type ''V'') ''borsh::ser::BorshSerialize''],
     se_idx_arms = [(''B'', [TNum 0]), (''C'', [TNum 1])],
     se_match = Some \<lparr>sm_arms = [(''B'', PatNamed [''x'', ''y''], [SerTrait (LocalVar ''x''),
       SerTrait (LocalVar ''y'')]), (''C'', PatUnnamed [''id0'', ''id1''], [SerTrait (LocalVar ''id0''),
       SerTrait (LocalVar ''id1'')])],
       sm_catch_all = False\<rparr>\<rparr>"
  by (simp add: derive_eval ser_enum_recursive_enum_def)

definition ser_enum_generic_borsh_skip_struct_field :: "(derive_error, ser_enum_code) outcome" where
  "ser_enum_generic_borsh_skip_struct_field = ser_enum_process test_literals ty_tokens ''borsh''
    \<lparr>en_ident = ''A'', en_generics = \<lparr>gen_params =
       [ParamType ''K'' [BoundTrait (Path False [Segment ''Key'' NoArguments])] None, ParamType ''V'' [] None,
       ParamType ''U'' [] None], gen_where = Some [PredicateType (ident_type ''V'') ''Value'']\<rparr>,
     en_variants = [\<lparr>var_ident = ''B'',
       var_fields = FieldsNamed [test_field [borsh_attr [Meta ''skip'' NoValue]] (Some ''x'') (applied_type
       ''HashMap'' [ident_type ''K'', ident_type ''V'']), test_field [] (Some ''y'') (ident_type ''String'')],
       var_discriminant = None\<rparr>,
       \<lparr>var_ident = ''C'', var_fields = FieldsUnnamed [test_field [] None (ident_type ''K''),
       test_field [] None (applied_type ''Vec'' [ident_type ''U''])], var_discriminant = None\<rparr>],
     en_attrs = []\<rparr>"

lemma ser_enum_generic_borsh_skip_struct_field_snapshot:
  "ser_enum_generic_borsh_skip_struct_field =
    Ok \<lparr>se_where = [PredicateType (ident_type ''V'') ''Value'',
       PredicateType (ident_type ''K'') ''borsh::ser::BorshSerialize'',
       PredicateType (ident_type ''U'') ''borsh::ser::BorshSerialize''],
     se_idx_arms = [(''B'', [TNum 0]), (''C'', [TNum 1])],
     se_match = Some \<lparr>sm_arms = [(''B'', PatNamed [''y''], [SerTrait (LocalVar ''y'')]), (''C'',
       PatUnnamed [''id0'', ''id1''], [SerTrait (LocalVar ''id0''), SerTrait (LocalVar ''id1'')])],
       sm_catch_all = False\<rparr>\<rparr>"
  by (simp add: derive_eval ser_enum_generic_borsh_skip_struct_field_def)

definition ser_enum_generic_borsh_skip_tuple_field :: "(derive_error, ser_enum_code) outcome" where
  "ser_enum_generic_borsh_skip_tuple_field = ser_enum_process test_literals ty_tokens ''borsh''
    \<lparr>en_ident = ''A'', en_generics = \<lparr>gen_params =
       [ParamType ''K'' [BoundTrait (Path False [Segment ''Key'' NoArguments])] None, ParamType ''V'' [] None,
       ParamType ''U'' [] None], gen_where = Some [PredicateType (ident_type ''V'') ''Value'']\<rparr>,
     en_variants = [\<lparr>var_ident = ''B'',
       var_fields = FieldsNamed [test_field [] (Some ''x'') (applied_type ''HashMap'' [ident_type ''K'',
       ident_type ''V'']), test_field [] (Some ''y'') (ident_type ''String'')], var_discriminant = None\<rparr>,
       \<lparr>var_ident = ''C'', var_fields = FieldsUnnamed [test_field [] None (ident_type ''K''),
       test_field [borsh_attr [Meta ''skip'' NoValue]] None (applied_type ''Vec'' [ident_type ''U''])],
       var_discriminant = None\<rparr>],
     en_attrs = []\<rparr>"

lemma ser_enum_generic_borsh_skip_tuple_field_snapshot:
  "ser_enum_generic_borsh_skip_tuple_field =
    Ok \<lparr>se_where = [PredicateType (ident_type ''V'') ''Value'',
       PredicateType (ident_type ''K'') ''borsh::ser::BorshSerialize'',
       PredicateType (ident_type ''V'') ''borsh::ser::BorshSerialize''],
     se_idx_arms = [(''B'', [TNum 0]), (''C'', [TNum 1])],
     se_match = Some \<lparr>sm_arms = [(''B'', PatNamed [''x'', ''y''], [SerTrait (LocalVar ''x''),
       SerTrait (LocalVar ''y'')]), (''C'', PatUnnamed [''id0'', ''_id1''], [SerTrait (LocalVar ''id0'')])],
       sm_catch_all = False\<rparr>\<rparr>"
  by (simp add: derive_eval ser_enum_generic_borsh_skip_tuple_field_def)

definition ser_enum_generic_serialize_bound :: "(derive_error, ser_enum_code) outcome" where
  "ser_enum_generic_serialize_bound = ser_enum_process test_literals ty_tokens ''borsh''
    \<lparr>en_ident = ''A'', en_generics = \<lparr>gen_params =
       [ParamType ''T'' [BoundTrait (Path False [Segment ''Debug'' NoArguments])] None, ParamType ''U'' [] None],
       gen_where = None\<rparr>,
     en_variants = [\<lparr>var_ident = ''C'',
       var_fields = FieldsNamed [test_field [] (Some ''a'') (ident_type ''String''),
       test_field [borsh_attr [Meta ''bound'' (Nested [Meta ''serialize'' (Assigned (LitStr
       ''T: borsh::ser::BorshSerialize + PartialOrd, U: borsh::ser::BorshSerialize''))])]] (Some ''b'') (applied_type
       ''HashMap'' [ident_type ''T'', ident_type ''U''])], var_discriminant = None\<rparr>,
       \<lparr>var_ident = ''D'', var_fields = FieldsUnnamed [test_field [] None (ident_type ''u32''),
       test_field [] None (ident_type ''u32'')], var_discriminant = None\<rparr>],
     en_attrs = []\<rparr>"

lemma ser_enum_generic_serialize_bound_snapshot:
  "ser_enum_generic_serialize_bound =
    Ok \<lparr>se_where = [PredicateType (ident_type ''T'') ''borsh::ser::BorshSerialize + PartialOrd'',
       PredicateType (ident_type ''U'') ''borsh::ser::BorshSerialize''],
     se_idx_arms = [(''C'', [TNum 0]), (''D'', [TNum 1])],
     se_match = Some \<lparr>sm_arms = [(''C'', PatNamed [''a'', ''b''], [SerTrait (LocalVar ''a''),
       SerTrait (LocalVar ''b'')]), (''D'', PatUnnamed [''id0'', ''id1''], [SerTrait (LocalVar ''id0''),
       SerTrait (LocalVar ''id1'')])],
       sm_catch_all = False\<rparr>\<rparr>"
  by (simp add: derive_eval ser_enum_generic_serialize_bound_def)

definition ser_enum_check_serialize_with_attr :: "(derive_error, ser_enum_code) outcome" where
  "ser_enum_check_serialize_with_attr = ser_enum_process test_literals ty_tokens ''borsh''
    \<lparr>en_ident = ''C'', en_generics = \<lparr>gen_params =
       [ParamType ''K'' [BoundTrait (Path False [Segment ''Ord'' NoArguments])] None, ParamType ''V'' [] None],
       gen_where = None\<rparr>,
     en_variants = [\<lparr>var_ident = ''C3'', var_fields = FieldsUnnamed [test_field [] None (ident_type ''u64''),
       test_field [] None (ident_type ''u64'')], var_discriminant = None\<rparr>,
       \<lparr>var_ident = ''C4'', var_fields = FieldsNamed [test_field [] (Some ''x'') (ident_type ''u64''),
       test_field [borsh_attr [Meta ''serialize_with'' (Assigned (LitStr
       ''third_party_impl::serialize_third_party''))]] (Some ''y'') (applied_type ''ThirdParty'' [ident_type ''K'',
       ident_type ''V''])], var_discriminant = None\<rparr>],
     en_attrs = []\<rparr>"

lemma ser_enum_check_serialize_with_attr_snapshot:
  "ser_enum_check_serialize_with_attr =
    Ok \<lparr>se_where = [PredicateType (ident_type ''K'') ''borsh::ser::BorshSerialize'',
       PredicateType (ident_type ''V'') ''borsh::ser::BorshSerialize''],
     se_idx_arms = [(''C3'', [TNum 0]), (''C4'', [TNum 1])],
     se_match = Some \<lparr>sm_arms = [(''C3'', PatUnnamed [''id0'', ''id1''], [SerTrait (LocalVar ''id0''),
       SerTrait (LocalVar ''id1'')]), (''C4'', PatNamed [''x'', ''y''], [SerTrait (LocalVar ''x''),
       SerWith ''third_party_impl::serialize_third_party'' (LocalVar ''y'')])],
       sm_catch_all = False\<rparr>\<rparr>"
  by (simp add: derive_eval ser_enum_check_serialize_with_attr_def)

definition ser_enum_borsh_discriminant_false :: "(derive_error, ser_enum_code) outcome" where
  "ser_enum_borsh_discriminant_false = ser_enum_process test_literals ty_tokens ''borsh''
    \<lparr>en_ident = ''X'', en_generics = \<lparr>gen_params = [], gen_where = None\<rparr>,
     en_variants = [\<lparr>var_ident = ''A'', var_fields = FieldsUnit, var_discriminant = None\<rparr>,
       \<lparr>var_ident = ''B'', var_fields = FieldsUnit, var_discriminant = Some [TNum 20]\<rparr>,
       \<lparr>var_ident = ''C'', var_fields = FieldsUnit, var_discriminant = None\<rparr>,
       \<lparr>var_ident = ''D'', var_fields = FieldsUnit, var_discriminant = None\<rparr>,
       \<lparr>var_ident = ''E'', var_fields = FieldsUnit, var_discriminant = Some [TNum 10]\<rparr>,
       \<lparr>var_ident = ''F'', var_fields = FieldsUnit, var_discriminant = None\<rparr>],
     en_attrs = [borsh_attr [Meta ''use_discriminant'' (Assigned (ExprTokens ''false''))]]\<rparr>"

lemma ser_enum_borsh_discriminant_false_snapshot:
  "ser_enum_borsh_discriminant_false =
    Ok \<lparr>se_where = [],
     se_idx_arms = [(''A'', [TNum 0]), (''B'', [TNum 1]), (''C'', [TNum 2]), (''D'', [TNum 3]), (''E'', [TNum 4]),
       (''F'', [TNum 5])],
     se_match = None\<rparr>"
  by (simp add: derive_eval ser_enum_borsh_discriminant_false_def)

definition ser_enum_borsh_discriminant_true :: "(derive_error, ser_enum_code) outcome" where
  "ser_enum_borsh_discriminant_true = ser_enum_process test_literals ty_tokens ''borsh''
    \<lparr>en_ident = ''X'', en_generics = \<lparr>gen_params = [], gen_where = None\<rparr>,
     en_variants = [\<lparr>var_ident = ''A'', var_fields = FieldsUnit, var_discriminant = None\<rparr>,
       \<lparr>var_ident = ''B'', var_fields = FieldsUnit, var_discriminant = Some [TNum 20]\<rparr>,
       \<lparr>var_ident = ''C'', var_fields = FieldsUnit, var_discriminant = None\<rparr>,
       \<lparr>var_ident = ''D'', var_fields = FieldsUnit, var_discriminant = None\<rparr>,
       \<lparr>var_ident = ''E'', var_fields = FieldsUnit, var_discriminant = Some [TNum 10]\<rparr>,
       \<lparr>var_ident = ''F'', var_fields = FieldsUnit, var_discriminant = None\<rparr>],
     en_attrs = [borsh_attr [Meta ''use_discriminant'' (Assigned (ExprTokens ''true''))]]\<rparr>"

lemma ser_enum_borsh_discriminant_true_snapshot:
  "ser_enum_borsh_discriminant_true =
    Ok \<lparr>se_where = [],
     se_idx_arms = [(''A'', [TNum 0]), (''B'', [TNum 20]), (''C'', [TNum 20, TOp Add, TNum 1]), (''D'', [TNum 20,
       TOp Add, TNum 1, TOp Add, TNum 1]), (''E'', [TNum 10]), (''F'', [TNum 10, TOp Add, TNum 1])],
     se_match = None\<rparr>"
  by (simp add: derive_eval ser_enum_borsh_discriminant_true_def)

definition ser_enum_mixed_with_unit_variants :: "(derive_error, ser_enum_code) outcome" where
  "ser_enum_mixed_with_unit_variants = ser_enum_process test_literals ty_tokens ''borsh''
    \<lparr>en_ident = ''X'', en_generics = \<lparr>gen_params = [], gen_where = None\<rparr>,
     en_variants = [\<lparr>var_ident = ''A'', var_fields = FieldsUnnamed [test_field [] None (ident_type ''u16'')],
       var_discriminant = None\<rparr>,
       \<lparr>var_ident = ''B'', var_fields = FieldsUnit, var_discriminant = None\<rparr>,
       \<lparr>var_ident = ''C'', var_fields = FieldsNamed [test_field [] (Some ''x'') (ident_type ''i32''),
       test_field [] (Some ''y'') (ident_type ''i32'')], var_discriminant = None\<rparr>,
       \<lparr>var_ident = ''D'', var_fields = FieldsUnit, var_discriminant = None\<rparr>],
     en_attrs = []\<rparr>"

lemma ser_enum_mixed_with_unit_variants_snapshot:
  "ser_enum_mixed_with_unit_variants =
    Ok \<lparr>se_where = [],
     se_idx_arms = [(''A'', [TNum 0]), (''B'', [TNum 1]), (''C'', [TNum 2]), (''D'', [TNum 3])],
     se_match = Some \<lparr>sm_arms = [(''A'', PatUnnamed [''id0''], [SerTrait (LocalVar ''id0'')]), (''C'',
       PatNamed [''x'', ''y''], [SerTrait (LocalVar ''x''), SerTrait (LocalVar ''y'')])],
       sm_catch_all = True\<rparr>\<rparr>"
  by (simp add: derive_eval ser_enum_mixed_with_unit_variants_def)

end
