(* ===== verification/Deserialize_Snapshots.thy ===== *)
theory Deserialize_Snapshots
  imports Derive_Test_Syntax
begin

section \<open>Recorded expansions of BorshDeserialize\<close>

text \<open>
  The tests that \<open>borsh-derive/src/internals/deserialize\<close> has for its macros: each expands an item and
  compares the code with a recorded snapshot. A definition here is the expansion that a test
  performs, and the lemma after it states that it is the code of the snapshot (the file in
  \<open>snapshots\<close> with the name of the test), or its error.
\<close>

subsection \<open>Tests of \<open>deserialize/structs\<close>\<close>

definition de_struct_simple_struct :: "(derive_error, de_struct_code) outcome" where
  "de_struct_simple_struct = de_struct_process test_literals test_path ty_tokens ''borsh''
    \<lparr>st_ident = ''A'', st_generics = \<lparr>gen_params = [], gen_where = None\<rparr>,
     st_fields = FieldsNamed [test_field [] (Some ''x'') (ident_type ''u64''),
       test_field [] (Some ''y'') (ident_type ''String'')],
     st_attrs = []\<rparr>"

lemma de_struct_simple_struct_snapshot:
  "de_struct_simple_struct =
    Ok \<lparr>ds_where = [],
     ds_fields = [(Some ''x'', DeTrait), (Some ''y'', DeTrait)], ds_init = None\<rparr>"
  by (simp add: derive_eval de_struct_simple_struct_def)

definition de_struct_simple_struct_with_custom_crate :: "(derive_error, de_struct_code) outcome" where
  "de_struct_simple_struct_with_custom_crate = de_struct_process test_literals test_path ty_tokens
       ''reexporter::borsh''
    \<lparr>st_ident = ''A'', st_generics = \<lparr>gen_params = [], gen_where = None\<rparr>,
     st_fields = FieldsNamed [test_field [] (Some ''x'') (ident_type ''u64''),
       test_field [] (Some ''y'') (ident_type ''String'')],
     st_attrs = []\<rparr>"

lemma de_struct_simple_struct_with_custom_crate_snapshot:
  "de_struct_simple_struct_with_custom_crate =
    Ok \<lparr>ds_where = [],
     ds_fields = [(Some ''x'', DeTrait), (Some ''y'', DeTrait)], ds_init = None\<rparr>"
  by (simp add: derive_eval de_struct_simple_struct_with_custom_crate_def)

definition de_struct_simple_generics :: "(derive_error, de_struct_code) outcome" where
  "de_struct_simple_generics = de_struct_process test_literals test_path ty_tokens ''borsh''
    \<lparr>st_ident = ''A'', st_generics = \<lparr>gen_params = [ParamType ''K'' [] None, ParamType ''V'' [] None],
       gen_where = None\<rparr>,
     st_fields = FieldsNamed [test_field [] (Some ''x'') (applied_type ''HashMap'' [ident_type ''K'',
       ident_type ''V'']), test_field [] (Some ''y'') (ident_type ''String'')],
     st_attrs = []\<rparr>"

lemma de_struct_simple_generics_snapshot:
  "de_struct_simple_generics =
    Ok \<lparr>ds_where = [PredicateType (ident_type ''K'') ''borsh::de::BorshDeserialize'',
       PredicateType (ident_type ''V'') ''borsh::de::BorshDeserialize''],
     ds_fields = [(Some ''x'', DeTrait), (Some ''y'', DeTrait)], ds_init = None\<rparr>"
  by (simp add: derive_eval de_struct_simple_generics_def)

definition de_struct_simple_generic_tuple_struct :: "(derive_error, de_struct_code) outcome" where
  "de_struct_simple_generic_tuple_struct = de_struct_process test_literals test_path ty_tokens ''borsh''
    \<lparr>st_ident = ''TupleA'', st_generics = \<lparr>gen_params = [ParamType ''T'' [] None],
       gen_where = None\<rparr>,
     st_fields = FieldsUnnamed [test_field [] None (ident_type ''T''), test_field [] None (ident_type ''u32'')],
     st_attrs = []\<rparr>"

lemma de_struct_simple_generic_tuple_struct_snapshot:
  "de_struct_simple_generic_tuple_struct =
    Ok \<lparr>ds_where = [PredicateType (ident_type ''T'') ''borsh::de::BorshDeserialize''],
     ds_fields = [(None, DeTrait), (None, DeTrait)], ds_init = None\<rparr>"
  by (simp add: derive_eval de_struct_simple_generic_tuple_struct_def)

definition de_struct_bound_generics :: "(derive_error, de_struct_code) outcome" where
  "de_struct_bound_generics = de_struct_process test_literals test_path ty_tokens ''borsh''
    \<lparr>st_ident = ''A'', st_generics = \<lparr>gen_params =
       [ParamType ''K'' [BoundTrait (Path False [Segment ''Key'' NoArguments])] None, ParamType ''V'' [] None],
       gen_where = Some [PredicateType (ident_type ''V'') ''Value'']\<rparr>,
     st_fields = FieldsNamed [test_field [] (Some ''x'') (applied_type ''HashMap'' [ident_type ''K'',
       ident_type ''V'']), test_field [] (Some ''y'') (ident_type ''String'')],
     st_attrs = []\<rparr>"

lemma de_struct_bound_generics_snapshot:
  "de_struct_bound_generics =
    Ok \<lparr>ds_where = [PredicateType (ident_type ''V'') ''Value'',
       PredicateType (ident_type ''K'') ''borsh::de::BorshDeserialize'',
       PredicateType (ident_type ''V'') ''borsh::de::BorshDeserialize''],
     ds_fields = [(Some ''x'', DeTrait), (Some ''y'', DeTrait)], ds_init = None\<rparr>"
  by (simp add: derive_eval de_struct_bound_generics_def)

definition de_struct_recursive_struct :: "(derive_error, de_struct_code) outcome" where
  "de_struct_recursive_struct = de_struct_process test_literals test_path ty_tokens ''borsh''
    \<lparr>st_ident = ''CRecC'', st_generics = \<lparr>gen_params = [], gen_where = None\<rparr>,
     st_fields = FieldsNamed [test_field [] (Some ''a'') (ident_type ''String''),
       test_field [] (Some ''b'') (applied_type ''HashMap'' [ident_type ''String'', ident_type ''CRecC''])],
     st_attrs = []\<rparr>"

lemma de_struct_recursive_struct_snapshot:
  "de_struct_recursive_struct =
    Ok \<lparr>ds_where = [],
     ds_fields = [(Some ''a'', DeTrait), (Some ''b'', DeTrait)], ds_init = None\<rparr>"
  by (simp add: derive_eval de_struct_recursive_struct_def)

definition de_struct_generic_tuple_struct_borsh_skip1 :: "(derive_error, de_struct_code) outcome" where
  "de_struct_generic_tuple_struct_borsh_skip1 = de_struct_process test_literals test_path ty_tokens ''borsh''
    \<lparr>st_ident = ''G'', st_generics = \<lparr>gen_params = [ParamType ''K'' [] None, ParamType ''V'' [] None,
       ParamType ''U'' [] None], gen_where = None\<rparr>,
     st_fields = FieldsUnnamed [test_field [borsh_attr [Meta ''skip'' NoValue]] None (applied_type ''HashMap''
       [ident_type ''K'', ident_type ''V'']), test_field [] None (ident_type ''U'')],
     st_attrs = []\<rparr>"

lemma de_struct_generic_tuple_struct_borsh_skip1_snapshot:
  "de_struct_generic_tuple_struct_borsh_skip1 =
    Ok \<lparr>ds_where = [PredicateType (ident_type ''U'') ''borsh::de::BorshDeserialize'',
       PredicateType (ident_type ''K'') ''core::default::Default'',
       PredicateType (ident_type ''V'') ''core::default::Default''],
     ds_fields = [(None, DeDefault), (None, DeTrait)], ds_init = None\<rparr>"
  by (simp add: derive_eval de_struct_generic_tuple_struct_borsh_skip1_def)

definition de_struct_generic_tuple_struct_borsh_skip2 :: "(derive_error, de_struct_code) outcome" where
  "de_struct_generic_tuple_struct_borsh_skip2 = de_struct_process test_literals test_path ty_tokens ''borsh''
    \<lparr>st_ident = ''G'', st_generics = \<lparr>gen_params = [ParamType ''K'' [] None, ParamType ''V'' [] None,
       ParamType ''U'' [] None], gen_where = None\<rparr>,
     st_fields = FieldsUnnamed [test_field [] None (applied_type ''HashMap'' [ident_type ''K'', ident_type ''V'']),
       test_field [borsh_attr [Meta ''skip'' NoValue]] None (ident_type ''U'')],
     st_attrs = []\<rparr>"

lemma de_struct_generic_tuple_struct_borsh_skip2_snapshot:
  "de_struct_generic_tuple_struct_borsh_skip2 =
    Ok \<lparr>ds_where = [PredicateType (ident_type ''K'') ''borsh::de::BorshDeserialize'',
       PredicateType (ident_type ''V'') ''borsh::de::BorshDeserialize'',
       PredicateType (ident_type ''U'') ''core::default::Default''],
     ds_fields = [(None, DeTrait), (None, DeDefault)], ds_init = None\<rparr>"
  by (simp add: derive_eval de_struct_generic_tuple_struct_borsh_skip2_def)

definition de_struct_generic_named_fields_struct_borsh_skip :: "(derive_error, de_struct_code) outcome" where
  "de_struct_generic_named_fields_struct_borsh_skip = de_struct_process test_literals test_path ty_tokens ''borsh''
    \<lparr>st_ident = ''G'', st_generics = \<lparr>gen_params = [ParamType ''K'' [] None, ParamType ''V'' [] None,
       ParamType ''U'' [] None], gen_where = None\<rparr>,
     st_fields = FieldsNamed [test_field [borsh_attr [Meta ''skip'' NoValue]] (Some ''x'') (applied_type ''HashMap''
       [ident_type ''K'', ident_type ''V'']), test_field [] (Some ''y'') (ident_type ''U'')],
     st_attrs = []\<rparr>"

lemma de_struct_generic_named_fields_struct_borsh_skip_snapshot:
  "de_struct_generic_named_fields_struct_borsh_skip =
    Ok \<lparr>ds_where = [PredicateType (ident_type ''U'') ''borsh::de::BorshDeserialize'',
       PredicateType (ident_type ''K'') ''core::default::Default'',
       PredicateType (ident_type ''V'') ''core::default::Default''],
     ds_fields = [(Some ''x'', DeDefault), (Some ''y'', DeTrait)], ds_init = None\<rparr>"
  by (simp add: derive_eval de_struct_generic_named_fields_struct_borsh_skip_def)

definition de_struct_generic_deserialize_bound :: "(derive_error, de_struct_code) outcome" where
  "de_struct_generic_deserialize_bound = de_struct_process test_literals test_path ty_tokens ''borsh''
    \<lparr>st_ident = ''C'', st_generics = \<lparr>gen_params =
       [ParamType ''T'' [BoundTrait (Path False [Segment ''Debug'' NoArguments])] None, ParamType ''U'' [] None],
       gen_where = None\<rparr>,
     st_fields = FieldsNamed [test_field [] (Some ''a'') (ident_type ''String''),
       test_field [borsh_attr [Meta ''bound'' (Nested [Meta ''deserialize'' (Assigned (LitStr
       ''T: PartialOrd + Hash + Eq + borsh::de::BorshDeserialize, U: borsh::de::BorshDeserialize''))])]] (Some ''b'')
       (applied_type ''HashMap'' [ident_type ''T'', ident_type ''U''])],
     st_attrs = []\<rparr>"

lemma de_struct_generic_deserialize_bound_snapshot:
  "de_struct_generic_deserialize_bound =
    Ok \<lparr>ds_where = [PredicateType (ident_type ''T'') ''PartialOrd + Hash + Eq + borsh::de::BorshDeserialize'',
       PredicateType (ident_type ''U'') ''borsh::de::BorshDeserialize''],
     ds_fields = [(Some ''a'', DeTrait), (Some ''b'', DeTrait)], ds_init = None\<rparr>"
  by (simp add: derive_eval de_struct_generic_deserialize_bound_def)

definition de_struct_override_automatically_added_default_trait :: "(derive_error, de_struct_code) outcome" where
  "de_struct_override_automatically_added_default_trait = de_struct_process test_literals test_path ty_tokens
       ''borsh''
    \<lparr>st_ident = ''G1'', st_generics = \<lparr>gen_params = [ParamType ''K'' [] None, ParamType ''V'' [] None,
       ParamType ''U'' [] None], gen_where = None\<rparr>,
     st_fields = FieldsUnnamed [test_field [borsh_attr [Meta ''skip'' NoValue,
       Meta ''bound'' (Nested [Meta ''deserialize'' (Assigned (LitStr ''''))])]] None (applied_type ''HashMap''
       [ident_type ''K'', ident_type ''V'']), test_field [] None (ident_type ''U'')],
     st_attrs = []\<rparr>"

lemma de_struct_override_automatically_added_default_trait_snapshot:
  "de_struct_override_automatically_added_default_trait =
    Ok \<lparr>ds_where = [PredicateType (ident_type ''U'') ''borsh::de::BorshDeserialize''],
     ds_fields = [(None, DeDefault), (None, DeTrait)], ds_init = None\<rparr>"
  by (simp add: derive_eval de_struct_override_automatically_added_default_trait_def)

definition de_struct_check_deserialize_with_attr :: "(derive_error, de_struct_code) outcome" where
  "de_struct_check_deserialize_with_attr = de_struct_process test_literals test_path ty_tokens ''borsh''
    \<lparr>st_ident = ''A'', st_generics = \<lparr>gen_params =
       [ParamType ''K'' [BoundTrait (Path False [Segment ''Ord'' NoArguments])] None, ParamType ''V'' [] None],
       gen_where = None\<rparr>,
     st_fields = FieldsNamed [test_field [borsh_attr [Meta ''deserialize_with'' (Assigned (LitStr
       ''third_party_impl::deserialize_third_party''))]] (Some ''x'') (applied_type ''ThirdParty'' [ident_type ''K'',
       ident_type ''V'']), test_field [] (Some ''y'') (ident_type ''u64'')],
     st_attrs = []\<rparr>"

lemma de_struct_check_deserialize_with_attr_snapshot:
  "de_struct_check_deserialize_with_attr =
    Ok \<lparr>ds_where = [PredicateType (ident_type ''K'') ''borsh::de::BorshDeserialize'',
       PredicateType (ident_type ''V'') ''borsh::de::BorshDeserialize''],
     ds_fields = [(Some ''x'', DeWith ''third_party_impl::deserialize_third_party''), (Some ''y'', DeTrait)],
       ds_init = None\<rparr>"
  by (simp add: derive_eval de_struct_check_deserialize_with_attr_def)

definition de_struct_borsh_init_func :: "(derive_error, de_struct_code) outcome" where
  "de_struct_borsh_init_func = de_struct_process test_literals test_path ty_tokens ''borsh''
    \<lparr>st_ident = ''A'', st_generics = \<lparr>gen_params = [], gen_where = None\<rparr>,
     st_fields = FieldsNamed [test_field [] (Some ''x'') (ident_type ''u64''),
       test_field [] (Some ''y'') (ident_type ''String'')],
     st_attrs = [borsh_attr [Meta ''init'' (Assigned (ExprTokens ''initialization_method''))]]\<rparr>"

lemma de_struct_borsh_init_func_snapshot:
  "de_struct_borsh_init_func =
    Ok \<lparr>ds_where = [],
     ds_fields = [(Some ''x'', DeTrait), (Some ''y'', DeTrait)], ds_init = Some ''initialization_method''\<rparr>"
  by (simp add: derive_eval de_struct_borsh_init_func_def)

subsection \<open>Tests of \<open>deserialize/enums\<close>\<close>

definition de_enum_borsh_skip_struct_variant_field :: "(derive_error, de_enum_code) outcome" where
  "de_enum_borsh_skip_struct_variant_field = de_enum_process test_literals test_path ty_tokens ''borsh''
    \<lparr>en_ident = ''AA'', en_generics = \<lparr>gen_params = [], gen_where = None\<rparr>,
     en_variants = [\<lparr>var_ident = ''B'',
       var_fields = FieldsNamed [test_field [borsh_attr [Meta ''skip'' NoValue]] (Some ''c'') (ident_type ''i32''),
       test_field [] (Some ''d'') (ident_type ''u32'')], var_discriminant = None\<rparr>,
       \<lparr>var_ident = ''NegatedVariant'',
       var_fields = FieldsNamed [test_field [] (Some ''beta'') (ident_type ''u8'')], var_discriminant = None\<rparr>],
     en_attrs = []\<rparr>"

lemma de_enum_borsh_skip_struct_variant_field_snapshot:
  "de_enum_borsh_skip_struct_variant_field =
    Ok \<lparr>de_where = [],
     de_arms = [([TNum 0], ''B'', [(Some ''c'', DeDefault), (Some ''d'', DeTrait)]), ([TNum 1], ''NegatedVariant'',
       [(Some ''beta'', DeTrait)])],
     de_init = None\<rparr>"
  by (simp add: derive_eval de_enum_borsh_skip_struct_variant_field_def)

definition de_enum_borsh_skip_tuple_variant_field :: "(derive_error, de_enum_code) outcome" where
  "de_enum_borsh_skip_tuple_variant_field = de_enum_process test_literals test_path ty_tokens ''borsh''
    \<lparr>en_ident = ''AAT'', en_generics = \<lparr>gen_params = [], gen_where = None\<rparr>,
     en_variants = [\<lparr>var_ident = ''B'',
       var_fields = FieldsUnnamed [test_field [borsh_attr [Meta ''skip'' NoValue]] None (ident_type ''i32''),
       test_field [] None (ident_type ''u32'')], var_discriminant = None\<rparr>,
       \<lparr>var_ident = ''NegatedVariant'',
       var_fields = FieldsNamed [test_field [] (Some ''beta'') (ident_type ''u8'')], var_discriminant = None\<rparr>],
     en_attrs = []\<rparr>"

lemma de_enum_borsh_skip_tuple_variant_field_snapshot:
  "de_enum_borsh_skip_tuple_variant_field =
    Ok \<lparr>de_where = [],
     de_arms = [([TNum 0], ''B'', [(None, DeDefault), (None, DeTrait)]), ([TNum 1], ''NegatedVariant'',
       [(Some ''beta'', DeTrait)])],
     de_init = None\<rparr>"
  by (simp add: derive_eval de_enum_borsh_skip_tuple_variant_field_def)

definition de_enum_simple_enum_with_custom_crate :: "(derive_error, de_enum_code) outcome" where
  "de_enum_simple_enum_with_custom_crate = de_enum_process test_literals test_path ty_tokens ''reexporter::borsh''
    \<lparr>en_ident = ''A'', en_generics = \<lparr>gen_params = [], gen_where = None\<rparr>,
     en_variants = [\<lparr>var_ident = ''B'',
       var_fields = FieldsNamed [test_field [] (Some ''x'') (applied_type ''HashMap'' [ident_type ''u32'',
       ident_type ''String'']), test_field [] (Some ''y'') (ident_type ''String'')], var_discriminant = None\<rparr>,
       \<lparr>var_ident = ''C'', var_fields = FieldsUnnamed [test_field [] None (ident_type ''K''),
       test_field [] None (applied_type ''Vec'' [ident_type ''u64''])], var_discriminant = None\<rparr>],
     en_attrs = []\<rparr>"

lemma de_enum_simple_enum_with_custom_crate_snapshot:
  "de_enum_simple_enum_with_custom_crate =
    Ok \<lparr>de_where = [],
     de_arms = [([TNum 0], ''B'', [(Some ''x'', DeTrait), (Some ''y'', DeTrait)]), ([TNum 1], ''C'', [(None, DeTrait),
       (None, DeTrait)])],
     de_init = None\<rparr>"
  by (simp add: derive_eval de_enum_simple_enum_with_custom_crate_def)

definition de_enum_simple_generics :: "(derive_error, de_enum_code) outcome" where
  "de_enum_simple_generics = de_enum_process test_literals test_path ty_tokens ''borsh''
    \<lparr>en_ident = ''A'', en_generics = \<lparr>gen_params = [ParamType ''K'' [] None, ParamType ''V'' [] None,
       ParamType ''U'' [] None], gen_where = None\<rparr>,
     en_variants = [\<lparr>var_ident = ''B'',
       var_fields = FieldsNamed [test_field [] (Some ''x'') (applied_type ''HashMap'' [ident_type ''K'',
       ident_type ''V'']), test_field [] (Some ''y'') (ident_type ''String'')], var_discriminant = None\<rparr>,
       \<lparr>var_ident = ''C'', var_fields = FieldsUnnamed [test_field [] None (ident_type ''K''),
       test_field [] None (applied_type ''Vec'' [ident_type ''U''])], var_discriminant = None\<rparr>],
     en_attrs = []\<rparr>"

lemma de_enum_simple_generics_snapshot:
  "de_enum_simple_generics =
    Ok \<lparr>de_where = [PredicateType (ident_type ''K'') ''borsh::de::BorshDeserialize'',
       PredicateType (ident_type ''V'') ''borsh::de::BorshDeserialize'',
       PredicateType (ident_type ''U'') ''borsh::de::BorshDeserialize''],
     de_arms = [([TNum 0], ''B'', [(Some ''x'', DeTrait), (Some ''y'', DeTrait)]), ([TNum 1], ''C'', [(None, DeTrait),
       (None, DeTrait)])],
     de_init = None\<rparr>"
  by (simp add: derive_eval de_enum_simple_generics_def)

definition de_enum_bound_generics :: "(derive_error, de_enum_code) outcome" where
  "de_enum_bound_generics = de_enum_process test_literals test_path ty_tokens ''borsh''
    \<lparr>en_ident = ''A'', en_generics = \<lparr>gen_params =
       [ParamType ''K'' [BoundTrait (Path False [Segment ''Key'' NoArguments])] None, ParamType ''V'' [] None,
       ParamType ''U'' [] None], gen_where = Some [PredicateType (ident_type ''V'') ''Value'']\<rparr>,
     en_variants = [\<lparr>var_ident = ''B'',
       var_fields = FieldsNamed [test_field [] (Some ''x'') (applied_type ''HashMap'' [ident_type ''K'',
       ident_type ''V'']), test_field [] (Some ''y'') (ident_type ''String'')], var_discriminant = None\<rparr>,
       \<lparr>var_ident = ''C'', var_fields = FieldsUnnamed [test_field [] None (ident_type ''K''),
       test_field [] None (applied_type ''Vec'' [ident_type ''U''])], var_discriminant = None\<rparr>],
     en_attrs = []\<rparr>"

lemma de_enum_bound_generics_snapshot:
  "de_enum_bound_generics =
    Ok \<lparr>de_where = [PredicateType (ident_type ''V'') ''Value'',
       PredicateType (ident_type ''K'') ''borsh::de::BorshDeserialize'',
       PredicateType (ident_type ''V'') ''borsh::de::BorshDeserialize'',
       PredicateType (ident_type ''U'') ''borsh::de::BorshDeserialize''],
     de_arms = [([TNum 0], ''B'', [(Some ''x'', DeTrait), (Some ''y'', DeTrait)]), ([TNum 1], ''C'', [(None, DeTrait),
       (None, DeTrait)])],
     de_init = None\<rparr>"
  by (simp add: derive_eval de_enum_bound_generics_def)

definition de_enum_recursive_enum :: "(derive_error, de_enum_code) outcome" where
  "de_enum_recursive_enum = de_enum_process test_literals test_path ty_tokens ''borsh''
    \<lparr>en_ident = ''A'', en_generics = \<lparr>gen_params =
       [ParamType ''K'' [BoundTrait (Path False [Segment ''Key'' NoArguments])] None, ParamType ''V'' [] None],
       gen_where = Some [PredicateType (ident_type ''V'') ''Value'']\<rparr>,
     en_variants = [\<lparr>var_ident = ''B'',
       var_fields = FieldsNamed [test_field [] (Some ''x'') (applied_type ''HashMap'' [ident_type ''K'',
       ident_type ''V'']), test_field [] (Some ''y'') (ident_type ''String'')], var_discriminant = None\<rparr>,
       \<lparr>var_ident = ''C'', var_fields = FieldsUnnamed [test_field [] None (ident_type ''K''),
       test_field [] None (applied_type ''Vec'' [ident_type ''A''])], var_discriminant = None\<rparr>],
     en_attrs = []\<rparr>"

lemma de_enum_recursive_enum_snapshot:
  "de_enum_recursive_enum =
    Ok \<lparr>de_where = [PredicateType (ident_type ''V'') ''Value'',
       PredicateType (ident_type ''K'') ''borsh::de::BorshDeserialize'',
       PredicateType (ident_type ''V'') ''borsh::de::BorshDeserialize''],
     de_arms = [([TNum 0], ''B'', [(Some ''x'', DeTrait), (Some ''y'', DeTrait)]), ([TNum 1], ''C'', [(None, DeTrait),
       (None, DeTrait)])],
     de_init = None\<rparr>"
  by (simp add: derive_eval de_enum_recursive_enum_def)

definition de_enum_generic_borsh_skip_struct_field :: "(derive_error, de_enum_code) outcome" where
  "de_enum_generic_borsh_skip_struct_field = de_enum_process test_literals test_path ty_tokens ''borsh''
    \<lparr>en_ident = ''A'', en_generics = \<lparr>gen_params =
       [ParamType ''K'' [BoundTrait (Path False [Segment ''Key'' NoArguments])] None, ParamType ''V'' [] None,
       ParamType ''U'' [] None], gen_where = Some [PredicateType (ident_type ''V'') ''Value'']\<rparr>,
     en_variants = [\<lparr>var_ident = ''B'',
       var_fields = FieldsNamed [test_field [borsh_attr [Meta ''skip'' NoValue]] (Some ''x'') (applied_type
       ''HashMap'' [ident_type ''K'', ident_type ''V'']), test_field [] (Some ''y'') (ident_type ''String'')],
       var_discriminant = None\<rparr>,
       \<lparr>var_ident = ''C'', var_fields = FieldsUnnamed [test_field [] None (ident_type ''K''),
       test_field [] None (applied_type ''Vec'' [ident_type ''U''])], var_discriminant = None\<rparr>],
     en_attrs = []\<rparr>"

lemma de_enum_generic_borsh_skip_struct_field_snapshot:
  "de_enum_generic_borsh_skip_struct_field =
    Ok \<lparr>de_where = [PredicateType (ident_type ''V'') ''Value'',
       PredicateType (ident_type ''K'') ''borsh::de::BorshDeserialize'',
       PredicateType (ident_type ''U'') ''borsh::de::BorshDeserialize'',
       PredicateType (ident_type ''K'') ''core::default::Default'',
       PredicateType (ident_type ''V'') ''core::default::Default''],
     de_arms = [([TNum 0], ''B'', [(Some ''x'', DeDefault), (Some ''y'', DeTrait)]), ([TNum 1], ''C'', [(None,
       DeTrait), (None, DeTrait)])],
     de_init = None\<rparr>"
  by (simp add: derive_eval de_enum_generic_borsh_skip_struct_field_def)

definition de_enum_generic_borsh_skip_tuple_field :: "(derive_error, de_enum_code) outcome" where
  "de_enum_generic_borsh_skip_tuple_field = de_enum_process test_literals test_path ty_tokens ''borsh''
    \<lparr>en_ident = ''A'', en_generics = \<lparr>gen_params =
       [ParamType ''K'' [BoundTrait (Path False [Segment ''Key'' NoArguments])] None, ParamType ''V'' [] None,
       ParamType ''U'' [] None], gen_where = Some [PredicateType (ident_type ''V'') ''Value'']\<rparr>,
     en_variants = [\<lparr>var_ident = ''B'',
       var_fields = FieldsNamed [test_field [] (Some ''x'') (applied_type ''HashMap'' [ident_type ''K'',
       ident_type ''V'']), test_field [] (Some ''y'') (ident_type ''String'')], var_discriminant = None\<rparr>,
       \<lparr>var_ident = ''C'', var_fields = FieldsUnnamed [test_field [] None (ident_type ''K''),
       test_field [borsh_attr [Meta ''skip'' NoValue]] None (applied_type ''Vec'' [ident_type ''U''])],
       var_discriminant = None\<rparr>],
     en_attrs = []\<rparr>"

lemma de_enum_generic_borsh_skip_tuple_field_snapshot:
  "de_enum_generic_borsh_skip_tuple_field =
    Ok \<lparr>de_where = [PredicateType (ident_type ''V'') ''Value'',
       PredicateType (ident_type ''K'') ''borsh::de::BorshDeserialize'',
       PredicateType (ident_type ''V'') ''borsh::de::BorshDeserialize'',
       PredicateType (ident_type ''U'') ''core::default::Default''],
     de_arms = [([TNum 0], ''B'', [(Some ''x'', DeTrait), (Some ''y'', DeTrait)]), ([TNum 1], ''C'', [(None, DeTrait),
       (None, DeDefault)])],
     de_init = None\<rparr>"
  by (simp add: derive_eval de_enum_generic_borsh_skip_tuple_field_def)

definition de_enum_generic_deserialize_bound :: "(derive_error, de_enum_code) outcome" where
  "de_enum_generic_deserialize_bound = de_enum_process test_literals test_path ty_tokens ''borsh''
    \<lparr>en_ident = ''A'', en_generics = \<lparr>gen_params =
       [ParamType ''T'' [BoundTrait (Path False [Segment ''Debug'' NoArguments])] None, ParamType ''U'' [] None],
       gen_where = None\<rparr>,
     en_variants = [\<lparr>var_ident = ''C'',
       var_fields = FieldsNamed [test_field [] (Some ''a'') (ident_type ''String''),
       test_field [borsh_attr [Meta ''bound'' (Nested [Meta ''deserialize'' (Assigned (LitStr
       ''T: PartialOrd + Hash + Eq + borsh::de::BorshDeserialize, U: borsh::de::BorshDeserialize''))])]] (Some ''b'')
       (applied_type ''HashMap'' [ident_type ''T'', ident_type ''U''])], var_discriminant = None\<rparr>,
       \<lparr>var_ident = ''D'', var_fields = FieldsUnnamed [test_field [] None (ident_type ''u32''),
       test_field [] None (ident_type ''u32'')], var_discriminant = None\<rparr>],
     en_attrs = []\<rparr>"

lemma de_enum_generic_deserialize_bound_snapshot:
  "de_enum_generic_deserialize_bound =
    Ok \<lparr>de_where = [PredicateType (ident_type ''T'') ''PartialOrd + Hash + Eq + borsh::de::BorshDeserialize'',
       PredicateType (ident_type ''U'') ''borsh::de::BorshDeserialize''],
     de_arms = [([TNum 0], ''C'', [(Some ''a'', DeTrait), (Some ''b'', DeTrait)]), ([TNum 1], ''D'', [(None, DeTrait),
       (None, DeTrait)])],
     de_init = None\<rparr>"
  by (simp add: derive_eval de_enum_generic_deserialize_bound_def)

definition de_enum_check_deserialize_with_attr :: "(derive_error, de_enum_code) outcome" where
  "de_enum_check_deserialize_with_attr = de_enum_process test_literals test_path ty_tokens ''borsh''
    \<lparr>en_ident = ''C'', en_generics = \<lparr>gen_params =
       [ParamType ''K'' [BoundTrait (Path False [Segment ''Ord'' NoArguments])] None, ParamType ''V'' [] None],
       gen_where = None\<rparr>,
     en_variants = [\<lparr>var_ident = ''C3'', var_fields = FieldsUnnamed [test_field [] None (ident_type ''u64''),
       test_field [] None (ident_type ''u64'')], var_discriminant = None\<rparr>,
       \<lparr>var_ident = ''C4'', var_fields = FieldsNamed [test_field [] (Some ''x'') (ident_type ''u64''),
       test_field [borsh_attr [Meta ''deserialize_with'' (Assigned (LitStr
       ''third_party_impl::deserialize_third_party''))]] (Some ''y'') (applied_type ''ThirdParty'' [ident_type ''K'',
       ident_type ''V''])], var_discriminant = None\<rparr>],
     en_attrs = []\<rparr>"

lemma de_enum_check_deserialize_with_attr_snapshot:
  "de_enum_check_deserialize_with_attr =
    Ok \<lparr>de_where = [PredicateType (ident_type ''K'') ''borsh::de::BorshDeserialize'',
       PredicateType (ident_type ''V'') ''borsh::de::BorshDeserialize''],
     de_arms = [([TNum 0], ''C3'', [(None, DeTrait), (None, DeTrait)]), ([TNum 1], ''C4'', [(Some ''x'', DeTrait),
       (Some ''y'', DeWith ''third_party_impl::deserialize_third_party'')])],
     de_init = None\<rparr>"
  by (simp add: derive_eval de_enum_check_deserialize_with_attr_def)

definition de_enum_borsh_discriminant_false :: "(derive_error, de_enum_code) outcome" where
  "de_enum_borsh_discriminant_false = de_enum_process test_literals test_path ty_tokens ''borsh''
    \<lparr>en_ident = ''X'', en_generics = \<lparr>gen_params = [], gen_where = None\<rparr>,
     en_variants = [\<lparr>var_ident = ''A'', var_fields = FieldsUnit, var_discriminant = None\<rparr>,
       \<lparr>var_ident = ''B'', var_fields = FieldsUnit, var_discriminant = Some [TNum 20]\<rparr>,
       \<lparr>var_ident = ''C'', var_fields = FieldsUnit, var_discriminant = None\<rparr>,
       \<lparr>var_ident = ''D'', var_fields = FieldsUnit, var_discriminant = None\<rparr>,
       \<lparr>var_ident = ''E'', var_fields = FieldsUnit, var_discriminant = Some [TNum 10]\<rparr>,
       \<lparr>var_ident = ''F'', var_fields = FieldsUnit, var_discriminant = None\<rparr>],
     en_attrs = [borsh_attr [Meta ''use_discriminant'' (Assigned (ExprTokens ''false''))]]\<rparr>"

lemma de_enum_borsh_discriminant_false_snapshot:
  "de_enum_borsh_discriminant_false =
    Ok \<lparr>de_where = [],
     de_arms = [([TNum 0], ''A'', []), ([TNum 1], ''B'', []), ([TNum 2], ''C'', []), ([TNum 3], ''D'', []), ([TNum 4],
       ''E'', []), ([TNum 5], ''F'', [])],
     de_init = None\<rparr>"
  by (simp add: derive_eval de_enum_borsh_discriminant_false_def)

definition de_enum_borsh_discriminant_true :: "(derive_error, de_enum_code) outcome" where
  "de_enum_borsh_discriminant_true = de_enum_process test_literals test_path ty_tokens ''borsh''
    \<lparr>en_ident = ''X'', en_generics = \<lparr>gen_params = [], gen_where = None\<rparr>,
     en_variants = [\<lparr>var_ident = ''A'', var_fields = FieldsUnit, var_discriminant = None\<rparr>,
       \<lparr>var_ident = ''B'', var_fields = FieldsUnit, var_discriminant = Some [TNum 20]\<rparr>,
       \<lparr>var_ident = ''C'', var_fields = FieldsUnit, var_discriminant = None\<rparr>,
       \<lparr>var_ident = ''D'', var_fields = FieldsUnit, var_discriminant = None\<rparr>,
       \<lparr>var_ident = ''E'', var_fields = FieldsUnit, var_discriminant = Some [TNum 10]\<rparr>,
       \<lparr>var_ident = ''F'', var_fields = FieldsUnit, var_discriminant = None\<rparr>],
     en_attrs = [borsh_attr [Meta ''use_discriminant'' (Assigned (ExprTokens ''true''))]]\<rparr>"

lemma de_enum_borsh_discriminant_true_snapshot:
  "de_enum_borsh_discriminant_true =
    Ok \<lparr>de_where = [],
     de_arms = [([TNum 0], ''A'', []), ([TNum 20], ''B'', []), ([TNum 20, TOp Add, TNum 1], ''C'', []), ([TNum 20,
       TOp Add, TNum 1, TOp Add, TNum 1], ''D'', []), ([TNum 10], ''E'', []), ([TNum 10, TOp Add, TNum 1], ''F'',
       [])],
     de_init = None\<rparr>"
  by (simp add: derive_eval de_enum_borsh_discriminant_true_def)

definition de_enum_borsh_init_func :: "(derive_error, de_enum_code) outcome" where
  "de_enum_borsh_init_func = de_enum_process test_literals test_path ty_tokens ''borsh''
    \<lparr>en_ident = ''A'', en_generics = \<lparr>gen_params = [], gen_where = None\<rparr>,
     en_variants = [\<lparr>var_ident = ''A'', var_fields = FieldsUnit, var_discriminant = None\<rparr>,
       \<lparr>var_ident = ''B'', var_fields = FieldsUnit, var_discriminant = None\<rparr>,
       \<lparr>var_ident = ''C'', var_fields = FieldsUnit, var_discriminant = None\<rparr>,
       \<lparr>var_ident = ''D'', var_fields = FieldsUnit, var_discriminant = None\<rparr>,
       \<lparr>var_ident = ''E'', var_fields = FieldsUnit, var_discriminant = None\<rparr>,
       \<lparr>var_ident = ''F'', var_fields = FieldsUnit, var_discriminant = None\<rparr>],
     en_attrs = [borsh_attr [Meta ''init'' (Assigned (ExprTokens ''initialization_method''))]]\<rparr>"

lemma de_enum_borsh_init_func_snapshot:
  "de_enum_borsh_init_func =
    Ok \<lparr>de_where = [],
     de_arms = [([TNum 0], ''A'', []), ([TNum 1], ''B'', []), ([TNum 2], ''C'', []), ([TNum 3], ''D'', []), ([TNum 4],
       ''E'', []), ([TNum 5], ''F'', [])],
     de_init = Some ''initialization_method''\<rparr>"
  by (simp add: derive_eval de_enum_borsh_init_func_def)

end
