(* ===== verification/Schema_Snapshots.thy ===== *)
theory Schema_Snapshots
  imports Derive_Test_Syntax
begin

section \<open>Recorded expansions of BorshSchema\<close>

text \<open>
  The tests that \<open>borsh-derive/src/internals/schema\<close> has for its macros: each expands an item and
  compares the code with a recorded snapshot. A definition here is the expansion that a test
  performs, and the lemma after it states that it is the code of the snapshot (the file in
  \<open>snapshots\<close> with the name of the test), or its error.
  The printer of the snapshots leaves out a \<open>where\<close> clause without predicates.
\<close>

subsection \<open>Tests of \<open>schema/structs\<close>\<close>

definition schema_struct_unit_struct :: "(derive_error, schema_struct_code) outcome" where
  "schema_struct_unit_struct = schema_struct_process test_literals ty_tokens ''borsh''
    \<lparr>st_ident = ''A'', st_generics = \<lparr>gen_params = [], gen_where = None\<rparr>,
     st_fields = FieldsUnit,
     st_attrs = []\<rparr>"

lemma schema_struct_unit_struct_snapshot:
  "schema_struct_unit_struct =
    Ok \<lparr>sc_where = [],
     sc_declaration = (''A'', []),
     sc_fields = EmptyCode,
     sc_calls = []\<rparr>"
  by (simp add: derive_eval schema_struct_unit_struct_def)

definition schema_struct_wrapper_struct :: "(derive_error, schema_struct_code) outcome" where
  "schema_struct_wrapper_struct = schema_struct_process test_literals ty_tokens ''borsh''
    \<lparr>st_ident = ''A'', st_generics = \<lparr>gen_params = [ParamType ''T'' [] None], gen_where = None\<rparr>,
     st_fields = FieldsUnnamed [test_field [] None (ident_type ''T'')],
     st_attrs = []\<rparr>"

lemma schema_struct_wrapper_struct_snapshot:
  "schema_struct_wrapper_struct =
    Ok \<lparr>sc_where = [PredicateType (ident_type ''T'') ''borsh::BorshSchema''],
     sc_declaration = (''A'', [ident_type ''T'']),
     sc_fields = UnnamedCode [(None, ByType (ident_type ''T''))],
     sc_calls = [ByType (ident_type ''T'')]\<rparr>"
  by (simp add: derive_eval schema_struct_wrapper_struct_def)

definition schema_struct_tuple_struct :: "(derive_error, schema_struct_code) outcome" where
  "schema_struct_tuple_struct = schema_struct_process test_literals ty_tokens ''borsh''
    \<lparr>st_ident = ''A'', st_generics = \<lparr>gen_params = [], gen_where = None\<rparr>,
     st_fields = FieldsUnnamed [test_field [] None (ident_type ''u64''), test_field [] None (ident_type ''String'')],
     st_attrs = []\<rparr>"

lemma schema_struct_tuple_struct_snapshot:
  "schema_struct_tuple_struct =
    Ok \<lparr>sc_where = [],
     sc_declaration = (''A'', []),
     sc_fields = UnnamedCode [(None, ByType (ident_type ''u64'')), (None, ByType (ident_type ''String''))],
     sc_calls = [ByType (ident_type ''u64''), ByType (ident_type ''String'')]\<rparr>"
  by (simp add: derive_eval schema_struct_tuple_struct_def)

definition schema_struct_tuple_struct_params :: "(derive_error, schema_struct_code) outcome" where
  "schema_struct_tuple_struct_params = schema_struct_process test_literals ty_tokens ''borsh''
    \<lparr>st_ident = ''A'', st_generics = \<lparr>gen_params = [ParamType ''K'' [] None, ParamType ''V'' [] None],
       gen_where = None\<rparr>,
     st_fields = FieldsUnnamed [test_field [] None (ident_type ''K''), test_field [] None (ident_type ''V'')],
     st_attrs = []\<rparr>"

lemma schema_struct_tuple_struct_params_snapshot:
  "schema_struct_tuple_struct_params =
    Ok \<lparr>sc_where = [PredicateType (ident_type ''K'') ''borsh::BorshSchema'',
       PredicateType (ident_type ''V'') ''borsh::BorshSchema''],
     sc_declaration = (''A'', [ident_type ''K'', ident_type ''V'']),
     sc_fields = UnnamedCode [(None, ByType (ident_type ''K'')), (None, ByType (ident_type ''V''))],
     sc_calls = [ByType (ident_type ''K''), ByType (ident_type ''V'')]\<rparr>"
  by (simp add: derive_eval schema_struct_tuple_struct_params_def)

definition schema_struct_simple_struct :: "(derive_error, schema_struct_code) outcome" where
  "schema_struct_simple_struct = schema_struct_process test_literals ty_tokens ''borsh''
    \<lparr>st_ident = ''A'', st_generics = \<lparr>gen_params = [], gen_where = None\<rparr>,
     st_fields = FieldsNamed [test_field [] (Some ''x'') (ident_type ''u64''),
       test_field [] (Some ''y'') (ident_type ''String'')],
     st_attrs = []\<rparr>"

lemma schema_struct_simple_struct_snapshot:
  "schema_struct_simple_struct =
    Ok \<lparr>sc_where = [],
     sc_declaration = (''A'', []),
     sc_fields = NamedCode [(Some ''x'', ByType (ident_type ''u64'')), (Some ''y'', ByType (ident_type ''String''))],
     sc_calls = [ByType (ident_type ''u64''), ByType (ident_type ''String'')]\<rparr>"
  by (simp add: derive_eval schema_struct_simple_struct_def)

definition schema_struct_simple_struct_with_custom_crate :: "(derive_error, schema_struct_code) outcome" where
  "schema_struct_simple_struct_with_custom_crate = schema_struct_process test_literals ty_tokens ''reexporter::borsh''
    \<lparr>st_ident = ''A'', st_generics = \<lparr>gen_params = [], gen_where = None\<rparr>,
     st_fields = FieldsNamed [test_field [] (Some ''x'') (ident_type ''u64''),
       test_field [] (Some ''y'') (ident_type ''String'')],
     st_attrs = []\<rparr>"

lemma schema_struct_simple_struct_with_custom_crate_snapshot:
  "schema_struct_simple_struct_with_custom_crate =
    Ok \<lparr>sc_where = [],
     sc_declaration = (''A'', []),
     sc_fields = NamedCode [(Some ''x'', ByType (ident_type ''u64'')), (Some ''y'', ByType (ident_type ''String''))],
     sc_calls = [ByType (ident_type ''u64''), ByType (ident_type ''String'')]\<rparr>"
  by (simp add: derive_eval schema_struct_simple_struct_with_custom_crate_def)

definition schema_struct_simple_generics :: "(derive_error, schema_struct_code) outcome" where
  "schema_struct_simple_generics = schema_struct_process test_literals ty_tokens ''borsh''
    \<lparr>st_ident = ''A'', st_generics = \<lparr>gen_params = [ParamType ''K'' [] None, ParamType ''V'' [] None],
       gen_where = None\<rparr>,
     st_fields = FieldsNamed [test_field [] (Some ''x'') (applied_type ''HashMap'' [ident_type ''K'',
       ident_type ''V'']), test_field [] (Some ''y'') (ident_type ''String'')],
     st_attrs = []\<rparr>"

lemma schema_struct_simple_generics_snapshot:
  "schema_struct_simple_generics =
    Ok \<lparr>sc_where = [PredicateType (ident_type ''K'') ''borsh::BorshSchema'',
       PredicateType (ident_type ''V'') ''borsh::BorshSchema''],
     sc_declaration = (''A'', [ident_type ''K'', ident_type ''V'']),
     sc_fields = NamedCode [(Some ''x'', ByType (applied_type ''HashMap'' [ident_type ''K'', ident_type ''V''])),
       (Some ''y'', ByType (ident_type ''String''))],
     sc_calls = [ByType (applied_type ''HashMap'' [ident_type ''K'', ident_type ''V'']),
       ByType (ident_type ''String'')]\<rparr>"
  by (simp add: derive_eval schema_struct_simple_generics_def)

definition schema_struct_trailing_comma_generics :: "(derive_error, schema_struct_code) outcome" where
  "schema_struct_trailing_comma_generics = schema_struct_process test_literals ty_tokens ''borsh''
    \<lparr>st_ident = ''A'', st_generics = \<lparr>gen_params = [ParamType ''K'' [] None, ParamType ''V'' [] None],
       gen_where = Some [PredicateType (ident_type ''K'') ''Display + Debug'']\<rparr>,
     st_fields = FieldsNamed [test_field [] (Some ''x'') (applied_type ''HashMap'' [ident_type ''K'',
       ident_type ''V'']), test_field [] (Some ''y'') (ident_type ''String'')],
     st_attrs = []\<rparr>"

lemma schema_struct_trailing_comma_generics_snapshot:
  "schema_struct_trailing_comma_generics =
    Ok \<lparr>sc_where = [PredicateType (ident_type ''K'') ''Display + Debug'',
       PredicateType (ident_type ''K'') ''borsh::BorshSchema'',
       PredicateType (ident_type ''V'') ''borsh::BorshSchema''],
     sc_declaration = (''A'', [ident_type ''K'', ident_type ''V'']),
     sc_fields = NamedCode [(Some ''x'', ByType (applied_type ''HashMap'' [ident_type ''K'', ident_type ''V''])),
       (Some ''y'', ByType (ident_type ''String''))],
     sc_calls = [ByType (applied_type ''HashMap'' [ident_type ''K'', ident_type ''V'']),
       ByType (ident_type ''String'')]\<rparr>"
  by (simp add: derive_eval schema_struct_trailing_comma_generics_def)

definition schema_struct_tuple_struct_whole_skip :: "(derive_error, schema_struct_code) outcome" where
  "schema_struct_tuple_struct_whole_skip = schema_struct_process test_literals ty_tokens ''borsh''
    \<lparr>st_ident = ''A'', st_generics = \<lparr>gen_params = [], gen_where = None\<rparr>,
     st_fields = FieldsUnnamed [test_field [borsh_attr [Meta ''skip'' NoValue]] None (ident_type ''String'')],
     st_attrs = []\<rparr>"

lemma schema_struct_tuple_struct_whole_skip_snapshot:
  "schema_struct_tuple_struct_whole_skip =
    Ok \<lparr>sc_where = [],
     sc_declaration = (''A'', []),
     sc_fields = EmptyCode,
     sc_calls = []\<rparr>"
  by (simp add: derive_eval schema_struct_tuple_struct_whole_skip_def)

definition schema_struct_tuple_struct_partial_skip :: "(derive_error, schema_struct_code) outcome" where
  "schema_struct_tuple_struct_partial_skip = schema_struct_process test_literals ty_tokens ''borsh''
    \<lparr>st_ident = ''A'', st_generics = \<lparr>gen_params = [], gen_where = None\<rparr>,
     st_fields = FieldsUnnamed [test_field [borsh_attr [Meta ''skip'' NoValue]] None (ident_type ''u64''),
       test_field [] None (ident_type ''String'')],
     st_attrs = []\<rparr>"

lemma schema_struct_tuple_struct_partial_skip_snapshot:
  "schema_struct_tuple_struct_partial_skip =
    Ok \<lparr>sc_where = [],
     sc_declaration = (''A'', []),
     sc_fields = UnnamedCode [(None, ByType (ident_type ''String''))],
     sc_calls = [ByType (ident_type ''String'')]\<rparr>"
  by (simp add: derive_eval schema_struct_tuple_struct_partial_skip_def)

definition schema_struct_generic_tuple_struct_borsh_skip1 :: "(derive_error, schema_struct_code) outcome" where
  "schema_struct_generic_tuple_struct_borsh_skip1 = schema_struct_process test_literals ty_tokens ''borsh''
    \<lparr>st_ident = ''G'', st_generics = \<lparr>gen_params = [ParamType ''K'' [] None, ParamType ''V'' [] None,
       ParamType ''U'' [] None], gen_where = None\<rparr>,
     st_fields = FieldsUnnamed [test_field [borsh_attr [Meta ''skip'' NoValue]] None (applied_type ''HashMap''
       [ident_type ''K'', ident_type ''V'']), test_field [] None (ident_type ''U'')],
     st_attrs = []\<rparr>"

lemma schema_struct_generic_tuple_struct_borsh_skip1_snapshot:
  "schema_struct_generic_tuple_struct_borsh_skip1 =
    Ok \<lparr>sc_where = [PredicateType (ident_type ''U'') ''borsh::BorshSchema''],
     sc_declaration = (''G'', [ident_type ''U'']),
     sc_fields = UnnamedCode [(None, ByType (ident_type ''U''))],
     sc_calls = [ByType (ident_type ''U'')]\<rparr>"
  by (simp add: derive_eval schema_struct_generic_tuple_struct_borsh_skip1_def)

definition schema_struct_generic_tuple_struct_borsh_skip2 :: "(derive_error, schema_struct_code) outcome" where
  "schema_struct_generic_tuple_struct_borsh_skip2 = schema_struct_process test_literals ty_tokens ''borsh''
    \<lparr>st_ident = ''G'', st_generics = \<lparr>gen_params = [ParamType ''K'' [] None, ParamType ''V'' [] None,
       ParamType ''U'' [] None], gen_where = None\<rparr>,
     st_fields = FieldsUnnamed [test_field [] None (applied_type ''HashMap'' [ident_type ''K'', ident_type ''V'']),
       test_field [borsh_attr [Meta ''skip'' NoValue]] None (ident_type ''U'')],
     st_attrs = []\<rparr>"

lemma schema_struct_generic_tuple_struct_borsh_skip2_snapshot:
  "schema_struct_generic_tuple_struct_borsh_skip2 =
    Ok \<lparr>sc_where = [PredicateType (ident_type ''K'') ''borsh::BorshSchema'',
       PredicateType (ident_type ''V'') ''borsh::BorshSchema''],
     sc_declaration = (''G'', [ident_type ''K'', ident_type ''V'']),
     sc_fields = UnnamedCode [(None, ByType (applied_type ''HashMap'' [ident_type ''K'', ident_type ''V'']))],
     sc_calls = [ByType (applied_type ''HashMap'' [ident_type ''K'', ident_type ''V''])]\<rparr>"
  by (simp add: derive_eval schema_struct_generic_tuple_struct_borsh_skip2_def)

definition schema_struct_generic_tuple_struct_borsh_skip3 :: "(derive_error, schema_struct_code) outcome" where
  "schema_struct_generic_tuple_struct_borsh_skip3 = schema_struct_process test_literals ty_tokens ''borsh''
    \<lparr>st_ident = ''G'', st_generics = \<lparr>gen_params = [ParamType ''U'' [] None, ParamType ''K'' [] None,
       ParamType ''V'' [] None], gen_where = None\<rparr>,
     st_fields = FieldsUnnamed [test_field [borsh_attr [Meta ''skip'' NoValue]] None (applied_type ''HashMap''
       [ident_type ''K'', ident_type ''V'']), test_field [] None (ident_type ''U''),
       test_field [] None (ident_type ''K'')],
     st_attrs = []\<rparr>"

lemma schema_struct_generic_tuple_struct_borsh_skip3_snapshot:
  "schema_struct_generic_tuple_struct_borsh_skip3 =
    Ok \<lparr>sc_where = [PredicateType (ident_type ''U'') ''borsh::BorshSchema'',
       PredicateType (ident_type ''K'') ''borsh::BorshSchema''],
     sc_declaration = (''G'', [ident_type ''U'', ident_type ''K'']),
     sc_fields = UnnamedCode [(None, ByType (ident_type ''U'')), (None, ByType (ident_type ''K''))],
     sc_calls = [ByType (ident_type ''U''), ByType (ident_type ''K'')]\<rparr>"
  by (simp add: derive_eval schema_struct_generic_tuple_struct_borsh_skip3_def)

definition schema_struct_generic_tuple_struct_borsh_skip4 :: "(derive_error, schema_struct_code) outcome" where
  "schema_struct_generic_tuple_struct_borsh_skip4 = schema_struct_process test_literals ty_tokens ''borsh''
    \<lparr>st_ident = ''ASalad'', st_generics = \<lparr>gen_params = [ParamType ''C'' [] None],
       gen_where = None\<rparr>,
     st_fields = FieldsUnnamed [test_field [] None (ident_type ''Tomatoes''),
       test_field [borsh_attr [Meta ''skip'' NoValue]] None (ident_type ''C''),
       test_field [] None (ident_type ''Oil'')],
     st_attrs = []\<rparr>"

lemma schema_struct_generic_tuple_struct_borsh_skip4_snapshot:
  "schema_struct_generic_tuple_struct_borsh_skip4 =
    Ok \<lparr>sc_where = [],
     sc_declaration = (''ASalad'', []),
     sc_fields = UnnamedCode [(None, ByType (ident_type ''Tomatoes'')), (None, ByType (ident_type ''Oil''))],
     sc_calls = [ByType (ident_type ''Tomatoes''), ByType (ident_type ''Oil'')]\<rparr>"
  by (simp add: derive_eval schema_struct_generic_tuple_struct_borsh_skip4_def)

definition schema_struct_generic_named_fields_struct_borsh_skip :: "(derive_error, schema_struct_code) outcome" where
  "schema_struct_generic_named_fields_struct_borsh_skip = schema_struct_process test_literals ty_tokens ''borsh''
    \<lparr>st_ident = ''G'', st_generics = \<lparr>gen_params = [ParamType ''K'' [] None, ParamType ''V'' [] None,
       ParamType ''U'' [] None], gen_where = None\<rparr>,
     st_fields = FieldsNamed [test_field [borsh_attr [Meta ''skip'' NoValue]] (Some ''x'') (applied_type ''HashMap''
       [ident_type ''K'', ident_type ''V'']), test_field [] (Some ''y'') (ident_type ''U'')],
     st_attrs = []\<rparr>"

lemma schema_struct_generic_named_fields_struct_borsh_skip_snapshot:
  "schema_struct_generic_named_fields_struct_borsh_skip =
    Ok \<lparr>sc_where = [PredicateType (ident_type ''U'') ''borsh::BorshSchema''],
     sc_declaration = (''G'', [ident_type ''U'']),
     sc_fields = NamedCode [(Some ''y'', ByType (ident_type ''U''))],
     sc_calls = [ByType (ident_type ''U'')]\<rparr>"
  by (simp add: derive_eval schema_struct_generic_named_fields_struct_borsh_skip_def)

definition schema_struct_recursive_struct :: "(derive_error, schema_struct_code) outcome" where
  "schema_struct_recursive_struct = schema_struct_process test_literals ty_tokens ''borsh''
    \<lparr>st_ident = ''CRecC'', st_generics = \<lparr>gen_params = [], gen_where = None\<rparr>,
     st_fields = FieldsNamed [test_field [] (Some ''a'') (ident_type ''String''),
       test_field [] (Some ''b'') (applied_type ''HashMap'' [ident_type ''String'', ident_type ''CRecC''])],
     st_attrs = []\<rparr>"

lemma schema_struct_recursive_struct_snapshot:
  "schema_struct_recursive_struct =
    Ok \<lparr>sc_where = [],
     sc_declaration = (''CRecC'', []),
     sc_fields = NamedCode [(Some ''a'', ByType (ident_type ''String'')), (Some ''b'',
       ByType (applied_type ''HashMap'' [ident_type ''String'', ident_type ''CRecC'']))],
     sc_calls = [ByType (ident_type ''String''), ByType (applied_type ''HashMap'' [ident_type ''String'',
       ident_type ''CRecC''])]\<rparr>"
  by (simp add: derive_eval schema_struct_recursive_struct_def)

definition schema_struct_generic_associated_type :: "(derive_error, schema_struct_code) outcome" where
  "schema_struct_generic_associated_type = schema_struct_process test_literals ty_tokens ''borsh''
    \<lparr>st_ident = ''Parametrized'', st_generics = \<lparr>gen_params = [ParamType ''V'' [] None,
       ParamType ''T'' [BoundTrait (Path False [Segment ''Debug'' NoArguments])] None],
       gen_where = Some [PredicateType (ident_type ''T'') ''TraitName'']\<rparr>,
     st_fields = FieldsNamed [test_field [] (Some ''field'') (qualified_type [''T'', ''Associated'']),
       test_field [] (Some ''another'') (ident_type ''V'')],
     st_attrs = []\<rparr>"

lemma schema_struct_generic_associated_type_snapshot:
  "schema_struct_generic_associated_type =
    Ok \<lparr>sc_where = [PredicateType (ident_type ''T'') ''TraitName'',
       PredicateType (ident_type ''V'') ''borsh::BorshSchema'', PredicateType (qualified_type [''T'',
       ''Associated'']) ''borsh::BorshSchema''],
     sc_declaration = (''Parametrized'', [ident_type ''V'', qualified_type [''T'', ''Associated'']]),
     sc_fields = NamedCode [(Some ''field'', ByType (qualified_type [''T'', ''Associated''])), (Some ''another'',
       ByType (ident_type ''V''))],
     sc_calls = [ByType (qualified_type [''T'', ''Associated'']), ByType (ident_type ''V'')]\<rparr>"
  by (simp add: derive_eval schema_struct_generic_associated_type_def)

definition schema_struct_generic_associated_type_param_override :: "(derive_error, schema_struct_code) outcome" where
  "schema_struct_generic_associated_type_param_override = schema_struct_process test_literals ty_tokens ''borsh''
    \<lparr>st_ident = ''Parametrized'', st_generics = \<lparr>gen_params = [ParamType ''V'' [] None,
       ParamType ''T'' [] None], gen_where = Some [PredicateType (ident_type ''T'') ''TraitName'']\<rparr>,
     st_fields = FieldsNamed [test_field [borsh_attr [Meta ''schema'' (Nested [Meta ''params'' (Assigned (LitStr
       ''T => <T as TraitName>::Associated''))])]] (Some ''field'') (associated_type (ident_type ''T'')
       [''TraitName'', ''Associated'']), test_field [] (Some ''another'') (ident_type ''V'')],
     st_attrs = []\<rparr>"

lemma schema_struct_generic_associated_type_param_override_snapshot:
  "schema_struct_generic_associated_type_param_override =
    Ok \<lparr>sc_where = [PredicateType (ident_type ''T'') ''TraitName'',
       PredicateType (ident_type ''V'') ''borsh::BorshSchema'',
       PredicateType (associated_type (ident_type ''T'') [''TraitName'', ''Associated'']) ''borsh::BorshSchema''],
     sc_declaration = (''Parametrized'', [ident_type ''V'', associated_type (ident_type ''T'') [''TraitName'',
       ''Associated'']]),
     sc_fields = NamedCode [(Some ''field'', ByType (associated_type (ident_type ''T'') [''TraitName'',
       ''Associated''])), (Some ''another'', ByType (ident_type ''V''))],
     sc_calls = [ByType (associated_type (ident_type ''T'') [''TraitName'', ''Associated'']),
       ByType (ident_type ''V'')]\<rparr>"
  by (simp add: derive_eval schema_struct_generic_associated_type_param_override_def)

definition schema_struct_generic_associated_type_param_override2 :: "(derive_error, schema_struct_code) outcome" where
  "schema_struct_generic_associated_type_param_override2 = schema_struct_process test_literals ty_tokens ''borsh''
    \<lparr>st_ident = ''Parametrized'', st_generics = \<lparr>gen_params = [ParamType ''V'' [] None,
       ParamType ''T'' [] None], gen_where = Some [PredicateType (ident_type ''T'') ''TraitName'']\<rparr>,
     st_fields = FieldsNamed [test_field [borsh_attr [Meta ''schema'' (Nested [Meta ''params'' (Assigned (LitStr
       ''T => T, T => <T as TraitName>::Associated''))])]] (Some ''field'') (TypeTuple [associated_type (ident_type
       ''T'') [''TraitName'', ''Associated''], ident_type ''T'']),
       test_field [] (Some ''another'') (ident_type ''V'')],
     st_attrs = []\<rparr>"

lemma schema_struct_generic_associated_type_param_override2_snapshot:
  "schema_struct_generic_associated_type_param_override2 =
    Ok \<lparr>sc_where = [PredicateType (ident_type ''T'') ''TraitName'',
       PredicateType (ident_type ''V'') ''borsh::BorshSchema'',
       PredicateType (ident_type ''T'') ''borsh::BorshSchema'',
       PredicateType (associated_type (ident_type ''T'') [''TraitName'', ''Associated'']) ''borsh::BorshSchema''],
     sc_declaration = (''Parametrized'', [ident_type ''V'', ident_type ''T'',
       associated_type (ident_type ''T'') [''TraitName'', ''Associated'']]),
     sc_fields = NamedCode [(Some ''field'', ByType (TypeTuple [associated_type (ident_type ''T'') [''TraitName'',
       ''Associated''], ident_type ''T''])), (Some ''another'', ByType (ident_type ''V''))],
     sc_calls = [ByType (TypeTuple [associated_type (ident_type ''T'') [''TraitName'', ''Associated''],
       ident_type ''T'']), ByType (ident_type ''V'')]\<rparr>"
  by (simp add: derive_eval schema_struct_generic_associated_type_param_override2_def)

definition schema_struct_generic_associated_type_param_override_conflict :: "(derive_error,
       schema_struct_code) outcome" where
  "schema_struct_generic_associated_type_param_override_conflict =
       schema_struct_process test_literals ty_tokens ''borsh''
    \<lparr>st_ident = ''Parametrized'', st_generics = \<lparr>gen_params = [ParamType ''V'' [] None,
       ParamType ''T'' [] None], gen_where = Some [PredicateType (ident_type ''T'') ''TraitName'']\<rparr>,
     st_fields = FieldsNamed [test_field [borsh_attr [Meta ''skip'' NoValue,
       Meta ''schema'' (Nested [Meta ''params'' (Assigned (LitStr ''T => <T as TraitName>::Associated''))])]] (Some
       ''field'') (associated_type (ident_type ''T'') [''TraitName'', ''Associated'']),
       test_field [] (Some ''another'') (ident_type ''V'')],
     st_attrs = []\<rparr>"

lemma schema_struct_generic_associated_type_param_override_conflict_snapshot:
  "schema_struct_generic_associated_type_param_override_conflict =
    Err ''`skip` cannot be used at the same time as `schema(params = ...)`''"
  by (simp add: derive_eval schema_struct_generic_associated_type_param_override_conflict_def)

definition schema_struct_check_with_funcs_skip_conflict :: "(derive_error, schema_struct_code) outcome" where
  "schema_struct_check_with_funcs_skip_conflict = schema_struct_process test_literals ty_tokens ''borsh''
    \<lparr>st_ident = ''A'', st_generics = \<lparr>gen_params = [ParamType ''K'' [] None, ParamType ''V'' [] None],
       gen_where = None\<rparr>,
     st_fields = FieldsNamed [test_field [borsh_attr [Meta ''skip'' NoValue,
       Meta ''schema'' (Nested [Meta ''with_funcs'' (Nested [Meta ''declaration'' (Assigned (LitStr
       ''third_party_impl::declaration::<K, V>'')),
       Meta ''definitions'' (Assigned (LitStr ''third_party_impl::add_definitions_recursively::<K, V>''))])])]] (Some
       ''x'') (applied_type ''ThirdParty'' [ident_type ''K'', ident_type ''V'']),
       test_field [] (Some ''y'') (ident_type ''u64'')],
     st_attrs = []\<rparr>"

lemma schema_struct_check_with_funcs_skip_conflict_snapshot:
  "schema_struct_check_with_funcs_skip_conflict =
    Err ''`skip` cannot be used at the same time as `schema(with_funcs(...))`''"
  by (simp add: derive_eval schema_struct_check_with_funcs_skip_conflict_def)

definition schema_struct_with_funcs_attr :: "(derive_error, schema_struct_code) outcome" where
  "schema_struct_with_funcs_attr = schema_struct_process test_literals ty_tokens ''borsh''
    \<lparr>st_ident = ''A'', st_generics = \<lparr>gen_params = [ParamType ''K'' [] None, ParamType ''V'' [] None],
       gen_where = None\<rparr>,
     st_fields = FieldsNamed [test_field [borsh_attr [Meta ''schema'' (Nested [Meta ''with_funcs'' (Nested [Meta
       ''declaration'' (Assigned (LitStr ''third_party_impl::declaration::<K, V>'')),
       Meta ''definitions'' (Assigned (LitStr ''third_party_impl::add_definitions_recursively::<K, V>''))])])]] (Some
       ''x'') (applied_type ''ThirdParty'' [ident_type ''K'', ident_type ''V'']),
       test_field [] (Some ''y'') (ident_type ''u64'')],
     st_attrs = []\<rparr>"

lemma schema_struct_with_funcs_attr_snapshot:
  "schema_struct_with_funcs_attr =
    Ok \<lparr>sc_where = [PredicateType (ident_type ''K'') ''borsh::BorshSchema'',
       PredicateType (ident_type ''V'') ''borsh::BorshSchema''],
     sc_declaration = (''A'', [ident_type ''K'', ident_type ''V'']),
     sc_fields = NamedCode [(Some ''x'', ByPath ''third_party_impl::declaration::<K, V>''), (Some ''y'',
       ByType (ident_type ''u64''))],
     sc_calls = [ByPath ''third_party_impl::add_definitions_recursively::<K, V>'',
       ByType (ident_type ''u64'')]\<rparr>"
  by (simp add: derive_eval schema_struct_with_funcs_attr_def)

definition schema_struct_schema_param_override3 :: "(derive_error, schema_struct_code) outcome" where
  "schema_struct_schema_param_override3 = schema_struct_process test_literals ty_tokens ''borsh''
    \<lparr>st_ident = ''A'', st_generics = \<lparr>gen_params =
       [ParamType ''K'' [BoundTrait (Path False [Segment ''EntityRef'' NoArguments])] None, ParamType ''V'' [] None],
       gen_where = None\<rparr>,
     st_fields = FieldsNamed [test_field [borsh_attr [Meta ''schema'' (Nested [Meta ''params'' (Assigned (LitStr
       ''V => V''))])]] (Some ''x'') (applied_type ''PrimaryMap'' [ident_type ''K'', ident_type ''V'']),
       test_field [] (Some ''y'') (ident_type ''String'')],
     st_attrs = []\<rparr>"

lemma schema_struct_schema_param_override3_snapshot:
  "schema_struct_schema_param_override3 =
    Ok \<lparr>sc_where = [PredicateType (ident_type ''V'') ''borsh::BorshSchema''],
     sc_declaration = (''A'', [ident_type ''V'']),
     sc_fields = NamedCode [(Some ''x'', ByType (applied_type ''PrimaryMap'' [ident_type ''K'', ident_type ''V''])),
       (Some ''y'', ByType (ident_type ''String''))],
     sc_calls = [ByType (applied_type ''PrimaryMap'' [ident_type ''K'', ident_type ''V'']),
       ByType (ident_type ''String'')]\<rparr>"
  by (simp add: derive_eval schema_struct_schema_param_override3_def)

subsection \<open>Tests of \<open>schema/enums\<close>\<close>

definition schema_enum_simple_enum :: "(derive_error, schema_enum_code) outcome" where
  "schema_enum_simple_enum = schema_enum_process test_literals ty_tokens ''borsh''
    \<lparr>en_ident = ''A'', en_generics = \<lparr>gen_params = [], gen_where = None\<rparr>,
     en_variants = [\<lparr>var_ident = ''Bacon'', var_fields = FieldsUnit, var_discriminant = None\<rparr>,
       \<lparr>var_ident = ''Eggs'', var_fields = FieldsUnit, var_discriminant = None\<rparr>],
     en_attrs = []\<rparr>"

lemma schema_enum_simple_enum_snapshot:
  "schema_enum_simple_enum =
    Ok \<lparr>sec_where = [],
     sec_declaration = (''A'', []),
     sec_variants = [\<lparr>vo_inner_struct = \<lparr>st_ident = ''ABacon'', st_generics = \<lparr>gen_params = [],
       gen_where = None\<rparr>,
           st_fields = FieldsUnit,
           st_attrs = [borsh_attr [Meta ''crate'' (Assigned (LitStr ''borsh''))]]\<rparr>,
        vo_generics = \<lparr>gen_params = [], gen_where = None\<rparr>, vo_discriminant = [TNum 0],
       vo_name = ''Bacon''\<rparr>,
       \<lparr>vo_inner_struct = \<lparr>st_ident = ''AEggs'', st_generics = \<lparr>gen_params = [],
       gen_where = None\<rparr>,
           st_fields = FieldsUnit,
           st_attrs = [borsh_attr [Meta ''crate'' (Assigned (LitStr ''borsh''))]]\<rparr>,
        vo_generics = \<lparr>gen_params = [], gen_where = None\<rparr>, vo_discriminant = [TNum 1],
       vo_name = ''Eggs''\<rparr>]\<rparr>"
  by (simp add: derive_eval schema_enum_simple_enum_def)

definition schema_enum_simple_enum_with_custom_crate :: "(derive_error, schema_enum_code) outcome" where
  "schema_enum_simple_enum_with_custom_crate = schema_enum_process test_literals ty_tokens ''reexporter::borsh''
    \<lparr>en_ident = ''A'', en_generics = \<lparr>gen_params = [], gen_where = None\<rparr>,
     en_variants = [\<lparr>var_ident = ''Bacon'', var_fields = FieldsUnit, var_discriminant = None\<rparr>,
       \<lparr>var_ident = ''Eggs'', var_fields = FieldsUnit, var_discriminant = None\<rparr>],
     en_attrs = []\<rparr>"

lemma schema_enum_simple_enum_with_custom_crate_snapshot:
  "schema_enum_simple_enum_with_custom_crate =
    Ok \<lparr>sec_where = [],
     sec_declaration = (''A'', []),
     sec_variants = [\<lparr>vo_inner_struct = \<lparr>st_ident = ''ABacon'', st_generics = \<lparr>gen_params = [],
       gen_where = None\<rparr>,
           st_fields = FieldsUnit,
           st_attrs = [borsh_attr [Meta ''crate'' (Assigned (LitStr ''reexporter::borsh''))]]\<rparr>,
        vo_generics = \<lparr>gen_params = [], gen_where = None\<rparr>, vo_discriminant = [TNum 0],
       vo_name = ''Bacon''\<rparr>,
       \<lparr>vo_inner_struct = \<lparr>st_ident = ''AEggs'', st_generics = \<lparr>gen_params = [],
       gen_where = None\<rparr>,
           st_fields = FieldsUnit,
           st_attrs = [borsh_attr [Meta ''crate'' (Assigned (LitStr ''reexporter::borsh''))]]\<rparr>,
        vo_generics = \<lparr>gen_params = [], gen_where = None\<rparr>, vo_discriminant = [TNum 1],
       vo_name = ''Eggs''\<rparr>]\<rparr>"
  by (simp add: derive_eval schema_enum_simple_enum_with_custom_crate_def)

definition schema_enum_borsh_discriminant_false :: "(derive_error, schema_enum_code) outcome" where
  "schema_enum_borsh_discriminant_false = schema_enum_process test_literals ty_tokens ''borsh''
    \<lparr>en_ident = ''X'', en_generics = \<lparr>gen_params = [], gen_where = None\<rparr>,
     en_variants = [\<lparr>var_ident = ''A'', var_fields = FieldsUnit, var_discriminant = None\<rparr>,
       \<lparr>var_ident = ''B'', var_fields = FieldsUnit, var_discriminant = Some [TNum 20]\<rparr>,
       \<lparr>var_ident = ''C'', var_fields = FieldsUnit, var_discriminant = None\<rparr>,
       \<lparr>var_ident = ''D'', var_fields = FieldsUnit, var_discriminant = None\<rparr>,
       \<lparr>var_ident = ''E'', var_fields = FieldsUnit, var_discriminant = Some [TNum 10]\<rparr>,
       \<lparr>var_ident = ''F'', var_fields = FieldsUnit, var_discriminant = None\<rparr>],
     en_attrs = [borsh_attr [Meta ''use_discriminant'' (Assigned (ExprTokens ''false''))]]\<rparr>"

lemma schema_enum_borsh_discriminant_false_snapshot:
  "schema_enum_borsh_discriminant_false =
    Ok \<lparr>sec_where = [],
     sec_declaration = (''X'', []),
     sec_variants = [\<lparr>vo_inner_struct = \<lparr>st_ident = ''XA'', st_generics = \<lparr>gen_params = [],
       gen_where = None\<rparr>,
           st_fields = FieldsUnit,
           st_attrs = [borsh_attr [Meta ''crate'' (Assigned (LitStr ''borsh''))]]\<rparr>,
        vo_generics = \<lparr>gen_params = [], gen_where = None\<rparr>, vo_discriminant = [TNum 0],
       vo_name = ''A''\<rparr>,
       \<lparr>vo_inner_struct = \<lparr>st_ident = ''XB'', st_generics = \<lparr>gen_params = [],
       gen_where = None\<rparr>,
           st_fields = FieldsUnit,
           st_attrs = [borsh_attr [Meta ''crate'' (Assigned (LitStr ''borsh''))]]\<rparr>,
        vo_generics = \<lparr>gen_params = [], gen_where = None\<rparr>, vo_discriminant = [TNum 1],
       vo_name = ''B''\<rparr>,
       \<lparr>vo_inner_struct = \<lparr>st_ident = ''XC'', st_generics = \<lparr>gen_params = [],
       gen_where = None\<rparr>,
           st_fields = FieldsUnit,
           st_attrs = [borsh_attr [Meta ''crate'' (Assigned (LitStr ''borsh''))]]\<rparr>,
        vo_generics = \<lparr>gen_params = [], gen_where = None\<rparr>, vo_discriminant = [TNum 2],
       vo_name = ''C''\<rparr>,
       \<lparr>vo_inner_struct = \<lparr>st_ident = ''XD'', st_generics = \<lparr>gen_params = [],
       gen_where = None\<rparr>,
           st_fields = FieldsUnit,
           st_attrs = [borsh_attr [Meta ''crate'' (Assigned (LitStr ''borsh''))]]\<rparr>,
        vo_generics = \<lparr>gen_params = [], gen_where = None\<rparr>, vo_discriminant = [TNum 3],
       vo_name = ''D''\<rparr>,
       \<lparr>vo_inner_struct = \<lparr>st_ident = ''XE'', st_generics = \<lparr>gen_params = [],
       gen_where = None\<rparr>,
           st_fields = FieldsUnit,
           st_attrs = [borsh_attr [Meta ''crate'' (Assigned (LitStr ''borsh''))]]\<rparr>,
        vo_generics = \<lparr>gen_params = [], gen_where = None\<rparr>, vo_discriminant = [TNum 4],
       vo_name = ''E''\<rparr>,
       \<lparr>vo_inner_struct = \<lparr>st_ident = ''XF'', st_generics = \<lparr>gen_params = [],
       gen_where = None\<rparr>,
           st_fields = FieldsUnit,
           st_attrs = [borsh_attr [Meta ''crate'' (Assigned (LitStr ''borsh''))]]\<rparr>,
        vo_generics = \<lparr>gen_params = [], gen_where = None\<rparr>, vo_discriminant = [TNum 5],
       vo_name = ''F''\<rparr>]\<rparr>"
  by (simp add: derive_eval schema_enum_borsh_discriminant_false_def)

definition schema_enum_borsh_discriminant_true :: "(derive_error, schema_enum_code) outcome" where
  "schema_enum_borsh_discriminant_true = schema_enum_process test_literals ty_tokens ''borsh''
    \<lparr>en_ident = ''X'', en_generics = \<lparr>gen_params = [], gen_where = None\<rparr>,
     en_variants = [\<lparr>var_ident = ''A'', var_fields = FieldsUnit, var_discriminant = None\<rparr>,
       \<lparr>var_ident = ''B'', var_fields = FieldsUnit, var_discriminant = Some [TNum 20]\<rparr>,
       \<lparr>var_ident = ''C'', var_fields = FieldsUnit, var_discriminant = None\<rparr>,
       \<lparr>var_ident = ''D'', var_fields = FieldsUnit, var_discriminant = None\<rparr>,
       \<lparr>var_ident = ''E'', var_fields = FieldsUnit, var_discriminant = Some [TNum 10]\<rparr>,
       \<lparr>var_ident = ''F'', var_fields = FieldsUnit, var_discriminant = None\<rparr>],
     en_attrs = [borsh_attr [Meta ''use_discriminant'' (Assigned (ExprTokens ''true''))]]\<rparr>"

lemma schema_enum_borsh_discriminant_true_snapshot:
  "schema_enum_borsh_discriminant_true =
    Ok \<lparr>sec_where = [],
     sec_declaration = (''X'', []),
     sec_variants = [\<lparr>vo_inner_struct = \<lparr>st_ident = ''XA'', st_generics = \<lparr>gen_params = [],
       gen_where = None\<rparr>,
           st_fields = FieldsUnit,
           st_attrs = [borsh_attr [Meta ''crate'' (Assigned (LitStr ''borsh''))]]\<rparr>,
        vo_generics = \<lparr>gen_params = [], gen_where = None\<rparr>, vo_discriminant = [TNum 0],
       vo_name = ''A''\<rparr>,
       \<lparr>vo_inner_struct = \<lparr>st_ident = ''XB'', st_generics = \<lparr>gen_params = [],
       gen_where = None\<rparr>,
           st_fields = FieldsUnit,
           st_attrs = [borsh_attr [Meta ''crate'' (Assigned (LitStr ''borsh''))]]\<rparr>,
        vo_generics = \<lparr>gen_params = [], gen_where = None\<rparr>, vo_discriminant = [TNum 20],
       vo_name = ''B''\<rparr>,
       \<lparr>vo_inner_struct = \<lparr>st_ident = ''XC'', st_generics = \<lparr>gen_params = [],
       gen_where = None\<rparr>,
           st_fields = FieldsUnit,
           st_attrs = [borsh_attr [Meta ''crate'' (Assigned (LitStr ''borsh''))]]\<rparr>,
        vo_generics = \<lparr>gen_params = [], gen_where = None\<rparr>, vo_discriminant = [TNum 20, TOp Add, TNum 1],
       vo_name = ''C''\<rparr>,
       \<lparr>vo_inner_struct = \<lparr>st_ident = ''XD'', st_generics = \<lparr>gen_params = [],
       gen_where = None\<rparr>,
           st_fields = FieldsUnit,
           st_attrs = [borsh_attr [Meta ''crate'' (Assigned (LitStr ''borsh''))]]\<rparr>,
        vo_generics = \<lparr>gen_params = [], gen_where = None\<rparr>, vo_discriminant = [TNum 20, TOp Add, TNum 1,
       TOp Add, TNum 1], vo_name = ''D''\<rparr>,
       \<lparr>vo_inner_struct = \<lparr>st_ident = ''XE'', st_generics = \<lparr>gen_params = [],
       gen_where = None\<rparr>,
           st_fields = FieldsUnit,
           st_attrs = [borsh_attr [Meta ''crate'' (Assigned (LitStr ''borsh''))]]\<rparr>,
        vo_generics = \<lparr>gen_params = [], gen_where = None\<rparr>, vo_discriminant = [TNum 10],
       vo_name = ''E''\<rparr>,
       \<lparr>vo_inner_struct = \<lparr>st_ident = ''XF'', st_generics = \<lparr>gen_params = [],
       gen_where = None\<rparr>,
           st_fields = FieldsUnit,
           st_attrs = [borsh_attr [Meta ''crate'' (Assigned (LitStr ''borsh''))]]\<rparr>,
        vo_generics = \<lparr>gen_params = [], gen_where = None\<rparr>, vo_discriminant = [TNum 10, TOp Add, TNum 1],
       vo_name = ''F''\<rparr>]\<rparr>"
  by (simp add: derive_eval schema_enum_borsh_discriminant_true_def)

definition schema_enum_single_field_enum :: "(derive_error, schema_enum_code) outcome" where
  "schema_enum_single_field_enum = schema_enum_process test_literals ty_tokens ''borsh''
    \<lparr>en_ident = ''A'', en_generics = \<lparr>gen_params = [], gen_where = None\<rparr>,
     en_variants = [\<lparr>var_ident = ''Bacon'', var_fields = FieldsUnit, var_discriminant = None\<rparr>],
     en_attrs = []\<rparr>"

lemma schema_enum_single_field_enum_snapshot:
  "schema_enum_single_field_enum =
    Ok \<lparr>sec_where = [],
     sec_declaration = (''A'', []),
     sec_variants = [\<lparr>vo_inner_struct = \<lparr>st_ident = ''ABacon'', st_generics = \<lparr>gen_params = [],
       gen_where = None\<rparr>,
           st_fields = FieldsUnit,
           st_attrs = [borsh_attr [Meta ''crate'' (Assigned (LitStr ''borsh''))]]\<rparr>,
        vo_generics = \<lparr>gen_params = [], gen_where = None\<rparr>, vo_discriminant = [TNum 0],
       vo_name = ''Bacon''\<rparr>]\<rparr>"
  by (simp add: derive_eval schema_enum_single_field_enum_def)

definition schema_enum_complex_enum :: "(derive_error, schema_enum_code) outcome" where
  "schema_enum_complex_enum = schema_enum_process test_literals ty_tokens ''borsh''
    \<lparr>en_ident = ''A'', en_generics = \<lparr>gen_params = [], gen_where = None\<rparr>,
     en_variants = [\<lparr>var_ident = ''Bacon'', var_fields = FieldsUnit, var_discriminant = None\<rparr>,
       \<lparr>var_ident = ''Eggs'', var_fields = FieldsUnit, var_discriminant = None\<rparr>,
       \<lparr>var_ident = ''Salad'', var_fields = FieldsUnnamed [test_field [] None (ident_type ''Tomatoes''),
       test_field [] None (ident_type ''Cucumber''), test_field [] None (ident_type ''Oil'')],
       var_discriminant = None\<rparr>,
       \<lparr>var_ident = ''Sausage'',
       var_fields = FieldsNamed [test_field [] (Some ''wrapper'') (ident_type ''Wrapper''),
       test_field [] (Some ''filling'') (ident_type ''Filling'')], var_discriminant = None\<rparr>],
     en_attrs = []\<rparr>"

lemma schema_enum_complex_enum_snapshot:
  "schema_enum_complex_enum =
    Ok \<lparr>sec_where = [],
     sec_declaration = (''A'', []),
     sec_variants = [\<lparr>vo_inner_struct = \<lparr>st_ident = ''ABacon'', st_generics = \<lparr>gen_params = [],
       gen_where = None\<rparr>,
           st_fields = FieldsUnit,
           st_attrs = [borsh_attr [Meta ''crate'' (Assigned (LitStr ''borsh''))]]\<rparr>,
        vo_generics = \<lparr>gen_params = [], gen_where = None\<rparr>, vo_discriminant = [TNum 0],
       vo_name = ''Bacon''\<rparr>,
       \<lparr>vo_inner_struct = \<lparr>st_ident = ''AEggs'', st_generics = \<lparr>gen_params = [],
       gen_where = None\<rparr>,
           st_fields = FieldsUnit,
           st_attrs = [borsh_attr [Meta ''crate'' (Assigned (LitStr ''borsh''))]]\<rparr>,
        vo_generics = \<lparr>gen_params = [], gen_where = None\<rparr>, vo_discriminant = [TNum 1],
       vo_name = ''Eggs''\<rparr>,
       \<lparr>vo_inner_struct = \<lparr>st_ident = ''ASalad'', st_generics = \<lparr>gen_params = [],
       gen_where = None\<rparr>,
           st_fields = FieldsUnnamed [test_field [] None (ident_type ''Tomatoes''),
       test_field [] None (ident_type ''Cucumber''), test_field [] None (ident_type ''Oil'')],
           st_attrs = [borsh_attr [Meta ''crate'' (Assigned (LitStr ''borsh''))]]\<rparr>,
        vo_generics = \<lparr>gen_params = [], gen_where = None\<rparr>, vo_discriminant = [TNum 2],
       vo_name = ''Salad''\<rparr>,
       \<lparr>vo_inner_struct = \<lparr>st_ident = ''ASausage'', st_generics = \<lparr>gen_params = [],
       gen_where = None\<rparr>,
           st_fields = FieldsNamed [test_field [] (Some ''wrapper'') (ident_type ''Wrapper''),
       test_field [] (Some ''filling'') (ident_type ''Filling'')],
           st_attrs = [borsh_attr [Meta ''crate'' (Assigned (LitStr ''borsh''))]]\<rparr>,
        vo_generics = \<lparr>gen_params = [], gen_where = None\<rparr>, vo_discriminant = [TNum 3],
       vo_name = ''Sausage''\<rparr>]\<rparr>"
  by (simp add: derive_eval schema_enum_complex_enum_def)

definition schema_enum_complex_enum_generics :: "(derive_error, schema_enum_code) outcome" where
  "schema_enum_complex_enum_generics = schema_enum_process test_literals ty_tokens ''borsh''
    \<lparr>en_ident = ''A'', en_generics = \<lparr>gen_params = [ParamType ''C'' [] None, ParamType ''W'' [] None],
       gen_where = None\<rparr>,
     en_variants = [\<lparr>var_ident = ''Bacon'', var_fields = FieldsUnit, var_discriminant = None\<rparr>,
       \<lparr>var_ident = ''Eggs'', var_fields = FieldsUnit, var_discriminant = None\<rparr>,
       \<lparr>var_ident = ''Salad'', var_fields = FieldsUnnamed [test_field [] None (ident_type ''Tomatoes''),
       test_field [] None (ident_type ''C''), test_field [] None (ident_type ''Oil'')],
       var_discriminant = None\<rparr>,
       \<lparr>var_ident = ''Sausage'', var_fields = FieldsNamed [test_field [] (Some ''wrapper'') (ident_type ''W''),
       test_field [] (Some ''filling'') (ident_type ''Filling'')], var_discriminant = None\<rparr>],
     en_attrs = []\<rparr>"

lemma schema_enum_complex_enum_generics_snapshot:
  "schema_enum_complex_enum_generics =
    Ok \<lparr>sec_where = [PredicateType (ident_type ''C'') ''borsh::BorshSchema'',
       PredicateType (ident_type ''W'') ''borsh::BorshSchema''],
     sec_declaration = (''A'', [ident_type ''C'', ident_type ''W'']),
     sec_variants = [\<lparr>vo_inner_struct = \<lparr>st_ident = ''ABacon'', st_generics = \<lparr>gen_params = [],
       gen_where = None\<rparr>,
           st_fields = FieldsUnit,
           st_attrs = [borsh_attr [Meta ''crate'' (Assigned (LitStr ''borsh''))]]\<rparr>,
        vo_generics = \<lparr>gen_params = [], gen_where = None\<rparr>, vo_discriminant = [TNum 0],
       vo_name = ''Bacon''\<rparr>,
       \<lparr>vo_inner_struct = \<lparr>st_ident = ''AEggs'', st_generics = \<lparr>gen_params = [],
       gen_where = None\<rparr>,
           st_fields = FieldsUnit,
           st_attrs = [borsh_attr [Meta ''crate'' (Assigned (LitStr ''borsh''))]]\<rparr>,
        vo_generics = \<lparr>gen_params = [], gen_where = None\<rparr>, vo_discriminant = [TNum 1],
       vo_name = ''Eggs''\<rparr>,
       \<lparr>vo_inner_struct = \<lparr>st_ident = ''ASalad'',
       st_generics = \<lparr>gen_params = [ParamType ''C'' [] None], gen_where = None\<rparr>,
           st_fields = FieldsUnnamed [test_field [] None (ident_type ''Tomatoes''),
       test_field [] None (ident_type ''C''), test_field [] None (ident_type ''Oil'')],
           st_attrs = [borsh_attr [Meta ''crate'' (Assigned (LitStr ''borsh''))]]\<rparr>,
        vo_generics = \<lparr>gen_params = [ParamType ''C'' [] None], gen_where = None\<rparr>,
       vo_discriminant = [TNum 2], vo_name = ''Salad''\<rparr>,
       \<lparr>vo_inner_struct = \<lparr>st_ident = ''ASausage'',
       st_generics = \<lparr>gen_params = [ParamType ''W'' [] None], gen_where = None\<rparr>,
           st_fields = FieldsNamed [test_field [] (Some ''wrapper'') (ident_type ''W''),
       test_field [] (Some ''filling'') (ident_type ''Filling'')],
           st_attrs = [borsh_attr [Meta ''crate'' (Assigned (LitStr ''borsh''))]]\<rparr>,
        vo_generics = \<lparr>gen_params = [ParamType ''W'' [] None], gen_where = None\<rparr>,
       vo_discriminant = [TNum 3], vo_name = ''Sausage''\<rparr>]\<rparr>"
  by (simp add: derive_eval schema_enum_complex_enum_generics_def)

definition schema_enum_trailing_comma_generics :: "(derive_error, schema_enum_code) outcome" where
  "schema_enum_trailing_comma_generics = schema_enum_process test_literals ty_tokens ''borsh''
    \<lparr>en_ident = ''Side'', en_generics = \<lparr>gen_params = [ParamType ''B'' [] None,
       ParamType ''A'' [] None], gen_where = Some [PredicateType (ident_type ''A'') ''Display + Debug'',
       PredicateType (ident_type ''B'') ''Display + Debug'']\<rparr>,
     en_variants = [\<lparr>var_ident = ''Left'', var_fields = FieldsUnnamed [test_field [] None (ident_type ''A'')],
       var_discriminant = None\<rparr>,
       \<lparr>var_ident = ''Right'', var_fields = FieldsUnnamed [test_field [] None (ident_type ''B'')],
       var_discriminant = None\<rparr>],
     en_attrs = []\<rparr>"

lemma schema_enum_trailing_comma_generics_snapshot:
  "schema_enum_trailing_comma_generics =
    Ok \<lparr>sec_where = [PredicateType (ident_type ''A'') ''Display + Debug'',
       PredicateType (ident_type ''B'') ''Display + Debug'', PredicateType (ident_type ''B'') ''borsh::BorshSchema'',
       PredicateType (ident_type ''A'') ''borsh::BorshSchema''],
     sec_declaration = (''Side'', [ident_type ''B'', ident_type ''A'']),
     sec_variants = [\<lparr>vo_inner_struct = \<lparr>st_ident = ''SideLeft'',
       st_generics = \<lparr>gen_params = [ParamType ''A'' [] None],
       gen_where = Some [PredicateType (ident_type ''A'') ''Display + Debug'']\<rparr>,
           st_fields = FieldsUnnamed [test_field [] None (ident_type ''A'')],
           st_attrs = [borsh_attr [Meta ''crate'' (Assigned (LitStr ''borsh''))]]\<rparr>,
        vo_generics = \<lparr>gen_params = [ParamType ''A'' [] None],
       gen_where = Some [PredicateType (ident_type ''A'') ''Display + Debug'']\<rparr>, vo_discriminant = [TNum 0],
       vo_name = ''Left''\<rparr>,
       \<lparr>vo_inner_struct = \<lparr>st_ident = ''SideRight'',
       st_generics = \<lparr>gen_params = [ParamType ''B'' [] None],
       gen_where = Some [PredicateType (ident_type ''B'') ''Display + Debug'']\<rparr>,
           st_fields = FieldsUnnamed [test_field [] None (ident_type ''B'')],
           st_attrs = [borsh_attr [Meta ''crate'' (Assigned (LitStr ''borsh''))]]\<rparr>,
        vo_generics = \<lparr>gen_params = [ParamType ''B'' [] None],
       gen_where = Some [PredicateType (ident_type ''B'') ''Display + Debug'']\<rparr>, vo_discriminant = [TNum 1],
       vo_name = ''Right''\<rparr>]\<rparr>"
  by (simp add: derive_eval schema_enum_trailing_comma_generics_def)

definition schema_enum_filter_foreign_attrs :: "(derive_error, schema_enum_code) outcome" where
  "schema_enum_filter_foreign_attrs = schema_enum_process test_literals ty_tokens ''borsh''
    \<lparr>en_ident = ''A'', en_generics = \<lparr>gen_params = [], gen_where = None\<rparr>,
     en_variants = [\<lparr>var_ident = ''B'', var_fields = FieldsNamed [test_field [\<lparr>attr_path = ''serde'',
       attr_args = Some [Meta ''rename'' (Assigned (LitStr ''abc''))]\<rparr>] (Some ''c'') (ident_type ''i32''),
       test_field [borsh_attr [Meta ''skip'' NoValue]] (Some ''d'') (ident_type ''u32''),
       test_field [] (Some ''l'') (ident_type ''u64'')], var_discriminant = None\<rparr>,
       \<lparr>var_ident = ''Negative'',
       var_fields = FieldsNamed [test_field [] (Some ''beta'') (ident_type ''String'')],
       var_discriminant = None\<rparr>],
     en_attrs = []\<rparr>"

lemma schema_enum_filter_foreign_attrs_snapshot:
  "schema_enum_filter_foreign_attrs =
    Ok \<lparr>sec_where = [],
     sec_declaration = (''A'', []),
     sec_variants = [\<lparr>vo_inner_struct = \<lparr>st_ident = ''AB'', st_generics = \<lparr>gen_params = [],
       gen_where = None\<rparr>,
           st_fields = FieldsNamed [test_field [] (Some ''c'') (ident_type ''i32''),
       test_field [borsh_attr [Meta ''skip'' NoValue]] (Some ''d'') (ident_type ''u32''),
       test_field [] (Some ''l'') (ident_type ''u64'')],
           st_attrs = [borsh_attr [Meta ''crate'' (Assigned (LitStr ''borsh''))]]\<rparr>,
        vo_generics = \<lparr>gen_params = [], gen_where = None\<rparr>, vo_discriminant = [TNum 0],
       vo_name = ''B''\<rparr>,
       \<lparr>vo_inner_struct = \<lparr>st_ident = ''ANegative'', st_generics = \<lparr>gen_params = [],
       gen_where = None\<rparr>,
           st_fields = FieldsNamed [test_field [] (Some ''beta'') (ident_type ''String'')],
           st_attrs = [borsh_attr [Meta ''crate'' (Assigned (LitStr ''borsh''))]]\<rparr>,
        vo_generics = \<lparr>gen_params = [], gen_where = None\<rparr>, vo_discriminant = [TNum 1],
       vo_name = ''Negative''\<rparr>]\<rparr>"
  by (simp add: derive_eval schema_enum_filter_foreign_attrs_def)

definition schema_enum_complex_enum_generics_borsh_skip_tuple_field :: "(derive_error,
       schema_enum_code) outcome" where
  "schema_enum_complex_enum_generics_borsh_skip_tuple_field = schema_enum_process test_literals ty_tokens ''borsh''
    \<lparr>en_ident = ''A'', en_generics = \<lparr>gen_params =
       [ParamType ''C'' [BoundTrait (Path False [Segment ''Eq'' NoArguments])] None, ParamType ''W'' [] None],
       gen_where = Some [PredicateType (ident_type ''W'') ''Hash'']\<rparr>,
     en_variants = [\<lparr>var_ident = ''Bacon'', var_fields = FieldsUnit, var_discriminant = None\<rparr>,
       \<lparr>var_ident = ''Eggs'', var_fields = FieldsUnit, var_discriminant = None\<rparr>,
       \<lparr>var_ident = ''Salad'', var_fields = FieldsUnnamed [test_field [] None (ident_type ''Tomatoes''),
       test_field [borsh_attr [Meta ''skip'' NoValue]] None (ident_type ''C''),
       test_field [] None (ident_type ''Oil'')], var_discriminant = None\<rparr>,
       \<lparr>var_ident = ''Sausage'', var_fields = FieldsNamed [test_field [] (Some ''wrapper'') (ident_type ''W''),
       test_field [] (Some ''filling'') (ident_type ''Filling'')], var_discriminant = None\<rparr>],
     en_attrs = []\<rparr>"

lemma schema_enum_complex_enum_generics_borsh_skip_tuple_field_snapshot:
  "schema_enum_complex_enum_generics_borsh_skip_tuple_field =
    Ok \<lparr>sec_where = [PredicateType (ident_type ''W'') ''Hash'',
       PredicateType (ident_type ''W'') ''borsh::BorshSchema''],
     sec_declaration = (''A'', [ident_type ''W'']),
     sec_variants = [\<lparr>vo_inner_struct = \<lparr>st_ident = ''ABacon'', st_generics = \<lparr>gen_params = [],
       gen_where = Some []\<rparr>,
           st_fields = FieldsUnit,
           st_attrs = [borsh_attr [Meta ''crate'' (Assigned (LitStr ''borsh''))]]\<rparr>,
        vo_generics = \<lparr>gen_params = [], gen_where = Some []\<rparr>, vo_discriminant = [TNum 0],
       vo_name = ''Bacon''\<rparr>,
       \<lparr>vo_inner_struct = \<lparr>st_ident = ''AEggs'', st_generics = \<lparr>gen_params = [],
       gen_where = Some []\<rparr>,
           st_fields = FieldsUnit,
           st_attrs = [borsh_attr [Meta ''crate'' (Assigned (LitStr ''borsh''))]]\<rparr>,
        vo_generics = \<lparr>gen_params = [], gen_where = Some []\<rparr>, vo_discriminant = [TNum 1],
       vo_name = ''Eggs''\<rparr>,
       \<lparr>vo_inner_struct = \<lparr>st_ident = ''ASalad'',
       st_generics = \<lparr>gen_params = [ParamType ''C'' [BoundTrait (Path False [Segment ''Eq'' NoArguments])]
       None], gen_where = Some []\<rparr>,
           st_fields = FieldsUnnamed [test_field [] None (ident_type ''Tomatoes''),
       test_field [borsh_attr [Meta ''skip'' NoValue]] None (ident_type ''C''),
       test_field [] None (ident_type ''Oil'')],
           st_attrs = [borsh_attr [Meta ''crate'' (Assigned (LitStr ''borsh''))]]\<rparr>,
        vo_generics = \<lparr>gen_params = [ParamType ''C'' [BoundTrait (Path False [Segment ''Eq'' NoArguments])]
       None], gen_where = Some []\<rparr>, vo_discriminant = [TNum 2], vo_name = ''Salad''\<rparr>,
       \<lparr>vo_inner_struct = \<lparr>st_ident = ''ASausage'',
       st_generics = \<lparr>gen_params = [ParamType ''W'' [] None],
       gen_where = Some [PredicateType (ident_type ''W'') ''Hash'']\<rparr>,
           st_fields = FieldsNamed [test_field [] (Some ''wrapper'') (ident_type ''W''),
       test_field [] (Some ''filling'') (ident_type ''Filling'')],
           st_attrs = [borsh_attr [Meta ''crate'' (Assigned (LitStr ''borsh''))]]\<rparr>,
        vo_generics = \<lparr>gen_params = [ParamType ''W'' [] None],
       gen_where = Some [PredicateType (ident_type ''W'') ''Hash'']\<rparr>, vo_discriminant = [TNum 3],
       vo_name = ''Sausage''\<rparr>]\<rparr>"
  by (simp add: derive_eval schema_enum_complex_enum_generics_borsh_skip_tuple_field_def)

definition schema_enum_complex_enum_generics_borsh_skip_named_field :: "(derive_error,
       schema_enum_code) outcome" where
  "schema_enum_complex_enum_generics_borsh_skip_named_field = schema_enum_process test_literals ty_tokens ''borsh''
    \<lparr>en_ident = ''A'', en_generics = \<lparr>gen_params = [ParamType ''W'' [] None, ParamType ''U'' [] None,
       ParamType ''C'' [] None], gen_where = None\<rparr>,
     en_variants = [\<lparr>var_ident = ''Bacon'', var_fields = FieldsUnit, var_discriminant = None\<rparr>,
       \<lparr>var_ident = ''Eggs'', var_fields = FieldsUnit, var_discriminant = None\<rparr>,
       \<lparr>var_ident = ''Salad'', var_fields = FieldsUnnamed [test_field [] None (ident_type ''Tomatoes''),
       test_field [] None (ident_type ''C''), test_field [] None (ident_type ''Oil'')],
       var_discriminant = None\<rparr>,
       \<lparr>var_ident = ''Sausage'',
       var_fields = FieldsNamed [test_field [borsh_attr [Meta ''skip'' NoValue]] (Some ''wrapper'') (ident_type
       ''W''), test_field [] (Some ''filling'') (ident_type ''Filling''),
       test_field [] (Some ''unexpected'') (ident_type ''U'')], var_discriminant = None\<rparr>],
     en_attrs = []\<rparr>"

lemma schema_enum_complex_enum_generics_borsh_skip_named_field_snapshot:
  "schema_enum_complex_enum_generics_borsh_skip_named_field =
    Ok \<lparr>sec_where = [PredicateType (ident_type ''U'') ''borsh::BorshSchema'',
       PredicateType (ident_type ''C'') ''borsh::BorshSchema''],
     sec_declaration = (''A'', [ident_type ''U'', ident_type ''C'']),
     sec_variants = [\<lparr>vo_inner_struct = \<lparr>st_ident = ''ABacon'', st_generics = \<lparr>gen_params = [],
       gen_where = None\<rparr>,
           st_fields = FieldsUnit,
           st_attrs = [borsh_attr [Meta ''crate'' (Assigned (LitStr ''borsh''))]]\<rparr>,
        vo_generics = \<lparr>gen_params = [], gen_where = None\<rparr>, vo_discriminant = [TNum 0],
       vo_name = ''Bacon''\<rparr>,
       \<lparr>vo_inner_struct = \<lparr>st_ident = ''AEggs'', st_generics = \<lparr>gen_params = [],
       gen_where = None\<rparr>,
           st_fields = FieldsUnit,
           st_attrs = [borsh_attr [Meta ''crate'' (Assigned (LitStr ''borsh''))]]\<rparr>,
        vo_generics = \<lparr>gen_params = [], gen_where = None\<rparr>, vo_discriminant = [TNum 1],
       vo_name = ''Eggs''\<rparr>,
       \<lparr>vo_inner_struct = \<lparr>st_ident = ''ASalad'',
       st_generics = \<lparr>gen_params = [ParamType ''C'' [] None], gen_where = None\<rparr>,
           st_fields = FieldsUnnamed [test_field [] None (ident_type ''Tomatoes''),
       test_field [] None (ident_type ''C''), test_field [] None (ident_type ''Oil'')],
           st_attrs = [borsh_attr [Meta ''crate'' (Assigned (LitStr ''borsh''))]]\<rparr>,
        vo_generics = \<lparr>gen_params = [ParamType ''C'' [] None], gen_where = None\<rparr>,
       vo_discriminant = [TNum 2], vo_name = ''Salad''\<rparr>,
       \<lparr>vo_inner_struct = \<lparr>st_ident = ''ASausage'',
       st_generics = \<lparr>gen_params = [ParamType ''W'' [] None, ParamType ''U'' [] None],
       gen_where = None\<rparr>,
           st_fields = FieldsNamed [test_field [borsh_attr [Meta ''skip'' NoValue]] (Some ''wrapper'') (ident_type
       ''W''), test_field [] (Some ''filling'') (ident_type ''Filling''),
       test_field [] (Some ''unexpected'') (ident_type ''U'')],
           st_attrs = [borsh_attr [Meta ''crate'' (Assigned (LitStr ''borsh''))]]\<rparr>,
        vo_generics = \<lparr>gen_params = [ParamType ''W'' [] None, ParamType ''U'' [] None],
       gen_where = None\<rparr>, vo_discriminant = [TNum 3], vo_name = ''Sausage''\<rparr>]\<rparr>"
  by (simp add: derive_eval schema_enum_complex_enum_generics_borsh_skip_named_field_def)

definition schema_enum_recursive_enum :: "(derive_error, schema_enum_code) outcome" where
  "schema_enum_recursive_enum = schema_enum_process test_literals ty_tokens ''borsh''
    \<lparr>en_ident = ''A'', en_generics = \<lparr>gen_params =
       [ParamType ''K'' [BoundTrait (Path False [Segment ''Key'' NoArguments])] None, ParamType ''V'' [] None],
       gen_where = Some [PredicateType (ident_type ''V'') ''Value'']\<rparr>,
     en_variants = [\<lparr>var_ident = ''B'',
       var_fields = FieldsNamed [test_field [] (Some ''x'') (applied_type ''HashMap'' [ident_type ''K'',
       ident_type ''V'']), test_field [] (Some ''y'') (ident_type ''String'')], var_discriminant = None\<rparr>,
       \<lparr>var_ident = ''C'', var_fields = FieldsUnnamed [test_field [] None (ident_type ''K''),
       test_field [] None (applied_type ''Vec'' [ident_type ''A''])], var_discriminant = None\<rparr>],
     en_attrs = []\<rparr>"

lemma schema_enum_recursive_enum_snapshot:
  "schema_enum_recursive_enum =
    Ok \<lparr>sec_where = [PredicateType (ident_type ''V'') ''Value'',
       PredicateType (ident_type ''K'') ''borsh::BorshSchema'',
       PredicateType (ident_type ''V'') ''borsh::BorshSchema''],
     sec_declaration = (''A'', [ident_type ''K'', ident_type ''V'']),
     sec_variants = [\<lparr>vo_inner_struct = \<lparr>st_ident = ''AB'',
       st_generics = \<lparr>gen_params = [ParamType ''K'' [BoundTrait (Path False [Segment ''Key'' NoArguments])]
       None, ParamType ''V'' [] None], gen_where = Some [PredicateType (ident_type ''V'') ''Value'']\<rparr>,
           st_fields = FieldsNamed [test_field [] (Some ''x'') (applied_type ''HashMap'' [ident_type ''K'',
       ident_type ''V'']), test_field [] (Some ''y'') (ident_type ''String'')],
           st_attrs = [borsh_attr [Meta ''crate'' (Assigned (LitStr ''borsh''))]]\<rparr>,
        vo_generics = \<lparr>gen_params = [ParamType ''K'' [BoundTrait (Path False [Segment ''Key'' NoArguments])]
       None, ParamType ''V'' [] None], gen_where = Some [PredicateType (ident_type ''V'') ''Value'']\<rparr>,
       vo_discriminant = [TNum 0], vo_name = ''B''\<rparr>,
       \<lparr>vo_inner_struct = \<lparr>st_ident = ''AC'',
       st_generics = \<lparr>gen_params = [ParamType ''K'' [BoundTrait (Path False [Segment ''Key'' NoArguments])]
       None], gen_where = Some []\<rparr>,
           st_fields = FieldsUnnamed [test_field [] None (ident_type ''K''),
       test_field [] None (applied_type ''Vec'' [ident_type ''A''])],
           st_attrs = [borsh_attr [Meta ''crate'' (Assigned (LitStr ''borsh''))]]\<rparr>,
        vo_generics = \<lparr>gen_params = [ParamType ''K'' [BoundTrait (Path False [Segment ''Key'' NoArguments])]
       None], gen_where = Some []\<rparr>, vo_discriminant = [TNum 1], vo_name = ''C''\<rparr>]\<rparr>"
  by (simp add: derive_eval schema_enum_recursive_enum_def)

definition schema_enum_generic_associated_type :: "(derive_error, schema_enum_code) outcome" where
  "schema_enum_generic_associated_type = schema_enum_process test_literals ty_tokens ''borsh''
    \<lparr>en_ident = ''EnumParametrized'', en_generics = \<lparr>gen_params = [ParamType ''T'' [] None,
       ParamType ''K'' [] None, ParamType ''V'' [] None],
       gen_where = Some [PredicateType (ident_type ''K'') ''TraitName'',
       PredicateType (ident_type ''K'') ''core::cmp::Ord'', PredicateType (ident_type ''V'') ''core::cmp::Ord'',
       PredicateType (ident_type ''T'') ''Eq + Hash'']\<rparr>,
     en_variants = [\<lparr>var_ident = ''B'',
       var_fields = FieldsNamed [test_field [] (Some ''x'') (applied_type ''BTreeMap'' [ident_type ''K'',
       ident_type ''V'']), test_field [] (Some ''y'') (ident_type ''String''),
       test_field [] (Some ''z'') (qualified_type [''K'', ''Associated''])], var_discriminant = None\<rparr>,
       \<lparr>var_ident = ''C'', var_fields = FieldsUnnamed [test_field [] None (ident_type ''T''),
       test_field [] None (ident_type ''u16'')], var_discriminant = None\<rparr>],
     en_attrs = []\<rparr>"

lemma schema_enum_generic_associated_type_snapshot:
  "schema_enum_generic_associated_type =
    Ok \<lparr>sec_where = [PredicateType (ident_type ''K'') ''TraitName'',
       PredicateType (ident_type ''K'') ''core::cmp::Ord'', PredicateType (ident_type ''V'') ''core::cmp::Ord'',
       PredicateType (ident_type ''T'') ''Eq + Hash'', PredicateType (ident_type ''T'') ''borsh::BorshSchema'',
       PredicateType (ident_type ''K'') ''borsh::BorshSchema'', PredicateType (qualified_type [''K'',
       ''Associated'']) ''borsh::BorshSchema'', PredicateType (ident_type ''V'') ''borsh::BorshSchema''],
     sec_declaration = (''EnumParametrized'', [ident_type ''T'', ident_type ''K'', qualified_type [''K'',
       ''Associated''], ident_type ''V'']),
     sec_variants = [\<lparr>vo_inner_struct = \<lparr>st_ident = ''EnumParametrizedB'',
       st_generics = \<lparr>gen_params = [ParamType ''K'' [] None, ParamType ''V'' [] None],
       gen_where = Some [PredicateType (ident_type ''K'') ''TraitName'',
       PredicateType (ident_type ''K'') ''core::cmp::Ord'',
       PredicateType (ident_type ''V'') ''core::cmp::Ord'']\<rparr>,
           st_fields = FieldsNamed [test_field [] (Some ''x'') (applied_type ''BTreeMap'' [ident_type ''K'',
       ident_type ''V'']), test_field [] (Some ''y'') (ident_type ''String''),
       test_field [] (Some ''z'') (qualified_type [''K'', ''Associated''])],
           st_attrs = [borsh_attr [Meta ''crate'' (Assigned (LitStr ''borsh''))]]\<rparr>,
        vo_generics = \<lparr>gen_params = [ParamType ''K'' [] None, ParamType ''V'' [] None],
       gen_where = Some [PredicateType (ident_type ''K'') ''TraitName'',
       PredicateType (ident_type ''K'') ''core::cmp::Ord'',
       PredicateType (ident_type ''V'') ''core::cmp::Ord'']\<rparr>, vo_discriminant = [TNum 0],
       vo_name = ''B''\<rparr>,
       \<lparr>vo_inner_struct = \<lparr>st_ident = ''EnumParametrizedC'',
       st_generics = \<lparr>gen_params = [ParamType ''T'' [] None],
       gen_where = Some [PredicateType (ident_type ''T'') ''Eq + Hash'']\<rparr>,
           st_fields = FieldsUnnamed [test_field [] None (ident_type ''T''), test_field [] None (ident_type ''u16'')],
           st_attrs = [borsh_attr [Meta ''crate'' (Assigned (LitStr ''borsh''))]]\<rparr>,
        vo_generics = \<lparr>gen_params = [ParamType ''T'' [] None],
       gen_where = Some [PredicateType (ident_type ''T'') ''Eq + Hash'']\<rparr>, vo_discriminant = [TNum 1],
       vo_name = ''C''\<rparr>]\<rparr>"
  by (simp add: derive_eval schema_enum_generic_associated_type_def)

definition schema_enum_generic_associated_type_param_override :: "(derive_error, schema_enum_code) outcome" where
  "schema_enum_generic_associated_type_param_override = schema_enum_process test_literals ty_tokens ''borsh''
    \<lparr>en_ident = ''EnumParametrized'', en_generics = \<lparr>gen_params = [ParamType ''T'' [] None,
       ParamType ''K'' [] None, ParamType ''V'' [] None],
       gen_where = Some [PredicateType (ident_type ''K'') ''TraitName'',
       PredicateType (ident_type ''K'') ''core::cmp::Ord'', PredicateType (ident_type ''V'') ''core::cmp::Ord'',
       PredicateType (ident_type ''T'') ''Eq + Hash'']\<rparr>,
     en_variants = [\<lparr>var_ident = ''B'',
       var_fields = FieldsNamed [test_field [] (Some ''x'') (applied_type ''BTreeMap'' [ident_type ''K'',
       ident_type ''V'']), test_field [] (Some ''y'') (ident_type ''String''),
       test_field [borsh_attr [Meta ''schema'' (Nested [Meta ''params'' (Assigned (LitStr
       ''K => <K as TraitName>::Associated''))])]] (Some ''z'') (associated_type (ident_type ''K'') [''TraitName'',
       ''Associated''])], var_discriminant = None\<rparr>,
       \<lparr>var_ident = ''C'', var_fields = FieldsUnnamed [test_field [] None (ident_type ''T''),
       test_field [] None (ident_type ''u16'')], var_discriminant = None\<rparr>],
     en_attrs = []\<rparr>"

lemma schema_enum_generic_associated_type_param_override_snapshot:
  "schema_enum_generic_associated_type_param_override =
    Ok \<lparr>sec_where = [PredicateType (ident_type ''K'') ''TraitName'',
       PredicateType (ident_type ''K'') ''core::cmp::Ord'', PredicateType (ident_type ''V'') ''core::cmp::Ord'',
       PredicateType (ident_type ''T'') ''Eq + Hash'', PredicateType (ident_type ''T'') ''borsh::BorshSchema'',
       PredicateType (ident_type ''K'') ''borsh::BorshSchema'',
       PredicateType (associated_type (ident_type ''K'') [''TraitName'', ''Associated'']) ''borsh::BorshSchema'',
       PredicateType (ident_type ''V'') ''borsh::BorshSchema''],
     sec_declaration = (''EnumParametrized'', [ident_type ''T'', ident_type ''K'',
       associated_type (ident_type ''K'') [''TraitName'', ''Associated''], ident_type ''V'']),
     sec_variants = [\<lparr>vo_inner_struct = \<lparr>st_ident = ''EnumParametrizedB'',
       st_generics = \<lparr>gen_params = [ParamType ''K'' [] None, ParamType ''V'' [] None],
       gen_where = Some [PredicateType (ident_type ''K'') ''TraitName'',
       PredicateType (ident_type ''K'') ''core::cmp::Ord'',
       PredicateType (ident_type ''V'') ''core::cmp::Ord'']\<rparr>,
           st_fields = FieldsNamed [test_field [] (Some ''x'') (applied_type ''BTreeMap'' [ident_type ''K'',
       ident_type ''V'']), test_field [] (Some ''y'') (ident_type ''String''),
       test_field [borsh_attr [Meta ''schema'' (Nested [Meta ''params'' (Assigned (LitStr
       ''K => <K as TraitName>::Associated''))])]] (Some ''z'') (associated_type (ident_type ''K'') [''TraitName'',
       ''Associated''])],
           st_attrs = [borsh_attr [Meta ''crate'' (Assigned (LitStr ''borsh''))]]\<rparr>,
        vo_generics = \<lparr>gen_params = [ParamType ''K'' [] None, ParamType ''V'' [] None],
       gen_where = Some [PredicateType (ident_type ''K'') ''TraitName'',
       PredicateType (ident_type ''K'') ''core::cmp::Ord'',
       PredicateType (ident_type ''V'') ''core::cmp::Ord'']\<rparr>, vo_discriminant = [TNum 0],
       vo_name = ''B''\<rparr>,
       \<lparr>vo_inner_struct = \<lparr>st_ident = ''EnumParametrizedC'',
       st_generics = \<lparr>gen_params = [ParamType ''T'' [] None],
       gen_where = Some [PredicateType (ident_type ''T'') ''Eq + Hash'']\<rparr>,
           st_fields = FieldsUnnamed [test_field [] None (ident_type ''T''), test_field [] None (ident_type ''u16'')],
           st_attrs = [borsh_attr [Meta ''crate'' (Assigned (LitStr ''borsh''))]]\<rparr>,
        vo_generics = \<lparr>gen_params = [ParamType ''T'' [] None],
       gen_where = Some [PredicateType (ident_type ''T'') ''Eq + Hash'']\<rparr>, vo_discriminant = [TNum 1],
       vo_name = ''C''\<rparr>]\<rparr>"
  by (simp add: derive_eval schema_enum_generic_associated_type_param_override_def del: late_eval) (simp add:
       derive_eval)

definition schema_enum_generic_associated_type_param_override_conflict :: "(derive_error,
       schema_enum_code) outcome" where
  "schema_enum_generic_associated_type_param_override_conflict = schema_enum_process test_literals ty_tokens ''borsh''
    \<lparr>en_ident = ''EnumParametrized'', en_generics = \<lparr>gen_params = [ParamType ''T'' [] None,
       ParamType ''K'' [] None, ParamType ''V'' [] None],
       gen_where = Some [PredicateType (ident_type ''K'') ''TraitName'']\<rparr>,
     en_variants = [\<lparr>var_ident = ''B'',
       var_fields = FieldsNamed [test_field [] (Some ''x'') (applied_type ''Vec'' [ident_type ''V'']),
       test_field [borsh_attr [Meta ''skip'' NoValue,
       Meta ''schema'' (Nested [Meta ''params'' (Assigned (LitStr ''K => <K as TraitName>::Associated''))])]] (Some
       ''z'') (associated_type (ident_type ''K'') [''TraitName'', ''Associated''])], var_discriminant = None\<rparr>,
       \<lparr>var_ident = ''C'', var_fields = FieldsUnnamed [test_field [] None (ident_type ''T''),
       test_field [] None (ident_type ''u16'')], var_discriminant = None\<rparr>],
     en_attrs = []\<rparr>"

lemma schema_enum_generic_associated_type_param_override_conflict_snapshot:
  "schema_enum_generic_associated_type_param_override_conflict =
    Err ''`skip` cannot be used at the same time as `schema(params = ...)`''"
  by (simp add: derive_eval schema_enum_generic_associated_type_param_override_conflict_def)

definition schema_enum_check_with_funcs_skip_conflict :: "(derive_error, schema_enum_code) outcome" where
  "schema_enum_check_with_funcs_skip_conflict = schema_enum_process test_literals ty_tokens ''borsh''
    \<lparr>en_ident = ''C'', en_generics = \<lparr>gen_params = [ParamType ''K'' [] None, ParamType ''V'' [] None],
       gen_where = None\<rparr>,
     en_variants = [\<lparr>var_ident = ''C3'', var_fields = FieldsUnnamed [test_field [] None (ident_type ''u64''),
       test_field [] None (ident_type ''u64'')], var_discriminant = None\<rparr>,
       \<lparr>var_ident = ''C4'', var_fields = FieldsUnnamed [test_field [] None (ident_type ''u64''),
       test_field [borsh_attr [Meta ''skip'' NoValue,
       Meta ''schema'' (Nested [Meta ''with_funcs'' (Nested [Meta ''declaration'' (Assigned (LitStr
       ''third_party_impl::declaration::<K, V>'')),
       Meta ''definitions'' (Assigned (LitStr ''third_party_impl::add_definitions_recursively::<K, V>''))])])]] None
       (applied_type ''ThirdParty'' [ident_type ''K'', ident_type ''V''])], var_discriminant = None\<rparr>],
     en_attrs = []\<rparr>"

lemma schema_enum_check_with_funcs_skip_conflict_snapshot:
  "schema_enum_check_with_funcs_skip_conflict =
    Err ''`skip` cannot be used at the same time as `schema(with_funcs(...))`''"
  by (simp add: derive_eval schema_enum_check_with_funcs_skip_conflict_def)

definition schema_enum_with_funcs_attr :: "(derive_error, schema_enum_code) outcome" where
  "schema_enum_with_funcs_attr = schema_enum_process test_literals ty_tokens ''borsh''
    \<lparr>en_ident = ''C'', en_generics = \<lparr>gen_params = [ParamType ''K'' [] None, ParamType ''V'' [] None],
       gen_where = None\<rparr>,
     en_variants = [\<lparr>var_ident = ''C3'', var_fields = FieldsUnnamed [test_field [] None (ident_type ''u64''),
       test_field [] None (ident_type ''u64'')], var_discriminant = None\<rparr>,
       \<lparr>var_ident = ''C4'', var_fields = FieldsUnnamed [test_field [] None (ident_type ''u64''),
       test_field [borsh_attr [Meta ''schema'' (Nested [Meta ''with_funcs'' (Nested [Meta ''declaration'' (Assigned
       (LitStr ''third_party_impl::declaration::<K, V>'')),
       Meta ''definitions'' (Assigned (LitStr ''third_party_impl::add_definitions_recursively::<K, V>''))])])]] None
       (applied_type ''ThirdParty'' [ident_type ''K'', ident_type ''V''])], var_discriminant = None\<rparr>],
     en_attrs = []\<rparr>"

lemma schema_enum_with_funcs_attr_snapshot:
  "schema_enum_with_funcs_attr =
    Ok \<lparr>sec_where = [PredicateType (ident_type ''K'') ''borsh::BorshSchema'',
       PredicateType (ident_type ''V'') ''borsh::BorshSchema''],
     sec_declaration = (''C'', [ident_type ''K'', ident_type ''V'']),
     sec_variants = [\<lparr>vo_inner_struct = \<lparr>st_ident = ''CC3'', st_generics = \<lparr>gen_params = [],
       gen_where = None\<rparr>,
           st_fields = FieldsUnnamed [test_field [] None (ident_type ''u64''),
       test_field [] None (ident_type ''u64'')],
           st_attrs = [borsh_attr [Meta ''crate'' (Assigned (LitStr ''borsh''))]]\<rparr>,
        vo_generics = \<lparr>gen_params = [], gen_where = None\<rparr>, vo_discriminant = [TNum 0],
       vo_name = ''C3''\<rparr>,
       \<lparr>vo_inner_struct = \<lparr>st_ident = ''CC4'',
       st_generics = \<lparr>gen_params = [ParamType ''K'' [] None, ParamType ''V'' [] None],
       gen_where = None\<rparr>,
           st_fields = FieldsUnnamed [test_field [] None (ident_type ''u64''),
       test_field [borsh_attr [Meta ''schema'' (Nested [Meta ''with_funcs'' (Nested [Meta ''declaration'' (Assigned
       (LitStr ''third_party_impl::declaration::<K, V>'')),
       Meta ''definitions'' (Assigned (LitStr ''third_party_impl::add_definitions_recursively::<K, V>''))])])]] None
       (applied_type ''ThirdParty'' [ident_type ''K'', ident_type ''V''])],
           st_attrs = [borsh_attr [Meta ''crate'' (Assigned (LitStr ''borsh''))]]\<rparr>,
        vo_generics = \<lparr>gen_params = [ParamType ''K'' [] None, ParamType ''V'' [] None],
       gen_where = None\<rparr>, vo_discriminant = [TNum 1], vo_name = ''C4''\<rparr>]\<rparr>"
  by (simp add: derive_eval schema_enum_with_funcs_attr_def)

end
