(* ===== verification/Attribute_Tests.thy ===== *)
theory Attribute_Tests
  imports Derive_Test_Syntax
begin

section \<open>The tests of the attributes\<close>

text \<open>
  The tests of \<open>borsh-derive/src/internals/attributes\<close>. A definition is what a test parses, and
  the lemma after it has what the test asserts or what its snapshot records. Where a test looks
  at a part of the attributes, the lemma has all of them.
\<close>

subsection \<open>Helpers of the tests\<close>

definition first_attrs :: "item_struct \<Rightarrow> attribute list" where
  "first_attrs item = fld_attrs (hd (fields_list (st_fields item)))"

definition parse_bounds :: "literal_parsers \<Rightarrow> attribute list \<Rightarrow> (derive_error, bounds option) outcome" where
  "parse_bounds P attrs = and_ok (parse_attributes P attrs) (\<lambda>borsh_attrs. Ok (at_bounds borsh_attrs))"

definition parse_schema_attrs :: "literal_parsers \<Rightarrow> attribute list \<Rightarrow> (derive_error, schema_attributes option) outcome" where
  "parse_schema_attrs P attrs = and_ok (parse_attributes P attrs) (\<lambda>borsh_attrs. Ok (at_schema borsh_attrs))"

lemmas test_helpers [simp] = first_attrs_def parse_bounds_def parse_schema_attrs_def

subsection \<open>Tests of \<open>attributes/field\<close>\<close>

definition field_reject_multiple_borsh_attrs :: "(derive_error, attributes) outcome" where
  "field_reject_multiple_borsh_attrs = parse_attributes test_literals (first_attrs
    \<lparr>st_ident = ''A'', st_generics = \<lparr>gen_params = [], gen_where = None\<rparr>,
     st_fields = FieldsNamed [test_field [borsh_attr [Meta ''skip'' NoValue],
       borsh_attr [Meta ''bound'' (Nested [Meta ''deserialize'' (Assigned (LitStr ''K: Hash + Ord, V: Eq + Ord'')),
       Meta ''serialize'' (Assigned (LitStr ''K: Hash + Eq + Ord, V: Ord''))])]] (Some ''x'') (ident_type ''u64''),
       test_field [] (Some ''y'') (ident_type ''String'')],
     st_attrs = []\<rparr>)"

lemma field_reject_multiple_borsh_attrs_snapshot:
  "field_reject_multiple_borsh_attrs =
    Err ''multiple `borsh` attributes not allowed''"
  by (simp add: derive_eval field_reject_multiple_borsh_attrs_def)

definition field_bounds_parsing1 :: "(derive_error, bounds option) outcome" where
  "field_bounds_parsing1 = parse_bounds test_literals (first_attrs
    \<lparr>st_ident = ''A'', st_generics = \<lparr>gen_params = [], gen_where = None\<rparr>,
     st_fields = FieldsNamed [test_field [borsh_attr [Meta ''bound'' (Nested [Meta ''deserialize'' (Assigned (LitStr
       ''K: Hash + Ord, V: Eq + Ord'')),
       Meta ''serialize'' (Assigned (LitStr ''K: Hash + Eq + Ord, V: Ord''))])]] (Some ''x'') (ident_type ''u64''),
       test_field [] (Some ''y'') (ident_type ''String'')],
     st_attrs = []\<rparr>)"

lemma field_bounds_parsing1_snapshot:
  "field_bounds_parsing1 =
    Ok (Some \<lparr>bounds_serialize = Some [PredicateType (ident_type ''K'') ''Hash + Eq + Ord'',
       PredicateType (ident_type ''V'') ''Ord''],
       bounds_deserialize = Some [PredicateType (ident_type ''K'') ''Hash + Ord'',
       PredicateType (ident_type ''V'') ''Eq + Ord'']\<rparr>)"
  by (simp add: derive_eval field_bounds_parsing1_def)

definition field_bounds_parsing2 :: "(derive_error, bounds option) outcome" where
  "field_bounds_parsing2 = parse_bounds test_literals (first_attrs
    \<lparr>st_ident = ''A'', st_generics = \<lparr>gen_params = [], gen_where = None\<rparr>,
     st_fields = FieldsNamed [test_field [borsh_attr [Meta ''bound'' (Nested [Meta ''deserialize'' (Assigned (LitStr
       ''K: Hash + Eq + borsh::de::BorshDeserialize, V: borsh::de::BorshDeserialize'')),
       Meta ''serialize'' (Assigned (LitStr
       ''K: Hash + Eq + borsh::ser::BorshSerialize, V: borsh::ser::BorshSerialize''))])]] (Some ''x'') (ident_type
       ''u64''), test_field [] (Some ''y'') (ident_type ''String'')],
     st_attrs = []\<rparr>)"

lemma field_bounds_parsing2_snapshot:
  "field_bounds_parsing2 =
    Ok (Some \<lparr>bounds_serialize = Some [PredicateType (ident_type ''K'')
       ''Hash + Eq + borsh::ser::BorshSerialize'', PredicateType (ident_type ''V'') ''borsh::ser::BorshSerialize''],
       bounds_deserialize = Some [PredicateType (ident_type ''K'') ''Hash + Eq + borsh::de::BorshDeserialize'',
       PredicateType (ident_type ''V'') ''borsh::de::BorshDeserialize'']\<rparr>)"
  by (simp add: derive_eval field_bounds_parsing2_def)

definition field_bounds_parsing3 :: "(derive_error, bounds option) outcome" where
  "field_bounds_parsing3 = parse_bounds test_literals (first_attrs
    \<lparr>st_ident = ''A'', st_generics = \<lparr>gen_params = [], gen_where = None\<rparr>,
     st_fields = FieldsNamed [test_field [borsh_attr [Meta ''bound'' (Nested [Meta ''deserialize'' (Assigned (LitStr
       ''K: Hash + Eq + borsh::de::BorshDeserialize, V: borsh::de::BorshDeserialize'')),
       Meta ''serialize'' (Assigned (LitStr ''''))])]] (Some ''x'') (ident_type ''u64''),
       test_field [] (Some ''y'') (ident_type ''String'')],
     st_attrs = []\<rparr>)"

lemma field_bounds_parsing3_snapshot:
  "field_bounds_parsing3 =
    Ok (Some \<lparr>bounds_serialize = Some [],
       bounds_deserialize = Some [PredicateType (ident_type ''K'') ''Hash + Eq + borsh::de::BorshDeserialize'',
       PredicateType (ident_type ''V'') ''borsh::de::BorshDeserialize'']\<rparr>)"
  by (simp add: derive_eval field_bounds_parsing3_def)

definition field_bounds_parsing4 :: "(derive_error, bounds option) outcome" where
  "field_bounds_parsing4 = parse_bounds test_literals (first_attrs
    \<lparr>st_ident = ''A'', st_generics = \<lparr>gen_params = [], gen_where = None\<rparr>,
     st_fields = FieldsNamed [test_field [borsh_attr [Meta ''bound'' (Nested [Meta ''deserialize'' (Assigned (LitStr
       ''K: Hash''))])]] (Some ''x'') (ident_type ''u64''), test_field [] (Some ''y'') (ident_type ''String'')],
     st_attrs = []\<rparr>)"

lemma field_bounds_parsing4_snapshot:
  "field_bounds_parsing4 =
    Ok (Some \<lparr>bounds_serialize = None,
       bounds_deserialize = Some [PredicateType (ident_type ''K'') ''Hash'']\<rparr>)"
  by (simp add: derive_eval field_bounds_parsing4_def)

definition field_bounds_parsing_error :: "(derive_error, bounds option) outcome" where
  "field_bounds_parsing_error = parse_bounds test_literals (first_attrs
    \<lparr>st_ident = ''A'', st_generics = \<lparr>gen_params = [], gen_where = None\<rparr>,
     st_fields = FieldsNamed [test_field [borsh_attr [Meta ''bound'' (Nested [Meta ''deser'' (Assigned (LitStr
       ''K: Hash''))])]] (Some ''x'') (ident_type ''u64''), test_field [] (Some ''y'') (ident_type ''String'')],
     st_attrs = []\<rparr>)"

lemma field_bounds_parsing_error_snapshot:
  "field_bounds_parsing_error =
    Err ''malformed bound attribute, expected `bound(deserialize = ..., serialize = ...)`''"
  by (simp add: derive_eval field_bounds_parsing_error_def)

definition field_bounds_parsing_error2 :: "(derive_error, bounds option) outcome" where
  "field_bounds_parsing_error2 = parse_bounds test_literals (first_attrs
    \<lparr>st_ident = ''A'', st_generics = \<lparr>gen_params = [], gen_where = None\<rparr>,
     st_fields = FieldsNamed [test_field [borsh_attr [Meta ''bound'' (Nested [Meta ''deserialize'' (Assigned (LitStr
       ''K Hash''))])]] (Some ''x'') (ident_type ''u64''), test_field [] (Some ''y'') (ident_type ''String'')],
     st_attrs = []\<rparr>)"

lemma field_bounds_parsing_error2_snapshot:
  "field_bounds_parsing_error2 =
    Err ''expected `:`''"
  by (simp add: derive_eval field_bounds_parsing_error2_def)

definition field_bounds_parsing_error3 :: "(derive_error, bounds option) outcome" where
  "field_bounds_parsing_error3 = parse_bounds test_literals (first_attrs
    \<lparr>st_ident = ''A'', st_generics = \<lparr>gen_params = [], gen_where = None\<rparr>,
     st_fields = FieldsNamed [test_field [borsh_attr [Meta ''bound'' (Nested [Meta ''deserialize'' (Assigned
       (ExprTokens ''42''))])]] (Some ''x'') (ident_type ''u64''),
       test_field [] (Some ''y'') (ident_type ''String'')],
     st_attrs = []\<rparr>)"

lemma field_bounds_parsing_error3_snapshot:
  "field_bounds_parsing_error3 =
    Err ''expected borsh bound attribute to be a string: `deserialize = \"...\"`''"
  by (simp add: derive_eval field_bounds_parsing_error3_def)

definition field_ser_de_with_parsing1 :: "(derive_error, attributes) outcome" where
  "field_ser_de_with_parsing1 = parse_attributes test_literals (first_attrs
    \<lparr>st_ident = ''A'', st_generics = \<lparr>gen_params = [], gen_where = None\<rparr>,
     st_fields = FieldsNamed [test_field [borsh_attr [Meta ''serialize_with'' (Assigned (LitStr
       ''third_party_impl::serialize_third_party'')),
       Meta ''deserialize_with'' (Assigned (LitStr ''third_party_impl::deserialize_third_party''))]] (Some ''x'')
       (ident_type ''u64''), test_field [] (Some ''y'') (ident_type ''String'')],
     st_attrs = []\<rparr>)"

lemma field_ser_de_with_parsing1_snapshot:
  "field_ser_de_with_parsing1 =
    Ok \<lparr>at_bounds = None, at_serialize_with = Some ''third_party_impl::serialize_third_party'',
       at_deserialize_with = Some ''third_party_impl::deserialize_third_party'',
       at_skip = False, at_schema = None\<rparr>"
  by (simp add: derive_eval field_ser_de_with_parsing1_def)

definition field_borsh_skip :: "(derive_error, attributes) outcome" where
  "field_borsh_skip = parse_attributes test_literals (first_attrs
    \<lparr>st_ident = ''A'', st_generics = \<lparr>gen_params = [], gen_where = None\<rparr>,
     st_fields = FieldsNamed [test_field [borsh_attr [Meta ''skip'' NoValue]] (Some ''x'') (ident_type ''u64''),
       test_field [] (Some ''y'') (ident_type ''String'')],
     st_attrs = []\<rparr>)"

lemma field_borsh_skip_snapshot:
  "field_borsh_skip =
    Ok \<lparr>at_bounds = None, at_serialize_with = None, at_deserialize_with = None,
       at_skip = True, at_schema = None\<rparr>"
  by (simp add: derive_eval field_borsh_skip_def)

definition field_borsh_no_skip :: "(derive_error, attributes) outcome" where
  "field_borsh_no_skip = parse_attributes test_literals (first_attrs
    \<lparr>st_ident = ''A'', st_generics = \<lparr>gen_params = [], gen_where = None\<rparr>,
     st_fields = FieldsNamed [test_field [] (Some ''x'') (ident_type ''u64''),
       test_field [] (Some ''y'') (ident_type ''String'')],
     st_attrs = []\<rparr>)"

lemma field_borsh_no_skip_snapshot:
  "field_borsh_no_skip =
    Ok \<lparr>at_bounds = None, at_serialize_with = None, at_deserialize_with = None,
       at_skip = False, at_schema = None\<rparr>"
  by (simp add: derive_eval field_borsh_no_skip_def)

definition field_root_bounds_and_params_combined :: "(derive_error, attributes) outcome" where
  "field_root_bounds_and_params_combined = parse_attributes test_literals (first_attrs
    \<lparr>st_ident = ''A'', st_generics = \<lparr>gen_params = [], gen_where = None\<rparr>,
     st_fields = FieldsNamed [test_field [borsh_attr [Meta ''serialize_with'' (Assigned (LitStr
       ''third_party_impl::serialize_third_party'')),
       Meta ''bound'' (Nested [Meta ''deserialize'' (Assigned (LitStr ''K: Hash''))]),
       Meta ''schema'' (Nested [Meta ''params'' (Assigned (LitStr
       ''T => <T as TraitName>::Associated, V => Vec<V>''))])]] (Some ''x'') (ident_type ''u64''),
       test_field [] (Some ''y'') (ident_type ''String'')],
     st_attrs = []\<rparr>)"

lemma field_root_bounds_and_params_combined_snapshot:
  "field_root_bounds_and_params_combined =
    Ok \<lparr>at_bounds = Some \<lparr>bounds_serialize = None,
       bounds_deserialize = Some [PredicateType (ident_type ''K'') ''Hash'']\<rparr>,
       at_serialize_with = Some ''third_party_impl::serialize_third_party'', at_deserialize_with = None,
       at_skip = False, at_schema = Some \<lparr>sa_params = Some [\<lparr>order_param = ''T'',
       override_type = associated_type (ident_type ''T'') [''TraitName'', ''Associated'']\<rparr>,
       \<lparr>order_param = ''V'', override_type = applied_type ''Vec'' [ident_type ''V'']\<rparr>],
       sa_with_funcs = None\<rparr>\<rparr>"
  by (simp add: derive_eval field_root_bounds_and_params_combined_def)

definition field_schema_params_parsing1 :: "(derive_error, schema_attributes option) outcome" where
  "field_schema_params_parsing1 = parse_schema_attrs test_literals (first_attrs
    \<lparr>st_ident = ''Parametrized'', st_generics = \<lparr>gen_params = [ParamType ''V'' [] None,
       ParamType ''T'' [] None], gen_where = Some [PredicateType (ident_type ''T'') ''TraitName'']\<rparr>,
     st_fields = FieldsNamed [test_field [borsh_attr [Meta ''schema'' (Nested [Meta ''params'' (Assigned (LitStr
       ''T => <T as TraitName>::Associated''))])]] (Some ''field'') (associated_type (ident_type ''T'')
       [''TraitName'', ''Associated'']), test_field [] (Some ''another'') (ident_type ''V'')],
     st_attrs = []\<rparr>)"

lemma field_schema_params_parsing1_snapshot:
  "field_schema_params_parsing1 =
    Ok (Some \<lparr>sa_params = Some [\<lparr>order_param = ''T'',
       override_type = associated_type (ident_type ''T'') [''TraitName'', ''Associated'']\<rparr>],
       sa_with_funcs = None\<rparr>)"
  by (simp add: derive_eval field_schema_params_parsing1_def)

definition field_schema_params_parsing_error :: "(derive_error, schema_attributes option) outcome" where
  "field_schema_params_parsing_error = parse_schema_attrs test_literals (first_attrs
    \<lparr>st_ident = ''Parametrized'', st_generics = \<lparr>gen_params = [ParamType ''V'' [] None,
       ParamType ''T'' [] None], gen_where = Some [PredicateType (ident_type ''T'') ''TraitName'']\<rparr>,
     st_fields = FieldsNamed [test_field [borsh_attr [Meta ''schema'' (Nested [Meta ''params'' (Assigned (LitStr
       ''T => <T as TraitName, W>::Associated''))])]] (Some ''field'') (associated_type (ident_type ''T'')
       [''TraitName'', ''Associated'']), test_field [] (Some ''another'') (ident_type ''V'')],
     st_attrs = []\<rparr>)"

lemma field_schema_params_parsing_error_snapshot:
  "field_schema_params_parsing_error =
    Err ''expected `>`''"
  by (simp add: derive_eval field_schema_params_parsing_error_def)

definition field_schema_params_parsing_error2 :: "(derive_error, schema_attributes option) outcome" where
  "field_schema_params_parsing_error2 = parse_schema_attrs test_literals (first_attrs
    \<lparr>st_ident = ''Parametrized'', st_generics = \<lparr>gen_params = [ParamType ''V'' [] None,
       ParamType ''T'' [] None], gen_where = Some [PredicateType (ident_type ''T'') ''TraitName'']\<rparr>,
     st_fields = FieldsNamed [test_field [borsh_attr [Meta ''schema'' (Nested [Meta ''paramsbum'' (Assigned (LitStr
       ''T => <T as TraitName>::Associated''))])]] (Some ''field'') (associated_type (ident_type ''T'')
       [''TraitName'', ''Associated'']), test_field [] (Some ''another'') (ident_type ''V'')],
     st_attrs = []\<rparr>)"

lemma field_schema_params_parsing_error2_snapshot:
  "field_schema_params_parsing_error2 =
    Err ''malformed schema attribute, expected `schema(params = ..., with_funcs(...))`''"
  by (simp add: derive_eval field_schema_params_parsing_error2_def)

definition field_schema_params_parsing2 :: "(derive_error, schema_attributes option) outcome" where
  "field_schema_params_parsing2 = parse_schema_attrs test_literals (first_attrs
    \<lparr>st_ident = ''Parametrized'', st_generics = \<lparr>gen_params = [ParamType ''V'' [] None,
       ParamType ''T'' [] None], gen_where = Some [PredicateType (ident_type ''T'') ''TraitName'']\<rparr>,
     st_fields = FieldsNamed [test_field [borsh_attr [Meta ''schema'' (Nested [Meta ''params'' (Assigned (LitStr
       ''T => <T as TraitName>::Associated, V => Vec<V>''))])]] (Some ''field'') (associated_type (ident_type ''T'')
       [''TraitName'', ''Associated'']), test_field [] (Some ''another'') (ident_type ''V'')],
     st_attrs = []\<rparr>)"

lemma field_schema_params_parsing2_snapshot:
  "field_schema_params_parsing2 =
    Ok (Some \<lparr>sa_params = Some [\<lparr>order_param = ''T'',
       override_type = associated_type (ident_type ''T'') [''TraitName'', ''Associated'']\<rparr>,
       \<lparr>order_param = ''V'', override_type = applied_type ''Vec'' [ident_type ''V'']\<rparr>],
       sa_with_funcs = None\<rparr>)"
  by (simp add: derive_eval field_schema_params_parsing2_def)

definition field_schema_params_parsing3 :: "(derive_error, schema_attributes option) outcome" where
  "field_schema_params_parsing3 = parse_schema_attrs test_literals (first_attrs
    \<lparr>st_ident = ''Parametrized'', st_generics = \<lparr>gen_params = [ParamType ''V'' [] None,
       ParamType ''T'' [] None], gen_where = Some [PredicateType (ident_type ''T'') ''TraitName'']\<rparr>,
     st_fields = FieldsNamed [test_field [borsh_attr [Meta ''schema'' (Nested [Meta ''params'' (Assigned (LitStr
       ''''))])]] (Some ''field'') (associated_type (ident_type ''T'') [''TraitName'', ''Associated'']),
       test_field [] (Some ''another'') (ident_type ''V'')],
     st_attrs = []\<rparr>)"

lemma field_schema_params_parsing3_snapshot:
  "field_schema_params_parsing3 =
    Ok (Some \<lparr>sa_params = Some [], sa_with_funcs = None\<rparr>)"
  by (simp add: derive_eval field_schema_params_parsing3_def)

definition field_schema_params_parsing4 :: "(derive_error, schema_attributes option) outcome" where
  "field_schema_params_parsing4 = parse_schema_attrs test_literals (first_attrs
    \<lparr>st_ident = ''Parametrized'', st_generics = \<lparr>gen_params = [ParamType ''V'' [] None,
       ParamType ''T'' [] None], gen_where = Some [PredicateType (ident_type ''T'') ''TraitName'']\<rparr>,
     st_fields = FieldsNamed [test_field [] (Some ''field'') (associated_type (ident_type ''T'') [''TraitName'',
       ''Associated'']), test_field [] (Some ''another'') (ident_type ''V'')],
     st_attrs = []\<rparr>)"

lemma field_schema_params_parsing4_snapshot:
  "field_schema_params_parsing4 =
    Ok None"
  by (simp add: derive_eval field_schema_params_parsing4_def)

definition field_schema_with_funcs_parsing :: "(derive_error, attributes) outcome" where
  "field_schema_with_funcs_parsing = parse_attributes test_literals (first_attrs
    \<lparr>st_ident = ''A'', st_generics = \<lparr>gen_params = [], gen_where = None\<rparr>,
     st_fields = FieldsNamed [test_field [borsh_attr [Meta ''schema'' (Nested [Meta ''with_funcs'' (Nested [Meta
       ''declaration'' (Assigned (LitStr ''third_party_impl::declaration::<K, V>'')),
       Meta ''definitions'' (Assigned (LitStr ''third_party_impl::add_definitions_recursively::<K, V>''))])])]] (Some
       ''x'') (ident_type ''u64''), test_field [] (Some ''y'') (ident_type ''String'')],
     st_attrs = []\<rparr>)"

lemma field_schema_with_funcs_parsing_snapshot:
  "field_schema_with_funcs_parsing =
    Ok \<lparr>at_bounds = None, at_serialize_with = None, at_deserialize_with = None,
       at_skip = False, at_schema = Some \<lparr>sa_params = None,
       sa_with_funcs = Some \<lparr>wf_declaration = Some ''third_party_impl::declaration::<K, V>'',
       wf_definitions = Some ''third_party_impl::add_definitions_recursively::<K, V>''\<rparr>\<rparr>\<rparr>"
  by (simp add: derive_eval field_schema_with_funcs_parsing_def)

definition field_schema_with_funcs_parsing_error :: "(derive_error, attributes) outcome" where
  "field_schema_with_funcs_parsing_error = parse_attributes test_literals (first_attrs
    \<lparr>st_ident = ''A'', st_generics = \<lparr>gen_params = [], gen_where = None\<rparr>,
     st_fields = FieldsNamed [test_field [borsh_attr [Meta ''schema'' (Nested [Meta ''with_funcs'' (Nested [Meta
       ''declaration'' (Assigned (LitStr ''third_party_impl::declaration::<K, V>''))])])]] (Some ''x'') (ident_type
       ''u64''), test_field [] (Some ''y'') (ident_type ''String'')],
     st_attrs = []\<rparr>)"

lemma field_schema_with_funcs_parsing_error_snapshot:
  "field_schema_with_funcs_parsing_error =
    Err ''both `declaration = ...` and `definitions = ...` have to be specified at the same time''"
  by (simp add: derive_eval field_schema_with_funcs_parsing_error_def)

definition field_root_error :: "(derive_error, attributes) outcome" where
  "field_root_error = parse_attributes test_literals (first_attrs
    \<lparr>st_ident = ''A'', st_generics = \<lparr>gen_params = [], gen_where = None\<rparr>,
     st_fields = FieldsNamed [test_field [borsh_attr [Meta ''boons'' NoValue]] (Some ''x'') (ident_type ''u64''),
       test_field [] (Some ''y'') (ident_type ''String'')],
     st_attrs = []\<rparr>)"

lemma field_root_error_snapshot:
  "field_root_error =
    Err ''malformed borsh attribute, expected `borsh(bound(...), deserialize_with = ..., schema(...), serialize_with = ..., skip)`''"
  by (simp add: derive_eval field_root_error_def)

definition field_root_bounds_and_wrong_key_combined :: "(derive_error, attributes) outcome" where
  "field_root_bounds_and_wrong_key_combined = parse_attributes test_literals (first_attrs
    \<lparr>st_ident = ''A'', st_generics = \<lparr>gen_params = [], gen_where = None\<rparr>,
     st_fields = FieldsNamed [test_field [borsh_attr [Meta ''bound'' (Nested [Meta ''deserialize'' (Assigned (LitStr
       ''K: Hash''))]),
       Meta ''schhema'' (Nested [Meta ''params'' (Assigned (LitStr
       ''T => <T as TraitName>::Associated, V => Vec<V>''))])]] (Some ''x'') (ident_type ''u64''),
       test_field [] (Some ''y'') (ident_type ''String'')],
     st_attrs = []\<rparr>)"

lemma field_root_bounds_and_wrong_key_combined_snapshot:
  "field_root_bounds_and_wrong_key_combined =
    Err ''malformed borsh attribute, expected `borsh(bound(...), deserialize_with = ..., schema(...), serialize_with = ..., skip)`''"
  by (simp add: derive_eval field_root_bounds_and_wrong_key_combined_def)

subsection \<open>Tests of \<open>attributes/item\<close>\<close>

definition item_use_discriminant :: item_enum where
  "item_use_discriminant =
    \<lparr>en_ident = ''AWithUseDiscriminantFalse'', en_generics = \<lparr>gen_params = [], gen_where = None\<rparr>,
     en_variants = [\<lparr>var_ident = ''X'', var_fields = FieldsUnit, var_discriminant = None\<rparr>,
       \<lparr>var_ident = ''Y'', var_fields = FieldsUnit, var_discriminant = None\<rparr>],
     en_attrs = [\<lparr>attr_path = ''derive'', attr_args = Some [Meta ''BorshDeserialize'' NoValue,
       Meta ''Debug'' NoValue]\<rparr>,
       borsh_attr [Meta ''use_discriminant'' (Assigned (ExprTokens ''false''))]]\<rparr>"

lemma item_use_discriminant_result:
  "contains_use_discriminant item_use_discriminant = Ok False"
  by (simp add: derive_eval item_use_discriminant_def)

definition item_use_discriminant_true :: item_enum where
  "item_use_discriminant_true =
    \<lparr>en_ident = ''AWithUseDiscriminantTrue'', en_generics = \<lparr>gen_params = [], gen_where = None\<rparr>,
     en_variants = [\<lparr>var_ident = ''X'', var_fields = FieldsUnit, var_discriminant = None\<rparr>,
       \<lparr>var_ident = ''Y'', var_fields = FieldsUnit, var_discriminant = None\<rparr>],
     en_attrs = [\<lparr>attr_path = ''derive'', attr_args = Some [Meta ''BorshDeserialize'' NoValue,
       Meta ''Debug'' NoValue]\<rparr>,
       borsh_attr [Meta ''use_discriminant'' (Assigned (ExprTokens ''true''))]]\<rparr>"

lemma item_use_discriminant_true_result:
  "contains_use_discriminant item_use_discriminant_true = Ok True"
  by (simp add: derive_eval item_use_discriminant_true_def)

definition item_use_discriminant_wrong_value :: item_enum where
  "item_use_discriminant_wrong_value =
    \<lparr>en_ident = ''AWithUseDiscriminantFalse'', en_generics = \<lparr>gen_params = [], gen_where = None\<rparr>,
     en_variants = [\<lparr>var_ident = ''X'', var_fields = FieldsUnit, var_discriminant = None\<rparr>,
       \<lparr>var_ident = ''Y'', var_fields = FieldsUnit, var_discriminant = None\<rparr>],
     en_attrs = [\<lparr>attr_path = ''derive'', attr_args = Some [Meta ''BorshDeserialize'' NoValue,
       Meta ''Debug'' NoValue]\<rparr>,
       borsh_attr [Meta ''use_discriminant'' (Assigned (ExprTokens ''111''))]]\<rparr>"

lemma item_use_discriminant_wrong_value_result:
  "contains_use_discriminant item_use_discriminant_wrong_value =
       Err ''`use_discriminant` accepts only `true` or `false`''"
  by (simp add: derive_eval item_use_discriminant_wrong_value_def)

definition item_check_attrs_use_discriminant_on_struct :: item_struct where
  "item_check_attrs_use_discriminant_on_struct =
    \<lparr>st_ident = ''AWithUseDiscriminantFalse'', st_generics = \<lparr>gen_params = [], gen_where = None\<rparr>,
     st_fields = FieldsNamed [test_field [] (Some ''x'') (ident_type ''X''),
       test_field [] (Some ''y'') (ident_type ''Y'')],
     st_attrs = [\<lparr>attr_path = ''derive'', attr_args = Some [Meta ''BorshDeserialize'' NoValue,
       Meta ''Debug'' NoValue]\<rparr>,
       borsh_attr [Meta ''use_discriminant'' (Assigned (ExprTokens ''false''))]]\<rparr>"

lemma item_check_attrs_use_discriminant_on_struct_result:
  "check_attributes (derive_input_of (StructItem item_check_attrs_use_discriminant_on_struct)) =
       Err ''borsh(use_discriminant=<bool>) does not support structs''"
  by (simp add: derive_eval item_check_attrs_use_discriminant_on_struct_def)

definition item_check_attrs_borsh_skip_on_whole_item :: item_struct where
  "item_check_attrs_borsh_skip_on_whole_item =
    \<lparr>st_ident = ''AWithUseDiscriminantFalse'', st_generics = \<lparr>gen_params = [], gen_where = None\<rparr>,
     st_fields = FieldsNamed [test_field [] (Some ''x'') (ident_type ''X''),
       test_field [] (Some ''y'') (ident_type ''Y'')],
     st_attrs = [\<lparr>attr_path = ''derive'', attr_args = Some [Meta ''BorshDeserialize'' NoValue,
       Meta ''Debug'' NoValue]\<rparr>, borsh_attr [Meta ''skip'' NoValue]]\<rparr>"

lemma item_check_attrs_borsh_skip_on_whole_item_result:
  "check_attributes (derive_input_of (StructItem item_check_attrs_borsh_skip_on_whole_item)) =
       Err ''`crate`, `use_discriminant` or `init` are the only supported attributes for `borsh`''"
  by (simp add: derive_eval item_check_attrs_borsh_skip_on_whole_item_def)

definition item_check_attrs_borsh_invalid_on_whole_item :: item_enum where
  "item_check_attrs_borsh_invalid_on_whole_item =
    \<lparr>en_ident = ''AWithUseDiscriminantFalse'', en_generics = \<lparr>gen_params = [], gen_where = None\<rparr>,
     en_variants = [\<lparr>var_ident = ''X'', var_fields = FieldsUnit, var_discriminant = None\<rparr>,
       \<lparr>var_ident = ''Y'', var_fields = FieldsUnit, var_discriminant = None\<rparr>],
     en_attrs = [\<lparr>attr_path = ''derive'', attr_args = Some [Meta ''BorshDeserialize'' NoValue,
       Meta ''Debug'' NoValue]\<rparr>, borsh_attr [Meta ''invalid'' NoValue]]\<rparr>"

lemma item_check_attrs_borsh_invalid_on_whole_item_result:
  "check_attributes (derive_input_of (EnumItem item_check_attrs_borsh_invalid_on_whole_item)) =
       Err ''`crate`, `use_discriminant` or `init` are the only supported attributes for `borsh`''"
  by (simp add: derive_eval item_check_attrs_borsh_invalid_on_whole_item_def)

definition item_check_attrs_init_function :: item_struct where
  "item_check_attrs_init_function =
    \<lparr>st_ident = ''A'', st_generics = \<lparr>gen_params = [ParamLifetime ''a''], gen_where = None\<rparr>,
     st_fields = FieldsNamed [test_field [] (Some ''x'') (ident_type ''u64'')],
     st_attrs = [\<lparr>attr_path = ''derive'', attr_args = Some [Meta ''BorshSerialize'' NoValue,
       Meta ''BorshDeserialize'' NoValue, Meta ''PartialEq'' NoValue, Meta ''Debug'' NoValue]\<rparr>,
       borsh_attr [Meta ''init'' (Assigned (ExprTokens ''initialization_method''))]]\<rparr>"

lemma item_check_attrs_init_function_result:
  "check_attributes (derive_input_of (StructItem item_check_attrs_init_function)) = Ok ()"
  by (simp add: derive_eval item_check_attrs_init_function_def)

definition item_check_attrs_init_function_with_use_discriminant_reversed :: item_enum where
  "item_check_attrs_init_function_with_use_discriminant_reversed =
    \<lparr>en_ident = ''A'', en_generics = \<lparr>gen_params = [], gen_where = None\<rparr>,
     en_variants = [\<lparr>var_ident = ''B'', var_fields = FieldsUnit, var_discriminant = None\<rparr>,
       \<lparr>var_ident = ''C'', var_fields = FieldsUnit, var_discriminant = None\<rparr>,
       \<lparr>var_ident = ''D'', var_fields = FieldsUnit, var_discriminant = Some [TNum 10]\<rparr>],
     en_attrs = [\<lparr>attr_path = ''derive'', attr_args = Some [Meta ''BorshSerialize'' NoValue,
       Meta ''BorshDeserialize'' NoValue, Meta ''PartialEq'' NoValue, Meta ''Debug'' NoValue]\<rparr>,
       borsh_attr [Meta ''use_discriminant'' (Assigned (ExprTokens ''true'')),
       Meta ''init'' (Assigned (ExprTokens ''initialization_method''))]]\<rparr>"

lemma item_check_attrs_init_function_with_use_discriminant_reversed_result:
  "check_attributes (derive_input_of (EnumItem item_check_attrs_init_function_with_use_discriminant_reversed)) =
       Ok ()"
  by (simp add: derive_eval item_check_attrs_init_function_with_use_discriminant_reversed_def)

definition item_reject_multiple_borsh_attrs :: item_enum where
  "item_reject_multiple_borsh_attrs =
    \<lparr>en_ident = ''A'', en_generics = \<lparr>gen_params = [], gen_where = None\<rparr>,
     en_variants = [\<lparr>var_ident = ''B'', var_fields = FieldsUnit, var_discriminant = None\<rparr>,
       \<lparr>var_ident = ''C'', var_fields = FieldsUnit, var_discriminant = None\<rparr>,
       \<lparr>var_ident = ''D'', var_fields = FieldsUnit, var_discriminant = Some [TNum 10]\<rparr>],
     en_attrs = [\<lparr>attr_path = ''derive'', attr_args = Some [Meta ''BorshSerialize'' NoValue,
       Meta ''BorshDeserialize'' NoValue, Meta ''PartialEq'' NoValue, Meta ''Debug'' NoValue]\<rparr>,
       borsh_attr [Meta ''use_discriminant'' (Assigned (ExprTokens ''true''))],
       borsh_attr [Meta ''init'' (Assigned (ExprTokens ''initialization_method''))]]\<rparr>"

lemma item_reject_multiple_borsh_attrs_result:
  "check_attributes (derive_input_of (EnumItem item_reject_multiple_borsh_attrs)) =
       Err ''multiple `borsh` attributes not allowed''"
  by (simp add: derive_eval item_reject_multiple_borsh_attrs_def)

definition item_check_attrs_init_function_with_use_discriminant :: item_enum where
  "item_check_attrs_init_function_with_use_discriminant =
    \<lparr>en_ident = ''A'', en_generics = \<lparr>gen_params = [], gen_where = None\<rparr>,
     en_variants = [\<lparr>var_ident = ''B'', var_fields = FieldsUnit, var_discriminant = None\<rparr>,
       \<lparr>var_ident = ''C'', var_fields = FieldsUnit, var_discriminant = None\<rparr>,
       \<lparr>var_ident = ''D'', var_fields = FieldsUnit, var_discriminant = Some [TNum 10]\<rparr>],
     en_attrs = [\<lparr>attr_path = ''derive'', attr_args = Some [Meta ''BorshSerialize'' NoValue,
       Meta ''BorshDeserialize'' NoValue, Meta ''PartialEq'' NoValue, Meta ''Debug'' NoValue]\<rparr>,
       borsh_attr [Meta ''init'' (Assigned (ExprTokens ''initialization_method'')),
       Meta ''use_discriminant'' (Assigned (ExprTokens ''true''))]]\<rparr>"

lemma item_check_attrs_init_function_with_use_discriminant_result:
  "check_attributes (derive_input_of (EnumItem item_check_attrs_init_function_with_use_discriminant)) = Ok ()"
  by (simp add: derive_eval item_check_attrs_init_function_with_use_discriminant_def)

definition item_check_attrs_init_function_wrong_format :: item_struct where
  "item_check_attrs_init_function_wrong_format =
    \<lparr>st_ident = ''A'', st_generics = \<lparr>gen_params = [ParamLifetime ''a''], gen_where = None\<rparr>,
     st_fields = FieldsNamed [test_field [] (Some ''x'') (ident_type ''u64''),
       test_field [] (Some ''b'') (ident_type ''B''), test_field [] (Some ''y'') (ident_type ''f32''),
       test_field [] (Some ''z'') (ident_type ''String''),
       test_field [] (Some ''v'') (applied_type ''Vec'' [ident_type ''String''])],
     st_attrs = [\<lparr>attr_path = ''derive'', attr_args = Some [Meta ''BorshDeserialize'' NoValue,
       Meta ''Debug'' NoValue]\<rparr>,
       borsh_attr [Meta ''init_func'' (Assigned (ExprTokens ''initialization_method''))]]\<rparr>"

lemma item_check_attrs_init_function_wrong_format_result:
  "check_attributes (derive_input_of (StructItem item_check_attrs_init_function_wrong_format)) =
       Err ''`crate`, `use_discriminant` or `init` are the only supported attributes for `borsh`''"
  by (simp add: derive_eval item_check_attrs_init_function_wrong_format_def)

definition item_init_function :: item_struct where
  "item_init_function =
    \<lparr>st_ident = ''A'', st_generics = \<lparr>gen_params = [ParamLifetime ''a''], gen_where = None\<rparr>,
     st_fields = FieldsNamed [test_field [] (Some ''x'') (ident_type ''u64'')],
     st_attrs = [\<lparr>attr_path = ''derive'', attr_args = Some [Meta ''BorshSerialize'' NoValue,
       Meta ''BorshDeserialize'' NoValue, Meta ''PartialEq'' NoValue, Meta ''Debug'' NoValue]\<rparr>,
       borsh_attr [Meta ''init'' (Assigned (ExprTokens ''initialization_method''))]]\<rparr>"

lemma item_init_function_result:
  "contains_initialize_with test_path (st_attrs item_init_function) = Ok (Some ''initialization_method'')"
  by (simp add: derive_eval item_init_function_def)

definition item_init_function_parsing_error :: item_struct where
  "item_init_function_parsing_error =
    \<lparr>st_ident = ''A'', st_generics = \<lparr>gen_params = [], gen_where = None\<rparr>,
     st_fields = FieldsNamed [test_field [] (Some ''lazy'') (applied_type ''Option'' [ident_type ''u64''])],
     st_attrs = [\<lparr>attr_path = ''derive'', attr_args = Some [Meta ''BorshSerialize'' NoValue,
       Meta ''BorshDeserialize'' NoValue, Meta ''PartialEq'' NoValue, Meta ''Debug'' NoValue]\<rparr>,
       borsh_attr [Meta ''init'' (Assigned (ExprTokens ''{strange; blocky}''))]]\<rparr>"

lemma item_init_function_parsing_error_result:
  "contains_initialize_with test_path (st_attrs item_init_function_parsing_error) = Err ''expected identifier''"
  by (simp add: derive_eval item_init_function_parsing_error_def)

definition item_init_function_with_use_discriminant :: item_enum where
  "item_init_function_with_use_discriminant =
    \<lparr>en_ident = ''A'', en_generics = \<lparr>gen_params = [], gen_where = None\<rparr>,
     en_variants = [\<lparr>var_ident = ''B'', var_fields = FieldsUnit, var_discriminant = None\<rparr>,
       \<lparr>var_ident = ''C'', var_fields = FieldsUnit, var_discriminant = None\<rparr>,
       \<lparr>var_ident = ''D'', var_fields = FieldsUnit, var_discriminant = None\<rparr>],
     en_attrs = [\<lparr>attr_path = ''derive'', attr_args = Some [Meta ''BorshSerialize'' NoValue,
       Meta ''BorshDeserialize'' NoValue, Meta ''PartialEq'' NoValue, Meta ''Debug'' NoValue]\<rparr>,
       borsh_attr [Meta ''init'' (Assigned (ExprTokens ''initialization_method'')),
       Meta ''use_discriminant'' (Assigned (ExprTokens ''true''))]]\<rparr>"

lemma item_init_function_with_use_discriminant_result:
  "contains_initialize_with test_path (en_attrs item_init_function_with_use_discriminant) =
       Ok (Some ''initialization_method'')"
  "contains_use_discriminant item_init_function_with_use_discriminant = Ok True"
  by (simp_all add: derive_eval item_init_function_with_use_discriminant_def)

definition item_init_function_with_use_discriminant_reversed :: item_enum where
  "item_init_function_with_use_discriminant_reversed =
    \<lparr>en_ident = ''A'', en_generics = \<lparr>gen_params = [], gen_where = None\<rparr>,
     en_variants = [\<lparr>var_ident = ''B'', var_fields = FieldsUnit, var_discriminant = None\<rparr>,
       \<lparr>var_ident = ''C'', var_fields = FieldsUnit, var_discriminant = None\<rparr>,
       \<lparr>var_ident = ''D'', var_fields = FieldsUnit, var_discriminant = None\<rparr>],
     en_attrs = [\<lparr>attr_path = ''derive'', attr_args = Some [Meta ''BorshSerialize'' NoValue,
       Meta ''BorshDeserialize'' NoValue, Meta ''PartialEq'' NoValue, Meta ''Debug'' NoValue]\<rparr>,
       borsh_attr [Meta ''use_discriminant'' (Assigned (ExprTokens ''true'')),
       Meta ''init'' (Assigned (ExprTokens ''initialization_method''))]]\<rparr>"

lemma item_init_function_with_use_discriminant_reversed_result:
  "contains_initialize_with test_path (en_attrs item_init_function_with_use_discriminant_reversed) =
       Ok (Some ''initialization_method'')"
  "contains_use_discriminant item_init_function_with_use_discriminant_reversed = Ok True"
  by (simp_all add: derive_eval item_init_function_with_use_discriminant_reversed_def)

definition item_init_function_with_use_discriminant_with_crate :: item_enum where
  "item_init_function_with_use_discriminant_with_crate =
    \<lparr>en_ident = ''A'', en_generics = \<lparr>gen_params = [], gen_where = None\<rparr>,
     en_variants = [\<lparr>var_ident = ''B'', var_fields = FieldsUnit, var_discriminant = None\<rparr>,
       \<lparr>var_ident = ''C'', var_fields = FieldsUnit, var_discriminant = None\<rparr>,
       \<lparr>var_ident = ''D'', var_fields = FieldsUnit, var_discriminant = None\<rparr>],
     en_attrs = [\<lparr>attr_path = ''derive'', attr_args = Some [Meta ''BorshSerialize'' NoValue,
       Meta ''BorshDeserialize'' NoValue, Meta ''PartialEq'' NoValue, Meta ''Debug'' NoValue]\<rparr>,
       borsh_attr [Meta ''init'' (Assigned (ExprTokens ''initialization_method'')),
       Meta ''crate'' (Assigned (LitStr ''reexporter::borsh'')),
       Meta ''use_discriminant'' (Assigned (ExprTokens ''true''))]]\<rparr>"

lemma item_init_function_with_use_discriminant_with_crate_result:
  "contains_initialize_with test_path (en_attrs item_init_function_with_use_discriminant_with_crate) =
       Ok (Some ''initialization_method'')"
  "contains_use_discriminant item_init_function_with_use_discriminant_with_crate = Ok True"
  "get_crate test_path (en_attrs item_init_function_with_use_discriminant_with_crate) =
       Ok (Some ''reexporter::borsh'')"
  by (simp_all add: derive_eval item_init_function_with_use_discriminant_with_crate_def)

end
