(* ===== verification/Library_Tests.thy ===== *)
theory Library_Tests
  imports Rust_Schema_Properties Schema_Properties
begin

section \<open>Tests inside the library\<close>

text \<open>
  The tests that the files of \<open>borsh/src\<close> carry themselves: \<open>de/hint.rs\<close>, \<open>de/mod.rs\<close>,
  \<open>schema/container_ext/max_size.rs\<close> and \<open>schema/container_ext/validate.rs\<close>. A definition is
  what a test computes, and the lemma after it what the test asserts.
\<close>

subsection \<open>The hint for the capacity\<close>

definition test_cautious_u8 :: "(io_error, nat) outcome" where
  "test_cautious_u8 = cautious 1 10"

lemma test_cautious_u8_passes: "test_cautious_u8 = Ok 10"
  by (simp add: test_cautious_u8_def cautious_def)

subsection \<open>The array reader does not leak\<close>

text \<open>
  \<open>MyType\<close>: its reader counts the values and panics on the eighth, its destructor counts too.
  The state is the rest of the slice and \<open>DESERIALIZE_COUNT\<close>.
\<close>

definition MyType_deserialize_reader :: "(bytes \<times> nat, u8) io" where
  "MyType_deserialize_reader = (\<lambda>(r, v). case u8_deserialize_reader slice_reader r of
       None \<Rightarrow> None
     | Some (Ok n, r') \<Rightarrow> if 7 \<le> v then Some (Panic, (r', v + 1)) else Some (Ok n, (r', v + 1))
     | Some (Err e, r') \<Rightarrow> Some (Err e, (r', v))
     | Some (Panic, r') \<Rightarrow> Some (Panic, (r', v)))"

text \<open>
  One call of the array's \<open>deserialize\<close> on zeros: whether it is an error (or a panic), and the
  two counters. What the guard holds is dropped, and so is an array that was returned.
\<close>

datatype call_end = IsOk | IsErr | IsPanic

definition deserialize_array_of_zeros :: "nat \<Rightarrow> nat \<Rightarrow> nat \<times> nat \<Rightarrow> (call_end \<times> nat \<times> nat) option" where
  "deserialize_array_of_zeros N k = (\<lambda>(deserialize_count, drop_count).
     case array_fill N MyType_deserialize_reader (replicate k 0, deserialize_count) of
       None \<Rightarrow> None
     | Some (Ok arr, dropped, (_, c)) \<Rightarrow> Some (IsOk, c, drop_count + length dropped + length arr)
     | Some (Err _, dropped, (_, c)) \<Rightarrow> Some (IsErr, c, drop_count + length dropped)
     | Some (Panic, dropped, (_, c)) \<Rightarrow> Some (IsPanic, c, drop_count + length dropped))"

text \<open>The three calls of the test, one after the other.\<close>

definition array_deserialization_doesnt_leak :: "(call_end \<times> nat \<times> nat) option list" where
  "array_deserialization_doesnt_leak =
     (let first = deserialize_array_of_zeros 5 3 (0, 0);
          second = Option.bind first (\<lambda>(_, counts). deserialize_array_of_zeros 2 2 counts);
          third = Option.bind second (\<lambda>(_, counts). deserialize_array_of_zeros 3 3 counts)
      in [first, second, third])"

lemma MyType_reads:
  "MyType_deserialize_reader (x # s, v) = Some (if 7 \<le> v then (Panic, (s, v + 1)) else (Ok x, (s, v + 1)))"
  "\<exists>e. MyType_deserialize_reader ([], v) = Some (Err e, ([], v))"
  by (auto simp: MyType_deserialize_reader_def u8_read_Ok u8_read_eof)

lemma array_deserialization_doesnt_leak_passes:
  "array_deserialization_doesnt_leak = [Some (IsErr, 3, 3), Some (IsOk, 5, 5), Some (IsPanic, 8, 7)]"
proof -
  obtain e where e: "MyType_deserialize_reader ([], 3) = Some (Err e, ([], 3))" using MyType_reads(2) by blast
  note run = deserialize_array_of_zeros_def array_fill_def fill_buffer_def uninit_guard_def fill_elem_def on_reader_def
    and_then_def ret_def drop_guard_def transmute_to_array_def upt_rec MyType_reads(1) numeral_eq_Suc
  have "deserialize_array_of_zeros 5 3 (0, 0) = Some (IsErr, 3, 3)"
    using e by (simp add: run)
  moreover have "deserialize_array_of_zeros 2 2 (3, 3) = Some (IsOk, 5, 5)" by (simp add: run)
  moreover have "deserialize_array_of_zeros 3 3 (5, 5) = Some (IsPanic, 8, 7)" by (simp add: run)
  ultimately show ?thesis by (simp add: array_deserialization_doesnt_leak_def)
qed

subsection \<open>Widths of tags\<close>

text \<open>The table of the test: a width, a maximum, and the result that is wanted.\<close>

definition tag_width_cases :: "(u8 \<times> u64 \<times> (validate_error, unit) outcome) list" where
  "tag_width_cases =
     (let narrow_err = Err (TagTooNarrow ''test''); power_of_two_err = Err (TagNotPowerOfTwo ''test'')
      in [(0, 2 ^ 64 - 1, Ok ()), (1, 2 ^ 8 - 1, Ok ()), (1, 2 ^ 8 - 1 + 1, narrow_err), (2, 2 ^ 16 - 1, Ok ()),
          (2, 2 ^ 16 - 1 + 1, narrow_err), (3, 100, power_of_two_err), (4, 2 ^ 32 - 1, Ok ()),
          (4, 2 ^ 32 - 1 + 1, narrow_err), (5, 100, power_of_two_err), (6, 100, power_of_two_err),
          (7, 100, power_of_two_err), (8, 2 ^ 64 - 1, Ok ())])"

definition test_check_tag_width :: "(validate_error, unit) outcome list" where
  "test_check_tag_width = List.map (\<lambda>(width, mx, want). check_length_width ''test'' width mx) tag_width_cases"

lemma test_check_tag_width_passes:
  "test_check_tag_width = List.map (\<lambda>(width, mx, want). want) tag_width_cases"
  by (simp add: test_check_tag_width_def tag_width_cases_def check_length_width_def Let_def)

subsection \<open>Recursive types of size zero\<close>

text \<open>
  \<open>struct RecursiveExitSequence(Vec<RecursiveExitSequence>)\<close> and
  \<open>struct RecursiveNoExitStructUnnamed(Box<RecursiveNoExitStructUnnamed>)\<close>.
\<close>

definition RecursiveExitSequence :: item_struct where
  "RecursiveExitSequence = \<lparr>st_ident = ''RecursiveExitSequence'', st_generics = \<lparr>gen_params = [], gen_where = None\<rparr>,
     st_fields = FieldsUnnamed [plain None (applied_type ''Vec'' [ident_type ''RecursiveExitSequence''])], st_attrs = []\<rparr>"

definition RecursiveNoExitStructUnnamed :: item_struct where
  "RecursiveNoExitStructUnnamed = \<lparr>st_ident = ''RecursiveNoExitStructUnnamed'',
     st_generics = \<lparr>gen_params = [], gen_where = None\<rparr>,
     st_fields = FieldsUnnamed [plain None (applied_type ''Box'' [ident_type ''RecursiveNoExitStructUnnamed''])], st_attrs = []\<rparr>"

definition zero_size_program :: rust_program where
  "zero_size_program = test_program\<lparr>pg_items :=
     [''RecursiveExitSequence'' \<mapsto> DerivedStruct RecursiveExitSequence,
      ''RecursiveNoExitStructUnnamed'' \<mapsto> DerivedStruct RecursiveNoExitStructUnnamed]\<rparr>"

text \<open>\<open>BorshSchemaContainer::for_type\<close> and \<open>is_zero_size\<close> of its declaration.\<close>

definition zero_size_of :: "string \<Rightarrow> (zero_size_error, bool) outcome option" where
  "zero_size_of name =
     (case for_type (user_schema zero_size_program (\<lambda>n. n) (no_schema (\<lambda>n. n)) 3 name) of
         Some (Ok schema) \<Rightarrow> is_zero_size 64 (container_declaration schema) schema
       | _ \<Rightarrow> None)"

definition test_is_zero_size_recursive_check_bypassed :: "(zero_size_error, bool) outcome option" where
  "test_is_zero_size_recursive_check_bypassed = zero_size_of ''RecursiveExitSequence''"

definition test_is_zero_size_recursive_check_err :: "(zero_size_error, bool) outcome option" where
  "test_is_zero_size_recursive_check_err = zero_size_of ''RecursiveNoExitStructUnnamed''"

text \<open>Each derived schema, from what the names inside it stand for.\<close>

lemma zero_size_codes:
  "\<exists>code. schema_struct_process no_literals type_tokens ''borsh'' RecursiveExitSequence = Ok code \<and> snd (sc_declaration code) = []"
  "\<exists>code. schema_struct_process no_literals type_tokens ''borsh'' RecursiveNoExitStructUnnamed = Ok code \<and>
     snd (sc_declaration code) = []"
  by (simp_all add: RecursiveExitSequence_def RecursiveNoExitStructUnnamed_def applied_type_def field_index_def schema_process_eval)

lemma zero_size_items:
  "pg_items zero_size_program ''RecursiveExitSequence'' = Some (DerivedStruct RecursiveExitSequence)"
  "pg_items zero_size_program ''RecursiveNoExitStructUnnamed'' = Some (DerivedStruct RecursiveNoExitStructUnnamed)"
  "pg_resolve zero_size_program name = std_type" "pg_literals zero_size_program = no_literals"
  "pg_tokens zero_size_program = type_tokens" "pg_cratename zero_size_program = ''borsh''"
  by (simp_all add: zero_size_program_def)

lemma zero_size_item_schemas:
  shows "item_schema zero_size_program (\<lambda>n. n) S ''RecursiveExitSequence'' =
      derived_struct_schema ''RecursiveExitSequence'' [] (Unnamed_Fields
        [plain_field [] (collection_schema ''Vec'' (S ''RecursiveExitSequence''))])"
    and "item_schema zero_size_program (\<lambda>n. n) S ''RecursiveNoExitStructUnnamed'' =
      derived_struct_schema ''RecursiveNoExitStructUnnamed'' [] (Unnamed_Fields
        [plain_field [] (transparent_schema (S ''RecursiveNoExitStructUnnamed''))])"
proof -
  have wf: "fields_wf (st_fields RecursiveExitSequence)" "fields_wf (st_fields RecursiveNoExitStructUnnamed)"
    by (simp_all add: RecursiveExitSequence_def RecursiveNoExitStructUnnamed_def)
  obtain a b where a: "schema_struct_process no_literals type_tokens ''borsh'' RecursiveExitSequence = Ok a" "snd (sc_declaration a) = []"
    and b: "schema_struct_process no_literals type_tokens ''borsh'' RecursiveNoExitStructUnnamed = Ok b" "snd (sc_declaration b) = []"
    using zero_size_codes by blast
  let ?E = "item_env zero_size_program S"
  show "item_schema zero_size_program (\<lambda>n. n) S ''RecursiveExitSequence'' =
      derived_struct_schema ''RecursiveExitSequence'' [] (Unnamed_Fields
        [plain_field [] (collection_schema ''Vec'' (S ''RecursiveExitSequence''))])"
    using struct_code_is [OF a(1) wf(1), of "?E ''RecursiveExitSequence''"] a
    by (simp add: item_schema_def zero_size_items)
      (simp add: RecursiveExitSequence_def schema_field_of_def plain_field_def item_env_def zero_size_items schema_declaration_def
        schema_definitions_def applied_type_def ident_type_def)
  show "item_schema zero_size_program (\<lambda>n. n) S ''RecursiveNoExitStructUnnamed'' =
      derived_struct_schema ''RecursiveNoExitStructUnnamed'' [] (Unnamed_Fields
        [plain_field [] (transparent_schema (S ''RecursiveNoExitStructUnnamed''))])"
    using struct_code_is [OF b(1) wf(2), of "?E ''RecursiveNoExitStructUnnamed''"] b
    by (simp add: item_schema_def zero_size_items)
      (simp add: RecursiveNoExitStructUnnamed_def schema_field_of_def plain_field_def item_env_def zero_size_items schema_declaration_def
        schema_definitions_def applied_type_def ident_type_def)
qed

lemma zero_size_containers:
  "for_type (user_schema zero_size_program (\<lambda>n. n) (no_schema (\<lambda>n. n)) 3 ''RecursiveExitSequence'') =
     Some (Ok (container_new ''RecursiveExitSequence''
       [(''RecursiveExitSequence'', Struct (UnnamedFields [''Vec<RecursiveExitSequence>''])),
        (''Vec<RecursiveExitSequence>'', tagged_sequence ''RecursiveExitSequence'')]))"
  "for_type (user_schema zero_size_program (\<lambda>n. n) (no_schema (\<lambda>n. n)) 3 ''RecursiveNoExitStructUnnamed'') =
     Some (Ok (container_new ''RecursiveNoExitStructUnnamed''
       [(''RecursiveNoExitStructUnnamed'', Struct (UnnamedFields [''RecursiveNoExitStructUnnamed'']))]))"
  by (simp_all add: eval_nat_numeral zero_size_item_schemas)
    (simp_all add: for_type_def derived_struct_schema_def derived_declaration_def plain_field_def field_definitions_def
      field_declaration_def transparent_schema_def collection_schema_def add_definition_def and_then_def ret_def less_char_def Let_def)

lemma test_is_zero_size_passes:
  "test_is_zero_size_recursive_check_bypassed = Some (Ok False)"
  "test_is_zero_size_recursive_check_err = Some (Err ZeroRecursive)"
proof -
  note run = zero_size_of_def zero_size_containers is_zero_size_def size_fuel_def container_new_def size_eval tagged_sequence_def DEFAULT_LENGTH_WIDTH_def
  show "test_is_zero_size_recursive_check_bypassed = Some (Ok False)"
    unfolding test_is_zero_size_recursive_check_bypassed_def by (simp add: run)
  show "test_is_zero_size_recursive_check_err = Some (Err ZeroRecursive)"
    unfolding test_is_zero_size_recursive_check_err_def by (simp add: run)
qed

end
