(* ===== verification/Spec2Isabelle.thy ===== *)
theory Spec2Isabelle
  imports Codec_Properties Schema_Properties Schema_Helpers Derive_Properties Derive_Composition
    Custom_Reader_Test Fuzz_Targets Json_Main Schema_Schema Rust_Program_Properties Rust_Schema_Properties
    Serialize_Snapshots Deserialize_Snapshots Schema_Snapshots Attribute_Tests Library_Tests
begin

text \<open>
  \<^bold>\<open>A model of borsh-rs and its correctness properties.\<close>

  Borsh is a binary serialization format: integers are little-endian at their width, a
  sequence is preceded by its length in four bytes, an enum by a tag of one byte, and every
  value has exactly one encoding. The repository has four parts, which call each other in
  this order.

  \<^item> The derive macros (\<open>borsh-derive/src\<close>) turn the declaration of a struct or an enum,
    with its \<open>#[borsh(...)]\<close> attributes, into implementations of the traits.
  \<^item> The codec (\<open>borsh/src/ser\<close>, \<open>borsh/src/de\<close>) has the traits \<open>BorshSerialize\<close> and
    \<open>BorshDeserialize\<close>, their implementations for the types of the standard library, and the
    entry points such as \<open>to_vec\<close> and \<open>from_slice\<close>.
  \<^item> The I/O layer (\<open>borsh/src/nostd_io.rs\<close>) has the traits \<open>Read\<close> and \<open>Write\<close> and the error
    type that the codec is written against when the crate is built without \<open>std\<close>.
  \<^item> Schemas (\<open>borsh/src/schema.rs\<close>, \<open>schema/container_ext\<close>, \<open>schema_helpers.rs\<close>) describe
    the encoding of a type as data: a table of definitions that is built by a trait of its
    own, checked and measured by three traversals, and itself serialized in front of values.

  \<^bold>\<open>Conventions.\<close> An operation that runs on a reader, a writer or a table of definitions is an
  effect: a function from the state to \<open>None\<close>, when a loop of the code never returns, or to an
  outcome and the next state (\<open>Borsh_Prelude\<close>). An outcome is a value (\<open>Ok\<close>), an error that
  the code returns (\<open>Err\<close>), or a panic (\<open>Panic\<close>); \<open>and_then\<close> is the operator \<open>?\<close>. A trait is
  a record with a field per method, so an implementation that overrides a provided method is
  a record that differs in that field. Machine integers are words of their width; the width
  of \<open>usize\<close> is a parameter where the code depends on it, and the compiler's \<open>size_of\<close> is a
  field of the implementation. Definitions have the names of the functions that they model,
  prefixed by the type where the methods of two types would clash.

  \<^bold>\<open>Theories of the codec.\<close>

  \<^item> \<open>Nostd_Io\<close>: \<open>nostd_io.rs\<close>. \<open>io_error\<close> with its kinds and messages; \<open>default_read_exact\<close>
    and \<open>default_write_all\<close>, the two loops of the provided methods, as partial functions; the
    implementations for slices and vectors. Locales \<open>exact_reader\<close>, \<open>lawful_reader\<close>,
    \<open>interruptible_read\<close> and \<open>sink\<close> are what a client may rely on; the provided \<open>read_exact\<close>
    gives an exact reader for every interruptible one, by a sublocale.
  \<^item> \<open>Borsh_Traits\<close>: the traits, the provided methods, \<open>to_vec\<close>, \<open>to_writer\<close>,
    \<open>object_length\<close>, \<open>from_slice\<close>, \<open>from_reader\<close>, and \<open>hint::cautious\<close>. The contracts are
    \<open>serialize_impl\<close> (on every sink, the writer receives the encoding), \<open>deserialize_impl\<close> (the
    encoding is read back and nothing else is consumed, in the bulk methods too),
    \<open>canonical_impl\<close> (what is read is an encoding), and \<open>simulated_impl\<close> (the result depends
    on the bytes that the reader delivers, not on how it delivers them).
  \<^item> \<open>Borsh_Primitives\<close>, \<open>Borsh_Collections\<close>, \<open>Borsh_Composite\<close>: the implementations, in the
    order of the files \<open>ser/mod.rs\<close> and \<open>de/mod.rs\<close>: \<open>u8\<close> with its bulk paths, integers,
    floats, \<open>Option\<close>, \<open>Result\<close>; slices, vectors, deques, linked lists, strings, ordered
    and hashed maps and sets, and the optional crates; tuples, arrays with the guard that
    drops the elements already read, ranges, pointers, cells, addresses.
  \<^item> \<open>Borsh_Collection_Laws\<close>, \<open>Borsh_Composite_Laws\<close>: the contracts for these types, from the
    contracts of their elements. The locales are interpreted on the closed types (\<open>u8\<close>, the
    integers, floats, \<open>bool\<close>, \<open>usize\<close>, strings, unit); a type with parameters has a lemma
    that ends in the locale's predicate.
  \<^item> \<open>Borsh_Totality\<close>: locale \<open>total_impl\<close>: on every slice the implementation returns, without
    a panic, and leaves a suffix of the slice. It is interpreted on the closed types; a type
    with parameters has a lemma.
  \<^item> \<open>Codec_Properties\<close>: C1, C2, C4 to C8. Round trips and canonicity of vectors, strings and
    maps; termination of \<open>read_exact\<close>; the memory safety of the array reader. Lemmas on
    \<open>object_length\<close>, the bulk path, the bound on reserved memory, and refusals.

  \<^bold>\<open>Theories of schemas.\<close>

  \<^item> \<open>Schema_Model\<close>: \<open>Definition\<close>, \<open>Fields\<close>, the container, the trait \<open>BorshSchema\<close> as a pair of
    the declaration and the effect on the table of definitions, \<open>add_definition\<close> with its panic
    on a conflicting redefinition, and the implementations for the types of the library.
    \<open>derived_struct_schema\<close> and \<open>derived_enum_schema\<close> are the implementations that the
    derive makes for an item, in terms of the implementations of its fields.
  \<^item> \<open>Schema_Laws\<close>: locale \<open>schema_impl\<close> (adding a type extends the table to one that is closed
    under references, and adding it again changes nothing), for every implementation.
  \<^item> \<open>Schema_Meaning\<close>: the specification \<open>encodes\<close>, an inductive relation between
    declarations and byte strings, and locale \<open>described_impl\<close>: what the codec writes for a
    type is an encoding by the schema of the type.
  \<^item> \<open>Schema_Size\<close>, \<open>Schema_Validate\<close>: \<open>max_serialized_size\<close>, \<open>is_zero_size\<close>, \<open>validate\<close>. The
    recursion of the code is bounded only by its stack of visited declarations; the model
    has the stack and, besides, a fuel. \<open>size_fuel\<close> is the number of definitions plus one:
    each nested call pushes a declaration that is defined and not on the stack, so the fuel is
    never exhausted, which is proved for every container (\<open>traversals_end\<close>; C18 has besides
    when they do not panic). The theories show that the sizes are sound for \<open>encodes\<close>, and
    that \<open>validate\<close>, although it cuts every path that returns to the stack, has checked each
    reachable declaration when it accepts.
  \<^item> \<open>Schema_Generated\<close>: \<open>implemented\<close>, the closure of the implementations, and what holds of every
    container that they generate.
  \<^item> \<open>Schema_Helpers\<close>: the codec of schema containers and the functions of
    \<open>schema_helpers.rs\<close>, with C33.
  \<^item> \<open>Schema_Properties\<close>: C12 to C19.
  \<^item> \<open>Schema_Schema\<close>: \<open>generate_schema_schema.rs\<close>, the program that writes the schema of
    \<open>BorshSchemaContainer\<close> to a file, and C39: that schema describes the bytes of every
    container, so also those of the file (\<open>schema_file_describes_itself\<close>).

  \<^bold>\<open>Theories of the derive macros.\<close>

  \<^item> \<open>Derive_Syntax\<close>: the part of \<open>syn\<close>'s syntax trees that the macros inspect.
  \<^item> \<open>Derive_Attributes\<close>: \<open>internals/attributes\<close>: the table-driven parser of nested keys, the
    attributes of fields and of items, and their checks.
  \<^item> \<open>Derive_Generics\<close>: \<open>internals/generics.rs\<close>: the visitor that finds which type parameters a
    field uses, and through which associated types.
  \<^item> \<open>Derive_Discriminant\<close>: \<open>internals/enum_discriminant.rs\<close>. The macro continues the tokens of an
    explicit discriminant by \<open>+ 1\<close>; the theory has an operator-precedence parser and an evaluator
    for constant expressions, and shows when the result is the discriminant of the compiler.
  \<^item> \<open>Derive_Generate\<close>, \<open>Derive_Schema\<close>: the functions \<open>process\<close> of the three derives. The
    generated code is data: calls, arms, match headers, bounds.
  \<^item> \<open>Derive_Codec\<close>, \<open>Derive_Enums\<close>: what the generated code does, as effects on readers and
    writers, and which arm a value or a tag selects. Code that the compiler refuses has no
    behaviour. \<open>Derive_Schema_Laws\<close> shows the same for the generated schema: it is the
    implementation of \<open>Schema_Model\<close>.
  \<^item> \<open>Derive_Bounds\<close>: the \<open>where\<close> clauses of the generated implementations as a set, against the
    inductive relation \<open>occurs_type\<close>, and against \<open>resolves\<close>, the search for an implementation
    by the structure of a type (C28).
  \<^item> \<open>Derive_Entry\<close>: \<open>lib.rs\<close> and \<open>internals/cratename.rs\<close>, the entry points with all their checks.
  \<^item> \<open>Derive_Instances\<close>: derived implementations as records of the traits. They meet the
    contracts of \<open>Borsh_Traits\<close> when those of the fields do, so a derived type can be an
    element, a value of a map, or a field of another derived type.
  \<^item> \<open>Derive_Totality\<close>: derived decoders return on every slice, and read the same from every
    lawful reader, when those of the fields do.
  \<^item> \<open>Derive_Properties\<close>, \<open>Derive_Composition\<close>: C20 to C29, C31 and C32. What
    the macros accept and the bounds that they generate; the round trips and the canonicity of derived types; hostile input and
    other readers; derived schemas against derived bytes.

  \<^bold>\<open>Theories of programs with derived types.\<close> Derived types may contain each other and themselves.
  A program (\<open>rust_program\<close>) is its items by name; the implementation of a name at level \<open>n\<close> is
  the code that the macros generate for the item, run on the implementations of level
  \<open>n - 1\<close>.

  \<^item> \<open>Rust_Types\<close>, \<open>Rust_Type_Laws\<close>: the types and values, the levels, and the contracts of
    \<open>Borsh_Traits\<close> at every level. A value of depth \<open>n\<close> is written and read the same at every
    level above \<open>n\<close>.
  \<^item> \<open>Rust_Readers\<close>: every type is read the same from every lawful reader.
  \<^item> \<open>Rust_Termination\<close>: a bound on the levels that decoding a slice needs, from its length.
  \<^item> \<open>Rust_Program_Properties\<close>: C3 and C34 to C36, with the recursive types of \<open>borsh/tests\<close>.
  \<^item> \<open>Rust_Schemas\<close>, \<open>Rust_Schema_Meaning\<close>, \<open>Rust_Schema_Properties\<close>: the schemas of such programs,
    which are finite because a struct that is in the table is not visited again; C37 and C38.

  \<^bold>\<open>Theories of the programs and tests that use the library.\<close>

  \<^item> \<open>Custom_Readers\<close>, \<open>Custom_Reader_Test\<close>: \<open>borsh/tests/custom_reader/test_custom_reader.rs\<close>: readers
    that deliver less than asked for are lawful, by the locale of the provided \<open>read_exact\<close>, and
    what the tests check of a derived struct read from them.
  \<^item> \<open>Fuzz_Targets\<close>: \<open>fuzz/fuzz-run/src/main.rs\<close>, with C9: no input makes one of the types of the
    fuzzer panic. The program is the list of its types; the harness that feeds it is outside.
  \<^item> \<open>Json_Example\<close>, \<open>Json_Properties\<close>, \<open>Json_Main\<close>: \<open>borsh/examples/serde_json_value.rs\<close>, with
    C10, C11 and C30. A
    hand-written codec of a recursive type, whose functions are named in the attributes of a
    derived wrapper, which is the value type of a map in a derived struct. The decoder is a
    partial function, because its recursion follows the input; it is shown to return, by
    induction on the length of the input, each value consuming at least its tag.
  \<^item> \<open>Derive_Test_Syntax\<close>, \<open>Serialize_Snapshots\<close>, \<open>Deserialize_Snapshots\<close>, \<open>Schema_Snapshots\<close>,
    \<open>Attribute_Tests\<close>: the tests inside \<open>borsh-derive/src\<close>. Each expands an item or parses its
    attributes; the lemma after it evaluates the model on the same item, to the code of the
    recorded snapshot or its error.
  \<^item> \<open>Library_Tests\<close>: the tests inside \<open>borsh/src\<close>, with what they assert.

  \<^bold>\<open>Parameters.\<close> What is not in the repository is an argument of the definitions that use it: the
  parsers of \<open>syn\<close> for the texts inside attributes and the test for identifiers, the look-up
  of the crate's name in the caller's \<open>Cargo.toml\<close>, the implementations for the types of fields in derived code, \<open>Default\<close>
  and \<open>init\<close>, the functions named in attributes, the iteration order and the collecting of
  hashed maps, the containers of \<open>indexmap\<close>, \<open>bytes\<close>, \<open>bson\<close> and \<open>ascii\<close>, the numbers and maps of
  \<open>serde_json\<close>, and the compiler's sizes of types. A property that
  depends on one has a hypothesis that states its documented behaviour, and a witness.

  \<^bold>\<open>What the model shows of the code.\<close> Besides the properties that hold, some theorems state
  what the code does at odds with its intention: the flow information and scope of
  \<open>SocketAddrV6\<close> are lost (\<open>socket_v6_round_trip\<close>); the maximum size of an array of enums is too small (after C17);
  \<open>is_zero_size\<close> takes a type that mentions an empty array type twice for recursive (in
  \<open>Schema_Properties\<close>); \<open>validate\<close> panics on a range of all of \<open>u64\<close> (there too); the macro
  computes other discriminants than the compiler when an operator of low precedence is
  continued by \<open>+ 1\<close> (after C21); a field named \<open>writer\<close> of a variant hides the writer
  (\<open>writer_field_captured\<close>); the derive of \<open>BorshSchema\<close> panics on an enum with a raw identifier
  (\<open>raw_variant_panics\<close>);
  the struct that the schema derive makes for a variant may lose a type parameter
  (\<open>phantom_variant_refused\<close>) or take the name of another type (\<open>variant_names_collide\<close>); the
  example's decoder accepts two encodings of a number (\<open>number_not_canonical\<close>).

  \<^bold>\<open>Not modelled.\<close> Benchmarks and the other tests: they only call the library. The depth of
  the machine stack is not modelled: a decoder that recurses on nested input returns here however
  deep the input nests. Spans, the text of diagnostics of the macros, and the fixed tokens around
  generated implementations are left out. Unions appear only as the panic of the derives. Floats are
  their bit patterns; a pointer is its content, because sharing cannot be observed in an
  encoding; a \<open>RefCell\<close> is its content and whether it is mutably borrowed.
\<close>

end
